(* ===== verification/Prelude.thy ===== *)
theory Prelude
  imports Main "HOL-Library.Char_ord" "HOL-Library.List_Lexorder" "HOL-Library.Product_Lexorder"
begin

text \<open>
  What every component of the development shares: the error type of
  \<^verbatim>\<open>types/error.rs\<close> and the result type over it, checked 64-bit arithmetic, Rust strings as
  byte lists, transactions that roll back on an error, and the SQL statements of the kernel
  (\<^verbatim>\<open>SELECT\<close>, \<^verbatim>\<open>UPDATE ... WHERE\<close>, \<^verbatim>\<open>DELETE\<close>, \<^verbatim>\<open>INSERT ... ON CONFLICT\<close>) as operations on lists of
  rows. A table is the list of its rows in rowid order, so every statement is executable and
  the number of affected rows is a length.
\<close>

named_theorems sql_simps \<open>membership, keys and counts after a SQL statement\<close>

section \<open>Errors and results\<close>

text \<open>
  \<^verbatim>\<open>Error\<close> of \<^verbatim>\<open>types/error.rs\<close>. The message texts are not modelled, so a variant that carries
  only a message has no argument; a variant the code matches on keeps the payload it inspects.
\<close>

datatype compile_failure =
    Retryable string "nat option"
  | Permanent string
  | InvalidOutput string string

datatype kerror =
    InvalidEntityId | EntityNotFound | DuplicateEntity
  | Database | Migration | Serialization | SerializationYaml | Io
  | VectorStore | QdrantConnection | External
  | Compilation
  | CompileFailed compile_failure
  | QualityBelowThreshold
  | ContentHashMismatch string string
  | QueryError | QugRewrite | FilterError
  | InvalidConfig | DomainPackNotFound | Validation | Internal

type_synonym 'a result = "kerror + 'a"

abbreviation Ok :: "'a \<Rightarrow> 'a result" where "Ok \<equiv> Inr"
abbreviation Err :: "kerror \<Rightarrow> 'a result" where "Err \<equiv> Inl"

text \<open>The question-mark operator of Rust: an error leaves the function, a value goes on.\<close>

definition try_bind :: "'a result \<Rightarrow> ('a \<Rightarrow> 'b result) \<Rightarrow> 'b result" where
  "try_bind r f = (case r of Inl e \<Rightarrow> Inl e | Inr a \<Rightarrow> f a)"

lemma try_bind_simps [simp]:
  "try_bind (Inl e) f = Inl e"
  "try_bind (Inr a) f = f a"
  by (simp_all add: try_bind_def)

lemma try_bind_eq_Inr [simp]:
  "try_bind r f = Inr b \<longleftrightarrow> (\<exists>a. r = Inr a \<and> f a = Inr b)"
  by (cases r) auto

lemma try_bind_eq_Inl:
  "try_bind r f = Inl e \<longleftrightarrow> r = Inl e \<or> (\<exists>a. r = Inr a \<and> f a = Inl e)"
  by (cases r) auto

definition guard_that :: "bool \<Rightarrow> kerror \<Rightarrow> unit result" where
  "guard_that b e = (if b then Inr () else Inl e)"

lemma guard_that_eq_Inr [simp]: "guard_that b e = Inr u \<longleftrightarrow> b"
  by (simp add: guard_that_def)

text \<open>\<^verbatim>\<open>collect::<Result<Vec<_>>>\<close>: the first error, or all the values.\<close>

fun collect_results :: "'a result list \<Rightarrow> 'a list result" where
  "collect_results [] = Inr []"
| "collect_results (r # rs) =
     try_bind r (\<lambda>a. try_bind (collect_results rs) (\<lambda>as. Inr (a # as)))"

lemma collect_results_eq_Inr:
  "collect_results rs = Inr as \<longleftrightarrow> rs = map Inr as"
  by (induction rs arbitrary: as) auto

section \<open>Transactions\<close>

text \<open>
  \<^verbatim>\<open>SqliteConnection::immediate_transaction\<close>: the closure runs on the locked connection; an \<open>Ok\<close>
  commits what it wrote, an \<open>Err\<close> rolls all of it back. Every kernel handler is one such call.
\<close>

definition immediate_transaction ::
  "('db \<Rightarrow> ('a \<times> 'db) result) \<Rightarrow> 'db \<Rightarrow> 'a result \<times> 'db" where
  "immediate_transaction f db =
     (case f db of Inl e \<Rightarrow> (Inl e, db) | Inr (a, db') \<Rightarrow> (Inr a, db'))"

lemma immediate_transaction_Err:
  "f db = Inl e \<Longrightarrow> immediate_transaction f db = (Inl e, db)"
  by (simp add: immediate_transaction_def)

lemma immediate_transaction_Ok:
  "f db = Inr (a, db') \<Longrightarrow> immediate_transaction f db = (Inr a, db')"
  by (simp add: immediate_transaction_def)

lemma immediate_transaction_cases:
  assumes "immediate_transaction f db = (r, db')"
  obtains (rollback) e where "f db = Inl e" "r = Inl e" "db' = db"
        | (commit) a where "f db = Inr (a, db')" "r = Inr a"
  using assms by (auto simp: immediate_transaction_def split: sum.splits)

section \<open>Sixty-four bit integers\<close>

text \<open>
  Counters and timestamps of the kernel are \<^verbatim>\<open>i64\<close>. They are modelled as \<open>int\<close>; where the code
  uses \<^verbatim>\<open>checked_add\<close> the overflow check is written out.
\<close>

definition i64_max :: int where "i64_max = 2 ^ 63 - 1"
definition i64_min :: int where "i64_min = - (2 ^ 63)"

definition checked_add :: "int \<Rightarrow> int \<Rightarrow> int option" where
  "checked_add a b = (if i64_min \<le> a + b \<and> a + b \<le> i64_max then Some (a + b) else None)"

lemma checked_add_Some [simp]:
  "checked_add a b = Some c \<longleftrightarrow> c = a + b \<and> i64_min \<le> a + b \<and> a + b \<le> i64_max"
  by (auto simp: checked_add_def)

definition ok_or :: "kerror \<Rightarrow> 'a option \<Rightarrow> 'a result" where
  "ok_or e v = (case v of None \<Rightarrow> Inl e | Some a \<Rightarrow> Inr a)"

lemma ok_or_eq_Inr [simp]: "ok_or e v = Inr a \<longleftrightarrow> v = Some a"
  by (cases v) (auto simp: ok_or_def)

section \<open>Strings\<close>

text \<open>
  A Rust \<^verbatim>\<open>String\<close> is its UTF-8 bytes, one \<open>char\<close> per byte, so \<open>length\<close> is \<^verbatim>\<open>len()\<close> and the
  list order is the byte order of \<^verbatim>\<open>Ord for str\<close>. \<open>scalar_count\<close> is \<^verbatim>\<open>chars().count()\<close>: every byte
  but the continuation bytes \<^verbatim>\<open>10xxxxxx\<close> starts a character.
\<close>

definition is_continuation :: "char \<Rightarrow> bool" where
  "is_continuation c = (128 \<le> (of_char c :: nat) \<and> (of_char c :: nat) < 192)"

definition scalar_count :: "string \<Rightarrow> nat" where
  "scalar_count s = length (filter (\<lambda>c. \<not> is_continuation c) s)"

lemma scalar_count_le_length: "scalar_count s \<le> length s"
  by (simp add: scalar_count_def)

text \<open>
  \<^verbatim>\<open>str::trim\<close> on the ASCII white space (tab, line feed, vertical tab, form feed, carriage
  return, space). The other Unicode spaces that \<^verbatim>\<open>trim\<close> removes are not modelled.
\<close>

definition is_space :: "char \<Rightarrow> bool" where
  "is_space c = ((9 \<le> (of_char c :: nat) \<and> (of_char c :: nat) \<le> 13) \<or> (of_char c :: nat) = 32)"

definition trim :: "string \<Rightarrow> string" where
  "trim s = rev (dropWhile is_space (rev (dropWhile is_space s)))"

lemma trim_Nil [simp]: "trim [] = []"
  by (simp add: trim_def)

fun starts_with :: "string \<Rightarrow> string \<Rightarrow> bool" where
  "starts_with s [] = True"
| "starts_with [] (p # ps) = False"
| "starts_with (c # cs) (p # ps) = (c = p \<and> starts_with cs ps)"

lemma starts_with_iff: "starts_with s p \<longleftrightarrow> (\<exists>t. s = p @ t)"
  by (induction s p rule: starts_with.induct) auto

text \<open>\<^verbatim>\<open>format!\<close> of an unsigned number.\<close>

fun nat_text :: "nat \<Rightarrow> string" where
  "nat_text n =
     (if n < 10 then [char_of (48 + n)] else nat_text (n div 10) @ [char_of (48 + n mod 10)])"

declare nat_text.simps [simp del]

section \<open>SQL statements on lists of rows\<close>

definition sql_update :: "('r \<Rightarrow> bool) \<Rightarrow> ('r \<Rightarrow> 'r) \<Rightarrow> 'r list \<Rightarrow> 'r list" where
  "sql_update P f tbl = map (\<lambda>r. if P r then f r else r) tbl"

definition sql_count :: "('r \<Rightarrow> bool) \<Rightarrow> 'r list \<Rightarrow> nat" where
  "sql_count P tbl = length (filter P tbl)"

definition sql_delete :: "('r \<Rightarrow> bool) \<Rightarrow> 'r list \<Rightarrow> 'r list" where
  "sql_delete P tbl = filter (\<lambda>r. \<not> P r) tbl"

definition sql_exists :: "('r \<Rightarrow> bool) \<Rightarrow> 'r list \<Rightarrow> bool" where
  "sql_exists P tbl = list_ex P tbl"

text \<open>\<^verbatim>\<open>get_result(..).optional()\<close>: the first row that matches, if any.\<close>

definition sql_first :: "('r \<Rightarrow> bool) \<Rightarrow> 'r list \<Rightarrow> 'r option" where
  "sql_first P tbl = find P tbl"

text \<open>\<^verbatim>\<open>ORDER BY k LIMIT 1\<close>.\<close>

definition sql_first_by :: "('r \<Rightarrow> 'k::linorder) \<Rightarrow> ('r \<Rightarrow> bool) \<Rightarrow> 'r list \<Rightarrow> 'r option" where
  "sql_first_by k P tbl = (case sort_key k (filter P tbl) of [] \<Rightarrow> None | r # _ \<Rightarrow> Some r)"

text \<open>\<^verbatim>\<open>INSERT ... ON CONFLICT (key) DO UPDATE\<close> and \<^verbatim>\<open>ON CONFLICT (key) DO NOTHING\<close>.\<close>

definition sql_upsert :: "('r \<Rightarrow> 'k) \<Rightarrow> 'r \<Rightarrow> ('r \<Rightarrow> 'r) \<Rightarrow> 'r list \<Rightarrow> 'r list" where
  "sql_upsert key new upd tbl =
     (if sql_exists (\<lambda>r. key r = key new) tbl
      then sql_update (\<lambda>r. key r = key new) upd tbl else tbl @ [new])"

definition sql_insert_ignore :: "('r \<Rightarrow> 'k) \<Rightarrow> 'r \<Rightarrow> 'r list \<Rightarrow> 'r list \<times> nat" where
  "sql_insert_ignore key new tbl =
     (if sql_exists (\<lambda>r. key r = key new) tbl then (tbl, 0) else (tbl @ [new], 1))"

lemma length_sql_update [simp]: "length (sql_update P f tbl) = length tbl"
  by (simp add: sql_update_def)

lemma set_sql_update [sql_simps]:
  "r \<in> set (sql_update P f tbl) \<longleftrightarrow> (\<exists>r0\<in>set tbl. r = (if P r0 then f r0 else r0))"
  by (auto simp: sql_update_def)

lemma set_sql_delete [sql_simps]: "r \<in> set (sql_delete P tbl) \<longleftrightarrow> r \<in> set tbl \<and> \<not> P r"
  by (auto simp: sql_delete_def)

lemma sql_exists_iff [sql_simps]: "sql_exists P tbl \<longleftrightarrow> (\<exists>r\<in>set tbl. P r)"
  by (simp add: sql_exists_def list_ex_iff)

lemma find_SomeD: "find P xs = Some x \<Longrightarrow> x \<in> set xs \<and> P x"
  by (auto simp: find_Some_iff)

lemma sql_first_SomeD: "sql_first P tbl = Some r \<Longrightarrow> r \<in> set tbl \<and> P r"
  by (auto simp: sql_first_def dest: find_SomeD)

lemma sql_first_None [sql_simps]: "sql_first P tbl = None \<longleftrightarrow> (\<forall>r\<in>set tbl. \<not> P r)"
  by (auto simp: sql_first_def find_None_iff)

lemma sql_first_by_SomeD:
  assumes "sql_first_by k P tbl = Some r"
  shows "r \<in> set tbl" "P r" "\<And>r'. r' \<in> set tbl \<Longrightarrow> P r' \<Longrightarrow> k r \<le> k r'"
proof -
  from assms obtain rs where s: "sort_key k (filter P tbl) = r # rs"
    by (auto simp: sql_first_by_def split: list.splits)
  then have mem: "set (r # rs) = {x \<in> set tbl. P x}"
    by (metis set_filter set_sort)
  from mem show "r \<in> set tbl" "P r" by auto
  have "sorted (map k (r # rs))"
    using sorted_sort_key[of k "filter P tbl"] s by simp
  then show "\<And>r'. r' \<in> set tbl \<Longrightarrow> P r' \<Longrightarrow> k r \<le> k r'"
    using mem by auto
qed

lemma sql_first_by_None [sql_simps]:
  "sql_first_by k P tbl = None \<longleftrightarrow> (\<forall>r\<in>set tbl. \<not> P r)"
proof -
  have "sql_first_by k P tbl = None \<longleftrightarrow> sort_key k (filter P tbl) = []"
    by (auto simp: sql_first_by_def split: list.splits)
  also have "\<dots> \<longleftrightarrow> filter P tbl = []"
    by (metis length_0_conv length_sort)
  finally show ?thesis by (auto simp: filter_empty_conv)
qed

lemma sql_count_pos_iff: "0 < sql_count P tbl \<longleftrightarrow> (\<exists>r\<in>set tbl. P r)"
  by (auto simp: sql_count_def filter_empty_conv)

section \<open>Primary keys\<close>

text \<open>
  A primary key or a \<^verbatim>\<open>UNIQUE\<close> constraint is distinctness of the key column. Every statement of the
  kernel keeps it as long as the rows it rewrites keep their key: that is the one law a
  statement's row function owes, and the locale collects what follows from it.
\<close>

definition keyed :: "('r \<Rightarrow> 'k) \<Rightarrow> 'r list \<Rightarrow> bool" where
  "keyed key tbl = distinct (map key tbl)"

lemma keyed_unique:
  "keyed key tbl \<Longrightarrow> r \<in> set tbl \<Longrightarrow> r' \<in> set tbl \<Longrightarrow> key r = key r' \<Longrightarrow> r = r'"
  by (auto simp: keyed_def distinct_map inj_on_def)

lemma keyed_count_le_1:
  assumes "keyed key tbl" "\<And>r. P r \<Longrightarrow> key r = k"
  shows "sql_count P tbl \<le> 1"
  using assms(1)
proof (induction tbl)
  case Nil
  then show ?case by (simp add: sql_count_def)
next
  case (Cons r tbl)
  show ?case
  proof (cases "P r")
    case True
    then have "key r = k" by (rule assms(2))
    with Cons.prems have "\<forall>r'\<in>set tbl. key r' \<noteq> k"
      by (simp add: keyed_def) (metis image_eqI)
    then have "\<forall>r'\<in>set tbl. \<not> P r'" using assms(2) by blast
    with True show ?thesis by (simp add: sql_count_def filter_empty_conv)
  next
    case False
    with Cons show ?thesis by (simp add: sql_count_def keyed_def)
  qed
qed

lemma keyed_delete: "keyed key tbl \<Longrightarrow> keyed key (sql_delete P tbl)"
  by (simp add: keyed_def sql_delete_def distinct_map inj_on_def)

lemma keyed_snoc:
  "keyed key tbl \<Longrightarrow> \<forall>r\<in>set tbl. key r \<noteq> key new \<Longrightarrow> keyed key (tbl @ [new])"
  by (auto simp: keyed_def)

lemma keyed_insert_ignore: "keyed key tbl \<Longrightarrow> keyed key (fst (sql_insert_ignore key new tbl))"
  by (auto simp: sql_insert_ignore_def sql_exists_iff intro: keyed_snoc)

lemma sql_first_keyed:
  assumes "keyed key tbl" "r \<in> set tbl"
  shows "sql_first (\<lambda>r'. key r' = key r) tbl = Some r"
proof (cases "sql_first (\<lambda>r'. key r' = key r) tbl")
  case None
  with assms(2) show ?thesis by (auto simp: sql_first_None)
next
  case (Some r')
  then have "r' \<in> set tbl" "key r' = key r" by (auto dest: sql_first_SomeD)
  with assms have "r' = r" by (auto intro: keyed_unique)
  with Some show ?thesis by simp
qed

locale keeps_key =
  fixes key :: "'r \<Rightarrow> 'k" and f :: "'r \<Rightarrow> 'r"
  assumes key_kept: "key (f r) = key r"
begin

lemma map_key_update: "map key (sql_update P f tbl) = map key tbl"
  by (auto simp: sql_update_def key_kept)

lemma keyed_update: "keyed key (sql_update P f tbl) \<longleftrightarrow> keyed key tbl"
  by (simp add: keyed_def map_key_update)

lemma keyed_upsert: "keyed key tbl \<Longrightarrow> keyed key (sql_upsert key new f tbl)"
  by (auto simp: sql_upsert_def sql_exists_iff keyed_update intro: keyed_snoc)

text \<open>The row found under a key, after an update under a key.\<close>

lemma first_update:
  "sql_first (\<lambda>r. key r = k) (sql_update (\<lambda>r. key r = k') f tbl) =
     (if k = k' then map_option f (sql_first (\<lambda>r. key r = k) tbl) else sql_first (\<lambda>r. key r = k) tbl)"
  unfolding sql_first_def sql_update_def using key_kept by (induction tbl) auto

lemma update_first:
  assumes "keyed key tbl" "r \<in> set tbl" "P r"
  shows "sql_first (\<lambda>r'. key r' = key r) (sql_update P f tbl) = Some (f r)"
proof -
  have "f r \<in> set (sql_update P f tbl)" using assms(2,3) by (auto simp: sql_update_def)
  then show ?thesis
    using sql_first_keyed[of key "sql_update P f tbl" "f r"] assms(1)
    by (simp add: keyed_update key_kept)
qed

end

end
