(* ===== verification/Floats.thy ===== *)
theory Floats
  imports Complex_Main Prelude
begin

text \<open>
  The \<^verbatim>\<open>f32\<close> and \<^verbatim>\<open>f64\<close> arithmetic the scorers, the arbiter, the rank fusion and the
  evaluation use: IEEE values as rationals, infinities or a NaN, with every operation rounded
  to nearest, ties to even, at the precision of its type. The exponent range is unbounded
  (the scores lie between 2^-64 and 2^64, where neither overflow nor underflow occurs) and
  the sign of zero is not kept (no comparison of the code sees it).
\<close>

section \<open>Rounding to a number of significant bits\<close>

definition round_half_even :: "rat \<Rightarrow> int" where
  "round_half_even x =
     (let f = \<lfloor>x\<rfloor>; r = x - of_int f in
      if r < 1 / 2 then f else if r > 1 / 2 then f + 1 else if even f then f else f + 1)"

lemma round_half_even_of_int [simp]: "round_half_even (of_int z) = z"
  by (simp add: round_half_even_def)

lemma round_half_even_bounds: "\<lfloor>x\<rfloor> \<le> round_half_even x" "round_half_even x \<le> \<lfloor>x\<rfloor> + 1"
  by (simp_all add: round_half_even_def Let_def)

lemma round_half_even_mono:
  assumes "x \<le> y"
  shows "round_half_even x \<le> round_half_even y"
proof (cases "\<lfloor>x\<rfloor> = \<lfloor>y\<rfloor>")
  case True
  with assms show ?thesis by (auto simp: round_half_even_def Let_def)
next
  case False
  then have "\<lfloor>x\<rfloor> + 1 \<le> \<lfloor>y\<rfloor>" using floor_mono[OF assms] by linarith
  then show ?thesis using round_half_even_bounds[of x] round_half_even_bounds[of y] by linarith
qed

fun bits :: "nat \<Rightarrow> nat" where
  "bits n = (if n = 0 then 0 else Suc (bits (n div 2)))"

declare bits.simps [simp del]

lemma bits_upper: "n < 2 ^ bits n"
proof (induction n rule: bits.induct)
  case (1 n)
  then show ?case
    by (cases "n = 0") (auto simp: bits.simps[of n])
qed

lemma bits_lower: "n > 0 \<Longrightarrow> 2 ^ bits n \<le> 2 * n"
proof (induction n rule: bits.induct)
  case (1 n)
  show ?case
  proof (cases "n div 2 = 0")
    case True
    with "1.prems" have "n = 1" by auto
    then show ?thesis by (simp add: bits.simps)
  next
    case False
    with 1 have "2 ^ bits (n div 2) \<le> 2 * (n div 2)" by simp
    moreover have "2 * (n div 2) \<le> n" by simp
    moreover have "(2::nat) ^ bits n = 2 * 2 ^ bits (n div 2)"
      using "1.prems" by (simp add: bits.simps[of n])
    ultimately show ?thesis by linarith
  qed
qed

definition binary_exp :: "rat \<Rightarrow> int" where
  "binary_exp x =
     (let (n, d) = quotient_of x; k = int (bits (nat n)) - int (bits (nat d)) in
      if 2 powi k \<le> x then k else k - 1)"

lemma binary_exp_bounds:
  assumes "x > 0"
  shows "2 powi binary_exp x \<le> x" "x < 2 powi (binary_exp x + 1)"
proof -
  obtain n d where q: "quotient_of x = (n, d)" by (cases "quotient_of x")
  have x: "x = of_int n / of_int d" and d: "d > 0"
    using quotient_of_div[OF q] quotient_of_denom_pos[OF q] by auto
  have n: "n > 0" using assms x d by (simp add: zero_less_divide_iff)
  define a where "a = nat n"
  define b where "b = nat d"
  have ab: "a > 0" "b > 0" and xab: "x = rat_of_nat a / rat_of_nat b"
    using n d x by (simp_all add: a_def b_def)
  define k where "k = int (bits a) - int (bits b)"
  have pk: "(2::rat) powi k = 2 ^ bits a / 2 ^ bits b"
    by (simp add: k_def power_int_diff)
  have a1: "rat_of_nat a < 2 ^ bits a" and b1: "rat_of_nat b < 2 ^ bits b"
    using bits_upper[of a] bits_upper[of b] by (metis of_nat_less_iff of_nat_numeral of_nat_power)+
  have a2: "2 ^ bits a \<le> 2 * rat_of_nat a" and b2: "2 ^ bits b \<le> 2 * rat_of_nat b"
    using bits_lower[OF ab(1)] bits_lower[OF ab(2)]
    by (metis of_nat_le_iff of_nat_mult of_nat_numeral of_nat_power)+
  have up: "x < 2 powi (k + 1)"
  proof -
    have "x < 2 ^ bits a / rat_of_nat b" using a1 ab xab by (simp add: divide_strict_right_mono)
    also have "\<dots> \<le> 2 ^ bits a / (2 ^ bits b / 2)"
      using b2 ab by (intro divide_left_mono) auto
    also have "\<dots> = 2 powi (k + 1)" by (simp add: power_int_add pk)
    finally show ?thesis .
  qed
  have low: "2 powi (k - 1) \<le> x"
  proof -
    have "(2::rat) powi (k - 1) = (2 ^ bits a / 2) / 2 ^ bits b"
      by (simp add: power_int_diff pk)
    also have "\<dots> \<le> rat_of_nat a / 2 ^ bits b"
      using a2 by (intro divide_right_mono) auto
    also have "\<dots> \<le> x" using b1 ab xab by (simp add: divide_left_mono)
    finally show ?thesis .
  qed
  have e: "binary_exp x = (if 2 powi k \<le> x then k else k - 1)"
    by (simp add: binary_exp_def q k_def a_def b_def Let_def)
  show "2 powi binary_exp x \<le> x" using low by (simp add: e)
  show "x < 2 powi (binary_exp x + 1)" using up by (simp add: e)
qed

lemma binary_exp_mono:
  assumes "0 < x" "x \<le> y"
  shows "binary_exp x \<le> binary_exp y"
proof -
  have "(2::rat) powi binary_exp x < 2 powi (binary_exp y + 1)"
    using binary_exp_bounds[of x] binary_exp_bounds[of y] assms by linarith
  then show ?thesis
    using power_int_increasing[of "binary_exp y + 1" "binary_exp x" "2::rat"] by fastforce
qed

text \<open>\<open>p\<close> significant bits: 24 for \<^verbatim>\<open>f32\<close>, 53 for \<^verbatim>\<open>f64\<close>.\<close>

definition rnd_pos :: "nat \<Rightarrow> rat \<Rightarrow> rat" where
  "rnd_pos p x =
     (let u = 2 powi (binary_exp x - int p + 1) in of_int (round_half_even (x / u)) * u)"

definition rnd :: "nat \<Rightarrow> rat \<Rightarrow> rat" where
  "rnd p x = (if x = 0 then 0 else if x < 0 then - rnd_pos p (- x) else rnd_pos p x)"

lemma rnd_zero [simp]: "rnd p 0 = 0"
  by (simp add: rnd_def)

lemma rnd_pos_bounds:
  assumes "x > 0" "p > 0"
  shows "2 powi binary_exp x \<le> rnd_pos p x" "rnd_pos p x \<le> 2 powi (binary_exp x + 1)"
proof -
  define e where "e = binary_exp x"
  define u where "u = (2::rat) powi (e - int p + 1)"
  have u: "u > 0" by (simp add: u_def)
  have hi: "(2::rat) powi (e + 1) = of_int (2 ^ p) * u"
    by (simp add: u_def power_int_add power_int_diff)
  have lo: "(2::rat) powi e = of_int (2 ^ (p - 1)) * u"
  proof -
    have "(2::rat) ^ p = 2 * 2 ^ (p - 1)" using assms(2) by (cases p) simp_all
    with hi show ?thesis by (simp add: power_int_add)
  qed
  have "of_int (2 ^ (p - 1)) \<le> x / u" "x / u \<le> of_int (2 ^ p)"
    using binary_exp_bounds[OF assms(1)] u lo hi unfolding e_def[symmetric]
    by (simp_all add: pos_le_divide_eq pos_divide_le_eq)
  then have "2 ^ (p - 1) \<le> round_half_even (x / u)" "round_half_even (x / u) \<le> 2 ^ p"
    using round_half_even_mono[of _ "x / u"] round_half_even_mono[of "x / u"]
    by (metis round_half_even_of_int)+
  then have "of_int (2 ^ (p - 1)) * u \<le> of_int (round_half_even (x / u)) * u"
    "of_int (round_half_even (x / u)) * u \<le> of_int (2 ^ p) * u"
    using u by (simp_all only: mult_le_cancel_right_pos of_int_le_iff)
  then show "2 powi binary_exp x \<le> rnd_pos p x" "rnd_pos p x \<le> 2 powi (binary_exp x + 1)"
    unfolding rnd_pos_def Let_def e_def[symmetric] u_def[symmetric] lo hi by simp_all
qed

lemma rnd_pos_mono:
  assumes "0 < x" "x \<le> y" "p > 0"
  shows "rnd_pos p x \<le> rnd_pos p y"
proof (cases "binary_exp x = binary_exp y")
  case True
  define u where "u = (2::rat) powi (binary_exp y - int p + 1)"
  have "x / u \<le> y / u" using assms(2) by (intro divide_right_mono) (auto simp: u_def)
  then have "round_half_even (x / u) \<le> round_half_even (y / u)" by (rule round_half_even_mono)
  then show ?thesis
    unfolding rnd_pos_def Let_def True u_def[symmetric]
    by (intro mult_right_mono) (auto simp: u_def)
next
  case False
  then have "binary_exp x + 1 \<le> binary_exp y" using binary_exp_mono[OF assms(1,2)] by simp
  then have "(2::rat) powi (binary_exp x + 1) \<le> 2 powi binary_exp y"
    by (intro power_int_increasing) auto
  then show ?thesis
    using rnd_pos_bounds(2)[OF assms(1,3)] rnd_pos_bounds(1)[of y p] assms by linarith
qed

lemma rnd_pos_gt_0: "x > 0 \<Longrightarrow> p > 0 \<Longrightarrow> rnd_pos p x > 0"
  using rnd_pos_bounds(1)[of x p] zero_less_power_int[of "2::rat" "binary_exp x"] by linarith

lemma rnd_mono:
  assumes "p > 0" "x \<le> y"
  shows "rnd p x \<le> rnd p y"
proof -
  consider "0 < x" | "x = 0" | "x < 0" "y < 0" | "x < 0" "0 \<le> y" by linarith
  then show ?thesis
  proof cases
    case 1
    then show ?thesis using assms rnd_pos_mono[of x y p] by (simp add: rnd_def)
  next
    case 2
    then show ?thesis
      using assms rnd_pos_gt_0[of y p] by (auto simp: rnd_def intro: less_imp_le)
  next
    case 3
    then show ?thesis using assms rnd_pos_mono[of "- y" "- x" p] by (simp add: rnd_def)
  next
    case 4
    then have "rnd p x < 0" using rnd_pos_gt_0[of "- x" p] assms(1) by (simp add: rnd_def)
    moreover have "0 \<le> rnd p y"
      using 4 rnd_pos_gt_0[of y p] assms(1) by (auto simp: rnd_def intro: less_imp_le)
    ultimately show ?thesis by simp
  qed
qed

lemma binary_exp_one [simp]: "binary_exp 1 = 0"
  by (simp add: binary_exp_def bits.simps)

lemma rnd_one [simp]:
  assumes "p > 0"
  shows "rnd p 1 = 1"
proof -
  define u where "u = (2::rat) powi (0 - int p + 1)"
  obtain q where p: "p = Suc q" using assms by (cases p) auto
  have u: "u = 1 / of_int (2 ^ q)" by (simp add: u_def p power_int_minus divide_inverse)
  then have "round_half_even (1 / u) = 2 ^ q"
    using round_half_even_of_int[of "2 ^ q"] by simp
  then have "rnd_pos p 1 = of_int (2 ^ q) * u"
    unfolding rnd_pos_def Let_def binary_exp_one u_def[symmetric] by simp
  then show ?thesis by (simp add: rnd_def u)
qed

lemma rnd_nonneg: "p > 0 \<Longrightarrow> 0 \<le> x \<Longrightarrow> 0 \<le> rnd p x"
  using rnd_mono[of p 0 x] by simp

lemma rnd_le_one: "p > 0 \<Longrightarrow> x \<le> 1 \<Longrightarrow> rnd p x \<le> 1"
  using rnd_mono[of p x 1] by simp

lemma rnd_ge_one: "p > 0 \<Longrightarrow> 1 \<le> x \<Longrightarrow> 1 \<le> rnd p x"
  using rnd_mono[of p 1 x] by simp

section \<open>Floating-point values\<close>

datatype flt = Fin rat | PosInf | NegInf | NaN

abbreviation f32 :: nat where "f32 \<equiv> 24"
abbreviation f64 :: nat where "f64 \<equiv> 53"

text \<open>IEEE comparisons: every comparison with a NaN is false.\<close>

fun f_le :: "flt \<Rightarrow> flt \<Rightarrow> bool" where
  "f_le NaN _ = False"
| "f_le _ NaN = False"
| "f_le NegInf _ = True"
| "f_le _ PosInf = True"
| "f_le (Fin a) (Fin b) = (a \<le> b)"
| "f_le (Fin _) NegInf = False"
| "f_le PosInf _ = False"

definition f_lt :: "flt \<Rightarrow> flt \<Rightarrow> bool" where
  "f_lt a b = (f_le a b \<and> \<not> f_le b a)"

definition f_ge :: "flt \<Rightarrow> flt \<Rightarrow> bool" where
  "f_ge a b = f_le b a"

definition is_finite :: "flt \<Rightarrow> bool" where
  "is_finite v = (case v of Fin _ \<Rightarrow> True | _ \<Rightarrow> False)"

text \<open>\<^verbatim>\<open>(0.0..=1.0).contains(&v)\<close>: false for a NaN and for the infinities.\<close>

definition in_unit :: "flt \<Rightarrow> bool" where
  "in_unit v = (f_le (Fin 0) v \<and> f_le v (Fin 1))"

lemma f_lt_Fin [simp]: "f_lt (Fin a) (Fin b) \<longleftrightarrow> a < b"
  by (auto simp: f_lt_def)

lemma f_ge_Fin [simp]: "f_ge (Fin a) (Fin b) \<longleftrightarrow> b \<le> a"
  by (simp add: f_ge_def)

lemma is_finite_Fin [simp]: "is_finite (Fin a)"
  by (simp add: is_finite_def)

lemma in_unit_iff: "in_unit v \<longleftrightarrow> (\<exists>a. v = Fin a \<and> 0 \<le> a \<and> a \<le> 1)"
  by (cases v) (auto simp: in_unit_def)

lemma in_unit_Fin [simp]: "in_unit (Fin a) \<longleftrightarrow> 0 \<le> a \<and> a \<le> 1"
  by (simp add: in_unit_def)

text \<open>Conversions and arithmetic at precision \<open>p\<close>.\<close>

definition f_of_nat :: "nat \<Rightarrow> nat \<Rightarrow> flt" where
  "f_of_nat p n = Fin (rnd p (of_nat n))"

fun f_cast :: "nat \<Rightarrow> flt \<Rightarrow> flt" where
  "f_cast p (Fin a) = Fin (rnd p a)"
| "f_cast p v = v"

fun f_add :: "nat \<Rightarrow> flt \<Rightarrow> flt \<Rightarrow> flt" where
  "f_add p (Fin a) (Fin b) = Fin (rnd p (a + b))"
| "f_add p NaN _ = NaN"
| "f_add p _ NaN = NaN"
| "f_add p PosInf NegInf = NaN"
| "f_add p NegInf PosInf = NaN"
| "f_add p PosInf _ = PosInf"
| "f_add p _ PosInf = PosInf"
| "f_add p NegInf _ = NegInf"
| "f_add p _ NegInf = NegInf"

fun f_neg :: "flt \<Rightarrow> flt" where
  "f_neg (Fin a) = Fin (- a)"
| "f_neg PosInf = NegInf"
| "f_neg NegInf = PosInf"
| "f_neg NaN = NaN"

definition f_sub :: "nat \<Rightarrow> flt \<Rightarrow> flt \<Rightarrow> flt" where
  "f_sub p a b = f_add p a (f_neg b)"

fun f_div :: "nat \<Rightarrow> flt \<Rightarrow> flt \<Rightarrow> flt" where
  "f_div p (Fin a) (Fin b) =
     (if b = 0 then (if a = 0 then NaN else if a > 0 then PosInf else NegInf)
      else Fin (rnd p (a / b)))"
| "f_div p (Fin a) PosInf = Fin 0"
| "f_div p (Fin a) NegInf = Fin 0"
| "f_div p PosInf (Fin b) = (if b < 0 then NegInf else PosInf)"
| "f_div p NegInf (Fin b) = (if b < 0 then PosInf else NegInf)"
| "f_div p _ _ = NaN"

fun f_mul :: "nat \<Rightarrow> flt \<Rightarrow> flt \<Rightarrow> flt" where
  "f_mul p (Fin a) (Fin b) = Fin (rnd p (a * b))"
| "f_mul p NaN _ = NaN"
| "f_mul p _ NaN = NaN"
| "f_mul p (Fin a) PosInf = (if a = 0 then NaN else if a > 0 then PosInf else NegInf)"
| "f_mul p (Fin a) NegInf = (if a = 0 then NaN else if a > 0 then NegInf else PosInf)"
| "f_mul p PosInf (Fin b) = (if b = 0 then NaN else if b > 0 then PosInf else NegInf)"
| "f_mul p NegInf (Fin b) = (if b = 0 then NaN else if b > 0 then NegInf else PosInf)"
| "f_mul p PosInf PosInf = PosInf"
| "f_mul p PosInf NegInf = NegInf"
| "f_mul p NegInf PosInf = NegInf"
| "f_mul p NegInf NegInf = PosInf"

text \<open>\<^verbatim>\<open>f64::min\<close>: the smaller value, and the other operand when one is a NaN.\<close>

definition f_min :: "flt \<Rightarrow> flt \<Rightarrow> flt" where
  "f_min a b = (if a = NaN then b else if b = NaN then a else if f_le a b then a else b)"

text \<open>A ratio of counts, computed in \<^verbatim>\<open>f64\<close>: \<^verbatim>\<open>(a as f64) / (b as f64)\<close>.\<close>

definition f_ratio :: "nat \<Rightarrow> nat \<Rightarrow> nat \<Rightarrow> flt" where
  "f_ratio p a b = f_div p (f_of_nat p a) (f_of_nat p b)"

lemma f_ratio_unit:
  assumes "p > 0" "a \<le> b" "0 < b"
  shows "in_unit (f_ratio p a b)"
proof -
  have b1: "1 \<le> rnd p (of_nat b)" using assms by (intro rnd_ge_one) auto
  have ab: "rnd p (of_nat a) \<le> rnd p (of_nat b)" using assms by (intro rnd_mono) auto
  have a0: "0 \<le> rnd p (of_nat a)" using assms by (intro rnd_nonneg) auto
  have "0 \<le> rnd p (of_nat a) / rnd p (of_nat b)" "rnd p (of_nat a) / rnd p (of_nat b) \<le> 1"
    using a0 ab b1 by (simp_all add: divide_le_eq_1)
  then have "0 \<le> rnd p (rnd p (of_nat a) / rnd p (of_nat b))"
    "rnd p (rnd p (of_nat a) / rnd p (of_nat b)) \<le> 1"
    using assms(1) by (simp_all add: rnd_nonneg rnd_le_one)
  with b1 show ?thesis by (simp add: f_ratio_def f_of_nat_def)
qed

lemma f_ratio_self [simp]: "p > 0 \<Longrightarrow> 0 < b \<Longrightarrow> f_ratio p b b = Fin 1"
  using rnd_ge_one[of p "of_nat b"] by (simp add: f_ratio_def f_of_nat_def)

lemma f_ratio_zero [simp]: "p > 0 \<Longrightarrow> 0 < b \<Longrightarrow> f_ratio p 0 b = Fin 0"
  using rnd_ge_one[of p "of_nat b"] by (simp add: f_ratio_def f_of_nat_def)

lemma f_min_unit: "in_unit a \<Longrightarrow> in_unit b \<Longrightarrow> in_unit (f_min a b)"
  by (auto simp: f_min_def in_unit_iff)

lemma f_cast_unit: "p > 0 \<Longrightarrow> in_unit a \<Longrightarrow> in_unit (f_cast p a)"
  by (auto simp: in_unit_iff rnd_nonneg rnd_le_one)

end
