(* ===== verification/Types.thy ===== *)
theory Types
  imports Floats
begin

text \<open>
  The data model of \<^verbatim>\<open>wiktor-core/src/types/\<close> and the records of \<^verbatim>\<open>compile/contract.rs\<close>,
  \<^verbatim>\<open>compile/consistency.rs\<close> and \<^verbatim>\<open>compile/quality.rs\<close> the kernel stores: entities, facts,
  filters, pages, evidence and reports. A \<^verbatim>\<open>BTreeMap\<close> is an association list sorted by key, a
  \<^verbatim>\<open>BTreeSet\<close> a sorted list. The theorems are the round trips of the entity key.
\<close>

section \<open>JSON values\<close>

text \<open>\<^verbatim>\<open>serde_json::Value\<close>; numbers are integers or floats, object members are sorted by key.\<close>

datatype json =
    JNull
  | JBool bool
  | JInt int
  | JFloat flt
  | JStr string
  | JArr "json list"
  | JObj "(string \<times> json) list"

definition as_str :: "json \<Rightarrow> string option" where
  "as_str v = (case v of JStr s \<Rightarrow> Some s | _ \<Rightarrow> None)"

definition as_bool :: "json \<Rightarrow> bool option" where
  "as_bool v = (case v of JBool b \<Rightarrow> Some b | _ \<Rightarrow> None)"

definition as_f64 :: "json \<Rightarrow> flt option" where
  "as_f64 v = (case v of JInt n \<Rightarrow> Some (Fin (rnd f64 (of_int n))) | JFloat x \<Rightarrow> Some x | _ \<Rightarrow> None)"

definition as_i64 :: "json \<Rightarrow> int option" where
  "as_i64 v = (case v of JInt n \<Rightarrow> if i64_min \<le> n \<and> n \<le> i64_max then Some n else None | _ \<Rightarrow> None)"

definition as_array :: "json \<Rightarrow> json list option" where
  "as_array v = (case v of JArr xs \<Rightarrow> Some xs | _ \<Rightarrow> None)"

definition is_object :: "json \<Rightarrow> bool" where
  "is_object v = (case v of JObj _ \<Rightarrow> True | _ \<Rightarrow> False)"

section \<open>Ordered maps\<close>

text \<open>\<^verbatim>\<open>BTreeMap::insert\<close>: replaces the value of the key, or inserts in key order.\<close>

fun bt_insert :: "'k::linorder \<Rightarrow> 'v \<Rightarrow> ('k \<times> 'v) list \<Rightarrow> ('k \<times> 'v) list" where
  "bt_insert k v [] = [(k, v)]"
| "bt_insert k v ((k', v') # m) =
     (if k < k' then (k, v) # (k', v') # m
      else if k = k' then (k, v) # m
      else (k', v') # bt_insert k v m)"

definition bt_wf :: "('k::linorder \<times> 'v) list \<Rightarrow> bool" where
  "bt_wf m = sorted_wrt (<) (map fst m)"

lemma keys_bt_insert: "fst ` set (bt_insert k v m) = insert k (fst ` set m)"
  by (induction k v m rule: bt_insert.induct) auto

lemma bt_wf_insert: "bt_wf m \<Longrightarrow> bt_wf (bt_insert k v m)"
proof (induction k v m rule: bt_insert.induct)
  case (1 k v)
  then show ?case by (simp add: bt_wf_def)
next
  case (2 k v k' v' m)
  have "k' < fst x" if "k' < k" "bt_wf ((k', v') # m)" "x \<in> set (bt_insert k v m)" for x
  proof -
    have "fst x \<in> insert k (fst ` set m)" using that(3) keys_bt_insert[of k v m] by blast
    with that(1,2) show ?thesis by (auto simp: bt_wf_def)
  qed
  with 2 show ?case by (auto simp: bt_wf_def)
qed

lemma map_of_bt_insert: "map_of (bt_insert k v m) = (map_of m)(k \<mapsto> v)"
  by (induction k v m rule: bt_insert.induct) (auto simp: fun_eq_iff)

text \<open>
  The ordered map as an interface: what a client of \<^verbatim>\<open>BTreeMap\<close> relies on. The kernel's fact
  writer and the arbiter fold over such maps.
\<close>

locale ordered_map =
  fixes ins :: "'k::linorder \<Rightarrow> 'v \<Rightarrow> 'm \<Rightarrow> 'm"
    and entries :: "'m \<Rightarrow> ('k \<times> 'v) list"
    and ok :: "'m \<Rightarrow> bool"
  assumes ins_entries: "map_of (entries (ins k v m)) = (map_of (entries m))(k \<mapsto> v)"
    and ins_ok: "ok m \<Longrightarrow> ok (ins k v m)"
    and ok_sorted: "ok m \<Longrightarrow> sorted_wrt (<) (map fst (entries m))"
begin

lemma fold_ok: "ok m \<Longrightarrow> ok (fold (\<lambda>(k, v). ins k v) kvs m)"
  by (induction kvs arbitrary: m) (auto intro: ins_ok)

lemma fold_entries:
  "map_of (entries (fold (\<lambda>(k, v). ins k v) kvs m)) = map_of (entries m) ++ map_of (rev kvs)"
  by (induction kvs arbitrary: m) (auto simp: ins_entries fun_eq_iff map_add_def split: option.splits)

lemma keys_distinct: "ok m \<Longrightarrow> distinct (map fst (entries m))"
  using ok_sorted strict_sorted_iff by blast

end

interpretation bt: ordered_map bt_insert "\<lambda>m. m" bt_wf
  by unfold_locales (auto simp: map_of_bt_insert bt_wf_insert, simp add: bt_wf_def)

lemma bt_eqI:
  assumes "bt_wf a" "bt_wf b" "map_of a = map_of b"
  shows "a = b"
proof -
  have d: "distinct (map fst a)" "distinct (map fst b)" using assms(1,2) bt.keys_distinct by auto
  have "set a = set b"
    using assms(3) d by (metis map_of_eq_Some_iff subsetI subset_antisym surj_pair)
  moreover have "sorted (map fst a)" "sorted (map fst b)"
    using assms(1,2) by (simp_all add: bt_wf_def strict_sorted_imp_sorted)
  ultimately show ?thesis using d by (intro map_sorted_distinct_set_unique[of fst]) (auto simp: inj_on_def distinct_map)
qed

section \<open>Entities\<close>

record entity_id =
  eid_domain :: string
  eid_type :: string
  eid_local :: string

definition entity_component_ok :: "string \<Rightarrow> bool" where
  "entity_component_ok s = (s \<noteq> [] \<and> CHR '':'' \<notin> set s)"

definition entity_id_new :: "string \<Rightarrow> string \<Rightarrow> string \<Rightarrow> entity_id result" where
  "entity_id_new d t i =
     (if list_all entity_component_ok [d, t, i]
      then Inr \<lparr>eid_domain = d, eid_type = t, eid_local = i\<rparr> else Inl InvalidEntityId)"

definition to_key :: "entity_id \<Rightarrow> string" where
  "to_key e = eid_domain e @ '':'' @ eid_type e @ '':'' @ eid_local e"

text \<open>\<^verbatim>\<open>str::splitn(n, c)\<close>: at most \<open>n\<close> pieces, the last one keeps the rest.\<close>

fun splitn :: "nat \<Rightarrow> char \<Rightarrow> string \<Rightarrow> string list" where
  "splitn 0 c s = []"
| "splitn (Suc 0) c s = [s]"
| "splitn (Suc (Suc n)) c s =
     (case dropWhile (\<lambda>x. x \<noteq> c) s of
        [] \<Rightarrow> [s]
      | _ # rest \<Rightarrow> takeWhile (\<lambda>x. x \<noteq> c) s # splitn (Suc n) c rest)"

definition from_key :: "string \<Rightarrow> entity_id result" where
  "from_key key =
     (case splitn 3 (CHR '':'') key of
        [d, t, i] \<Rightarrow> entity_id_new d t i
      | _ \<Rightarrow> Inl InvalidEntityId)"

definition valid_entity :: "entity_id \<Rightarrow> bool" where
  "valid_entity e =
     (entity_component_ok (eid_domain e) \<and> entity_component_ok (eid_type e)
      \<and> entity_component_ok (eid_local e))"

lemma entity_id_new_Ok:
  "entity_id_new d t i = Inr e \<longleftrightarrow>
     valid_entity e \<and> eid_domain e = d \<and> eid_type e = t \<and> eid_local e = i"
  by (cases e) (auto simp: entity_id_new_def valid_entity_def)

lemma splitn_append:
  "c \<notin> set a \<Longrightarrow> splitn (Suc (Suc n)) c (a @ c # b) = a # splitn (Suc n) c b"
proof -
  assume c: "c \<notin> set a"
  then have "takeWhile (\<lambda>x. x \<noteq> c) (a @ c # b) = a" "dropWhile (\<lambda>x. x \<noteq> c) (a @ c # b) = c # b"
    by (induction a) auto
  then show ?thesis by simp
qed

lemma splitn_3_append:
  "c \<notin> set a \<Longrightarrow> c \<notin> set b \<Longrightarrow> splitn 3 c (a @ c # b @ c # r) = [a, b, r]"
  by (simp add: numeral_3_eq_3 splitn_append del: splitn.simps(3))

lemma splitn_concat:
  "splitn (Suc (Suc n)) c s = a # rest \<Longrightarrow> rest \<noteq> [] \<Longrightarrow>
     \<exists>b. s = a @ c # b \<and> rest = splitn (Suc n) c b"
proof -
  assume s: "splitn (Suc (Suc n)) c s = a # rest" and ne: "rest \<noteq> []"
  then obtain x b where d: "dropWhile (\<lambda>x. x \<noteq> c) s = x # b"
    by (cases "dropWhile (\<lambda>x. x \<noteq> c) s") auto
  then have x: "x = c" using dropWhile_eq_Cons_conv[of "\<lambda>x. x \<noteq> c" s x b] by simp
  from s d have a: "a = takeWhile (\<lambda>x. x \<noteq> c) s" "rest = splitn (Suc n) c b" by auto
  have "takeWhile (\<lambda>x. x \<noteq> c) s @ dropWhile (\<lambda>x. x \<noteq> c) s = s" by simp
  with d x a show ?thesis by (intro exI[of _ b]) simp
qed

lemma from_key_to_key:
  assumes "valid_entity e"
  shows "from_key (to_key e) = Inr e"
proof -
  have "splitn 3 (CHR '':'') (to_key e) = [eid_domain e, eid_type e, eid_local e]"
    using assms splitn_3_append[of "CHR '':''" "eid_domain e" "eid_type e" "eid_local e"]
    by (simp add: to_key_def valid_entity_def entity_component_ok_def)
  then show ?thesis using assms by (simp add: from_key_def entity_id_new_Ok)
qed

lemma to_key_from_key:
  assumes "from_key k = Inr e"
  shows "to_key e = k"
proof -
  obtain d t i where sp: "splitn 3 (CHR '':'') k = [d, t, i]" and e: "entity_id_new d t i = Inr e"
    using assms by (auto simp: from_key_def split: list.splits)
  from sp obtain b where b: "k = d @ CHR '':'' # b" "[t, i] = splitn 2 (CHR '':'') b"
    using splitn_concat[of 1 "CHR '':''" k d "[t, i]"]
    by (auto simp: numeral_3_eq_3 numeral_2_eq_2 simp del: splitn.simps(3))
  then obtain c where "b = t @ CHR '':'' # c" "[i] = splitn 1 (CHR '':'') c"
    using splitn_concat[of 0 "CHR '':''" b t "[i]"]
    by (auto simp: numeral_2_eq_2 simp del: splitn.simps(3))
  with b e show ?thesis by (auto simp: entity_id_new_Ok to_key_def)
qed

lemma from_key_valid: "from_key k = Inr e \<Longrightarrow> valid_entity e"
  by (auto simp: from_key_def entity_id_new_Ok split: list.splits)

lemma from_key_Ok_iff: "from_key k = Inr e \<longleftrightarrow> valid_entity e \<and> k = to_key e"
  using from_key_to_key to_key_from_key from_key_valid by metis

lemma to_key_inject: "valid_entity a \<Longrightarrow> valid_entity b \<Longrightarrow> to_key a = to_key b \<longleftrightarrow> a = b"
  using from_key_to_key by (metis Inr_inject)

record raw_entity =
  raw_id :: entity_id
  raw_fields :: "(string \<times> json) list"
  raw_revision :: nat

section \<open>Facts and filters\<close>

datatype fact_value =
    Numeric flt
  | Text string
  | Boolean bool
  | RefList "string list"
  | Timestamp int

record facts =
  fs_entity :: entity_id
  fs_fields :: "(string \<times> fact_value) list"
  fs_revision :: nat

datatype filter_condition =
    NumericRange string "flt option" "flt option"
  | TextEquals string string
  | RefContains string "string list"
  | RefExcludes string "string list"

type_synonym filters = "filter_condition list"

datatype field_type = FtNumeric | FtText | FtBoolean | FtRefList | FtTimestamp

record field_definition =
  fd_name :: string
  fd_type :: field_type
  fd_filterable :: bool

record entity_schema =
  es_type :: string
  es_fields :: "field_definition list"

section \<open>Queries and query-understanding edges\<close>

record query =
  q_text :: string
  q_filters :: filters
  q_top_k :: nat
  q_domain :: "string option"

record rewritten_query =
  rw_terms :: "string list"
  rw_filters :: filters
  rw_boost :: "entity_id list"

record search_hit =
  sh_page :: string
  sh_entity :: entity_id
  sh_score :: flt
  sh_title :: string

datatype qug_edge =
    Synonym string "string list"
  | Hyponym string string
  | AttributePropagation string filter_condition
  | IntentTemplate string query
  | Negation string filter_condition

section \<open>Evidence, pages and reports\<close>

record source_ref =
  sr_id :: string
  sr_entity :: string
  sr_revision :: nat
  sr_pointer :: string
  sr_value :: json
  sr_quote :: string

record assertion =
  as_text :: string
  as_refs :: "string list"

record evidence_section =
  ev_heading :: string
  ev_assertions :: "assertion list"
  ev_refs :: "source_ref list"

record output_wiki =
  ow_title :: string
  ow_aliases :: "string list"
  ow_tags :: "string list"
  ow_markdown :: string

record token_usage =
  tu_input :: nat
  tu_output :: nat

record compile_evidence =
  ce_schema_version :: string
  ce_wiki :: output_wiki
  ce_sections :: "evidence_section list"
  ce_usage :: "token_usage option"

record quality_score =
  qs_coverage :: flt
  qs_citation :: flt
  qs_schema :: flt
  qs_density :: flt
  qs_consistency :: "flt option"

text \<open>
  \<^verbatim>\<open>QualityScore::overall\<close>: the four-dimension average without a consistency score, the
  five-dimension average with one, in \<^verbatim>\<open>f32\<close> and in the order the code adds.
\<close>

definition overall :: "quality_score \<Rightarrow> flt" where
  "overall q =
     (let s4 = f_add f32 (f_add f32 (f_add f32 (qs_coverage q) (qs_citation q)) (qs_schema q))
                 (qs_density q)
      in case qs_consistency q of
           None \<Rightarrow> f_div f32 s4 (Fin 4)
         | Some s \<Rightarrow> f_div f32 (f_add f32 s4 s) (Fin 5))"

definition passes_threshold :: "quality_score \<Rightarrow> flt \<Rightarrow> bool" where
  "passes_threshold q threshold = f_ge (overall q) threshold"

datatype publish_status = Candidate | AcceptedPage | QuarantinedPage

definition is_queryable :: "publish_status \<Rightarrow> bool" where
  "is_queryable s = (s = AcceptedPage)"

record page_metadata =
  pm_pack_version :: string
  pm_compiled_at :: int
  pm_model :: string
  pm_embedding :: string

record wiki_page =
  wp_id :: string
  wp_entity :: entity_id
  wp_title :: string
  wp_content :: string
  wp_sections :: "(string \<times> string) list"
  wp_meta :: page_metadata
  wp_aliases :: "string list"
  wp_tags :: "string list"

record compiled_page =
  cp_wiki :: wiki_page
  cp_quality :: quality_score
  cp_edges :: "qug_edge list"
  cp_hash :: string
  cp_evidence :: "compile_evidence option"

record compile_context =
  cx_pack_version :: string
  cx_prompt :: string
  cx_model :: string
  cx_embedding :: string
  cx_threshold :: flt
  cx_require_refs :: bool
  cx_schema_version :: "string option"
  cx_prompt_version :: "string option"

record quality_issue =
  qi_code :: string
  qi_path :: string

record ref_report =
  rr_assertions :: nat
  rr_supported :: nat
  rr_occurrences :: nat
  rr_valid :: nat
  rr_covered :: "string list"
  rr_information :: nat
  rr_total :: nat
  rr_issues :: "quality_issue list"

record score_report =
  sc_quality :: quality_score
  sc_issues :: "quality_issue list"
  sc_accepted :: bool

record claim_key =
  ck_entity :: string
  ck_pointer :: string

record consistency_finding =
  cf_code :: string
  cf_key :: claim_key
  cf_candidate_hash :: string
  cf_evidence_hash :: string

record consistency_report =
  cr_score :: "flt option"
  cr_compared :: nat
  cr_findings :: "consistency_finding list"
  cr_candidates :: nat

definition consistency_report_default :: consistency_report where
  "consistency_report_default =
     \<lparr>cr_score = None, cr_compared = 0, cr_findings = [], cr_candidates = 0\<rparr>"

definition ref_report_default :: ref_report where
  "ref_report_default =
     \<lparr>rr_assertions = 0, rr_supported = 0, rr_occurrences = 0, rr_valid = 0, rr_covered = [],
      rr_information = 0, rr_total = 0, rr_issues = []\<rparr>"

end
