(* ===== verification/Policy.thy ===== *)
theory Policy
  imports Types
begin

text \<open>
  Compile policy and run options (\<^verbatim>\<open>compile/config.rs\<close>): the records, their defaults, the
  startup validation and the resolution of the knowledge-field allowlist. The lemmas say what
  a validated policy guarantees and that the allowlist never holds a filterable or a sensitive
  field. A \<^verbatim>\<open>semver::VersionReq\<close> is kept as its text.
\<close>

section \<open>Records and defaults\<close>

record consistency_policy =
  csp_enabled :: bool
  csp_top_k :: nat
  csp_min :: flt
  csp_pointers :: "string list"

definition consistency_policy_default :: consistency_policy where
  "consistency_policy_default =
     \<lparr>csp_enabled = False, csp_top_k = 8, csp_min = Fin 1, csp_pointers = []\<rparr>"

record compatibility_spec =
  cmp_domain_pack :: string
  cmp_schema :: string
  cmp_prompt :: string
  cmp_artifact :: "string list"

record compile_policy =
  cpl_compiler_version :: string
  cpl_artifact_version :: string
  cpl_scorer_version :: string
  cpl_knowledge :: "string list"
  cpl_sensitive :: "string list"
  cpl_headings :: "string list"
  cpl_min_coverage :: flt
  cpl_min_density :: flt
  cpl_max_recompiles :: nat
  cpl_max_retries :: nat
  cpl_task_budget :: nat
  cpl_batch_budget :: nat
  cpl_daily_budget :: "nat option"
  cpl_max_output :: nat
  cpl_lease_seconds :: nat
  cpl_heartbeat_seconds :: nat
  cpl_consistency :: consistency_policy
  cpl_reaper_interval :: nat
  cpl_preflight :: bool
  cpl_compatibility :: "compatibility_spec option"

text \<open>The default heading is the two Chinese characters of "overview" in UTF-8.\<close>

definition overview_heading :: string where
  "overview_heading = map char_of [230, 166, 130, 232, 191, 176 :: nat]"

definition compile_policy_default :: compile_policy where
  "compile_policy_default =
     \<lparr>cpl_compiler_version = ''compile-v1'', cpl_artifact_version = ''wiki-v1'',
      cpl_scorer_version = ''rules-v1'', cpl_knowledge = [], cpl_sensitive = [],
      cpl_headings = [overview_heading],
      cpl_min_coverage = Fin (rnd f32 (60 / 100)), cpl_min_density = Fin (rnd f32 (40 / 100)),
      cpl_max_recompiles = 2, cpl_max_retries = 3, cpl_task_budget = 65536,
      cpl_batch_budget = 262144, cpl_daily_budget = None, cpl_max_output = 2048,
      cpl_lease_seconds = 300, cpl_heartbeat_seconds = 30,
      cpl_consistency = consistency_policy_default, cpl_reaper_interval = 30,
      cpl_preflight = True, cpl_compatibility = None\<rparr>"

section \<open>Validation\<close>

text \<open>\<^verbatim>\<open>HashSet::insert\<close> in a loop: the first empty or repeated entry is the error.\<close>

fun check_unique_from :: "string list \<Rightarrow> string list \<Rightarrow> unit result" where
  "check_unique_from seen [] = Inr ()"
| "check_unique_from seen (v # vs) =
     (if trim v = [] then Inl InvalidConfig
      else if v \<in> set seen then Inl InvalidConfig
      else check_unique_from (v # seen) vs)"

definition check_unique_non_empty :: "string list \<Rightarrow> unit result" where
  "check_unique_non_empty vs = check_unique_from [] vs"

fun check_pointers_from :: "string list \<Rightarrow> string list \<Rightarrow> unit result" where
  "check_pointers_from seen [] = Inr ()"
| "check_pointers_from seen (p # ps) =
     (if length p < 2 \<or> \<not> starts_with p ''/'' then Inl InvalidConfig
      else if p \<in> set seen then Inl InvalidConfig
      else check_pointers_from (p # seen) ps)"

definition consistency_validate :: "consistency_policy \<Rightarrow> unit result" where
  "consistency_validate c =
     (if csp_top_k c < 1 \<or> csp_top_k c > 32 then Inl InvalidConfig
      else if \<not> in_unit (csp_min c) then Inl InvalidConfig
      else check_pointers_from [] (csp_pointers c))"

definition compatibility_validate :: "compatibility_spec \<Rightarrow> unit result" where
  "compatibility_validate s =
     (if list_ex (\<lambda>a. trim a = []) (cmp_artifact s) then Inl InvalidConfig else Inr ())"

definition policy_validate :: "compile_policy \<Rightarrow> unit result" where
  "policy_validate p =
     (if \<not> in_unit (cpl_min_coverage p) then Inl InvalidConfig
      else if \<not> in_unit (cpl_min_density p) then Inl InvalidConfig
      else if cpl_max_recompiles p > 10 then Inl InvalidConfig
      else if cpl_max_retries p < 1 \<or> cpl_max_retries p > 100 then Inl InvalidConfig
      else if cpl_task_budget p = 0 then Inl InvalidConfig
      else if cpl_batch_budget p = 0 then Inl InvalidConfig
      else if cpl_daily_budget p = Some 0 then Inl InvalidConfig
      else if cpl_max_output p < 1 \<or> cpl_max_output p > 8192 then Inl InvalidConfig
      else if cpl_lease_seconds p = 0 \<or> cpl_heartbeat_seconds p = 0 then Inl InvalidConfig
      else if cpl_heartbeat_seconds p > cpl_lease_seconds p then Inl InvalidConfig
      else if cpl_headings p = [] then Inl InvalidConfig
      else try_bind (check_unique_non_empty (cpl_headings p)) (\<lambda>_.
           try_bind (check_unique_non_empty (cpl_knowledge p)) (\<lambda>_.
           try_bind (check_unique_non_empty (cpl_sensitive p)) (\<lambda>_.
           try_bind (consistency_validate (cpl_consistency p)) (\<lambda>_.
           if cpl_reaper_interval p = 0 then Inl InvalidConfig
           else (case cpl_compatibility p of
                   Some spec \<Rightarrow> compatibility_validate spec
                 | None \<Rightarrow> Inr ()))))))"

lemma check_unique_from_Ok:
  "check_unique_from seen vs = Inr u \<longleftrightarrow>
     distinct vs \<and> set vs \<inter> set seen = {} \<and> (\<forall>v\<in>set vs. trim v \<noteq> [])"
  by (induction seen vs rule: check_unique_from.induct) auto

lemma check_unique_non_empty_Ok:
  "check_unique_non_empty vs = Inr u \<longleftrightarrow> distinct vs \<and> (\<forall>v\<in>set vs. trim v \<noteq> [])"
  by (simp add: check_unique_non_empty_def check_unique_from_Ok)

lemma check_pointers_from_Ok:
  "check_pointers_from seen ps = Inr u \<longleftrightarrow>
     distinct ps \<and> set ps \<inter> set seen = {} \<and>
     (\<forall>p\<in>set ps. 2 \<le> length p \<and> starts_with p ''/'')"
  by (induction seen ps rule: check_pointers_from.induct) auto

text \<open>What the rest of the pipeline relies on once a policy is validated.\<close>

definition policy_ok :: "compile_policy \<Rightarrow> bool" where
  "policy_ok p =
     (in_unit (cpl_min_coverage p) \<and> in_unit (cpl_min_density p)
      \<and> cpl_max_recompiles p \<le> 10 \<and> 1 \<le> cpl_max_retries p \<and> cpl_max_retries p \<le> 100
      \<and> 0 < cpl_task_budget p \<and> 0 < cpl_batch_budget p \<and> cpl_daily_budget p \<noteq> Some 0
      \<and> 1 \<le> cpl_max_output p \<and> cpl_max_output p \<le> 8192
      \<and> 0 < cpl_heartbeat_seconds p \<and> cpl_heartbeat_seconds p \<le> cpl_lease_seconds p
      \<and> cpl_headings p \<noteq> [] \<and> distinct (cpl_headings p)
      \<and> distinct (cpl_knowledge p) \<and> distinct (cpl_sensitive p)
      \<and> in_unit (csp_min (cpl_consistency p))
      \<and> csp_top_k (cpl_consistency p) \<in> {1..32} \<and> distinct (csp_pointers (cpl_consistency p))
      \<and> 0 < cpl_reaper_interval p)"

lemma policy_validate_sound: "policy_validate p = Inr u \<Longrightarrow> policy_ok p"
  by (simp add: policy_validate_def policy_ok_def check_unique_non_empty_Ok
      consistency_validate_def check_pointers_from_Ok split: if_splits)

section \<open>The knowledge-field allowlist\<close>

fun resolve_explicit ::
  "string list \<Rightarrow> string list \<Rightarrow> field_definition list \<Rightarrow> string list \<Rightarrow> unit result" where
  "resolve_explicit sensitive seen fds [] = Inr ()"
| "resolve_explicit sensitive seen fds (name # names) =
     (if trim name = [] then Inl InvalidConfig
      else if name \<in> set seen then Inl InvalidConfig
      else (case find (\<lambda>f. fd_name f = name) fds of
              None \<Rightarrow> Inl InvalidConfig
            | Some fd \<Rightarrow>
                if fd_filterable fd then Inl InvalidConfig
                else if \<not> (fd_type fd = FtText \<or> fd_type fd = FtRefList) then Inl InvalidConfig
                else if name \<in> set sensitive then Inl InvalidConfig
                else resolve_explicit sensitive (name # seen) fds names))"

definition resolve_knowledge_fields ::
  "compile_policy \<Rightarrow> entity_schema \<Rightarrow> string list result" where
  "resolve_knowledge_fields p schema =
     (if cpl_knowledge p = [] then
        Inr (map fd_name (filter (\<lambda>f. fd_type f = FtText \<and> \<not> fd_filterable f
                                      \<and> fd_name f \<notin> set (cpl_sensitive p)) (es_fields schema)))
      else try_bind (resolve_explicit (cpl_sensitive p) [] (es_fields schema) (cpl_knowledge p))
             (\<lambda>_. Inr (cpl_knowledge p)))"

text \<open>A name is allowed when the schema declares it as a non-filterable text or list field.\<close>

definition knowledge_name :: "entity_schema \<Rightarrow> string \<Rightarrow> bool" where
  "knowledge_name schema n =
     (\<exists>f\<in>set (es_fields schema). fd_name f = n \<and> \<not> fd_filterable f
        \<and> (fd_type f = FtText \<or> fd_type f = FtRefList))"

lemma resolve_explicit_sound:
  "resolve_explicit sens seen fds names = Inr u \<Longrightarrow> n \<in> set names \<Longrightarrow>
     n \<notin> set sens \<and> (\<exists>f\<in>set fds. fd_name f = n \<and> \<not> fd_filterable f
        \<and> (fd_type f = FtText \<or> fd_type f = FtRefList))"
proof (induction sens seen fds names rule: resolve_explicit.induct)
  case (1 sensitive seen fds)
  then show ?case by simp
next
  case (2 sensitive seen fds name names)
  from "2.prems"(1) obtain fd where fd: "find (\<lambda>f. fd_name f = name) fds = Some fd"
    "\<not> fd_filterable fd" "fd_type fd = FtText \<or> fd_type fd = FtRefList" "name \<notin> set sensitive"
    and rest: "trim name \<noteq> []" "name \<notin> set seen"
      "resolve_explicit sensitive (name # seen) fds names = Inr u"
    by (auto split: if_splits option.splits)
  from find_SomeD[OF fd(1)] have "fd \<in> set fds" "fd_name fd = name" by auto
  with fd rest "2.IH"[of fd] "2.prems"(2) show ?case by (cases "n = name") auto
qed

lemma resolve_knowledge_fields_sound:
  assumes "resolve_knowledge_fields p schema = Inr names" "n \<in> set names"
  shows "n \<notin> set (cpl_sensitive p)" "knowledge_name schema n"
proof -
  have "n \<notin> set (cpl_sensitive p) \<and> knowledge_name schema n"
  proof (cases "cpl_knowledge p = []")
    case True
    with assms show ?thesis by (auto simp: resolve_knowledge_fields_def knowledge_name_def)
  next
    case False
    with assms show ?thesis
      using resolve_explicit_sound[of "cpl_sensitive p" "[]" "es_fields schema" "cpl_knowledge p" _ n]
      by (auto simp: resolve_knowledge_fields_def knowledge_name_def)
  qed
  then show "n \<notin> set (cpl_sensitive p)" "knowledge_name schema n" by simp_all
qed

section \<open>Run options, statistics and outcomes\<close>

record run_options =
  ro_limit :: nat
  ro_batch :: nat
  ro_force :: bool
  ro_dry :: bool

definition run_options_default :: run_options where
  "run_options_default = \<lparr>ro_limit = 1000, ro_batch = 32, ro_force = False, ro_dry = False\<rparr>"

definition run_options_validate :: "run_options \<Rightarrow> unit result" where
  "run_options_validate o1 =
     (if ro_limit o1 < 1 \<or> ro_limit o1 > 10000 then Inl InvalidConfig
      else if ro_batch o1 < 1 \<or> ro_batch o1 > 128 then Inl InvalidConfig
      else Inr ())"

record compile_stats =
  st_run :: string
  st_scanned :: nat
  st_accepted :: nat
  st_quarantined :: nat
  st_failed :: nat
  st_skipped :: nat
  st_deferred :: nat
  st_would_compile :: nat
  st_attempts :: nat
  st_reserved :: nat
  st_reported :: nat
  st_circuit_open :: bool
  st_dry_run :: bool

definition compile_stats_default :: compile_stats where
  "compile_stats_default = \<lparr>st_run = [], st_scanned = 0, st_accepted = 0, st_quarantined = 0, st_failed = 0,
     st_skipped = 0, st_deferred = 0, st_would_compile = 0, st_attempts = 0, st_reserved = 0, st_reported = 0,
     st_circuit_open = False, st_dry_run = False\<rparr>"

datatype admission = Queued int | Skipped | Deferred | Rejected string
datatype commit_outcome = Accepted int | Stale
datatype failure_disposition = RetryAt int | QuarantinedTask | FailedTask

record task_lease =
  tl_task :: int
  tl_epoch :: int
  tl_token :: string
  tl_hash :: string
  tl_attempt :: nat
  tl_source :: raw_entity
  tl_context :: compile_context

definition build_context ::
  "string \<Rightarrow> string \<Rightarrow> string \<Rightarrow> string \<Rightarrow> flt \<Rightarrow> bool \<Rightarrow> string option \<Rightarrow> string option
   \<Rightarrow> compile_context" where
  "build_context pack prompt model emb threshold refs schema_v prompt_v =
     \<lparr>cx_pack_version = pack, cx_prompt = prompt, cx_model = model, cx_embedding = emb,
      cx_threshold = threshold, cx_require_refs = refs, cx_schema_version = schema_v,
      cx_prompt_version = prompt_v\<rparr>"

end
