(* ===== verification/External.thy ===== *)
theory External
  imports Policy
begin

text \<open>
  The third-party code the kernel calls, as one record of functions that every definition
  using it takes as its argument \<open>X\<close>: BLAKE3 (crate blake3), the text of a JSON number and of a
  JSON value, the derived serde codecs of the stored records (crates serde and serde_json).
  The laws a theorem needs of it appear in its statement; the instance the witnesses run on
  (theory Samples) satisfies all of them.
\<close>

text \<open>\<^verbatim>\<open>StoredDependencies\<close> of \<^verbatim>\<open>kernel/compile_store.rs\<close>: the columns \<^verbatim>\<open>dependencies_json\<close> holds.\<close>

record stored_deps =
  sd_context :: compile_context
  sd_policy :: compile_policy
  sd_schema :: json

record ext =
  x_blake3 :: "string \<Rightarrow> string"
  x_num_text :: "json \<Rightarrow> string"
  x_json_text :: "json \<Rightarrow> string"
  x_parse_json :: "string \<Rightarrow> json option"
  x_compat_json :: "compatibility_spec \<Rightarrow> json"
  x_source_text :: "raw_entity \<Rightarrow> string"
  x_parse_source :: "string \<Rightarrow> raw_entity option"
  x_deps_text :: "stored_deps \<Rightarrow> string"
  x_parse_deps :: "string \<Rightarrow> stored_deps option"
  x_page_text :: "compiled_page \<Rightarrow> string"
  x_parse_page :: "string \<Rightarrow> compiled_page option"
  x_report_text :: "score_report \<Rightarrow> string"
  x_issues_text :: "quality_issue list \<Rightarrow> string"
  x_edge_text :: "qug_edge \<Rightarrow> string"
  x_parse_edge :: "string \<Rightarrow> qug_edge option"
  x_ref_json :: "source_ref \<Rightarrow> json"

text \<open>BLAKE3 taken as collision free.\<close>

definition collision_free :: "ext \<Rightarrow> bool" where
  "collision_free X = inj (x_blake3 X)"

text \<open>
  Different numbers have different texts: an integer prints its digits, a finite float prints
  its shortest decimal form, always with a point or an exponent.
\<close>

fun is_number :: "json \<Rightarrow> bool" where
  "is_number (JInt _) = True"
| "is_number (JFloat v) = is_finite v"
| "is_number _ = False"

definition number_text_injective :: "ext \<Rightarrow> bool" where
  "number_text_injective X =
     (\<forall>v w. is_number v \<longrightarrow> is_number w \<longrightarrow> x_num_text X v = x_num_text X w \<longrightarrow> v = w)"

end
