(* ===== verification/Samples.thy ===== *)
theory Samples
  imports External
begin

text \<open>
  Concrete inputs on which the witnesses run the model: a small entity, its schema, a context
  and a policy, and an instance of the third-party functions. The hash of the instance is the
  identity and its codecs know the sample records, which is all the laws ask for.
\<close>

definition demo_entity :: entity_id where
  "demo_entity = \<lparr>eid_domain = ''milk'', eid_type = ''drink'', eid_local = ''boba''\<rparr>"

definition demo_raw :: raw_entity where
  "demo_raw = \<lparr>raw_id = demo_entity,
     raw_fields = [(''name'', JStr ''boba''), (''price'', JInt 12)], raw_revision = 1\<rparr>"

definition demo_schema :: entity_schema where
  "demo_schema = \<lparr>es_type = ''drink'',
     es_fields = [\<lparr>fd_name = ''name'', fd_type = FtText, fd_filterable = False\<rparr>,
                  \<lparr>fd_name = ''price'', fd_type = FtNumeric, fd_filterable = True\<rparr>]\<rparr>"

definition demo_context :: compile_context where
  "demo_context = build_context ''0.1.0'' ''prompt'' ''mock-v1'' ''none'' (Fin (1 / 2)) True None None"

definition demo_policy :: compile_policy where
  "demo_policy = compile_policy_default
     \<lparr>cpl_min_coverage := Fin (1 / 2), cpl_min_density := Fin (1 / 2)\<rparr>"

definition demo_deps :: stored_deps where
  "demo_deps = \<lparr>sd_context = demo_context, sd_policy = demo_policy, sd_schema = JNull\<rparr>"

definition demo_knowledge :: raw_entity where
  "demo_knowledge = \<lparr>raw_id = demo_entity, raw_fields = [(''name'', JStr ''boba'')], raw_revision = 1\<rparr>"

text \<open>A number text: the integers in unary, a rational as its numerator and denominator.\<close>

definition int_text :: "int \<Rightarrow> string" where
  "int_text n = (if n < 0 then CHR ''-'' else CHR ''+'') # replicate (nat \<bar>n\<bar>) (CHR ''1'')"

definition sample_num_text :: "json \<Rightarrow> string" where
  "sample_num_text v =
     (case v of
        JInt n \<Rightarrow> CHR ''i'' # int_text n
      | JFloat (Fin r) \<Rightarrow>
          CHR ''f'' # int_text (fst (quotient_of r)) @ int_text (snd (quotient_of r))
      | _ \<Rightarrow> [])"

definition demo_wiki_page :: wiki_page where
  "demo_wiki_page = \<lparr>wp_id = ''milk:drink:boba'', wp_entity = demo_entity, wp_title = ''boba'',
     wp_content = ''boba'', wp_sections = [(''h'', ''boba'')],
     wp_meta = \<lparr>pm_pack_version = ''0.1.0'', pm_compiled_at = 0, pm_model = ''mock-v1'',
                pm_embedding = ''none''\<rparr>,
     wp_aliases = [], wp_tags = []\<rparr>"

definition demo_evidence :: compile_evidence where
  "demo_evidence = \<lparr>ce_schema_version = ''source-ref-v1'',
     ce_wiki = \<lparr>ow_title = ''boba'', ow_aliases = [], ow_tags = [], ow_markdown = ''boba''\<rparr>,
     ce_sections = [], ce_usage = None\<rparr>"

definition perfect_quality :: quality_score where
  "perfect_quality = \<lparr>qs_coverage = Fin 1, qs_citation = Fin 1, qs_schema = Fin 1,
     qs_density = Fin 1, qs_consistency = None\<rparr>"

definition demo_report :: score_report where
  "demo_report = \<lparr>sc_quality = perfect_quality, sc_issues = [], sc_accepted = True\<rparr>"

definition demo_page :: "string \<Rightarrow> compiled_page" where
  "demo_page h = \<lparr>cp_wiki = demo_wiki_page, cp_quality = perfect_quality, cp_edges = [],
     cp_hash = h, cp_evidence = Some demo_evidence\<rparr>"

definition sample_ext :: ext where
  "sample_ext = \<lparr>x_blake3 = (\<lambda>s. s), x_num_text = sample_num_text,
     x_json_text = (\<lambda>v. ''json''), x_parse_json = (\<lambda>s. Some (JObj [])),
     x_compat_json = (\<lambda>s. JNull),
     x_source_text = (\<lambda>r. ''source''), x_parse_source = (\<lambda>s. Some demo_knowledge),
     x_deps_text = (\<lambda>d. ''deps''), x_parse_deps = (\<lambda>s. Some demo_deps),
     x_page_text = (\<lambda>p. ''page''), x_parse_page = (\<lambda>s. Some (demo_page ''h'')),
     x_report_text = (\<lambda>r. ''report''), x_issues_text = (\<lambda>i. ''issues''),
     x_edge_text = (\<lambda>e. ''edge''), x_parse_edge = (\<lambda>s. None), x_ref_json = (\<lambda>r. JNull)\<rparr>"

lemmas demo_defs =
  demo_entity_def demo_raw_def demo_schema_def demo_context_def demo_policy_def demo_deps_def
  demo_knowledge_def demo_wiki_page_def demo_evidence_def perfect_quality_def demo_report_def
  demo_page_def build_context_def compile_policy_default_def consistency_policy_default_def

lemma sample_ext_simps [simp]:
  "x_blake3 sample_ext s = s" "x_num_text sample_ext v = sample_num_text v"
  "x_json_text sample_ext v = ''json''" "x_compat_json sample_ext c = JNull"
  "x_parse_json sample_ext t = Some (JObj [])"
  "x_source_text sample_ext r = ''source''" "x_parse_source sample_ext t = Some demo_knowledge"
  "x_deps_text sample_ext d = ''deps''" "x_parse_deps sample_ext t = Some demo_deps"
  "x_page_text sample_ext p = ''page''" "x_parse_page sample_ext t = Some (demo_page ''h'')"
  "x_report_text sample_ext rep = ''report''" "x_issues_text sample_ext is = ''issues''"
  "x_edge_text sample_ext e = ''edge''" "x_ref_json sample_ext sr = JNull"
  by (simp_all add: sample_ext_def)

lemma collision_free_sample: "collision_free sample_ext"
  by (simp add: collision_free_def inj_def)

lemma int_text_append_inject:
  "int_text a @ int_text b = int_text c @ int_text d \<Longrightarrow> a = c \<and> b = d"
proof -
  assume eq: "int_text a @ int_text b = int_text c @ int_text d"
  have tw: "takeWhile (\<lambda>x. x = CHR ''1'') (replicate n (CHR ''1'') @ int_text z)
      = replicate n (CHR ''1'')" for n z
    by (induction n) (simp_all add: int_text_def)
  have sgn: "(a < 0) = (c < 0)" using eq by (auto simp: int_text_def split: if_splits)
  have "replicate (nat \<bar>a\<bar>) (CHR ''1'') @ int_text b = replicate (nat \<bar>c\<bar>) (CHR ''1'') @ int_text d"
    using eq by (simp add: int_text_def[of a] int_text_def[of c])
  then have "nat \<bar>a\<bar> = nat \<bar>c\<bar>" by (metis tw length_replicate)
  with sgn have ac: "a = c" by linarith
  with eq have bd: "int_text b = int_text d" by simp
  then have "(b < 0) = (d < 0)" "nat \<bar>b\<bar> = nat \<bar>d\<bar>"
    by (auto simp: int_text_def split: if_splits dest: arg_cong[of _ _ length])
  then have "b = d" by linarith
  with ac show ?thesis by simp
qed

lemma int_text_inject: "int_text a = int_text b \<Longrightarrow> a = b"
  using int_text_append_inject[of a 0 b 0] by simp

lemma number_text_injective_sample: "number_text_injective sample_ext"
proof -
  have "v = w"
    if v: "is_number v" and w: "is_number w" and eq: "sample_num_text v = sample_num_text w" for v w
  proof (cases v)
    case (JInt n)
    from w consider m where "w = JInt m" | r where "w = JFloat (Fin r)"
      by (cases w rule: is_number.cases) (auto simp: is_finite_def split: flt.splits)
    then show ?thesis
      using JInt eq by cases (auto simp: sample_num_text_def dest: int_text_inject)
  next
    case (JFloat x)
    with v obtain r where r: "v = JFloat (Fin r)" by (cases x) (auto simp: is_finite_def)
    from w consider m where "w = JInt m" | r' where "w = JFloat (Fin r')"
      by (cases w rule: is_number.cases) (auto simp: is_finite_def split: flt.splits)
    then show ?thesis
    proof cases
      case (2 r')
      then have "quotient_of r = quotient_of r'"
        using eq r int_text_append_inject by (auto simp: sample_num_text_def prod_eq_iff)
      then have "r = r'" by (simp add: quotient_of_inject)
      with r 2 show ?thesis by simp
    qed (use eq r in \<open>auto simp: sample_num_text_def\<close>)
  qed (use v in auto)
  then show ?thesis by (simp add: number_text_injective_def)
qed

end
