(* ===== verification/Hash.thy ===== *)
theory Hash
  imports Samples
begin

text \<open>
  \<^verbatim>\<open>compile/hash.rs\<close>: the canonical byte encoding of JSON values and the all-dependency content
  hash. The theorems are the two things the incremental skip rests on: the encoding is
  uniquely decodable (no two values, and no two frames, share their bytes), so equal hashes
  mean equal dependencies; and scheduling data never enters the hash.
\<close>

section \<open>Length fields\<close>

fun le_bytes :: "nat \<Rightarrow> nat \<Rightarrow> string" where
  "le_bytes 0 n = []"
| "le_bytes (Suc k) n = char_of (n mod 256) # le_bytes k (n div 256)"

definition write_u64 :: "nat \<Rightarrow> string" where
  "write_u64 n = le_bytes 8 n"

definition u64_bound :: nat where "u64_bound = 2 ^ 64"

lemma length_le_bytes [simp]: "length (le_bytes k n) = k"
  by (induction k n rule: le_bytes.induct) simp_all

lemma length_write_u64 [simp]: "length (write_u64 n) = 8"
  by (simp add: write_u64_def)

lemma le_bytes_inject:
  "n < 256 ^ k \<Longrightarrow> m < 256 ^ k \<Longrightarrow> le_bytes k n = le_bytes k m \<Longrightarrow> n = m"
proof (induction k arbitrary: n m)
  case 0
  then show ?case by simp
next
  case (Suc k)
  from Suc.prems have "(of_char (char_of (n mod 256)) :: nat) = of_char (char_of (m mod 256))"
    by simp
  then have lo: "n mod 256 = m mod 256" by simp
  have "n div 256 < 256 ^ k" "m div 256 < 256 ^ k"
    using Suc.prems by (simp_all add: less_mult_imp_div_less mult.commute)
  then have "n div 256 = m div 256" using Suc by simp
  with lo show ?case by (metis div_mult_mod_eq)
qed

lemma write_u64_append_inject:
  assumes "n < u64_bound" "m < u64_bound" "write_u64 n @ r = write_u64 m @ s"
  shows "n = m \<and> r = s"
proof -
  from assms(3) have "le_bytes 8 n = le_bytes 8 m" "r = s" by (simp_all add: write_u64_def)
  then show ?thesis using assms(1,2) le_bytes_inject[of n 8 m] by (simp add: u64_bound_def)
qed

definition frame :: "string \<Rightarrow> string" where
  "frame s = write_u64 (length s) @ s"

lemma frame_append_inject:
  assumes "length a < u64_bound" "length b < u64_bound" "frame a @ r = frame b @ s"
  shows "a = b \<and> r = s"
  using write_u64_append_inject[of "length a" "length b" "a @ r" "b @ s"] assms
  by (auto simp: frame_def)

section \<open>The canonical encoding\<close>

fun write_value :: "ext \<Rightarrow> json \<Rightarrow> string result" where
  "write_value X JNull = Inr [CHR 0x00]"
| "write_value X (JBool b) = Inr [if b then CHR 0x02 else CHR 0x01]"
| "write_value X (JInt n) = Inr (CHR 0x03 # frame (x_num_text X (JInt n)))"
| "write_value X (JFloat v) =
     (if is_finite v then Inr (CHR 0x03 # frame (x_num_text X (JFloat v))) else Inl Validation)"
| "write_value X (JStr s) = Inr (CHR 0x04 # frame s)"
| "write_value X (JArr items) =
     try_bind (collect_results (map (write_value X) items))
       (\<lambda>bs. Inr (CHR 0x05 # write_u64 (length items) @ concat bs))"
| "write_value X (JObj members) =
     try_bind (collect_results
                (map (\<lambda>m. try_bind (snd m) (\<lambda>b. Inr (frame (fst m) @ b)))
                   (sort_key fst (map (\<lambda>m. (fst m, write_value X (snd m))) members))))
       (\<lambda>bs. Inr (CHR 0x06 # write_u64 (length members) @ concat bs))"

definition canonical_json :: "ext \<Rightarrow> json \<Rightarrow> string result" where
  "canonical_json X v = write_value X v"

text \<open>A \<^verbatim>\<open>serde_json::Map\<close> keeps its members in key order, at every depth.\<close>

fun json_sorted :: "json \<Rightarrow> bool" where
  "json_sorted (JArr items) = (\<forall>v\<in>set items. json_sorted v)"
| "json_sorted (JObj members) =
     (sorted_wrt (<) (map fst members) \<and> (\<forall>m\<in>set members. json_sorted (snd m)))"
| "json_sorted _ = True"

text \<open>The bytes a value has when no number in it is infinite or a NaN.\<close>

fun enc :: "ext \<Rightarrow> json \<Rightarrow> string" where
  "enc X JNull = [CHR 0x00]"
| "enc X (JBool b) = [if b then CHR 0x02 else CHR 0x01]"
| "enc X (JInt n) = CHR 0x03 # frame (x_num_text X (JInt n))"
| "enc X (JFloat v) = CHR 0x03 # frame (x_num_text X (JFloat v))"
| "enc X (JStr s) = CHR 0x04 # frame s"
| "enc X (JArr items) = CHR 0x05 # write_u64 (length items) @ concat (map (enc X) items)"
| "enc X (JObj members) =
     CHR 0x06 # write_u64 (length members)
       @ concat (map (\<lambda>m. frame (fst m) @ enc X (snd m)) members)"

fun json_finite :: "json \<Rightarrow> bool" where
  "json_finite (JFloat v) = is_finite v"
| "json_finite (JArr items) = (\<forall>v\<in>set items. json_finite v)"
| "json_finite (JObj members) = (\<forall>m\<in>set members. json_finite (snd m))"
| "json_finite _ = True"

lemma sort_key_id: "sorted (map f xs) \<Longrightarrow> sort_key f xs = xs"
  by (rule sort_key_id_if_sorted)

lemma write_value_Ok:
  "json_sorted v \<Longrightarrow> write_value X v = Inr b \<longleftrightarrow> json_finite v \<and> b = enc X v"
proof (induction v arbitrary: b)
  case (JArr items)
  have "map (write_value X) items = map Inr bs \<longleftrightarrow>
      (\<forall>v\<in>set items. json_finite v) \<and> bs = map (enc X) items" for bs
    using JArr by (induction items arbitrary: bs) (auto simp: map_eq_Cons_conv Cons_eq_map_conv)
  then show ?case by (auto simp: collect_results_eq_Inr)
next
  case (JObj members)
  let ?enc = "\<lambda>m. (fst m, write_value X (snd m))"
  have "sorted (map fst members)" using JObj.prems by (auto intro: strict_sorted_imp_sorted)
  then have "sorted (map fst (map ?enc members))" by (simp add: comp_def)
  then have s: "sort_key fst (map ?enc members) = map ?enc members" by (rule sort_key_id)
  have IH: "write_value X (snd m) = Inr c \<longleftrightarrow> json_finite (snd m) \<and> c = enc X (snd m)"
    if "m \<in> set members" for m c
    using JObj that by (cases m) auto
  then have "map (\<lambda>m. try_bind (write_value X (snd m)) (\<lambda>b. Inr (frame (fst m) @ b))) members
        = map Inr bs \<longleftrightarrow>
      (\<forall>m\<in>set members. json_finite (snd m)) \<and>
      bs = map (\<lambda>m. frame (fst m) @ enc X (snd m)) members" for bs
    by (induction members arbitrary: bs) (auto simp: map_eq_Cons_conv Cons_eq_map_conv)
  then show ?case
    using s by (auto simp: collect_results_eq_Inr comp_def)
qed (auto split: if_splits)

section \<open>Unique decodability\<close>

lemma length_concat_ge: "x \<in> set xs \<Longrightarrow> length x \<le> length (concat xs)"
  by (induction xs) auto

text \<open>Every length that occurs in an encoding is bounded by the length of the whole.\<close>

fun json_small :: "ext \<Rightarrow> json \<Rightarrow> bool" where
  "json_small X (JInt n) = (length (x_num_text X (JInt n)) < u64_bound)"
| "json_small X (JFloat v) = (length (x_num_text X (JFloat v)) < u64_bound)"
| "json_small X (JStr s) = (length s < u64_bound)"
| "json_small X (JArr items) = (length items < u64_bound \<and> (\<forall>v\<in>set items. json_small X v))"
| "json_small X (JObj members) =
     (length members < u64_bound \<and>
      (\<forall>m\<in>set members. length (fst m) < u64_bound \<and> json_small X (snd m)))"
| "json_small X _ = True"

lemma enc_nonempty: "enc X v \<noteq> []"
  by (cases v) simp_all

lemma length_concat_map_ge: "(\<And>x. f x \<noteq> []) \<Longrightarrow> length xs \<le> length (concat (map f xs))"
proof (induction xs)
  case Nil
  then show ?case by simp
next
  case (Cons x xs)
  then have "1 \<le> length (f x)" by (simp add: Suc_le_eq)
  with Cons show ?case by simp
qed

lemma json_smallI: "length (enc X v) < u64_bound \<Longrightarrow> json_small X v"
proof (induction v)
  case (JArr items)
  have "length items \<le> length (concat (map (enc X) items))"
    by (rule length_concat_map_ge) (rule enc_nonempty)
  moreover have "length (enc X v) \<le> length (concat (map (enc X) items))" if "v \<in> set items" for v
    using that by (intro length_concat_ge) simp
  ultimately show ?case using JArr by fastforce
next
  case (JObj members)
  let ?f = "\<lambda>m. frame (fst m) @ enc X (snd m)"
  have "length members \<le> length (concat (map ?f members))"
    by (rule length_concat_map_ge) (simp add: enc_nonempty)
  moreover have "length (?f m) \<le> length (concat (map ?f members))" if "m \<in> set members" for m
    using that by (intro length_concat_ge) simp
  then have "length (fst m) \<le> length (concat (map ?f members))"
    "length (enc X (snd m)) \<le> length (concat (map ?f members))" if "m \<in> set members" for m
    using that by (fastforce simp: frame_def)+
  moreover have "json_small X (snd m)"
    if "m \<in> set members" "length (enc X (snd m)) < u64_bound" for m
    using JObj.IH[of m "snd m"] that by (cases m) auto
  ultimately show ?case using JObj.prems by fastforce
qed (auto simp: frame_def)

text \<open>
  Two lists of the same length, encoded piece by piece: they agree as soon as their bytes
  do, whatever follows, if single pieces do.
\<close>

lemma concat_map_append_inject:
  assumes "\<And>x y r s. x \<in> set xs \<Longrightarrow> y \<in> set ys \<Longrightarrow> f x @ r = f y @ s \<Longrightarrow> x = y \<and> r = s"
    and "length xs = length ys" "concat (map f xs) @ r = concat (map f ys) @ s"
  shows "xs = ys \<and> r = s"
  using assms(2,1,3)
proof (induction xs ys arbitrary: r s rule: list_induct2)
  case Nil
  then show ?case by simp
next
  case (Cons x xs y ys)
  from Cons.prems(2) have "f x @ (concat (map f xs) @ r) = f y @ (concat (map f ys) @ s)" by simp
  then have "x = y" "concat (map f xs) @ r = concat (map f ys) @ s"
    using Cons.prems(1)[of x y] by auto
  moreover have "\<And>a b r s. a \<in> set xs \<Longrightarrow> b \<in> set ys \<Longrightarrow> f a @ r = f b @ s \<Longrightarrow> a = b \<and> r = s"
    using Cons.prems(1) by (meson list.set_intros(2))
  ultimately show ?case using Cons.IH by blast
qed

lemma number_append_inject:
  assumes "number_text_injective X" "is_number v" "is_number w"
    and "length (x_num_text X v) < u64_bound" "length (x_num_text X w) < u64_bound"
    and "frame (x_num_text X v) @ r = frame (x_num_text X w) @ s"
  shows "v = w \<and> r = s"
  using frame_append_inject[OF assms(4-6)] assms(1-3) by (auto simp: number_text_injective_def)

lemma enc_append_inject:
  assumes "number_text_injective X"
  shows "json_small X v \<Longrightarrow> json_small X w \<Longrightarrow> json_finite v \<Longrightarrow> json_finite w \<Longrightarrow>
    enc X v @ r = enc X w @ s \<Longrightarrow> v = w \<and> r = s"
proof (induction v arbitrary: w r s)
  case (JInt n)
  then show ?case
    using number_append_inject[OF assms, of "JInt n" w r s] by (cases w) (auto split: if_splits)
next
  case (JFloat x)
  then show ?case
    using number_append_inject[OF assms, of "JFloat x" w r s] by (cases w) (auto split: if_splits)
next
  case (JStr a)
  then show ?case by (cases w) (auto dest: frame_append_inject split: if_splits)
next
  case JNull
  then show ?case by (cases w) (auto split: if_splits)
next
  case (JBool a)
  then show ?case by (cases w) (auto split: if_splits)
next
  case (JArr items)
  then obtain items' where w: "w = JArr items'" by (cases w) (auto split: if_splits)
  from JArr.prems w have "length items = length items' \<and>
      concat (map (enc X) items) @ r = concat (map (enc X) items') @ s"
    by (intro write_u64_append_inject) auto
  then have "items = items' \<and> r = s"
    using JArr w by (intro concat_map_append_inject[where f = "enc X"]) auto
  with w show ?case by simp
next
  case (JObj members)
  let ?f = "\<lambda>m. frame (fst m) @ enc X (snd m)"
  from JObj.prems obtain members' where w: "w = JObj members'" by (cases w) (auto split: if_splits)
  from JObj.prems w have "length members = length members' \<and>
      concat (map ?f members) @ r = concat (map ?f members') @ s"
    by (intro write_u64_append_inject) auto
  moreover have "m = m' \<and> r = s"
    if "m \<in> set members" "m' \<in> set members'" "?f m @ r = ?f m' @ s" for m m' r s
  proof -
    have "fst m = fst m' \<and> enc X (snd m) @ r = enc X (snd m') @ s"
      using that JObj.prems w by (intro frame_append_inject) auto
    moreover have "snd m \<in> Basic_BNFs.snds m" by (cases m) simp
    ultimately show ?thesis
      using JObj.IH[OF that(1), of "snd m" "snd m'" r s] JObj.prems w that(1,2)
      by (auto simp: prod_eq_iff)
  qed
  ultimately have "members = members' \<and> r = s"
    by (intro concat_map_append_inject[where f = ?f]) auto
  with w show ?case by simp
qed

lemma canonical_json_inject:
  assumes "number_text_injective X" "json_sorted v" "json_sorted w"
    "canonical_json X v = Inr b" "canonical_json X w = Inr b" "length b < u64_bound"
  shows "v = w"
proof -
  have b: "json_finite v" "json_finite w" "enc X v = b" "enc X w = b"
    using assms by (auto simp: canonical_json_def write_value_Ok)
  then have "json_small X v" "json_small X w" using assms(6) by (auto intro: json_smallI)
  with b show ?thesis using enc_append_inject[OF assms(1), of v w "[]" "[]"] by simp
qed

end
