(* ===== verification/Content_Hash.thy ===== *)
theory Content_Hash
  imports Hash
begin

text \<open>
  The content hash over all compile dependencies (\<^verbatim>\<open>content_hash\<close>, \<^verbatim>\<open>snapshot_hash\<close> of
  \<^verbatim>\<open>compile/hash.rs\<close>) and the preparation of a source entity (\<^verbatim>\<open>prepare_source\<close> of
  \<^verbatim>\<open>compile/config.rs\<close>, \<^verbatim>\<open>raw_to_facts\<close> of \<^verbatim>\<open>data/jsonl.rs\<close>). Properties: equal content hashes
  mean equal dependencies; the knowledge snapshot holds allowed fields only.
\<close>

section \<open>JSON images of the hashed records\<close>

text \<open>\<^verbatim>\<open>json!\<close> turns a float that is not finite into null. Object literals list their keys in order.\<close>

definition f32_json :: "flt \<Rightarrow> json" where
  "f32_json v = (if is_finite v then JFloat v else JNull)"

definition strings_json :: "string list \<Rightarrow> json" where
  "strings_json ss = JArr (map JStr ss)"

definition field_type_text :: "field_type \<Rightarrow> string" where
  "field_type_text t =
     (case t of FtNumeric \<Rightarrow> ''numeric'' | FtText \<Rightarrow> ''text'' | FtBoolean \<Rightarrow> ''boolean''
      | FtRefList \<Rightarrow> ''reflist'' | FtTimestamp \<Rightarrow> ''timestamp'')"

definition field_json :: "field_definition \<Rightarrow> json" where
  "field_json f =
     JObj [(''field_type'', JStr (field_type_text (fd_type f))),
           (''filterable'', JBool (fd_filterable f)),
           (''name'', JStr (fd_name f))]"

definition schema_to_value :: "entity_schema \<Rightarrow> json" where
  "schema_to_value s =
     JObj [(''entity_type'', JStr (es_type s)), (''fields'', JArr (map field_json (es_fields s)))]"

definition source_value :: "raw_entity \<Rightarrow> json" where
  "source_value r =
     JObj [(''entity_id'', JStr (to_key (raw_id r))), (''fields'', JObj (raw_fields r))]"

definition quality_policy_value :: "compile_context \<Rightarrow> compile_policy \<Rightarrow> json" where
  "quality_policy_value c p =
     JObj [(''knowledge_fields'', strings_json (cpl_knowledge p)),
           (''max_output_tokens'', JInt (int (cpl_max_output p))),
           (''min_coverage'', f32_json (cpl_min_coverage p)),
           (''min_density'', f32_json (cpl_min_density p)),
           (''quality_threshold'', f32_json (cx_threshold c)),
           (''require_source_refs'', JBool (cx_require_refs c)),
           (''required_headings'', strings_json (cpl_headings p)),
           (''sensitive_fields'', strings_json (cpl_sensitive p)),
           (''temperature'', f32_json (Fin 0))]"

definition consistency_identity :: "compile_policy \<Rightarrow> json" where
  "consistency_identity p =
     JObj [(''compare_pointers'', strings_json (csp_pointers (cpl_consistency p))),
           (''enabled'', JBool (csp_enabled (cpl_consistency p))),
           (''min_consistency'', f32_json (csp_min (cpl_consistency p)))]"

definition compatibility_value :: "ext \<Rightarrow> compile_policy \<Rightarrow> json" where
  "compatibility_value X p =
     (case cpl_compatibility p of None \<Rightarrow> JNull | Some spec \<Rightarrow> x_compat_json X spec)"

definition opt_text :: "string option \<Rightarrow> string" where
  "opt_text v = (case v of None \<Rightarrow> [] | Some s \<Rightarrow> s)"

section \<open>The content hash\<close>

definition hash_prefix :: string where
  "hash_prefix = ''wiktor.compile.hash.v1'' @ [CHR 0x00]"

definition hash_domains ::
  "ext \<Rightarrow> raw_entity \<Rightarrow> compile_context \<Rightarrow> compile_policy \<Rightarrow> entity_schema
   \<Rightarrow> (string \<times> string) list result" where
  "hash_domains X src c p schema =
     try_bind (canonical_json X (source_value src)) (\<lambda>source.
     try_bind (canonical_json X (quality_policy_value c p)) (\<lambda>quality.
     try_bind (canonical_json X (schema_to_value schema)) (\<lambda>knowledge.
     try_bind (canonical_json X (consistency_identity p)) (\<lambda>consistency.
     try_bind (canonical_json X (compatibility_value X p)) (\<lambda>compatibility.
     Inr [(''source'', source),
          (''domain_pack_version'', cx_pack_version c),
          (''prompt_template'', cx_prompt c),
          (''compiler_version'', cpl_compiler_version p),
          (''model_version'', cx_model c),
          (''embedding_model'', cx_embedding c),
          (''artifact_version'', cpl_artifact_version p),
          (''scorer_version'', cpl_scorer_version p),
          (''quality_policy'', quality),
          (''knowledge_schema'', knowledge),
          (''schema_version'', opt_text (cx_schema_version c)),
          (''prompt_version'', opt_text (cx_prompt_version c)),
          (''consistency_policy'', consistency),
          (''compatibility'', compatibility)])))))"

definition hash_frame :: "(string \<times> string) list \<Rightarrow> string" where
  "hash_frame ds = hash_prefix @ concat (map (\<lambda>d. frame (fst d) @ frame (snd d)) ds)"

definition content_hash ::
  "ext \<Rightarrow> raw_entity \<Rightarrow> compile_context \<Rightarrow> compile_policy \<Rightarrow> entity_schema \<Rightarrow> string result" where
  "content_hash X src c p schema =
     try_bind (hash_domains X src c p schema) (\<lambda>ds. Inr (x_blake3 X (hash_frame ds)))"

text \<open>\<^verbatim>\<open>snapshot_hash\<close>: the full entity, its revision included.\<close>

definition raw_value :: "raw_entity \<Rightarrow> json" where
  "raw_value r =
     JObj [(''fields'', JObj (raw_fields r)),
           (''id'', JObj [(''domain'', JStr (eid_domain (raw_id r))),
                          (''entity_type'', JStr (eid_type (raw_id r))),
                          (''id'', JStr (eid_local (raw_id r)))]),
           (''source_revision'', JInt (int (raw_revision r)))]"

definition snapshot_hash :: "ext \<Rightarrow> raw_entity \<Rightarrow> string result" where
  "snapshot_hash X r =
     try_bind (canonical_json X (raw_value r)) (\<lambda>b. Inr (x_blake3 X b))"

section \<open>Equal hashes, equal dependencies\<close>

text \<open>
  What the code can feed the hash: members of JSON objects in key order (\<^verbatim>\<open>BTreeMap\<close>), and no
  domain of 2^64 bytes or more.
\<close>

definition hash_input_ok ::
  "ext \<Rightarrow> raw_entity \<Rightarrow> compile_context \<Rightarrow> compile_policy \<Rightarrow> entity_schema \<Rightarrow> bool" where
  "hash_input_ok X src c p schema =
     (json_sorted (JObj (raw_fields src)) \<and> json_sorted (compatibility_value X p) \<and>
      (case hash_domains X src c p schema of
         Inl e \<Rightarrow> True | Inr ds \<Rightarrow> list_all (\<lambda>d. length (snd d) < u64_bound) ds))"

lemma sorted_strings_json [simp]: "json_sorted (strings_json ss)"
  by (simp add: strings_json_def)

lemma sorted_f32_json [simp]: "json_sorted (f32_json v)"
  by (simp add: f32_json_def)

lemma key_order:
  "sorted_wrt (<) [''field_type'', ''filterable'', ''name'']"
  "sorted_wrt (<) [''entity_type'', ''fields'']"
  "sorted_wrt (<) [''entity_id'', ''fields'']"
  "sorted_wrt (<) [''fields'', ''id'', ''source_revision'']"
  "sorted_wrt (<) [''domain'', ''entity_type'', ''id'']"
  "sorted_wrt (<) [''compare_pointers'', ''enabled'', ''min_consistency'']"
  "sorted_wrt (<) [''knowledge_fields'', ''max_output_tokens'', ''min_coverage'', ''min_density'',
     ''quality_threshold'', ''require_source_refs'', ''required_headings'', ''sensitive_fields'',
     ''temperature'']"
  by code_simp+

lemma sorted_values:
  "json_sorted (schema_to_value schema)"
  "json_sorted (quality_policy_value c p)"
  "json_sorted (consistency_identity p)"
  "json_sorted (JObj (raw_fields r)) \<Longrightarrow> json_sorted (source_value r)"
  "json_sorted (JObj (raw_fields r)) \<Longrightarrow> json_sorted (raw_value r)"
  using key_order
  by (simp_all add: schema_to_value_def field_json_def quality_policy_value_def
      consistency_identity_def source_value_def raw_value_def)

lemma hash_frame_inject:
  assumes "length ds = length es"
    and "\<forall>d\<in>set ds. length (fst d) < u64_bound \<and> length (snd d) < u64_bound"
    and "\<forall>d\<in>set es. length (fst d) < u64_bound \<and> length (snd d) < u64_bound"
    and "hash_frame ds = hash_frame es"
  shows "ds = es"
proof -
  let ?f = "\<lambda>d. frame (fst d) @ frame (snd d)"
  have "concat (map ?f ds) @ [] = concat (map ?f es) @ []"
    using assms(4) by (simp add: hash_frame_def)
  moreover have "x = y \<and> r = s"
    if "x \<in> set ds" "y \<in> set es" "?f x @ r = ?f y @ s" for x y r s
  proof -
    have "fst x = fst y \<and> frame (snd x) @ r = frame (snd y) @ s"
      using that assms(2,3) by (intro frame_append_inject) auto
    then show ?thesis
      using frame_append_inject[of "snd x" "snd y" r s] that(1,2) assms(2,3)
      by (auto simp: prod_eq_iff)
  qed
  ultimately have "ds = es \<and> [] = ([] :: string)"
    using assms(1) by (intro concat_map_append_inject[where f = ?f]) auto
  then show ?thesis by simp
qed

lemma strings_json_inject [simp]: "strings_json a = strings_json b \<longleftrightarrow> a = b"
  by (auto simp: strings_json_def inj_map_eq_map inj_def)

lemma field_type_text_inject: "field_type_text a = field_type_text b \<longleftrightarrow> a = b"
  by (cases a; cases b) (simp_all add: field_type_text_def)

lemma field_json_inject: "field_json a = field_json b \<longleftrightarrow> a = b"
  by (cases a; cases b) (auto simp: field_json_def field_type_text_inject)

lemma schema_to_value_inject [simp]: "schema_to_value a = schema_to_value b \<longleftrightarrow> a = b"
  by (cases a; cases b)
    (auto simp: schema_to_value_def inj_map_eq_map inj_def field_json_inject)

text \<open>Two numbers with the same JSON image: the same number, or none that JSON can name.\<close>

definition same_number :: "flt \<Rightarrow> flt \<Rightarrow> bool" where
  "same_number a b \<longleftrightarrow> a = b \<or> \<not> is_finite a \<and> \<not> is_finite b"

lemma f32_json_inject: "f32_json a = f32_json b \<Longrightarrow> same_number a b"
  by (auto simp: f32_json_def same_number_def split: if_splits)

lemma quality_policy_inject:
  assumes "quality_policy_value c p = quality_policy_value c' p'"
  shows "cpl_knowledge p = cpl_knowledge p' \<and> cpl_sensitive p = cpl_sensitive p' \<and> cpl_headings p = cpl_headings p'
    \<and> cpl_max_output p = cpl_max_output p' \<and> cx_require_refs c = cx_require_refs c'
    \<and> same_number (cx_threshold c) (cx_threshold c') \<and> same_number (cpl_min_coverage p) (cpl_min_coverage p')
    \<and> same_number (cpl_min_density p) (cpl_min_density p')"
  using assms by (simp add: quality_policy_value_def f32_json_inject)

lemma consistency_identity_inject:
  assumes "consistency_identity p = consistency_identity p'"
  shows "csp_enabled (cpl_consistency p) = csp_enabled (cpl_consistency p')
    \<and> csp_pointers (cpl_consistency p) = csp_pointers (cpl_consistency p')
    \<and> same_number (csp_min (cpl_consistency p)) (csp_min (cpl_consistency p'))"
  using assms by (simp add: consistency_identity_def f32_json_inject)

lemma hash_domains_lengths:
  assumes "hash_domains X src c p schema = Inr ds" "hash_input_ok X src c p schema"
  shows "\<forall>d\<in>set ds. length (fst d) < u64_bound \<and> length (snd d) < u64_bound"
proof -
  have "list_all (\<lambda>d. length (snd d) < u64_bound) ds"
    using assms by (simp add: hash_input_ok_def)
  moreover have "\<forall>d\<in>set ds. length (fst d) < u64_bound"
    using assms(1) by (auto simp: hash_domains_def u64_bound_def)
  ultimately show ?thesis by (auto simp: list_all_iff)
qed

lemma content_hash_domains:
  assumes "collision_free X"
    and "content_hash X src c p schema = Inr h" "content_hash X src' c' p' schema' = Inr h"
    and "hash_input_ok X src c p schema" "hash_input_ok X src' c' p' schema'"
  obtains ds where "hash_domains X src c p schema = Inr ds"
    "hash_domains X src' c' p' schema' = Inr ds"
    "\<forall>d\<in>set ds. length (snd d) < u64_bound"
proof -
  obtain ds es where ds: "hash_domains X src c p schema = Inr ds"
    and es: "hash_domains X src' c' p' schema' = Inr es"
    and eq: "x_blake3 X (hash_frame ds) = x_blake3 X (hash_frame es)"
    using assms(2,3) by (auto simp: content_hash_def)
  have "hash_frame ds = hash_frame es"
    using eq assms(1) by (simp add: collision_free_def inj_eq)
  moreover have "length ds = length es" using ds es by (auto simp: hash_domains_def)
  ultimately have "ds = es"
    using hash_domains_lengths[OF ds assms(4)] hash_domains_lengths[OF es assms(5)]
    by (intro hash_frame_inject) auto
  then show ?thesis using that ds es hash_domains_lengths[OF ds assms(4)] by simp
qed

text \<open>
  C32. The incremental skip is sound: when two compile inputs have the same content hash, they have the same
  entity key and knowledge fields, domain pack, prompt, compiler, model, embedding, artifact and scorer versions,
  schema, lists of the quality policy, token limit and reference requirement, and the same switch and pointers of
  the arbitration policy. Their schema and prompt identities agree up to a missing one, which is hashed like an
  empty text; their thresholds agree up to numbers that are not finite, which are all hashed as null; their
  compatibility declarations have the same JSON image. BLAKE3 is taken as collision free and number texts as
  unambiguous, the members of JSON objects as ordered by key, and every hashed part as shorter than 2^64 bytes.
\<close>

theorem content_hash_sound:
  assumes "collision_free X" "number_text_injective X"
    and "content_hash X src c p schema = Inr h" "content_hash X src' c' p' schema' = Inr h"
    and "hash_input_ok X src c p schema" "hash_input_ok X src' c' p' schema'"
  shows "to_key (raw_id src) = to_key (raw_id src') \<and> raw_fields src = raw_fields src' \<and>
    cx_pack_version c = cx_pack_version c' \<and> cx_prompt c = cx_prompt c' \<and>
    cpl_compiler_version p = cpl_compiler_version p' \<and> cx_model c = cx_model c' \<and>
    cx_embedding c = cx_embedding c' \<and> cpl_artifact_version p = cpl_artifact_version p' \<and>
    cpl_scorer_version p = cpl_scorer_version p' \<and> schema = schema' \<and>
    cpl_knowledge p = cpl_knowledge p' \<and> cpl_sensitive p = cpl_sensitive p' \<and>
    cpl_headings p = cpl_headings p' \<and> cpl_max_output p = cpl_max_output p' \<and>
    cx_require_refs c = cx_require_refs c' \<and> same_number (cx_threshold c) (cx_threshold c') \<and>
    same_number (cpl_min_coverage p) (cpl_min_coverage p') \<and> same_number (cpl_min_density p) (cpl_min_density p') \<and>
    opt_text (cx_schema_version c) = opt_text (cx_schema_version c') \<and>
    opt_text (cx_prompt_version c) = opt_text (cx_prompt_version c') \<and>
    csp_enabled (cpl_consistency p) = csp_enabled (cpl_consistency p') \<and>
    csp_pointers (cpl_consistency p) = csp_pointers (cpl_consistency p') \<and>
    same_number (csp_min (cpl_consistency p)) (csp_min (cpl_consistency p')) \<and>
    compatibility_value X p = compatibility_value X p'"
proof -
  obtain ds where ds: "hash_domains X src c p schema = Inr ds"
    "hash_domains X src' c' p' schema' = Inr ds" "\<forall>d\<in>set ds. length (snd d) < u64_bound"
    using content_hash_domains[OF assms(1,3-6)] by blast
  from ds(1) obtain b1 b2 b3 b4 b5 where
    b: "canonical_json X (source_value src) = Inr b1"
      "canonical_json X (quality_policy_value c p) = Inr b2"
      "canonical_json X (schema_to_value schema) = Inr b3"
      "canonical_json X (consistency_identity p) = Inr b4"
      "canonical_json X (compatibility_value X p) = Inr b5"
    by (auto simp: hash_domains_def)
  with ds(1,2) have b': "canonical_json X (source_value src') = Inr b1"
      "canonical_json X (quality_policy_value c' p') = Inr b2"
      "canonical_json X (schema_to_value schema') = Inr b3"
      "canonical_json X (consistency_identity p') = Inr b4"
      "canonical_json X (compatibility_value X p') = Inr b5"
    by (auto simp: hash_domains_def)
  have len: "length b1 < u64_bound" "length b2 < u64_bound" "length b3 < u64_bound"
    "length b4 < u64_bound" "length b5 < u64_bound"
    using ds(1,3) b by (auto simp: hash_domains_def)
  note inject = canonical_json_inject[OF assms(2)]
  have srt: "json_sorted (source_value src)" "json_sorted (source_value src')"
    "json_sorted (compatibility_value X p)" "json_sorted (compatibility_value X p')"
    using assms(5,6) by (auto simp: hash_input_ok_def intro!: sorted_values)
  have v: "source_value src = source_value src'"
    "quality_policy_value c p = quality_policy_value c' p'"
    "schema_to_value schema = schema_to_value schema'"
    "consistency_identity p = consistency_identity p'"
    "compatibility_value X p = compatibility_value X p'"
    using inject[OF srt(1,2) b(1) b'(1) len(1)] inject[OF sorted_values(2,2) b(2) b'(2) len(2)]
      inject[OF sorted_values(1,1) b(3) b'(3) len(3)]
      inject[OF sorted_values(3,3) b(4) b'(4) len(4)] inject[OF srt(3,4) b(5) b'(5) len(5)]
    by simp_all
  from ds(1,2) have "cx_pack_version c = cx_pack_version c'" "cx_prompt c = cx_prompt c'"
    "cpl_compiler_version p = cpl_compiler_version p'" "cx_model c = cx_model c'"
    "cx_embedding c = cx_embedding c'" "cpl_artifact_version p = cpl_artifact_version p'"
    "cpl_scorer_version p = cpl_scorer_version p'"
    "opt_text (cx_schema_version c) = opt_text (cx_schema_version c')"
    "opt_text (cx_prompt_version c) = opt_text (cx_prompt_version c')"
    by (auto simp: hash_domains_def)
  with v show ?thesis
    using quality_policy_inject[OF v(2)] consistency_identity_inject[OF v(4)] by (simp add: source_value_def)
qed

lemma canonical_json_Ok:
  "json_sorted v \<Longrightarrow> json_finite v \<Longrightarrow> canonical_json X v = Inr (enc X v)"
  by (simp add: canonical_json_def write_value_Ok)

lemma quotient_of_half: "quotient_of (1 / 2) = (1, 2)"
  by code_simp

lemma demo_hash_raw:
  assumes "raw_id raw = demo_entity" "raw_fields raw = raw_fields demo_raw \<or> raw_fields raw = raw_fields demo_knowledge"
  shows "hash_input_ok sample_ext raw demo_context demo_policy demo_schema"
    "\<exists>h. content_hash sample_ext raw demo_context demo_policy demo_schema = Inr h"
proof -
  let ?raw = raw
  have srt: "json_sorted (JObj (raw_fields ?raw))"
    using assms(2) by (auto simp: demo_defs less_list_code)
  have src: "json_finite (source_value ?raw)" "length (enc sample_ext (source_value ?raw)) < u64_bound"
    using assms by (auto simp: source_value_def demo_defs is_finite_def to_key_def frame_def sample_num_text_def
        int_text_def u64_bound_def)
  have fin: "json_finite (source_value ?raw)" "json_finite (quality_policy_value demo_context demo_policy)"
    "json_finite (schema_to_value demo_schema)" "json_finite (consistency_identity demo_policy)"
    by (simp_all add: src(1) quality_policy_value_def schema_to_value_def
        consistency_identity_def strings_json_def f32_json_def field_json_def demo_defs
        is_finite_def)
  have ds: "hash_domains sample_ext ?raw demo_context demo_policy demo_schema =
      Inr [(''source'', enc sample_ext (source_value ?raw)),
          (''domain_pack_version'', ''0.1.0''), (''prompt_template'', ''prompt''),
          (''compiler_version'', ''compile-v1''), (''model_version'', ''mock-v1''),
          (''embedding_model'', ''none''), (''artifact_version'', ''wiki-v1''),
          (''scorer_version'', ''rules-v1''),
          (''quality_policy'', enc sample_ext (quality_policy_value demo_context demo_policy)),
          (''knowledge_schema'', enc sample_ext (schema_to_value demo_schema)),
          (''schema_version'', []), (''prompt_version'', []),
          (''consistency_policy'', enc sample_ext (consistency_identity demo_policy)),
          (''compatibility'', enc sample_ext JNull)]"
    using canonical_json_Ok[OF sorted_values(4)[OF srt] fin(1)]
      canonical_json_Ok[OF sorted_values(2) fin(2)] canonical_json_Ok[OF sorted_values(1) fin(3)]
      canonical_json_Ok[OF sorted_values(3) fin(4)] canonical_json_Ok[of JNull]
    by (simp add: hash_domains_def compatibility_value_def opt_text_def demo_defs)
  have len: "length (enc sample_ext (quality_policy_value demo_context demo_policy)) < u64_bound"
    "length (enc sample_ext (schema_to_value demo_schema)) < u64_bound"
    "length (enc sample_ext (consistency_identity demo_policy)) < u64_bound"
    by (simp_all add: quality_policy_value_def schema_to_value_def
        consistency_identity_def strings_json_def f32_json_def field_json_def demo_defs
        is_finite_def frame_def to_key_def sample_num_text_def int_text_def u64_bound_def
        overview_heading_def field_type_text_def quotient_of_half)
  show "hash_input_ok sample_ext ?raw demo_context demo_policy demo_schema"
    using srt ds len src(2)
    by (simp add: hash_input_ok_def compatibility_value_def demo_defs u64_bound_def)
  show "\<exists>h. content_hash sample_ext ?raw demo_context demo_policy demo_schema = Inr h"
    using ds by (simp add: content_hash_def)
qed

lemma demo_hash_input_ok:
  "hash_input_ok sample_ext (demo_raw\<lparr>raw_revision := r\<rparr>) demo_context demo_policy demo_schema"
  "\<exists>h. content_hash sample_ext (demo_raw\<lparr>raw_revision := r\<rparr>) demo_context demo_policy demo_schema = Inr h"
  by (rule demo_hash_raw; simp add: demo_raw_def)+

theorem content_hash_sound_witness:
  "\<exists>h. content_hash sample_ext demo_raw demo_context demo_policy demo_schema = Inr h \<and>
     content_hash sample_ext (demo_raw\<lparr>raw_revision := 2\<rparr>) demo_context demo_policy demo_schema = Inr h \<and>
     raw_fields demo_raw = raw_fields (demo_raw\<lparr>raw_revision := 2\<rparr>)"
proof -
  have raw1: "demo_raw\<lparr>raw_revision := 1\<rparr> = demo_raw" by (simp add: demo_raw_def)
  note ok = demo_hash_input_ok[of 1, unfolded raw1]
  from ok(2) obtain h where
    h: "content_hash sample_ext demo_raw demo_context demo_policy demo_schema = Inr h" ..
  then have h2: "content_hash sample_ext (demo_raw\<lparr>raw_revision := 2\<rparr>) demo_context demo_policy
      demo_schema = Inr h"
    by (simp add: content_hash_def hash_domains_def source_value_def)
  show ?thesis
    using content_hash_sound[OF collision_free_sample number_text_injective_sample h h2 ok(1)
        demo_hash_input_ok(1)] h h2 by blast
qed

text \<open>
  Scheduling data is not identity: the source revision, the retry and token limits, the
  lease times and the arbiter's top-k never change the content hash.
\<close>

theorem content_hash_ignores_scheduling:
  "content_hash X (src\<lparr>raw_revision := r\<rparr>) c
     (p\<lparr>cpl_max_recompiles := a1, cpl_max_retries := a2, cpl_task_budget := a3,
        cpl_batch_budget := a4, cpl_daily_budget := a5, cpl_lease_seconds := a6,
        cpl_heartbeat_seconds := a7, cpl_reaper_interval := a8, cpl_preflight := a9,
        cpl_consistency := (cpl_consistency p)\<lparr>csp_top_k := k\<rparr>\<rparr>) schema
   = content_hash X src c p schema"
  by (simp add: content_hash_def hash_domains_def source_value_def quality_policy_value_def
      consistency_identity_def compatibility_value_def)

section \<open>Preparing a source entity\<close>

definition json_value_to_fact :: "json \<Rightarrow> field_definition \<Rightarrow> fact_value result" where
  "json_value_to_fact v fd =
     (case fd_type fd of
        FtNumeric \<Rightarrow> (case as_f64 v of Some x \<Rightarrow> Inr (Numeric x) | None \<Rightarrow> Inl Validation)
      | FtText \<Rightarrow> (case as_str v of Some s \<Rightarrow> Inr (Text s) | None \<Rightarrow> Inl Validation)
      | FtBoolean \<Rightarrow> (case as_bool v of Some b \<Rightarrow> Inr (Boolean b) | None \<Rightarrow> Inl Validation)
      | FtRefList \<Rightarrow>
          (case as_array v of
             None \<Rightarrow> Inl Validation
           | Some items \<Rightarrow>
               try_bind (collect_results (map (\<lambda>i. ok_or Validation (as_str i)) items))
                 (\<lambda>refs. Inr (RefList refs)))
      | FtTimestamp \<Rightarrow> (case as_i64 v of Some t \<Rightarrow> Inr (Timestamp t) | None \<Rightarrow> Inl Validation))"

fun facts_loop ::
  "(string \<times> json) list \<Rightarrow> field_definition list \<Rightarrow> (string \<times> fact_value) list
   \<Rightarrow> (string \<times> fact_value) list result" where
  "facts_loop raw [] acc = Inr acc"
| "facts_loop raw (fd # fds) acc =
     (case map_of raw (fd_name fd) of
        None \<Rightarrow> Inl Validation
      | Some v \<Rightarrow>
          try_bind (json_value_to_fact v fd) (\<lambda>fv. facts_loop raw fds (bt_insert (fd_name fd) fv acc)))"

definition raw_to_facts :: "raw_entity \<Rightarrow> entity_schema \<Rightarrow> facts result" where
  "raw_to_facts raw schema =
     try_bind (facts_loop (raw_fields raw) (es_fields schema) [])
       (\<lambda>fields. Inr \<lparr>fs_entity = raw_id raw, fs_fields = fields, fs_revision = raw_revision raw\<rparr>)"

record prepared_source =
  ps_full :: raw_entity
  ps_knowledge :: raw_entity
  ps_facts :: facts
  ps_snapshot :: string

fun knowledge_loop ::
  "(string \<times> json) list \<Rightarrow> string list \<Rightarrow> (string \<times> json) list \<Rightarrow> (string \<times> json) list" where
  "knowledge_loop raw [] acc = acc"
| "knowledge_loop raw (n # ns) acc =
     knowledge_loop raw ns (case map_of raw n of Some v \<Rightarrow> bt_insert n v acc | None \<Rightarrow> acc)"

definition prepare_source ::
  "ext \<Rightarrow> raw_entity \<Rightarrow> entity_schema \<Rightarrow> compile_policy \<Rightarrow> prepared_source result" where
  "prepare_source X raw schema p =
     try_bind (policy_validate p) (\<lambda>_.
     if raw_revision raw = 0 \<or> int (raw_revision raw) > i64_max then Inl Validation
     else try_bind (resolve_knowledge_fields p schema) (\<lambda>allowed.
          try_bind (raw_to_facts raw schema) (\<lambda>facts.
          try_bind (snapshot_hash X raw) (\<lambda>h.
          Inr \<lparr>ps_full = raw,
               ps_knowledge = \<lparr>raw_id = raw_id raw,
                               raw_fields = knowledge_loop (raw_fields raw) allowed [],
                               raw_revision = raw_revision raw\<rparr>,
               ps_facts = facts, ps_snapshot = h\<rparr>))))"

lemma knowledge_loop_lookup:
  "map_of (knowledge_loop raw ns acc) k =
     (if k \<in> set ns \<and> map_of raw k \<noteq> None then map_of raw k else map_of acc k)"
  by (induction raw ns acc rule: knowledge_loop.induct)
    (auto simp: map_of_bt_insert split: option.splits)

lemma knowledge_loop_wf: "bt_wf acc \<Longrightarrow> bt_wf (knowledge_loop raw ns acc)"
  by (induction raw ns acc rule: knowledge_loop.induct)
    (auto simp: bt_wf_insert split: option.splits)

lemma facts_loop_keys:
  "facts_loop raw fds acc = Inr m \<Longrightarrow> fst ` set m = fst ` set acc \<union> fd_name ` set fds"
proof (induction raw fds acc rule: facts_loop.induct)
  case (1 raw acc)
  then show ?case by simp
next
  case (2 raw fd fds acc)
  then obtain v fv where "map_of raw (fd_name fd) = Some v"
    "facts_loop raw fds (bt_insert (fd_name fd) fv acc) = Inr m"
    by (auto split: option.splits)
  with "2.IH"[of v fv] show ?case by (simp add: keys_bt_insert)
qed

text \<open>
  The knowledge snapshot a model sees holds only fields the allowlist admits: declared,
  non-filterable, text or list, not sensitive, with the entity's own values; the fact plane
  gets exactly the schema's fields; identity and revision are the entity's.
\<close>

theorem prepare_source_safe:
  assumes "prepare_source X raw schema p = Inr ps"
  shows "(\<forall>n v. map_of (raw_fields (ps_knowledge ps)) n = Some v \<longrightarrow>
            n \<notin> set (cpl_sensitive p) \<and> knowledge_name schema n \<and> map_of (raw_fields raw) n = Some v)
    \<and> bt_wf (raw_fields (ps_knowledge ps))
    \<and> raw_id (ps_knowledge ps) = raw_id raw \<and> fs_entity (ps_facts ps) = raw_id raw
    \<and> fst ` set (fs_fields (ps_facts ps)) = fd_name ` set (es_fields schema)
    \<and> ps_full ps = raw \<and> 1 \<le> raw_revision raw \<and> int (raw_revision raw) \<le> i64_max"
proof -
  from assms obtain allowed facts where
    a: "resolve_knowledge_fields p schema = Inr allowed" and f: "raw_to_facts raw schema = Inr facts"
    and ps: "raw_fields (ps_knowledge ps) = knowledge_loop (raw_fields raw) allowed []"
      "raw_id (ps_knowledge ps) = raw_id raw" "ps_facts ps = facts" "ps_full ps = raw"
    and r: "raw_revision raw \<noteq> 0" "int (raw_revision raw) \<le> i64_max"
    by (auto simp: prepare_source_def split: if_splits)
  from f obtain m where m: "facts_loop (raw_fields raw) (es_fields schema) [] = Inr m"
    "facts = \<lparr>fs_entity = raw_id raw, fs_fields = m, fs_revision = raw_revision raw\<rparr>"
    by (auto simp: raw_to_facts_def)
  then have "fst ` set (fs_fields facts) = fd_name ` set (es_fields schema)" "fs_entity facts = raw_id raw"
    using facts_loop_keys[OF m(1)] by simp_all
  moreover have "bt_wf (knowledge_loop (raw_fields raw) allowed [])"
    by (rule knowledge_loop_wf) (simp add: bt_wf_def)
  ultimately show ?thesis
    using ps r resolve_knowledge_fields_sound[OF a]
    by (auto simp: knowledge_loop_lookup split: if_splits)
qed

theorem prepare_source_safe_witness:
  "\<exists>ps. prepare_source sample_ext demo_raw demo_schema demo_policy = Inr ps \<and> ps_full ps = demo_raw \<and>
     fst ` set (fs_fields (ps_facts ps)) = {''name'', ''price''}"
proof -
  have "json_sorted (raw_value demo_raw)" "json_finite (raw_value demo_raw)"
    by (simp_all add: raw_value_def demo_defs less_list_code)
  then have "snapshot_hash sample_ext demo_raw = Inr (enc sample_ext (raw_value demo_raw))"
    by (simp add: snapshot_hash_def canonical_json_Ok)
  moreover have "policy_validate demo_policy = Inr ()"
    by (simp add: policy_validate_def check_unique_non_empty_def consistency_validate_def demo_defs
        in_unit_def overview_heading_def trim_def is_space_def)
  moreover have "\<exists>f. raw_to_facts demo_raw demo_schema = Inr f"
    by (simp add: raw_to_facts_def json_value_to_fact_def as_f64_def as_str_def demo_defs)
  moreover have "raw_revision demo_raw = 1" by (simp add: demo_raw_def)
  moreover have "resolve_knowledge_fields demo_policy demo_schema = Inr [''name'']"
    by (simp add: resolve_knowledge_fields_def demo_defs)
  ultimately obtain ps where ps: "prepare_source sample_ext demo_raw demo_schema demo_policy = Inr ps"
    by (auto simp: prepare_source_def i64_max_def)
  show ?thesis using prepare_source_safe[OF ps] ps by (auto simp: demo_schema_def)
qed

end
