(* ===== verification/Db.thy ===== *)
theory Db
  imports Content_Hash
begin

text \<open>
  The tables the compile kernel writes (\<^verbatim>\<open>kernel/compile_store.rs\<close> over the migrations), as one
  record of row lists, the primary keys and \<^verbatim>\<open>UNIQUE\<close> constraints that must hold of them, and the
  small helpers of the kernel: revision range, backoff, budget arithmetic, review insertion.
  A status column is the datatype of the values its \<^verbatim>\<open>CHECK\<close> admits.
\<close>

section \<open>Rows\<close>

datatype task_status = Pending | Running | Succeeded | FailedStatus | Dead
datatype task_result = RAccepted | RQuarantined | RFailed | RSkipped | RSuperseded
datatype attempt_status = Reserved | Completed | Abandoned

record task_row =
  t_id :: int
  t_entity :: string
  t_revision :: int
  t_pack :: string
  t_status :: task_status
  t_retries :: int
  t_max_retries :: int
  t_expires :: "int option"
  t_error :: "string option"
  t_created :: int
  t_updated :: int
  t_desired :: string
  t_epoch :: int
  t_source :: string
  t_deps :: string
  t_snapshot :: string
  t_recompiles :: int
  t_attempts :: int
  t_token :: "string option"
  t_next_at :: int
  t_result :: "task_result option"
  t_reserved :: int
  t_budget :: int

record head_row =
  h_entity :: string
  h_revision :: int
  h_snapshot :: string
  h_desired :: string
  h_task :: int
  h_epoch :: int
  h_updated :: int

record attempt_row =
  a_task :: int
  a_epoch :: int
  a_no :: int
  a_token :: string
  a_status :: attempt_status
  a_publish :: "publish_status option"
  a_run :: "string option"
  a_day :: "int option"
  a_artifact :: "string option"
  a_quality :: "string option"
  a_issues :: string
  a_reserved :: int
  a_error :: "string option"
  a_created :: int
  a_finished :: "int option"
  a_consistency :: string

record run_row =
  r_id :: string
  r_limit :: int
  r_reserved :: int
  r_created :: int

record day_row =
  d_day :: int
  d_limit :: int
  d_reserved :: int

record page_row =
  pg_id :: string
  pg_entity :: string
  pg_domain :: string
  pg_type :: string
  pg_title :: string
  pg_content :: string
  pg_hash :: string
  pg_generation :: int
  pg_status :: publish_status
  pg_pack :: string
  pg_compiled :: int
  pg_model :: string
  pg_embedding :: string
  pg_revision :: int
  pg_artifact :: string
  pg_frontmatter :: string
  pg_created :: int
  pg_updated :: int

record section_row =
  se_id :: string
  se_page :: string
  se_heading :: string
  se_content :: string
  se_index :: nat

record quality_row =
  pq_page :: string
  pq_coverage :: flt
  pq_citation :: flt
  pq_schema :: flt
  pq_density :: flt
  pq_consistency :: "flt option"
  pq_overall :: flt

record edge_row =
  e_page :: string
  e_hash :: string
  e_json :: string
  e_generation :: int
  e_content_hash :: string
  e_build :: "int option"

record generation_row =
  g_generation :: int
  g_pack :: string
  g_version :: string
  g_published :: bool
  g_created :: int

record fact_row =
  fa_entity :: string
  fa_field :: string
  fa_type :: string
  fa_numeric :: "flt option"
  fa_text :: "string option"
  fa_boolean :: "int option"
  fa_timestamp :: "int option"
  fa_revision :: int
  fa_updated :: int

type_synonym ref_row = "string \<times> string \<times> string"

datatype review_action =
    SupplementalCompile | QueryTemplate | IgnoreAction
  | CompileDeadLetter | ConsistencyConflict | CompatibilityConflict

datatype review_status = ReviewPending | ReviewApproved | ReviewIgnored | ReviewFailed

record review_row =
  rv_id :: int
  rv_domain :: string
  rv_action :: review_action
  rv_status :: review_status
  rv_subject :: string
  rv_reason :: string
  rv_created :: int
  rv_task :: "int option"
  rv_logs :: string
  rv_reviewed :: "int option"
  rv_reviewer :: "string option"

record db =
  db_tasks :: "task_row list"
  db_task_seq :: int
  db_heads :: "head_row list"
  db_attempts :: "attempt_row list"
  db_runs :: "run_row list"
  db_days :: "day_row list"
  db_pages :: "page_row list"
  db_sections :: "section_row list"
  db_quality :: "quality_row list"
  db_edges :: "edge_row list"
  db_generations :: "generation_row list"
  db_gen_seq :: int
  db_facts :: "fact_row list"
  db_refs :: "ref_row list"
  db_reviews :: "review_row list"
  db_review_seq :: int

definition empty_db :: db where
  "empty_db =
     \<lparr>db_tasks = [], db_task_seq = 0, db_heads = [], db_attempts = [], db_runs = [], db_days = [],
      db_pages = [], db_sections = [], db_quality = [], db_edges = [], db_generations = [],
      db_gen_seq = 0, db_facts = [], db_refs = [], db_reviews = [], db_review_seq = 0\<rparr>"

text \<open>The unique columns of a task, of an attempt, of a review and of a fact.\<close>

definition task_key :: "task_row \<Rightarrow> string \<times> int \<times> string" where
  "task_key t = (t_entity t, t_revision t, t_pack t)"

definition attempt_key :: "attempt_row \<Rightarrow> int \<times> int \<times> int" where
  "attempt_key a = (a_task a, a_epoch a, a_no a)"

definition review_key :: "review_row \<Rightarrow> string \<times> review_action \<times> string" where
  "review_key r = (rv_domain r, rv_action r, rv_subject r)"

definition fact_key :: "fact_row \<Rightarrow> string \<times> string" where
  "fact_key f = (fa_entity f, fa_field f)"

lemma key_simps [simp]:
  "task_key (t\<lparr>t_status := st\<rparr>) = task_key t"
  "attempt_key (a\<lparr>a_status := ast\<rparr>) = attempt_key a"
  by (simp_all add: task_key_def attempt_key_def)

section \<open>Helpers of the kernel\<close>

definition revision_to_i64 :: "nat \<Rightarrow> int result" where
  "revision_to_i64 v =
     (if v = 0 \<or> int v > i64_max then Inl Validation else Inr (int v))"

definition backoff_seconds :: "int \<Rightarrow> int" where
  "backoff_seconds retry =
     (if retry \<le> 1 then 1 else min (2 ^ nat (min (retry - 1) 6)) 60)"

text \<open>\<^verbatim>\<open>v as i64\<close> on an unsigned 64-bit value: two's complement.\<close>

definition as_i64_cast :: "nat \<Rightarrow> int" where
  "as_i64_cast n = (let m = int n mod 2 ^ 64 in if m > i64_max then m - 2 ^ 64 else m)"

definition estimate_budget_units :: "string \<Rightarrow> string \<Rightarrow> nat \<Rightarrow> int result" where
  "estimate_budget_units system input max_out =
     try_bind
       (ok_or Internal
         (case checked_add (as_i64_cast (length system)) (as_i64_cast (length input)) of
            None \<Rightarrow> None
          | Some v \<Rightarrow> (case checked_add v 256 of
                         None \<Rightarrow> None | Some w \<Rightarrow> checked_add w (int max_out))))
       (\<lambda>total. if total \<le> 0 then Inl Internal else Inr total)"

definition fits :: "int \<Rightarrow> int \<Rightarrow> int \<Rightarrow> bool result" where
  "fits reserved b limit =
     (if reserved < 0 \<or> limit < 0 then Inl Internal
      else try_bind (ok_or Internal (checked_add reserved b)) (\<lambda>total. Inr (total \<le> limit)))"

lemma backoff_bounds: "1 \<le> backoff_seconds r" "backoff_seconds r \<le> 60"
  by (auto simp: backoff_seconds_def)

lemma backoff_mono: "a \<le> b \<Longrightarrow> backoff_seconds a \<le> backoff_seconds b"
proof -
  assume ab: "a \<le> b"
  have "(2::int) ^ nat (min (a - 1) 6) \<le> 2 ^ nat (min (b - 1) 6)"
    using ab by (intro power_increasing) auto
  then have "min (2 ^ nat (min (a - 1) 6)) 60 \<le> min (2 ^ nat (min (b - 1) 6)) (60 :: int)"
    by (rule min.mono) simp
  then show ?thesis
    using ab backoff_bounds(1)[of b] unfolding backoff_seconds_def by (cases "a \<le> 1") auto
qed

lemma fits_Ok:
  "fits reserved b limit = Inr v \<longleftrightarrow>
     0 \<le> reserved \<and> 0 \<le> limit \<and> i64_min \<le> reserved + b \<and> reserved + b \<le> i64_max
     \<and> v = (reserved + b \<le> limit)"
  by (auto simp: fits_def)

lemma estimate_pos: "estimate_budget_units s i m = Inr b \<Longrightarrow> 0 < b"
  by (auto simp: estimate_budget_units_def split: if_splits)

lemma estimate_value:
  assumes "int (length s) \<le> i64_max" "int (length i) \<le> i64_max" "estimate_budget_units s i m = Inr b"
  shows "b = int (length s) + int (length i) + 256 + int m"
  using assms
  by (auto simp: estimate_budget_units_def as_i64_cast_def i64_max_def Let_def
      split: if_splits option.splits)

section \<open>Diagnostics and reviews\<close>

definition max_consistency_json_bytes :: nat where
  "max_consistency_json_bytes = 64 * 1024"

definition max_artifact_bytes :: nat where
  "max_artifact_bytes = 256 * 1024"

definition consistency_findings_json :: "consistency_report \<Rightarrow> json list" where
  "consistency_findings_json c =
     map (\<lambda>f. JObj [(''key'', JObj [(''entity_id'', JStr (ck_entity (cf_key f))),
                                    (''pointer'', JStr (ck_pointer (cf_key f)))]),
                    (''new_hash'', JStr (cf_candidate_hash f)),
                    (''old_hash'', JStr (cf_evidence_hash f))]) (cr_findings c)"

definition bounded_text :: "string \<Rightarrow> string result" where
  "bounded_text text =
     (if length text > max_consistency_json_bytes then Inl Validation else Inr text)"

definition consistency_diagnostic_json ::
  "ext \<Rightarrow> string \<Rightarrow> int \<Rightarrow> int \<Rightarrow> int \<Rightarrow> string \<Rightarrow> string \<Rightarrow> json list \<Rightarrow> string result" where
  "consistency_diagnostic_json X code task epoch no entity desired findings =
     bounded_text (x_json_text X
       (JObj [(''attempt_no'', JInt no), (''code'', JStr code), (''desired_hash'', JStr desired),
              (''entity_id'', JStr entity), (''epoch'', JInt epoch), (''findings'', JArr findings),
              (''task_id'', JInt task)]))"

definition publish_consistency_json ::
  "ext \<Rightarrow> consistency_report \<Rightarrow> int \<Rightarrow> int \<Rightarrow> int \<Rightarrow> string \<Rightarrow> string \<Rightarrow> string result" where
  "publish_consistency_json X c task epoch no entity desired =
     bounded_text (x_json_text X
       (JObj [(''attempt_no'', JInt no),
              (''candidate_count'', JInt (int (cr_candidates c))),
              (''code'', JStr ''CONSISTENCY_SCORE''),
              (''compared_claims'', JInt (int (cr_compared c))),
              (''desired_hash'', JStr desired), (''entity_id'', JStr entity),
              (''epoch'', JInt epoch), (''findings'', JArr (consistency_findings_json c)),
              (''score'', case cr_score c of None \<Rightarrow> JNull | Some s \<Rightarrow> f32_json s),
              (''task_id'', JInt task)]))"

text \<open>
  \<^verbatim>\<open>INSERT INTO review_queue ... ON CONFLICT (domain, action, subject_json) DO NOTHING\<close>; the
  foreign key needs the task to exist. An \<^verbatim>\<open>AUTOINCREMENT\<close> id is one above the largest ever used.
\<close>

definition insert_review ::
  "string \<Rightarrow> review_action \<Rightarrow> string \<Rightarrow> string \<Rightarrow> int option \<Rightarrow> int \<Rightarrow> db \<Rightarrow> (nat \<times> db) result" where
  "insert_review domain action subject reason task now d =
     (let new = \<lparr>rv_id = db_review_seq d + 1, rv_domain = domain, rv_action = action,
                 rv_status = ReviewPending, rv_subject = subject, rv_reason = reason,
                 rv_created = now, rv_task = task, rv_logs = ''[]'',
                 rv_reviewed = None, rv_reviewer = None\<rparr>;
          (rows, n) = sql_insert_ignore review_key new (db_reviews d)
      in if n = 1 \<and> (case task of None \<Rightarrow> False
                              | Some tid \<Rightarrow> \<not> sql_exists (\<lambda>t. t_id t = tid) (db_tasks d))
         then Inl Database
         else Inr (n, d\<lparr>db_reviews := rows, db_review_seq := db_review_seq d + int n\<rparr>))"

definition task_subject :: "ext \<Rightarrow> int \<Rightarrow> string" where
  "task_subject X task = x_json_text X (JObj [(''task_id'', JInt task)])"

definition enqueue_dead_letter ::
  "ext \<Rightarrow> int \<Rightarrow> string \<Rightarrow> string \<Rightarrow> int \<Rightarrow> db \<Rightarrow> (nat \<times> db) result" where
  "enqueue_dead_letter X task domain reason now d =
     insert_review domain CompileDeadLetter (task_subject X task) reason (Some task) now d"

definition review_domain_of :: "string \<Rightarrow> string result" where
  "review_domain_of entity = try_bind (from_key entity) (\<lambda>e. Inr (eid_domain e))"

text \<open>A dead letter of a task: a review row with its action and subject.\<close>

definition has_review :: "string \<Rightarrow> review_action \<Rightarrow> string \<Rightarrow> db \<Rightarrow> bool" where
  "has_review domain action subject d =
     sql_exists (\<lambda>r. review_key r = (domain, action, subject)) (db_reviews d)"

lemma insert_review_Ok:
  assumes "insert_review domain action subject reason task now d = Inr (n, d')"
  shows "d' = d\<lparr>db_reviews := db_reviews d', db_review_seq := db_review_seq d'\<rparr>"
    and "set (db_reviews d) \<subseteq> set (db_reviews d')" "has_review domain action subject d'"
    and "keyed review_key (db_reviews d) \<Longrightarrow> keyed review_key (db_reviews d')"
    and "n = (if has_review domain action subject d then 0 else 1)"
proof -
  note i = assms[unfolded insert_review_def Let_def sql_insert_ignore_def]
  from i show "d' = d\<lparr>db_reviews := db_reviews d', db_review_seq := db_review_seq d'\<rparr>"
    by (auto split: if_splits prod.splits)
  from i show "set (db_reviews d) \<subseteq> set (db_reviews d')"
    by (auto split: if_splits)
  from i show "has_review domain action subject d'"
    by (auto simp: has_review_def review_key_def sql_exists_iff split: if_splits)
  from i show "keyed review_key (db_reviews d) \<Longrightarrow> keyed review_key (db_reviews d')"
    by (auto simp: sql_exists_iff split: if_splits intro!: keyed_snoc)
  from i show "n = (if has_review domain action subject d then 0 else 1)"
    by (auto simp: has_review_def review_key_def split: if_splits)
qed

lemma has_review_mono:
  "has_review dm act subj d \<Longrightarrow> set (db_reviews d) \<subseteq> set (db_reviews d') \<Longrightarrow> has_review dm act subj d'"
  by (auto simp: has_review_def sql_exists_iff)

end
