(* ===== verification/Facts_Store.thy ===== *)
theory Facts_Store
  imports Db
begin

text \<open>
  The fact plane: the compare-and-set writer \<^verbatim>\<open>write_facts_cas\<close> of \<^verbatim>\<open>kernel/compile_store.rs\<close>, the
  \<^verbatim>\<open>EntityStore\<close> operations of \<^verbatim>\<open>kernel/sqlite.rs\<close> and the filter pushdown of
  \<^verbatim>\<open>schema/facts.rs\<close>. Properties: a field keeps the value of its newest revision, whatever the
  order of the writes; a fresh write reads back; a filter admits exactly the entities that meet
  every condition; references outlive a change of the field's type.
\<close>

section \<open>Writing\<close>

text \<open>SQLite has no NaN: a bound NaN is stored as NULL.\<close>

definition fact_columns ::
  "fact_value \<Rightarrow> string \<times> flt option \<times> string option \<times> int option \<times> int option" where
  "fact_columns v =
     (case v of
        Numeric x \<Rightarrow> (''numeric'', if x = NaN then None else Some x, None, None, None)
      | Text s \<Rightarrow> (''text'', None, Some s, None, None)
      | Boolean b \<Rightarrow> (''boolean'', None, None, Some (if b then 1 else 0), None)
      | RefList _ \<Rightarrow> (''reflist'', None, None, None, None)
      | Timestamp t \<Rightarrow> (''timestamp'', None, None, None, Some t))"

definition fact_row_of :: "string \<Rightarrow> int \<Rightarrow> int \<Rightarrow> string \<Rightarrow> fact_value \<Rightarrow> fact_row" where
  "fact_row_of entity rvn now name v =
     (case fact_columns v of (ty, num, txt, boo, ts) \<Rightarrow>
        \<lparr>fa_entity = entity, fa_field = name, fa_type = ty, fa_numeric = num, fa_text = txt,
         fa_boolean = boo, fa_timestamp = ts, fa_revision = rvn, fa_updated = now\<rparr>)"

text \<open>The \<^verbatim>\<open>DO UPDATE SET\<close> list: every column but the key, from the excluded row.\<close>

definition fact_set :: "fact_row \<Rightarrow> fact_row \<Rightarrow> fact_row" where
  "fact_set new r =
     r\<lparr>fa_type := fa_type new, fa_numeric := fa_numeric new, fa_text := fa_text new,
       fa_boolean := fa_boolean new, fa_timestamp := fa_timestamp new,
       fa_revision := fa_revision new, fa_updated := fa_updated new\<rparr>"

text \<open>The conditional upsert: inserted, or replaced when the incoming revision is newer.\<close>

definition fact_upsert :: "fact_row \<Rightarrow> fact_row list \<Rightarrow> fact_row list \<times> bool" where
  "fact_upsert new rows =
     (case sql_first (\<lambda>r. fact_key r = fact_key new) rows of
        None \<Rightarrow> (rows @ [new], True)
      | Some old \<Rightarrow>
          if fa_revision new > fa_revision old
          then (sql_update (\<lambda>r. fact_key r = fact_key new) (fact_set new) rows, True)
          else (rows, False))"

text \<open>The primary key of \<^verbatim>\<open>fact_refs\<close> makes a repeated reference an error.\<close>

fun insert_refs :: "string \<Rightarrow> string \<Rightarrow> string list \<Rightarrow> ref_row list \<Rightarrow> ref_row list result" where
  "insert_refs entity name [] rows = Inr rows"
| "insert_refs entity name (r # rs) rows =
     (if (entity, name, r) \<in> set rows then Inl Database
      else insert_refs entity name rs (rows @ [(entity, name, r)]))"

definition write_fact :: "string \<Rightarrow> int \<Rightarrow> int \<Rightarrow> string \<times> fact_value \<Rightarrow> db \<Rightarrow> db result" where
  "write_fact entity rvn now f d =
     (case f of (name, v) \<Rightarrow>
      case fact_upsert (fact_row_of entity rvn now name v) (db_facts d) of (rows, applied) \<Rightarrow>
        if \<not> applied then Inr (d\<lparr>db_facts := rows\<rparr>)
        else (case v of
          RefList refs \<Rightarrow>
            try_bind (insert_refs entity name refs
                       (sql_delete (\<lambda>r. fst r = entity \<and> fst (snd r) = name) (db_refs d)))
              (\<lambda>rr. Inr (d\<lparr>db_facts := rows, db_refs := rr\<rparr>))
        | _ \<Rightarrow> Inr (d\<lparr>db_facts := rows\<rparr>)))"

fun write_facts_loop ::
  "string \<Rightarrow> int \<Rightarrow> int \<Rightarrow> (string \<times> fact_value) list \<Rightarrow> db \<Rightarrow> db result" where
  "write_facts_loop entity rvn now [] d = Inr d"
| "write_facts_loop entity rvn now (f # fs) d =
     try_bind (write_fact entity rvn now f d) (write_facts_loop entity rvn now fs)"

definition write_facts_cas :: "facts \<Rightarrow> nat \<Rightarrow> int \<Rightarrow> db \<Rightarrow> db result" where
  "write_facts_cas fs source_revision now d =
     try_bind (revision_to_i64 source_revision)
       (\<lambda>rvn. write_facts_loop (to_key (fs_entity fs)) rvn now (fs_fields fs) d)"

definition upsert_facts :: "entity_id \<Rightarrow> facts \<Rightarrow> nat \<Rightarrow> int \<Rightarrow> db \<Rightarrow> unit result \<times> db" where
  "upsert_facts i fs source_revision now d =
     (if i \<noteq> fs_entity fs then (Inl Validation, d)
      else immediate_transaction
             (\<lambda>d. try_bind (write_facts_cas fs source_revision now d) (\<lambda>d'. Inr ((), d'))) d)"

definition delete_facts :: "entity_id \<Rightarrow> db \<Rightarrow> unit result \<times> db" where
  "delete_facts i d =
     (Inr (), d\<lparr>db_refs := sql_delete (\<lambda>r. fst r = to_key i) (db_refs d),
                 db_facts := sql_delete (\<lambda>r. fa_entity r = to_key i) (db_facts d)\<rparr>)"

section \<open>Reading\<close>

definition field_refs :: "string \<Rightarrow> string \<Rightarrow> ref_row list \<Rightarrow> string list" where
  "field_refs entity name rows =
     map (\<lambda>r. snd (snd r)) (filter (\<lambda>r. fst r = entity \<and> fst (snd r) = name) rows)"

definition fact_value_of :: "fact_row \<Rightarrow> ref_row list \<Rightarrow> fact_value result" where
  "fact_value_of r refs =
     (if fa_type r = ''numeric'' then
        Inr (Numeric (case fa_numeric r of Some x \<Rightarrow> x | None \<Rightarrow> Fin 0))
      else if fa_type r = ''text'' then
        Inr (Text (case fa_text r of Some s \<Rightarrow> s | None \<Rightarrow> []))
      else if fa_type r = ''boolean'' then
        Inr (Boolean ((case fa_boolean r of Some b \<Rightarrow> b | None \<Rightarrow> 0) \<noteq> 0))
      else if fa_type r = ''timestamp'' then
        Inr (Timestamp (case fa_timestamp r of Some t \<Rightarrow> t | None \<Rightarrow> 0))
      else if fa_type r = ''reflist'' then
        Inr (RefList (sort (field_refs (fa_entity r) (fa_field r) refs)))
      else Inl Internal)"

fun get_facts_loop ::
  "fact_row list \<Rightarrow> ref_row list \<Rightarrow> (string \<times> fact_value) list \<Rightarrow> int
   \<Rightarrow> ((string \<times> fact_value) list \<times> int) result" where
  "get_facts_loop [] refs acc rvn = Inr (acc, rvn)"
| "get_facts_loop (r # rs) refs acc rvn =
     try_bind (fact_value_of r refs)
       (\<lambda>v. get_facts_loop rs refs (bt_insert (fa_field r) v acc) (fa_revision r))"

definition get_facts :: "entity_id \<Rightarrow> db \<Rightarrow> facts option result" where
  "get_facts i d =
     (let rows = filter (\<lambda>r. fa_entity r = to_key i) (db_facts d)
      in try_bind (get_facts_loop rows (db_refs d) [] 0)
           (\<lambda>(m, rvn). Inr (if rows = [] then None
                            else Some \<lparr>fs_entity = i, fs_fields = m,
                                       fs_revision = nat (rvn mod 2 ^ 64)\<rparr>)))"

section \<open>Filters\<close>

text \<open>
  \<open>filter_where\<close> translates a condition to an \<^verbatim>\<open>EXISTS\<close> over the entity of the outer row; here
  the fragment is its meaning, a test of the entity against the two tables. A bound of a range is
  bound as text: the affinity of the numeric column reads the decimal text of a finite bound as that
  number, while the texts of an infinity and of NaN stay texts, and a text is above every number. NULL
  passes no comparison.
\<close>

definition column_ge :: "flt option \<Rightarrow> flt option \<Rightarrow> bool" where
  "column_ge column bound =
     (case bound of None \<Rightarrow> True
      | Some m \<Rightarrow> (case column of None \<Rightarrow> False | Some x \<Rightarrow> is_finite m \<and> f_ge x m))"

definition column_le :: "flt option \<Rightarrow> flt option \<Rightarrow> bool" where
  "column_le column bound =
     (case bound of None \<Rightarrow> True
      | Some m \<Rightarrow> (case column of None \<Rightarrow> False | Some x \<Rightarrow> is_finite m \<longrightarrow> f_le x m))"

definition has_ref :: "db \<Rightarrow> string \<Rightarrow> string \<Rightarrow> string list \<Rightarrow> bool" where
  "has_ref d entity name refs =
     sql_exists (\<lambda>r. fst r = entity \<and> fst (snd r) = name \<and> snd (snd r) \<in> set refs) (db_refs d)"

definition filter_clause :: "filter_condition \<Rightarrow> (db \<Rightarrow> string \<Rightarrow> bool) option" where
  "filter_clause c =
     (case c of
        NumericRange name lo hi \<Rightarrow>
          if lo = None \<and> hi = None then None
          else Some (\<lambda>d entity. sql_exists (\<lambda>f. fa_entity f = entity \<and> fa_field f = name
                      \<and> column_ge (fa_numeric f) lo \<and> column_le (fa_numeric f) hi)
                    (db_facts d))
      | TextEquals name v \<Rightarrow>
          Some (\<lambda>d entity. sql_exists (\<lambda>f. fa_entity f = entity \<and> fa_field f = name
                      \<and> fa_text f = Some v) (db_facts d))
      | RefContains name refs \<Rightarrow>
          if refs = [] then Some (\<lambda>d entity. False)
          else Some (\<lambda>d entity. has_ref d entity name refs)
      | RefExcludes name refs \<Rightarrow>
          if refs = [] then None
          else Some (\<lambda>d entity. \<not> has_ref d entity name refs))"

definition filter_where :: "filters \<Rightarrow> (db \<Rightarrow> string \<Rightarrow> bool) option" where
  "filter_where fs =
     (let clauses = List.map_filter filter_clause fs
      in if clauses = [] then None else Some (\<lambda>d entity. list_all (\<lambda>c. c d entity) clauses))"

definition filter_rows :: "(string \<Rightarrow> bool) \<Rightarrow> db \<Rightarrow> string list" where
  "filter_rows p d = take 10000 (remdups (filter p (map fa_entity (db_facts d))))"

definition store_filter :: "filters \<Rightarrow> db \<Rightarrow> entity_id list result" where
  "store_filter fs d =
     (if fs = [] then collect_results (map from_key (filter_rows (\<lambda>e. True) d))
      else (case filter_where fs of
              None \<Rightarrow> Inl Internal
            | Some w \<Rightarrow> collect_results (map from_key (filter_rows (w d) d))))"

text \<open>Pages are per category: the category text of the matching entities names the page entity.\<close>

definition filter_page_candidates :: "filters \<Rightarrow> db \<Rightarrow> entity_id list result" where
  "filter_page_candidates fs d =
     (if fs = [] then Inr []
      else (case filter_where fs of
              None \<Rightarrow> Inr []
            | Some w \<Rightarrow>
                collect_results (map from_key (remdups
                  (List.map_filter
                    (\<lambda>f. if fa_field f = ''category'' \<and> fa_type f = ''text''
                             \<and> sql_exists (\<lambda>g. fa_entity g = fa_entity f \<and> w d (fa_entity g)) (db_facts d)
                         then fa_text f else None) (db_facts d))))))"

section \<open>The fact plane as a map\<close>

text \<open>
  What the table promises: a map from entity and field to a row, in which a write takes
  effect exactly when its revision is newer.
\<close>

definition fact_map :: "db \<Rightarrow> string \<times> string \<Rightarrow> fact_row option" where
  "fact_map d k = sql_first (\<lambda>r. fact_key r = k) (db_facts d)"

definition newer :: "fact_row \<Rightarrow> fact_row option \<Rightarrow> bool" where
  "newer new old = (case old of None \<Rightarrow> True | Some r \<Rightarrow> fa_revision r < fa_revision new)"

definition cas_put :: "fact_row \<Rightarrow> (string \<times> string \<Rightarrow> fact_row option)
   \<Rightarrow> (string \<times> string \<Rightarrow> fact_row option)" where
  "cas_put new m = (if newer new (m (fact_key new)) then m(fact_key new \<mapsto> new) else m)"

lemma fact_set_key [simp]: "fact_key (fact_set new r) = fact_key r"
  by (simp add: fact_key_def fact_set_def)

lemma fact_set_eq: "fact_key r = fact_key new \<Longrightarrow> fact_set new r = new"
  by (cases r; cases new) (simp add: fact_key_def fact_set_def)

interpretation fact_set: keeps_key fact_key "fact_set new" for new
  by unfold_locales simp

lemma fact_row_of_simps [simp]:
  "fact_key (fact_row_of entity rvn now name v) = (entity, name)"
  "fa_revision (fact_row_of entity rvn now name v) = rvn"
  "fa_entity (fact_row_of entity rvn now name v) = entity"
  "fa_field (fact_row_of entity rvn now name v) = name"
  by (simp_all add: fact_row_of_def fact_key_def split: prod.splits)

lemma find_update_first:
  assumes "\<And>r. r \<in> set rows \<Longrightarrow> fact_key (f r) = fact_key r"
  shows "find (\<lambda>r. fact_key r = k) (map (\<lambda>r. if fact_key r = k' then f r else r) rows)
    = (if k = k' then map_option f (find (\<lambda>r. fact_key r = k) rows)
       else find (\<lambda>r. fact_key r = k) rows)"
  using assms by (induction rows) auto

lemma find_snoc: "find P (xs @ [y]) = (case find P xs of None \<Rightarrow> if P y then Some y else None | v \<Rightarrow> v)"
  by (induction xs) auto

lemma fact_upsert_map:
  "sql_first (\<lambda>r. fact_key r = k) (fst (fact_upsert new rows))
   = cas_put new (\<lambda>k. sql_first (\<lambda>r. fact_key r = k) rows) k"
proof (cases "sql_first (\<lambda>r. fact_key r = fact_key new) rows")
  case None
  then show ?thesis
    by (auto simp: fact_upsert_def cas_put_def newer_def sql_first_def find_snoc split: option.splits)
next
  case (Some old)
  then have "fact_set new old = new" by (auto dest: sql_first_SomeD intro: fact_set_eq)
  with Some show ?thesis
    by (simp add: fact_upsert_def cas_put_def newer_def sql_first_def sql_update_def find_update_first)
qed

lemma fact_upsert_applied:
  "snd (fact_upsert new rows) = newer new (sql_first (\<lambda>r. fact_key r = fact_key new) rows)"
  by (simp add: fact_upsert_def newer_def split: option.splits)

lemma fact_upsert_keyed: "keyed fact_key rows \<Longrightarrow> keyed fact_key (fst (fact_upsert new rows))"
  by (auto simp: fact_upsert_def sql_first_None fact_set.keyed_update split: option.splits
      intro: keyed_snoc)

lemma insert_refs_Ok:
  "insert_refs entity name rs rows = Inr rr \<longleftrightarrow>
     distinct rs \<and> (\<forall>r\<in>set rs. (entity, name, r) \<notin> set rows)
     \<and> rr = rows @ map (\<lambda>r. (entity, name, r)) rs"
  by (induction entity name rs rows rule: insert_refs.induct) auto

lemma write_fact_shape:
  assumes "write_fact entity rvn now (name, v) d = Inr d'"
  shows "d' = d\<lparr>db_facts := fst (fact_upsert (fact_row_of entity rvn now name v) (db_facts d)),
                 db_refs := db_refs d'\<rparr>"
    and "(\<forall>refs. v \<noteq> RefList refs) \<or> \<not> newer (fact_row_of entity rvn now name v) (fact_map d (entity, name))
         \<Longrightarrow> db_refs d' = db_refs d"
    and "v = RefList refs \<Longrightarrow> newer (fact_row_of entity rvn now name v) (fact_map d (entity, name)) \<Longrightarrow>
         db_refs d' = sql_delete (\<lambda>r. fst r = entity \<and> fst (snd r) = name) (db_refs d)
                      @ map (\<lambda>r. (entity, name, r)) refs"
proof -
  let ?new = "fact_row_of entity rvn now name v"
  obtain rows applied where up: "fact_upsert ?new (db_facts d) = (rows, applied)"
    by (cases "fact_upsert ?new (db_facts d)")
  have ap: "applied = newer ?new (fact_map d (entity, name))"
    using fact_upsert_applied[of ?new "db_facts d"] up by (simp add: fact_map_def)
  note w = assms[unfolded write_fact_def prod.case up]
  have "rows = fst (fact_upsert ?new (db_facts d))" by (simp add: up)
  with w show "d' = d\<lparr>db_facts := fst (fact_upsert ?new (db_facts d)), db_refs := db_refs d'\<rparr>"
    by (auto split: if_splits fact_value.splits)
  from w show "(\<forall>refs. v \<noteq> RefList refs) \<or> \<not> newer ?new (fact_map d (entity, name))
      \<Longrightarrow> db_refs d' = db_refs d"
    by (auto simp: ap split: if_splits fact_value.splits)
  from w show "v = RefList refs \<Longrightarrow> newer ?new (fact_map d (entity, name)) \<Longrightarrow>
      db_refs d' = sql_delete (\<lambda>r. fst r = entity \<and> fst (snd r) = name) (db_refs d)
                   @ map (\<lambda>r. (entity, name, r)) refs"
    by (auto simp: ap insert_refs_Ok)
qed

lemma write_fact_map:
  assumes "write_fact entity rvn now f d = Inr d'"
  shows "fact_map d' = cas_put (fact_row_of entity rvn now (fst f) (snd f)) (fact_map d)"
proof -
  obtain name v where f: "f = (name, v)" by (cases f)
  have m: "fact_map d = (\<lambda>k. sql_first (\<lambda>r. fact_key r = k) (db_facts d))"
    by (simp add: fun_eq_iff fact_map_def)
  have "db_facts d' = fst (fact_upsert (fact_row_of entity rvn now name v) (db_facts d))"
    by (subst write_fact_shape(1)[OF assms[unfolded f]]) simp
  then show ?thesis by (simp add: fun_eq_iff f m fact_map_def fact_upsert_map)
qed

lemma write_facts_loop_map:
  "write_facts_loop entity rvn now fs d = Inr d' \<Longrightarrow>
     fact_map d' = fold (\<lambda>f. cas_put (fact_row_of entity rvn now (fst f) (snd f))) fs (fact_map d)"
  by (induction fs arbitrary: d) (auto dest: write_fact_map)

text \<open>No field goes back: its row stays, or a row of a newer revision takes its place.\<close>

definition facts_grow :: "db \<Rightarrow> db \<Rightarrow> bool" where
  "facts_grow d d' \<longleftrightarrow> (\<forall>k f. fact_map d k = Some f \<longrightarrow> (\<exists>f'. fact_map d' k = Some f' \<and> fa_revision f \<le> fa_revision f'))"

lemma facts_grow_refl [simp]: "facts_grow d d"
  by (simp add: facts_grow_def)

lemma facts_grow_trans: "facts_grow a b \<Longrightarrow> facts_grow b c \<Longrightarrow> facts_grow a c"
  unfolding facts_grow_def by (meson order_trans)

lemma facts_grow_put: "fact_map d' = cas_put new (fact_map d) \<Longrightarrow> facts_grow d d'"
  by (auto simp: facts_grow_def cas_put_def newer_def split: option.splits)

text \<open>A step that writes the fact plane only.\<close>

definition facts_only :: "db \<Rightarrow> db \<Rightarrow> bool" where
  "facts_only d d' \<longleftrightarrow> d' = d\<lparr>db_facts := db_facts d', db_refs := db_refs d'\<rparr>
     \<and> (keyed fact_key (db_facts d) \<longrightarrow> keyed fact_key (db_facts d')) \<and> facts_grow d d'"

lemma facts_only_refl [simp]: "facts_only d d"
  by (simp add: facts_only_def)

lemma facts_only_trans: "facts_only a b \<Longrightarrow> facts_only b c \<Longrightarrow> facts_only a c"
  unfolding facts_only_def by (cases a; cases b; cases c) (auto intro: facts_grow_trans)

lemma write_fact_only:
  assumes "write_fact entity rvn now f d = Inr d'"
  shows "facts_only d d'"
proof -
  let ?rows = "fst (fact_upsert (fact_row_of entity rvn now (fst f) (snd f)) (db_facts d))"
  have d': "d' = d\<lparr>db_facts := ?rows, db_refs := db_refs d'\<rparr>"
    using write_fact_shape(1)[of entity rvn now "fst f" "snd f" d d'] assms by simp
  then have "db_facts d' = ?rows" by (cases d') simp
  with d' show ?thesis
    using facts_grow_put[OF write_fact_map[OF assms]] by (simp add: facts_only_def fact_upsert_keyed)
qed

lemma write_facts_loop_only:
  "write_facts_loop entity rvn now fs d = Inr d' \<Longrightarrow> facts_only d d'"
  by (induction fs arbitrary: d) (auto dest: write_fact_only intro: facts_only_trans)

lemma write_facts_cas_only: "write_facts_cas fs n now d = Inr d' \<Longrightarrow> facts_only d d'"
  by (auto simp: write_facts_cas_def dest: write_facts_loop_only)

lemma write_facts_cas_map:
  "write_facts_cas fs n now d = Inr d' \<Longrightarrow>
     fact_map d' = fold (\<lambda>f. cas_put (fact_row_of (to_key (fs_entity fs)) (int n) now (fst f) (snd f)))
                     (fs_fields fs) (fact_map d)"
  by (auto simp: write_facts_cas_def revision_to_i64_def split: if_splits dest!: write_facts_loop_map)

section \<open>Convergence\<close>

lemma cas_put_commute:
  "fa_revision a \<noteq> fa_revision b \<Longrightarrow> cas_put a (cas_put b m) = cas_put b (cas_put a m)"
  by (cases "fact_key a = fact_key b")
    (auto simp: cas_put_def newer_def fun_eq_iff split: option.splits)

lemma cas_puts_commute:
  assumes "\<And>x y. fa_revision (f x) \<noteq> fa_revision (g y)"
  shows "fold (\<lambda>x. cas_put (f x)) xs (fold (\<lambda>y. cas_put (g y)) ys m)
       = fold (\<lambda>y. cas_put (g y)) ys (fold (\<lambda>x. cas_put (f x)) xs m)"
proof -
  have one: "cas_put (f x) (fold (\<lambda>y. cas_put (g y)) ys m) = fold (\<lambda>y. cas_put (g y)) ys (cas_put (f x) m)"
    for x m
  proof (induction ys arbitrary: m)
    case (Cons y ys)
    have "cas_put (f x) (cas_put (g y) m) = cas_put (g y) (cas_put (f x) m)"
      by (rule cas_put_commute) (rule assms)
    with Cons show ?case by simp
  qed simp
  show ?thesis by (induction xs arbitrary: m) (simp_all add: one)
qed

text \<open>
  Snapshots converge: two snapshots of different revisions leave the same fact rows in
  whichever order they are written, so a late older snapshot never undoes a newer one.
\<close>

theorem write_facts_converge:
  assumes "r1 \<noteq> r2"
    and "write_facts_cas f1 r1 n1 d = Inr d1" "write_facts_cas f2 r2 n2 d1 = Inr d12"
    and "write_facts_cas f2 r2 n2 d = Inr d2" "write_facts_cas f1 r1 n1 d2 = Inr d21"
  shows "fact_map d12 = fact_map d21"
  unfolding assms(2-5)[THEN write_facts_cas_map]
  by (rule cas_puts_commute) (use assms(1) in simp)

section \<open>What a write leaves behind\<close>

lemma fold_cas_put_other:
  "k \<notin> (\<lambda>x. fact_key (f x)) ` set xs \<Longrightarrow> fold (\<lambda>x. cas_put (f x)) xs m k = m k"
  by (induction xs arbitrary: m) (auto simp: cas_put_def)

lemma fold_cas_put_at:
  assumes "x \<in> set xs" "distinct (map (\<lambda>x. fact_key (f x)) xs)"
  shows "fold (\<lambda>x. cas_put (f x)) xs m (fact_key (f x)) =
    (if newer (f x) (m (fact_key (f x))) then Some (f x) else m (fact_key (f x)))"
  using assms
proof (induction xs arbitrary: m)
  case (Cons y ys)
  show ?case
  proof (cases "x = y")
    case True
    with Cons.prems(2) have "fact_key (f x) \<notin> (\<lambda>x. fact_key (f x)) ` set ys" by auto
    then have "fold (\<lambda>x. cas_put (f x)) ys (cas_put (f x) m) (fact_key (f x)) = cas_put (f x) m (fact_key (f x))"
      by (rule fold_cas_put_other)
    then show ?thesis using True by (simp add: cas_put_def[of "f y" m])
  next
    case False
    with Cons.prems have "x \<in> set ys" "fact_key (f x) \<noteq> fact_key (f y)"
      by (auto simp: image_iff)
    with Cons.IH[of "cas_put (f y) m"] Cons.prems(2) show ?thesis
      by (simp add: cas_put_def[of "f y" m])
  qed
qed simp

lemma write_facts_cas_other:
  assumes "write_facts_cas fs n now d = Inr d'"
    and "entity \<noteq> to_key (fs_entity fs) \<or> name \<notin> fst ` set (fs_fields fs)"
  shows "fact_map d' (entity, name) = fact_map d (entity, name)"
proof -
  let ?row = "\<lambda>f. fact_row_of (to_key (fs_entity fs)) (int n) now (fst f) (snd f)"
  have "(entity, name) \<notin> (\<lambda>f. fact_key (?row f)) ` set (fs_fields fs)" using assms(2) by auto
  then show ?thesis unfolding write_facts_cas_map[OF assms(1)] by (rule fold_cas_put_other)
qed

text \<open>
  A snapshot write is a compare-and-set per field: a field whose stored revision is older,
  or that is new, gets the snapshot's value and revision; any other field keeps its row; rows
  of other entities, and of fields the snapshot does not carry, are untouched; the table keeps
  its primary key.
\<close>

theorem write_facts_cas_per_field:
  assumes "write_facts_cas fs n now d = Inr d'" "bt_wf (fs_fields fs)"
  shows "(\<forall>(name, v)\<in>set (fs_fields fs).
            let new = fact_row_of (to_key (fs_entity fs)) (int n) now name v;
                old = fact_map d (to_key (fs_entity fs), name)
            in fact_map d' (to_key (fs_entity fs), name) = (if newer new old then Some new else old))
    \<and> (\<forall>entity name. entity \<noteq> to_key (fs_entity fs) \<or> name \<notin> fst ` set (fs_fields fs) \<longrightarrow>
            fact_map d' (entity, name) = fact_map d (entity, name))
    \<and> (keyed fact_key (db_facts d) \<longrightarrow> keyed fact_key (db_facts d'))"
proof -
  let ?row = "\<lambda>f. fact_row_of (to_key (fs_entity fs)) (int n) now (fst f) (snd f)"
  have "distinct (map fst (fs_fields fs))" using bt.keys_distinct assms(2) by blast
  then have dist: "distinct (map (\<lambda>f. fact_key (?row f)) (fs_fields fs))"
    by (simp add: distinct_map inj_on_def)
  note m = write_facts_cas_map[OF assms(1)]
  have at: "fact_map d' (to_key (fs_entity fs), fst f) =
      (if newer (?row f) (fact_map d (to_key (fs_entity fs), fst f)) then Some (?row f)
       else fact_map d (to_key (fs_entity fs), fst f))" if "f \<in> set (fs_fields fs)" for f
    using fold_cas_put_at[OF that dist, of "fact_map d"] m by simp
  have keys: "keyed fact_key (db_facts d) \<longrightarrow> keyed fact_key (db_facts d')"
    using write_facts_cas_only[OF assms(1)] by (simp add: facts_only_def)
  have "case f of (name, v) \<Rightarrow>
      let new = fact_row_of (to_key (fs_entity fs)) (int n) now name v;
          old = fact_map d (to_key (fs_entity fs), name)
      in fact_map d' (to_key (fs_entity fs), name) = (if newer new old then Some new else old)"
    if "f \<in> set (fs_fields fs)" for f
    using at[OF that] by (simp only: Let_def split_beta)
  then show ?thesis using write_facts_cas_other[OF assms(1)] keys by blast
qed

section \<open>References outlive the type of their field\<close>

text \<open>
  Only a list value rewrites the references of a field: when a newer snapshot changes a
  list field to another type, its row becomes the new value but its references stay, and the
  reference filters go on matching them.
\<close>

theorem references_outlive_type_change:
  assumes "write_fact entity r now (name, v) d = Inr d'" "\<forall>refs. v \<noteq> RefList refs"
    and "newer (fact_row_of entity r now name v) (fact_map d (entity, name))"
  shows "fact_map d' (entity, name) = Some (fact_row_of entity r now name v)
    \<and> (\<forall>e n refs. has_ref d' e n refs = has_ref d e n refs)"
  using write_fact_map[OF assms(1)] write_fact_shape(2)[OF assms(1)] assms(2,3)
  by (simp add: cas_put_def has_ref_def)

section \<open>A fresh snapshot reads back\<close>

text \<open>What a stored value reads back as: a list comes back sorted, and NaN as zero.\<close>

definition read_back :: "fact_value \<Rightarrow> fact_value" where
  "read_back v = (case v of RefList refs \<Rightarrow> RefList (sort refs) | Numeric x \<Rightarrow> Numeric (if x = NaN then Fin 0 else x) | _ \<Rightarrow> v)"

lemma get_facts_loop_Ok:
  assumes "\<forall>r\<in>set rows. fact_value_of r refs = Inr (val r) \<and> fa_revision r = n" "bt_wf acc"
    and "distinct (map fa_field rows)"
  shows "\<exists>m. get_facts_loop rows refs acc r0 = Inr (m, if rows = [] then r0 else n) \<and> bt_wf m
    \<and> (\<forall>r\<in>set rows. map_of m (fa_field r) = Some (val r))
    \<and> (\<forall>k. k \<notin> fa_field ` set rows \<longrightarrow> map_of m k = map_of acc k)"
  using assms
proof (induction rows arbitrary: acc r0)
  case (Cons r rows)
  let ?acc = "bt_insert (fa_field r) (val r) acc"
  have "\<forall>r\<in>set rows. fact_value_of r refs = Inr (val r) \<and> fa_revision r = n"
    "distinct (map fa_field rows)" "bt_wf ?acc"
    using Cons.prems by (auto intro: bt_wf_insert)
  from Cons.IH[OF this(1,3,2), of n] obtain m where
    m: "get_facts_loop rows refs ?acc n = Inr (m, n)"
    "bt_wf m" "\<forall>r\<in>set rows. map_of m (fa_field r) = Some (val r)"
    "\<forall>k. k \<notin> fa_field ` set rows \<longrightarrow> map_of m k = map_of ?acc k"
    by auto
  then have "map_of m (fa_field r) = Some (val r)"
    using Cons.prems(3) by (simp add: map_of_bt_insert)
  moreover have "map_of m k = map_of acc k" if "k \<notin> fa_field ` set (r # rows)" for k
    using m(4) that by (simp add: map_of_bt_insert)
  moreover have "get_facts_loop (r # rows) refs acc r0 = Inr (m, n)" using m(1) Cons.prems(1) by simp
  ultimately show ?case using m(2,3) by (intro exI[of _ m]) auto
qed simp

lemma write_fact_other:
  assumes "write_fact entity r now (name', v) d = Inr d'" "name \<noteq> name'"
  shows "field_refs entity name (db_refs d') = field_refs entity name (db_refs d)"
    and "fact_map d' (entity, name) = fact_map d (entity, name)"
proof -
  have other: "field_refs entity name (sql_delete (\<lambda>x. fst x = entity \<and> fst (snd x) = name') rows
      @ map (\<lambda>x. (entity, name', x)) rs) = field_refs entity name rows" for rows rs
    using assms(2) by (simp add: field_refs_def sql_delete_def comp_def)
      (auto intro!: arg_cong[where f = "map (\<lambda>r. snd (snd r))"] filter_cong)
  show "field_refs entity name (db_refs d') = field_refs entity name (db_refs d)"
  proof (cases "\<exists>refs. v = RefList refs \<and> newer (fact_row_of entity r now name' v) (fact_map d (entity, name'))")
    case True
    then show ?thesis using write_fact_shape(3)[OF assms(1)] other by auto
  next
    case False
    then show ?thesis using write_fact_shape(2)[OF assms(1)] by auto
  qed
  show "fact_map d' (entity, name) = fact_map d (entity, name)"
    using write_fact_map[OF assms(1)] assms(2) by (simp add: cas_put_def)
qed

lemma write_facts_loop_other:
  "write_facts_loop entity r now fs d = Inr d' \<Longrightarrow> name \<notin> fst ` set fs \<Longrightarrow>
     field_refs entity name (db_refs d') = field_refs entity name (db_refs d)"
proof (induction fs arbitrary: d)
  case (Cons f fs)
  then obtain d1 where 1: "write_fact entity r now (fst f, snd f) d = Inr d1"
    "write_facts_loop entity r now fs d1 = Inr d'" by auto
  with Cons write_fact_other(1)[OF 1(1), of name] show ?case by simp
qed simp

lemma write_facts_loop_refs:
  assumes "write_facts_loop entity r now fs d = Inr d'" "distinct (map fst fs)"
    and "(name, RefList refs) \<in> set fs"
    and "newer (fact_row_of entity r now name (RefList refs)) (fact_map d (entity, name))"
  shows "field_refs entity name (db_refs d') = refs"
  using assms
proof (induction fs arbitrary: d)
  case (Cons f fs)
  then obtain d1 where 1: "write_fact entity r now (fst f, snd f) d = Inr d1"
    and 2: "write_facts_loop entity r now fs d1 = Inr d'" by auto
  show ?case
  proof (cases "f = (name, RefList refs)")
    case True
    then have "field_refs entity name (db_refs d1) = refs"
      using write_fact_shape(3)[OF 1, of refs] Cons.prems(4)
      by (simp add: field_refs_def sql_delete_def comp_def)
    with write_facts_loop_other[OF 2, of name] Cons.prems(2) True show ?thesis by simp
  next
    case False
    then have ne: "name \<noteq> fst f" "(name, RefList refs) \<in> set fs"
      using Cons.prems(2,3) by (force simp: image_iff)+
    then show ?thesis using Cons.IH[OF 2] Cons.prems(2,4) write_fact_other(2)[OF 1 ne(1)] by simp
  qed
qed simp

lemma fact_value_of_row:
  "(\<And>rs. v = RefList rs \<Longrightarrow> field_refs entity name refs = rs) \<Longrightarrow>
     fact_value_of (fact_row_of entity r now name v) refs = Inr (read_back v)"
  by (cases v) (auto simp: fact_value_of_def fact_row_of_def fact_columns_def read_back_def)

text \<open>The rows of an entity after a newer complete snapshot: one per field, with its value.\<close>

definition snapshot_newer :: "facts \<Rightarrow> nat \<Rightarrow> db \<Rightarrow> bool" where
  "snapshot_newer fs n d \<longleftrightarrow>
     list_all (\<lambda>r. fa_entity r = to_key (fs_entity fs) \<longrightarrow>
        fa_field r \<in> fst ` set (fs_fields fs) \<and> fa_revision r < int n) (db_facts d)"

lemma snapshot_newer_newer:
  "snapshot_newer fs n d \<Longrightarrow>
     newer (fact_row_of (to_key (fs_entity fs)) (int n) now name v) (fact_map d (to_key (fs_entity fs), name))"
  by (auto simp: newer_def fact_map_def fact_key_def snapshot_newer_def list_all_iff
      split: option.split dest!: sql_first_SomeD)

lemma written_rows:
  assumes w: "write_facts_cas fs n now d = Inr d'" and wf: "bt_wf (fs_fields fs)"
    and keyed: "keyed fact_key (db_facts d)" and nw: "snapshot_newer fs n d"
  defines "row \<equiv> \<lambda>f. fact_row_of (to_key (fs_entity fs)) (int n) now (fst f) (snd f)"
    and "rows \<equiv> filter (\<lambda>r. fa_entity r = to_key (fs_entity fs)) (db_facts d')"
  shows "keyed fact_key (db_facts d')" and "set rows = row ` set (fs_fields fs)"
    and "f \<in> set (fs_fields fs) \<Longrightarrow> fact_value_of (row f) (db_refs d') = Inr (read_back (snd f))"
proof -
  let ?e = "to_key (fs_entity fs)"
  have dist: "distinct (map fst (fs_fields fs))" using bt.keys_distinct wf by blast
  show keyed': "keyed fact_key (db_facts d')"
    using write_facts_cas_only[OF w] keyed by (simp add: facts_only_def)
  have at: "fact_map d' (?e, fst f) = Some (row f)" if "f \<in> set (fs_fields fs)" for f
  proof -
    have "distinct (map (\<lambda>f. fact_key (row f)) (fs_fields fs))"
      using dist by (simp add: row_def distinct_map inj_on_def)
    then show ?thesis
      using fold_cas_put_at[OF that, of row "fact_map d"] write_facts_cas_map[OF w]
        snapshot_newer_newer[OF nw] by (simp add: row_def)
  qed
  have "r \<in> row ` set (fs_fields fs)" if r: "r \<in> set rows" for r
  proof -
    have m: "fact_map d' (?e, fa_field r) = Some r"
      using sql_first_keyed[OF keyed', of r] r by (simp add: rows_def fact_map_def fact_key_def)
    have "fact_map d (?e, fa_field r) = Some r" if "fa_field r \<notin> fst ` set (fs_fields fs)"
      using write_facts_cas_other[OF w, of ?e] that m by simp
    then have "fa_field r \<in> fst ` set (fs_fields fs)"
      using nw r by (auto simp: rows_def snapshot_newer_def list_all_iff fact_map_def
          dest!: sql_first_SomeD)
    with m at show ?thesis by auto
  qed
  moreover have "row f \<in> set rows" if "f \<in> set (fs_fields fs)" for f
    using at[OF that] by (auto simp: rows_def row_def fact_map_def dest: sql_first_SomeD)
  ultimately show "set rows = row ` set (fs_fields fs)" by blast
  have "write_facts_loop ?e (int n) now (fs_fields fs) d = Inr d'"
    using w by (auto simp: write_facts_cas_def revision_to_i64_def split: if_splits)
  then show "fact_value_of (row f) (db_refs d') = Inr (read_back (snd f))"
    if "f \<in> set (fs_fields fs)"
    unfolding row_def using write_facts_loop_refs[OF _ dist] that snapshot_newer_newer[OF nw]
    by (intro fact_value_of_row) (metis prod.collapse)
qed

text \<open>
  A snapshot that is newer than all stored facts of its entity, and carries every stored
  field, reads back as written: same entity, same revision, every field with its value (a list
  comes back sorted, NaN as zero), no other field.
\<close>

theorem get_facts_reads_back:
  assumes "write_facts_cas fs n now d = Inr d'" "bt_wf (fs_fields fs)" "fs_fields fs \<noteq> []"
    and "keyed fact_key (db_facts d)" "snapshot_newer fs n d"
  shows "get_facts (fs_entity fs) d' = Inr (Some \<lparr>fs_entity = fs_entity fs,
     fs_fields = map (\<lambda>(name, v). (name, read_back v)) (fs_fields fs), fs_revision = n\<rparr>)"
proof -
  let ?row = "\<lambda>f. fact_row_of (to_key (fs_entity fs)) (int n) now (fst f) (snd f)"
  let ?rows = "filter (\<lambda>r. fa_entity r = to_key (fs_entity fs)) (db_facts d')"
  let ?read = "map (\<lambda>(name, v). (name, read_back v)) (fs_fields fs)"
  note wr = written_rows[OF assms(1,2,4,5)]
  define val where "val r = (case fact_value_of r (db_refs d') of Inr v \<Rightarrow> v | Inl _ \<Rightarrow> Boolean True)" for r
  have val: "val (?row f) = read_back (snd f)" if "f \<in> set (fs_fields fs)" for f
    using wr(3)[OF that] by (simp add: val_def)
  have "\<forall>r\<in>set ?rows. fact_value_of r (db_refs d') = Inr (val r) \<and> fa_revision r = int n"
    unfolding wr(2) using wr(3) val by simp
  moreover have "distinct (map fa_field ?rows)"
    using wr(1) by (auto simp: keyed_def fact_key_def distinct_map inj_on_def)
  moreover have ne: "?rows \<noteq> []"
    using wr(2) assms(3) by (metis image_is_empty set_empty)
  ultimately obtain m where m: "get_facts_loop ?rows (db_refs d') [] 0 = Inr (m, int n)" "bt_wf m"
    "\<forall>r\<in>set ?rows. map_of m (fa_field r) = Some (val r)"
    "\<forall>k. k \<notin> fa_field ` set ?rows \<longrightarrow> map_of m k = None"
    using get_facts_loop_Ok[of ?rows "db_refs d'" val "int n" "[]" 0] by (auto simp: bt_wf_def)
  have "distinct (map fst ?read)"
    using bt.keys_distinct[OF assms(2)] by (simp add: comp_def split_beta)
  then have "map_of ?read (fst f) = Some (read_back (snd f))" if "f \<in> set (fs_fields fs)" for f
    using that by (intro map_of_is_SomeI) (auto simp: split_beta image_iff)
  moreover have "map_of m (fst f) = Some (read_back (snd f))" if "f \<in> set (fs_fields fs)" for f
    using m(3) val[OF that] that unfolding wr(2) by simp
  moreover have "map_of m k = None \<and> map_of ?read k = None" if "k \<notin> fst ` set (fs_fields fs)" for k
    using m(4) that unfolding wr(2) by (auto simp: map_of_eq_None_iff image_image split_beta)
  ultimately have "map_of m k = map_of ?read k" for k
    by (cases "k \<in> fst ` set (fs_fields fs)") auto
  moreover have "bt_wf ?read" using assms(2) by (simp add: bt_wf_def comp_def split_beta)
  ultimately have "m = ?read" using m(2) by (intro bt_eqI) auto
  moreover have "int n \<le> i64_max"
    using assms(1) by (auto simp: write_facts_cas_def revision_to_i64_def split: if_splits)
  ultimately show ?thesis using m(1) ne by (simp add: get_facts_def i64_max_def)
qed

section \<open>Examples\<close>

definition demo_facts :: "string \<Rightarrow> facts" where
  "demo_facts name = \<lparr>fs_entity = demo_entity,
     fs_fields = [(''name'', Text name), (''tags'', RefList [''sweet'', ''cold''])], fs_revision = 1\<rparr>"

lemmas fact_eval = write_facts_cas_def revision_to_i64_def i64_max_def write_fact_def fact_upsert_def
  fact_row_of_def fact_columns_def fact_key_def fact_set_def sql_first_def sql_update_def sql_delete_def
  demo_facts_def to_key_def demo_entity_def empty_db_def

lemma demo_facts_write:
  "\<exists>d1. write_facts_cas (demo_facts ''a'') 1 0 empty_db = Inr d1 \<and>
     (\<exists>d2. write_facts_cas (demo_facts ''b'') 2 0 d1 = Inr d2)"
  "\<exists>d1. write_facts_cas (demo_facts ''b'') 2 0 empty_db = Inr d1 \<and>
     (\<exists>d2. write_facts_cas (demo_facts ''a'') 1 0 d1 = Inr d2)"
  by (simp_all add: fact_eval)

lemma demo_facts_wf: "bt_wf (fs_fields (demo_facts s))"
  by (simp add: bt_wf_def demo_facts_def less_list_code)

theorem write_facts_converge_witness:
  "\<exists>d1 d12 d2 d21. write_facts_cas (demo_facts ''a'') 1 0 empty_db = Inr d1
     \<and> write_facts_cas (demo_facts ''b'') 2 0 d1 = Inr d12
     \<and> write_facts_cas (demo_facts ''b'') 2 0 empty_db = Inr d2
     \<and> write_facts_cas (demo_facts ''a'') 1 0 d2 = Inr d21 \<and> fact_map d12 = fact_map d21"
  using demo_facts_write write_facts_converge[of 1 2 "demo_facts ''a''" 0 empty_db _ "demo_facts ''b''" 0]
  by (metis one_eq_numeral_iff semiring_norm(83))

theorem write_facts_cas_per_field_witness:
  "\<exists>d1. write_facts_cas (demo_facts ''a'') 1 0 empty_db = Inr d1 \<and>
     fact_map d1 (''milk:drink:boba'', ''name'') = Some (fact_row_of ''milk:drink:boba'' 1 0 ''name'' (Text ''a''))"
proof -
  obtain d1 where d1: "write_facts_cas (demo_facts ''a'') 1 0 empty_db = Inr d1"
    using demo_facts_write(1) by blast
  show ?thesis
    using write_facts_cas_per_field[OF d1 demo_facts_wf] d1
    by (simp add: demo_facts_def newer_def fact_map_def empty_db_def sql_first_def to_key_def
        demo_entity_def)
qed

theorem references_outlive_type_change_witness:
  "\<exists>d1 d2. write_fact ''e'' 1 0 (''tags'', RefList [''milk'']) empty_db = Inr d1
     \<and> write_fact ''e'' 2 0 (''tags'', Text ''none'') d1 = Inr d2
     \<and> fact_map d2 (''e'', ''tags'') = Some (fact_row_of ''e'' 2 0 ''tags'' (Text ''none''))
     \<and> has_ref d2 ''e'' ''tags'' [''milk'']"
proof -
  obtain d1 d2 where 1: "write_fact ''e'' 1 0 (''tags'', RefList [''milk'']) empty_db = Inr d1"
    and 2: "write_fact ''e'' 2 0 (''tags'', Text ''none'') d1 = Inr d2"
    and n: "newer (fact_row_of ''e'' 2 0 ''tags'' (Text ''none'')) (fact_map d1 (''e'', ''tags''))"
    and r: "has_ref d1 ''e'' ''tags'' [''milk'']"
    by (simp add: fact_eval newer_def fact_map_def has_ref_def sql_exists_def)
  show ?thesis using references_outlive_type_change[OF 2 _ n] 1 2 r by auto
qed

theorem get_facts_reads_back_witness:
  "\<exists>d1. write_facts_cas (demo_facts ''a'') 1 0 empty_db = Inr d1 \<and>
     get_facts demo_entity d1 = Inr (Some \<lparr>fs_entity = demo_entity,
       fs_fields = [(''name'', Text ''a''), (''tags'', RefList [''cold'', ''sweet''])], fs_revision = 1\<rparr>)"
proof -
  obtain d1 where d1: "write_facts_cas (demo_facts ''a'') 1 0 empty_db = Inr d1"
    using demo_facts_write(1) by blast
  have "snapshot_newer (demo_facts ''a'') 1 empty_db" by (simp add: snapshot_newer_def empty_db_def)
  moreover have "keyed fact_key (db_facts empty_db)" by (simp add: keyed_def empty_db_def)
  ultimately show ?thesis
    using get_facts_reads_back[OF d1 demo_facts_wf] d1
    by (simp add: demo_facts_def read_back_def less_eq_list_code)
qed

section \<open>What a filter admits\<close>

text \<open>
  What a condition asks for, read on the fact map: the field's one row, whose number lies between the
  bounds, and the set of its references. It is the specification the SQL is compared with.
\<close>

definition bound_ok :: "(flt \<Rightarrow> flt \<Rightarrow> bool) \<Rightarrow> flt option \<Rightarrow> flt option \<Rightarrow> bool" where
  "bound_ok cmp column bound =
     (case bound of None \<Rightarrow> True
      | Some m \<Rightarrow> (case column of None \<Rightarrow> False | Some x \<Rightarrow> cmp x m))"

definition ranges_finite :: "filters \<Rightarrow> bool" where
  "ranges_finite fs \<longleftrightarrow> (\<forall>name lo hi. NumericRange name lo hi \<in> set fs \<longrightarrow> pred_option is_finite lo \<and> pred_option is_finite hi)"

definition entity_matches :: "db \<Rightarrow> string \<Rightarrow> filter_condition \<Rightarrow> bool" where
  "entity_matches d entity c =
     (case c of
        NumericRange name lo hi \<Rightarrow> lo = None \<and> hi = None \<or>
          (case fact_map d (entity, name) of None \<Rightarrow> False
           | Some f \<Rightarrow> bound_ok f_ge (fa_numeric f) lo \<and> bound_ok f_le (fa_numeric f) hi)
      | TextEquals name v \<Rightarrow>
          (case fact_map d (entity, name) of None \<Rightarrow> False | Some f \<Rightarrow> fa_text f = Some v)
      | RefContains name refs \<Rightarrow> set (field_refs entity name (db_refs d)) \<inter> set refs \<noteq> {}
      | RefExcludes name refs \<Rightarrow> set (field_refs entity name (db_refs d)) \<inter> set refs = {})"

lemma exists_row_iff:
  assumes "keyed fact_key (db_facts d)"
  shows "sql_exists (\<lambda>f. fa_entity f = entity \<and> fa_field f = name \<and> P f) (db_facts d) \<longleftrightarrow>
    (case fact_map d (entity, name) of None \<Rightarrow> False | Some f \<Rightarrow> P f)"
proof (cases "fact_map d (entity, name)")
  case None
  then have "\<forall>f\<in>set (db_facts d). \<not> (fa_entity f = entity \<and> fa_field f = name)"
    by (auto simp: fact_map_def sql_first_None fact_key_def)
  with None show ?thesis by (auto simp: sql_exists_iff)
next
  case (Some f)
  then have f: "f \<in> set (db_facts d)" "fact_key f = (entity, name)"
    by (auto simp: fact_map_def dest: sql_first_SomeD)
  from f(2) have fe: "fa_entity f = entity" "fa_field f = name" by (simp_all add: fact_key_def)
  have "g = f" if "g \<in> set (db_facts d)" "fa_entity g = entity" "fa_field g = name" for g
    using keyed_unique[OF assms that(1) f(1)] that(2,3) f(2) by (simp add: fact_key_def)
  with f(1) fe have "(\<exists>g\<in>set (db_facts d). fa_entity g = entity \<and> fa_field g = name \<and> P g) \<longleftrightarrow> P f"
    by blast
  with Some show ?thesis by (simp add: sql_exists_iff)
qed

lemma has_ref_iff: "has_ref d entity name refs \<longleftrightarrow> set (field_refs entity name (db_refs d)) \<inter> set refs \<noteq> {}"
proof -
  have "set (field_refs entity name rows) = {v. (entity, name, v) \<in> set rows}" for rows
    by (induction rows) (auto simp: field_refs_def)
  moreover have "has_ref d entity name refs \<longleftrightarrow> (\<exists>v\<in>set refs. (entity, name, v) \<in> set (db_refs d))"
    unfolding has_ref_def sql_exists_iff by (metis fst_conv prod.collapse snd_conv)
  ultimately show ?thesis by auto
qed

lemma columns_finite [simp]:
  "pred_option is_finite b \<Longrightarrow> column_ge col b = bound_ok f_ge col b"
  "pred_option is_finite b \<Longrightarrow> column_le col b = bound_ok f_le col b"
  by (auto simp: column_ge_def column_le_def bound_ok_def split: option.split)

lemma filter_clause_matches:
  assumes "keyed fact_key (db_facts d)" "c \<in> set fs" "ranges_finite fs"
  shows "(case filter_clause c of None \<Rightarrow> True | Some w \<Rightarrow> w d entity) = entity_matches d entity c"
proof (cases c)
  case (NumericRange name lo hi)
  then have "pred_option is_finite lo" "pred_option is_finite hi" using assms(2,3) by (auto simp: ranges_finite_def)
  with NumericRange show ?thesis
    using exists_row_iff[OF assms(1), of entity name
        "\<lambda>f. bound_ok f_ge (fa_numeric f) lo \<and> bound_ok f_le (fa_numeric f) hi"]
    by (auto simp: filter_clause_def entity_matches_def)
next
  case (TextEquals name v)
  then show ?thesis using exists_row_iff[OF assms(1), of entity name "\<lambda>f. fa_text f = Some v"]
    by (simp add: filter_clause_def entity_matches_def)
qed (simp_all add: filter_clause_def entity_matches_def has_ref_iff)

lemma filter_where_matches:
  assumes "keyed fact_key (db_facts d)" "ranges_finite fs" "filter_where fs = Some w"
  shows "w d entity \<longleftrightarrow> (\<forall>c\<in>set fs. entity_matches d entity c)"
proof -
  have "list_all (\<lambda>w. w d entity) (List.map_filter filter_clause cs)
      \<longleftrightarrow> (\<forall>c\<in>set cs. entity_matches d entity c)" if "set cs \<subseteq> set fs" for cs
    using that
    by (induction cs)
      (use filter_clause_matches[OF assms(1) _ assms(2), where entity = entity] in
        \<open>force simp: List.map_filter_simps split: option.splits\<close>)+
  from this[of fs] show ?thesis using assms(3) by (auto simp: filter_where_def Let_def split: if_splits)
qed

lemma no_infinite_bound:
  "\<not> is_finite m \<Longrightarrow> filter_where [NumericRange name (Some m) hi] = Some (\<lambda>d entity. False)"
  "filter_rows (\<lambda>e. False) d = []"
proof -
  show "filter_where [NumericRange name (Some m) hi] = Some (\<lambda>d entity. False)" if "\<not> is_finite m"
    using that
    by (simp add: filter_where_def filter_clause_def List.map_filter_simps sql_exists_iff column_ge_def fun_eq_iff
        split: option.split)
qed (simp add: filter_rows_def)

lemma map_from_key: "map from_key ks = map Inr ids \<Longrightarrow> ks = map to_key ids"
  by (induction ks arbitrary: ids) (auto simp: Cons_eq_map_conv to_key_from_key)

text \<open>
  C33. A filter with an effective condition, whose ranges have finite bounds, returns exactly the entities
  that have facts and meet every condition, as long as at most 10000 entities have facts, the fact table keeps
  its primary key and every stored entity key parses. A range with an infinite lower bound is no such filter:
  the bound is compared as a text, which is above every number, so it matches no entity at all.
\<close>

theorem store_filter_exact:
  assumes "keyed fact_key (db_facts d)" "ranges_finite fs" "filter_where fs = Some w"
    and "card (fa_entity ` set (db_facts d)) \<le> 10000"
    and "store_filter fs d = Inr ids"
  shows "to_key ` set ids = {e \<in> fa_entity ` set (db_facts d). \<forall>c\<in>set fs. entity_matches d e c}
    \<and> (\<forall>name m hi. \<not> is_finite m \<longrightarrow> store_filter [NumericRange name (Some m) hi] d = Inr [])"
proof -
  let ?rows = "remdups (filter (w d) (map fa_entity (db_facts d)))"
  have ne: "fs \<noteq> []" using assms(3) by (auto simp: filter_where_def List.map_filter_simps)
  have "length ?rows = card (set ?rows)" by (simp add: length_remdups_card_conv)
  also have "\<dots> \<le> card (fa_entity ` set (db_facts d))" by (intro card_mono) auto
  finally have all: "filter_rows (w d) d = ?rows" using assms(4) by (simp add: filter_rows_def)
  then have "map from_key ?rows = map Inr ids"
    using assms(3,5) ne by (simp add: store_filter_def collect_results_eq_Inr)
  then have "?rows = map to_key ids"
    by (rule map_from_key)
  then have "to_key ` set ids = set ?rows" by (metis list.set_map)
  moreover have "store_filter [NumericRange name (Some m) hi] d = Inr []" if "\<not> is_finite m" for name m hi
    using that by (simp add: store_filter_def no_infinite_bound)
  ultimately show ?thesis using filter_where_matches[OF assms(1-3)] by auto
qed

text \<open>
  Conditions without a constraint (a range open at both ends, an exclusion of nothing)
  match every entity, but a filter made only of them is an internal error of \<^verbatim>\<open>filter\<close> and has
  no page candidate.
\<close>

theorem vacuous_filters_rejected:
  assumes "fs \<noteq> []" "\<forall>c\<in>set fs. (\<exists>name. c = NumericRange name None None) \<or> (\<exists>name. c = RefExcludes name [])"
  shows "(\<forall>e. \<forall>c\<in>set fs. entity_matches d e c) \<and> store_filter fs d = Inl Internal
    \<and> filter_page_candidates fs d = Inr []"
proof -
  have "filter_clause c = None" if "c \<in> set fs" for c
    using assms(2) that by (auto simp: filter_clause_def)
  then have "List.map_filter filter_clause fs = []"
    by (induction fs) (auto simp: List.map_filter_simps)
  then have "filter_where fs = None" by (simp add: filter_where_def)
  with assms show ?thesis
    by (auto simp: store_filter_def filter_page_candidates_def entity_matches_def)
qed

theorem vacuous_filters_rejected_witness:
  "store_filter [NumericRange ''price'' None None] empty_db = Inl Internal"
  using vacuous_filters_rejected[of "[NumericRange ''price'' None None]" empty_db] by simp

theorem store_filter_exact_witness:
  "\<exists>d ids. store_filter [TextEquals ''name'' ''a''] d = Inr ids \<and> ids = [demo_entity] \<and>
     to_key ` set ids = {e \<in> fa_entity ` set (db_facts d). entity_matches d e (TextEquals ''name'' ''a'')}"
proof -
  obtain d where d: "write_facts_cas (demo_facts ''a'') 1 0 empty_db = Inr d"
    and ent: "fa_entity ` set (db_facts d) = {''milk:drink:boba''}"
    and ids: "store_filter [TextEquals ''name'' ''a''] d = Inr [demo_entity]"
    by (simp add: fact_eval store_filter_def filter_where_def filter_clause_def List.map_filter_simps
        filter_rows_def sql_exists_def from_key_def numeral_3_eq_3 entity_id_new_def entity_component_ok_def)
  have k: "keyed fact_key (db_facts d)"
    using write_facts_cas_only[OF d] by (simp add: facts_only_def keyed_def empty_db_def)
  obtain w where w: "filter_where [TextEquals ''name'' ''a''] = Some w"
    by (simp add: filter_where_def filter_clause_def List.map_filter_simps)
  have "card (fa_entity ` set (db_facts d)) \<le> 10000" by (simp add: ent)
  moreover have "ranges_finite [TextEquals ''name'' ''a'']" by (simp add: ranges_finite_def)
  ultimately show ?thesis
    using store_filter_exact[OF k _ w _ ids] ids by (intro exI[of _ d] exI[of _ "[demo_entity]"]) simp
qed

end
