(* ===== verification/Admission.thy ===== *)
theory Admission
  imports Facts_Store
begin

text \<open>
  Admission (\<^verbatim>\<open>admit_compile_on_conn\<close>, \<^verbatim>\<open>record_skipped_task\<close>, \<^verbatim>\<open>upsert_source_head\<close> of
  \<^verbatim>\<open>kernel/compile_store.rs\<close>): a prepared snapshot is skipped, rejected or queued under its content
  hash, and the source head moves. Properties: what each decision does to the tables; heads
  never move to an older revision; a queued task is pending under the head's hash.
\<close>

section \<open>The decision\<close>

text \<open>The values every statement of one admission binds.\<close>

record admit_job =
  j_entity :: string
  j_revision :: int
  j_pack :: string
  j_desired :: string
  j_source :: string
  j_deps :: string
  j_snapshot :: string
  j_max_retries :: int
  j_budget :: int
  j_now :: int

definition job_key :: "admit_job \<Rightarrow> string \<times> int \<times> string" where
  "job_key j = (j_entity j, j_revision j, j_pack j)"

definition new_task :: "admit_job \<Rightarrow> int \<Rightarrow> task_status \<Rightarrow> task_result option \<Rightarrow> task_row" where
  "new_task j i st res =
     \<lparr>t_id = i, t_entity = j_entity j, t_revision = j_revision j, t_pack = j_pack j, t_status = st,
      t_retries = 0, t_max_retries = j_max_retries j, t_expires = None, t_error = None,
      t_created = j_now j, t_updated = j_now j, t_desired = j_desired j, t_epoch = 1,
      t_source = j_source j, t_deps = j_deps j, t_snapshot = j_snapshot j, t_recompiles = 0,
      t_attempts = 0, t_token = None, t_next_at = 0, t_result = res, t_reserved = 0,
      t_budget = j_budget j\<rparr>"

text \<open>\<^verbatim>\<open>upsert_source_head\<close>.\<close>

definition head_set :: "head_row \<Rightarrow> head_row \<Rightarrow> head_row" where
  "head_set new h =
     h\<lparr>h_revision := h_revision new, h_snapshot := h_snapshot new, h_desired := h_desired new,
       h_task := h_task new, h_epoch := h_epoch new, h_updated := h_updated new\<rparr>"

definition upsert_source_head :: "admit_job \<Rightarrow> int \<Rightarrow> int \<Rightarrow> db \<Rightarrow> db" where
  "upsert_source_head j task epoch d =
     (let new = \<lparr>h_entity = j_entity j, h_revision = j_revision j, h_snapshot = j_snapshot j,
                 h_desired = j_desired j, h_task = task, h_epoch = epoch, h_updated = j_now j\<rparr>
      in d\<lparr>db_heads := sql_upsert h_entity new (head_set new) (db_heads d)\<rparr>)"

text \<open>\<^verbatim>\<open>record_skipped_task\<close>: a succeeded and skipped task, new or in place of the old one.\<close>

definition skip_set :: "int \<Rightarrow> task_row \<Rightarrow> task_row" where
  "skip_set now t =
     t\<lparr>t_status := Succeeded, t_result := Some RSkipped, t_error := None, t_token := None,
       t_expires := Some 0, t_next_at := 0, t_updated := now\<rparr>"

definition find_task :: "admit_job \<Rightarrow> db \<Rightarrow> task_row option" where
  "find_task j d = sql_first (\<lambda>t. task_key t = job_key j) (db_tasks d)"

definition insert_task :: "task_row \<Rightarrow> db \<Rightarrow> db" where
  "insert_task t d = d\<lparr>db_tasks := db_tasks d @ [t], db_task_seq := t_id t\<rparr>"

definition update_tasks :: "(task_row \<Rightarrow> bool) \<Rightarrow> (task_row \<Rightarrow> task_row) \<Rightarrow> db \<Rightarrow> db" where
  "update_tasks P f d = d\<lparr>db_tasks := sql_update P f (db_tasks d)\<rparr>"

definition record_skipped_task :: "admit_job \<Rightarrow> db \<Rightarrow> int \<times> int \<times> db" where
  "record_skipped_task j d =
     (case find_task j d of
        None \<Rightarrow> (db_task_seq d + 1, 1,
                 insert_task (new_task j (db_task_seq d + 1) Succeeded (Some RSkipped)) d)
      | Some t \<Rightarrow> (t_id t, t_epoch t, update_tasks (\<lambda>t. task_key t = job_key j) (skip_set (j_now j)) d))"

text \<open>The two updates of an existing task: a refresh of its columns, or a new epoch.\<close>

definition refresh_set :: "admit_job \<Rightarrow> task_row \<Rightarrow> task_row" where
  "refresh_set j t =
     t\<lparr>t_source := j_source j, t_deps := j_deps j, t_snapshot := j_snapshot j, t_updated := j_now j\<rparr>"

definition requeue_set :: "admit_job \<Rightarrow> task_row \<Rightarrow> task_row" where
  "requeue_set j t =
     t\<lparr>t_status := Pending, t_desired := j_desired j, t_epoch := t_epoch t + 1,
       t_source := j_source j, t_deps := j_deps j, t_snapshot := j_snapshot j,
       t_recompiles := 0, t_attempts := 0, t_retries := 0, t_result := None, t_next_at := 0,
       t_token := None, t_expires := None, t_error := None,
       t_max_retries := j_max_retries j, t_budget := j_budget j, t_updated := j_now j\<rparr>"

definition admit_task :: "admit_job \<Rightarrow> bool \<Rightarrow> db \<Rightarrow> admission \<times> db" where
  "admit_task j force d =
     (case find_task j d of
        Some t \<Rightarrow>
          if t_desired t = j_desired j \<and> \<not> force then
            (if t_status t = Pending \<or> t_status t = Running then
               (Queued (t_id t),
                upsert_source_head j (t_id t) (t_epoch t)
                  (update_tasks (\<lambda>r. t_id r = t_id t) (refresh_set j) d))
             else (Skipped, upsert_source_head j (t_id t) (t_epoch t) d))
          else
            (Queued (t_id t),
             upsert_source_head j (t_id t) (t_epoch t + 1)
               (update_tasks (\<lambda>r. t_id r = t_id t) (requeue_set j) d))
      | None \<Rightarrow>
          (let i = db_task_seq d + 1
           in (Queued i, upsert_source_head j i 1 (insert_task (new_task j i Pending None) d))))"

text \<open>The newest accepted page of the entity.\<close>

definition accepted_page :: "string \<Rightarrow> db \<Rightarrow> page_row option" where
  "accepted_page entity d =
     sql_first_by (\<lambda>p. (- pg_generation p, - pg_updated p))
       (\<lambda>p. pg_entity p = entity \<and> pg_status p = AcceptedPage) (db_pages d)"

definition admit_job_on :: "compile_policy \<Rightarrow> bool \<Rightarrow> admit_job \<Rightarrow> db \<Rightarrow> admission \<times> db" where
  "admit_job_on policy force j d =
     (case accepted_page (j_entity j) d of
        Some p \<Rightarrow>
          if \<not> force \<and> pg_hash p = j_desired j \<and> pg_artifact p = cpl_artifact_version policy then
            (if j_revision j > pg_revision p then
               (case record_skipped_task j d of
                  (task, epoch, d1) \<Rightarrow> (Skipped, upsert_source_head j task epoch d1))
             else (Skipped, d))
          else admit_task j force d
      | None \<Rightarrow> admit_task j force d)"

definition admit_identity ::
  "ext \<Rightarrow> prepared_source \<Rightarrow> compile_context \<Rightarrow> compile_policy \<Rightarrow> entity_schema \<Rightarrow> bool
   \<Rightarrow> int \<Rightarrow> int \<Rightarrow> db \<Rightarrow> (admission \<times> db) result" where
  "admit_identity X ps ctx policy schema force revision now d =
     try_bind (content_hash X (ps_knowledge ps) ctx policy schema) (\<lambda>desired.
     Inr (admit_job_on policy force
       \<lparr>j_entity = to_key (raw_id (ps_full ps)), j_revision = revision,
        j_pack = cx_pack_version ctx, j_desired = desired,
        j_source = x_source_text X (ps_knowledge ps),
        j_deps = x_deps_text X \<lparr>sd_context = ctx, sd_policy = policy, sd_schema = schema_to_value schema\<rparr>,
        j_snapshot = ps_snapshot ps, j_max_retries = int (cpl_max_retries policy),
        j_budget = as_i64_cast (cpl_task_budget policy), j_now = now\<rparr> d))"

definition admit_compile_on_conn ::
  "ext \<Rightarrow> prepared_source \<Rightarrow> compile_context \<Rightarrow> compile_policy \<Rightarrow> entity_schema \<Rightarrow> bool
   \<Rightarrow> int \<Rightarrow> db \<Rightarrow> (admission \<times> db) result" where
  "admit_compile_on_conn X ps ctx policy schema force now d =
     try_bind (revision_to_i64 (raw_revision (ps_full ps))) (\<lambda>revision.
     case sql_first (\<lambda>h. h_entity h = to_key (raw_id (ps_full ps))) (db_heads d) of
       Some h \<Rightarrow>
         if revision < h_revision h then Inr (Skipped, d)
         else if revision = h_revision h \<and> ps_snapshot ps \<noteq> h_snapshot h then
           Inr (Rejected ''source_revision_conflict'', d)
         else try_bind
                (if revision > h_revision h
                 then write_facts_cas (ps_facts ps) (raw_revision (ps_full ps)) now d else Inr d)
                (admit_identity X ps ctx policy schema force revision now)
     | None \<Rightarrow>
         try_bind (write_facts_cas (ps_facts ps) (raw_revision (ps_full ps)) now d)
           (admit_identity X ps ctx policy schema force revision now))"

definition admit_compile ::
  "ext \<Rightarrow> prepared_source \<Rightarrow> compile_context \<Rightarrow> compile_policy \<Rightarrow> entity_schema \<Rightarrow> bool
   \<Rightarrow> int \<Rightarrow> db \<Rightarrow> admission result \<times> db" where
  "admit_compile X ps ctx policy schema force now =
     immediate_transaction (admit_compile_on_conn X ps ctx policy schema force now)"

end
