(* ===== verification/Claim.thy ===== *)
theory Claim
  imports Admission
begin

text \<open>
  Claiming and renewing leases (\<^verbatim>\<open>claim_in_transaction\<close>, \<^verbatim>\<open>claim_compile\<close>, \<^verbatim>\<open>heartbeat_compile\<close> of
  \<^verbatim>\<open>kernel/compile_store.rs\<close>, \<^verbatim>\<open>SQL_CLAIM_NEXT\<close> of \<^verbatim>\<open>schema/tasks.rs\<close>): the next due task gets a
  lease of five minutes, an attempt row, and a token reservation on the task, the run and the
  day. The fresh uuid of a lease is an argument.
\<close>

definition lease_window_seconds :: int where "lease_window_seconds = 300"

section \<open>Choosing a task\<close>

definition claimable :: "int list \<Rightarrow> int \<Rightarrow> task_row \<Rightarrow> bool" where
  "claimable ids now t =
     (t_id t \<in> set ids \<and> t_status t = Pending \<and> t_next_at t \<le> now \<and> t_retries t < t_max_retries t)"

definition claim_next :: "int list \<Rightarrow> int \<Rightarrow> db \<Rightarrow> task_row option" where
  "claim_next ids now d = sql_first_by (\<lambda>t. (t_next_at t, t_id t)) (claimable ids now) (db_tasks d)"

section \<open>Budgets\<close>

definition open_run :: "string \<Rightarrow> int \<Rightarrow> int \<Rightarrow> db \<Rightarrow> db" where
  "open_run run limit now d =
     d\<lparr>db_runs := fst (sql_insert_ignore r_id
         \<lparr>r_id = run, r_limit = limit, r_reserved = 0, r_created = now\<rparr> (db_runs d))\<rparr>"

definition day_limit_set :: "int \<Rightarrow> day_row \<Rightarrow> day_row" where
  "day_limit_set limit r = r\<lparr>d_limit := min (d_limit r) limit\<rparr>"

definition open_day :: "int \<Rightarrow> nat option \<Rightarrow> db \<Rightarrow> db" where
  "open_day day daily d =
     (case daily of
        None \<Rightarrow> d
      | Some limit \<Rightarrow>
          d\<lparr>db_days := sql_upsert d_day
              \<lparr>d_day = day, d_limit = as_i64_cast limit, d_reserved = 0\<rparr>
              (day_limit_set (as_i64_cast limit)) (db_days d)\<rparr>)"

definition find_run :: "string \<Rightarrow> db \<Rightarrow> run_row option" where
  "find_run run d = sql_first (\<lambda>r. r_id r = run) (db_runs d)"

definition find_day :: "int \<Rightarrow> db \<Rightarrow> day_row option" where
  "find_day day d = sql_first (\<lambda>r. d_day r = day) (db_days d)"

definition reserve_task :: "int \<Rightarrow> task_row \<Rightarrow> task_row" where
  "reserve_task b t = t\<lparr>t_reserved := t_reserved t + b\<rparr>"

definition reserve_run :: "int \<Rightarrow> run_row \<Rightarrow> run_row" where
  "reserve_run b r = r\<lparr>r_reserved := r_reserved r + b\<rparr>"

definition reserve_day :: "int \<Rightarrow> day_row \<Rightarrow> day_row" where
  "reserve_day b r = r\<lparr>d_reserved := d_reserved r + b\<rparr>"

text \<open>The three additions; a day without a row is not charged.\<close>

definition reserve_tokens :: "int \<Rightarrow> int \<Rightarrow> string \<Rightarrow> int \<Rightarrow> db \<Rightarrow> db" where
  "reserve_tokens b task run day d =
     d\<lparr>db_tasks := sql_update (\<lambda>t. t_id t = task) (reserve_task b) (db_tasks d),
       db_runs := sql_update (\<lambda>r. r_id r = run) (reserve_run b) (db_runs d),
       db_days := sql_update (\<lambda>r. d_day r = day) (reserve_day b) (db_days d)\<rparr>"

section \<open>The claim\<close>

definition running_set :: "int \<Rightarrow> string \<Rightarrow> task_row \<Rightarrow> task_row" where
  "running_set now token t =
     t\<lparr>t_status := Running, t_expires := Some (now + lease_window_seconds), t_token := Some token,
       t_attempts := t_attempts t + 1\<rparr>"

definition new_attempt :: "task_row \<Rightarrow> int \<Rightarrow> string \<Rightarrow> string \<Rightarrow> int \<Rightarrow> int \<Rightarrow> int \<Rightarrow> attempt_row" where
  "new_attempt t no token run day b now =
     \<lparr>a_task = t_id t, a_epoch = t_epoch t, a_no = no, a_token = token, a_status = Reserved,
      a_publish = None, a_run = Some run, a_day = Some day, a_artifact = None, a_quality = None,
      a_issues = ''[]'', a_reserved = b, a_error = None, a_created = now, a_finished = None,
      a_consistency = ''{}''\<rparr>"

definition insert_attempt :: "attempt_row \<Rightarrow> db \<Rightarrow> db result" where
  "insert_attempt a d =
     (if sql_exists (\<lambda>r. attempt_key r = attempt_key a) (db_attempts d) then Inl Database
      else Inr (d\<lparr>db_attempts := db_attempts d @ [a]\<rparr>))"

definition grant_lease ::
  "task_row \<Rightarrow> raw_entity \<Rightarrow> stored_deps \<Rightarrow> int \<Rightarrow> string \<Rightarrow> string \<Rightarrow> int \<Rightarrow> db
   \<Rightarrow> (task_lease option \<times> db) result" where
  "grant_lease t source deps b run token now d =
     try_bind (ok_or Internal (checked_add (t_attempts t) 1)) (\<lambda>no.
     try_bind (insert_attempt (new_attempt t no token run (now div 86400) b now)
                 (reserve_tokens b (t_id t) run (now div 86400) d)) (\<lambda>d1.
     let P = (\<lambda>r. t_id r = t_id t \<and> t_status r = Pending \<and> t_epoch r = t_epoch t)
     in if sql_count P (db_tasks d1) \<noteq> 1 then Inl Internal
        else if no < 0 \<or> no \<ge> 2 ^ 32 then Inl Internal
        else Inr (Some \<lparr>tl_task = t_id t, tl_epoch = t_epoch t, tl_token = token,
                        tl_hash = t_desired t, tl_attempt = nat no, tl_source = source,
                        tl_context = sd_context deps\<rparr>,
                  update_tasks P (running_set now token) d1)))"

definition claim_in_transaction ::
  "ext \<Rightarrow> int list \<Rightarrow> string \<Rightarrow> string \<Rightarrow> int \<Rightarrow> db \<Rightarrow> (task_lease option \<times> db) result" where
  "claim_in_transaction X ids run token now d =
     (case claim_next ids now d of
        None \<Rightarrow> Inr (None, d)
      | Some t \<Rightarrow>
          try_bind (ok_or Serialization (x_parse_source X (t_source t))) (\<lambda>source.
          try_bind (ok_or Serialization (x_parse_deps X (t_deps t))) (\<lambda>deps.
          try_bind (estimate_budget_units (cx_prompt (sd_context deps)) (t_source t)
                      (cpl_max_output (sd_policy deps))) (\<lambda>b.
          try_bind (fits (t_reserved t) b (t_budget t)) (\<lambda>task_fits.
          if \<not> task_fits then Inr (None, d)
          else let d1 = open_run run (as_i64_cast (cpl_batch_budget (sd_policy deps))) now d in
          try_bind (ok_or Database (find_run run d1)) (\<lambda>r.
          try_bind (fits (r_reserved r) b (r_limit r)) (\<lambda>run_fits.
          if \<not> run_fits then Inr (None, d1)
          else let d2 = open_day (now div 86400) (cpl_daily_budget (sd_policy deps)) d1 in
          try_bind (case find_day (now div 86400) d2 of
                      None \<Rightarrow> Inr True | Some day \<Rightarrow> fits (d_reserved day) b (d_limit day)) (\<lambda>day_fits.
          if \<not> day_fits then Inr (None, d2)
          else grant_lease t source deps b run token now d2))))))))"

definition claim_compile ::
  "ext \<Rightarrow> int list \<Rightarrow> string \<Rightarrow> string \<Rightarrow> int \<Rightarrow> db \<Rightarrow> task_lease option result \<times> db" where
  "claim_compile X ids run token now d =
     (if ids = [] then (Inr None, d)
      else immediate_transaction (claim_in_transaction X ids run token now) d)"

section \<open>Heartbeat\<close>

text \<open>A lease is live while its task runs in its epoch under its token and has not expired.\<close>

definition live_task :: "task_lease \<Rightarrow> int \<Rightarrow> task_row \<Rightarrow> bool" where
  "live_task l now t =
     (t_status t = Running \<and> t_epoch t = tl_epoch l \<and> t_token t = Some (tl_token l)
      \<and> (case t_expires t of None \<Rightarrow> False | Some e \<Rightarrow> e > now))"

definition heartbeat_set :: "int \<Rightarrow> task_row \<Rightarrow> task_row" where
  "heartbeat_set now t = t\<lparr>t_expires := Some (now + lease_window_seconds)\<rparr>"

definition heartbeat_compile :: "task_lease \<Rightarrow> int \<Rightarrow> db \<Rightarrow> bool \<times> db" where
  "heartbeat_compile l now d =
     (let P = (\<lambda>t. t_id t = tl_task l \<and> live_task l now t)
      in (sql_count P (db_tasks d) = 1, update_tasks P (heartbeat_set now) d))"

end
