(* ===== verification/Publish.thy ===== *)
theory Publish
  imports Claim
begin

text \<open>
  Publication (\<^verbatim>\<open>publish_in_transaction\<close> and its helpers in \<^verbatim>\<open>kernel/compile_store.rs\<close>): a live
  lease whose task is still the head's choice writes the page, its sections, quality, edges
  and generation, completes the attempt and ends the task, in one transaction. A second call
  with the same lease answers from the attempt; any other lease is stale.
\<close>

section \<open>Artifacts\<close>

definition serialized_artifact :: "ext \<Rightarrow> compiled_page \<Rightarrow> string result" where
  "serialized_artifact X page =
     (let t = x_page_text X page
      in if length t > max_artifact_bytes then Inl Compilation else Inr t)"

definition build_frontmatter_json :: "ext \<Rightarrow> compiled_page \<Rightarrow> stored_deps \<Rightarrow> string result" where
  "build_frontmatter_json X page deps =
     (case cp_evidence page of
        None \<Rightarrow> Inl Compilation
      | Some evidence \<Rightarrow>
          Inr (x_json_text X
            (JObj [(''aliases'', strings_json (wp_aliases (cp_wiki page))),
                   (''quality_policy'',
                     JObj [(''artifact_version'', JStr (cpl_artifact_version (sd_policy deps))),
                           (''min_coverage'', f32_json (cpl_min_coverage (sd_policy deps))),
                           (''min_density'', f32_json (cpl_min_density (sd_policy deps))),
                           (''quality_threshold'', f32_json (cx_threshold (sd_context deps))),
                           (''require_source_refs'', JBool (cx_require_refs (sd_context deps))),
                           (''scorer_version'', JStr (cpl_scorer_version (sd_policy deps)))]),
                   (''refs'', JArr (map (x_ref_json X) (concat (map ev_refs (ce_sections evidence))))),
                   (''tags'', strings_json (wp_tags (cp_wiki page))),
                   (''title'', JStr (wp_title (cp_wiki page)))])))"

section \<open>Generations\<close>

text \<open>The sentinel keeps generation 1 for pages seeded before generations existed.\<close>

definition ensure_generation_sentinel :: "db \<Rightarrow> db" where
  "ensure_generation_sentinel d =
     (if db_generations d = [] \<and> sql_exists (\<lambda>p. pg_generation p = 1) (db_pages d) then
        d\<lparr>db_generations := [\<lparr>g_generation = 1, g_pack = ''__legacy__'', g_version = ''seed'',
                              g_published = True, g_created = 0\<rparr>],
          db_gen_seq := max (db_gen_seq d) 1\<rparr>
      else d)"

definition open_generation :: "string \<Rightarrow> string \<Rightarrow> int \<Rightarrow> db \<Rightarrow> int \<times> db" where
  "open_generation pack version now d =
     (let g = db_gen_seq d + 1
      in (g, d\<lparr>db_generations := db_generations d @
                 [\<lparr>g_generation = g, g_pack = pack, g_version = version, g_published = False,
                   g_created = now\<rparr>],
               db_gen_seq := g\<rparr>))"

definition publish_generation :: "int \<Rightarrow> db \<Rightarrow> db" where
  "publish_generation g d =
     d\<lparr>db_generations := sql_update (\<lambda>r. g_generation r = g) (\<lambda>r. r\<lparr>g_published := True\<rparr>) (db_generations d)\<rparr>"

section \<open>The page and its children\<close>

definition page_row_of ::
  "compiled_page \<Rightarrow> stored_deps \<Rightarrow> string \<Rightarrow> int \<Rightarrow> int \<Rightarrow> int \<Rightarrow> page_row" where
  "page_row_of page deps frontmatter revision g now =
     (let w = cp_wiki page in
      \<lparr>pg_id = wp_id w, pg_entity = to_key (wp_entity w), pg_domain = eid_domain (wp_entity w),
       pg_type = eid_type (wp_entity w), pg_title = wp_title w, pg_content = wp_content w,
       pg_hash = cp_hash page, pg_generation = g, pg_status = AcceptedPage,
       pg_pack = pm_pack_version (wp_meta w), pg_compiled = now, pg_model = pm_model (wp_meta w),
       pg_embedding = pm_embedding (wp_meta w), pg_revision = revision,
       pg_artifact = cpl_artifact_version (sd_policy deps), pg_frontmatter = frontmatter,
       pg_created = now, pg_updated = now\<rparr>)"

text \<open>The conflict branch sets every column but the key and the creation time.\<close>

definition page_set :: "page_row \<Rightarrow> page_row \<Rightarrow> page_row" where
  "page_set new p = new\<lparr>pg_id := pg_id p, pg_created := pg_created p\<rparr>"

definition write_page :: "page_row \<Rightarrow> db \<Rightarrow> db" where
  "write_page p d = d\<lparr>db_pages := sql_upsert pg_id p (page_set p) (db_pages d)\<rparr>"

fun insert_sections :: "string \<Rightarrow> nat \<Rightarrow> (string \<times> string) list \<Rightarrow> section_row list \<Rightarrow> section_row list result" where
  "insert_sections page i [] rows = Inr rows"
| "insert_sections page i (s # ss) rows =
     (let new = \<lparr>se_id = page @ ''#'' @ nat_text i, se_page = page, se_heading = fst s,
                 se_content = snd s, se_index = i\<rparr>
      in if sql_exists (\<lambda>r. se_id r = se_id new) rows then Inl Database
         else insert_sections page (Suc i) ss (rows @ [new]))"

definition write_sections :: "wiki_page \<Rightarrow> db \<Rightarrow> db result" where
  "write_sections w d =
     try_bind (insert_sections (wp_id w) 0 (wp_sections w)
                 (sql_delete (\<lambda>r. se_page r = wp_id w) (db_sections d)))
       (\<lambda>rows. Inr (d\<lparr>db_sections := rows\<rparr>))"

text \<open>SQLite stores a NaN as \<^verbatim>\<open>NULL\<close>, which the \<^verbatim>\<open>NOT NULL\<close> columns refuse.\<close>

definition sql_real :: "flt \<Rightarrow> flt option" where
  "sql_real v = (if v = NaN then None else Some v)"

definition quality_row_of :: "string \<Rightarrow> quality_score \<Rightarrow> flt option \<Rightarrow> quality_row" where
  "quality_row_of page q consistency =
     \<lparr>pq_page = page, pq_coverage = f_cast f64 (qs_coverage q), pq_citation = f_cast f64 (qs_citation q),
      pq_schema = f_cast f64 (qs_schema q), pq_density = f_cast f64 (qs_density q),
      pq_consistency = (case consistency of None \<Rightarrow> None | Some s \<Rightarrow> sql_real (f_cast f64 s)),
      pq_overall = f_cast f64 (overall q)\<rparr>"

definition quality_row_ok :: "quality_row \<Rightarrow> bool" where
  "quality_row_ok r =
     (list_all (\<lambda>v. v \<noteq> NaN) [pq_coverage r, pq_citation r, pq_schema r, pq_density r, pq_overall r]
      \<and> (case pq_consistency r of None \<Rightarrow> True | Some s \<Rightarrow> in_unit s))"

definition quality_set :: "quality_row \<Rightarrow> quality_row \<Rightarrow> quality_row" where
  "quality_set new r = new\<lparr>pq_page := pq_page r\<rparr>"

definition write_quality :: "quality_row \<Rightarrow> db \<Rightarrow> db result" where
  "write_quality r d =
     (if quality_row_ok r then Inr (d\<lparr>db_quality := sql_upsert pq_page r (quality_set r) (db_quality d)\<rparr>)
      else Inl Database)"

definition edge_row_of :: "ext \<Rightarrow> string \<Rightarrow> int \<Rightarrow> string \<Rightarrow> qug_edge \<Rightarrow> edge_row" where
  "edge_row_of X page g hash edge =
     \<lparr>e_page = page, e_hash = x_blake3 X (x_edge_text X edge), e_json = x_edge_text X edge,
      e_generation = g, e_content_hash = hash, e_build = None\<rparr>"

definition edge_set :: "edge_row \<Rightarrow> edge_row \<Rightarrow> edge_row" where
  "edge_set new r = r\<lparr>e_json := e_json new, e_generation := e_generation new, e_content_hash := e_content_hash new\<rparr>"

definition write_edges :: "ext \<Rightarrow> compiled_page \<Rightarrow> int \<Rightarrow> db \<Rightarrow> db" where
  "write_edges X page g d =
     d\<lparr>db_edges := fold (\<lambda>e rows. let new = edge_row_of X (wp_id (cp_wiki page)) g (cp_hash page) e
                                  in sql_upsert (\<lambda>r. (e_page r, e_hash r)) new (edge_set new) rows)
         (cp_edges page) (sql_delete (\<lambda>r. e_page r = wp_id (cp_wiki page)) (db_edges d))\<rparr>"

text \<open>Everything a publication writes about the page, under a new generation.\<close>

definition write_page_tables ::
  "ext \<Rightarrow> compiled_page \<Rightarrow> score_report \<Rightarrow> consistency_report option \<Rightarrow> stored_deps \<Rightarrow> string
   \<Rightarrow> int \<Rightarrow> int \<Rightarrow> db \<Rightarrow> (int \<times> db) result" where
  "write_page_tables X page report consistency deps frontmatter revision now d =
     (case open_generation (eid_domain (wp_entity (cp_wiki page))) (cx_pack_version (sd_context deps)) now
             (ensure_generation_sentinel d) of (g, d1) \<Rightarrow>
      let d2 = write_page (page_row_of page deps frontmatter revision g now) d1 in
      try_bind (write_sections (cp_wiki page) d2) (\<lambda>d3.
      try_bind (write_quality (quality_row_of (wp_id (cp_wiki page)) (sc_quality report)
                 (case consistency of None \<Rightarrow> None | Some c \<Rightarrow> cr_score c)) d3) (\<lambda>d4.
      Inr (g, write_edges X page g d4))))"

section \<open>Completing the attempt and the task\<close>

definition lease_attempt :: "task_lease \<Rightarrow> attempt_row \<Rightarrow> bool" where
  "lease_attempt l a =
     (a_task a = tl_task l \<and> a_epoch a = tl_epoch l \<and> a_no a = int (tl_attempt l) \<and> a_token a = tl_token l)"

definition lease_task :: "task_lease \<Rightarrow> task_row \<Rightarrow> bool" where
  "lease_task l t =
     (t_id t = tl_task l \<and> t_epoch t = tl_epoch l \<and> t_token t = Some (tl_token l) \<and> t_status t = Running)"

text \<open>An \<^verbatim>\<open>UPDATE\<close> whose row count must be one.\<close>

definition update_one_attempt :: "task_lease \<Rightarrow> (attempt_row \<Rightarrow> attempt_row) \<Rightarrow> db \<Rightarrow> db result" where
  "update_one_attempt l f d =
     (if sql_count (lease_attempt l) (db_attempts d) \<noteq> 1 then Inl Internal
      else Inr (d\<lparr>db_attempts := sql_update (lease_attempt l) f (db_attempts d)\<rparr>))"

definition update_leased_task :: "task_lease \<Rightarrow> (task_row \<Rightarrow> task_row) \<Rightarrow> db \<Rightarrow> db result" where
  "update_leased_task l f d =
     (if sql_count (lease_task l) (db_tasks d) \<noteq> 1 then Inl Internal
      else Inr (update_tasks (lease_task l) f d))"

definition accept_attempt_set :: "string \<Rightarrow> string \<Rightarrow> string \<Rightarrow> int \<Rightarrow> attempt_row \<Rightarrow> attempt_row" where
  "accept_attempt_set artifact quality consistency now a =
     a\<lparr>a_status := Completed, a_publish := Some AcceptedPage, a_artifact := Some artifact,
       a_quality := Some quality, a_consistency := consistency, a_finished := Some now\<rparr>"

definition accept_task_set :: "int \<Rightarrow> task_row \<Rightarrow> task_row" where
  "accept_task_set now t =
     t\<lparr>t_status := Succeeded, t_result := Some RAccepted, t_token := None, t_expires := Some 0,
       t_updated := now\<rparr>"

section \<open>The transaction\<close>

definition find_task_id :: "int \<Rightarrow> db \<Rightarrow> task_row option" where
  "find_task_id i d = sql_first (\<lambda>t. t_id t = i) (db_tasks d)"

definition head_desired :: "string \<Rightarrow> db \<Rightarrow> string option" where
  "head_desired entity d = map_option h_desired (sql_first (\<lambda>h. h_entity h = entity) (db_heads d))"

definition is_replay :: "task_lease \<Rightarrow> task_row \<Rightarrow> db \<Rightarrow> bool" where
  "is_replay l t d =
     (t_status t = Succeeded \<and> t_result t = Some RAccepted
      \<and> 0 < sql_count (\<lambda>a. a_task a = tl_task l \<and> a_epoch a = tl_epoch l \<and> a_token a = tl_token l
                \<and> a_status a = Completed \<and> a_publish a = Some AcceptedPage) (db_attempts d))"

definition replay_outcome :: "task_row \<Rightarrow> db \<Rightarrow> commit_outcome result" where
  "replay_outcome t d =
     (case sql_first_by (\<lambda>p. - pg_generation p)
             (\<lambda>p. pg_entity p = t_entity t \<and> pg_status p = AcceptedPage) (db_pages d) of
        Some p \<Rightarrow> Inr (Accepted (pg_generation p))
      | None \<Rightarrow> Inl Internal)"

definition publish_live ::
  "ext \<Rightarrow> task_row \<Rightarrow> task_lease \<Rightarrow> compiled_page \<Rightarrow> score_report \<Rightarrow> consistency_report option
   \<Rightarrow> int \<Rightarrow> db \<Rightarrow> (commit_outcome \<times> db) result" where
  "publish_live X t l page report consistency now d =
     try_bind (serialized_artifact X page) (\<lambda>artifact.
     try_bind (ok_or Serialization (x_parse_deps X (t_deps t))) (\<lambda>deps.
     try_bind (build_frontmatter_json X page deps) (\<lambda>frontmatter.
     try_bind (write_page_tables X page report consistency deps frontmatter (t_revision t) now d) (\<lambda>(g, d1).
     try_bind (case consistency of
                 Some c \<Rightarrow> publish_consistency_json X c (tl_task l) (tl_epoch l) (int (tl_attempt l))
                             (t_entity t) (t_desired t)
               | None \<Rightarrow> Inr ''{}'') (\<lambda>cjson.
     try_bind (update_one_attempt l
                 (accept_attempt_set artifact (x_report_text X report) cjson now)
                 (publish_generation g d1)) (\<lambda>d2.
     try_bind (update_leased_task l (accept_task_set now) d2) (\<lambda>d3.
     Inr (Accepted g, d3))))))))"

definition publish_in_transaction ::
  "ext \<Rightarrow> task_lease \<Rightarrow> compiled_page \<Rightarrow> score_report \<Rightarrow> consistency_report option \<Rightarrow> int \<Rightarrow> db
   \<Rightarrow> (commit_outcome \<times> db) result" where
  "publish_in_transaction X l page report consistency now d =
     (case find_task_id (tl_task l) d of
        None \<Rightarrow> Inr (Stale, d)
      | Some t \<Rightarrow>
          if is_replay l t d then try_bind (replay_outcome t d) (\<lambda>r. Inr (r, d))
          else if \<not> live_task l now t then Inr (Stale, d)
          else if head_desired (t_entity t) d \<noteq> Some (t_desired t) then Inr (Stale, d)
          else if cp_evidence page = None then Inl Compilation
          else if to_key (wp_entity (cp_wiki page)) \<noteq> t_entity t then Inl Compilation
          else if cp_hash page \<noteq> tl_hash l then Inl (ContentHashMismatch (tl_hash l) (cp_hash page))
          else publish_live X t l page report consistency now d)"

definition publish_compile ::
  "ext \<Rightarrow> task_lease \<Rightarrow> compiled_page \<Rightarrow> score_report \<Rightarrow> consistency_report option \<Rightarrow> int \<Rightarrow> db
   \<Rightarrow> commit_outcome result \<times> db" where
  "publish_compile X l page report consistency now =
     immediate_transaction (publish_in_transaction X l page report consistency now)"

end
