(* ===== verification/Failure.thy ===== *)
theory Failure
  imports Publish
begin

text \<open>
  The end of a failed attempt (\<^verbatim>\<open>finish_failure_in_transaction\<close>), the recovery of expired leases
  (\<^verbatim>\<open>recover_compile_leases\<close>) and the preflight quarantine (\<^verbatim>\<open>quarantine_compile_preflight\<close>) of
  \<^verbatim>\<open>kernel/compile_store.rs\<close>: a failure of the output counts against the recompile limit, a
  retryable one against the retry limit, both with backoff; a task that runs out is dead and
  leaves a review row.
\<close>

section \<open>Row updates\<close>

definition dead_set :: "task_result \<Rightarrow> string \<Rightarrow> int \<Rightarrow> task_row \<Rightarrow> task_row" where
  "dead_set res code now t =
     t\<lparr>t_status := Dead, t_result := Some res, t_token := None, t_expires := Some 0,
       t_error := Some code, t_updated := now\<rparr>"

definition pending_set :: "int \<Rightarrow> int \<Rightarrow> task_row \<Rightarrow> task_row" where
  "pending_set due now t =
     t\<lparr>t_status := Pending, t_next_at := due, t_token := None, t_expires := Some 0, t_updated := now\<rparr>"

definition failed_set :: "string \<Rightarrow> int \<Rightarrow> task_row \<Rightarrow> task_row" where
  "failed_set code now t =
     t\<lparr>t_status := FailedStatus, t_result := Some RFailed, t_token := None, t_expires := Some 0,
       t_error := Some code, t_updated := now\<rparr>"

definition superseded_set :: "int \<Rightarrow> task_row \<Rightarrow> task_row" where
  "superseded_set now t =
     t\<lparr>t_status := Succeeded, t_result := Some RSuperseded, t_token := None, t_expires := Some 0,
       t_updated := now\<rparr>"

definition recompiles_set :: "int \<Rightarrow> task_row \<Rightarrow> task_row" where
  "recompiles_set n t = t\<lparr>t_recompiles := n\<rparr>"

definition retries_set :: "int \<Rightarrow> task_row \<Rightarrow> task_row" where
  "retries_set n t = t\<lparr>t_retries := n\<rparr>"

definition quality_attempt_set ::
  "publish_status option \<Rightarrow> string option \<Rightarrow> string \<Rightarrow> string \<Rightarrow> string \<Rightarrow> string \<Rightarrow> int
   \<Rightarrow> attempt_row \<Rightarrow> attempt_row" where
  "quality_attempt_set publish artifact quality issues code consistency now a =
     a\<lparr>a_status := Completed, a_publish := publish, a_artifact := artifact, a_quality := Some quality,
       a_issues := issues, a_error := Some code, a_finished := Some now, a_consistency := consistency\<rparr>"

definition error_attempt_set :: "string \<Rightarrow> int \<Rightarrow> attempt_row \<Rightarrow> attempt_row" where
  "error_attempt_set code now a =
     a\<lparr>a_status := Completed, a_error := Some code, a_finished := Some now\<rparr>"

definition abandon_set :: "int \<Rightarrow> attempt_row \<Rightarrow> attempt_row" where
  "abandon_set now a = a\<lparr>a_status := Abandoned, a_finished := Some now\<rparr>"

section \<open>Invalid output\<close>

text \<open>The review rows of a task that ran out of recompiles.\<close>

definition quarantine_reviews ::
  "ext \<Rightarrow> task_row \<Rightarrow> task_lease \<Rightarrow> string \<Rightarrow> string option \<Rightarrow> int \<Rightarrow> db \<Rightarrow> db result" where
  "quarantine_reviews X t l code conflict now d =
     try_bind (review_domain_of (t_entity t)) (\<lambda>domain.
     try_bind (case conflict of
                 Some text \<Rightarrow> Inr text
               | None \<Rightarrow> consistency_diagnostic_json X code (tl_task l) (tl_epoch l)
                           (int (tl_attempt l)) (t_entity t) (t_desired t) []) (\<lambda>reason.
     try_bind (enqueue_dead_letter X (tl_task l) domain reason now d) (\<lambda>(n, d1).
     if conflict \<noteq> None then
       try_bind (insert_review domain ConsistencyConflict (task_subject X (tl_task l)) reason
                   (Some (tl_task l)) now d1) (\<lambda>(n', d2). Inr d2)
     else Inr d1)))"

definition conflict_text ::
  "ext \<Rightarrow> task_row \<Rightarrow> task_lease \<Rightarrow> consistency_report option \<Rightarrow> string option result" where
  "conflict_text X t l consistency =
     (case consistency of
        None \<Rightarrow> Inr None
      | Some c \<Rightarrow>
          if cr_findings c = [] then Inr None
          else try_bind (consistency_diagnostic_json X ''CONSISTENCY_CONFLICT'' (tl_task l) (tl_epoch l)
                 (int (tl_attempt l)) (t_entity t) (t_desired t) (consistency_findings_json c))
               (\<lambda>text. Inr (Some text)))"

definition fail_invalid ::
  "ext \<Rightarrow> task_row \<Rightarrow> stored_deps \<Rightarrow> task_lease \<Rightarrow> string \<Rightarrow> compiled_page option \<Rightarrow> score_report
   \<Rightarrow> consistency_report option \<Rightarrow> int \<Rightarrow> db \<Rightarrow> (failure_disposition \<times> db) result" where
  "fail_invalid X t deps l code candidate report consistency now d =
     try_bind (ok_or Internal (checked_add (t_recompiles t) 1)) (\<lambda>recompiles.
     try_bind (case candidate of
                 None \<Rightarrow> Inr None
               | Some p \<Rightarrow> try_bind (serialized_artifact X p) (\<lambda>a. Inr (Some a))) (\<lambda>artifact.
     try_bind (conflict_text X t l consistency) (\<lambda>conflict.
     try_bind (update_one_attempt l
                 (quality_attempt_set (if candidate = None then None else Some Candidate) artifact
                    (x_report_text X report) (x_issues_text X (sc_issues report)) code
                    (case conflict of Some text \<Rightarrow> text | None \<Rightarrow> ''{}'') now) d) (\<lambda>d1.
     if recompiles > int (cpl_max_recompiles (sd_policy deps)) then
       try_bind (update_leased_task l (\<lambda>t. dead_set RQuarantined code now (recompiles_set recompiles t)) d1) (\<lambda>d2.
       try_bind (quarantine_reviews X t l code conflict now d2) (\<lambda>d3.
       Inr (QuarantinedTask, d3)))
     else
       let due = now + backoff_seconds (t_retries t)
       in try_bind (update_leased_task l (\<lambda>t. pending_set due now (recompiles_set recompiles t)) d1)
            (\<lambda>d2. Inr (RetryAt due, d2))))))"

section \<open>Retryable and permanent failures\<close>

definition dead_letter_for ::
  "ext \<Rightarrow> int \<Rightarrow> int \<Rightarrow> int \<Rightarrow> string \<Rightarrow> string \<Rightarrow> string \<Rightarrow> int \<Rightarrow> db \<Rightarrow> (nat \<times> db) result" where
  "dead_letter_for X task epoch no code entity desired now d =
     try_bind (review_domain_of entity) (\<lambda>domain.
     try_bind (consistency_diagnostic_json X code task epoch no entity desired []) (\<lambda>reason.
     enqueue_dead_letter X task domain reason now d))"

definition retry_delay :: "nat option \<Rightarrow> int \<Rightarrow> int" where
  "retry_delay retry_after retries =
     (case retry_after of Some s \<Rightarrow> min (int s) 300 | None \<Rightarrow> backoff_seconds retries)"

definition fail_retryable ::
  "ext \<Rightarrow> task_row \<Rightarrow> task_lease \<Rightarrow> string \<Rightarrow> nat option \<Rightarrow> int \<Rightarrow> db
   \<Rightarrow> (failure_disposition \<times> db) result" where
  "fail_retryable X t l code retry_after now d =
     try_bind (ok_or Internal (checked_add (t_retries t) 1)) (\<lambda>retries.
     try_bind (update_one_attempt l (error_attempt_set code now) d) (\<lambda>d1.
     if retries \<ge> t_max_retries t then
       try_bind (update_leased_task l (\<lambda>t. dead_set RFailed code now (retries_set retries t)) d1) (\<lambda>d2.
       try_bind (dead_letter_for X (tl_task l) (tl_epoch l) (int (tl_attempt l)) code (t_entity t)
                   (t_desired t) now d2) (\<lambda>(n, d3).
       Inr (FailedTask, d3)))
     else
       let due = now + retry_delay retry_after retries
       in try_bind (update_leased_task l (\<lambda>t. pending_set due now (retries_set retries t)) d1)
            (\<lambda>d2. Inr (RetryAt due, d2))))"

definition fail_permanent ::
  "task_lease \<Rightarrow> string \<Rightarrow> int \<Rightarrow> db \<Rightarrow> (failure_disposition \<times> db) result" where
  "fail_permanent l code now d =
     try_bind (update_one_attempt l (error_attempt_set code now) d) (\<lambda>d1.
     try_bind (update_leased_task l (failed_set code now) d1) (\<lambda>d2.
     Inr (FailedTask, d2)))"

definition finish_failure_in_transaction ::
  "ext \<Rightarrow> task_lease \<Rightarrow> compile_failure \<Rightarrow> compiled_page option \<Rightarrow> score_report
   \<Rightarrow> consistency_report option \<Rightarrow> int \<Rightarrow> db \<Rightarrow> (failure_disposition \<times> db) result" where
  "finish_failure_in_transaction X l failure candidate report consistency now d =
     (case find_task_id (tl_task l) d of
        None \<Rightarrow> Inr (FailedTask, d)
      | Some t \<Rightarrow>
          if \<not> live_task l now t then Inr (FailedTask, d)
          else try_bind (ok_or Serialization (x_parse_deps X (t_deps t))) (\<lambda>deps.
            case failure of
              InvalidOutput code _ \<Rightarrow> fail_invalid X t deps l code candidate report consistency now d
            | Retryable code retry_after \<Rightarrow> fail_retryable X t l code retry_after now d
            | Permanent code \<Rightarrow> fail_permanent l code now d))"

definition finish_compile_failure ::
  "ext \<Rightarrow> task_lease \<Rightarrow> compile_failure \<Rightarrow> compiled_page option \<Rightarrow> score_report
   \<Rightarrow> consistency_report option \<Rightarrow> int \<Rightarrow> db \<Rightarrow> failure_disposition result \<times> db" where
  "finish_compile_failure X l failure candidate report consistency now =
     immediate_transaction (finish_failure_in_transaction X l failure candidate report consistency now)"

section \<open>Recovery of expired leases\<close>

record recovery_stats =
  rs_pending :: nat
  rs_failed :: nat
  rs_quarantined :: nat
  rs_superseded :: nat
  rs_reviews :: nat
  rs_scanned :: nat

definition recovery_stats_default :: recovery_stats where
  "recovery_stats_default = \<lparr>rs_pending = 0, rs_failed = 0, rs_quarantined = 0, rs_superseded = 0,
     rs_reviews = 0, rs_scanned = 0\<rparr>"

definition recovered_tasks :: "recovery_stats \<Rightarrow> nat" where
  "recovered_tasks s = rs_pending s + rs_failed s + rs_quarantined s + rs_superseded s"

definition expired_lease :: "int \<Rightarrow> task_row \<Rightarrow> bool" where
  "expired_lease now t =
     (t_status t = Running \<and> (case t_expires t of None \<Rightarrow> False | Some e \<Rightarrow> e \<le> now))"

definition abandon_attempt :: "task_row \<Rightarrow> int \<Rightarrow> db \<Rightarrow> db" where
  "abandon_attempt t now d =
     d\<lparr>db_attempts := sql_update (\<lambda>a. a_task a = t_id t \<and> a_epoch a = t_epoch t \<and> a_no a = t_attempts t
          \<and> Some (a_token a) = t_token t \<and> a_status a = Reserved) (abandon_set now) (db_attempts d)\<rparr>"

definition recovery_target :: "task_row \<Rightarrow> task_row \<Rightarrow> bool" where
  "recovery_target t r = (t_id r = t_id t \<and> t_token r = t_token t \<and> t_status r = Running)"

text \<open>
  One row of the recovery loop. The row is the one the scan read; a row without a token does
  not deserialise.
\<close>

definition recover_one :: "ext \<Rightarrow> int \<Rightarrow> task_row \<Rightarrow> recovery_stats \<times> db \<Rightarrow> (recovery_stats \<times> db) result" where
  "recover_one X now t sd =
     (case sd of (s, d) \<Rightarrow>
      let s1 = s\<lparr>rs_scanned := rs_scanned s + 1\<rparr>;
          d1 = abandon_attempt t now d;
          superseded = (case head_desired (t_entity t) d1 of None \<Rightarrow> False | Some h \<Rightarrow> h \<noteq> t_desired t);
          hit = sql_count (recovery_target t) (db_tasks d1) = 1
      in try_bind (ok_or Internal (checked_add (t_retries t) 1)) (\<lambda>retries.
         if superseded then
           Inr (if hit then s1\<lparr>rs_superseded := rs_superseded s1 + 1\<rparr> else s1,
                update_tasks (recovery_target t) (superseded_set now) d1)
         else if retries \<ge> t_max_retries t then
           let d2 = update_tasks (recovery_target t)
                 (\<lambda>r. dead_set RFailed ''lease_expired_retry_exhausted'' now (retries_set retries r)) d1
           in if hit then
                try_bind (dead_letter_for X (t_id t) (t_epoch t) (t_attempts t)
                            ''LEASE_EXPIRED_RETRY_EXHAUSTED'' (t_entity t) (t_desired t) now d2)
                  (\<lambda>(n, d3). Inr (s1\<lparr>rs_failed := rs_failed s1 + 1, rs_reviews := rs_reviews s1 + n\<rparr>, d3))
              else Inr (s1, d2)
         else
           Inr (if hit then s1\<lparr>rs_pending := rs_pending s1 + 1\<rparr> else s1,
                update_tasks (recovery_target t)
                  (\<lambda>r. pending_set (now + backoff_seconds retries) now (retries_set retries r)) d1)))"

fun recover_loop ::
  "ext \<Rightarrow> int \<Rightarrow> task_row list \<Rightarrow> recovery_stats \<times> db \<Rightarrow> (recovery_stats \<times> db) result" where
  "recover_loop X now [] sd = Inr sd"
| "recover_loop X now (t # ts) sd = try_bind (recover_one X now t sd) (recover_loop X now ts)"

definition recover_in_transaction :: "ext \<Rightarrow> int \<Rightarrow> db \<Rightarrow> (recovery_stats \<times> db) result" where
  "recover_in_transaction X now d =
     (let rows = filter (expired_lease now) (db_tasks d)
      in if list_ex (\<lambda>t. t_token t = None) rows then Inl Database
         else recover_loop X now rows (recovery_stats_default, d))"

definition recover_compile_leases :: "ext \<Rightarrow> int \<Rightarrow> db \<Rightarrow> recovery_stats result \<times> db" where
  "recover_compile_leases X now = immediate_transaction (recover_in_transaction X now)"

section \<open>Preflight quarantine\<close>

definition preflight_attempt :: "int \<Rightarrow> int \<Rightarrow> string \<Rightarrow> string \<Rightarrow> int \<Rightarrow> attempt_row" where
  "preflight_attempt task epoch token code now =
     \<lparr>a_task = task, a_epoch = epoch, a_no = 0, a_token = token, a_status = Completed,
      a_publish = Some QuarantinedPage, a_run = None, a_day = None, a_artifact = None, a_quality = None,
      a_issues = ''[]'', a_reserved = 0, a_error = Some code, a_created = now, a_finished = Some now,
      a_consistency = ''{}''\<rparr>"

definition quarantine_preflight_in_transaction ::
  "int \<Rightarrow> int \<Rightarrow> string \<Rightarrow> string \<Rightarrow> int \<Rightarrow> db \<Rightarrow> (failure_disposition \<times> db) result" where
  "quarantine_preflight_in_transaction task epoch token code now d =
     (let (rows, n) = sql_insert_ignore attempt_key (preflight_attempt task epoch token code now) (db_attempts d);
          P = (\<lambda>t. t_id t = task \<and> t_epoch t = epoch \<and> (t_status t = Pending \<or> t_status t = Running))
      in if n = 1 \<and> \<not> sql_exists (\<lambda>t. t_id t = task) (db_tasks d) then Inl Database
         else Inr (if sql_count P (db_tasks d) = 1 then QuarantinedTask else FailedTask,
                   update_tasks P (dead_set RQuarantined code now) (d\<lparr>db_attempts := rows\<rparr>)))"

definition quarantine_compile_preflight ::
  "int \<Rightarrow> int \<Rightarrow> string \<Rightarrow> string \<Rightarrow> int \<Rightarrow> db \<Rightarrow> failure_disposition result \<times> db" where
  "quarantine_compile_preflight task epoch token code now =
     immediate_transaction (quarantine_preflight_in_transaction task epoch token code now)"

end
