(* ===== verification/Queue_Inv.thy ===== *)
theory Queue_Inv
  imports Failure
begin

text \<open>
  The invariant of the compile queue: the tables of tasks, attempts and runs. Tasks keep their
  keys and a consistent row (a lease exactly while running, counters within their limits, a
  result exactly when finished); every attempt belongs to a task and an epoch it has reached;
  a running task has its reserved attempt; tokens are unique; reserved tokens are the sums over
  the attempts and stay within the limit of their run. The statements of the kernel are row
  updates, so the lemmas reduce each to a relation between the old row and the new one.
\<close>

section \<open>Rows\<close>

definition active :: "task_row \<Rightarrow> bool" where
  "active t = (t_status t = Pending \<or> t_status t = Running)"

definition task_ok :: "task_row \<Rightarrow> bool" where
  "task_ok t \<longleftrightarrow>
     (t_status t = Running \<longleftrightarrow> t_token t \<noteq> None) \<and> (t_status t = Running \<longrightarrow> t_expires t \<noteq> None)
     \<and> (active t \<longrightarrow> t_result t = None \<and> 0 \<le> t_retries t \<and> t_retries t \<le> t_max_retries t \<and> 0 \<le> t_recompiles t
            \<and> (0 < t_max_retries t \<or> t_status t = Running \<longrightarrow> t_retries t < t_max_retries t))
     \<and> (t_status t = Pending \<longrightarrow> t_attempts t \<le> t_retries t + t_recompiles t)
     \<and> (t_status t = Running \<longrightarrow> 1 \<le> t_attempts t \<and> t_attempts t \<le> t_retries t + t_recompiles t + 1)
     \<and> (t_status t = Succeeded \<longrightarrow> t_result t \<in> {Some RAccepted, Some RSkipped, Some RSuperseded})
     \<and> (t_status t = FailedStatus \<longrightarrow> t_result t = Some RFailed)
     \<and> (t_status t = Dead \<longrightarrow> t_result t \<in> {Some RFailed, Some RQuarantined})
     \<and> 1 \<le> t_epoch t \<and> 0 \<le> t_attempts t"

text \<open>What every statement but a claim does to a row it rewrites.\<close>

definition row_step :: "task_row \<Rightarrow> task_row \<Rightarrow> bool" where
  "row_step t t' \<longleftrightarrow>
     t_id t' = t_id t \<and> task_key t' = task_key t \<and> t_reserved t' = t_reserved t \<and> task_ok t'
     \<and> (t_epoch t' = t_epoch t \<and> t_attempts t' = t_attempts t \<or> t_epoch t < t_epoch t')
     \<and> (t_status t' = Running \<longrightarrow>
          t_status t = Running \<and> t_epoch t' = t_epoch t \<and> t_attempts t' = t_attempts t \<and> t_token t' = t_token t)"

lemmas row_defs = row_step_def task_ok_def active_def task_key_def

lemma row_step_refl: "task_ok t \<Longrightarrow> row_step t t"
  by (simp add: row_step_def)

lemma row_step_refresh: "task_ok t \<Longrightarrow> row_step t (refresh_set j t)"
  by (auto simp: row_defs refresh_set_def)

lemma row_step_requeue: "task_ok t \<Longrightarrow> 0 \<le> j_max_retries j \<Longrightarrow> row_step t (requeue_set j t)"
  by (auto simp: row_defs requeue_set_def)

lemma row_step_skip: "task_ok t \<Longrightarrow> row_step t (skip_set now t)"
  by (auto simp: row_defs skip_set_def)

lemma row_step_accept: "task_ok t \<Longrightarrow> row_step t (accept_task_set now t)"
  by (auto simp: row_defs accept_task_set_def)

lemma row_step_dead:
  "task_ok t \<Longrightarrow> res = RFailed \<or> res = RQuarantined \<Longrightarrow> row_step t (dead_set res code now t)"
  "task_ok t \<Longrightarrow> res = RFailed \<or> res = RQuarantined \<Longrightarrow> row_step t (dead_set res code now (retries_set n t))"
  "task_ok t \<Longrightarrow> res = RFailed \<or> res = RQuarantined \<Longrightarrow> row_step t (dead_set res code now (recompiles_set n t))"
  by (auto simp: row_defs dead_set_def retries_set_def recompiles_set_def)

lemma row_step_failed: "task_ok t \<Longrightarrow> row_step t (failed_set code now t)"
  by (auto simp: row_defs failed_set_def)

lemma row_step_superseded: "task_ok t \<Longrightarrow> row_step t (superseded_set now t)"
  by (auto simp: row_defs superseded_set_def)

lemma row_step_retry:
  "task_ok t \<Longrightarrow> t_status t = Running \<Longrightarrow> t_retries t + 1 < t_max_retries t \<Longrightarrow>
     row_step t (pending_set due now (retries_set (t_retries t + 1) t))"
  by (auto simp: row_defs pending_set_def retries_set_def)

lemma row_step_recompile:
  "task_ok t \<Longrightarrow> t_status t = Running \<Longrightarrow>
     row_step t (pending_set due now (recompiles_set (t_recompiles t + 1) t))"
  by (auto simp: row_defs pending_set_def recompiles_set_def)

lemma row_step_heartbeat: "task_ok t \<Longrightarrow> t_status t = Running \<Longrightarrow> row_step t (heartbeat_set now t)"
  by (auto simp: row_defs heartbeat_set_def)

section \<open>The invariant\<close>

definition current_attempt :: "task_row \<Rightarrow> attempt_row \<Rightarrow> bool" where
  "current_attempt t a = (a_task a = t_id t \<and> a_epoch a = t_epoch t \<and> a_no a = t_attempts t)"

definition attempt_of :: "task_row \<Rightarrow> attempt_row \<Rightarrow> bool" where
  "attempt_of t a = (a_task a = t_id t \<and> a_epoch a \<le> t_epoch t \<and> (a_epoch a = t_epoch t \<longrightarrow> a_no a \<le> t_attempts t))"

definition reserved_attempt :: "task_row \<Rightarrow> attempt_row \<Rightarrow> bool" where
  "reserved_attempt t a = (current_attempt t a \<and> Some (a_token a) = t_token t \<and> a_status a = Reserved)"

definition tasks_ok :: "task_row list \<Rightarrow> int \<Rightarrow> bool" where
  "tasks_ok ts sq \<longleftrightarrow> keyed t_id ts \<and> keyed task_key ts \<and> (\<forall>t\<in>set ts. t_id t \<le> sq \<and> task_ok t)"

definition attempts_ok :: "task_row list \<Rightarrow> attempt_row list \<Rightarrow> bool" where
  "attempts_ok ts as \<longleftrightarrow> keyed attempt_key as \<and> keyed a_token as
     \<and> (\<forall>a\<in>set as. 0 \<le> a_reserved a \<and> 0 \<le> a_no a \<and> (\<exists>t\<in>set ts. attempt_of t a))
     \<and> (\<forall>t\<in>set ts. t_status t = Running \<longrightarrow> (\<exists>a\<in>set as. reserved_attempt t a))"

definition task_tokens :: "attempt_row list \<Rightarrow> int \<Rightarrow> int" where
  "task_tokens as i = sum_list (map a_reserved (filter (\<lambda>a. a_task a = i) as))"

definition run_tokens :: "attempt_row list \<Rightarrow> string \<Rightarrow> int" where
  "run_tokens as r = sum_list (map a_reserved (filter (\<lambda>a. a_run a = Some r) as))"

definition budgets_ok :: "task_row list \<Rightarrow> attempt_row list \<Rightarrow> run_row list \<Rightarrow> bool" where
  "budgets_ok ts as rs \<longleftrightarrow> keyed r_id rs
     \<and> (\<forall>t\<in>set ts. t_reserved t = task_tokens as (t_id t))
     \<and> (\<forall>r\<in>set rs. r_reserved r = run_tokens as (r_id r) \<and> (r_reserved r = 0 \<or> r_reserved r \<le> r_limit r))
     \<and> (\<forall>a\<in>set as. case a_run a of None \<Rightarrow> a_reserved a = 0 | Some r \<Rightarrow> r \<in> r_id ` set rs)"

definition queue_ok :: "db \<Rightarrow> bool" where
  "queue_ok d \<longleftrightarrow> tasks_ok (db_tasks d) (db_task_seq d) \<and> attempts_ok (db_tasks d) (db_attempts d)
     \<and> budgets_ok (db_tasks d) (db_attempts d) (db_runs d)"

lemma queue_ok_cong:
  "queue_ok d \<Longrightarrow> db_tasks d' = db_tasks d \<Longrightarrow> db_task_seq d' = db_task_seq d \<Longrightarrow>
     db_attempts d' = db_attempts d \<Longrightarrow> db_runs d' = db_runs d \<Longrightarrow> queue_ok d'"
  by (simp add: queue_ok_def)

lemma queue_ok_empty: "queue_ok empty_db"
  by (simp add: queue_ok_def tasks_ok_def attempts_ok_def budgets_ok_def keyed_def empty_db_def)

lemma queue_ok_task:
  "queue_ok d \<Longrightarrow> t \<in> set (db_tasks d) \<Longrightarrow> task_ok t"
  by (simp add: queue_ok_def tasks_ok_def)

lemma queue_ok_tokens:
  "queue_ok d \<Longrightarrow> t \<in> set (db_tasks d) \<Longrightarrow> t_reserved t = task_tokens (db_attempts d) (t_id t)"
  "queue_ok d \<Longrightarrow> r \<in> set (db_runs d) \<Longrightarrow> r_reserved r = run_tokens (db_attempts d) (r_id r)"
  "queue_ok d \<Longrightarrow> r \<in> set (db_runs d) \<Longrightarrow> r_reserved r = 0 \<or> r_reserved r \<le> r_limit r"
  "queue_ok d \<Longrightarrow> a \<in> set (db_attempts d) \<Longrightarrow>
     (case a_run a of None \<Rightarrow> a_reserved a = 0 | Some r \<Rightarrow> r \<in> r_id ` set (db_runs d))"
  unfolding queue_ok_def budgets_ok_def by blast+

lemma queue_ok_unique:
  "queue_ok d \<Longrightarrow> t \<in> set (db_tasks d) \<Longrightarrow> t' \<in> set (db_tasks d) \<Longrightarrow> t_id t = t_id t' \<Longrightarrow> t = t'"
  by (auto simp: queue_ok_def tasks_ok_def dest: keyed_unique)

lemma find_task_id_iff:
  assumes "queue_ok d"
  shows "find_task_id i d = Some t \<longleftrightarrow> t \<in> set (db_tasks d) \<and> t_id t = i"
proof
  assume "find_task_id i d = Some t"
  then show "t \<in> set (db_tasks d) \<and> t_id t = i" by (auto simp: find_task_id_def dest: sql_first_SomeD)
next
  assume "t \<in> set (db_tasks d) \<and> t_id t = i"
  with assms show "find_task_id i d = Some t"
    using sql_first_keyed[of t_id "db_tasks d" t] by (simp add: find_task_id_def queue_ok_def tasks_ok_def)
qed

section \<open>Row updates keep the invariant\<close>

lemma map_key_sql_update:
  "(\<And>t. t \<in> set ts \<Longrightarrow> P t \<Longrightarrow> key (f t) = key t) \<Longrightarrow> map key (sql_update P f ts) = map key ts"
  by (auto simp: sql_update_def)

lemma tasks_ok_update:
  assumes "tasks_ok ts sq" "\<And>t. t \<in> set ts \<Longrightarrow> P t \<Longrightarrow> row_step t (f t)"
  shows "tasks_ok (sql_update P f ts) sq"
proof -
  have "map t_id (sql_update P f ts) = map t_id ts" "map task_key (sql_update P f ts) = map task_key ts"
    using assms(2) by (auto intro!: map_key_sql_update simp: row_step_def)
  then show ?thesis
    using assms by (auto simp: tasks_ok_def keyed_def set_sql_update row_step_def)
qed

text \<open>An update of attempts that keeps what identifies and prices them.\<close>

definition attempt_step :: "attempt_row \<Rightarrow> attempt_row \<Rightarrow> bool" where
  "attempt_step a a' \<longleftrightarrow> attempt_key a' = attempt_key a \<and> a_token a' = a_token a
     \<and> a_reserved a' = a_reserved a \<and> a_run a' = a_run a"

lemma attempt_steps [simp]:
  "attempt_step a (accept_attempt_set x y z now a)"
  "attempt_step a (quality_attempt_set pb ar q i c co now a)"
  "attempt_step a (error_attempt_set c now a)"
  "attempt_step a (abandon_set now a)"
  by (simp_all add: attempt_step_def attempt_key_def accept_attempt_set_def quality_attempt_set_def
      error_attempt_set_def abandon_set_def)

lemma attempts_ok_update:
  assumes ok: "attempts_ok ts as"
    and f: "\<And>t. t \<in> set ts \<Longrightarrow> P t \<Longrightarrow> row_step t (f t)"
    and g: "\<And>a. a \<in> set as \<Longrightarrow> Q a \<Longrightarrow> attempt_step a (g a)"
    and free: "\<And>t a. t \<in> set ts \<Longrightarrow> a \<in> set as \<Longrightarrow> Q a \<Longrightarrow> reserved_attempt t a \<Longrightarrow>
                 P t \<and> t_status (f t) \<noteq> Running"
  shows "attempts_ok (sql_update P f ts) (sql_update Q g as)"
proof -
  have m: "map attempt_key (sql_update Q g as) = map attempt_key as"
    "map a_token (sql_update Q g as) = map a_token as"
    using g by (auto intro!: map_key_sql_update simp: attempt_step_def)
  have attempt: "0 \<le> a_reserved a \<and> 0 \<le> a_no a \<and> (\<exists>t\<in>set (sql_update P f ts). attempt_of t a)"
    if "a \<in> set (sql_update Q g as)" for a
  proof -
    from that obtain b where b: "b \<in> set as" "attempt_step b a"
      using g by (auto simp: set_sql_update attempt_step_def)
    then obtain t where t: "t \<in> set ts" "attempt_of t b" "0 \<le> a_reserved b" "0 \<le> a_no b"
      using ok by (auto simp: attempts_ok_def)
    have "attempt_of (if P t then f t else t) b"
      using t f[of t] by (auto simp: attempt_of_def row_step_def)
    then have "attempt_of (if P t then f t else t) a"
      using b(2) by (auto simp: attempt_of_def attempt_step_def attempt_key_def)
    moreover have "(if P t then f t else t) \<in> set (sql_update P f ts)"
      using t(1) by (auto simp: set_sql_update)
    ultimately show ?thesis using t b by (auto simp: attempt_step_def attempt_key_def)
  qed
  have "\<exists>a\<in>set (sql_update Q g as). reserved_attempt t' a"
    if "t' \<in> set (sql_update P f ts)" "t_status t' = Running" for t'
  proof -
    from that(1) obtain t where t: "t \<in> set ts" "t' = (if P t then f t else t)"
      by (auto simp: set_sql_update)
    then have "t_status t = Running" "t_epoch t' = t_epoch t" "t_attempts t' = t_attempts t"
      "t_token t' = t_token t" "t_id t' = t_id t"
      using f[of t] that(2) by (auto simp: row_step_def split: if_splits)
    moreover from this t ok obtain a where a: "a \<in> set as" "reserved_attempt t a"
      by (auto simp: attempts_ok_def)
    moreover have "\<not> Q a" using free[OF t(1) a(1) _ a(2)] t(2) that(2) by auto
    ultimately show ?thesis
      by (intro bexI[of _ a]) (auto simp: reserved_attempt_def current_attempt_def set_sql_update)
  qed
  with m attempt ok show ?thesis by (simp add: attempts_ok_def keyed_def)
qed

lemma tokens_update:
  assumes "\<And>a. a \<in> set as \<Longrightarrow> Q a \<Longrightarrow> attempt_step a (g a)"
  shows "task_tokens (sql_update Q g as) i = task_tokens as i"
    "run_tokens (sql_update Q g as) r = run_tokens as r"
  using assms
  by (induction as) (auto simp: task_tokens_def run_tokens_def sql_update_def attempt_step_def attempt_key_def)

lemma budgets_ok_update:
  assumes "budgets_ok ts as rs"
    and f: "\<And>t. t \<in> set ts \<Longrightarrow> P t \<Longrightarrow> row_step t (f t)"
    and g: "\<And>a. a \<in> set as \<Longrightarrow> Q a \<Longrightarrow> attempt_step a (g a)"
  shows "budgets_ok (sql_update P f ts) (sql_update Q g as) rs"
proof -
  have "t_reserved t = task_tokens as (t_id t)" if "t \<in> set (sql_update P f ts)" for t
    using that assms(1) f by (auto simp: budgets_ok_def set_sql_update row_step_def)
  moreover have "case a_run a of None \<Rightarrow> a_reserved a = 0 | Some r \<Rightarrow> r \<in> r_id ` set rs"
    if "a \<in> set (sql_update Q g as)" for a
  proof -
    from that obtain b where "b \<in> set as" "attempt_step b a"
      using g by (auto simp: set_sql_update attempt_step_def)
    moreover from this assms(1)
    have "case a_run b of None \<Rightarrow> a_reserved b = 0 | Some r \<Rightarrow> r \<in> r_id ` set rs"
      by (simp add: budgets_ok_def)
    ultimately show ?thesis by (simp add: attempt_step_def split: option.splits)
  qed
  ultimately show ?thesis
    using assms(1) tokens_update[OF g] by (auto simp: budgets_ok_def)
qed

text \<open>The two tables together, as every finishing statement uses them.\<close>

lemma queue_ok_update:
  assumes "queue_ok d"
    and "\<And>t. t \<in> set (db_tasks d) \<Longrightarrow> P t \<Longrightarrow> row_step t (f t)"
    and "\<And>a. a \<in> set (db_attempts d) \<Longrightarrow> Q a \<Longrightarrow> attempt_step a (g a)"
    and "\<And>t a. t \<in> set (db_tasks d) \<Longrightarrow> a \<in> set (db_attempts d) \<Longrightarrow> Q a \<Longrightarrow> reserved_attempt t a \<Longrightarrow>
           P t \<and> t_status (f t) \<noteq> Running"
    and "db_tasks d' = sql_update P f (db_tasks d)" "db_attempts d' = sql_update Q g (db_attempts d)"
    and "db_task_seq d' = db_task_seq d" "db_runs d' = db_runs d"
  shows "queue_ok d'"
  using assms unfolding queue_ok_def
  by (simp add: tasks_ok_update attempts_ok_update budgets_ok_update)

lemma sql_update_none [simp]: "sql_update (\<lambda>_. False) f rows = rows"
  by (simp add: sql_update_def)

lemma queue_ok_update_tasks:
  assumes "queue_ok d" "\<And>t. t \<in> set (db_tasks d) \<Longrightarrow> P t \<Longrightarrow> row_step t (f t)"
  shows "queue_ok (update_tasks P f d)"
  by (rule queue_ok_update[OF assms(1,2), where Q = "\<lambda>_. False" and g = "\<lambda>a. a"])
    (simp_all add: update_tasks_def)

end
