(* ===== verification/Queue_Steps.thy ===== *)
theory Queue_Steps
  imports Queue_Inv
begin

text \<open>
  Every operation of the kernel keeps the queue invariant: admission, claim, heartbeat,
  publication, failure, recovery and preflight quarantine. Each lemma is about the whole
  handler; the shapes of the handlers' results come first.
\<close>

section \<open>Admission\<close>

lemma update_tasks_fields [simp]:
  "db_tasks (update_tasks P f d) = sql_update P f (db_tasks d)"
  "db_task_seq (update_tasks P f d) = db_task_seq d" "db_attempts (update_tasks P f d) = db_attempts d"
  "db_runs (update_tasks P f d) = db_runs d" "db_heads (update_tasks P f d) = db_heads d"
  "db_pages (update_tasks P f d) = db_pages d" "db_reviews (update_tasks P f d) = db_reviews d"
  "db_days (update_tasks P f d) = db_days d" "db_generations (update_tasks P f d) = db_generations d"
  "db_gen_seq (update_tasks P f d) = db_gen_seq d" "db_sections (update_tasks P f d) = db_sections d" "db_facts (update_tasks P f d) = db_facts d"
  by (simp_all add: update_tasks_def)

lemma insert_task_fields [simp]:
  "db_tasks (insert_task t d) = db_tasks d @ [t]"
  "db_task_seq (insert_task t d) = t_id t" "db_attempts (insert_task t d) = db_attempts d"
  "db_runs (insert_task t d) = db_runs d" "db_heads (insert_task t d) = db_heads d"
  "db_pages (insert_task t d) = db_pages d" "db_reviews (insert_task t d) = db_reviews d"
  by (simp_all add: insert_task_def)

lemma queue_ok_heads: "queue_ok d \<Longrightarrow> queue_ok (upsert_source_head j task epoch d)"
  by (erule queue_ok_cong) (simp_all add: upsert_source_head_def Let_def)

lemma task_tokens_none: "(\<And>a. a \<in> set as \<Longrightarrow> a_task a \<noteq> i) \<Longrightarrow> task_tokens as i = 0"
  by (simp add: task_tokens_def filter_False)

lemma run_tokens_none: "(\<And>a. a \<in> set as \<Longrightarrow> a_run a \<noteq> Some r) \<Longrightarrow> run_tokens as r = 0"
  by (simp add: run_tokens_def filter_False)

lemma queue_ok_attempt_task:
  "queue_ok d \<Longrightarrow> a \<in> set (db_attempts d) \<Longrightarrow> \<exists>t\<in>set (db_tasks d). attempt_of t a"
  by (auto simp: queue_ok_def attempts_ok_def)

lemma queue_ok_insert_task:
  assumes ok: "queue_ok d" and i: "t_id t = db_task_seq d + 1"
    and new: "\<forall>r\<in>set (db_tasks d). task_key r \<noteq> task_key t"
    and t: "task_ok t" "t_status t \<noteq> Running" "t_reserved t = 0"
  shows "queue_ok (insert_task t d)"
proof -
  have ids: "\<forall>r\<in>set (db_tasks d). t_id r \<noteq> t_id t"
    using ok i by (auto simp: queue_ok_def tasks_ok_def)
  then have "task_tokens (db_attempts d) (t_id t) = 0"
    using queue_ok_attempt_task[OF ok] by (intro task_tokens_none) (metis attempt_of_def)
  moreover have "tasks_ok (db_tasks d @ [t]) (t_id t)"
    using ok i new t ids by (auto simp: queue_ok_def tasks_ok_def intro: keyed_snoc)
  moreover have "attempts_ok (db_tasks d @ [t]) (db_attempts d)"
    using ok t by (auto simp: queue_ok_def attempts_ok_def)
  ultimately show ?thesis
    using ok t by (auto simp: queue_ok_def budgets_ok_def)
qed

lemma find_task_SomeD:
  "find_task j d = Some t \<Longrightarrow> t \<in> set (db_tasks d) \<and> task_key t = job_key j"
  unfolding find_task_def by (rule sql_first_SomeD)

lemma find_task_NoneD: "find_task j d = None \<Longrightarrow> \<forall>t\<in>set (db_tasks d). task_key t \<noteq> job_key j"
  by (auto simp: find_task_def sql_first_None)

lemma new_task_ok:
  "0 \<le> j_max_retries j \<Longrightarrow> task_ok (new_task j i Pending None)"
  "task_ok (new_task j i Succeeded (Some RSkipped))"
  "task_key (new_task j i st res) = job_key j" "t_id (new_task j i st res) = i"
  "t_reserved (new_task j i st res) = 0" "t_status (new_task j i st res) = st"
  by (auto simp: new_task_def task_ok_def active_def task_key_def job_key_def)

lemma queue_ok_record_skipped:
  assumes "queue_ok d" "record_skipped_task j d = (task, epoch, d')"
  shows "queue_ok d'"
proof (cases "find_task j d")
  case None
  then show ?thesis
    using assms find_task_NoneD[OF None]
    by (auto simp: record_skipped_task_def new_task_ok intro!: queue_ok_insert_task)
next
  case (Some t)
  then show ?thesis
    using assms
    by (auto simp: record_skipped_task_def intro!: queue_ok_update_tasks row_step_skip dest: queue_ok_task)
qed

lemma queue_ok_admit_task:
  assumes "queue_ok d" "0 \<le> j_max_retries j" "admit_task j force d = (r, d')"
  shows "queue_ok d'"
proof (cases "find_task j d")
  case None
  have "queue_ok (insert_task (new_task j (db_task_seq d + 1) Pending None) d)"
    using assms(1,2) find_task_NoneD[OF None] by (intro queue_ok_insert_task) (auto simp: new_task_ok)
  then show ?thesis
    using assms(3) None by (auto simp: admit_task_def Let_def intro: queue_ok_heads)
next
  case (Some t)
  have "queue_ok (update_tasks (\<lambda>r. t_id r = t_id t) (refresh_set j) d)"
    "queue_ok (update_tasks (\<lambda>r. t_id r = t_id t) (requeue_set j) d)"
    using assms(1,2)
    by (auto intro!: queue_ok_update_tasks row_step_refresh row_step_requeue dest: queue_ok_task)
  then show ?thesis
    using assms(1,3) Some by (auto simp: admit_task_def intro: queue_ok_heads split: if_splits)
qed

lemma queue_ok_facts: "queue_ok d \<Longrightarrow> facts_only d d' \<Longrightarrow> queue_ok d'"
  unfolding facts_only_def by (erule queue_ok_cong) (cases d'; simp)+

lemma queue_ok_admit_job:
  assumes "queue_ok d" "0 \<le> j_max_retries j" "admit_job_on policy force j d = (r, d')"
  shows "queue_ok d'"
proof -
  from assms(3) consider "d' = d" | "admit_task j force d = (r, d')"
    | task epoch d1 where "record_skipped_task j d = (task, epoch, d1)" "d' = upsert_source_head j task epoch d1"
    by (auto simp: admit_job_on_def split: option.splits if_splits prod.splits)
  then show ?thesis
    using assms(1,2) by cases (auto intro: queue_ok_admit_task queue_ok_heads queue_ok_record_skipped)
qed

text \<open>An admission changes nothing, or writes facts and then runs the decision on its job.\<close>

lemma admit_compile_cases:
  assumes "admit_compile_on_conn X ps ctx policy schema force now d = Inr (r, d')"
  obtains (same) "d' = d" "r = Skipped \<or> r = Rejected ''source_revision_conflict''"
  | (job) d1 j where "facts_only d d1" "admit_job_on policy force j d1 = (r, d')"
      "j_max_retries j = int (cpl_max_retries policy)" "j_entity j = to_key (raw_id (ps_full ps))"
      "j_revision j = int (raw_revision (ps_full ps))" "j_snapshot j = ps_snapshot ps"
      "content_hash X (ps_knowledge ps) ctx policy schema = Inr (j_desired j)"
      "\<And>h. sql_first (\<lambda>h. h_entity h = to_key (raw_id (ps_full ps))) (db_heads d) = Some h \<Longrightarrow>
         h_revision h \<le> j_revision j"
proof -
  let ?head = "sql_first (\<lambda>h. h_entity h = to_key (raw_id (ps_full ps))) (db_heads d)"
  obtain revision where rv: "revision_to_i64 (raw_revision (ps_full ps)) = Inr revision"
    using assms by (auto simp: admit_compile_on_conn_def)
  then have n: "revision = int (raw_revision (ps_full ps))"
    by (auto simp: revision_to_i64_def split: if_splits)
  have ident: thesis if "facts_only d d1" "admit_identity X ps ctx policy schema force revision now d1 = Inr (r, d')"
    "\<And>h. ?head = Some h \<Longrightarrow> h_revision h \<le> revision" for d1
    using that n by (auto simp: admit_identity_def intro!: job)
  show thesis
  proof (cases ?head)
    case None
    then show thesis
      using assms rv by (auto simp: admit_compile_on_conn_def intro!: ident dest: write_facts_cas_only)
  next
    case (Some h)
    show thesis
    proof (cases "revision < h_revision h \<or> (revision = h_revision h \<and> ps_snapshot ps \<noteq> h_snapshot h)")
      case True
      then show thesis using assms rv Some same by (auto simp: admit_compile_on_conn_def split: if_splits)
    next
      case False
      then show thesis
        using assms rv Some
        by (auto simp: admit_compile_on_conn_def intro!: ident dest: write_facts_cas_only split: if_splits)
    qed
  qed
qed

lemma queue_ok_admit:
  assumes "queue_ok d" "admit_compile_on_conn X ps ctx policy schema force now d = Inr (r, d')"
  shows "queue_ok d'"
  using assms(2)
proof (cases rule: admit_compile_cases)
  case same
  with assms(1) show ?thesis by simp
next
  case (job d1 j)
  have "queue_ok d1" using queue_ok_facts[OF assms(1) job(1)] .
  then show ?thesis using queue_ok_admit_job[OF _ _ job(2)] job(3) by simp
qed

section \<open>Claim\<close>

lemma queue_ok_open_run: "queue_ok d \<Longrightarrow> queue_ok (open_run run limit now d)"
proof (cases "sql_exists (\<lambda>r. r_id r = run) (db_runs d)")
  case False
  assume ok: "queue_ok d"
  from False have no: "run \<notin> r_id ` set (db_runs d)" by (auto simp: sql_exists_iff)
  have "run_tokens (db_attempts d) run = 0"
    using ok no by (intro run_tokens_none) (auto simp: queue_ok_def budgets_ok_def split: option.splits)
  then have "budgets_ok (db_tasks d) (db_attempts d) (db_runs (open_run run limit now d))"
    using ok False no
    by (auto simp: queue_ok_def budgets_ok_def open_run_def sql_insert_ignore_def intro!: keyed_snoc
        split: option.splits)
  then show ?thesis using ok by (simp add: queue_ok_def open_run_def)
qed (simp add: open_run_def sql_insert_ignore_def)

lemma queue_ok_open_day: "queue_ok d \<Longrightarrow> queue_ok (open_day day daily d)"
  by (erule queue_ok_cong) (simp_all add: open_day_def split: option.splits)

lemma reserve_fields [simp]:
  "db_tasks (reserve_tokens b task run day d) = sql_update (\<lambda>t. t_id t = task) (reserve_task b) (db_tasks d)"
  "db_runs (reserve_tokens b task run day d) = sql_update (\<lambda>r. r_id r = run) (reserve_run b) (db_runs d)"
  "db_attempts (reserve_tokens b task run day d) = db_attempts d"
  "db_task_seq (reserve_tokens b task run day d) = db_task_seq d"
  by (simp_all add: reserve_tokens_def)

interpretation reserve_task: keeps_key t_id "reserve_task b" for b
  by unfold_locales (simp add: reserve_task_def)

interpretation reserve_run: keeps_key r_id "reserve_run b" for b
  by unfold_locales (simp add: reserve_run_def)

interpretation reserve_day: keeps_key d_day "reserve_day b" for b
  by unfold_locales (simp add: reserve_day_def)

text \<open>The row a claim leaves, and the table around it.\<close>

definition leased_row :: "int \<Rightarrow> int \<Rightarrow> string \<Rightarrow> task_row \<Rightarrow> task_row" where
  "leased_row b now token t = running_set now token (reserve_task b t)"

lemma leased_row_ok: "task_ok t \<Longrightarrow> t_status t = Pending \<Longrightarrow> t_retries t < t_max_retries t \<Longrightarrow> task_ok (leased_row b now token t)"
  by (auto simp: task_ok_def active_def leased_row_def running_set_def reserve_task_def)

lemma leased_row_simps [simp]:
  "t_id (leased_row b now token t) = t_id t" "task_key (leased_row b now token t) = task_key t"
  "t_epoch (leased_row b now token t) = t_epoch t" "t_attempts (leased_row b now token t) = t_attempts t + 1"
  "t_token (leased_row b now token t) = Some token" "t_reserved (leased_row b now token t) = t_reserved t + b"
  "t_status (leased_row b now token t) = Running"
  "t_expires (leased_row b now token t) = Some (now + lease_window_seconds)"
  "t_entity (leased_row b now token t) = t_entity t" "t_desired (leased_row b now token t) = t_desired t"
  by (simp_all add: leased_row_def running_set_def reserve_task_def task_key_def)

interpretation leased_row: keeps_key t_id "leased_row b now token" for b now token
  by unfold_locales simp

lemma new_attempt_simps [simp]:
  "attempt_key (new_attempt t no token run day b now) = (t_id t, t_epoch t, no)"
  "a_token (new_attempt t no token run day b now) = token"
  "a_reserved (new_attempt t no token run day b now) = b" "a_run (new_attempt t no token run day b now) = Some run"
  "a_task (new_attempt t no token run day b now) = t_id t" "a_epoch (new_attempt t no token run day b now) = t_epoch t"
  "a_no (new_attempt t no token run day b now) = no" "a_status (new_attempt t no token run day b now) = Reserved"
  by (simp_all add: new_attempt_def attempt_key_def)

lemma queue_ok_next_attempt:
  assumes "queue_ok d" "t \<in> set (db_tasks d)"
  shows "\<forall>a\<in>set (db_attempts d). attempt_key a \<noteq> (t_id t, t_epoch t, t_attempts t + 1)"
proof
  fix a assume "a \<in> set (db_attempts d)"
  then obtain r where r: "r \<in> set (db_tasks d)" "attempt_of r a"
    using queue_ok_attempt_task[OF assms(1)] by blast
  show "attempt_key a \<noteq> (t_id t, t_epoch t, t_attempts t + 1)"
  proof
    assume k: "attempt_key a = (t_id t, t_epoch t, t_attempts t + 1)"
    then have "r = t" using queue_ok_unique[OF assms(1) r(1) assms(2)] r(2)
      by (simp add: attempt_of_def attempt_key_def)
    with k r(2) show False by (simp add: attempt_of_def attempt_key_def)
  qed
qed

lemma grant_lease_Ok:
  assumes ok: "queue_ok d" and t: "t \<in> set (db_tasks d)" "t_status t = Pending"
    and g: "grant_lease t source deps b run token now d = Inr (l, d')"
  shows "d' = d\<lparr>db_tasks := sql_update (\<lambda>r. t_id r = t_id t) (leased_row b now token) (db_tasks d),
                db_runs := sql_update (\<lambda>r. r_id r = run) (reserve_run b) (db_runs d),
                db_days := sql_update (\<lambda>r. d_day r = now div 86400) (reserve_day b) (db_days d),
                db_attempts := db_attempts d @ [new_attempt t (t_attempts t + 1) token run (now div 86400) b now]\<rparr>"
    and "l = Some \<lparr>tl_task = t_id t, tl_epoch = t_epoch t, tl_token = token, tl_hash = t_desired t,
                   tl_attempt = nat (t_attempts t + 1), tl_source = source, tl_context = sd_context deps\<rparr>"
    and "t_attempts t + 1 < 2 ^ 32"
proof -
  let ?P = "\<lambda>r. t_id r = t_id t \<and> t_status r = Pending \<and> t_epoch r = t_epoch t"
  have same: "r = t" if "r \<in> set (db_tasks d)" "t_id r = t_id t" for r
    using queue_ok_unique[OF ok that(1) t(1) that(2)] .
  have "sql_update ?P (running_set now token) (sql_update (\<lambda>r. t_id r = t_id t) (reserve_task b) (db_tasks d))
      = sql_update (\<lambda>r. t_id r = t_id t) (leased_row b now token) (db_tasks d)"
    unfolding sql_update_def map_map
  proof (rule map_cong[OF refl])
    fix r assume "r \<in> set (db_tasks d)"
    then show "((\<lambda>r. if ?P r then running_set now token r else r) \<circ>
        (\<lambda>r. if t_id r = t_id t then reserve_task b r else r)) r
        = (if t_id r = t_id t then leased_row b now token r else r)"
      using same[of r] t(2) by (auto simp: leased_row_def reserve_task_def)
  qed
  then show "d' = d\<lparr>db_tasks := sql_update (\<lambda>r. t_id r = t_id t) (leased_row b now token) (db_tasks d),
                db_runs := sql_update (\<lambda>r. r_id r = run) (reserve_run b) (db_runs d),
                db_days := sql_update (\<lambda>r. d_day r = now div 86400) (reserve_day b) (db_days d),
                db_attempts := db_attempts d @ [new_attempt t (t_attempts t + 1) token run (now div 86400) b now]\<rparr>"
    using g by (auto simp: grant_lease_def insert_attempt_def reserve_tokens_def update_tasks_def Let_def
        split: if_splits)
  from g show "l = Some \<lparr>tl_task = t_id t, tl_epoch = t_epoch t, tl_token = token, tl_hash = t_desired t,
                   tl_attempt = nat (t_attempts t + 1), tl_source = source, tl_context = sd_context deps\<rparr>"
    "t_attempts t + 1 < 2 ^ 32"
    by (auto simp: grant_lease_def Let_def split: if_splits)
qed

lemma claim_next_SomeD:
  assumes "claim_next ids now d = Some t"
  shows "t \<in> set (db_tasks d)" "claimable ids now t"
    "\<And>r. r \<in> set (db_tasks d) \<Longrightarrow> claimable ids now r \<Longrightarrow> (t_next_at t, t_id t) \<le> (t_next_at r, t_id r)"
  using sql_first_by_SomeD[OF assms[unfolded claim_next_def]] by auto

lemma open_fields [simp]:
  "db_tasks (open_run run limit now d) = db_tasks d" "db_attempts (open_run run limit now d) = db_attempts d"
  "db_tasks (open_day day daily d) = db_tasks d" "db_attempts (open_day day daily d) = db_attempts d"
  "db_runs (open_day day daily d) = db_runs d" "db_days (open_run run limit now d) = db_days d"
  "db_task_seq (open_run run limit now d) = db_task_seq d" "db_task_seq (open_day day daily d) = db_task_seq d"
  by (simp_all add: open_run_def open_day_def split: option.splits)

lemma claim_cases:
  assumes "claim_in_transaction X ids run token now d = Inr (l, d')"
  obtains (idle) "l = None" "db_tasks d' = db_tasks d" "db_attempts d' = db_attempts d" "queue_ok d \<Longrightarrow> queue_ok d'"
  | (granted) t source deps b r where "claim_next ids now d = Some t"
      "x_parse_source X (t_source t) = Some source" "x_parse_deps X (t_deps t) = Some deps"
      "estimate_budget_units (cx_prompt (sd_context deps)) (t_source t) (cpl_max_output (sd_policy deps)) = Inr b"
      "t_reserved t + b \<le> t_budget t"
      "find_run run (open_run run (as_i64_cast (cpl_batch_budget (sd_policy deps))) now d) = Some r"
      "r_reserved r + b \<le> r_limit r"
      "\<And>day. find_day (now div 86400) (open_day (now div 86400) (cpl_daily_budget (sd_policy deps)) d) = Some day
         \<Longrightarrow> d_reserved day + b \<le> d_limit day"
      "grant_lease t source deps b run token now
         (open_day (now div 86400) (cpl_daily_budget (sd_policy deps))
           (open_run run (as_i64_cast (cpl_batch_budget (sd_policy deps))) now d)) = Inr (l, d')"
proof (cases "claim_next ids now d")
  case None
  then show thesis using assms idle by (simp add: claim_in_transaction_def)
next
  case (Some t)
  from assms Some obtain source deps b fit where p: "x_parse_source X (t_source t) = Some source"
    "x_parse_deps X (t_deps t) = Some deps"
    "estimate_budget_units (cx_prompt (sd_context deps)) (t_source t) (cpl_max_output (sd_policy deps)) = Inr b"
    "fits (t_reserved t) b (t_budget t) = Inr fit"
    by (auto simp: claim_in_transaction_def)
  let ?d1 = "open_run run (as_i64_cast (cpl_batch_budget (sd_policy deps))) now d"
  let ?d2 = "open_day (now div 86400) (cpl_daily_budget (sd_policy deps)) ?d1"
  have day: "find_day (now div 86400) ?d2
      = find_day (now div 86400) (open_day (now div 86400) (cpl_daily_budget (sd_policy deps)) d)"
    by (simp add: find_day_def open_day_def open_run_def split: option.splits)
  show thesis
  proof (cases fit)
    case False
    then show thesis using assms Some p by (auto simp: claim_in_transaction_def intro!: idle)
  next
    case True
    then obtain r rfit where r: "find_run run ?d1 = Some r" "fits (r_reserved r) b (r_limit r) = Inr rfit"
      using assms Some p by (auto simp: claim_in_transaction_def Let_def)
    show thesis
    proof (cases rfit)
      case False
      then show thesis
        using assms Some p r True idle queue_ok_open_run by (auto simp: claim_in_transaction_def Let_def)
    next
      case rfit: True
      then obtain dfit where df: "(case find_day (now div 86400) ?d2 of None \<Rightarrow> Inr True
          | Some day \<Rightarrow> fits (d_reserved day) b (d_limit day)) = Inr dfit"
        and res: "(if \<not> dfit then Inr (None, ?d2) else grant_lease t source deps b run token now ?d2) = Inr (l, d')"
        using assms Some p r True by (auto simp: claim_in_transaction_def Let_def)
      show thesis
      proof (cases dfit)
        case False
        then show thesis using res idle queue_ok_open_run queue_ok_open_day by auto
      next
        case True
        then show thesis
          using granted[OF Some p(1,2,3)] p(4) \<open>fit\<close> r rfit df res day
          by (auto simp: fits_Ok split: option.splits)
      qed
    qed
  qed
qed

text \<open>The claim keeps the invariant when its token is fresh.\<close>

lemma tokens_snoc:
  "task_tokens (as @ [a]) i = task_tokens as i + (if a_task a = i then a_reserved a else 0)"
  "run_tokens (as @ [a]) r = run_tokens as r + (if a_run a = Some r then a_reserved a else 0)"
  by (simp_all add: task_tokens_def run_tokens_def)

lemma queue_ok_grant:
  assumes ok: "queue_ok d" and t: "t \<in> set (db_tasks d)" "t_status t = Pending" and left: "t_retries t < t_max_retries t"
    and g: "grant_lease t source deps b run token now d = Inr (l, d')"
    and fresh: "token \<notin> a_token ` set (db_attempts d)" and b: "0 < b"
    and r: "find_run run d = Some r" "r_reserved r + b \<le> r_limit r"
  shows "queue_ok d'"
proof -
  let ?new = "new_attempt t (t_attempts t + 1) token run (now div 86400) b now"
  let ?f = "leased_row b now token"
  let ?ts = "sql_update (\<lambda>r. t_id r = t_id t) ?f (db_tasks d)" and ?as = "db_attempts d @ [?new]"
  note d' = grant_lease_Ok(1)[OF ok t g]
  have same: "x = t" if "x \<in> set (db_tasks d)" "t_id x = t_id t" for x
    using queue_ok_unique[OF ok that(1) t(1) that(2)] .
  have tk: "task_ok t" using ok t(1) by (rule queue_ok_task)
  have rows: "x = ?f t \<or> x \<in> set (db_tasks d) \<and> t_id x \<noteq> t_id t" if "x \<in> set ?ts" for x
  proof -
    from that obtain r0 where r0: "r0 \<in> set (db_tasks d)" "x = (if t_id r0 = t_id t then ?f r0 else r0)"
      by (auto simp: set_sql_update)
    then show ?thesis using same[OF r0(1)] by (cases "t_id r0 = t_id t") auto
  qed
  have mem: "?f t \<in> set ?ts" "\<And>x. x \<in> set (db_tasks d) \<Longrightarrow> t_id x \<noteq> t_id t \<Longrightarrow> x \<in> set ?ts"
    using t(1) by (auto simp: set_sql_update)
  have "map t_id ?ts = map t_id (db_tasks d)" "map task_key ?ts = map task_key (db_tasks d)"
    by (auto intro!: map_key_sql_update)
  moreover have "t_id x \<le> db_task_seq d \<and> task_ok x" if "x \<in> set ?ts" for x
    using rows[OF that] leased_row_ok[OF tk t(2) left] t(1) ok by (auto simp: queue_ok_def tasks_ok_def)
  ultimately have "tasks_ok ?ts (db_task_seq d)"
    using ok by (simp add: queue_ok_def tasks_ok_def keyed_def)
  moreover have "attempts_ok ?ts ?as"
  proof -
    have "\<exists>x\<in>set ?ts. attempt_of x a" if a: "a \<in> set (db_attempts d)" for a
    proof -
      obtain x where x: "x \<in> set (db_tasks d)" "attempt_of x a" using queue_ok_attempt_task[OF ok a] by blast
      show ?thesis
      proof (cases "t_id x = t_id t")
        case True
        with x same[OF x(1)] have "attempt_of (?f t) a" by (auto simp: attempt_of_def)
        with mem(1) show ?thesis by blast
      next
        case False
        with x mem(2) show ?thesis by blast
      qed
    qed
    moreover have new: "attempt_of (?f t) ?new" "reserved_attempt (?f t) ?new" "0 \<le> t_attempts t + 1"
      using tk by (auto simp: attempt_of_def reserved_attempt_def current_attempt_def task_ok_def)
    moreover have "\<exists>a\<in>set ?as. reserved_attempt x a" if "x \<in> set ?ts" "t_status x = Running" for x
      using rows[OF that(1)] new(2) that(2) ok by (auto simp: queue_ok_def attempts_ok_def)
    moreover have "\<forall>a\<in>set (db_attempts d). attempt_key a \<noteq> attempt_key ?new \<and> a_token a \<noteq> a_token ?new"
      using queue_ok_next_attempt[OF ok t(1)] fresh by auto
    ultimately show ?thesis
      using ok b mem(1) unfolding queue_ok_def attempts_ok_def
      by (intro conjI ballI impI keyed_snoc) auto
  qed
  moreover have "budgets_ok ?ts ?as (sql_update (\<lambda>r. r_id r = run) (reserve_run b) (db_runs d))"
  proof -
    have keyed: "keyed r_id (db_runs d)" using ok by (simp add: queue_ok_def budgets_ok_def)
    have rr: "r \<in> set (db_runs d)" "r_id r = run" using r(1) by (auto simp: find_run_def dest: sql_first_SomeD)
    have "r_reserved x = run_tokens ?as (r_id x) \<and> (r_reserved x = 0 \<or> r_reserved x \<le> r_limit x)"
      if "x \<in> set (sql_update (\<lambda>r. r_id r = run) (reserve_run b) (db_runs d))" for x
    proof -
      from that obtain x0 where x0: "x0 \<in> set (db_runs d)" "x = (if r_id x0 = run then reserve_run b x0 else x0)"
        by (auto simp: set_sql_update)
      have "r_reserved x0 = run_tokens (db_attempts d) (r_id x0)" "r_reserved x0 = 0 \<or> r_reserved x0 \<le> r_limit x0"
        using queue_ok_tokens(2,3)[OF ok x0(1)] by blast+
      moreover have "x0 = r" if "r_id x0 = run" using keyed_unique[OF keyed x0(1) rr(1)] that rr(2) by simp
      ultimately show ?thesis
        using x0(2) r(2) by (cases "r_id x0 = run") (auto simp: tokens_snoc reserve_run_def)
    qed
    moreover have "t_reserved x = task_tokens ?as (t_id x)" if "x \<in> set ?ts" for x
      using rows[OF that]
    proof (elim disjE conjE)
      assume "x = ?f t"
      then show ?thesis by (simp add: tokens_snoc queue_ok_tokens(1)[OF ok t(1)])
    next
      assume "x \<in> set (db_tasks d)" "t_id x \<noteq> t_id t"
      then show ?thesis using queue_ok_tokens(1)[OF ok, of x] by (simp add: tokens_snoc)
    qed
    moreover have rid: "r_id ` set (sql_update (\<lambda>r. r_id r = run) (reserve_run b) (db_runs d)) = r_id ` set (db_runs d)"
      by (metis list.set_map reserve_run.map_key_update)
    moreover have "case a_run a of None \<Rightarrow> a_reserved a = 0 | Some r \<Rightarrow> r \<in> r_id ` set (db_runs d)"
      if "a \<in> set ?as" for a
      using that queue_ok_tokens(4)[OF ok, of a] rr by auto
    ultimately show ?thesis
      using keyed unfolding budgets_ok_def reserve_run.keyed_update rid by blast
  qed
  ultimately show ?thesis by (simp add: queue_ok_def d')
qed

lemma queue_ok_claim:
  assumes ok: "queue_ok d" and c: "claim_in_transaction X ids run token now d = Inr (l, d')"
    and fresh: "token \<notin> a_token ` set (db_attempts d)"
  shows "queue_ok d'"
  using c
proof (cases rule: claim_cases)
  case idle
  with ok show ?thesis by simp
next
  case (granted t source deps b r)
  have "queue_ok (open_day (now div 86400) (cpl_daily_budget (sd_policy deps))
      (open_run run (as_i64_cast (cpl_batch_budget (sd_policy deps))) now d))"
    by (intro queue_ok_open_day queue_ok_open_run ok)
  then show ?thesis
    using claim_next_SomeD[OF granted(1)] estimate_pos[OF granted(4)] fresh granted(6,7)
    by (intro queue_ok_grant[OF _ _ _ _ granted(9)]) (auto simp: claimable_def find_run_def)
qed

end
