(* ===== verification/Queue_Finish.thy ===== *)
theory Queue_Finish
  imports Queue_Steps
begin

text \<open>
  The finishing operations keep the queue invariant: heartbeat, publication, the three
  failures, recovery and the preflight quarantine. Also what their statements rely on: the
  reserved attempt of a live lease exists, and a publication touches the page tables only
  besides the queue.
\<close>

section \<open>Heartbeat\<close>

lemma queue_ok_heartbeat: "queue_ok d \<Longrightarrow> queue_ok (snd (heartbeat_compile l now d))"
  unfolding heartbeat_compile_def Let_def snd_conv
  by (rule queue_ok_update_tasks) (auto intro: row_step_heartbeat dest: queue_ok_task simp: live_task_def)

section \<open>Finishing a lease\<close>

lemma set_status [simp]:
  "t_status (accept_task_set now t) = Succeeded" "t_status (dead_set res code now t) = Dead"
  "t_status (pending_set due now t) = Pending" "t_status (failed_set code now t) = FailedStatus"
  "t_status (superseded_set now t) = Succeeded" "t_status (skip_set now t) = Succeeded"
  by (simp_all add: accept_task_set_def dead_set_def pending_set_def failed_set_def superseded_set_def
      skip_set_def)

definition same_queue :: "db \<Rightarrow> db \<Rightarrow> bool" where
  "same_queue d d' \<longleftrightarrow> db_tasks d' = db_tasks d \<and> db_task_seq d' = db_task_seq d
     \<and> db_attempts d' = db_attempts d \<and> db_runs d' = db_runs d"

lemma queue_ok_same: "queue_ok d \<Longrightarrow> same_queue d d' \<Longrightarrow> queue_ok d'"
  unfolding same_queue_def by (elim conjE) (rule queue_ok_cong)

lemma same_queue_refl [simp]: "same_queue d d"
  by (simp add: same_queue_def)

lemma same_queue_trans: "same_queue a b \<Longrightarrow> same_queue b c \<Longrightarrow> same_queue a c"
  by (simp add: same_queue_def)

lemma update_one_attempt_Ok:
  "update_one_attempt l f d = Inr d' \<longleftrightarrow>
     sql_count (lease_attempt l) (db_attempts d) = 1
     \<and> d' = d\<lparr>db_attempts := sql_update (lease_attempt l) f (db_attempts d)\<rparr>"
  by (auto simp: update_one_attempt_def)

lemma update_leased_task_Ok:
  "update_leased_task l f d = Inr d' \<longleftrightarrow>
     sql_count (lease_task l) (db_tasks d) = 1 \<and> d' = update_tasks (lease_task l) f d"
  by (auto simp: update_leased_task_def)

lemma reserved_attempt_leased:
  assumes "queue_ok d" "t \<in> set (db_tasks d)" "lease_attempt l a" "reserved_attempt t a"
  shows "lease_task l t"
proof -
  have "t_token t \<noteq> None" using assms(4) unfolding reserved_attempt_def by (metis option.distinct(1))
  with queue_ok_task[OF assms(1,2)] have "t_status t = Running" by (simp add: task_ok_def)
  with assms(3,4) show ?thesis
    by (auto simp: lease_attempt_def lease_task_def reserved_attempt_def current_attempt_def)
qed

lemma queue_ok_finish:
  assumes ok: "queue_ok d"
    and a: "update_one_attempt l g d = Inr d1" "\<And>a. attempt_step a (g a)"
    and t: "update_leased_task l f d1 = Inr d2"
    and f: "\<And>t. t \<in> set (db_tasks d) \<Longrightarrow> lease_task l t \<Longrightarrow> row_step t (f t) \<and> t_status (f t) \<noteq> Running"
  shows "queue_ok d2"
proof (rule queue_ok_update[OF ok, where P = "lease_task l" and f = f and Q = "lease_attempt l" and g = g])
  show "db_tasks d2 = sql_update (lease_task l) f (db_tasks d)"
    "db_attempts d2 = sql_update (lease_attempt l) g (db_attempts d)"
    "db_task_seq d2 = db_task_seq d" "db_runs d2 = db_runs d"
    using a(1) t by (auto simp: update_one_attempt_Ok update_leased_task_Ok)
  show "row_step t (f t)" if "t \<in> set (db_tasks d)" "lease_task l t" for t using f[OF that] by blast
  show "attempt_step a (g a)" for a by (rule a(2))
  show "lease_task l t \<and> t_status (f t) \<noteq> Running"
    if "t \<in> set (db_tasks d)" "lease_attempt l a" "reserved_attempt t a" for t a
    using reserved_attempt_leased[OF ok that] f[OF that(1)] by blast
qed

section \<open>Publication\<close>

lemma write_page_tables_frame:
  assumes "write_page_tables X page report c deps fm revision now d = Inr (g, d')"
  shows "same_queue d d'" "db_heads d' = db_heads d" "db_reviews d' = db_reviews d" "db_facts d' = db_facts d"
    "db_refs d' = db_refs d" "db_days d' = db_days d"
  using assms
  by (auto simp: write_page_tables_def open_generation_def Let_def ensure_generation_sentinel_def
      write_page_def write_sections_def write_quality_def write_edges_def same_queue_def split: if_splits)

lemma queue_ok_publish_live:
  assumes "queue_ok d" "publish_live X t l page report c now d = Inr (r, d')"
  shows "queue_ok d'"
proof -
  from assms(2) obtain artifact deps fm g d1 cj d2 where
    w: "write_page_tables X page report c deps fm (t_revision t) now d = Inr (g, d1)"
    and a: "update_one_attempt l (accept_attempt_set artifact (x_report_text X report) cj now)
              (publish_generation g d1) = Inr d2"
    and u: "update_leased_task l (accept_task_set now) d2 = Inr d'"
    by (auto simp: publish_live_def)
  have "same_queue d (publish_generation g d1)"
    using write_page_tables_frame(1)[OF w] by (simp add: same_queue_def publish_generation_def)
  then have ok: "queue_ok (publish_generation g d1)" using assms(1) queue_ok_same by blast
  show ?thesis
    by (rule queue_ok_finish[OF ok a _ u])
      (auto dest: queue_ok_task[OF ok] intro: row_step_accept)
qed

lemma queue_ok_publish:
  assumes "queue_ok d" "publish_in_transaction X l page report c now d = Inr (r, d')"
  shows "queue_ok d'"
  using assms
  by (auto simp: publish_in_transaction_def intro: queue_ok_publish_live split: option.splits if_splits)

section \<open>Failures\<close>

lemma insert_review_same:
  assumes "insert_review dm ac su re ta now d = Inr (n, d')"
  shows "same_queue d d'" "db_heads d' = db_heads d" "db_pages d' = db_pages d"
    "db_generations d' = db_generations d" "db_gen_seq d' = db_gen_seq d" "db_sections d' = db_sections d"
proof -
  obtain rows s where d': "d' = d\<lparr>db_reviews := rows, db_review_seq := s\<rparr>"
    using insert_review_Ok(1)[OF assms] by blast
  show "same_queue d d'" "db_heads d' = db_heads d" "db_pages d' = db_pages d"
    "db_generations d' = db_generations d" "db_gen_seq d' = db_gen_seq d" "db_sections d' = db_sections d"
    by (simp_all add: d' same_queue_def)
qed

lemma dead_letter_for_same:
  "dead_letter_for X task epoch no code entity desired now d = Inr (n, d') \<Longrightarrow> same_queue d d'"
  by (auto simp: dead_letter_for_def enqueue_dead_letter_def intro: insert_review_same)

lemma quarantine_reviews_same:
  "quarantine_reviews X t l code conflict now d = Inr d' \<Longrightarrow> same_queue d d'"
  by (auto simp: quarantine_reviews_def enqueue_dead_letter_def split: if_splits
      intro: insert_review_same same_queue_trans)

text \<open>A row the lease selects is the row the handler read.\<close>

lemma lease_task_unique:
  "queue_ok d \<Longrightarrow> find_task_id (tl_task l) d = Some t \<Longrightarrow> r \<in> set (db_tasks d) \<Longrightarrow> lease_task l r \<Longrightarrow> r = t"
  using queue_ok_unique[of d r t] by (simp add: find_task_id_iff lease_task_def)

lemma queue_ok_fail_invalid:
  assumes ok: "queue_ok d" and t: "find_task_id (tl_task l) d = Some t" "t_status t = Running"
    and f: "fail_invalid X t deps l code cand report c now d = Inr (r, d')"
  shows "queue_ok d'"
proof -
  from f obtain artifact conflict d1 where
    a: "update_one_attempt l
          (quality_attempt_set (if cand = None then None else Some Candidate) artifact
             (x_report_text X report) (x_issues_text X (sc_issues report)) code
             (case conflict of Some text \<Rightarrow> text | None \<Rightarrow> ''{}'') now) d = Inr d1"
    and u: "(\<exists>d2. update_leased_task l (\<lambda>r. dead_set RQuarantined code now (recompiles_set (t_recompiles t + 1) r)) d1 = Inr d2
               \<and> quarantine_reviews X t l code conflict now d2 = Inr d')
          \<or> update_leased_task l (\<lambda>r. pending_set (now + backoff_seconds (t_retries t)) now
                 (recompiles_set (t_recompiles t + 1) r)) d1 = Inr d'"
    by (auto simp: fail_invalid_def Let_def split: if_splits)
  note same = lease_task_unique[OF ok t(1)]
  note tk = queue_ok_task[OF ok]
  from u show ?thesis
  proof (elim disjE exE conjE)
    fix d2 assume u: "update_leased_task l (\<lambda>r. dead_set RQuarantined code now (recompiles_set (t_recompiles t + 1) r)) d1 = Inr d2"
      and q: "quarantine_reviews X t l code conflict now d2 = Inr d'"
    have "queue_ok d2"
      by (rule queue_ok_finish[OF ok a _ u]) (auto intro: row_step_dead tk)
    then show ?thesis using quarantine_reviews_same[OF q] by (rule queue_ok_same)
  next
    assume u: "update_leased_task l (\<lambda>r. pending_set (now + backoff_seconds (t_retries t)) now
                 (recompiles_set (t_recompiles t + 1) r)) d1 = Inr d'"
    have "row_step t (pending_set (now + backoff_seconds (t_retries t)) now (recompiles_set (t_recompiles t + 1) t))"
      using t by (intro row_step_recompile tk) (simp_all add: find_task_id_iff[OF ok])
    then show ?thesis by (intro queue_ok_finish[OF ok a _ u]) (use same in auto)
  qed
qed

lemma queue_ok_fail_retryable:
  assumes ok: "queue_ok d" and t: "find_task_id (tl_task l) d = Some t" "t_status t = Running"
    and f: "fail_retryable X t l code ra now d = Inr (r, d')"
  shows "queue_ok d'"
proof -
  from f obtain d1 where a: "update_one_attempt l (error_attempt_set code now) d = Inr d1"
    and u: "(\<exists>d2 n. update_leased_task l (\<lambda>r. dead_set RFailed code now (retries_set (t_retries t + 1) r)) d1 = Inr d2
               \<and> dead_letter_for X (tl_task l) (tl_epoch l) (int (tl_attempt l)) code (t_entity t)
                   (t_desired t) now d2 = Inr (n, d'))
          \<or> (t_retries t + 1 < t_max_retries t \<and>
             update_leased_task l (\<lambda>r. pending_set (now + retry_delay ra (t_retries t + 1)) now
                 (retries_set (t_retries t + 1) r)) d1 = Inr d')"
    by (auto simp: fail_retryable_def Let_def not_le split: if_splits)
  note same = lease_task_unique[OF ok t(1)]
  note tk = queue_ok_task[OF ok]
  from u show ?thesis
  proof (elim disjE exE conjE)
    fix d2 n assume u: "update_leased_task l (\<lambda>r. dead_set RFailed code now (retries_set (t_retries t + 1) r)) d1 = Inr d2"
      and q: "dead_letter_for X (tl_task l) (tl_epoch l) (int (tl_attempt l)) code (t_entity t)
                   (t_desired t) now d2 = Inr (n, d')"
    have "queue_ok d2"
      by (rule queue_ok_finish[OF ok a _ u]) (auto intro: row_step_dead tk)
    then show ?thesis using dead_letter_for_same[OF q] by (rule queue_ok_same)
  next
    assume m: "t_retries t + 1 < t_max_retries t"
      and u: "update_leased_task l (\<lambda>r. pending_set (now + retry_delay ra (t_retries t + 1)) now
                 (retries_set (t_retries t + 1) r)) d1 = Inr d'"
    have "row_step t (pending_set (now + retry_delay ra (t_retries t + 1)) now (retries_set (t_retries t + 1) t))"
      using t m by (intro row_step_retry tk) (simp_all add: find_task_id_iff[OF ok])
    then show ?thesis by (intro queue_ok_finish[OF ok a _ u]) (use same in auto)
  qed
qed

lemma queue_ok_fail_permanent:
  assumes ok: "queue_ok d" and f: "fail_permanent l code now d = Inr (r, d')"
  shows "queue_ok d'"
proof -
  from f obtain d1 where a: "update_one_attempt l (error_attempt_set code now) d = Inr d1"
    and u: "update_leased_task l (failed_set code now) d1 = Inr d'"
    by (auto simp: fail_permanent_def)
  show ?thesis
    by (rule queue_ok_finish[OF ok a _ u]) (auto intro: row_step_failed queue_ok_task[OF ok])
qed

text \<open>A failure call either changes nothing or runs its branch on a live lease.\<close>

lemma failure_cases:
  assumes "finish_failure_in_transaction X l failure cand report c now d = Inr (r, d')"
  obtains (stale) "d' = d" "r = FailedTask" "\<And>t. find_task_id (tl_task l) d = Some t \<Longrightarrow> \<not> live_task l now t"
  | (live) t deps where "find_task_id (tl_task l) d = Some t" "live_task l now t"
      "x_parse_deps X (t_deps t) = Some deps"
      "case failure of
         InvalidOutput code _ \<Rightarrow> fail_invalid X t deps l code cand report c now d = Inr (r, d')
       | Retryable code ra \<Rightarrow> fail_retryable X t l code ra now d = Inr (r, d')
       | Permanent code \<Rightarrow> fail_permanent l code now d = Inr (r, d')"
proof (cases "find_task_id (tl_task l) d")
  case None
  with assms stale show thesis by (simp add: finish_failure_in_transaction_def)
next
  case (Some t)
  show thesis
  proof (cases "live_task l now t")
    case False
    with assms Some stale show thesis by (simp add: finish_failure_in_transaction_def)
  next
    case True
    from assms Some True obtain deps where "x_parse_deps X (t_deps t) = Some deps"
      by (auto simp: finish_failure_in_transaction_def)
    with assms Some True live show thesis
      by (cases failure) (simp_all add: finish_failure_in_transaction_def)
  qed
qed

lemma queue_ok_failure:
  assumes ok: "queue_ok d" and f: "finish_failure_in_transaction X l failure cand report c now d = Inr (r, d')"
  shows "queue_ok d'"
  using f
proof (cases rule: failure_cases)
  case stale
  with ok show ?thesis by simp
next
  case (live t deps)
  then have "t_status t = Running" by (simp add: live_task_def)
  then show ?thesis
    using live queue_ok_fail_invalid[OF ok live(1)] queue_ok_fail_retryable[OF ok live(1)]
      queue_ok_fail_permanent[OF ok]
    by (cases failure) auto
qed

section \<open>Recovery\<close>

lemma count_one:
  assumes "keyed key rows" "r \<in> set rows" "P r" "\<And>r'. P r' \<Longrightarrow> key r' = key r"
  shows "sql_count P rows = 1"
proof -
  have "sql_count P rows \<le> 1" using assms(1,4) by (rule keyed_count_le_1)
  moreover have "0 < sql_count P rows" using assms(2,3) by (auto simp: sql_count_pos_iff)
  ultimately show ?thesis by simp
qed

text \<open>
  The loop's row, as the handler finds it: one of three updates ends its lease, its attempt is
  abandoned, and the statistics count it once.
\<close>

lemma recover_one_Ok:
  assumes ok: "queue_ok d" and t: "t \<in> set (db_tasks d)" "expired_lease now t"
    and r: "recover_one X now t (s, d) = Inr (s', d')"
  obtains (ended) f Q where "row_step t (f t)" "t_status (f t) \<noteq> Running"
    "db_tasks d' = sql_update (recovery_target t) f (db_tasks d)"
    "db_attempts d' = sql_update Q (abandon_set now) (db_attempts d)"
    "\<And>a. Q a \<Longrightarrow> a_task a = t_id t \<and> Some (a_token a) = t_token t"
    "db_task_seq d' = db_task_seq d" "db_runs d' = db_runs d"
    "rs_scanned s' = rs_scanned s + 1" "recovered_tasks s' = recovered_tasks s + 1"
proof -
  let ?Q = "\<lambda>a. a_task a = t_id t \<and> a_epoch a = t_epoch t \<and> a_no a = t_attempts t
     \<and> Some (a_token a) = t_token t \<and> a_status a = Reserved"
  let ?d1 = "abandon_attempt t now d"
  have tk: "task_ok t" and run: "t_status t = Running"
    using queue_ok_task[OF ok t(1)] t(2) by (simp_all add: expired_lease_def)
  have ab: "db_tasks ?d1 = db_tasks d" "db_task_seq ?d1 = db_task_seq d" "db_runs ?d1 = db_runs d"
    "db_attempts ?d1 = sql_update ?Q (abandon_set now) (db_attempts d)"
    by (simp_all add: abandon_attempt_def)
  have hit: "sql_count (recovery_target t) (db_tasks d) = 1"
    using ok t(1) run
    by (intro count_one[where key = t_id and r = t]) (auto simp: queue_ok_def tasks_ok_def recovery_target_def)
  have upd: thesis if "row_step t (f t)" "t_status (f t) \<noteq> Running"
    "same_queue (update_tasks (recovery_target t) f ?d1) d'"
    "rs_scanned s' = rs_scanned s + 1" "recovered_tasks s' = recovered_tasks s + 1" for f
    using that ab by (intro ended[of f ?Q]) (auto simp: same_queue_def)
  let ?n = "t_retries t + 1"
  let ?sup = "case head_desired (t_entity t) ?d1 of None \<Rightarrow> False | Some h \<Rightarrow> h \<noteq> t_desired t"
  note rr = r[unfolded recover_one_def prod.case Let_def ab(1) hit]
  consider "?sup" | "\<not> ?sup" "t_max_retries t \<le> ?n" | "\<not> ?sup" "?n < t_max_retries t" by linarith
  then show thesis
  proof cases
    case 1
    with rr show thesis
      by (intro upd[of "superseded_set now"] row_step_superseded tk) (auto simp: recovered_tasks_def)
  next
    case 2
    let ?f = "\<lambda>r. dead_set RFailed ''lease_expired_retry_exhausted'' now (retries_set ?n r)"
    from 2 rr obtain n where l: "dead_letter_for X (t_id t) (t_epoch t) (t_attempts t)
        ''LEASE_EXPIRED_RETRY_EXHAUSTED'' (t_entity t) (t_desired t) now (update_tasks (recovery_target t) ?f ?d1)
        = Inr (n, d')" "rs_scanned s' = rs_scanned s + 1" "recovered_tasks s' = recovered_tasks s + 1"
      by (auto simp: recovered_tasks_def)
    then show thesis using dead_letter_for_same[OF l(1)] by (intro upd[of ?f] row_step_dead tk) auto
  next
    case 3
    with rr show thesis
      by (intro upd[of "\<lambda>r. pending_set (now + backoff_seconds ?n) now (retries_set ?n r)"] row_step_retry tk run)
        (auto simp: recovered_tasks_def)
  qed
qed

lemma queue_ok_recover_one:
  assumes ok: "queue_ok d" and t: "t \<in> set (db_tasks d)" "expired_lease now t"
    and r: "recover_one X now t (s, d) = Inr (s', d')"
  shows "queue_ok d'"
    and "\<And>r. r \<in> set (db_tasks d) \<Longrightarrow> t_id r \<noteq> t_id t \<Longrightarrow> r \<in> set (db_tasks d')"
    and "\<And>r. r \<in> set (db_tasks d') \<Longrightarrow> r \<in> set (db_tasks d) \<and> t_id r \<noteq> t_id t \<or> t_id r = t_id t \<and> t_status r \<noteq> Running"
    and "rs_scanned s' = rs_scanned s + 1" "recovered_tasks s' = recovered_tasks s + 1"
proof -
  from recover_one_Ok[OF ok t r] obtain f Q where ended: "row_step t (f t)" "t_status (f t) \<noteq> Running"
    "db_tasks d' = sql_update (recovery_target t) f (db_tasks d)"
    "db_attempts d' = sql_update Q (abandon_set now) (db_attempts d)"
    "\<And>a. Q a \<Longrightarrow> a_task a = t_id t \<and> Some (a_token a) = t_token t"
    "db_task_seq d' = db_task_seq d" "db_runs d' = db_runs d"
    "rs_scanned s' = rs_scanned s + 1" "recovered_tasks s' = recovered_tasks s + 1"
    by blast
  have same: "r = t" if "r \<in> set (db_tasks d)" "t_id r = t_id t" for r
    using queue_ok_unique[OF ok that(1) t(1) that(2)] .
  have target: "recovery_target t r \<longleftrightarrow> r = t" if "r \<in> set (db_tasks d)" for r
    using same[OF that] t(2) by (auto simp: recovery_target_def expired_lease_def)
  show "queue_ok d'"
  proof (rule queue_ok_update[OF ok, where P = "recovery_target t" and f = f and Q = Q and g = "abandon_set now"])
    show "row_step r (f r)" if "r \<in> set (db_tasks d)" "recovery_target t r" for r
      using target[OF that(1)] that(2) ended(1) by simp
    show "recovery_target t r \<and> t_status (f r) \<noteq> Running"
      if "r \<in> set (db_tasks d)" "Q a" "reserved_attempt r a" for r a
    proof -
      have "t_id r = t_id t" using ended(5)[OF that(2)] that(3) by (simp add: reserved_attempt_def current_attempt_def)
      then show ?thesis using same[OF that(1)] target[OF that(1)] ended(2) by simp
    qed
  qed (simp_all add: ended)
  show "r \<in> set (db_tasks d')" if "r \<in> set (db_tasks d)" "t_id r \<noteq> t_id t" for r
    unfolding ended(3) set_sql_update using that target[OF that(1)] by (intro bexI[of _ r]) auto
  show "r \<in> set (db_tasks d) \<and> t_id r \<noteq> t_id t \<or> t_id r = t_id t \<and> t_status r \<noteq> Running"
    if "r \<in> set (db_tasks d')" for r
  proof -
    from that obtain r0 where r0: "r0 \<in> set (db_tasks d)" "r = (if recovery_target t r0 then f r0 else r0)"
      unfolding ended(3) set_sql_update by blast
    then show ?thesis
      using target[OF r0(1)] same[OF r0(1)] ended(1,2) by (cases "r0 = t") (auto simp: row_step_def)
  qed
  show "rs_scanned s' = rs_scanned s + 1" "recovered_tasks s' = recovered_tasks s + 1" by (fact ended)+
qed

lemma recover_loop_Ok:
  "queue_ok d \<Longrightarrow> keyed t_id ts \<Longrightarrow> \<forall>t\<in>set ts. t \<in> set (db_tasks d) \<and> expired_lease now t \<Longrightarrow>
     recover_loop X now ts (s, d) = Inr (s', d') \<Longrightarrow>
     queue_ok d' \<and> rs_scanned s' = rs_scanned s + length ts \<and> recovered_tasks s' = recovered_tasks s + length ts
     \<and> (\<forall>r\<in>set (db_tasks d'). t_status r = Running \<longrightarrow> r \<in> set (db_tasks d) \<and> t_id r \<notin> t_id ` set ts)"
proof (induction ts arbitrary: s d)
  case Nil
  then show ?case by simp
next
  case (Cons t ts)
  then obtain s1 d1 where 1: "recover_one X now t (s, d) = Inr (s1, d1)"
    and 2: "recover_loop X now ts (s1, d1) = Inr (s', d')" by auto
  have "t \<in> set (db_tasks d)" "expired_lease now t" using Cons.prems(3) by simp_all
  note one = queue_ok_recover_one[OF Cons.prems(1) this 1]
  have ids: "t_id t \<notin> t_id ` set ts" "keyed t_id ts" using Cons.prems(2) by (auto simp: keyed_def)
  have "\<forall>r\<in>set ts. r \<in> set (db_tasks d1) \<and> expired_lease now r"
    using Cons.prems(3) one(2) ids by (metis image_eqI list.set_intros(2))
  note IH = Cons.IH[OF one(1) ids(2) this 2]
  have "r \<in> set (db_tasks d) \<and> t_id r \<notin> t_id ` set (t # ts)"
    if "r \<in> set (db_tasks d')" "t_status r = Running" for r
    using IH that one(3)[of r] by auto
  with IH one(4,5) show ?case by simp
qed

lemma recover_Ok:
  assumes ok: "queue_ok d" and r: "recover_in_transaction X now d = Inr (s, d')"
  shows "queue_ok d'" "rs_scanned s = sql_count (expired_lease now) (db_tasks d)" "recovered_tasks s = rs_scanned s"
    "\<forall>t\<in>set (db_tasks d'). \<not> expired_lease now t"
proof -
  let ?rows = "filter (expired_lease now) (db_tasks d)"
  have loop: "recover_loop X now ?rows (recovery_stats_default, d) = Inr (s, d')"
    using r by (simp add: recover_in_transaction_def Let_def split: if_splits)
  have "keyed t_id ?rows" using ok by (simp add: queue_ok_def tasks_ok_def keyed_def distinct_map_filter)
  note l = recover_loop_Ok[OF ok this _ loop]
  show "queue_ok d'" using l by auto
  have "recovered_tasks recovery_stats_default = 0" "rs_scanned recovery_stats_default = 0"
    by (simp_all add: recovered_tasks_def recovery_stats_default_def)
  with l show "rs_scanned s = sql_count (expired_lease now) (db_tasks d)" "recovered_tasks s = rs_scanned s"
    by (auto simp: sql_count_def)
  from l show "\<forall>t\<in>set (db_tasks d'). \<not> expired_lease now t"
    by (force simp: expired_lease_def)
qed

section \<open>Preflight quarantine\<close>

lemma attempts_ok_snoc:
  "attempts_ok ts as \<Longrightarrow> \<forall>b\<in>set as. attempt_key b \<noteq> attempt_key a \<Longrightarrow> \<forall>b\<in>set as. a_token b \<noteq> a_token a \<Longrightarrow>
     0 \<le> a_reserved a \<Longrightarrow> 0 \<le> a_no a \<Longrightarrow> \<exists>t\<in>set ts. attempt_of t a \<Longrightarrow> attempts_ok ts (as @ [a])"
  unfolding attempts_ok_def by (auto intro!: keyed_snoc)

lemma budgets_ok_snoc:
  "budgets_ok ts as rs \<Longrightarrow> a_reserved a = 0 \<Longrightarrow> a_run a = None \<Longrightarrow> budgets_ok ts (as @ [a]) rs"
  by (auto simp: budgets_ok_def tokens_snoc)

text \<open>The caller read the epoch from the store, so it is not ahead of the task's.\<close>

lemma queue_ok_preflight:
  assumes ok: "queue_ok d" and p: "quarantine_preflight_in_transaction task epoch token code now d = Inr (r, d')"
    and fresh: "token \<notin> a_token ` set (db_attempts d)"
    and epoch: "\<forall>t\<in>set (db_tasks d). t_id t = task \<longrightarrow> epoch \<le> t_epoch t"
  shows "queue_ok d'"
proof -
  let ?a = "preflight_attempt task epoch token code now"
  let ?rows = "fst (sql_insert_ignore attempt_key ?a (db_attempts d))"
  let ?P = "\<lambda>t. t_id t = task \<and> t_epoch t = epoch \<and> (t_status t = Pending \<or> t_status t = Running)"
  have d': "d' = update_tasks ?P (dead_set RQuarantined code now) (d\<lparr>db_attempts := ?rows\<rparr>)"
    and ex: "?rows = db_attempts d \<or> (\<exists>t\<in>set (db_tasks d). t_id t = task)"
    using p by (auto simp: quarantine_preflight_in_transaction_def Let_def sql_insert_ignore_def sql_exists_iff
        split: if_splits)
  have "queue_ok (d\<lparr>db_attempts := ?rows\<rparr>)"
  proof (cases "?rows = db_attempts d")
    case False
    then have rows: "?rows = db_attempts d @ [?a]" and new: "\<forall>a\<in>set (db_attempts d). attempt_key a \<noteq> attempt_key ?a"
      by (auto simp: sql_insert_ignore_def sql_exists_iff split: if_splits)
    obtain t where t: "t \<in> set (db_tasks d)" "t_id t = task" using ex False by blast
    have "attempt_of t ?a"
      using epoch t queue_ok_task[OF ok t(1)] by (simp add: attempt_of_def preflight_attempt_def task_ok_def)
    moreover have "\<forall>a\<in>set (db_attempts d). a_token a \<noteq> a_token ?a"
      using fresh by (auto simp: preflight_attempt_def)
    moreover have "a_reserved ?a = 0" "a_no ?a = 0" "a_run ?a = None" by (simp_all add: preflight_attempt_def)
    ultimately show ?thesis
      using ok new t(1) unfolding rows by (auto simp: queue_ok_def budgets_ok_snoc intro: attempts_ok_snoc)
  qed (use ok in \<open>simp add: queue_ok_def\<close>)
  then show ?thesis
    unfolding d' by (rule queue_ok_update_tasks) (auto intro: row_step_dead queue_ok_task[OF ok])
qed

end
