(* ===== verification/Sections.thy ===== *)
theory Sections
  imports Queue_Finish
begin

text \<open>
  Section ids: a section's id is its page id, a hash sign and its index, and that is enough to
  keep the ids of different pages and of different sections apart. Rewriting the sections of a
  page therefore always succeeds and leaves the sections of every other page alone.
\<close>

section \<open>Number texts\<close>

fun nat_of_text :: "nat \<Rightarrow> string \<Rightarrow> nat" where
  "nat_of_text n [] = n"
| "nat_of_text n (c # cs) = nat_of_text (10 * n + (of_char c - 48)) cs"

lemma nat_of_text_append: "nat_of_text n (xs @ ys) = nat_of_text (nat_of_text n xs) ys"
  by (induction xs arbitrary: n) simp_all

lemma nat_of_digit: "k < 10 \<Longrightarrow> (of_char (char_of (48 + k)) :: nat) = 48 + k"
  by (simp add: of_char_of)

lemma nat_of_nat_text: "nat_of_text 0 (nat_text n) = n"
  by (induction n rule: nat_text.induct)
    (subst nat_text.simps, simp add: nat_of_text_append nat_of_digit of_char_of)

lemma nat_text_inject: "nat_text a = nat_text b \<longleftrightarrow> a = b"
  using nat_of_nat_text by metis

lemma nat_text_no_hash: "CHR ''#'' \<notin> set (nat_text n)"
proof (induction n rule: nat_text.induct)
  case (1 n)
  have d: "char_of (48 + k) \<noteq> CHR ''#''" if "k < 10" for k :: nat
  proof
    assume "char_of (48 + k) = CHR ''#''"
    then have "(of_char (char_of (48 + k) :: char) :: nat) = of_char (CHR ''#'')" by simp
    then show False using nat_of_digit[OF that] by simp
  qed
  show ?case
    by (subst nat_text.simps) (use 1 d[of n] d[of "n mod 10"] in \<open>auto split: if_splits\<close>)
qed

lemma section_id_inject:
  "p @ ''#'' @ nat_text i = q @ ''#'' @ nat_text j \<longleftrightarrow> p = q \<and> i = j"
proof
  assume eq: "p @ ''#'' @ nat_text i = q @ ''#'' @ nat_text j"
  have tw: "takeWhile (\<lambda>c. c \<noteq> CHR ''#'') (rev (p @ ''#'' @ nat_text i)) = rev (nat_text i)" for p i
    using nat_text_no_hash[of i] takeWhile_append2[of "rev (nat_text i)" "\<lambda>c. c \<noteq> CHR ''#''" "CHR ''#'' # rev p"]
    by auto
  have "nat_text i = nat_text j" using tw[of p i] tw[of q j] eq by (metis rev_rev_ident)
  with eq show "p = q \<and> i = j" by (simp add: nat_text_inject)
qed simp

section \<open>Rewriting the sections of a page\<close>

definition section_row_ok :: "section_row \<Rightarrow> bool" where
  "section_row_ok s \<longleftrightarrow> se_id s = se_page s @ ''#'' @ nat_text (se_index s)"

fun section_rows :: "string \<Rightarrow> nat \<Rightarrow> (string \<times> string) list \<Rightarrow> section_row list" where
  "section_rows page i [] = []"
| "section_rows page i (s # ss) =
     \<lparr>se_id = page @ ''#'' @ nat_text i, se_page = page, se_heading = fst s, se_content = snd s, se_index = i\<rparr>
     # section_rows page (Suc i) ss"

lemma section_rows_ok: "s \<in> set (section_rows page i ss) \<Longrightarrow> section_row_ok s \<and> se_page s = page"
  by (induction ss arbitrary: i) (auto simp: section_row_ok_def)

lemma section_rows_view: "map (\<lambda>s. (se_heading s, se_content s)) (section_rows page i ss) = ss"
  by (induction ss arbitrary: i) auto

lemma section_rows_index: "map se_index (section_rows page i ss) = [i..<i + length ss]"
  by (induction ss arbitrary: i) (auto simp: upt_conv_Cons simp del: upt_Suc)

lemma insert_sections_Ok:
  "\<forall>r\<in>set rows. section_row_ok r \<and> (se_page r = page \<longrightarrow> se_index r < i) \<Longrightarrow>
     insert_sections page i ss rows = Inr (rows @ section_rows page i ss)"
proof (induction ss arbitrary: i rows)
  case (Cons s ss)
  let ?new = "\<lparr>se_id = page @ ''#'' @ nat_text i, se_page = page, se_heading = fst s, se_content = snd s, se_index = i\<rparr>"
  have "se_id r \<noteq> page @ ''#'' @ nat_text i" if "r \<in> set rows" for r
    using Cons.prems that section_id_inject[of "se_page r" "se_index r" page i]
    unfolding section_row_ok_def by (metis less_irrefl)
  then have "\<not> sql_exists (\<lambda>r. se_id r = se_id ?new) rows" by (auto simp: sql_exists_iff)
  moreover have "\<forall>r\<in>set (rows @ [?new]). section_row_ok r \<and> (se_page r = page \<longrightarrow> se_index r < Suc i)"
    using Cons.prems by (auto simp: section_row_ok_def)
  ultimately show ?case using Cons.IH[of "rows @ [?new]" "Suc i"] by (simp add: Let_def)
qed simp

lemma write_sections_Ok:
  assumes "\<forall>s\<in>set (db_sections d). section_row_ok s"
  shows "write_sections w d = Inr (d\<lparr>db_sections :=
     sql_delete (\<lambda>r. se_page r = wp_id w) (db_sections d) @ section_rows (wp_id w) 0 (wp_sections w)\<rparr>)"
proof -
  have "insert_sections (wp_id w) 0 (wp_sections w) (sql_delete (\<lambda>r. se_page r = wp_id w) (db_sections d))
      = Inr (sql_delete (\<lambda>r. se_page r = wp_id w) (db_sections d) @ section_rows (wp_id w) 0 (wp_sections w))"
    using assms by (intro insert_sections_Ok) (auto simp: set_sql_delete)
  then show ?thesis by (simp add: write_sections_def)
qed

end
