(* ===== verification/Pages_Inv.thy ===== *)
theory Pages_Inv
  imports Sections
begin

text \<open>
  The invariant of the published pages and generations: page ids are entity keys, one page per
  entity, every page belongs to a published generation, generation numbers only grow. A
  publication replaces the page of its entity under a new, larger generation and leaves every
  other page alone.
\<close>

section \<open>The invariant\<close>

definition pages_ok :: "db \<Rightarrow> bool" where
  "pages_ok d \<longleftrightarrow> keyed pg_id (db_pages d) \<and> keyed g_generation (db_generations d)
     \<and> (\<forall>g\<in>set (db_generations d). g_generation g \<le> db_gen_seq d)
     \<and> (\<forall>p\<in>set (db_pages d). pg_id p = pg_entity p \<and> pg_status p = AcceptedPage \<and> pg_generation p \<le> db_gen_seq d
          \<and> (\<exists>g\<in>set (db_generations d). g_generation g = pg_generation p \<and> g_published g))
     \<and> (\<forall>s\<in>set (db_sections d). section_row_ok s)"

definition same_pages :: "db \<Rightarrow> db \<Rightarrow> bool" where
  "same_pages d d' \<longleftrightarrow> db_pages d' = db_pages d \<and> db_generations d' = db_generations d \<and> db_gen_seq d' = db_gen_seq d
     \<and> db_sections d' = db_sections d"

lemma pages_ok_same: "pages_ok d \<Longrightarrow> same_pages d d' \<Longrightarrow> pages_ok d'"
  by (simp add: pages_ok_def same_pages_def)

lemma same_pages_refl [simp]: "same_pages d d"
  by (simp add: same_pages_def)

lemma same_pages_trans: "same_pages a b \<Longrightarrow> same_pages b c \<Longrightarrow> same_pages a c"
  by (simp add: same_pages_def)

lemma pages_ok_empty: "pages_ok empty_db"
  by (simp add: pages_ok_def keyed_def empty_db_def)

text \<open>At most one accepted page per entity, found by its key.\<close>

lemma pages_ok_entity:
  "pages_ok d \<Longrightarrow> p \<in> set (db_pages d) \<Longrightarrow> q \<in> set (db_pages d) \<Longrightarrow> pg_entity p = pg_entity q \<Longrightarrow> p = q"
  unfolding pages_ok_def using keyed_unique[of pg_id "db_pages d" p q] by metis

lemma sql_first_by_unique:
  assumes "r \<in> set rows" "P r" "\<And>r'. r' \<in> set rows \<Longrightarrow> P r' \<Longrightarrow> r' = r"
  shows "sql_first_by k P rows = Some r"
proof (cases "sql_first_by k P rows")
  case None
  with assms(1,2) show ?thesis by (auto simp: sql_first_by_None)
next
  case (Some r')
  with sql_first_by_SomeD[OF Some] assms(3) show ?thesis by simp
qed

lemma accepted_page_found:
  assumes "pages_ok d" "p \<in> set (db_pages d)"
  shows "accepted_page (pg_entity p) d = Some p"
    and "t_entity t = pg_entity p \<Longrightarrow> replay_outcome t d = Inr (Accepted (pg_generation p))"
proof -
  have st: "pg_status p = AcceptedPage" using assms by (simp add: pages_ok_def)
  show "accepted_page (pg_entity p) d = Some p"
    unfolding accepted_page_def
    by (rule sql_first_by_unique) (use assms st pages_ok_entity in auto)
  show "replay_outcome t d = Inr (Accepted (pg_generation p))" if "t_entity t = pg_entity p"
  proof -
    have "sql_first_by (\<lambda>p. - pg_generation p)
        (\<lambda>p. pg_entity p = t_entity t \<and> pg_status p = AcceptedPage) (db_pages d) = Some p"
      by (rule sql_first_by_unique) (use assms st that pages_ok_entity in auto)
    then show ?thesis by (simp add: replay_outcome_def)
  qed
qed

section \<open>A publication\<close>

interpretation page_set: keeps_key pg_id "page_set new" for new
  by unfold_locales (simp add: page_set_def)

text \<open>The stored row: the new one, with the creation time of the page it replaces.\<close>

definition stored_page :: "page_row \<Rightarrow> page_row list \<Rightarrow> page_row" where
  "stored_page new rows =
     (case sql_first (\<lambda>p. pg_id p = pg_id new) rows of None \<Rightarrow> new | Some old \<Rightarrow> page_set new old)"

lemma set_write_page:
  assumes "keyed pg_id rows"
  shows "p \<in> set (sql_upsert pg_id new (page_set new) rows) \<longleftrightarrow>
     p = stored_page new rows \<or> p \<in> set rows \<and> pg_id p \<noteq> pg_id new"
proof (cases "sql_first (\<lambda>p. pg_id p = pg_id new) rows")
  case None
  then have "\<forall>r\<in>set rows. pg_id r \<noteq> pg_id new" by (simp add: sql_first_None)
  moreover have "stored_page new rows = new" using None by (simp add: stored_page_def)
  ultimately show ?thesis by (auto simp: sql_upsert_def sql_exists_iff)
next
  case (Some old)
  then have old: "old \<in> set rows" "pg_id old = pg_id new" by (auto dest: sql_first_SomeD)
  have "q = old" if "q \<in> set rows" "pg_id q = pg_id new" for q
    using keyed_unique[OF assms that(1) old(1)] that(2) old(2) by simp
  then have "(\<exists>q\<in>set rows. pg_id q = pg_id new \<and> p = page_set new q) \<longleftrightarrow> p = page_set new old"
    using old by blast
  moreover have "p \<in> set (sql_update (\<lambda>r. pg_id r = pg_id new) (page_set new) rows) \<longleftrightarrow>
      (\<exists>q\<in>set rows. pg_id q = pg_id new \<and> p = page_set new q) \<or> p \<in> set rows \<and> pg_id p \<noteq> pg_id new"
    by (auto simp: sql_update_def)
  moreover have "sql_upsert pg_id new (page_set new) rows
      = sql_update (\<lambda>r. pg_id r = pg_id new) (page_set new) rows"
    using old by (auto simp: sql_upsert_def sql_exists_iff)
  ultimately show ?thesis using Some by (simp add: stored_page_def)
qed

lemma stored_page_simps [simp]:
  "pg_id (stored_page new rows) = pg_id new"
  "pg_entity (stored_page new rows) = pg_entity new" "pg_status (stored_page new rows) = pg_status new"
  "pg_generation (stored_page new rows) = pg_generation new" "pg_hash (stored_page new rows) = pg_hash new"
  "pg_revision (stored_page new rows) = pg_revision new" "pg_content (stored_page new rows) = pg_content new"
  "pg_title (stored_page new rows) = pg_title new"
  by (auto simp: stored_page_def page_set_def split: option.splits dest: sql_first_SomeD)

lemma write_page_tables_pages:
  assumes ok: "pages_ok d" and w: "write_page_tables X page report c deps fm revision now d = Inr (g, d')"
  shows "g = db_gen_seq d + 1"
    and "db_pages d' = sql_upsert pg_id (page_row_of page deps fm revision g now)
           (page_set (page_row_of page deps fm revision g now)) (db_pages d)"
    and "\<exists>row. db_generations d' = db_generations d @ [row] \<and> g_generation row = g"
    and "db_gen_seq d' = g"
    and "db_sections d' = sql_delete (\<lambda>r. se_page r = wp_id (cp_wiki page)) (db_sections d)
           @ section_rows (wp_id (cp_wiki page)) 0 (wp_sections (cp_wiki page))"
proof -
  have s: "ensure_generation_sentinel d = d"
  proof (cases "db_generations d")
    case Nil
    then have "db_pages d = []" using ok by (cases "db_pages d") (auto simp: pages_ok_def)
    then show ?thesis by (simp add: ensure_generation_sentinel_def sql_exists_def)
  qed (simp add: ensure_generation_sentinel_def)
  note w' = w[unfolded write_page_tables_def s open_generation_def Let_def prod.case]
  from w' show g: "g = db_gen_seq d + 1" by auto
  from w' show "db_pages d' = sql_upsert pg_id (page_row_of page deps fm revision g now)
           (page_set (page_row_of page deps fm revision g now)) (db_pages d)"
    "\<exists>row. db_generations d' = db_generations d @ [row] \<and> g_generation row = g" "db_gen_seq d' = g"
    by (auto simp: write_page_def write_sections_def write_quality_def write_edges_def split: if_splits)
  have sec: "\<forall>s\<in>set (db_sections d). section_row_ok s" using ok by (simp add: pages_ok_def)
  show "db_sections d' = sql_delete (\<lambda>r. se_page r = wp_id (cp_wiki page)) (db_sections d)
           @ section_rows (wp_id (cp_wiki page)) 0 (wp_sections (cp_wiki page))"
    using w' sec by (auto simp: write_sections_Ok write_page_def write_quality_def write_edges_def split: if_splits)
qed

lemma page_row_of_simps [simp]:
  "pg_id (page_row_of page deps fm revision g now) = wp_id (cp_wiki page)"
  "pg_entity (page_row_of page deps fm revision g now) = to_key (wp_entity (cp_wiki page))"
  "pg_status (page_row_of page deps fm revision g now) = AcceptedPage"
  "pg_generation (page_row_of page deps fm revision g now) = g"
  "pg_hash (page_row_of page deps fm revision g now) = cp_hash page"
  "pg_revision (page_row_of page deps fm revision g now) = revision"
  "pg_content (page_row_of page deps fm revision g now) = wp_content (cp_wiki page)"
  "pg_title (page_row_of page deps fm revision g now) = wp_title (cp_wiki page)"
  by (simp_all add: page_row_of_def Let_def)

text \<open>The three ways a publication returns.\<close>

lemma publish_cases:
  assumes "publish_in_transaction X l page report c now d = Inr (r, d')"
  obtains (stale) "d' = d" "r = Stale"
      "\<And>t. find_task_id (tl_task l) d = Some t \<Longrightarrow> \<not> is_replay l t d
         \<and> (\<not> live_task l now t \<or> head_desired (t_entity t) d \<noteq> Some (t_desired t))"
  | (replay) t where "find_task_id (tl_task l) d = Some t" "is_replay l t d" "replay_outcome t d = Inr r" "d' = d"
  | (live) t where "find_task_id (tl_task l) d = Some t" "\<not> is_replay l t d" "live_task l now t"
      "head_desired (t_entity t) d = Some (t_desired t)" "cp_evidence page \<noteq> None"
      "to_key (wp_entity (cp_wiki page)) = t_entity t" "cp_hash page = tl_hash l"
      "publish_live X t l page report c now d = Inr (r, d')"
proof (cases "find_task_id (tl_task l) d")
  case None
  with assms stale show thesis by (simp add: publish_in_transaction_def)
next
  case (Some t)
  note p = assms[unfolded publish_in_transaction_def Some option.case]
  consider "is_replay l t d" | "\<not> is_replay l t d" "\<not> live_task l now t \<or> head_desired (t_entity t) d \<noteq> Some (t_desired t)"
    | "\<not> is_replay l t d" "live_task l now t" "head_desired (t_entity t) d = Some (t_desired t)" by blast
  then show thesis
  proof cases
    case 1
    then have "replay_outcome t d = Inr r \<and> d' = d" using p by auto
    then show thesis using replay[OF Some 1] by simp
  next
    case 2
    then have "d' = d" "r = Stale" using p by (simp_all split: if_splits)
    then show thesis using 2 Some by (intro stale) simp_all
  next
    case 3
    then have "cp_evidence page \<noteq> None" "to_key (wp_entity (cp_wiki page)) = t_entity t" "cp_hash page = tl_hash l"
      "publish_live X t l page report c now d = Inr (r, d')"
      using p by (simp_all split: if_splits)
    then show thesis by (intro live[OF Some 3])
  qed
qed

text \<open>What a live publication leaves: the page of its entity under the new generation.\<close>

lemma publish_live_pages:
  assumes ok: "pages_ok d" and p: "publish_live X t l page report c now d = Inr (r, d')"
    and id: "wp_id (cp_wiki page) = to_key (wp_entity (cp_wiki page))"
  obtains deps fm where "x_parse_deps X (t_deps t) = Some deps"
    "r = Accepted (db_gen_seq d + 1)" "pages_ok d'" "db_gen_seq d' = db_gen_seq d + 1"
    "\<And>p. p \<in> set (db_pages d') \<longleftrightarrow>
       p = stored_page (page_row_of page deps fm (t_revision t) (db_gen_seq d + 1) now) (db_pages d)
       \<or> p \<in> set (db_pages d) \<and> pg_id p \<noteq> wp_id (cp_wiki page)"
    "db_sections d' = sql_delete (\<lambda>r. se_page r = wp_id (cp_wiki page)) (db_sections d)
       @ section_rows (wp_id (cp_wiki page)) 0 (wp_sections (cp_wiki page))"
proof -
  from p obtain artifact deps fm g d1 cj d2 where dp: "x_parse_deps X (t_deps t) = Some deps"
    and w: "write_page_tables X page report c deps fm (t_revision t) now d = Inr (g, d1)"
    and a: "update_one_attempt l (accept_attempt_set artifact (x_report_text X report) cj now)
              (publish_generation g d1) = Inr d2"
    and u: "update_leased_task l (accept_task_set now) d2 = Inr d'" and r: "r = Accepted g"
    by (auto simp: publish_live_def)
  note wp = write_page_tables_pages[OF ok w]
  let ?new = "page_row_of page deps fm (t_revision t) g now"
  have pages: "db_pages d' = sql_upsert pg_id ?new (page_set ?new) (db_pages d)" "db_gen_seq d' = g"
    and gens: "db_generations d' = sql_update (\<lambda>r. g_generation r = g) (\<lambda>r. r\<lparr>g_published := True\<rparr>) (db_generations d1)"
    using a u wp by (auto simp: update_one_attempt_Ok update_leased_task_Ok publish_generation_def)
  have keyed: "keyed pg_id (db_pages d)" using ok by (simp add: pages_ok_def)
  note mem = set_write_page[OF keyed, of _ ?new]
  have secs: "db_sections d' = sql_delete (\<lambda>r. se_page r = wp_id (cp_wiki page)) (db_sections d)
       @ section_rows (wp_id (cp_wiki page)) 0 (wp_sections (cp_wiki page))"
    using a u wp(5) by (auto simp: update_one_attempt_Ok update_leased_task_Ok publish_generation_def)
  have g: "g = db_gen_seq d + 1" by (rule wp(1))
  have old: "g_generation x < g" if "x \<in> set (db_generations d)" for x
    using ok that g by (force simp: pages_ok_def)
  obtain row where row: "db_generations d1 = db_generations d @ [row]" "g_generation row = g" using wp(3) by blast
  have "keyed g_generation (db_generations d1)"
    unfolding row(1) using ok old row(2) by (intro keyed_snoc) (fastforce simp: pages_ok_def)+
  then have kg: "keyed g_generation (db_generations d')"
    unfolding gens keyed_def by (subst map_key_sql_update) auto
  have gset: "x \<in> set (db_generations d') \<longleftrightarrow> x \<in> set (db_generations d) \<or> x = row\<lparr>g_published := True\<rparr>" for x
  proof -
    have "sql_update (\<lambda>r. g_generation r = g) (\<lambda>r. r\<lparr>g_published := True\<rparr>) (db_generations d) = db_generations d"
      unfolding sql_update_def using old by (intro map_idI) force
    then show ?thesis unfolding gens row by (auto simp: sql_update_def row(2))
  qed
  have "pages_ok d'"
    unfolding pages_ok_def
  proof (intro conjI ballI)
    show "keyed pg_id (db_pages d')" unfolding pages using keyed by (rule page_set.keyed_upsert)
    show "keyed g_generation (db_generations d')" by (rule kg)
    show "x \<in> set (db_generations d') \<Longrightarrow> g_generation x \<le> db_gen_seq d'" for x
      using gset[of x] old[of x] row(2) by (auto simp: pages(2))
    show "x \<in> set (db_sections d') \<Longrightarrow> section_row_ok x" for x
      using ok section_rows_ok[of x] by (auto simp: secs set_sql_delete pages_ok_def)
    fix q assume "q \<in> set (db_pages d')"
    then consider (new) "q = stored_page ?new (db_pages d)" | (old) "q \<in> set (db_pages d)"
      using mem pages(1) by auto
    note q = this
    from q show "pg_id q = pg_entity q" "pg_status q = AcceptedPage" "pg_generation q \<le> db_gen_seq d'"
      using id ok g by (cases; force simp: pages_ok_def pages(2))+
    from q show "\<exists>g\<in>set (db_generations d'). g_generation g = pg_generation q \<and> g_published g"
    proof cases
      case new
      then show ?thesis using gset row(2) by (intro bexI[of _ "row\<lparr>g_published := True\<rparr>"]) auto
    next
      case old
      then obtain x where "x \<in> set (db_generations d)" "g_generation x = pg_generation q \<and> g_published x"
        using ok by (auto simp: pages_ok_def)
      then show ?thesis using gset by blast
    qed
  qed
  then show thesis using that dp r g pages mem secs by (simp add: g)
qed

lemma pages_ok_publish_live:
  assumes "pages_ok d" "publish_live X t l page report c now d = Inr (r, d')"
    and "wp_id (cp_wiki page) = to_key (wp_entity (cp_wiki page))"
  shows "pages_ok d'"
  by (rule publish_live_pages[OF assms])

lemma pages_ok_publish:
  assumes "pages_ok d" "publish_in_transaction X l page report c now d = Inr (r, d')"
    and "wp_id (cp_wiki page) = to_key (wp_entity (cp_wiki page))"
  shows "pages_ok d'"
  using assms(2) by (cases rule: publish_cases) (use assms pages_ok_publish_live in blast)+

lemma same_pages_simps:
  "same_pages d (update_tasks P f d)" "same_pages d (insert_task t d)"
  "same_pages d (upsert_source_head j task epoch d)"
  "same_pages d (open_run run limit now d)" "same_pages d (open_day day daily d)"
  "same_pages d (abandon_attempt r now d)"
  by (simp_all add: same_pages_def insert_task_def upsert_source_head_def open_run_def open_day_def
      abandon_attempt_def Let_def split: option.splits)

end
