(* ===== verification/Frames.thy ===== *)
theory Frames
  imports Pages_Inv
begin

text \<open>
  What the queue operations leave alone. A part of the store that no write to tasks, attempts,
  budgets or reviews reaches is kept by claim, heartbeat, failure reports, recovery and the
  preflight quarantine. The published pages are such a part, and so are the source heads with
  the facts.
\<close>

locale queue_frame =
  fixes part :: "db \<Rightarrow> 'a"
  assumes part_tasks: "part (d\<lparr>db_tasks := ts\<rparr>) = part d"
    and part_attempts: "part (d\<lparr>db_attempts := as\<rparr>) = part d"
    and part_runs: "part (d\<lparr>db_runs := rs\<rparr>) = part d"
    and part_days: "part (d\<lparr>db_days := ds\<rparr>) = part d"
    and part_reviews: "part (d\<lparr>db_reviews := rv\<rparr>) = part d"
    and part_review_seq: "part (d\<lparr>db_review_seq := n\<rparr>) = part d"
begin

lemmas parts = part_tasks part_attempts part_runs part_days part_reviews part_review_seq

lemma part_update_tasks: "part (update_tasks P f d) = part d"
  by (simp add: update_tasks_def parts)

lemma part_budget: "part (open_run run limit now d) = part d" "part (open_day day daily d) = part d"
  "part (reserve_tokens b task run day d) = part d"
  by (simp_all add: open_run_def open_day_def reserve_tokens_def parts split: option.splits)

lemma part_claim: "claim_in_transaction X ids run token now d = Inr (r, d') \<Longrightarrow> part d' = part d"
  by (auto simp: claim_in_transaction_def grant_lease_def insert_attempt_def Let_def parts part_budget
      part_update_tasks split: option.splits if_splits)

lemma part_heartbeat: "part (snd (heartbeat_compile l now d)) = part d"
  by (simp add: heartbeat_compile_def Let_def part_update_tasks)

lemma part_review:
  assumes "insert_review dm ac su re ta now d = Inr (n, d')"
  shows "part d' = part d"
proof -
  have "part (d\<lparr>db_reviews := db_reviews d', db_review_seq := db_review_seq d'\<rparr>) = part d" by (simp add: parts)
  then show ?thesis using insert_review_Ok(1)[OF assms] by metis
qed

lemma part_dead_letter:
  "dead_letter_for X task epoch no code entity desired now d = Inr (n, d') \<Longrightarrow> part d' = part d"
  by (auto simp: dead_letter_for_def enqueue_dead_letter_def dest: part_review)

lemma part_quarantine_reviews:
  "quarantine_reviews X t l code conflict now d = Inr d' \<Longrightarrow> part d' = part d"
  by (auto simp: quarantine_reviews_def enqueue_dead_letter_def dest!: part_review split: if_splits)

lemma part_finish:
  "update_one_attempt l g d = Inr d1 \<Longrightarrow> update_leased_task l f d1 = Inr d2 \<Longrightarrow> part d2 = part d"
  by (auto simp: update_one_attempt_Ok update_leased_task_Ok part_update_tasks parts)

lemma part_failure:
  assumes "finish_failure_in_transaction X l failure cand report c now d = Inr (r, d')"
  shows "part d' = part d"
  using assms
proof (cases rule: failure_cases)
  case (live t deps)
  then show ?thesis
    by (cases failure)
      (auto simp: fail_invalid_def fail_retryable_def fail_permanent_def Let_def split: if_splits
        dest!: part_finish part_quarantine_reviews part_dead_letter)
qed simp

lemma part_recover_loop: "recover_loop X now ts (s, d) = Inr (s', d') \<Longrightarrow> part d' = part d"
proof (induction ts arbitrary: s d)
  case (Cons t ts)
  then obtain s1 d1 where 1: "recover_one X now t (s, d) = Inr (s1, d1)"
    and 2: "recover_loop X now ts (s1, d1) = Inr (s', d')" by auto
  have "part d1 = part d"
    using 1
    by (auto simp: recover_one_def Let_def abandon_attempt_def parts part_update_tasks split: if_splits
        dest!: part_dead_letter)
  then show ?case using Cons.IH[OF 2] by simp
qed simp

lemma part_recover: "recover_in_transaction X now d = Inr (s, d') \<Longrightarrow> part d' = part d"
  by (auto simp: recover_in_transaction_def Let_def split: if_splits dest: part_recover_loop)

lemma part_preflight:
  "quarantine_preflight_in_transaction task epoch token code now d = Inr (r, d') \<Longrightarrow> part d' = part d"
  by (auto simp: quarantine_preflight_in_transaction_def Let_def part_update_tasks parts split: if_splits prod.splits)

end

interpretation page_part: queue_frame "\<lambda>d. (db_pages d, db_generations d, db_gen_seq d, db_sections d)"
  by unfold_locales simp_all

interpretation source_part: queue_frame "\<lambda>d. (db_heads d, db_facts d, db_refs d)"
  by unfold_locales simp_all

lemma same_pages_part:
  "(db_pages d', db_generations d', db_gen_seq d', db_sections d')
     = (db_pages d, db_generations d, db_gen_seq d, db_sections d) \<Longrightarrow> same_pages d d'"
  by (simp add: same_pages_def)

lemmas same_pages_queue =
  page_part.part_claim[THEN same_pages_part] page_part.part_failure[THEN same_pages_part]
  page_part.part_recover[THEN same_pages_part] page_part.part_preflight[THEN same_pages_part]
  page_part.part_heartbeat[THEN same_pages_part]

end
