(* ===== verification/Kernel.thy ===== *)
theory Kernel
  imports Frames
begin

text \<open>
  The compile kernel as a state machine: one step is one call of a kernel operation on the
  store, with any arguments its callers can pass. The invariants of the queue and of the pages
  hold in every reachable state; the properties say what that means for leases, budgets,
  retries, publication and recovery.
\<close>

section \<open>Steps\<close>

inductive kernel_step :: "ext \<Rightarrow> db \<Rightarrow> db \<Rightarrow> bool" for X :: ext where
  admit: "policy_validate policy = Inr () \<Longrightarrow> admit_compile X ps ctx policy schema force now d = (ra, d') \<Longrightarrow>
    kernel_step X d d'"
| claim: "token \<notin> a_token ` set (db_attempts d) \<Longrightarrow> claim_compile X ids run token now d = (rc, d') \<Longrightarrow>
    kernel_step X d d'"
| heartbeat: "heartbeat_compile l now d = (b, d') \<Longrightarrow> kernel_step X d d'"
| publish: "wp_id (cp_wiki page) = to_key (wp_entity (cp_wiki page)) \<Longrightarrow>
    publish_compile X l page report c now d = (rp, d') \<Longrightarrow> kernel_step X d d'"
| failure: "finish_compile_failure X l fl cand report c now d = (rf, d') \<Longrightarrow> kernel_step X d d'"
| recover: "recover_compile_leases X now d = (rr, d') \<Longrightarrow> kernel_step X d d'"
| preflight: "token \<notin> a_token ` set (db_attempts d) \<Longrightarrow>
    \<forall>t\<in>set (db_tasks d). t_id t = task \<longrightarrow> epoch \<le> t_epoch t \<Longrightarrow>
    quarantine_compile_preflight task epoch token code now d = (rq, d') \<Longrightarrow> kernel_step X d d'"

inductive reachable :: "ext \<Rightarrow> db \<Rightarrow> bool" for X :: ext where
  start: "reachable X empty_db"
| step: "reachable X d \<Longrightarrow> kernel_step X d d' \<Longrightarrow> reachable X d'"

inductive later :: "ext \<Rightarrow> db \<Rightarrow> db \<Rightarrow> bool" for X :: ext and d :: db where
  now: "later X d d"
| next_step: "later X d d1 \<Longrightarrow> kernel_step X d1 d2 \<Longrightarrow> later X d d2"

inductive_cases kernel_stepE: "kernel_step X d d'"

lemmas kernel_step_cases [consumes 1, case_names admit claim heartbeat publish failure recover preflight] =
  kernel_stepE

lemma reachable_later: "later X d d' \<Longrightarrow> reachable X d \<Longrightarrow> reachable X d'"
  by (induction rule: later.induct) (auto intro: reachable.step)

text \<open>An invariant: it holds at the start and every step keeps it.\<close>

locale kernel_invariant =
  fixes X :: ext and I :: "db \<Rightarrow> bool"
  assumes initially: "I empty_db"
    and preserved: "I d \<Longrightarrow> kernel_step X d d' \<Longrightarrow> I d'"
begin

lemma always: "reachable X d \<Longrightarrow> I d"
  by (induction rule: reachable.induct) (auto intro: initially preserved)

lemma later_keeps: "later X d d' \<Longrightarrow> I d \<Longrightarrow> I d'"
  by (induction rule: later.induct) (auto intro: preserved)

end

text \<open>A rolled back transaction is no step, so only commits matter.\<close>

lemma transaction_inv:
  assumes "immediate_transaction f d = (r, d')" "I d" "\<And>a. f d = Inr (a, d') \<Longrightarrow> I d'"
  shows "I d'"
  using assms(1) by (cases rule: immediate_transaction_cases) (use assms in auto)

lemma queue_ok_step:
  assumes "queue_ok d" "kernel_step X d d'"
  shows "queue_ok d'"
  using assms(2)
proof (cases rule: kernel_step_cases)
  case (admit policy ps ctx schema force now r)
  then show ?thesis
    using admit(2) assms(1) unfolding admit_compile_def by (elim transaction_inv) (auto intro: queue_ok_admit)
next
  case (claim token ids run now r)
  then show ?thesis
    using assms(1) unfolding claim_compile_def
    by (auto split: if_splits elim!: transaction_inv intro: queue_ok_claim)
next
  case (heartbeat l now b)
  then show ?thesis using queue_ok_heartbeat[OF assms(1), of l now] by simp
next
  case (publish page l report c now r)
  then show ?thesis
    using assms(1) unfolding publish_compile_def by (elim transaction_inv) (auto intro: queue_ok_publish)
next
  case (failure l failure cand report c now r)
  then show ?thesis
    using assms(1) unfolding finish_compile_failure_def by (elim transaction_inv) (auto intro: queue_ok_failure)
next
  case (recover now r)
  then show ?thesis
    using assms(1) unfolding recover_compile_leases_def by (elim transaction_inv) (auto intro: recover_Ok)
next
  case (preflight token task epoch code now r)
  then show ?thesis
    using assms(1) unfolding quarantine_compile_preflight_def
    by (elim transaction_inv) (auto intro: queue_ok_preflight)
qed

interpretation queue: kernel_invariant X queue_ok for X
  by unfold_locales (auto intro: queue_ok_empty queue_ok_step)

section \<open>Steps and pages\<close>

lemma same_pages_facts: "facts_only d d' \<Longrightarrow> same_pages d d'"
  unfolding facts_only_def same_pages_def by (cases d; cases d') simp

lemma same_pages_admit:
  assumes "admit_compile_on_conn X ps ctx policy schema force now d = Inr (r, d')"
  shows "same_pages d d'"
  using assms
proof (cases rule: admit_compile_cases)
  case (job d1 j)
  have "same_pages d1 d'"
    using job(2)
    by (auto simp: admit_job_on_def admit_task_def record_skipped_task_def Let_def same_pages_def insert_task_def
        upsert_source_head_def split: option.splits if_splits prod.splits)
  then show ?thesis using same_pages_facts[OF job(1)] by (rule same_pages_trans[rotated])
qed simp

lemma pages_ok_step:
  assumes "pages_ok d" "kernel_step X d d'"
  shows "pages_ok d'"
  using assms(2)
proof (cases rule: kernel_step_cases)
  case (admit policy ps ctx schema force now r)
  then show ?thesis
    using assms(1) unfolding admit_compile_def by (elim transaction_inv) (auto intro: pages_ok_same same_pages_admit)
next
  case (claim token ids run now r)
  then show ?thesis
    using assms(1) unfolding claim_compile_def
    by (auto split: if_splits elim!: transaction_inv intro: pages_ok_same same_pages_queue)
next
  case (heartbeat l now b)
  then show ?thesis
    using assms(1) pages_ok_same[OF _ same_pages_queue(5)] by (metis snd_conv)
next
  case (publish page l report c now r)
  then show ?thesis
    using assms(1) unfolding publish_compile_def
    by (elim transaction_inv) (auto intro: pages_ok_publish)
next
  case (failure l failure cand report c now r)
  then show ?thesis
    using assms(1) unfolding finish_compile_failure_def
    by (elim transaction_inv) (auto intro: pages_ok_same same_pages_queue)
next
  case (recover now r)
  then show ?thesis
    using assms(1) unfolding recover_compile_leases_def
    by (elim transaction_inv) (auto intro: pages_ok_same same_pages_queue)
next
  case (preflight token task epoch code now r)
  then show ?thesis
    using assms(1) unfolding quarantine_compile_preflight_def
    by (elim transaction_inv) (auto intro: pages_ok_same same_pages_queue)
qed

interpretation pages: kernel_invariant X pages_ok for X
  by unfold_locales (auto intro: pages_ok_empty pages_ok_step)

end
