(* ===== verification/Fencing.thy ===== *)
theory Fencing
  imports Kernel
begin

text \<open>
  Fencing: a lease that is not live changes nothing, and a token that has left its task never
  comes back. Together: once a lease has been published, failed or recovered, no later call
  with it has an effect, whatever happened in between.
\<close>

section \<open>Where tokens come from\<close>

definition tok_step :: "db \<Rightarrow> db \<Rightarrow> bool" where
  "tok_step d d' \<longleftrightarrow> t_token ` set (db_tasks d') \<subseteq> insert None (t_token ` set (db_tasks d))
     \<and> a_token ` set (db_attempts d) \<subseteq> a_token ` set (db_attempts d')"

lemma tok_step_refl [simp]: "tok_step d d"
  by (auto simp: tok_step_def)

lemma tok_step_trans:
  assumes "tok_step a b" "tok_step b c"
  shows "tok_step a c"
proof -
  have "insert None (t_token ` set (db_tasks b)) \<subseteq> insert None (t_token ` set (db_tasks a))"
    using assms(1) unfolding tok_step_def by (meson insert_subset insertI1)
  then show ?thesis using assms unfolding tok_step_def by (meson order_trans)
qed

lemma tok_step_same: "same_queue d d' \<Longrightarrow> tok_step d d'"
  by (simp add: same_queue_def tok_step_def subset_insertI)

definition keeps_or_clears :: "(task_row \<Rightarrow> task_row) \<Rightarrow> bool" where
  "keeps_or_clears f \<longleftrightarrow> (\<forall>t. t_token (f t) = t_token t \<or> t_token (f t) = None)"

lemma keeps_or_clears_sets [simp]:
  "keeps_or_clears (skip_set now)" "keeps_or_clears (refresh_set j)" "keeps_or_clears (requeue_set j)"
  "keeps_or_clears (accept_task_set now)" "keeps_or_clears (failed_set code now)"
  "keeps_or_clears (superseded_set now)" "keeps_or_clears (heartbeat_set now)" "keeps_or_clears (reserve_task b)"
  "keeps_or_clears (dead_set res code now)"
  "keeps_or_clears (\<lambda>t. dead_set res code now (g t))" "keeps_or_clears (\<lambda>t. pending_set due now (g t))"
  by (simp_all add: keeps_or_clears_def skip_set_def refresh_set_def requeue_set_def accept_task_set_def
      failed_set_def superseded_set_def heartbeat_set_def reserve_task_def dead_set_def pending_set_def)

lemma tokens_sql_update:
  "keeps_or_clears f \<Longrightarrow> t_token ` set (sql_update P f ts) \<subseteq> insert None (t_token ` set ts)"
  by (force simp: sql_update_def keeps_or_clears_def)

lemma tok_step_update: "keeps_or_clears f \<Longrightarrow> tok_step d (update_tasks P f d)"
  by (simp add: tok_step_def tokens_sql_update)

lemma attempt_tokens_update:
  assumes "\<And>a. attempt_step a (g a)"
  shows "a_token ` set (sql_update Q g as) = a_token ` set as"
proof -
  have "map a_token (sql_update Q g as) = map a_token as"
    using assms by (intro map_key_sql_update) (simp add: attempt_step_def)
  then show ?thesis by (metis list.set_map)
qed

lemma tok_step_attempts:
  "db_tasks d' = db_tasks d \<Longrightarrow> db_attempts d' = sql_update Q g (db_attempts d) \<Longrightarrow>
     (\<And>a. attempt_step a (g a)) \<Longrightarrow> tok_step d d'"
  by (auto simp: tok_step_def attempt_tokens_update)

lemma tok_step_insert: "t_token t = None \<Longrightarrow> tok_step d (insert_task t d)"
  by (auto simp: tok_step_def)

lemma tok_step_finish:
  assumes "update_one_attempt l g d = Inr d1" "\<And>a. attempt_step a (g a)"
    and "update_leased_task l f d1 = Inr d2" "keeps_or_clears f"
  shows "tok_step d d2"
proof -
  have "tok_step d d1" using assms(1,2) by (intro tok_step_attempts) (auto simp: update_one_attempt_Ok)
  moreover have "tok_step d1 d2" using assms(3,4) by (auto simp: update_leased_task_Ok tok_step_update)
  ultimately show ?thesis by (rule tok_step_trans)
qed

section \<open>Every operation but a claim\<close>

lemma tok_step_admit:
  assumes "admit_compile_on_conn X ps ctx policy schema force now d = Inr (r, d')"
  shows "tok_step d d'"
  using assms
proof (cases rule: admit_compile_cases)
  case (job d1 j)
  have heads [simp]: "tok_step a (upsert_source_head j task epoch b) = tok_step a b" for a b task epoch
    by (simp add: tok_step_def upsert_source_head_def Let_def)
  have new: "t_token (new_task j i st res) = None" for i st res by (simp add: new_task_def)
  have "tok_step d1 d'"
    using job(2) new
    by (auto simp: admit_job_on_def admit_task_def record_skipped_task_def Let_def
        tok_step_update tok_step_insert split: option.splits if_splits prod.splits)
  moreover have "tok_step d d1"
    using job(1) unfolding facts_only_def by (intro tok_step_same) (cases d; cases d1; simp add: same_queue_def)
  ultimately show ?thesis by (rule tok_step_trans[rotated])
qed simp

lemma tok_step_publish:
  assumes "publish_in_transaction X l page report c now d = Inr (r, d')"
  shows "tok_step d d'"
  using assms
proof (cases rule: publish_cases)
  case (live t)
  then obtain artifact deps fm g d1 cj d2 where
    w: "write_page_tables X page report c deps fm (t_revision t) now d = Inr (g, d1)"
    and a: "update_one_attempt l (accept_attempt_set artifact (x_report_text X report) cj now)
              (publish_generation g d1) = Inr d2"
    and u: "update_leased_task l (accept_task_set now) d2 = Inr d'"
    by (auto simp: publish_live_def)
  have "tok_step d (publish_generation g d1)"
    using write_page_tables_frame(1)[OF w]
    by (intro tok_step_same) (simp add: same_queue_def publish_generation_def)
  then show ?thesis using tok_step_finish[OF a _ u] by (rule tok_step_trans) simp_all
qed simp_all

lemma tok_step_failure:
  assumes "finish_failure_in_transaction X l failure cand report c now d = Inr (r, d')"
  shows "tok_step d d'"
  using assms
proof (cases rule: failure_cases)
  case (live t deps)
  then show ?thesis
    by (cases failure)
      (auto simp: fail_invalid_def fail_retryable_def fail_permanent_def Let_def split: if_splits
        intro: tok_step_finish tok_step_trans[OF tok_step_finish tok_step_same]
          quarantine_reviews_same dead_letter_for_same)
qed simp

lemma tok_step_dead_letter:
  "dead_letter_for X task epoch no code entity desired now (update_tasks P f d) = Inr (n, d') \<Longrightarrow>
     keeps_or_clears f \<Longrightarrow> tok_step d d'"
  by (rule tok_step_trans[OF tok_step_update tok_step_same[OF dead_letter_for_same]])

lemma tok_step_recover_loop:
  "recover_loop X now ts (s, d) = Inr (s', d') \<Longrightarrow> tok_step d d'"
proof (induction ts arbitrary: s d)
  case (Cons t ts)
  then obtain s1 d1 where 1: "recover_one X now t (s, d) = Inr (s1, d1)"
    and 2: "recover_loop X now ts (s1, d1) = Inr (s', d')" by auto
  have ab: "tok_step d (abandon_attempt t now d)"
    by (rule tok_step_attempts[where g = "abandon_set now"]) (simp_all add: abandon_attempt_def)
  have "tok_step (abandon_attempt t now d) d1"
    using 1
    by (auto simp: recover_one_def Let_def split: if_splits
        intro: tok_step_update tok_step_dead_letter)
  then show ?case using ab Cons.IH[OF 2] by (blast intro: tok_step_trans)
qed simp

lemma tok_step_preflight:
  assumes "quarantine_preflight_in_transaction task epoch token code now d = Inr (r, d')"
  shows "tok_step d d'"
proof -
  let ?rows = "fst (sql_insert_ignore attempt_key (preflight_attempt task epoch token code now) (db_attempts d))"
  obtain P where "d' = update_tasks P (dead_set RQuarantined code now) (d\<lparr>db_attempts := ?rows\<rparr>)"
    using assms by (auto simp: quarantine_preflight_in_transaction_def Let_def sql_insert_ignore_def split: if_splits)
  moreover have "tok_step d (d\<lparr>db_attempts := ?rows\<rparr>)"
    by (auto simp: tok_step_def sql_insert_ignore_def)
  ultimately show ?thesis using tok_step_update by (auto intro: tok_step_trans)
qed

section \<open>A dead token stays dead\<close>

definition dead_token :: "string \<Rightarrow> db \<Rightarrow> bool" where
  "dead_token tok d \<longleftrightarrow> tok \<in> a_token ` set (db_attempts d) \<and> Some tok \<notin> t_token ` set (db_tasks d)"

lemma dead_token_tok_step: "dead_token tok d \<Longrightarrow> tok_step d d' \<Longrightarrow> dead_token tok d'"
  unfolding dead_token_def tok_step_def by blast

lemma dead_token_claim:
  assumes dead: "dead_token tok d" and fresh: "token \<notin> a_token ` set (db_attempts d)"
    and ok: "queue_ok d" and c: "claim_in_transaction X ids run token now d = Inr (r, d')"
  shows "dead_token tok d'"
  using c
proof (cases rule: claim_cases)
  case idle
  with dead show ?thesis by (simp add: dead_token_def)
next
  case (granted t source deps b rr)
  let ?d2 = "open_day (now div 86400) (cpl_daily_budget (sd_policy deps))
      (open_run run (as_i64_cast (cpl_batch_budget (sd_policy deps))) now d)"
  have ok2: "queue_ok ?d2" by (intro queue_ok_open_day queue_ok_open_run ok)
  have t: "t \<in> set (db_tasks ?d2)" "t_status t = Pending"
    using claim_next_SomeD[OF granted(1)] by (auto simp: claimable_def)
  note d' = grant_lease_Ok(1)[OF ok2 t granted(9)]
  have "t_token ` set (sql_update (\<lambda>r. t_id r = t_id t) (leased_row b now token) (db_tasks d))
      \<subseteq> insert (Some token) (t_token ` set (db_tasks d))"
    by (auto simp: sql_update_def)
  moreover have "tok \<noteq> token" using dead fresh by (auto simp: dead_token_def)
  ultimately show ?thesis using dead by (auto simp: dead_token_def d')
qed

lemma dead_token_step:
  assumes dead: "dead_token tok d" and ok: "queue_ok d" and s: "kernel_step X d d'"
  shows "dead_token tok d'"
  using s
proof (cases rule: kernel_step_cases)
  case (admit policy ps ctx schema force now r)
  then show ?thesis
    using dead unfolding admit_compile_def by (elim transaction_inv) (auto intro: dead_token_tok_step tok_step_admit)
next
  case (claim token ids run now r)
  then show ?thesis
    using dead ok unfolding claim_compile_def
    by (auto split: if_splits elim!: transaction_inv intro: dead_token_claim)
next
  case (heartbeat l now b)
  then show ?thesis
    using dead by (auto simp: heartbeat_compile_def Let_def intro!: dead_token_tok_step[OF dead] tok_step_update)
next
  case (publish page l report c now r)
  then show ?thesis
    using dead unfolding publish_compile_def by (elim transaction_inv) (auto intro: dead_token_tok_step tok_step_publish)
next
  case (failure l failure cand report c now r)
  then show ?thesis
    using dead unfolding finish_compile_failure_def
    by (elim transaction_inv) (auto intro: dead_token_tok_step tok_step_failure)
next
  case (recover now r)
  then show ?thesis
    using dead unfolding recover_compile_leases_def
    by (elim transaction_inv)
      (auto simp: recover_in_transaction_def Let_def split: if_splits intro: dead_token_tok_step tok_step_recover_loop)
next
  case (preflight token task epoch code now r)
  then show ?thesis
    using dead unfolding quarantine_compile_preflight_def
    by (elim transaction_inv) (auto intro: dead_token_tok_step tok_step_preflight)
qed

lemma dead_token_later: "later X d d' \<Longrightarrow> dead_token tok d \<Longrightarrow> queue_ok d \<Longrightarrow> dead_token tok d' \<and> queue_ok d'"
  by (induction rule: later.induct) (auto intro: dead_token_step queue_ok_step)

section \<open>A lease that is not live\<close>

lemma sql_update_noop: "\<forall>r\<in>set rows. \<not> P r \<Longrightarrow> sql_update P f rows = rows"
  by (simp add: sql_update_def map_idI)

lemma sql_count_zero: "\<forall>r\<in>set rows. \<not> P r \<Longrightarrow> sql_count P rows = 0"
  by (simp add: sql_count_def filter_False)

definition no_live_task :: "task_lease \<Rightarrow> int \<Rightarrow> db \<Rightarrow> bool" where
  "no_live_task l now d = (\<not> sql_exists (\<lambda>t. t_id t = tl_task l \<and> live_task l now t) (db_tasks d))"

lemma inert_lease:
  assumes "no_live_task l now d"
  shows "snd (publish_compile X l page report c now d) = d"
    and "finish_compile_failure X l failure cand report c now d = (Inr FailedTask, d)"
    and "heartbeat_compile l now d = (False, d)"
proof -
  have none: "\<forall>t\<in>set (db_tasks d). \<not> (t_id t = tl_task l \<and> live_task l now t)"
    using assms by (auto simp: no_live_task_def sql_exists_iff)
  then have nl: "\<not> live_task l now t" if "find_task_id (tl_task l) d = Some t" for t
    using that by (auto simp: find_task_id_def dest!: sql_first_SomeD)
  show "finish_compile_failure X l failure cand report c now d = (Inr FailedTask, d)"
    using nl by (auto simp: finish_compile_failure_def finish_failure_in_transaction_def
        immediate_transaction_def split: option.splits)
  show "heartbeat_compile l now d = (False, d)"
    using none by (simp add: heartbeat_compile_def Let_def update_tasks_def sql_update_noop sql_count_zero)
  have "d' = d" if "publish_in_transaction X l page report c now d = Inr (r, d')" for r d'
    using that by (cases rule: publish_cases) (use nl in auto)
  then show "snd (publish_compile X l page report c now d) = d"
    unfolding publish_compile_def immediate_transaction_def by (auto split: sum.splits)
qed

lemma dead_token_inert: "dead_token (tl_token l) d \<Longrightarrow> no_live_task l now d"
  by (force simp: dead_token_def no_live_task_def sql_exists_iff live_task_def)

lemma queue_ok_running:
  "queue_ok d \<Longrightarrow> t \<in> set (db_tasks d) \<Longrightarrow> t_status t = Running \<Longrightarrow> \<exists>a\<in>set (db_attempts d). reserved_attempt t a"
  by (simp add: queue_ok_def attempts_ok_def)

text \<open>After a publication, a failure report or an abandoned lease the token is dead.\<close>

lemma finished_token_dead:
  assumes ok: "queue_ok d" and a: "update_one_attempt l g d = Inr d1" "\<And>a. attempt_step a (g a)"
    and u: "update_leased_task l f d1 = Inr d2" and f: "\<And>t. t_token (f t) = None"
  shows "dead_token (tl_token l) d2"
proof -
  have tasks: "db_tasks d2 = sql_update (lease_task l) f (db_tasks d)"
    and atts: "db_attempts d2 = sql_update (lease_attempt l) g (db_attempts d)"
    using a(1) u by (auto simp: update_one_attempt_Ok update_leased_task_Ok)
  have c: "sql_count (lease_attempt l) (db_attempts d) = 1" "sql_count (lease_task l) (db_tasks d) = 1"
    using a(1) u by (auto simp: update_one_attempt_Ok update_leased_task_Ok)
  then obtain b t where b: "b \<in> set (db_attempts d)" "lease_attempt l b"
    and t: "t \<in> set (db_tasks d)" "lease_task l t"
    by (metis less_one sql_count_pos_iff)
  have tok: "tl_token l \<in> a_token ` set (db_attempts d2)"
    unfolding atts attempt_tokens_update[OF a(2)] using b by (metis image_eqI lease_attempt_def)
  have uniq: "lease_task l r" if rr: "r \<in> set (db_tasks d)" "t_token r = Some (tl_token l)" for r
  proof -
    have "t_status r = Running" using queue_ok_task[OF ok rr(1)] rr(2) by (simp add: task_ok_def)
    then obtain x where x: "x \<in> set (db_attempts d)" "reserved_attempt r x"
      using queue_ok_running[OF ok rr(1)] by blast
    then have "a_token x = a_token b" using rr(2) b(2) by (simp add: reserved_attempt_def lease_attempt_def)
    then have "x = b" using ok x(1) b(1) keyed_unique[of a_token] by (auto simp: queue_ok_def attempts_ok_def)
    then show ?thesis using reserved_attempt_leased[OF ok rr(1) b(2)] x(2) by simp
  qed
  have "t_token r \<noteq> Some (tl_token l)" if "r \<in> set (db_tasks d2)" for r
    using that uniq f unfolding tasks set_sql_update by (metis option.distinct(1))
  then show ?thesis using tok by (force simp: dead_token_def)
qed

end
