(* ===== verification/Kernel_Effects.thy ===== *)
theory Kernel_Effects
  imports Fencing
begin

text \<open>
  What a call on a live lease does: the two counted updates find their rows, so a publication
  with its inputs in order commits, a failure report ends in exactly one of its dispositions,
  and a second publication with the same lease answers as the first one did.
\<close>

section \<open>A live lease finds its rows\<close>

definition holds_lease :: "task_lease \<Rightarrow> int \<Rightarrow> task_row \<Rightarrow> bool" where
  "holds_lease l now t \<longleftrightarrow> live_task l now t \<and> t_id t = tl_task l \<and> t_attempts t = int (tl_attempt l)"

lemma holds_lease_counts:
  assumes ok: "queue_ok d" and t: "t \<in> set (db_tasks d)" "holds_lease l now t"
  shows "sql_count (lease_attempt l) (db_attempts d) = 1" "sql_count (lease_task l) (db_tasks d) = 1"
proof -
  have l: "t_id t = tl_task l" "t_epoch t = tl_epoch l" "t_token t = Some (tl_token l)" "t_status t = Running"
    "t_attempts t = int (tl_attempt l)"
    using t(2) by (simp_all add: holds_lease_def live_task_def)
  obtain a where a: "a \<in> set (db_attempts d)" "reserved_attempt t a"
    using queue_ok_running[OF ok t(1) l(4)] by blast
  then have "lease_attempt l a"
    using l by (simp add: reserved_attempt_def current_attempt_def lease_attempt_def)
  then show "sql_count (lease_attempt l) (db_attempts d) = 1"
    using ok a(1) by (intro count_one[where key = attempt_key and r = a])
      (auto simp: queue_ok_def attempts_ok_def lease_attempt_def attempt_key_def)
  have "lease_task l t" using l by (simp add: lease_task_def)
  then show "sql_count (lease_task l) (db_tasks d) = 1"
    using ok t(1) by (intro count_one[where key = t_id and r = t])
      (auto simp: queue_ok_def tasks_ok_def lease_task_def)
qed

text \<open>After the two updates the lease's task is the updated row and its attempt the updated attempt.\<close>

lemma lease_finished:
  assumes ok: "queue_ok d" "queue_ok d'" and f: "find_task_id (tl_task l) d = Some t"
    and a: "same_queue d d0" "update_one_attempt l g d0 = Inr d1"
    and u: "update_leased_task l f d1 = Inr d2" "same_queue d2 d'"
    and keep: "t_id (f t) = t_id t"
  shows "find_task_id (tl_task l) d' = Some (f t)" "\<exists>b\<in>set (db_attempts d). lease_attempt l b \<and> g b \<in> set (db_attempts d')"
proof -
  have tasks: "db_tasks d' = sql_update (lease_task l) f (db_tasks d)"
    and atts: "db_attempts d' = sql_update (lease_attempt l) g (db_attempts d)"
    and n: "sql_count (lease_task l) (db_tasks d) = 1" "sql_count (lease_attempt l) (db_attempts d) = 1"
    using a u by (auto simp: update_one_attempt_Ok update_leased_task_Ok same_queue_def)
  obtain r where r: "r \<in> set (db_tasks d)" "lease_task l r" using n(1) by (metis less_one sql_count_pos_iff)
  then have "lease_task l t" using lease_task_unique[OF ok(1) f] by blast
  then have "f t \<in> set (db_tasks d')"
    using f unfolding tasks set_sql_update find_task_id_iff[OF ok(1)] by auto
  then show "find_task_id (tl_task l) d' = Some (f t)"
    using f keep unfolding find_task_id_iff[OF ok(1)] find_task_id_iff[OF ok(2)] by simp
  obtain b where b: "b \<in> set (db_attempts d)" "lease_attempt l b" using n(2) by (metis less_one sql_count_pos_iff)
  then have "g b \<in> set (db_attempts d')" unfolding atts set_sql_update by auto
  with b show "\<exists>b\<in>set (db_attempts d). lease_attempt l b \<and> g b \<in> set (db_attempts d')" by blast
qed

section \<open>Publication\<close>

text \<open>The inputs a publication needs: the artifact fits, its dependencies parse, the scores are numbers.\<close>

definition publishable ::
  "ext \<Rightarrow> task_row \<Rightarrow> task_lease \<Rightarrow> compiled_page \<Rightarrow> score_report \<Rightarrow> consistency_report option \<Rightarrow> bool" where
  "publishable X t l page report c \<longleftrightarrow>
     cp_evidence page \<noteq> None \<and> to_key (wp_entity (cp_wiki page)) = t_entity t \<and> cp_hash page = tl_hash l
     \<and> length (x_page_text X page) \<le> max_artifact_bytes \<and> x_parse_deps X (t_deps t) \<noteq> None
     \<and> quality_row_ok (quality_row_of (wp_id (cp_wiki page)) (sc_quality report)
          (case c of None \<Rightarrow> None | Some c \<Rightarrow> cr_score c))
     \<and> (case c of None \<Rightarrow> True
        | Some c \<Rightarrow> \<exists>text. publish_consistency_json X c (tl_task l) (tl_epoch l) (int (tl_attempt l))
                             (t_entity t) (t_desired t) = Inr text)"

lemma write_page_tables_total:
  assumes ok: "pages_ok d"
    and q: "quality_row_ok (quality_row_of (wp_id (cp_wiki page)) (sc_quality report)
          (case c of None \<Rightarrow> None | Some c \<Rightarrow> cr_score c))"
  shows "\<exists>d'. write_page_tables X page report c deps fm revision now d = Inr (db_gen_seq d + 1, d')"
proof -
  have s: "ensure_generation_sentinel d = d"
  proof (cases "db_generations d")
    case Nil
    then have "db_pages d = []" using ok by (cases "db_pages d") (auto simp: pages_ok_def)
    then show ?thesis by (simp add: ensure_generation_sentinel_def sql_exists_def)
  qed (simp add: ensure_generation_sentinel_def)
  have "\<forall>s\<in>set (db_sections d). section_row_ok s" using ok by (simp add: pages_ok_def)
  then show ?thesis
    using q by (simp add: write_page_tables_def s open_generation_def Let_def write_page_def write_sections_Ok
        write_quality_def)
qed

lemma publish_live_total:
  assumes ok: "queue_ok d" "pages_ok d" and t: "t \<in> set (db_tasks d)" "holds_lease l now t"
    and p: "publishable X t l page report c"
  shows "\<exists>d'. publish_live X t l page report c now d = Inr (Accepted (db_gen_seq d + 1), d')"
proof -
  obtain deps where deps: "x_parse_deps X (t_deps t) = Some deps" using p by (auto simp: publishable_def)
  obtain fm where fm: "build_frontmatter_json X page deps = Inr fm"
    using p by (auto simp: build_frontmatter_json_def publishable_def)
  obtain cj where cj: "(case c of
                 Some c \<Rightarrow> publish_consistency_json X c (tl_task l) (tl_epoch l) (int (tl_attempt l))
                             (t_entity t) (t_desired t)
               | None \<Rightarrow> Inr ''{}'') = Inr cj"
    using p by (auto simp: publishable_def split: option.splits)
  obtain d1 where w: "write_page_tables X page report c deps fm (t_revision t) now d = Inr (db_gen_seq d + 1, d1)"
    using write_page_tables_total[OF ok(2)] p unfolding publishable_def by blast
  have same: "same_queue d (publish_generation (db_gen_seq d + 1) d1)"
    using write_page_tables_frame(1)[OF w] by (simp add: same_queue_def publish_generation_def)
  then have "sql_count (lease_attempt l) (db_attempts (publish_generation (db_gen_seq d + 1) d1)) = 1"
    "sql_count (lease_task l) (db_tasks (publish_generation (db_gen_seq d + 1) d1)) = 1"
    using holds_lease_counts[OF ok(1) t] by (simp_all add: same_queue_def)
  moreover have "serialized_artifact X page = Inr (x_page_text X page)"
    using p by (simp add: serialized_artifact_def publishable_def)
  ultimately show ?thesis
    using deps fm cj w by (simp add: publish_live_def update_one_attempt_def update_leased_task_def)
qed

lemma publish_total:
  assumes ok: "queue_ok d" "pages_ok d" and t: "t \<in> set (db_tasks d)" "holds_lease l now t"
    and h: "head_desired (t_entity t) d = Some (t_desired t)" and p: "publishable X t l page report c"
  shows "\<exists>d'. publish_compile X l page report c now d = (Inr (Accepted (db_gen_seq d + 1)), d')"
proof -
  have f: "find_task_id (tl_task l) d = Some t"
    using t ok(1) by (simp add: find_task_id_iff holds_lease_def)
  have "live_task l now t" "\<not> is_replay l t d"
    using t(2) by (simp_all add: holds_lease_def live_task_def is_replay_def)
  then have "publish_in_transaction X l page report c now d = publish_live X t l page report c now d"
    using f h p by (auto simp: publish_in_transaction_def publishable_def)
  then show ?thesis
    using publish_live_total[OF ok t p] by (auto simp: publish_compile_def immediate_transaction_def)
qed

text \<open>What a live publication leaves on the queue, beside the pages of \<open>publish_live_pages\<close>.\<close>

lemma publish_live_queue:
  assumes ok: "queue_ok d" and f: "find_task_id (tl_task l) d = Some t"
    and p: "publish_live X t l page report c now d = Inr (r, d')"
  shows "find_task_id (tl_task l) d' = Some (accept_task_set now t)"
    and "\<exists>a\<in>set (db_attempts d'). lease_attempt l a \<and> a_status a = Completed \<and> a_publish a = Some AcceptedPage"
    and "queue_ok d'"
proof -
  from p obtain artifact deps fm g d1 cj d2 where
    w: "write_page_tables X page report c deps fm (t_revision t) now d = Inr (g, d1)"
    and a: "update_one_attempt l (accept_attempt_set artifact (x_report_text X report) cj now)
              (publish_generation g d1) = Inr d2"
    and u: "update_leased_task l (accept_task_set now) d2 = Inr d'"
    by (auto simp: publish_live_def)
  have same: "same_queue d (publish_generation g d1)"
    using write_page_tables_frame(1)[OF w] by (simp add: same_queue_def publish_generation_def)
  show ok': "queue_ok d'" using queue_ok_publish_live[OF ok p] .
  note fin = lease_finished[OF ok ok' f same a u same_queue_refl]
  show "find_task_id (tl_task l) d' = Some (accept_task_set now t)"
    by (rule fin(1)) (simp add: accept_task_set_def)
  obtain b where "lease_attempt l b" "accept_attempt_set artifact (x_report_text X report) cj now b \<in> set (db_attempts d')"
    using fin(2) by (auto simp: accept_task_set_def)
  then show "\<exists>a\<in>set (db_attempts d'). lease_attempt l a \<and> a_status a = Completed \<and> a_publish a = Some AcceptedPage"
    by (intro bexI) (auto simp: accept_attempt_set_def lease_attempt_def)
qed

text \<open>The same lease asked again gets the same generation and changes nothing.\<close>

lemma publish_replayed:
  assumes ok: "pages_ok d'" and f: "find_task_id (tl_task l) d' = Some (accept_task_set now t)"
    and a: "a \<in> set (db_attempts d')" "lease_attempt l a" "a_status a = Completed" "a_publish a = Some AcceptedPage"
    and p: "p \<in> set (db_pages d')" "pg_entity p = t_entity t"
  shows "publish_compile X l page report c now' d' = (Inr (Accepted (pg_generation p)), d')"
proof -
  have "is_replay l (accept_task_set now t) d'"
    using a by (auto simp: is_replay_def accept_task_set_def sql_count_pos_iff lease_attempt_def)
  moreover have "replay_outcome (accept_task_set now t) d' = Inr (Accepted (pg_generation p))"
    using accepted_page_found(2)[OF ok p(1)] p(2) by (simp add: accept_task_set_def)
  ultimately show ?thesis
    using f by (simp add: publish_compile_def immediate_transaction_def publish_in_transaction_def)
qed

text \<open>A publication that commits on a running task.\<close>

lemma publish_replaced:
  assumes "reachable X d" "wp_id (cp_wiki page) = to_key (wp_entity (cp_wiki page))"
    and "publish_compile X l page report c now d = (Inr (Accepted g), d')"
    and "find_task_id (tl_task l) d = Some t" "t_status t = Running"
  shows "(\<forall>r\<in>set (db_generations d). g_generation r < g)
    \<and> (\<exists>p. accepted_page (t_entity t) d' = Some p \<and> pg_hash p = tl_hash l \<and> pg_generation p = g
         \<and> pg_revision p = t_revision t \<and> pg_content p = wp_content (cp_wiki page) \<and> pg_title p = wp_title (cp_wiki page))
    \<and> map (\<lambda>s. (se_heading s, se_content s)) (filter (\<lambda>s. se_page s = t_entity t) (db_sections d')) = wp_sections (cp_wiki page)
    \<and> (\<forall>p. pg_entity p \<noteq> t_entity t \<longrightarrow> (p \<in> set (db_pages d') \<longleftrightarrow> p \<in> set (db_pages d)))
    \<and> filter (\<lambda>s. se_page s \<noteq> t_entity t) (db_sections d') = filter (\<lambda>s. se_page s \<noteq> t_entity t) (db_sections d)
    \<and> find_task_id (tl_task l) d' = Some (accept_task_set now t)
    \<and> publish_compile X l page2 report2 c2 now2 d' = (Inr (Accepted g), d')"
proof -
  have ok: "queue_ok d" and pk: "pages_ok d"
    using queue.always[OF assms(1)] pages.always[OF assms(1)] .
  from assms(3) have p: "publish_in_transaction X l page report c now d = Inr (Accepted g, d')"
    unfolding publish_compile_def by (elim immediate_transaction_cases) auto
  have nr: "\<not> is_replay l t d" using assms(5) by (simp add: is_replay_def)
  obtain t1 where "find_task_id (tl_task l) d = Some t1" "publish_live X t1 l page report c now d = Inr (Accepted g, d')"
    "to_key (wp_entity (cp_wiki page)) = t_entity t1" "cp_hash page = tl_hash l"
    using p
  proof (cases rule: publish_cases)
    case (replay t1)
    then show ?thesis using assms(4) nr by simp
  qed (use that in auto)
  with assms(4) have live: "publish_live X t l page report c now d = Inr (Accepted g, d')"
    "to_key (wp_entity (cp_wiki page)) = t_entity t" "cp_hash page = tl_hash l" by simp_all
  have id: "wp_id (cp_wiki page) = t_entity t" using assms(2) live(2) by simp
  note q = publish_live_queue[OF ok assms(4) live(1)]
  obtain deps fm where g: "g = db_gen_seq d + 1" and pk': "pages_ok d'"
    and mem: "\<And>p. p \<in> set (db_pages d') \<longleftrightarrow>
       p = stored_page (page_row_of page deps fm (t_revision t) (db_gen_seq d + 1) now) (db_pages d)
       \<or> p \<in> set (db_pages d) \<and> pg_id p \<noteq> wp_id (cp_wiki page)"
    and secs: "db_sections d' = sql_delete (\<lambda>r. se_page r = wp_id (cp_wiki page)) (db_sections d)
       @ section_rows (wp_id (cp_wiki page)) 0 (wp_sections (cp_wiki page))"
    by (rule publish_live_pages[OF pk live(1) assms(2)]) auto
  let ?p = "stored_page (page_row_of page deps fm (t_revision t) (db_gen_seq d + 1) now) (db_pages d)"
  have p': "?p \<in> set (db_pages d')" "pg_entity ?p = t_entity t" using mem live(2) by auto
  have "filter (\<lambda>s. se_page s = t_entity t) (db_sections d') = section_rows (t_entity t) 0 (wp_sections (cp_wiki page))"
    using section_rows_ok by (auto simp: secs id sql_delete_def filter_empty_conv filter_id_conv)
  then have "map (\<lambda>s. (se_heading s, se_content s)) (filter (\<lambda>s. se_page s = t_entity t) (db_sections d'))
      = wp_sections (cp_wiki page)"
    by (simp add: section_rows_view)
  moreover have "filter (\<lambda>s. se_page s \<noteq> t_entity t) (db_sections d') = filter (\<lambda>s. se_page s \<noteq> t_entity t) (db_sections d)"
    using section_rows_ok by (auto simp: secs id sql_delete_def filter_empty_conv)
  moreover have "publish_compile X l page2 report2 c2 now2 d' = (Inr (Accepted g), d')"
    using q(2) publish_replayed[OF pk' q(1) _ _ _ _ p'] g by auto
  moreover have "accepted_page (t_entity t) d' = Some ?p" using accepted_page_found(1)[OF pk' p'(1)] p'(2) by simp
  moreover have "p \<in> set (db_pages d') \<longleftrightarrow> p \<in> set (db_pages d)" if "pg_entity p \<noteq> t_entity t" for p
    using mem[of p] that live(2) pk by (auto simp: id pages_ok_def)
  moreover have "g_generation r < g" if "r \<in> set (db_generations d)" for r
    using pk that g by (force simp: pages_ok_def)
  ultimately show ?thesis using q(1) live(3) g by auto
qed

section \<open>Failure reports\<close>

text \<open>The row a disposition leaves, by the kind of failure.\<close>

definition disposed ::
  "ext \<Rightarrow> compile_failure \<Rightarrow> stored_deps \<Rightarrow> int \<Rightarrow> task_row \<Rightarrow> failure_disposition \<Rightarrow> task_row \<Rightarrow> db \<Rightarrow> bool" where
  "disposed X failure deps now t r t' d' =
     (case failure of
        InvalidOutput code _ \<Rightarrow>
          (if t_recompiles t + 1 > int (cpl_max_recompiles (sd_policy deps)) then
             r = QuarantinedTask \<and> t' = dead_set RQuarantined code now (recompiles_set (t_recompiles t + 1) t)
             \<and> (\<exists>domain. review_domain_of (t_entity t) = Inr domain
                  \<and> has_review domain CompileDeadLetter (task_subject X (t_id t)) d')
           else r = RetryAt (now + backoff_seconds (t_retries t))
             \<and> t' = pending_set (now + backoff_seconds (t_retries t)) now (recompiles_set (t_recompiles t + 1) t))
      | Retryable code retry_after \<Rightarrow>
          (if t_retries t + 1 \<ge> t_max_retries t then
             r = FailedTask \<and> t' = dead_set RFailed code now (retries_set (t_retries t + 1) t)
             \<and> (\<exists>domain. review_domain_of (t_entity t) = Inr domain
                  \<and> has_review domain CompileDeadLetter (task_subject X (t_id t)) d')
           else r = RetryAt (now + retry_delay retry_after (t_retries t + 1))
             \<and> t' = pending_set (now + retry_delay retry_after (t_retries t + 1)) now (retries_set (t_retries t + 1) t))
      | Permanent code \<Rightarrow> r = FailedTask \<and> t' = failed_set code now t)"

lemma quarantine_reviews_has:
  assumes "quarantine_reviews X t l code conflict now d = Inr d'"
  shows "\<exists>domain. review_domain_of (t_entity t) = Inr domain
    \<and> has_review domain CompileDeadLetter (task_subject X (tl_task l)) d'"
  using assms unfolding quarantine_reviews_def enqueue_dead_letter_def
  by (auto dest: insert_review_Ok(3) intro: has_review_mono[OF _ insert_review_Ok(2)] split: if_splits)

lemma dead_letter_for_has:
  assumes "dead_letter_for X task epoch no code entity desired now d = Inr (n, d')"
  shows "\<exists>domain. review_domain_of entity = Inr domain \<and> has_review domain CompileDeadLetter (task_subject X task) d'"
  using assms unfolding dead_letter_for_def enqueue_dead_letter_def by (auto dest: insert_review_Ok(3))

lemma fail_invalid_cases:
  assumes "fail_invalid X t deps l code cand report c now d = Inr (r, d')"
  obtains (dead) h d1 d2 conflict where "t_recompiles t + 1 > int (cpl_max_recompiles (sd_policy deps))"
      "update_one_attempt l h d = Inr d1" "r = QuarantinedTask"
      "update_leased_task l (\<lambda>r. dead_set RQuarantined code now (recompiles_set (t_recompiles t + 1) r)) d1 = Inr d2"
      "quarantine_reviews X t l code conflict now d2 = Inr d'"
  | (again) h d1 where "t_recompiles t + 1 \<le> int (cpl_max_recompiles (sd_policy deps))"
      "update_one_attempt l h d = Inr d1" "r = RetryAt (now + backoff_seconds (t_retries t))"
      "update_leased_task l (\<lambda>r. pending_set (now + backoff_seconds (t_retries t)) now
         (recompiles_set (t_recompiles t + 1) r)) d1 = Inr d'"
  using assms by (auto simp: fail_invalid_def Let_def split: if_splits)

lemma fail_retryable_cases:
  assumes "fail_retryable X t l code ra now d = Inr (r, d')"
  obtains (dead) d1 d2 n where "t_retries t + 1 \<ge> t_max_retries t"
      "update_one_attempt l (error_attempt_set code now) d = Inr d1" "r = FailedTask"
      "update_leased_task l (\<lambda>r. dead_set RFailed code now (retries_set (t_retries t + 1) r)) d1 = Inr d2"
      "dead_letter_for X (tl_task l) (tl_epoch l) (int (tl_attempt l)) code (t_entity t) (t_desired t) now d2 = Inr (n, d')"
  | (again) d1 where "t_retries t + 1 < t_max_retries t"
      "update_one_attempt l (error_attempt_set code now) d = Inr d1"
      "r = RetryAt (now + retry_delay ra (t_retries t + 1))"
      "update_leased_task l (\<lambda>r. pending_set (now + retry_delay ra (t_retries t + 1)) now
         (retries_set (t_retries t + 1) r)) d1 = Inr d'"
  using assms by (auto simp: fail_retryable_def Let_def split: if_splits)

lemma setter_ids [simp]:
  "t_id (dead_set res code now t) = t_id t" "t_id (pending_set due now t) = t_id t"
  "t_id (recompiles_set n t) = t_id t" "t_id (retries_set n t) = t_id t" "t_id (failed_set code now t) = t_id t"
  by (simp_all add: dead_set_def pending_set_def recompiles_set_def retries_set_def failed_set_def)

lemma failure_disposed:
  assumes ok: "queue_ok d" and f: "find_task_id (tl_task l) d = Some t" "live_task l now t"
    and p: "finish_failure_in_transaction X l failure cand report c now d = Inr (r, d')"
  shows "\<exists>deps t'. x_parse_deps X (t_deps t) = Some deps \<and> find_task_id (tl_task l) d' = Some t'
    \<and> disposed X failure deps now t r t' d'"
proof -
  have ok': "queue_ok d'" by (rule queue_ok_failure[OF ok p])
  have id: "t_id t = tl_task l" using f(1) ok by (simp add: find_task_id_iff)
  obtain deps where deps: "x_parse_deps X (t_deps t) = Some deps"
    and b: "case failure of
         InvalidOutput code _ \<Rightarrow> fail_invalid X t deps l code cand report c now d = Inr (r, d')
       | Retryable code ra \<Rightarrow> fail_retryable X t l code ra now d = Inr (r, d')
       | Permanent code \<Rightarrow> fail_permanent l code now d = Inr (r, d')"
    using p
  proof (cases rule: failure_cases)
    case stale
    from stale(3)[OF f(1)] f(2) show ?thesis by simp
  next
    case (live t1 deps)
    from f(1) live(1) have "t1 = t" by simp
    with live that show ?thesis by blast
  qed
  have fin: "find_task_id (tl_task l) d' = Some (g t)"
    if "update_one_attempt l h d = Inr d1" "update_leased_task l g d1 = Inr d2" "same_queue d2 d'" "t_id (g t) = t_id t"
    for g h d1 d2
    by (rule lease_finished(1)[OF ok ok' f(1) same_queue_refl that])
  have "\<exists>t'. find_task_id (tl_task l) d' = Some t' \<and> disposed X failure deps now t r t' d'"
  proof (cases failure)
    case (InvalidOutput code resp)
    with b have "fail_invalid X t deps l code cand report c now d = Inr (r, d')" by simp
    then show ?thesis
    proof (cases rule: fail_invalid_cases)
      case (dead h d1 d2 conflict)
      show ?thesis
        using fin[OF dead(2,4) quarantine_reviews_same[OF dead(5)]] quarantine_reviews_has[OF dead(5)] dead(1,3)
        by (simp add: disposed_def InvalidOutput id)
    next
      case (again h d1)
      show ?thesis
        using fin[OF again(2,4) same_queue_refl] again(1,3) by (simp add: disposed_def InvalidOutput)
    qed
  next
    case (Retryable code ra)
    with b have "fail_retryable X t l code ra now d = Inr (r, d')" by simp
    then show ?thesis
    proof (cases rule: fail_retryable_cases)
      case (dead d1 d2 n)
      show ?thesis
        using fin[OF dead(2,4) dead_letter_for_same[OF dead(5)]] dead_letter_for_has[OF dead(5)] dead(1,3)
        by (simp add: disposed_def Retryable id)
    next
      case (again d1)
      show ?thesis
        using fin[OF again(2,4) same_queue_refl] again(1,3) by (simp add: disposed_def Retryable)
    qed
  next
    case (Permanent code)
    with b obtain d1 where "update_one_attempt l (error_attempt_set code now) d = Inr d1"
      "update_leased_task l (failed_set code now) d1 = Inr d'" "r = FailedTask"
      by (auto simp: fail_permanent_def)
    then show ?thesis using Permanent fin[OF _ _ same_queue_refl] by (simp add: disposed_def)
  qed
  with deps show ?thesis by blast
qed

lemma failure_ended:
  assumes "reachable X d" "find_task_id (tl_task l) d = Some t" "live_task l now t"
    and "finish_compile_failure X l failure cand report c now d = (Inr r, d')"
  shows "\<exists>deps t'. x_parse_deps X (t_deps t) = Some deps \<and> find_task_id (tl_task l) d' = Some t'
    \<and> disposed X failure deps now t r t' d' \<and> t_token t' = None \<and> t_status t' \<noteq> Running
    \<and> (\<forall>due. r = RetryAt due \<longrightarrow> t_status t' = Pending \<and> t_next_at t' = due \<and> now \<le> due \<and> due \<le> now + 300)"
proof -
  from assms(4) have p: "finish_failure_in_transaction X l failure cand report c now d = Inr (r, d')"
    unfolding finish_compile_failure_def by (elim immediate_transaction_cases) auto
  obtain deps t' where t': "x_parse_deps X (t_deps t) = Some deps" "find_task_id (tl_task l) d' = Some t'"
    "disposed X failure deps now t r t' d'"
    using failure_disposed[OF queue.always[OF assms(1)] assms(2,3) p] by blast
  have delay: "0 \<le> retry_delay ra n" "retry_delay ra n \<le> 300" for ra n
    using backoff_bounds[of n] by (auto simp: retry_delay_def split: option.splits)
  have "t_token t' = None \<and> t_status t' \<noteq> Running
    \<and> (\<forall>due. r = RetryAt due \<longrightarrow> t_status t' = Pending \<and> t_next_at t' = due \<and> now \<le> due \<and> due \<le> now + 300)"
    using t'(3) delay backoff_bounds[of "t_retries t"]
    by (auto simp: disposed_def dead_set_def pending_set_def failed_set_def split: compile_failure.splits if_splits)
  with t' show ?thesis by blast
qed

text \<open>A failure that its reporter can always record: the lease is its own, no artifact and no diagnostic to store.\<close>

definition reportable :: "ext \<Rightarrow> task_lease \<Rightarrow> compile_failure \<Rightarrow> int \<Rightarrow> task_row \<Rightarrow> bool" where
  "reportable X l failure now t \<longleftrightarrow> holds_lease l now t \<and> x_parse_deps X (t_deps t) \<noteq> None \<and> t_max_retries t \<le> i64_max
     \<and> (case failure of InvalidOutput _ _ \<Rightarrow> False | Retryable _ _ \<Rightarrow> t_retries t + 1 < t_max_retries t | Permanent _ \<Rightarrow> True)"

lemma failure_succeeds:
  assumes "reachable X d" "find_task_id (tl_task l) d = Some t" "live_task l now t"
    and "reportable X l failure now t"
    and "finish_compile_failure X l failure cand report c now d = (res, d')"
  shows "\<exists>r. res = Inr r"
proof -
  have ok: "queue_ok d" by (rule queue.always[OF assms(1)])
  have t: "t \<in> set (db_tasks d)" using assms(2) ok by (simp add: find_task_id_iff)
  have n: "sql_count (lease_attempt l) (db_attempts d) = 1" "sql_count (lease_task l) (db_tasks d) = 1"
    using holds_lease_counts[OF ok t] assms(4) by (auto simp: reportable_def)
  have r: "0 \<le> t_retries t" using queue_ok_task[OF ok t] assms(3) by (simp add: task_ok_def live_task_def active_def)
  show ?thesis
    using assms(2-5) n r
    by (cases failure)
      (auto simp: reportable_def finish_compile_failure_def immediate_transaction_def finish_failure_in_transaction_def
        fail_retryable_def fail_permanent_def checked_add_def i64_max_def i64_min_def update_one_attempt_def
        update_leased_task_def Let_def ok_or_def update_tasks_def split: option.splits)
qed

end
