(* ===== verification/Kernel_Demo.thy ===== *)
theory Kernel_Demo
  imports Kernel_Effects
begin

text \<open>
  A reachable run on which the witnesses of the kernel's properties stand: the sample entity is
  admitted at time 0, claimed at time 10 under the token \<open>tok\<close>, and published at time 20. Each
  state is written out by the definitions of the operations, and each step is a kernel step.
\<close>

section \<open>Admission\<close>

definition demo_hash :: string where
  "demo_hash = projr (content_hash sample_ext demo_knowledge demo_context demo_policy demo_schema)"

lemma demo_content_hash: "content_hash sample_ext demo_knowledge demo_context demo_policy demo_schema = Inr demo_hash"
  using demo_hash_raw(2)[of demo_knowledge] by (auto simp: demo_hash_def demo_knowledge_def)

definition demo_prepared :: prepared_source where
  "demo_prepared = \<lparr>ps_full = demo_raw, ps_knowledge = demo_knowledge,
     ps_facts = \<lparr>fs_entity = demo_entity, fs_fields = [], fs_revision = 1\<rparr>, ps_snapshot = ''snapshot''\<rparr>"

definition demo_job :: admit_job where
  "demo_job = \<lparr>j_entity = ''milk:drink:boba'', j_revision = 1, j_pack = ''0.1.0'', j_desired = demo_hash,
     j_source = ''source'', j_deps = ''deps'', j_snapshot = ''snapshot'', j_max_retries = 3,
     j_budget = 65536, j_now = 0\<rparr>"

definition demo_task :: task_row where "demo_task = new_task demo_job 1 Pending None"

definition demo_admitted :: db where
  "demo_admitted = upsert_source_head demo_job 1 1 (insert_task demo_task empty_db)"

lemma demo_key: "to_key demo_entity = ''milk:drink:boba''"
  by (simp add: to_key_def demo_entity_def)

lemma demo_values:
  "cx_pack_version demo_context = ''0.1.0''" "cx_prompt demo_context = ''prompt''"
  "cpl_max_retries demo_policy = 3" "as_i64_cast (cpl_task_budget demo_policy) = 65536"
  "as_i64_cast (cpl_batch_budget demo_policy) = 262144" "cpl_daily_budget demo_policy = None"
  "cpl_max_output demo_policy = 2048" "sd_context demo_deps = demo_context" "sd_policy demo_deps = demo_policy"
  by (simp_all add: demo_defs as_i64_cast_def i64_max_def)

lemma demo_policy_ok: "policy_validate demo_policy = Inr ()"
  by (simp add: policy_validate_def check_unique_non_empty_def consistency_validate_def demo_defs
      in_unit_def overview_heading_def trim_def is_space_def)

lemma demo_admit:
  "admit_compile sample_ext demo_prepared demo_context demo_policy demo_schema False 0 empty_db = (Inr (Queued 1), demo_admitted)"
proof -
  have rev: "raw_revision demo_raw = 1" "raw_id demo_raw = demo_entity" "raw_revision demo_knowledge = 1"
    "raw_id demo_knowledge = demo_entity" by (simp_all add: demo_raw_def demo_knowledge_def)
  have "admit_identity sample_ext demo_prepared demo_context demo_policy demo_schema False 1 0 empty_db
      = Inr (admit_job_on demo_policy False demo_job empty_db)"
    using demo_content_hash rev demo_key
    by (simp add: admit_identity_def demo_prepared_def demo_job_def demo_values)
  moreover have "admit_job_on demo_policy False demo_job empty_db = (Queued 1, demo_admitted)"
    by (simp add: admit_job_on_def accepted_page_def sql_first_by_def admit_task_def find_task_def sql_first_def
        demo_admitted_def demo_task_def empty_db_def)
  moreover have "write_facts_cas (ps_facts demo_prepared) 1 0 empty_db = Inr empty_db"
    by (simp add: write_facts_cas_def revision_to_i64_def i64_max_def demo_prepared_def)
  ultimately show ?thesis
    by (simp add: admit_compile_def admit_compile_on_conn_def immediate_transaction_def rev demo_prepared_def
        revision_to_i64_def i64_max_def empty_db_def sql_first_def)
qed

lemma demo_admitted_reachable: "reachable sample_ext demo_admitted"
  by (rule reachable.step[OF reachable.start kernel_step.admit[OF demo_policy_ok demo_admit]])

section \<open>Claim\<close>

definition demo_lease :: task_lease where
  "demo_lease = \<lparr>tl_task = 1, tl_epoch = 1, tl_token = ''tok'', tl_hash = demo_hash, tl_attempt = 1,
     tl_source = demo_knowledge, tl_context = demo_context\<rparr>"

definition demo_claimed :: db where
  "demo_claimed = demo_admitted\<lparr>
     db_tasks := [leased_row 2316 10 ''tok'' demo_task],
     db_runs := [\<lparr>r_id = ''run'', r_limit = 262144, r_reserved = 2316, r_created = 10\<rparr>],
     db_attempts := [new_attempt demo_task 1 ''tok'' ''run'' 0 2316 10]\<rparr>"

lemma demo_admitted_fields:
  "db_tasks demo_admitted = [demo_task]" "db_attempts demo_admitted = []" "db_runs demo_admitted = []"
  "db_days demo_admitted = []"
  by (simp_all add: demo_admitted_def upsert_source_head_def insert_task_def empty_db_def Let_def)

lemma demo_task_fields:
  "t_id demo_task = 1" "t_status demo_task = Pending" "t_epoch demo_task = 1" "t_attempts demo_task = 0"
  "t_next_at demo_task = 0" "t_retries demo_task = 0" "t_max_retries demo_task = 3" "t_reserved demo_task = 0"
  "t_budget demo_task = 65536" "t_desired demo_task = demo_hash" "t_source demo_task = ''source''"
  "t_entity demo_task = ''milk:drink:boba''" "t_recompiles demo_task = 0" "t_token demo_task = None"
  "t_revision demo_task = 1"
  by (simp_all add: demo_task_def new_task_def demo_job_def)

lemma demo_claim:
  "claim_compile sample_ext [1] ''run'' ''tok'' 10 demo_admitted = (Inr (Some demo_lease), demo_claimed)"
proof -
  have first: "claim_next [1] 10 demo_admitted = Some demo_task"
    by (simp add: claim_next_def sql_first_by_def claimable_def demo_admitted_fields demo_task_fields)
  have est: "estimate_budget_units ''prompt'' ''source'' 2048 = Inr 2316"
    by (simp add: estimate_budget_units_def as_i64_cast_def i64_max_def i64_min_def checked_add_def)
  have fit: "fits 0 2316 65536 = Inr True" "fits 0 2316 262144 = Inr True"
    by (simp_all add: fits_Ok i64_max_def i64_min_def)
  let ?d1 = "open_run ''run'' 262144 10 demo_admitted"
  have run: "db_runs ?d1 = [\<lparr>r_id = ''run'', r_limit = 262144, r_reserved = 0, r_created = 10\<rparr>]"
    by (simp add: open_run_def sql_insert_ignore_def sql_exists_def demo_admitted_fields)
  have grant: "grant_lease demo_task demo_knowledge demo_deps 2316 ''run'' ''tok'' 10 ?d1 = Inr (Some demo_lease, demo_claimed)"
    by (simp add: grant_lease_def insert_attempt_def reserve_tokens_def sql_exists_def sql_count_def sql_update_def
        update_tasks_def demo_admitted_fields run demo_task_fields checked_add_def i64_max_def i64_min_def
        demo_lease_def demo_claimed_def reserve_run_def reserve_task_def leased_row_def demo_values open_run_def
        sql_insert_ignore_def)
  have d: "find_run ''run'' ?d1 = Some \<lparr>r_id = ''run'', r_limit = 262144, r_reserved = 0, r_created = 10\<rparr>"
    "find_day 0 ?d1 = None" "open_day 0 None ?d1 = ?d1"
    by (simp_all add: find_run_def run find_day_def open_day_def sql_first_def demo_admitted_fields)
  show ?thesis
    by (simp add: claim_compile_def immediate_transaction_def claim_in_transaction_def first ok_or_def Let_def demo_values
        demo_task_fields est fit d grant)
qed

lemma demo_claimed_reachable: "reachable sample_ext demo_claimed"
  by (rule reachable.step[OF demo_admitted_reachable kernel_step.claim[OF _ demo_claim]])
    (simp add: demo_admitted_fields)

section \<open>Publication\<close>

definition demo_published :: db where
  "demo_published = snd (publish_compile sample_ext demo_lease (demo_page demo_hash) demo_report None 20 demo_claimed)"

definition demo_leased :: task_row where "demo_leased = leased_row 2316 10 ''tok'' demo_task"

lemma demo_claimed_fields:
  "db_tasks demo_claimed = [demo_leased]" "db_pages demo_claimed = []" "db_gen_seq demo_claimed = 0"
  "db_sections demo_claimed = []" "db_generations demo_claimed = []" "db_heads demo_claimed = db_heads demo_admitted"
  by (simp_all add: demo_claimed_def demo_leased_def demo_admitted_def upsert_source_head_def insert_task_def
      empty_db_def Let_def)

lemma demo_head: "head_desired ''milk:drink:boba'' demo_claimed = Some demo_hash"
  by (simp add: head_desired_def demo_claimed_fields demo_admitted_def upsert_source_head_def insert_task_def
      empty_db_def sql_first_def sql_upsert_def sql_exists_def demo_job_def)

lemma demo_holds: "holds_lease demo_lease 20 demo_leased" "t_entity demo_leased = ''milk:drink:boba''"
  "t_desired demo_leased = demo_hash"
  by (simp_all add: holds_lease_def live_task_def demo_leased_def demo_lease_def demo_task_fields
      lease_window_seconds_def)

lemma demo_publishable: "publishable sample_ext demo_leased demo_lease (demo_page demo_hash) demo_report None"
proof -
  have "quality_row_ok (quality_row_of ''milk:drink:boba'' perfect_quality None)"
    by (simp add: quality_row_ok_def quality_row_of_def perfect_quality_def overall_def)
  then show ?thesis
    using demo_key by (simp add: publishable_def demo_page_def demo_wiki_page_def demo_holds demo_lease_def
        max_artifact_bytes_def demo_report_def)
qed

lemma demo_publish:
  "publish_compile sample_ext demo_lease (demo_page demo_hash) demo_report None 20 demo_claimed
     = (Inr (Accepted 1), demo_published)"
proof -
  have ok: "queue_ok demo_claimed" "pages_ok demo_claimed"
    using queue.always[OF demo_claimed_reachable] pages.always[OF demo_claimed_reachable] .
  obtain d' where "publish_compile sample_ext demo_lease (demo_page demo_hash) demo_report None 20 demo_claimed
      = (Inr (Accepted (db_gen_seq demo_claimed + 1)), d')"
    using publish_total[OF ok _ demo_holds(1) _ demo_publishable] demo_head
    by (auto simp: demo_claimed_fields demo_holds)
  then show ?thesis by (simp add: demo_published_def demo_claimed_fields)
qed

lemma demo_page_key: "wp_id (cp_wiki (demo_page h)) = to_key (wp_entity (cp_wiki (demo_page h)))"
  by (simp add: demo_page_def demo_wiki_page_def demo_key)

lemma demo_published_reachable: "reachable sample_ext demo_published"
  by (rule reachable.step[OF demo_claimed_reachable kernel_step.publish[OF demo_page_key demo_publish]])

lemma demo_published_page: "\<exists>p\<in>set (db_pages demo_published). pg_entity p = ''milk:drink:boba'' \<and> pg_hash p = demo_hash"
proof -
  have ok: "queue_ok demo_claimed" "pages_ok demo_claimed"
    using queue.always[OF demo_claimed_reachable] pages.always[OF demo_claimed_reachable] .
  have "publish_in_transaction sample_ext demo_lease (demo_page demo_hash) demo_report None 20 demo_claimed
      = Inr (Accepted 1, demo_published)"
    using demo_publish unfolding publish_compile_def by (elim immediate_transaction_cases) auto
  then show ?thesis
  proof (cases rule: publish_cases)
    case (live t)
    from publish_live_pages[OF ok(2) live(8) demo_page_key] obtain deps fm where
      "stored_page (page_row_of (demo_page demo_hash) deps fm (t_revision t) 1 20) (db_pages demo_claimed)
         \<in> set (db_pages demo_published)"
      by (metis add_0 demo_claimed_fields(3))
    then show ?thesis by (rule bexI[rotated]) (simp add: demo_page_def demo_wiki_page_def demo_key)
  next
    case (replay t)
    then show ?thesis by (simp add: replay_outcome_def demo_claimed_fields sql_first_by_def)
  qed simp
qed

end
