(* ===== verification/Workers.thy ===== *)
theory Workers
  imports Kernel_Effects
begin

text \<open>
  What workers do to the tasks of a store when nothing is admitted: a task keeps its identity, its limits
  and its dependencies, and its counters of retries and recompiles only grow. So the number of times a task
  can still be queued again never goes up, and goes down with every failure that queues it.
\<close>

section \<open>Worker steps\<close>

inductive worker_step :: "ext \<Rightarrow> db \<Rightarrow> db \<Rightarrow> bool" for X :: ext where
  claim: "token \<notin> a_token ` set (db_attempts d) \<Longrightarrow> claim_compile X ids run token now d = (rc, d') \<Longrightarrow> worker_step X d d'"
| heartbeat: "heartbeat_compile l now d = (b, d') \<Longrightarrow> worker_step X d d'"
| publish: "wp_id (cp_wiki page) = to_key (wp_entity (cp_wiki page)) \<Longrightarrow>
    publish_compile X l page report c now d = (rp, d') \<Longrightarrow> worker_step X d d'"
| failure: "finish_compile_failure X l fl cand report c now d = (rf, d') \<Longrightarrow> worker_step X d d'"
| recover: "recover_compile_leases X now d = (rr, d') \<Longrightarrow> worker_step X d d'"

inductive workers :: "ext \<Rightarrow> db \<Rightarrow> db \<Rightarrow> bool" for X :: ext and d :: db where
  idle [intro]: "workers X d d"
| work: "workers X d d1 \<Longrightarrow> worker_step X d1 d2 \<Longrightarrow> workers X d d2"

lemma worker_kernel_step: "worker_step X d d' \<Longrightarrow> kernel_step X d d'"
  by (auto elim!: worker_step.cases intro: kernel_step.intros)

lemma workers_later: "workers X d d' \<Longrightarrow> later X d d'"
  by (induction rule: workers.induct) (auto intro: later.intros worker_kernel_step)

section \<open>Counters only grow\<close>

definition worn :: "task_row \<Rightarrow> task_row \<Rightarrow> bool" where
  "worn t t' \<longleftrightarrow> t_id t' = t_id t \<and> t_entity t' = t_entity t \<and> t_max_retries t' = t_max_retries t \<and> t_deps t' = t_deps t
     \<and> t_retries t \<le> t_retries t' \<and> t_recompiles t \<le> t_recompiles t'"

definition worn_db :: "db \<Rightarrow> db \<Rightarrow> bool" where
  "worn_db d d' \<longleftrightarrow> list_all2 worn (db_tasks d) (db_tasks d')"

lemma worn_refl [simp]: "worn t t" by (simp add: worn_def)

lemma worn_trans: "worn a b \<Longrightarrow> worn b c \<Longrightarrow> worn a c" by (auto simp: worn_def)

lemma worn_db_refl [simp]: "worn_db d d" by (simp add: worn_db_def list_all2_refl)

lemma worn_db_trans: "worn_db a b \<Longrightarrow> worn_db b c \<Longrightarrow> worn_db a c"
  unfolding worn_db_def by (rule list_all2_trans[OF worn_trans])

lemma worn_db_tasks: "db_tasks d' = db_tasks d \<Longrightarrow> worn_db d d'"
  by (simp add: worn_db_def list_all2_refl)

lemma worn_db_same: "same_queue d d' \<Longrightarrow> worn_db d d'"
  by (simp add: same_queue_def worn_db_tasks)

lemma worn_db_sql:
  "db_tasks d' = sql_update P f (db_tasks d) \<Longrightarrow> (\<And>t. t \<in> set (db_tasks d) \<Longrightarrow> P t \<Longrightarrow> worn t (f t)) \<Longrightarrow> worn_db d d'"
  by (auto simp: worn_db_def sql_update_def list_all2_map2 intro: list.rel_refl_strong)

lemma worn_sets [simp]:
  "worn t (accept_task_set now t)" "worn t (failed_set code now t)" "worn t (superseded_set now t)"
  "worn t (heartbeat_set now t)" "worn t (leased_row b now token t)"
  "worn t (dead_set res code now u) = worn t u" "worn t (pending_set due now u) = worn t u"
  "t_retries t \<le> n \<Longrightarrow> worn t (retries_set n t)" "t_recompiles t \<le> n \<Longrightarrow> worn t (recompiles_set n t)"
  by (simp_all add: worn_def accept_task_set_def failed_set_def superseded_set_def heartbeat_set_def leased_row_def
      running_set_def reserve_task_def       dead_set_def pending_set_def retries_set_def recompiles_set_def)

lemma worn_finish:
  assumes "update_one_attempt l g d = Inr d1" "update_leased_task l f d1 = Inr d2"
    and "\<And>t. t \<in> set (db_tasks d) \<Longrightarrow> lease_task l t \<Longrightarrow> worn t (f t)"
  shows "worn_db d d2"
  using assms by (intro worn_db_sql[of _ "lease_task l" f]) (auto simp: update_one_attempt_Ok update_leased_task_Ok)

lemma worn_claim:
  assumes ok: "queue_ok d" and c: "claim_in_transaction X ids run token now d = Inr (l, d')"
  shows "worn_db d d'"
  using c
proof (cases rule: claim_cases)
  case (granted t source deps b r)
  let ?d2 = "open_day (now div 86400) (cpl_daily_budget (sd_policy deps))
      (open_run run (as_i64_cast (cpl_batch_budget (sd_policy deps))) now d)"
  have "queue_ok ?d2" by (intro queue_ok_open_day queue_ok_open_run ok)
  moreover have "t \<in> set (db_tasks ?d2)" "t_status t = Pending"
    using claim_next_SomeD[OF granted(1)] by (simp_all add: claimable_def)
  ultimately have "db_tasks d' = sql_update (\<lambda>r. t_id r = t_id t) (leased_row b now token) (db_tasks d)"
    using grant_lease_Ok(1)[OF _ _ _ granted(9)] by simp
  then show ?thesis by (rule worn_db_sql) simp
qed (simp add: worn_db_tasks)

lemma worn_publish:
  assumes "publish_in_transaction X l page report c now d = Inr (r, d')"
  shows "worn_db d d'"
  using assms
proof (cases rule: publish_cases)
  case (live t)
  then obtain artifact deps fm g d1 cj d2 where
    w: "write_page_tables X page report c deps fm (t_revision t) now d = Inr (g, d1)"
    and a: "update_one_attempt l (accept_attempt_set artifact (x_report_text X report) cj now)
              (publish_generation g d1) = Inr d2"
    and u: "update_leased_task l (accept_task_set now) d2 = Inr d'"
    by (auto simp: publish_live_def)
  have "worn_db d (publish_generation g d1)"
    using write_page_tables_frame(1)[OF w]
    by (intro worn_db_same) (simp add: same_queue_def publish_generation_def)
  then show ?thesis using worn_finish[OF a u] by (rule worn_db_trans) simp_all
qed simp_all

lemma worn_failure:
  assumes ok: "queue_ok d" and f: "finish_failure_in_transaction X l failure cand report c now d = Inr (r, d')"
  shows "worn_db d d'"
  using f
proof (cases rule: failure_cases)
  case (live t deps)
  have same: "r = t" if "r \<in> set (db_tasks d)" "lease_task l r" for r
    using lease_task_unique[OF ok live(1) that] .
  have fin: "worn_db d d'" if "update_one_attempt l h d = Inr d1" "update_leased_task l f d1 = Inr d2" "worn t (f t)"
    "same_queue d2 d'" for h f d1 d2
    using worn_finish[OF that(1,2)] that(3) same worn_db_same[OF that(4)] by (blast intro: worn_db_trans)
  show ?thesis
  proof (cases failure)
    case (InvalidOutput code issues)
    then have "fail_invalid X t deps l code cand report c now d = Inr (r, d')" using live(4) by simp
    then show ?thesis
      by (cases rule: fail_invalid_cases) (auto intro: fin quarantine_reviews_same)
  next
    case (Retryable code ra)
    then have "fail_retryable X t l code ra now d = Inr (r, d')" using live(4) by simp
    then show ?thesis
      by (cases rule: fail_retryable_cases) (auto intro: fin dead_letter_for_same)
  next
    case (Permanent code)
    then show ?thesis using live(4) by (auto simp: fail_permanent_def intro: fin)
  qed
qed simp

lemma worn_recover_one:
  assumes ok: "queue_ok d" and t: "t \<in> set (db_tasks d)" and r: "recover_one X now t (s, d) = Inr (s', d')"
  shows "worn_db d d'"
proof -
  let ?d1 = "abandon_attempt t now d"
  have ab: "db_tasks ?d1 = db_tasks d" by (simp add: abandon_attempt_def)
  have same: "r = t" if "r \<in> set (db_tasks d)" "recovery_target t r" for r
    using queue_ok_unique[OF ok that(1) t] that(2) by (simp add: recovery_target_def)
  have upd: "worn_db d (update_tasks (recovery_target t) f ?d1)" if "worn t (f t)" for f
    using that same by (intro worn_db_sql[of _ "recovery_target t" f]) (auto simp: ab)
  show ?thesis
    using r
    by (auto simp: recover_one_def Let_def split: if_splits
        intro!: upd worn_db_trans[OF upd worn_db_same] dest: dead_letter_for_same)
qed

lemma worn_recover_loop:
  "queue_ok d \<Longrightarrow> keyed t_id ts \<Longrightarrow> \<forall>t\<in>set ts. t \<in> set (db_tasks d) \<and> expired_lease now t \<Longrightarrow>
     recover_loop X now ts (s, d) = Inr (s', d') \<Longrightarrow> worn_db d d'"
proof (induction ts arbitrary: s d)
  case (Cons t ts)
  then obtain s1 d1 where 1: "recover_one X now t (s, d) = Inr (s1, d1)"
    and 2: "recover_loop X now ts (s1, d1) = Inr (s', d')" by auto
  have t: "t \<in> set (db_tasks d)" "expired_lease now t" using Cons.prems(3) by simp_all
  note one = queue_ok_recover_one[OF Cons.prems(1) this 1]
  have ids: "t_id t \<notin> t_id ` set ts" "keyed t_id ts" using Cons.prems(2) by (auto simp: keyed_def)
  have "\<forall>r\<in>set ts. r \<in> set (db_tasks d1) \<and> expired_lease now r"
    using Cons.prems(3) one(2) ids by (metis image_eqI list.set_intros(2))
  from Cons.IH[OF one(1) ids(2) this 2] worn_recover_one[OF Cons.prems(1) t(1) 1] show ?case
    by (blast intro: worn_db_trans)
qed simp

lemma worn_recover:
  assumes ok: "queue_ok d" and r: "recover_in_transaction X now d = Inr (s, d')"
  shows "worn_db d d'"
proof -
  let ?rows = "filter (expired_lease now) (db_tasks d)"
  have loop: "recover_loop X now ?rows (recovery_stats_default, d) = Inr (s, d')"
    using r by (simp add: recover_in_transaction_def Let_def split: if_splits)
  have "keyed t_id ?rows" using ok by (simp add: queue_ok_def tasks_ok_def keyed_def distinct_map_filter)
  from worn_recover_loop[OF ok this _ loop] show ?thesis by auto
qed

lemma worn_step:
  assumes ok: "queue_ok d" and s: "worker_step X d d'"
  shows "worn_db d d'"
  using s
proof cases
  case (claim token ids run now rc)
  then show ?thesis
    unfolding claim_compile_def by (auto split: if_splits elim!: immediate_transaction_cases intro: worn_claim[OF ok])
next
  case (heartbeat l now b)
  then show ?thesis
    by (auto simp: heartbeat_compile_def update_tasks_def Let_def intro!: worn_db_sql)
next
  case (publish page l report c now rp)
  then show ?thesis
    unfolding publish_compile_def by (auto elim!: immediate_transaction_cases intro: worn_publish)
next
  case (failure l fl cand report c now rf)
  then show ?thesis
    unfolding finish_compile_failure_def by (auto elim!: immediate_transaction_cases intro: worn_failure[OF ok])
next
  case (recover now rr)
  then show ?thesis
    unfolding recover_compile_leases_def by (auto elim!: immediate_transaction_cases intro: worn_recover[OF ok])
qed

lemma worn_workers: "workers X d d' \<Longrightarrow> queue_ok d \<Longrightarrow> worn_db d d' \<and> queue_ok d'"
  by (induction rule: workers.induct) (auto intro: worn_db_trans worn_step queue_ok_step worker_kernel_step)

section \<open>Every task the kernel admits allows a retry\<close>

definition retries_allowed :: "db \<Rightarrow> bool" where
  "retries_allowed d \<longleftrightarrow> (\<forall>t\<in>set (db_tasks d). 0 < t_max_retries t)"

lemma retries_allowed_tasks: "retries_allowed d \<Longrightarrow> db_tasks d' = db_tasks d \<Longrightarrow> retries_allowed d'"
  by (simp add: retries_allowed_def)

lemma retries_allowed_worn:
  assumes "worn_db d d'" "retries_allowed d"
  shows "retries_allowed d'"
  unfolding retries_allowed_def
proof
  fix t' assume "t' \<in> set (db_tasks d')"
  then obtain t where "t \<in> set (db_tasks d)" "worn t t'"
    using assms(1) unfolding worn_db_def list_all2_conv_all_nth in_set_conv_nth by (metis nth_mem)
  then show "0 < t_max_retries t'" using assms(2) by (simp add: retries_allowed_def worn_def)
qed

lemma retries_allowed_admit:
  assumes "admit_compile_on_conn X ps ctx policy schema force now d = Inr (r, d')" "0 < cpl_max_retries policy" "retries_allowed d"
  shows "retries_allowed d'"
  using assms(1)
proof (cases rule: admit_compile_cases)
  case same
  then show ?thesis using assms(3) by simp
next
  case (job d1 j)
  have "db_tasks d1 = db_tasks d" using job(1) unfolding facts_only_def by (cases d; cases d1) simp
  with assms(3) have "retries_allowed d1" by (rule retries_allowed_tasks)
  then show ?thesis
    using job(2,3) assms(2)
    by (auto simp: retries_allowed_def admit_job_on_def admit_task_def record_skipped_task_def Let_def insert_task_def
        upsert_source_head_def update_tasks_def set_sql_update new_task_def skip_set_def refresh_set_def requeue_set_def
        split: option.splits if_splits prod.splits)
qed

lemma retries_allowed_step:
  assumes "queue_ok d" "retries_allowed d" "kernel_step X d d'"
  shows "retries_allowed d'"
proof (cases "worker_step X d d'")
  case True
  then show ?thesis using retries_allowed_worn[OF worn_step[OF assms(1)]] assms(2) by blast
next
  case False
  from assms(3) show ?thesis
  proof (cases rule: kernel_step_cases)
    case (admit policy ps ctx schema force now r)
    then have "0 < cpl_max_retries policy" using policy_validate_sound[of policy] by (auto simp: policy_ok_def)
    with admit(2) assms(2) show ?thesis
      unfolding admit_compile_def by (elim transaction_inv) (auto intro: retries_allowed_admit)
  next
    case (preflight token task epoch code now r)
    then show ?thesis
      using assms(2) unfolding quarantine_compile_preflight_def
      by (elim transaction_inv)
         (auto simp: quarantine_preflight_in_transaction_def retries_allowed_def update_tasks_def set_sql_update dead_set_def
           Let_def split: if_splits prod.splits)
  next
    case (claim token ids run now r)
    then show ?thesis using False worker_step.claim by blast
  next
    case (heartbeat l now b)
    then show ?thesis using False worker_step.heartbeat by blast
  next
    case (publish page l report c now r)
    then show ?thesis using False worker_step.publish by blast
  next
    case (failure l failure cand report c now r)
    then show ?thesis using False worker_step.failure by blast
  next
    case (recover now r)
    then show ?thesis using False worker_step.recover by blast
  qed
qed

interpretation allowed: kernel_invariant X "\<lambda>d. queue_ok d \<and> retries_allowed d" for X
proof unfold_locales
  show "queue_ok empty_db \<and> retries_allowed empty_db" using queue_ok_empty by (simp add: retries_allowed_def empty_db_def)
  show "queue_ok d' \<and> retries_allowed d'" if "queue_ok d \<and> retries_allowed d" "kernel_step X d d'" for d d'
    using that queue_ok_step retries_allowed_step by blast
qed

section \<open>Chances left\<close>

definition recompile_limit :: "ext \<Rightarrow> task_row \<Rightarrow> int" where
  "recompile_limit X t = (case x_parse_deps X (t_deps t) of None \<Rightarrow> 0 | Some deps \<Rightarrow> int (cpl_max_recompiles (sd_policy deps)))"

definition chances :: "ext \<Rightarrow> task_row \<Rightarrow> nat" where
  "chances X t = nat (t_max_retries t - t_retries t) + nat (recompile_limit X t + 1 - t_recompiles t)"

definition chances_at :: "ext \<Rightarrow> db \<Rightarrow> int \<Rightarrow> nat" where
  "chances_at X d i = (case find_task_id i d of None \<Rightarrow> 0 | Some t \<Rightarrow> chances X t)"

lemma worn_chances: "worn t t' \<Longrightarrow> chances X t' \<le> chances X t"
  by (auto simp: worn_def chances_def recompile_limit_def intro!: add_mono nat_mono)

lemma worn_first:
  "list_all2 worn ts ts' \<Longrightarrow> rel_option worn (sql_first (\<lambda>t. t_id t = i) ts) (sql_first (\<lambda>t. t_id t = i) ts')"
  by (induction rule: list_all2_induct) (auto simp: sql_first_def worn_def)

lemma worn_chances_at: "worn_db d d' \<Longrightarrow> chances_at X d' i \<le> chances_at X d i"
  using worn_first[of "db_tasks d" "db_tasks d'" i] worn_chances[of _ _ X]
  by (auto simp: worn_db_def chances_at_def find_task_id_def rel_option_iff split: option.splits)

end
