(* ===== verification/Kernel_Props.thy ===== *)
theory Kernel_Props
  imports Kernel_Demo Workers
begin

text \<open>
  The properties of the kernel over all reachable states: leases, budgets, exactly-once
  publication, liveness of claim and publication, recovery, failure dispositions, pages. Each
  rests on the invariants \<open>queue_ok\<close> and \<open>pages_ok\<close> through their interpretations as kernel
  invariants.
\<close>

section \<open>Exactly-once publication\<close>

lemma accepted_token_dead:
  assumes ok: "queue_ok d" and p: "publish_in_transaction X l page report c now d = Inr (Accepted g, d1)"
  shows "dead_token (tl_token l) d1"
  using p
proof (cases rule: publish_cases)
  case (replay t)
  from replay(2) obtain a where a: "a \<in> set (db_attempts d)" "a_token a = tl_token l" "a_status a = Completed"
    by (auto simp: is_replay_def sql_count_pos_iff)
  have "t_token r \<noteq> Some (tl_token l)" if r: "r \<in> set (db_tasks d)" for r
  proof
    assume tok: "t_token r = Some (tl_token l)"
    then have "t_status r = Running" using queue_ok_task[OF ok r] by (simp add: task_ok_def)
    then obtain b where b: "b \<in> set (db_attempts d)" "reserved_attempt r b"
      using queue_ok_running[OF ok r] by blast
    then have "a_token b = a_token a" using tok a(2) by (simp add: reserved_attempt_def)
    then have "b = a" using ok a(1) b(1) keyed_unique[of a_token] by (auto simp: queue_ok_def attempts_ok_def)
    with a(3) b(2) show False by (simp add: reserved_attempt_def)
  qed
  moreover have "tl_token l \<in> a_token ` set (db_attempts d)" using a by (metis image_eqI)
  ultimately show ?thesis using replay(4) by (force simp: dead_token_def)
next
  case (live t)
  then obtain artifact deps fm g' d2 cj d3 where
    w: "write_page_tables X page report c deps fm (t_revision t) now d = Inr (g', d2)"
    and a: "update_one_attempt l (accept_attempt_set artifact (x_report_text X report) cj now)
              (publish_generation g' d2) = Inr d3"
    and u: "update_leased_task l (accept_task_set now) d3 = Inr d1"
    by (auto simp: publish_live_def)
  have "same_queue d (publish_generation g' d2)"
    using write_page_tables_frame(1)[OF w] by (simp add: same_queue_def publish_generation_def)
  then have "queue_ok (publish_generation g' d2)" using ok queue_ok_same by blast
  then show ?thesis by (rule finished_token_dead[OF _ a _ u]) (simp_all add: accept_task_set_def)
qed simp

text \<open>
  C5. A lease publishes at most once. After a publication has answered Accepted, whatever the
  kernel does next, publishing, reporting a failure or renewing with the same lease changes
  nothing: the lease is fenced for good.
\<close>

theorem publish_exactly_once:
  assumes "reachable X d" "publish_compile X l page report c now d = (Inr (Accepted g), d1)" "later X d1 d2"
  shows "snd (publish_compile X l page' report' c' now' d2) = d2
    \<and> finish_compile_failure X l fl cand report' c' now' d2 = (Inr FailedTask, d2)
    \<and> heartbeat_compile l now' d2 = (False, d2)"
proof -
  have ok: "queue_ok d" by (rule queue.always[OF assms(1)])
  from assms(2) have p: "publish_in_transaction X l page report c now d = Inr (Accepted g, d1)"
    unfolding publish_compile_def by (elim immediate_transaction_cases) auto
  have "dead_token (tl_token l) d2"
    using dead_token_later[OF assms(3) accepted_token_dead[OF ok p] queue_ok_publish[OF ok p]] by blast
  then show ?thesis using inert_lease dead_token_inert by metis
qed

theorem publish_exactly_once_witness:
  "reachable sample_ext demo_published
    \<and> snd (publish_compile sample_ext demo_lease (demo_page ''other'') demo_report None 30 demo_published) = demo_published
    \<and> heartbeat_compile demo_lease 30 demo_published = (False, demo_published)"
  using publish_exactly_once[OF demo_claimed_reachable demo_publish later.now] demo_published_reachable by blast

section \<open>Stale leases\<close>

text \<open>
  A lease that is not live (its task is not running in its epoch under its token, or its
  time is up) writes nothing: publication, failure report and heartbeat leave the store as it is.
\<close>

theorem stale_lease_changes_nothing:
  assumes "no_live_task l now d"
  shows "snd (publish_compile X l page report c now d) = d
    \<and> finish_compile_failure X l fl cand report c now d = (Inr FailedTask, d)
    \<and> heartbeat_compile l now d = (False, d)"
  using inert_lease[OF assms] by blast

theorem stale_lease_changes_nothing_witness:
  "no_live_task demo_lease 310 demo_claimed \<and> heartbeat_compile demo_lease 310 demo_claimed = (False, demo_claimed)"
proof -
  have "no_live_task demo_lease 310 demo_claimed"
    by (simp add: no_live_task_def sql_exists_def demo_claimed_fields demo_leased_def live_task_def lease_window_seconds_def)
  then show ?thesis using stale_lease_changes_nothing by blast
qed

lemma recovered_token_dead:
  assumes ok: "queue_ok d" and r: "recover_in_transaction X now d = Inr (s, d1)"
    and t: "t \<in> set (db_tasks d)" "expired_lease now t" "t_token t = Some tok"
  shows "dead_token tok d1"
proof -
  let ?rows = "filter (expired_lease now) (db_tasks d)"
  have loop: "recover_loop X now ?rows (recovery_stats_default, d) = Inr (s, d1)"
    using r by (simp add: recover_in_transaction_def Let_def split: if_splits)
  have "keyed t_id ?rows" using ok by (simp add: queue_ok_def tasks_ok_def keyed_def distinct_map_filter)
  note l = recover_loop_Ok[OF ok this _ loop]
  have run: "t_status t = Running" using t(2) by (simp add: expired_lease_def)
  then obtain a where a: "a \<in> set (db_attempts d)" "reserved_attempt t a" using queue_ok_running[OF ok t(1)] by blast
  then have tok: "tok \<in> a_token ` set (db_attempts d)" using t(3) by (force simp: reserved_attempt_def)
  have "tok_step d d1" by (rule tok_step_recover_loop[OF loop])
  moreover have "t_token x \<noteq> Some tok" if x: "x \<in> set (db_tasks d1)" for x
  proof
    assume xt: "t_token x = Some tok"
    have "queue_ok d1" using l by auto
    then have "t_status x = Running" using queue_ok_task[OF _ x] xt by (simp add: task_ok_def)
    then have x': "x \<in> set (db_tasks d)" "t_id x \<notin> t_id ` set ?rows" using l x by auto
    then obtain b where b: "b \<in> set (db_attempts d)" "reserved_attempt x b"
      using queue_ok_running[OF ok x'(1) \<open>t_status x = Running\<close>] by blast
    then have "a_token b = a_token a" using a xt t(3) by (simp add: reserved_attempt_def)
    then have "b = a" using ok a(1) b(1) keyed_unique[of a_token] by (auto simp: queue_ok_def attempts_ok_def)
    then have "t_id x = t_id t" using a(2) b(2) by (simp add: reserved_attempt_def current_attempt_def)
    with x'(2) t(1,2) show False by (metis (mono_tags, lifting) image_eqI mem_Collect_eq set_filter)
  qed
  ultimately show ?thesis using tok unfolding dead_token_def tok_step_def by force
qed

text \<open>
  C12. Recovery takes every expired lease back: when it succeeds no task is left running past its
  time, each expired task is counted exactly once as pending, dead or superseded, and from then
  on, whatever the kernel does next, publishing, reporting a failure or renewing with the old lease
  changes nothing.
\<close>

theorem recovery_takes_back_expired_leases:
  assumes "reachable X d" "recover_compile_leases X now d = (Inr s, d1)"
  shows "(\<forall>t\<in>set (db_tasks d1). \<not> expired_lease now t)
    \<and> rs_scanned s = sql_count (expired_lease now) (db_tasks d) \<and> recovered_tasks s = rs_scanned s
    \<and> (\<forall>t\<in>set (db_tasks d). \<forall>l d2 now' page report c fl cand. expired_lease now t \<longrightarrow> t_token t = Some (tl_token l) \<longrightarrow>
          later X d1 d2 \<longrightarrow> snd (publish_compile X l page report c now' d2) = d2
            \<and> snd (finish_compile_failure X l fl cand report c now' d2) = d2 \<and> heartbeat_compile l now' d2 = (False, d2))"
proof -
  have ok: "queue_ok d" by (rule queue.always[OF assms(1)])
  from assms(2) have r: "recover_in_transaction X now d = Inr (s, d1)"
    unfolding recover_compile_leases_def by (elim immediate_transaction_cases) auto
  note R = recover_Ok[OF ok r]
  have "snd (publish_compile X l page report c now' d2) = d2
      \<and> snd (finish_compile_failure X l fl cand report c now' d2) = d2 \<and> heartbeat_compile l now' d2 = (False, d2)"
    if "t \<in> set (db_tasks d)" "expired_lease now t" "t_token t = Some (tl_token l)" "later X d1 d2"
    for t l d2 now' page report c fl cand
  proof -
    have "no_live_task l now' d2"
      using dead_token_later[OF that(4) recovered_token_dead[OF ok r that(1-3)] R(1)] dead_token_inert by blast
    then show ?thesis by (simp add: inert_lease)
  qed
  then show ?thesis using R(2-4) by blast
qed

theorem recovery_takes_back_expired_leases_witness:
  "\<exists>s d. recover_compile_leases sample_ext 310 demo_claimed = (Inr s, d) \<and> rs_scanned s = 1 \<and> recovered_tasks s = 1
    \<and> (\<forall>t\<in>set (db_tasks d). \<not> expired_lease 310 t) \<and> heartbeat_compile demo_lease 20 d = (False, d)"
proof -
  have row: "expired_lease 310 demo_leased" "t_token demo_leased = Some (tl_token demo_lease)" "t_id demo_leased = 1"
    "t_retries demo_leased = 0" "t_max_retries demo_leased = 3" "t_status demo_leased = Running"
    by (simp_all add: expired_lease_def demo_leased_def demo_lease_def lease_window_seconds_def running_set_def
        leased_row_def reserve_task_def demo_task_fields)
  have head: "head_desired ''milk:drink:boba'' (abandon_attempt demo_leased 310 demo_claimed) = Some demo_hash"
    using demo_head by (simp add: head_desired_def abandon_attempt_def demo_holds)
  have tasks: "db_tasks (abandon_attempt demo_leased 310 demo_claimed) = [demo_leased]"
    by (simp add: abandon_attempt_def demo_claimed_fields)
  obtain s d where r: "recover_compile_leases sample_ext 310 demo_claimed = (Inr s, d)"
    by (simp add: recover_compile_leases_def recover_in_transaction_def immediate_transaction_def recover_one_def
        demo_claimed_fields row Let_def head tasks demo_holds checked_add_def i64_max_def i64_min_def ok_or_def)
  note R = recovery_takes_back_expired_leases[OF demo_claimed_reachable r]
  have "sql_count (expired_lease 310) (db_tasks demo_claimed) = 1"
    by (simp add: sql_count_def demo_claimed_fields row)
  moreover have "heartbeat_compile demo_lease 20 d = (False, d)"
    using R later.now row by (simp add: demo_claimed_fields)
  ultimately show ?thesis using r R by auto
qed

section \<open>Leases, retries and budgets in every reachable state\<close>

text \<open>
  C7. In every reachable state: exactly the running tasks hold a lease token, the token names
  one reserved attempt of the task's current epoch and number, no two tasks share a token; an
  active task has used fewer retries than its limit, and has made at most one attempt more than
  its retries and recompiles; task ids and the triple of entity, revision and pack are unique.
\<close>

theorem leases_consistent:
  assumes "reachable X d" "t \<in> set (db_tasks d)"
  shows "(t_status t = Running \<longleftrightarrow> t_token t \<noteq> None)
    \<and> (t_status t = Running \<longrightarrow> (\<exists>a\<in>set (db_attempts d). Some (a_token a) = t_token t \<and> a_status a = Reserved
          \<and> a_task a = t_id t \<and> a_epoch a = t_epoch t \<and> a_no a = t_attempts t)
          \<and> (\<forall>t'\<in>set (db_tasks d). t_token t' = t_token t \<longrightarrow> t' = t))
    \<and> (t_status t = Pending \<or> t_status t = Running \<longrightarrow> 0 \<le> t_retries t \<and> t_retries t < t_max_retries t
          \<and> t_attempts t \<le> t_retries t + t_recompiles t + 1)
    \<and> (\<forall>t'\<in>set (db_tasks d). t_id t' = t_id t \<or> task_key t' = task_key t \<longrightarrow> t' = t)"
proof -
  have ok: "queue_ok d" by (rule queue.always[OF assms(1)])
  note tk = queue_ok_task[OF ok assms(2)]
  have "\<exists>a\<in>set (db_attempts d). Some (a_token a) = t_token t \<and> a_status a = Reserved
      \<and> a_task a = t_id t \<and> a_epoch a = t_epoch t \<and> a_no a = t_attempts t" if "t_status t = Running"
    using queue_ok_running[OF ok assms(2) that] by (auto simp: reserved_attempt_def current_attempt_def)
  moreover have "t' = t" if r: "t_status t = Running" "t' \<in> set (db_tasks d)" "t_token t' = t_token t" for t'
  proof -
    have r': "t_status t' = Running" using r tk queue_ok_task[OF ok r(2)] by (simp add: task_ok_def)
    obtain a where a: "a \<in> set (db_attempts d)" "reserved_attempt t a" using queue_ok_running[OF ok assms(2) r(1)] by blast
    obtain b where b: "b \<in> set (db_attempts d)" "reserved_attempt t' b" using queue_ok_running[OF ok r(2) r'] by blast
    have "a_token a = a_token b" using a(2) b(2) r(3) by (metis option.inject reserved_attempt_def)
    then have "a = b" using ok a(1) b(1) keyed_unique[of a_token] by (auto simp: queue_ok_def attempts_ok_def)
    then have "t_id t' = t_id t" using a(2) b(2) by (metis current_attempt_def reserved_attempt_def)
    then show ?thesis using queue_ok_unique[OF ok r(2) assms(2)] by blast
  qed
  moreover have "t' = t" if "t' \<in> set (db_tasks d)" "t_id t' = t_id t \<or> task_key t' = task_key t" for t'
    using ok that assms(2) by (auto simp: queue_ok_def tasks_ok_def dest: keyed_unique)
  moreover have "0 < t_max_retries t" using allowed.always[OF assms(1)] assms(2) by (simp add: retries_allowed_def)
  ultimately show ?thesis using tk by (auto simp: task_ok_def active_def)
qed

theorem leases_consistent_witness:
  "\<exists>t\<in>set (db_tasks demo_claimed). t_status t = Running \<and> t_token t \<noteq> None"
  using leases_consistent[OF demo_claimed_reachable, of demo_leased]
  by (simp add: demo_claimed_fields demo_leased_def)

text \<open>
  C9. Token accounting is exact in every reachable state: what a run has reserved is the sum of
  the reservations of its attempts and never exceeds the run's limit; what a task has reserved
  is the sum over its attempts.
\<close>

theorem budgets_conserved:
  assumes "reachable X d"
  shows "(\<forall>r\<in>set (db_runs d).
            r_reserved r = sum_list (map a_reserved (filter (\<lambda>a. a_run a = Some (r_id r)) (db_attempts d)))
            \<and> (r_reserved r = 0 \<or> r_reserved r \<le> r_limit r))
    \<and> (\<forall>t\<in>set (db_tasks d).
            t_reserved t = sum_list (map a_reserved (filter (\<lambda>a. a_task a = t_id t) (db_attempts d))))"
proof -
  have ok: "queue_ok d" by (rule queue.always[OF assms])
  show ?thesis
    using queue_ok_tokens(1,2,3)[OF ok] unfolding task_tokens_def run_tokens_def by blast
qed

theorem budgets_conserved_witness:
  "\<exists>r\<in>set (db_runs demo_claimed). r_reserved r = 2316
    \<and> r_reserved r = sum_list (map a_reserved (filter (\<lambda>a. a_run a = Some (r_id r)) (db_attempts demo_claimed)))"
  using budgets_conserved[OF demo_claimed_reachable] by (simp add: demo_claimed_def)

text \<open>
  In every reachable state an entity has at most one page, it is accepted, its id is the
  entity's key and it belongs to a published generation; generation numbers are unique.
\<close>

theorem one_accepted_page_per_entity:
  assumes "reachable X d" "p \<in> set (db_pages d)"
  shows "pg_status p = AcceptedPage \<and> pg_id p = pg_entity p
    \<and> (\<forall>q\<in>set (db_pages d). pg_entity q = pg_entity p \<longrightarrow> q = p)
    \<and> (\<exists>g\<in>set (db_generations d). g_generation g = pg_generation p \<and> g_published g)
    \<and> accepted_page (pg_entity p) d = Some p \<and> keyed g_generation (db_generations d)"
proof -
  have ok: "pages_ok d" by (rule pages.always[OF assms(1)])
  show ?thesis
    using ok assms(2) pages_ok_entity[OF ok _ assms(2)] accepted_page_found(1)[OF ok assms(2)]
    unfolding pages_ok_def by blast
qed

theorem one_accepted_page_per_entity_witness:
  "\<exists>p\<in>set (db_pages demo_published). accepted_page ''milk:drink:boba'' demo_published = Some p"
proof -
  have ok: "queue_ok demo_claimed" "pages_ok demo_claimed"
    using queue.always[OF demo_claimed_reachable] pages.always[OF demo_claimed_reachable] .
  obtain p where "p \<in> set (db_pages demo_published)" "pg_entity p = ''milk:drink:boba''"
    using demo_published_page by blast
  then show ?thesis using one_accepted_page_per_entity[OF demo_published_reachable] by metis
qed

end
