(* ===== verification/Sources_Inv.thy ===== *)
theory Sources_Inv
  imports Kernel
begin

text \<open>
  Source heads and facts over time. Only an admission moves a head, and never to an older
  revision; only an admission writes facts, and each field's revision only grows. An admission
  that queues leaves an active task under the head's hash.
\<close>

section \<open>Heads\<close>

definition source_head :: "string \<Rightarrow> db \<Rightarrow> head_row option" where
  "source_head e d = sql_first (\<lambda>h. h_entity h = e) (db_heads d)"

interpretation head_set: keeps_key h_entity "head_set new" for new
  by unfold_locales (simp add: head_set_def)

interpretation refresh_set: keeps_key t_id "refresh_set j" for j
  by unfold_locales (simp add: refresh_set_def)

interpretation requeue_set: keeps_key t_id "requeue_set j" for j
  by unfold_locales (simp add: requeue_set_def)

lemma source_head_upsert:
  "source_head e (upsert_source_head j task epoch d) =
     (if e = j_entity j then
        Some \<lparr>h_entity = j_entity j, h_revision = j_revision j, h_snapshot = j_snapshot j,
              h_desired = j_desired j, h_task = task, h_epoch = epoch, h_updated = j_now j\<rparr>
      else source_head e d)"
proof (cases "sql_exists (\<lambda>h. h_entity h = j_entity j) (db_heads d)")
  case False
  then have "find (\<lambda>h. h_entity h = j_entity j) (db_heads d) = None"
    by (auto simp: sql_exists_iff find_None_iff)
  with False show ?thesis
    by (auto simp: source_head_def upsert_source_head_def sql_upsert_def Let_def sql_first_def find_snoc
        split: option.splits)
next
  case True
  then obtain h where h: "sql_first (\<lambda>h. h_entity h = j_entity j) (db_heads d) = Some h"
    by (metis not_None_eq sql_exists_iff sql_first_None)
  moreover from this have "h_entity h = j_entity j" by (auto dest: sql_first_SomeD)
  ultimately show ?thesis
    using True
    by (auto simp: source_head_def upsert_source_head_def sql_upsert_def Let_def head_set.first_update head_set_def)
qed

definition heads_grow :: "db \<Rightarrow> db \<Rightarrow> bool" where
  "heads_grow d d' \<longleftrightarrow> (\<forall>e h. source_head e d = Some h \<longrightarrow>
     (\<exists>h'. source_head e d' = Some h' \<and> h_revision h \<le> h_revision h'))"

lemma heads_grow_refl [simp]: "heads_grow d d"
  by (simp add: heads_grow_def)

lemma heads_grow_trans: "heads_grow a b \<Longrightarrow> heads_grow b c \<Longrightarrow> heads_grow a c"
  unfolding heads_grow_def by (meson order_trans)

section \<open>Admission\<close>

text \<open>
  What a decision leaves: the head as it was, or the job's head; a queued task is the head's
  task, active, and carries the job.
\<close>

definition queued_as :: "admit_job \<Rightarrow> int \<Rightarrow> db \<Rightarrow> bool" where
  "queued_as j i d \<longleftrightarrow> (\<exists>t h. find_task_id i d = Some t \<and> source_head (j_entity j) d = Some h
     \<and> (t_status t = Pending \<or> t_status t = Running) \<and> task_key t = job_key j \<and> t_desired t = j_desired j
     \<and> t_source t = j_source j \<and> t_deps t = j_deps j \<and> t_snapshot t = j_snapshot j
     \<and> h_task h = i \<and> h_epoch h = t_epoch t \<and> h_desired h = j_desired j \<and> h_revision h = j_revision j)"

lemma heads_of_tasks [simp]:
  "source_head e (update_tasks P f d) = source_head e d" "source_head e (insert_task t d) = source_head e d"
  by (simp_all add: source_head_def update_tasks_def insert_task_def)

lemma find_task_id_head [simp]: "find_task_id i (upsert_source_head j task epoch d) = find_task_id i d"
  by (simp add: find_task_id_def upsert_source_head_def Let_def)

lemma admit_task_outcome:
  assumes ok: "queue_ok d" and a: "admit_task j force d = (r, d')"
  shows "(r = Skipped \<and> db_tasks d' = db_tasks d) \<or> (\<exists>i. r = Queued i \<and> queued_as j i d')"
    and "source_head e d' = (if e = j_entity j then source_head e d' else source_head e d)"
    and "\<exists>h. source_head (j_entity j) d' = Some h \<and> h_revision h = j_revision j"
proof -
  show "source_head e d' = (if e = j_entity j then source_head e d' else source_head e d)"
    "\<exists>h. source_head (j_entity j) d' = Some h \<and> h_revision h = j_revision j"
    using a by (auto simp: admit_task_def Let_def source_head_upsert split: option.splits if_splits)
  show "(r = Skipped \<and> db_tasks d' = db_tasks d) \<or> (\<exists>i. r = Queued i \<and> queued_as j i d')"
  proof (cases "find_task j d")
    case None
    let ?i = "db_task_seq d + 1"
    have "find_task_id ?i d = None"
      using ok by (force simp: find_task_id_def sql_first_None queue_ok_def tasks_ok_def)
    then have "find_task_id ?i (insert_task (new_task j ?i Pending None) d) = Some (new_task j ?i Pending None)"
      by (simp add: find_task_id_def insert_task_def sql_first_def find_snoc new_task_ok)
    then show ?thesis
      using a None by (auto simp: admit_task_def Let_def queued_as_def source_head_upsert new_task_ok)
        (simp_all add: new_task_def)
  next
    case (Some t)
    have t: "t \<in> set (db_tasks d)" "task_key t = job_key j" using find_task_SomeD[OF Some] by auto
    have ft: "find_task_id (t_id t) d = Some t" using ok t(1) by (simp add: find_task_id_iff)
    have refresh: "find_task_id (t_id t) (update_tasks (\<lambda>r. t_id r = t_id t) (refresh_set j) d) = Some (refresh_set j t)"
      and requeue: "find_task_id (t_id t) (update_tasks (\<lambda>r. t_id r = t_id t) (requeue_set j) d) = Some (requeue_set j t)"
      using ft by (simp_all add: find_task_id_def update_tasks_def refresh_set.first_update requeue_set.first_update)
    have keys: "task_key (refresh_set j t) = job_key j" "task_key (requeue_set j t) = job_key j"
      using t(2) by (simp_all add: task_key_def refresh_set_def requeue_set_def)
    show ?thesis
    proof (cases "t_desired t = j_desired j \<and> \<not> force")
      case True
      then show ?thesis
        using a Some refresh keys
        by (auto simp: admit_task_def queued_as_def source_head_upsert refresh_set_def split: if_splits)
          (simp_all add: upsert_source_head_def Let_def)
    next
      case False
      then show ?thesis
        using a Some requeue keys
        by (auto simp: admit_task_def queued_as_def source_head_upsert requeue_set_def)
    qed
  qed
qed

text \<open>A skip leaves no active task that was not there before.\<close>

definition no_new_work :: "db \<Rightarrow> db \<Rightarrow> bool" where
  "no_new_work d d' \<longleftrightarrow> (\<forall>t\<in>set (db_tasks d'). t_status t = Pending \<or> t_status t = Running \<longrightarrow> t \<in> set (db_tasks d))"

lemma record_skipped_no_new_work: "record_skipped_task j d = (task, epoch, d') \<Longrightarrow> no_new_work d d'"
  by (auto simp: record_skipped_task_def no_new_work_def insert_task_def new_task_def update_tasks_def
      set_sql_update skip_set_def split: option.splits)

lemma record_skipped_heads: "record_skipped_task j d = (task, epoch, d') \<Longrightarrow> source_head e d' = source_head e d"
  by (auto simp: record_skipped_task_def split: option.splits)

lemma admit_job_cases:
  assumes "admit_job_on policy force j d = (r, d')"
  obtains (same) "d' = d" "r = Skipped" | (decide) "admit_task j force d = (r, d')"
  | (skip) task epoch d1 where "record_skipped_task j d = (task, epoch, d1)"
      "d' = upsert_source_head j task epoch d1" "r = Skipped"
proof (cases "accepted_page (j_entity j) d")
  case None
  then show thesis using assms decide by (simp add: admit_job_on_def)
next
  case (Some p)
  show thesis
  proof (cases "\<not> force \<and> pg_hash p = j_desired j \<and> pg_artifact p = cpl_artifact_version policy")
    case False
    then show thesis using assms Some decide by (simp add: admit_job_on_def split: if_splits)
  next
    case True
    obtain task epoch d1 where rec: "record_skipped_task j d = (task, epoch, d1)" by (rule prod_cases3)
    show thesis
      using assms Some True rec same skip[OF rec]
      by (cases "j_revision j > pg_revision p") (simp_all add: admit_job_on_def)
  qed
qed

lemma admit_job_outcome:
  assumes ok: "queue_ok d" and a: "admit_job_on policy force j d = (r, d')"
  shows "(r = Skipped \<and> no_new_work d d') \<or> (\<exists>i. r = Queued i \<and> queued_as j i d')"
    and "(\<forall>h. source_head (j_entity j) d = Some h \<longrightarrow> h_revision h \<le> j_revision j) \<Longrightarrow> heads_grow d d'"
proof -
  have heads: "heads_grow d d1"
    if "\<forall>h. source_head (j_entity j) d = Some h \<longrightarrow> h_revision h \<le> j_revision j"
      "\<And>e. e \<noteq> j_entity j \<Longrightarrow> source_head e d1 = source_head e d"
      "\<exists>h. source_head (j_entity j) d1 = Some h \<and> h_revision h = j_revision j" for d1
    unfolding heads_grow_def
  proof (intro allI impI)
    fix e h assume "source_head e d = Some h"
    then show "\<exists>h'. source_head e d1 = Some h' \<and> h_revision h \<le> h_revision h'"
      using that by (cases "e = j_entity j") auto
  qed
  show "(r = Skipped \<and> no_new_work d d') \<or> (\<exists>i. r = Queued i \<and> queued_as j i d')"
    using a
  proof (cases rule: admit_job_cases)
    case decide
    then show ?thesis using admit_task_outcome(1)[OF ok decide] by (auto simp: no_new_work_def)
  next
    case (skip task epoch d1)
    then have "no_new_work d d1" using record_skipped_no_new_work by blast
    then show ?thesis using skip by (simp add: no_new_work_def upsert_source_head_def Let_def)
  qed (simp add: no_new_work_def)
  assume old: "\<forall>h. source_head (j_entity j) d = Some h \<longrightarrow> h_revision h \<le> j_revision j"
  show "heads_grow d d'"
    using a
  proof (cases rule: admit_job_cases)
    case decide
    have "source_head e d' = source_head e d" if "e \<noteq> j_entity j" for e
      using admit_task_outcome(2)[OF ok decide, of e] that by (simp only: if_False)
    then show ?thesis using admit_task_outcome(3)[OF ok decide] by (intro heads old) auto
  next
    case (skip task epoch d1)
    show ?thesis
      by (intro heads old) (auto simp: skip(2) source_head_upsert record_skipped_heads[OF skip(1)])
  qed simp
qed

section \<open>Over all steps\<close>

lemma facts_only_heads: "facts_only d d' \<Longrightarrow> source_head e d' = source_head e d \<and> db_tasks d' = db_tasks d"
  unfolding facts_only_def source_head_def by (cases d; cases d') simp

lemma admit_job_facts: "admit_job_on policy force j d = (r, d') \<Longrightarrow> db_facts d' = db_facts d"
  by (auto simp: admit_job_on_def admit_task_def record_skipped_task_def Let_def insert_task_def
      upsert_source_head_def update_tasks_def split: option.splits if_splits prod.splits)

lemma admit_grows:
  assumes ok: "queue_ok d" and a: "admit_compile_on_conn X ps ctx policy schema force now d = Inr (r, d')"
  shows "heads_grow d d' \<and> facts_grow d d'"
  using a
proof (cases rule: admit_compile_cases)
  case (job d1 j)
  have ok1: "queue_ok d1" using queue_ok_facts[OF ok job(1)] .
  have "heads_grow d1 d'"
    using job(8) facts_only_heads[OF job(1)]
    by (intro admit_job_outcome(2)[OF ok1 job(2)]) (auto simp: source_head_def job(4))
  then have "heads_grow d d'" using facts_only_heads[OF job(1)] by (simp add: heads_grow_def)
  moreover have "facts_grow d d1" using job(1) by (simp add: facts_only_def)
  moreover have "fact_map d' = fact_map d1" using admit_job_facts[OF job(2)] by (simp add: fun_eq_iff fact_map_def)
  ultimately show ?thesis by (simp add: facts_grow_def)
qed simp

lemma same_sources_grow:
  "(db_heads d', db_facts d', db_refs d') = (db_heads d, db_facts d, db_refs d) \<Longrightarrow> heads_grow d d' \<and> facts_grow d d'"
  by (simp add: heads_grow_def facts_grow_def source_head_def fact_map_def)

lemma publish_sources:
  assumes "publish_in_transaction X l page report c now d = Inr (r, d')"
  shows "(db_heads d', db_facts d', db_refs d') = (db_heads d, db_facts d, db_refs d)"
  using assms
proof (cases rule: publish_cases)
  case (live t)
  from live(8) obtain deps fm g d1 where
    w: "write_page_tables X page report c deps fm (t_revision t) now d = Inr (g, d1)"
    and eq: "(db_heads d', db_facts d', db_refs d') = (db_heads d1, db_facts d1, db_refs d1)"
    by (auto simp: publish_live_def update_one_attempt_Ok update_leased_task_Ok publish_generation_def
        update_tasks_def)
  then show ?thesis using write_page_tables_frame[OF w] by simp
qed simp_all

text \<open>Growth through a transaction, which changes nothing when it rolls back.\<close>

lemma transaction_grows:
  assumes "immediate_transaction f d = (r, d')" "\<And>a. f d = Inr (a, d') \<Longrightarrow> heads_grow d d' \<and> facts_grow d d'"
  shows "heads_grow d d' \<and> facts_grow d d'"
  using assms(1) by (cases rule: immediate_transaction_cases) (use assms(2) in auto)

lemma sources_grow_step:
  assumes "queue_ok d" "kernel_step X d d'"
  shows "heads_grow d d' \<and> facts_grow d d'"
  using assms(2)
proof (cases rule: kernel_step_cases)
  case (admit policy ps ctx schema force now r)
  show ?thesis
    by (rule transaction_grows[OF admit(2)[unfolded admit_compile_def]]) (rule admit_grows[OF assms(1)])
next
  case (claim token ids run now r)
  then show ?thesis
    unfolding claim_compile_def
    by (auto split: if_splits elim!: transaction_grows[THEN conjunct1] transaction_grows[THEN conjunct2]
        dest!: same_sources_grow[OF source_part.part_claim])
next
  case (heartbeat l now b)
  then show ?thesis using same_sources_grow[OF source_part.part_heartbeat] by (metis snd_conv)
next
  case (publish page l report c now r)
  show ?thesis
    by (rule transaction_grows[OF publish(2)[unfolded publish_compile_def]])
      (erule same_sources_grow[OF publish_sources])
next
  case (failure l failure cand report c now r)
  show ?thesis
    by (rule transaction_grows[OF failure(1)[unfolded finish_compile_failure_def]])
      (erule same_sources_grow[OF source_part.part_failure])
next
  case (recover now r)
  show ?thesis
    by (rule transaction_grows[OF recover(1)[unfolded recover_compile_leases_def]])
      (erule same_sources_grow[OF source_part.part_recover])
next
  case (preflight token task epoch code now r)
  show ?thesis
    by (rule transaction_grows[OF preflight(3)[unfolded quarantine_compile_preflight_def]])
      (erule same_sources_grow[OF source_part.part_preflight])
qed

lemma sources_grow: "later X d d' \<Longrightarrow> queue_ok d \<Longrightarrow> heads_grow d d' \<and> facts_grow d d'"
proof (induction rule: later.induct)
  case (next_step d1 d2)
  then show ?case
    using sources_grow_step[OF queue.later_keeps[OF next_step(1,4)] next_step(2)]
    by (blast intro: heads_grow_trans facts_grow_trans)
qed simp

end
