(* ===== verification/Kernel_Calls.thy ===== *)
theory Kernel_Calls
  imports Kernel_Demo Sources_Inv
begin

text \<open>
  The kernel's calls one by one, in any reachable state: what an admission, a claim, a
  publication and a failure report that return a value have done, when a claim and a
  publication must succeed, and that heads and facts never go back.
\<close>

section \<open>Admission\<close>

lemma admit_conn_outcome:
  assumes ok: "queue_ok d" and a: "admit_compile_on_conn X ps ctx policy schema force now d = Inr (r, d')"
  shows "case r of
      Queued i \<Rightarrow> \<exists>t h. find_task_id i d' = Some t \<and> source_head (to_key (raw_id (ps_full ps))) d' = Some h
        \<and> (t_status t = Pending \<or> t_status t = Running) \<and> t_entity t = to_key (raw_id (ps_full ps))
        \<and> t_revision t = int (raw_revision (ps_full ps)) \<and> content_hash X (ps_knowledge ps) ctx policy schema = Inr (t_desired t)
        \<and> h_task h = i \<and> h_epoch h = t_epoch t \<and> h_desired h = t_desired t \<and> h_revision h = t_revision t
    | Skipped \<Rightarrow> no_new_work d d'
    | Rejected code \<Rightarrow> d' = d \<and> code = ''source_revision_conflict''
    | Deferred \<Rightarrow> False"
  using a
proof (cases rule: admit_compile_cases)
  case same
  then show ?thesis by (auto simp: no_new_work_def)
next
  case (job d1 j)
  have tasks: "db_tasks d1 = db_tasks d" using facts_only_heads[OF job(1)] by blast
  have "queue_ok d1" using queue_ok_facts[OF ok job(1)] .
  from admit_job_outcome(1)[OF this job(2)] show ?thesis
  proof (elim disjE exE conjE)
    assume "r = Skipped" "no_new_work d1 d'"
    then show ?thesis using tasks by (simp add: no_new_work_def)
  next
    fix i assume "r = Queued i" "queued_as j i d'"
    then show ?thesis using job(4,5,7) by (fastforce simp: queued_as_def task_key_def job_key_def)
  qed
qed

text \<open>
  C11. An admission that queues leaves an active task of the entity, the revision and the content
  hash of the submitted knowledge, and the source head points at it with the same hash,
  revision and epoch; one that skips adds no work; a rejected one changes nothing; an admission
  is never deferred, and a failed one changes nothing.
\<close>

theorem admission_outcome:
  assumes "reachable X d" "admit_compile X ps ctx policy schema force now d = (r, d')"
  shows "case r of Inl e \<Rightarrow> d' = d
    | Inr (Queued i) \<Rightarrow> (\<exists>t h. find_task_id i d' = Some t \<and> source_head (to_key (raw_id (ps_full ps))) d' = Some h
        \<and> (t_status t = Pending \<or> t_status t = Running) \<and> t_entity t = to_key (raw_id (ps_full ps))
        \<and> t_revision t = int (raw_revision (ps_full ps)) \<and> content_hash X (ps_knowledge ps) ctx policy schema = Inr (t_desired t)
        \<and> h_task h = i \<and> h_epoch h = t_epoch t \<and> h_desired h = t_desired t \<and> h_revision h = t_revision t)
    | Inr Skipped \<Rightarrow> no_new_work d d'
    | Inr (Rejected code) \<Rightarrow> d' = d \<and> code = ''source_revision_conflict''
    | Inr Deferred \<Rightarrow> False"
  using assms(2) unfolding admit_compile_def
proof (cases rule: immediate_transaction_cases)
  case (commit a)
  then show ?thesis using admit_conn_outcome[OF queue.always[OF assms(1)] commit(1)] commit(2) by simp
qed simp

theorem admission_outcome_witness:
  "\<exists>t h. find_task_id 1 demo_admitted = Some t \<and> source_head ''milk:drink:boba'' demo_admitted = Some h
     \<and> h_task h = 1 \<and> h_desired h = t_desired t"
  using admission_outcome[OF reachable.start demo_admit] demo_key
  by (auto simp: demo_prepared_def demo_raw_def demo_knowledge_def)

text \<open>
  Whatever the kernel does, a source head never moves to an older revision and a stored fact
  is only ever replaced by a row of a newer or equal revision; neither is ever deleted.
\<close>

theorem sources_never_go_back:
  assumes "reachable X d" "later X d d'"
  shows "(\<forall>e h. source_head e d = Some h \<longrightarrow> (\<exists>h'. source_head e d' = Some h' \<and> h_revision h \<le> h_revision h'))
    \<and> (\<forall>k f. fact_map d k = Some f \<longrightarrow> (\<exists>f'. fact_map d' k = Some f' \<and> fa_revision f \<le> fa_revision f'))"
  using sources_grow[OF assms(2) queue.always[OF assms(1)]] unfolding heads_grow_def facts_grow_def .

theorem sources_never_go_back_witness:
  "\<exists>h. source_head ''milk:drink:boba'' demo_claimed = Some h \<and> h_revision h \<ge> 1"
proof -
  have "later sample_ext demo_admitted demo_claimed"
    by (rule later.next_step[OF later.now kernel_step.claim[OF _ demo_claim]]) (simp add: demo_admitted_fields)
  moreover have "\<exists>h. source_head ''milk:drink:boba'' demo_admitted = Some h \<and> h_revision h = 1"
    by (simp add: demo_admitted_def source_head_upsert demo_job_def)
  ultimately show ?thesis using sources_never_go_back[OF demo_admitted_reachable] by metis
qed

section \<open>Claim\<close>

lemma claim_granted:
  assumes ok: "queue_ok d" and c: "claim_in_transaction X ids run token now d = Inr (Some l, d')"
  obtains t b where "claim_next ids now d = Some t" "0 < b" "t_reserved t + b \<le> t_budget t"
    "l = \<lparr>tl_task = t_id t, tl_epoch = t_epoch t, tl_token = token, tl_hash = t_desired t,
          tl_attempt = nat (t_attempts t + 1), tl_source = tl_source l, tl_context = tl_context l\<rparr>"
    "db_tasks d' = sql_update (\<lambda>r. t_id r = t_id t) (leased_row b now token) (db_tasks d)"
    "\<exists>r. find_run run d' = Some r \<and> r_reserved r \<le> r_limit r"
    "\<forall>day. find_day (now div 86400) d' = Some day \<longrightarrow> d_reserved day \<le> d_limit day"
    "t_attempts t + 1 < 2 ^ 32"
  using c
proof (cases rule: claim_cases)
  case (granted t source deps b r)
  let ?D = "now div 86400"
  let ?d1 = "open_run run (as_i64_cast (cpl_batch_budget (sd_policy deps))) now d"
  let ?d2 = "open_day ?D (cpl_daily_budget (sd_policy deps)) ?d1"
  have ok2: "queue_ok ?d2" by (intro queue_ok_open_day queue_ok_open_run ok)
  have t: "t \<in> set (db_tasks ?d2)" "t_status t = Pending"
    using claim_next_SomeD[OF granted(1)] by (simp_all add: claimable_def)
  note g = grant_lease_Ok[OF ok2 t granted(9)]
  have days: "find_day ?D ?d2 = find_day ?D (open_day ?D (cpl_daily_budget (sd_policy deps)) d)"
    by (simp add: find_day_def open_day_def open_run_def split: option.splits)
  have fd: "find_day ?D d' = map_option (reserve_day b) (find_day ?D ?d2)"
    by (simp add: g(1) find_day_def reserve_day.first_update)
  have fr: "find_run run d' = Some (reserve_run b r)"
    using granted(6) by (simp add: g(1) find_run_def reserve_run.first_update)
  show thesis
  proof (rule that[OF granted(1) estimate_pos[OF granted(4)] granted(5)])
    show "l = \<lparr>tl_task = t_id t, tl_epoch = t_epoch t, tl_token = token, tl_hash = t_desired t,
          tl_attempt = nat (t_attempts t + 1), tl_source = tl_source l, tl_context = tl_context l\<rparr>"
      using g(2) by simp
    show "db_tasks d' = sql_update (\<lambda>r. t_id r = t_id t) (leased_row b now token) (db_tasks d)"
      by (simp add: g(1))
    show "\<exists>r. find_run run d' = Some r \<and> r_reserved r \<le> r_limit r"
      using fr granted(7) by (simp add: reserve_run_def)
    show "\<forall>day. find_day ?D d' = Some day \<longrightarrow> d_reserved day \<le> d_limit day"
      using fd days granted(8) by (auto simp: reserve_day_def)
  qed (rule g(3))
qed simp

text \<open>
  C8. A claim that grants a lease took the earliest due task among those offered, within the
  token budgets of the task, the run and the day; the lease names the task's epoch and next
  attempt number, is live for exactly five minutes, and no other task changed.
\<close>

theorem claim_grants:
  assumes "reachable X d" "claim_compile X ids run token now d = (Inr (Some l), d')"
  shows "\<exists>t b. claim_next ids now d = Some t \<and> 0 < b \<and> t_reserved t + b \<le> t_budget t
    \<and> t_id t \<in> set ids \<and> t_status t = Pending \<and> t_next_at t \<le> now \<and> t_retries t < t_max_retries t
    \<and> (\<forall>r\<in>set (db_tasks d). t_id r \<in> set ids \<and> t_status r = Pending \<and> t_next_at r \<le> now
          \<and> t_retries r < t_max_retries r \<longrightarrow> (t_next_at t, t_id t) \<le> (t_next_at r, t_id r))
    \<and> tl_hash l = t_desired t \<and> tl_token l = token
    \<and> find_task_id (t_id t) d' = Some (leased_row b now token t)
    \<and> (\<forall>n. holds_lease l n (leased_row b now token t) \<longleftrightarrow> n < now + 300)
    \<and> (\<exists>r. find_run run d' = Some r \<and> r_reserved r \<le> r_limit r)
    \<and> (\<forall>day. find_day (now div 86400) d' = Some day \<longrightarrow> d_reserved day \<le> d_limit day)
    \<and> (\<forall>i. i \<noteq> t_id t \<longrightarrow> find_task_id i d' = find_task_id i d)"
proof -
  have ok: "queue_ok d" by (rule queue.always[OF assms(1)])
  from assms(2) have c: "claim_in_transaction X ids run token now d = Inr (Some l, d')"
    unfolding claim_compile_def by (auto split: if_splits elim: immediate_transaction_cases)
  obtain t b where t: "claim_next ids now d = Some t" "0 < b" "t_reserved t + b \<le> t_budget t"
    and l: "l = \<lparr>tl_task = t_id t, tl_epoch = t_epoch t, tl_token = token, tl_hash = t_desired t,
          tl_attempt = nat (t_attempts t + 1), tl_source = tl_source l, tl_context = tl_context l\<rparr>"
    and u: "db_tasks d' = sql_update (\<lambda>r. t_id r = t_id t) (leased_row b now token) (db_tasks d)"
    and budgets: "\<exists>r. find_run run d' = Some r \<and> r_reserved r \<le> r_limit r"
      "\<forall>day. find_day (now div 86400) d' = Some day \<longrightarrow> d_reserved day \<le> d_limit day"
    by (rule claim_granted[OF ok c])
  note next_t = claim_next_SomeD[OF t(1)]
  have fields: "tl_task l = t_id t" "tl_epoch l = t_epoch t" "tl_token l = token" "tl_hash l = t_desired t"
    "tl_attempt l = nat (t_attempts t + 1)"
    by (subst l, simp)+
  have found: "find_task_id i d' = (if i = t_id t then map_option (leased_row b now token) (find_task_id i d)
      else find_task_id i d)" for i
    by (simp add: find_task_id_def u leased_row.first_update)
  have "find_task_id (t_id t) d = Some t" using ok next_t(1) by (simp add: find_task_id_iff)
  then have "find_task_id (t_id t) d' = Some (leased_row b now token t)" by (simp add: found)
  moreover have "find_task_id i d' = find_task_id i d" if "i \<noteq> t_id t" for i using that by (simp add: found)
  moreover have "0 \<le> t_attempts t" using queue_ok_task[OF ok next_t(1)] by (simp add: task_ok_def)
  then have "holds_lease l n (leased_row b now token t) \<longleftrightarrow> n < now + 300" for n
    by (simp add: holds_lease_def live_task_def fields lease_window_seconds_def)
  ultimately show ?thesis using t next_t(2,3)[unfolded claimable_def] budgets fields by blast
qed

theorem claim_grants_witness:
  "\<exists>b. 0 < b \<and> find_task_id 1 demo_claimed = Some (leased_row b 10 ''tok'' demo_task)"
proof -
  have "claim_next [1] 10 demo_admitted = Some demo_task"
    by (simp add: claim_next_def sql_first_by_def claimable_def demo_admitted_fields demo_task_fields)
  then show ?thesis using claim_grants[OF demo_admitted_reachable demo_claim] by (auto simp: demo_task_fields)
qed

text \<open>The next due task fits the three budgets, as the claim computes them.\<close>

definition claim_fits :: "ext \<Rightarrow> task_row \<Rightarrow> string \<Rightarrow> int \<Rightarrow> db \<Rightarrow> bool" where
  "claim_fits X t run now d \<longleftrightarrow> (\<exists>source deps b r.
     x_parse_source X (t_source t) = Some source \<and> x_parse_deps X (t_deps t) = Some deps
     \<and> estimate_budget_units (cx_prompt (sd_context deps)) (t_source t) (cpl_max_output (sd_policy deps)) = Inr b
     \<and> fits (t_reserved t) b (t_budget t) = Inr True
     \<and> find_run run (open_run run (as_i64_cast (cpl_batch_budget (sd_policy deps))) now d) = Some r
     \<and> fits (r_reserved r) b (r_limit r) = Inr True
     \<and> (case find_day (now div 86400) (open_day (now div 86400) (cpl_daily_budget (sd_policy deps)) d) of
          None \<Rightarrow> True | Some day \<Rightarrow> fits (d_reserved day) b (d_limit day) = Inr True))"

lemma grant_lease_total:
  assumes ok: "queue_ok d" and t: "t \<in> set (db_tasks d)" "t_status t = Pending" "t_attempts t + 1 < 2 ^ 32"
  shows "\<exists>l d'. grant_lease t source deps b run token now d = Inr (Some l, d')"
proof -
  have tk: "0 \<le> t_attempts t" using queue_ok_task[OF ok t(1)] by (simp add: task_ok_def)
  have new: "\<not> sql_exists (\<lambda>r. attempt_key r = attempt_key (new_attempt t (t_attempts t + 1) token run day b now)) (db_attempts d)"
    for day using queue_ok_next_attempt[OF ok t(1)] by (auto simp: sql_exists_iff)
  have "sql_count (\<lambda>r. t_id r = t_id t \<and> t_status r = Pending \<and> t_epoch r = t_epoch t)
      (sql_update (\<lambda>r. t_id r = t_id t) (reserve_task b) (db_tasks d)) = 1"
  proof (rule count_one[where key = t_id and r = "reserve_task b t"])
    show "keyed t_id (sql_update (\<lambda>r. t_id r = t_id t) (reserve_task b) (db_tasks d))"
      using ok by (simp add: reserve_task.keyed_update queue_ok_def tasks_ok_def)
    show "reserve_task b t \<in> set (sql_update (\<lambda>r. t_id r = t_id t) (reserve_task b) (db_tasks d))"
      using t(1) by (auto simp: set_sql_update)
  qed (use t in \<open>auto simp: reserve_task_def\<close>)
  then show ?thesis
    using t(3) tk new
    by (simp add: grant_lease_def insert_attempt_def Let_def checked_add_def i64_max_def i64_min_def ok_or_def)
qed

lemma claim_total:
  assumes ok: "queue_ok d" and t: "claim_next ids now d = Some t" "t_attempts t + 1 < 2 ^ 32"
    and f: "claim_fits X t run now d"
  shows "\<exists>l d'. claim_in_transaction X ids run token now d = Inr (Some l, d')"
proof -
  from f obtain source deps b r where p: "x_parse_source X (t_source t) = Some source"
    "x_parse_deps X (t_deps t) = Some deps"
    "estimate_budget_units (cx_prompt (sd_context deps)) (t_source t) (cpl_max_output (sd_policy deps)) = Inr b"
    "fits (t_reserved t) b (t_budget t) = Inr True"
    "find_run run (open_run run (as_i64_cast (cpl_batch_budget (sd_policy deps))) now d) = Some r"
    "fits (r_reserved r) b (r_limit r) = Inr True"
    "case find_day (now div 86400) (open_day (now div 86400) (cpl_daily_budget (sd_policy deps)) d) of
       None \<Rightarrow> True | Some day \<Rightarrow> fits (d_reserved day) b (d_limit day) = Inr True"
    unfolding claim_fits_def by blast
  let ?d1 = "open_run run (as_i64_cast (cpl_batch_budget (sd_policy deps))) now d"
  let ?d2 = "open_day (now div 86400) (cpl_daily_budget (sd_policy deps)) ?d1"
  have "find_day (now div 86400) ?d2 = find_day (now div 86400) (open_day (now div 86400) (cpl_daily_budget (sd_policy deps)) d)"
    by (simp add: find_day_def open_day_def open_run_def split: option.splits)
  then have day: "(case find_day (now div 86400) ?d2 of None \<Rightarrow> Inr True
      | Some day \<Rightarrow> fits (d_reserved day) b (d_limit day)) = Inr True"
    using p(7) by (simp split: option.splits)
  have ok2: "queue_ok ?d2" by (intro queue_ok_open_day queue_ok_open_run ok)
  have "t \<in> set (db_tasks ?d2)" "t_status t = Pending"
    using claim_next_SomeD[OF t(1)] by (simp_all add: claimable_def)
  then obtain l d' where g: "grant_lease t source deps b run token now ?d2 = Inr (Some l, d')"
    using grant_lease_total[OF ok2 _ _ t(2)] by blast
  show ?thesis
    using t(1) p(1-6) day g by (simp add: claim_in_transaction_def ok_or_def Let_def)
qed

text \<open>
  A claim must succeed: when an offered task is due and the earliest such task fits the
  budgets, the call grants a lease; when no offered task is due it grants none and changes nothing.
\<close>

theorem claim_succeeds:
  assumes "reachable X d"
  shows "(claim_next ids now d = None \<longrightarrow> claim_compile X ids run token now d = (Inr None, d))
    \<and> (\<forall>t. claim_next ids now d = Some t \<longrightarrow> t_attempts t + 1 < 2 ^ 32 \<longrightarrow> claim_fits X t run now d \<longrightarrow>
        (\<exists>l d'. claim_compile X ids run token now d = (Inr (Some l), d')))"
proof (intro conjI allI impI)
  show "claim_compile X ids run token now d = (Inr None, d)" if "claim_next ids now d = None"
    using that by (simp add: claim_compile_def immediate_transaction_def claim_in_transaction_def)
  fix t assume t: "claim_next ids now d = Some t" "t_attempts t + 1 < 2 ^ 32" "claim_fits X t run now d"
  then have "ids \<noteq> []" using claim_next_SomeD(2)[OF t(1)] by (auto simp: claimable_def)
  moreover obtain l d' where "claim_in_transaction X ids run token now d = Inr (Some l, d')"
    using claim_total[OF queue.always[OF assms] t] by blast
  ultimately show "\<exists>l d'. claim_compile X ids run token now d = (Inr (Some l), d')"
    by (simp add: claim_compile_def immediate_transaction_def)
qed

theorem claim_succeeds_witness:
  "(\<exists>l d. claim_compile sample_ext [1] ''run'' ''tok'' 10 demo_admitted = (Inr (Some l), d))
    \<and> claim_compile sample_ext [1] ''run'' ''tok'' 10 demo_claimed = (Inr None, demo_claimed)"
proof -
  have "claim_next [1] 10 demo_admitted = Some demo_task"
    by (simp add: claim_next_def sql_first_by_def claimable_def demo_admitted_fields demo_task_fields)
  moreover have "estimate_budget_units ''prompt'' ''source'' 2048 = Inr 2316"
    by (simp add: estimate_budget_units_def as_i64_cast_def i64_max_def i64_min_def checked_add_def)
  then have "claim_fits sample_ext demo_task ''run'' 10 demo_admitted"
    by (simp add: claim_fits_def demo_values demo_task_fields i64_max_def i64_min_def fits_Ok open_run_def
        sql_insert_ignore_def sql_exists_def find_run_def sql_first_def find_day_def open_day_def demo_admitted_fields)
  moreover have "claim_next [1] 10 demo_claimed = None"
    by (simp add: claim_next_def sql_first_by_None claimable_def demo_claimed_fields demo_leased_def)
  ultimately show ?thesis
    using claim_succeeds[OF demo_admitted_reachable] claim_succeeds[OF demo_claimed_reachable]
    by (simp add: demo_task_fields)
qed

section \<open>Publication\<close>

text \<open>
  C13. A publication must succeed: a live lease on the head's hash, with evidence, the task's
  entity, the lease's hash, scores that are numbers and texts within their limits, is accepted
  under the next generation.
\<close>

theorem publish_succeeds:
  assumes "reachable X d" "t \<in> set (db_tasks d)" "holds_lease l now t"
    and "head_desired (t_entity t) d = Some (t_desired t)" "publishable X t l page report c"
  shows "\<exists>d'. publish_compile X l page report c now d = (Inr (Accepted (db_gen_seq d + 1)), d')"
  using publish_total[OF queue.always[OF assms(1)] pages.always[OF assms(1)] assms(2-5)] .

theorem publish_succeeds_witness:
  "\<exists>d. publish_compile sample_ext demo_lease (demo_page demo_hash) demo_report None 20 demo_claimed = (Inr (Accepted 1), d)"
  using publish_succeeds[OF demo_claimed_reachable _ demo_holds(1) _ demo_publishable] demo_head
  by (simp add: demo_claimed_fields demo_holds)

text \<open>
  C6. An accepted publication of a running task replaces the page of its entity by the published
  one, under a generation above every earlier one, with exactly the published sections in their
  order, touches no page or section of another entity, ends the task, and answers the same
  generation, changing nothing, when it is asked again with whatever page.
\<close>

theorem publish_replaces_page:
  assumes "reachable X d" "wp_id (cp_wiki page) = to_key (wp_entity (cp_wiki page))"
    and "publish_compile X l page report c now d = (Inr (Accepted g), d')"
    and "find_task_id (tl_task l) d = Some t" "t_status t = Running"
  shows "(\<forall>r\<in>set (db_generations d). g_generation r < g)
    \<and> (\<exists>p. accepted_page (t_entity t) d' = Some p \<and> pg_hash p = tl_hash l \<and> pg_generation p = g
         \<and> pg_revision p = t_revision t \<and> pg_content p = wp_content (cp_wiki page) \<and> pg_title p = wp_title (cp_wiki page))
    \<and> map (\<lambda>s. (se_heading s, se_content s)) (filter (\<lambda>s. se_page s = t_entity t) (db_sections d')) = wp_sections (cp_wiki page)
    \<and> (\<forall>p. pg_entity p \<noteq> t_entity t \<longrightarrow> (p \<in> set (db_pages d') \<longleftrightarrow> p \<in> set (db_pages d)))
    \<and> filter (\<lambda>s. se_page s \<noteq> t_entity t) (db_sections d') = filter (\<lambda>s. se_page s \<noteq> t_entity t) (db_sections d)
    \<and> find_task_id (tl_task l) d' = Some (accept_task_set now t)
    \<and> publish_compile X l page2 report2 c2 now2 d' = (Inr (Accepted g), d')"
  by (rule publish_replaced[OF assms])

theorem publish_replaces_page_witness:
  "\<exists>p. accepted_page ''milk:drink:boba'' demo_published = Some p \<and> pg_hash p = demo_hash \<and> pg_generation p = 1
    \<and> publish_compile sample_ext demo_lease (demo_page ''x'') demo_report None 900 demo_published
        = (Inr (Accepted 1), demo_published)"
proof -
  have f: "find_task_id (tl_task demo_lease) demo_claimed = Some demo_leased"
    by (simp add: find_task_id_def demo_claimed_fields sql_first_def demo_lease_def demo_leased_def demo_task_fields)
  have "t_status demo_leased = Running" by (simp add: demo_leased_def)
  note p = publish_replaces_page[OF demo_claimed_reachable demo_page_key demo_publish f this, of "demo_page ''x''" demo_report None 900]
  then show ?thesis by (simp add: demo_holds demo_lease_def) blast
qed

section \<open>Failure\<close>

text \<open>
  C10. A failure report on a live lease either returns an error (dependencies that do not parse, an artifact or a
  diagnostic that is too large), is rolled back and leaves the lease as it was, or the lease is over, in exactly one
  disposition: invalid output is retried after the backoff of the task's retries until the recompile limit and is
  then quarantined; a retryable failure is retried after the advised delay, at most five minutes, or the backoff,
  until the retry limit and then fails; a permanent failure fails at once. Out of tries, the task is dead and a
  dead letter exists. Reported by the holder of the lease, a permanent failure, and a retryable one with a try
  left, return no error when the dependencies of the task parse.
\<close>

theorem failure_disposition_exact:
  assumes "reachable X d" "find_task_id (tl_task l) d = Some t" "live_task l now t"
    and "finish_compile_failure X l failure cand report c now d = (res, d')"
  shows "(case res of
      Inl e \<Rightarrow> d' = d
    | Inr r \<Rightarrow> \<exists>deps t'. x_parse_deps X (t_deps t) = Some deps \<and> find_task_id (tl_task l) d' = Some t'
        \<and> disposed X failure deps now t r t' d' \<and> t_token t' = None \<and> t_status t' \<noteq> Running
        \<and> (\<forall>due. r = RetryAt due \<longrightarrow> t_status t' = Pending \<and> t_next_at t' = due \<and> now \<le> due \<and> due \<le> now + 300))
    \<and> (reportable X l failure now t \<longrightarrow> (\<exists>r. res = Inr r))"
proof (intro conjI)
  show "case res of
      Inl e \<Rightarrow> d' = d
    | Inr r \<Rightarrow> \<exists>deps t'. x_parse_deps X (t_deps t) = Some deps \<and> find_task_id (tl_task l) d' = Some t'
        \<and> disposed X failure deps now t r t' d' \<and> t_token t' = None \<and> t_status t' \<noteq> Running
        \<and> (\<forall>due. r = RetryAt due \<longrightarrow> t_status t' = Pending \<and> t_next_at t' = due \<and> now \<le> due \<and> due \<le> now + 300)"
  proof (cases res)
    case (Inl e)
    then show ?thesis
      using assms(4) unfolding finish_compile_failure_def by (elim immediate_transaction_cases) auto
  next
    case (Inr r)
    then show ?thesis using failure_ended[OF assms(1-3)] assms(4) by simp
  qed
qed (use failure_succeeds[OF assms(1-3)] assms(4) in blast)

theorem failure_disposition_exact_witness:
  "\<exists>d t. finish_compile_failure sample_ext demo_lease (Retryable ''NETWORK'' None) None demo_report None 20 demo_claimed
       = (Inr (RetryAt 21), d)
     \<and> find_task_id 1 d = Some t \<and> t_status t = Pending \<and> t_token t = None \<and> t_next_at t = 21"
proof -
  have f: "find_task_id (tl_task demo_lease) demo_claimed = Some demo_leased"
    by (simp add: find_task_id_def demo_claimed_fields sql_first_def demo_lease_def demo_leased_def demo_task_fields)
  have live: "live_task demo_lease 20 demo_leased" using demo_holds(1) by (simp add: holds_lease_def)
  have mem: "demo_leased \<in> set (db_tasks demo_claimed)" by (simp add: demo_claimed_fields)
  note n = holds_lease_counts[OF queue.always[OF demo_claimed_reachable] mem demo_holds(1)]
  have retries: "t_retries demo_leased = 0" "t_max_retries demo_leased = 3"
    by (simp_all add: demo_leased_def leased_row_def running_set_def reserve_task_def demo_task_fields)
  obtain d where d: "finish_compile_failure sample_ext demo_lease (Retryable ''NETWORK'' None) None demo_report None 20
      demo_claimed = (Inr (RetryAt 21), d)"
    using f live n
    by (simp add: finish_compile_failure_def immediate_transaction_def finish_failure_in_transaction_def
        fail_retryable_def retries checked_add_def i64_max_def i64_min_def update_one_attempt_def
        update_leased_task_def Let_def retry_delay_def backoff_seconds_def ok_or_def)
  from failure_disposition_exact[OF demo_claimed_reachable f live d] d show ?thesis
    by (auto simp: demo_lease_def)
qed

end
