(* ===== verification/Strings.thy ===== *)
theory Strings
  imports Types
begin

text \<open>
  Strings by characters and by substrings: UTF-8 decoding to scalar values, the Unicode classes
  the code asks for (\<^verbatim>\<open>char::is_control\<close>, \<^verbatim>\<open>char::is_whitespace\<close>), \<^verbatim>\<open>str::find\<close>, \<^verbatim>\<open>contains\<close>, \<^verbatim>\<open>split\<close>,
  \<^verbatim>\<open>replace\<close> and \<^verbatim>\<open>join\<close>. A string is its UTF-8 bytes throughout.
\<close>

section \<open>Scalar values\<close>

text \<open>How many continuation bytes follow a leading byte, and the value they make.\<close>

definition tail_len :: "char \<Rightarrow> nat" where
  "tail_len c = (let b = of_char c :: nat in if b < 192 then 0 else if b < 224 then 1 else if b < 240 then 2 else 3)"

definition tail_bits :: "string \<Rightarrow> nat \<Rightarrow> nat" where
  "tail_bits cs i = (case drop i cs of [] \<Rightarrow> 0 | c # _ \<Rightarrow> of_char c mod 64)"

definition scalar_at :: "char \<Rightarrow> string \<Rightarrow> nat" where
  "scalar_at c cs =
     (let b = of_char c :: nat
      in if b < 192 then b
         else if b < 224 then (b - 192) * 64 + tail_bits cs 0
         else if b < 240 then (b - 224) * 4096 + tail_bits cs 0 * 64 + tail_bits cs 1
         else (b - 240) * 262144 + tail_bits cs 0 * 4096 + tail_bits cs 1 * 64 + tail_bits cs 2)"

fun scalars :: "string \<Rightarrow> nat list" where
  "scalars [] = []"
| "scalars (c # cs) = scalar_at c cs # scalars (drop (tail_len c) cs)"

fun take_scalars :: "nat \<Rightarrow> string \<Rightarrow> string" where
  "take_scalars 0 s = []"
| "take_scalars (Suc n) [] = []"
| "take_scalars (Suc n) (c # cs) = c # take (tail_len c) cs @ take_scalars n (drop (tail_len c) cs)"

definition is_control :: "nat \<Rightarrow> bool" where
  "is_control v = (v < 32 \<or> (127 \<le> v \<and> v < 160))"

definition is_whitespace :: "nat \<Rightarrow> bool" where
  "is_whitespace v = ((9 \<le> v \<and> v \<le> 13) \<or> (0x2000 \<le> v \<and> v \<le> 0x200A)
     \<or> v \<in> set [0x20, 0x85, 0xA0, 0x1680, 0x2028, 0x2029, 0x202F, 0x205F, 0x3000])"

lemma take_scalars_prefix: "\<exists>t. s = take_scalars n s @ t"
proof (induction n s rule: take_scalars.induct)
  case (3 n c cs)
  then obtain t where "drop (tail_len c) cs = take_scalars n (drop (tail_len c) cs) @ t" by blast
  then have "c # cs = (c # take (tail_len c) cs @ take_scalars n (drop (tail_len c) cs)) @ t"
    by (metis append_Cons append_assoc append_take_drop_id)
  then show ?case by auto
qed simp_all

section \<open>Substrings\<close>

text \<open>The byte position of the first occurrence.\<close>

fun find_sub :: "string \<Rightarrow> string \<Rightarrow> nat option" where
  "find_sub [] n = (if n = [] then Some 0 else None)"
| "find_sub (c # cs) n = (if starts_with (c # cs) n then Some 0 else map_option Suc (find_sub cs n))"

definition contains :: "string \<Rightarrow> string \<Rightarrow> bool" where
  "contains h n = (find_sub h n \<noteq> None)"

lemma find_sub_Some: "find_sub h n = Some p \<Longrightarrow> \<exists>t. h = take p h @ n @ t \<and> p + length n \<le> length h"
proof (induction h arbitrary: p)
  case (Cons c cs)
  show ?case
  proof (cases "starts_with (c # cs) n")
    case True
    then obtain t where "c # cs = n @ t" unfolding starts_with_iff by blast
    moreover from this have "length n \<le> length (c # cs)" by simp
    moreover have "p = 0" using Cons.prems True by simp
    ultimately show ?thesis by (intro exI[of _ t]) simp
  next
    case False
    with Cons.prems obtain q where q: "find_sub cs n = Some q" "p = Suc q" by auto
    from Cons.IH[OF q(1)] q(2) show ?thesis by auto
  qed
qed (simp split: if_splits)

lemma contains_iff: "contains h n \<longleftrightarrow> (\<exists>a b. h = a @ n @ b)"
proof
  show "contains h n \<Longrightarrow> \<exists>a b. h = a @ n @ b" using find_sub_Some by (fastforce simp: contains_def)
  have "find_sub (a @ n @ b) n \<noteq> None" for a b
  proof (induction a)
    case Nil
    have "starts_with (n @ b) n" by (auto simp: starts_with_iff)
    then show ?case by (cases "n @ b") auto
  qed (auto simp: starts_with_iff)
  then show "\<exists>a b. h = a @ n @ b \<Longrightarrow> contains h n" by (auto simp: contains_def)
qed

lemma contains_refl [simp]: "contains s s"
  unfolding contains_iff by (rule exI[of _ "[]"], rule exI[of _ "[]"]) simp

lemma contains_trans: "contains a b \<Longrightarrow> contains b c \<Longrightarrow> contains a c"
  unfolding contains_iff by (metis append.assoc)

section \<open>Splitting, replacing and joining\<close>

fun split_on :: "char \<Rightarrow> string \<Rightarrow> string list" where
  "split_on d [] = [[]]"
| "split_on d (c # cs) =
     (if c = d then [] # split_on d cs
      else (case split_on d cs of [] \<Rightarrow> [[c]] | t # ts \<Rightarrow> (c # t) # ts))"

text \<open>\<^verbatim>\<open>replace\<close> of a pattern of two bytes by one, from the left and without overlap.\<close>

fun replace_pair :: "char \<Rightarrow> char \<Rightarrow> char \<Rightarrow> string \<Rightarrow> string" where
  "replace_pair a b r (x # y # s) =
     (if x = a \<and> y = b then r # replace_pair a b r s else x # replace_pair a b r (y # s))"
| "replace_pair a b r s = s"

fun join_with :: "string \<Rightarrow> string list \<Rightarrow> string" where
  "join_with sep [] = []"
| "join_with sep [s] = s"
| "join_with sep (s # t # ts) = s @ sep @ join_with sep (t # ts)"

definition is_digit :: "char \<Rightarrow> bool" where
  "is_digit c = (48 \<le> (of_char c :: nat) \<and> (of_char c :: nat) \<le> 57)"

fun digits_value :: "nat \<Rightarrow> string \<Rightarrow> nat" where
  "digits_value n [] = n"
| "digits_value n (c # cs) = digits_value (10 * n + (of_char c - 48)) cs"

section \<open>Trimming\<close>

text \<open>The encoded characters of a string, and \<^verbatim>\<open>str::trim\<close> of it.\<close>

fun char_chunks :: "string \<Rightarrow> string list" where
  "char_chunks [] = []"
| "char_chunks (c # cs) = (c # take (tail_len c) cs) # char_chunks (drop (tail_len c) cs)"

definition is_blank :: "string \<Rightarrow> bool" where
  "is_blank chunk = list_all is_whitespace (scalars chunk)"

definition trim_text :: "string \<Rightarrow> string" where
  "trim_text s = concat (rev (dropWhile is_blank (rev (dropWhile is_blank (char_chunks s)))))"

lemma concat_char_chunks: "concat (char_chunks s) = s"
  by (induction s rule: char_chunks.induct) simp_all

lemma trim_text_part: "\<exists>a b. s = a @ trim_text s @ b"
proof -
  let ?cs = "char_chunks s"
  let ?d = "dropWhile is_blank ?cs"
  have "?cs = takeWhile is_blank ?cs @ ?d" by simp
  moreover have "?d = rev (dropWhile is_blank (rev ?d)) @ rev (takeWhile is_blank (rev ?d))"
    by (metis rev_append rev_rev_ident takeWhile_dropWhile_id)
  ultimately have "concat ?cs = concat (takeWhile is_blank ?cs) @ trim_text s @ concat (rev (takeWhile is_blank (rev ?d)))"
    unfolding trim_text_def by (metis concat_append)
  then show ?thesis using concat_char_chunks by metis
qed

end
