(* ===== verification/Contract.thy ===== *)
theory Contract
  imports Strings
begin

text \<open>
  The output contract of the compiler (\<^verbatim>\<open>compile/contract.rs\<close>): decoding a model response
  (\<^verbatim>\<open>decode_response\<close>) and checking its evidence against the source snapshot
  (\<^verbatim>\<open>DefaultSourceRefValidator::validate\<close>). Third-party code is the record \<open>codec\<close>: the JSON
  tokens of a text, the derived \<^verbatim>\<open>Deserialize\<close> of the envelope, the events of the Markdown parser.
\<close>

section \<open>Third-party parsers\<close>

text \<open>A JSON text as its tokens give it: members in text order, keys possibly repeated.\<close>

datatype raw_json =
  RNull | RBool bool | RInt int | RFloat flt | RStr string
| RArr "raw_json list" | RObj "(string \<times> raw_json) list"

datatype envelope_code = MissingSourceRefs | InsufficientSource | UnsupportedSource

definition envelope_code_text :: "envelope_code \<Rightarrow> string" where
  "envelope_code_text c =
     (case c of MissingSourceRefs \<Rightarrow> ''MISSING_SOURCE_REFS'' | InsufficientSource \<Rightarrow> ''INSUFFICIENT_SOURCE''
      | UnsupportedSource \<Rightarrow> ''UNSUPPORTED_SOURCE'')"

record envelope =
  env_version :: string
  env_status :: string
  env_wiki :: "output_wiki option"
  env_sections :: "evidence_section list option"
  env_error :: "envelope_code option"

datatype md_event = MdHtml | MdInlineHtml | MdCodeBlock | MdHeading nat | MdOther

text \<open>The events \<^verbatim>\<open>split_sections\<close> looks at, each with the byte range it covers.\<close>

datatype md_span = H2Start | H2End | MdText string | MdSkip

record codec =
  co_json :: "string \<Rightarrow> raw_json option"
  co_envelope :: "json \<Rightarrow> envelope option"
  co_markdown :: "string \<Rightarrow> md_event list"
  co_spans :: "string \<Rightarrow> (md_span \<times> nat \<times> nat) list"

section \<open>Strict decoding\<close>

text \<open>\<^verbatim>\<open>StrictValue\<close>: a repeated key or a non-finite number is an error.\<close>

fun strict_value :: "raw_json \<Rightarrow> json option"
  and strict_values :: "raw_json list \<Rightarrow> json list option"
  and strict_members :: "string list \<Rightarrow> (string \<times> json) list \<Rightarrow> (string \<times> raw_json) list \<Rightarrow> (string \<times> json) list option"
where
  "strict_value RNull = Some JNull"
| "strict_value (RBool b) = Some (JBool b)"
| "strict_value (RInt n) = Some (JInt n)"
| "strict_value (RFloat v) = (if is_finite v then Some (JFloat v) else None)"
| "strict_value (RStr s) = Some (JStr s)"
| "strict_value (RArr vs) = map_option JArr (strict_values vs)"
| "strict_value (RObj ms) = map_option JObj (strict_members [] [] ms)"
| "strict_values [] = Some []"
| "strict_values (v # vs) =
     (case strict_value v of None \<Rightarrow> None | Some j \<Rightarrow> map_option ((#) j) (strict_values vs))"
| "strict_members seen out [] = Some out"
| "strict_members seen out ((k, v) # ms) =
     (if k \<in> set seen then None
      else (case strict_value v of
              None \<Rightarrow> None | Some j \<Rightarrow> strict_members (k # seen) (bt_insert k j out) ms))"

text \<open>
  What a strict value is, without the decoder: no object anywhere in it repeats a key and every number is
  finite; it reads as the same tree, with the members of an object in key order.
\<close>

fun unambiguous :: "raw_json \<Rightarrow> bool" where
  "unambiguous (RFloat v) = is_finite v"
| "unambiguous (RArr vs) = (\<forall>v\<in>set vs. unambiguous v)"
| "unambiguous (RObj ms) = (distinct (map fst ms) \<and> (\<forall>m\<in>set ms. unambiguous (snd m)))"
| "unambiguous _ = True"

fun reads_as :: "raw_json \<Rightarrow> json" where
  "reads_as RNull = JNull"
| "reads_as (RBool b) = JBool b"
| "reads_as (RInt n) = JInt n"
| "reads_as (RFloat v) = JFloat v"
| "reads_as (RStr s) = JStr s"
| "reads_as (RArr vs) = JArr (map reads_as vs)"
| "reads_as (RObj ms) = JObj (sort_key fst (map (\<lambda>m. (fst m, reads_as (snd m))) ms))"

lemma bt_of_distinct:
  assumes "distinct (map fst ms)"
  shows "fold (\<lambda>m. bt_insert (fst m) (snd m)) ms [] = sort_key fst ms"
proof (rule bt_eqI)
  have f: "fold (\<lambda>m. bt_insert (fst m) (snd m)) ms [] = fold (\<lambda>(k, v). bt_insert k v) ms []"
    by (rule fold_cong) auto
  show "bt_wf (fold (\<lambda>m. bt_insert (fst m) (snd m)) ms [])"
    unfolding f by (rule bt.fold_ok) (simp add: bt_wf_def)
  have d: "distinct (map fst (sort_key fst ms))"
    using assms by (simp add: distinct_map)
  have "map_of (rev ms) = map_of (sort_key fst ms)"
    using assms d by (intro map_of_inject_set[THEN iffD2]) (simp_all add: rev_map[symmetric])
  then show "map_of (fold (\<lambda>m. bt_insert (fst m) (snd m)) ms []) = map_of (sort_key fst ms)"
    unfolding f bt.fold_entries by simp
  show "bt_wf (sort_key fst ms)"
    using d by (simp add: bt_wf_def strict_sorted_iff)
qed

lemma strict_value_exact:
  "strict_value raw = (if unambiguous raw then Some (reads_as raw) else None)"
  "strict_values vs = (if \<forall>v\<in>set vs. unambiguous v then Some (map reads_as vs) else None)"
  "strict_members seen out ms =
     (if distinct (map fst ms) \<and> set seen \<inter> fst ` set ms = {} \<and> (\<forall>m\<in>set ms. unambiguous (snd m))
      then Some (fold (\<lambda>m. bt_insert (fst m) (snd m)) (map (\<lambda>m. (fst m, reads_as (snd m))) ms) out) else None)"
proof (induction raw and vs and seen out ms rule: strict_value_strict_values_strict_members.induct)
  case (7 ms)
  have "fold (\<lambda>m. bt_insert (fst m) (snd m)) (map (\<lambda>m. (fst m, reads_as (snd m))) ms) [] =
      sort_key fst (map (\<lambda>m. (fst m, reads_as (snd m))) ms)" if "distinct (map fst ms)"
    using that by (intro bt_of_distinct) (simp add: comp_def)
  then show ?case using 7 by simp
qed auto

definition max_response_bytes :: nat where "max_response_bytes = 128 * 1024"
definition max_assertion_scalars :: nat where "max_assertion_scalars = 1024"
definition max_title_scalars :: nat where "max_title_scalars = 128"
definition marker_open :: string where "marker_open = ''[[ref:''"
definition marker_close :: string where "marker_close = '']]''"
definition envelope_version :: string where "envelope_version = ''source-ref-v1''"

definition response_prefix :: "string \<Rightarrow> string" where
  "response_prefix text = take_scalars 64 text"

definition invalid_output :: "string \<Rightarrow> string \<Rightarrow> compile_failure" where
  "invalid_output code text = InvalidOutput code (response_prefix text)"

definition plain_text_ok :: "string \<Rightarrow> nat \<Rightarrow> bool" where
  "plain_text_ok s n = (s \<noteq> [] \<and> length (scalars s) \<le> n \<and> list_all (\<lambda>v. \<not> is_control v) (scalars s))"

definition assertion_text_shape_ok :: "string \<Rightarrow> bool" where
  "assertion_text_shape_ok s =
     (0 < length (scalars s) \<and> length (scalars s) \<le> max_assertion_scalars
      \<and> list_all (\<lambda>v. \<not> is_control v) (scalars s)
      \<and> \<not> contains s marker_open \<and> \<not> contains s marker_close \<and> \<not> contains s ''<'')"

text \<open>The loop over the sections: headings seen, and the two running totals.\<close>

fun check_section_limits :: "string list \<Rightarrow> nat \<Rightarrow> nat \<Rightarrow> evidence_section list \<Rightarrow> string + unit" where
  "check_section_limits seen na nr [] = Inr ()"
| "check_section_limits seen na nr (s # ss) =
     (if \<not> plain_text_ok (ev_heading s) max_title_scalars \<or> ev_heading s \<in> set seen then Inl ''SCHEMA_HEADING''
      else if ev_assertions s = [] \<or> length (ev_assertions s) > 64 then Inl ''SCHEMA_ASSERTIONS''
      else let na' = na + length (ev_assertions s); nr' = nr + length (ev_refs s)
        in if na' > 256 then Inl ''SCHEMA_ASSERTIONS''
           else if nr' > 512 then Inl ''SCHEMA_REFS''
           else if list_ex (\<lambda>a. \<not> assertion_text_shape_ok (as_text a)) (ev_assertions s) then Inl ''SCHEMA_TEXT''
           else check_section_limits (ev_heading s # seen) na' nr' ss)"

definition check_output_limits :: "output_wiki \<Rightarrow> evidence_section list \<Rightarrow> string + unit" where
  "check_output_limits w ss =
     (if \<not> plain_text_ok (ow_title w) max_title_scalars then Inl ''SCHEMA_TITLE''
      else if length (ow_aliases w) > 32 \<or> list_ex (\<lambda>a. \<not> plain_text_ok a max_title_scalars) (ow_aliases w)
      then Inl ''SCHEMA_ALIASES''
      else if length (ow_tags w) > 32 \<or> list_ex (\<lambda>t. \<not> plain_text_ok t max_title_scalars) (ow_tags w)
      then Inl ''SCHEMA_TAGS''
      else if ss = [] \<or> length ss > 32 then Inl ''SCHEMA_SECTIONS''
      else check_section_limits [] 0 0 ss)"

definition decode_envelope :: "string \<Rightarrow> envelope \<Rightarrow> compile_failure + compile_evidence" where
  "decode_envelope text env =
     (if env_version env \<noteq> envelope_version then Inl (invalid_output ''UNSUPPORTED_VERSION'' text)
      else if env_status env = ''ok'' then
        (if env_error env \<noteq> None then Inl (invalid_output ''INVALID_ENVELOPE'' text)
         else (case (env_wiki env, env_sections env) of
           (Some w, Some ss) \<Rightarrow>
             (case check_output_limits w ss of
                Inl code \<Rightarrow> Inl (invalid_output code text)
              | Inr _ \<Rightarrow> Inr \<lparr>ce_schema_version = env_version env, ce_wiki = w, ce_sections = ss, ce_usage = None\<rparr>)
         | _ \<Rightarrow> Inl (invalid_output ''INVALID_ENVELOPE'' text)))
      else if env_status env = ''error'' then
        (if env_wiki env \<noteq> None \<or> env_sections env \<noteq> None then Inl (invalid_output ''INVALID_ENVELOPE'' text)
         else (case env_error env of
           None \<Rightarrow> Inl (invalid_output ''INVALID_ENVELOPE'' text)
         | Some c \<Rightarrow> Inl (InvalidOutput (''ERROR_ENVELOPE_'' @ envelope_code_text c) (response_prefix text))))
      else Inl (invalid_output ''INVALID_ENVELOPE'' text))"

definition decode_response :: "codec \<Rightarrow> string \<Rightarrow> compile_failure + compile_evidence" where
  "decode_response K text =
     (if length text > max_response_bytes then Inl (invalid_output ''RESPONSE_TOO_LARGE'' text)
      else (case Option.bind (co_json K text) strict_value of
        None \<Rightarrow> Inl (invalid_output ''MALFORMED_JSON'' text)
      | Some v \<Rightarrow> (case co_envelope K v of
          None \<Rightarrow> Inl (invalid_output ''UNKNOWN_FIELD'' text)
        | Some env \<Rightarrow> decode_envelope text env)))"

section \<open>References and pointers\<close>

definition is_valid_ref_id :: "string \<Rightarrow> bool" where
  "is_valid_ref_id s =
     (2 \<le> length s \<and> length s \<le> 7 \<and> s ! 0 = CHR ''r'' \<and> is_digit (s ! 1) \<and> s ! 1 \<noteq> CHR ''0''
      \<and> list_all is_digit (drop 2 s))"

fun scan_markers :: "string \<Rightarrow> string list" where
  "scan_markers [] = []"
| "scan_markers (c # cs) =
     (if \<not> starts_with (c # cs) marker_open then scan_markers cs
      else (let after = drop (length marker_open) (c # cs)
            in case find_sub after marker_close of
                 None \<Rightarrow> scan_markers cs
               | Some e \<Rightarrow> if is_valid_ref_id (take e after) then take e after # scan_markers cs
                           else scan_markers cs))"

definition pointer_tokens :: "string \<Rightarrow> string list option" where
  "pointer_tokens p =
     (case p of
        [] \<Rightarrow> None
      | c # rest \<Rightarrow> if c = CHR ''/''
          then Some (map (\<lambda>t. replace_pair (CHR ''~'') (CHR ''0'') (CHR ''~'')
                                (replace_pair (CHR ''~'') (CHR ''1'') (CHR ''/'') t)) (split_on (CHR ''/'') rest))
          else None)"

definition array_index :: "string \<Rightarrow> nat option" where
  "array_index t =
     (if t = ''0'' then Some 0
      else if t = [] \<or> starts_with t ''0'' \<or> \<not> list_all is_digit t then None
      else if digits_value 0 t < 2 ^ 64 then Some (digits_value 0 t) else None)"

definition string_leaf :: "json \<Rightarrow> json option" where
  "string_leaf v = (if as_str v \<noteq> None then Some v else None)"

definition resolve_string_leaf :: "raw_entity \<Rightarrow> string \<Rightarrow> json option" where
  "resolve_string_leaf src p =
     (case pointer_tokens p of
        None \<Rightarrow> None
      | Some ts \<Rightarrow>
          if length ts < 2 \<or> ts ! 0 \<noteq> ''fields'' then None
          else (case map_of (raw_fields src) (ts ! 1) of
            None \<Rightarrow> None
          | Some v \<Rightarrow>
              if length ts = 2 then string_leaf v
              else if length ts = 3 then
                Option.bind (array_index (ts ! 2)) (\<lambda>i.
                Option.bind (as_array v) (\<lambda>vs. if i < length vs then string_leaf (vs ! i) else None))
              else None))"

section \<open>Canonical Markdown\<close>

definition newline :: string where "newline = [CHR 0x0A]"

definition render_marker :: "string \<Rightarrow> string" where
  "render_marker i = marker_open @ i @ marker_close"

definition render_assertion :: "assertion \<Rightarrow> string" where
  "render_assertion a = ''- '' @ as_text a @ concat (map render_marker (as_refs a)) @ newline"

definition render_section :: "evidence_section \<Rightarrow> string" where
  "render_section s = ''## '' @ ev_heading s @ newline @ newline @ concat (map render_assertion (ev_assertions s))"

definition render_canonical_markdown :: "compile_evidence \<Rightarrow> string" where
  "render_canonical_markdown ev = join_with newline (map render_section (ce_sections ev))"

definition markdown_structure_ok :: "codec \<Rightarrow> string \<Rightarrow> bool" where
  "markdown_structure_ok K md =
     list_all (\<lambda>e. case e of MdHtml \<Rightarrow> False | MdInlineHtml \<Rightarrow> False | MdCodeBlock \<Rightarrow> False
                     | MdHeading n \<Rightarrow> n = 2 | MdOther \<Rightarrow> True) (co_markdown K md)"

end
