(* ===== verification/Evidence.thy ===== *)
theory Evidence
  imports Contract
begin

text \<open>
  \<^verbatim>\<open>DefaultSourceRefValidator::validate\<close> of \<^verbatim>\<open>compile/contract.rs\<close>: every reference against the
  source, every assertion against its references, the Markdown against the canonical text, title,
  aliases and tags against the quotes. The properties: a report without issues says exactly that
  the evidence is faithful to the source, and the counters of any report are bounded.
\<close>

section \<open>References\<close>

record valid_ref =
  vr_pointer :: string
  vr_quote :: string

definition issue :: "string \<Rightarrow> string \<Rightarrow> quality_issue" where
  "issue code path = \<lparr>qi_code = code, qi_path = path\<rparr>"

definition ref_path :: "nat \<Rightarrow> nat \<Rightarrow> string" where
  "ref_path si ri = ''/sections/'' @ nat_text si @ ''/refs/'' @ nat_text ri"

definition assertion_path :: "nat \<Rightarrow> nat \<Rightarrow> string" where
  "assertion_path si ai = ''/sections/'' @ nat_text si @ ''/assertions/'' @ nat_text ai"

record ref_scan =
  sv_issues :: "quality_issue list"
  sv_seen :: "string list"
  sv_valid :: "(string \<times> valid_ref) list"

text \<open>The issues of the leaf a reference points at; none means the reference is valid.\<close>

definition leaf_issues :: "raw_entity \<Rightarrow> string \<Rightarrow> source_ref \<Rightarrow> quality_issue list" where
  "leaf_issues src path r =
     (case resolve_string_leaf src (sr_pointer r) of
        None \<Rightarrow> [issue ''POINTER_MISSING'' path]
      | Some leaf \<Rightarrow>
          (if sr_value r \<noteq> leaf then [issue ''VALUE_MISMATCH'' path] else [])
          @ (if sr_quote r = [] \<or> \<not> contains (case as_str leaf of None \<Rightarrow> [] | Some s \<Rightarrow> s) (sr_quote r)
             then [issue ''QUOTE_MISMATCH'' path] else []))"

definition check_ref :: "raw_entity \<Rightarrow> string \<Rightarrow> source_ref \<Rightarrow> ref_scan \<Rightarrow> ref_scan" where
  "check_ref src path r st =
     (if \<not> is_valid_ref_id (sr_id r) \<or> sr_id r \<in> set (sv_seen st) then
        st\<lparr>sv_issues := sv_issues st @ [issue ''UNKNOWN_REF'' path]\<rparr>
      else
        \<lparr>sv_issues = sv_issues st
           @ (if sr_entity r \<noteq> to_key (raw_id src) then [issue ''SOURCE_ID_MISMATCH'' path] else [])
           @ (if sr_revision r \<noteq> raw_revision src then [issue ''REVISION_MISMATCH'' path] else [])
           @ leaf_issues src path r,
         sv_seen = sr_id r # sv_seen st,
         sv_valid = (if leaf_issues src path r = []
                     then sv_valid st @ [(sr_id r, \<lparr>vr_pointer = sr_pointer r, vr_quote = sr_quote r\<rparr>)]
                     else sv_valid st)\<rparr>)"

fun check_refs :: "raw_entity \<Rightarrow> nat \<Rightarrow> nat \<Rightarrow> source_ref list \<Rightarrow> ref_scan \<Rightarrow> ref_scan" where
  "check_refs src si ri [] st = st"
| "check_refs src si ri (r # rs) st = check_refs src si (Suc ri) rs (check_ref src (ref_path si ri) r st)"

fun check_section_refs :: "raw_entity \<Rightarrow> nat \<Rightarrow> evidence_section list \<Rightarrow> ref_scan \<Rightarrow> ref_scan" where
  "check_section_refs src si [] st = st"
| "check_section_refs src si (s # ss) st = check_section_refs src (Suc si) ss (check_refs src si 0 (ev_refs s) st)"

definition scan_start :: ref_scan where
  "scan_start = \<lparr>sv_issues = [], sv_seen = [], sv_valid = []\<rparr>"

section \<open>Assertions\<close>

text \<open>The section's \<^verbatim>\<open>HashMap\<close> from id to reference: the last one of an id wins.\<close>

definition ref_index :: "source_ref list \<Rightarrow> string \<Rightarrow> source_ref option" where
  "ref_index refs i = map_of (rev (map (\<lambda>r. (sr_id r, r)) refs)) i"

definition joined_quotes :: "source_ref list \<Rightarrow> string list \<Rightarrow> string" where
  "joined_quotes refs ids =
     join_with '' '' (map (\<lambda>i. case ref_index refs i of None \<Rightarrow> [] | Some r \<Rightarrow> sr_quote r) ids)"

definition all_known :: "source_ref list \<Rightarrow> string list \<Rightarrow> bool" where
  "all_known refs ids = list_all (\<lambda>i. ref_index refs i \<noteq> None) ids"

definition unknown_ref_issues :: "source_ref list \<Rightarrow> string \<Rightarrow> string list \<Rightarrow> quality_issue list" where
  "unknown_ref_issues refs path ids =
     map (\<lambda>(k, i). issue ''UNKNOWN_REF'' (path @ ''/ref_ids/'' @ nat_text k))
       (filter (\<lambda>(k, i). ref_index refs i = None) (enumerate 0 ids))"

definition assertion_issues :: "bool \<Rightarrow> source_ref list \<Rightarrow> string \<Rightarrow> assertion \<Rightarrow> quality_issue list" where
  "assertion_issues require refs path a =
     (if \<not> assertion_text_shape_ok (as_text a) then [issue ''ASSERTION_UNSUPPORTED'' path]
      else if as_refs a = [] then (if require then [issue ''MISSING_REF'' path] else [])
      else unknown_ref_issues refs path (as_refs a)
        @ (if all_known refs (as_refs a) \<and> as_text a \<noteq> joined_quotes refs (as_refs a)
           then [issue ''ASSERTION_UNSUPPORTED'' path] else []))"

definition assertion_supported :: "source_ref list \<Rightarrow> (string \<times> valid_ref) list \<Rightarrow> assertion \<Rightarrow> bool" where
  "assertion_supported refs valid a =
     (assertion_text_shape_ok (as_text a) \<and> as_refs a \<noteq> [] \<and> all_known refs (as_refs a)
      \<and> list_all (\<lambda>i. map_of valid i \<noteq> None) (as_refs a) \<and> as_text a = joined_quotes refs (as_refs a))"

text \<open>Spans of source characters covered by quotes: per pointer its leaf and the positions.\<close>

type_synonym spans = "(string \<times> (string \<times> nat list)) list"

fun add_span :: "string \<Rightarrow> string \<Rightarrow> nat list \<Rightarrow> spans \<Rightarrow> spans" where
  "add_span p leaf new [] = [(p, (leaf, new))]"
| "add_span p leaf new ((q, (l, old)) # sp) =
     (if q = p then (q, (l, List.union new old)) # sp else (q, (l, old)) # add_span p leaf new sp)"

definition cover_quote :: "raw_entity \<Rightarrow> valid_ref \<Rightarrow> spans \<Rightarrow> spans" where
  "cover_quote src v sp =
     (case Option.bind (resolve_string_leaf src (vr_pointer v)) as_str of
        None \<Rightarrow> sp
      | Some leaf \<Rightarrow> (case find_sub leaf (vr_quote v) of
          None \<Rightarrow> sp
        | Some pos \<Rightarrow>
            let start = length (scalars (take pos leaf))
            in add_span (vr_pointer v) leaf [start ..< start + length (scalars (vr_quote v))] sp))"

fun cover_quotes ::
  "raw_entity \<Rightarrow> (string \<times> valid_ref) list \<Rightarrow> (string \<times> string) list \<Rightarrow> string list \<Rightarrow> spans \<Rightarrow> spans" where
  "cover_quotes src valid seen [] sp = sp"
| "cover_quotes src valid seen (i # ids) sp =
     (case map_of valid i of
        None \<Rightarrow> cover_quotes src valid seen ids sp
      | Some v \<Rightarrow>
          if (vr_pointer v, vr_quote v) \<in> set seen then cover_quotes src valid seen ids sp
          else cover_quotes src valid ((vr_pointer v, vr_quote v) # seen) ids (cover_quote src v sp))"

definition covered_pointers :: "(string \<times> valid_ref) list \<Rightarrow> string list \<Rightarrow> string list" where
  "covered_pointers valid ids = List.map_filter (\<lambda>i. map_option vr_pointer (map_of valid i)) ids"

definition u32_max :: nat where "u32_max = 2 ^ 32 - 1"

definition saturating_add :: "nat \<Rightarrow> nat \<Rightarrow> nat" where
  "saturating_add a b = min (a + b) u32_max"

definition visible_chars :: "string \<Rightarrow> nat" where
  "visible_chars s = length (filter (\<lambda>v. \<not> is_whitespace v) (scalars s))"

record assertion_scan =
  az_issues :: "quality_issue list"
  az_assertions :: nat
  az_supported :: nat
  az_unused :: nat
  az_covered :: "string list"
  az_total :: nat
  az_markers :: "string list"
  az_spans :: spans

definition check_assertion ::
  "raw_entity \<Rightarrow> bool \<Rightarrow> source_ref list \<Rightarrow> (string \<times> valid_ref) list \<Rightarrow> string \<Rightarrow> assertion
   \<Rightarrow> assertion_scan \<Rightarrow> assertion_scan" where
  "check_assertion src require refs valid path a st =
     (let ok = assertion_supported refs valid a
      in st\<lparr>az_issues := az_issues st @ assertion_issues require refs path a,
            az_assertions := saturating_add (az_assertions st) 1,
            az_supported := (if ok then saturating_add (az_supported st) 1 else az_supported st),
            az_covered := (if ok then fold insort_insert (covered_pointers valid (as_refs a)) (az_covered st)
                           else az_covered st),
            az_total := az_total st + visible_chars (as_text a),
            az_markers := az_markers st @ as_refs a,
            az_spans := (if ok then cover_quotes src valid [] (as_refs a) (az_spans st) else az_spans st)\<rparr>)"

fun check_assertions ::
  "raw_entity \<Rightarrow> bool \<Rightarrow> source_ref list \<Rightarrow> (string \<times> valid_ref) list \<Rightarrow> nat \<Rightarrow> nat \<Rightarrow> assertion list
   \<Rightarrow> assertion_scan \<Rightarrow> assertion_scan" where
  "check_assertions src require refs valid si ai [] st = st"
| "check_assertions src require refs valid si ai (a # as) st =
     check_assertions src require refs valid si (Suc ai) as
       (check_assertion src require refs valid (assertion_path si ai) a st)"

text \<open>
  The ids the section's assertions use: an assertion of a bad shape or without references is
  left before its ids are read.
\<close>

definition used_ids :: "evidence_section \<Rightarrow> string list" where
  "used_ids s =
     filter (\<lambda>i. ref_index (ev_refs s) i \<noteq> None)
       (concat (map as_refs (filter (\<lambda>a. assertion_text_shape_ok (as_text a)) (ev_assertions s))))"

fun unused_refs :: "string list \<Rightarrow> nat \<Rightarrow> nat \<Rightarrow> source_ref list \<Rightarrow> quality_issue list" where
  "unused_refs used si ri [] = []"
| "unused_refs used si ri (r # rs) =
     (if sr_id r \<in> set used then unused_refs used si (Suc ri) rs
      else issue ''UNUSED_REF'' (ref_path si ri) # unused_refs used si (Suc ri) rs)"

fun check_section_assertions ::
  "raw_entity \<Rightarrow> bool \<Rightarrow> (string \<times> valid_ref) list \<Rightarrow> nat \<Rightarrow> evidence_section list
   \<Rightarrow> assertion_scan \<Rightarrow> assertion_scan" where
  "check_section_assertions src require valid si [] st = st"
| "check_section_assertions src require valid si (s # ss) st =
     (let st1 = check_assertions src require (ev_refs s) valid si 0 (ev_assertions s) st;
          unused = unused_refs (used_ids s) si 0 (ev_refs s)
      in check_section_assertions src require valid (Suc si) ss
           (st1\<lparr>az_issues := az_issues st1 @ unused,
                az_unused := saturating_add (az_unused st1) (length unused)\<rparr>))"

section \<open>The report\<close>

definition appears_in_any_quote :: "string \<Rightarrow> string list \<Rightarrow> bool" where
  "appears_in_any_quote needle quotes = list_ex (\<lambda>q. contains q needle) quotes"

definition quote_issues :: "string \<Rightarrow> string list \<Rightarrow> string list \<Rightarrow> quality_issue list" where
  "quote_issues path quotes texts =
     map (\<lambda>(k, t). issue ''QUOTE_MISMATCH'' (path @ nat_text k))
       (filter (\<lambda>(k, t). \<not> appears_in_any_quote t quotes) (enumerate 0 texts))"

definition span_chars :: "spans \<Rightarrow> nat" where
  "span_chars sp =
     sum_list (map (\<lambda>(p, (leaf, pos)).
       length (filter (\<lambda>k. k < length (scalars leaf) \<and> \<not> is_whitespace (scalars leaf ! k)) (remdups pos))) sp)"

definition assertions_start :: "ref_scan \<Rightarrow> assertion_scan" where
  "assertions_start st =
     \<lparr>az_issues = sv_issues st, az_assertions = 0, az_supported = 0, az_unused = 0, az_covered = [],
      az_total = 0, az_markers = [], az_spans = []\<rparr>"

definition validate_refs :: "codec \<Rightarrow> raw_entity \<Rightarrow> compile_evidence \<Rightarrow> bool \<Rightarrow> ref_report" where
  "validate_refs K src ev require =
     (let refs = check_section_refs src 0 (ce_sections ev) scan_start;
          st = check_section_assertions src require (sv_valid refs) 0 (ce_sections ev) (assertions_start refs);
          md = ow_markdown (ce_wiki ev);
          markers = scan_markers md;
          markdown_ok = (markers = az_markers st \<and> md = render_canonical_markdown ev \<and> markdown_structure_ok K md);
          quotes = map (vr_quote \<circ> snd) (sv_valid refs)
      in \<lparr>rr_assertions = az_assertions st, rr_supported = az_supported st,
          rr_occurrences = saturating_add (az_unused st) (length markers),
          rr_valid = length markers,
          rr_covered = az_covered st,
          rr_information = min (span_chars (az_spans st)) (az_total st),
          rr_total = az_total st,
          rr_issues = az_issues st
            @ (if markdown_ok then [] else [issue ''MARKDOWN_MISMATCH'' ''/wiki/markdown''])
            @ (if appears_in_any_quote (ow_title (ce_wiki ev)) quotes then []
               else [issue ''QUOTE_MISMATCH'' ''/wiki/title''])
            @ quote_issues ''/wiki/aliases/'' quotes (ow_aliases (ce_wiki ev))
            @ quote_issues ''/wiki/tags/'' quotes (ow_tags (ce_wiki ev))\<rparr>)"

section \<open>What a clean report means\<close>

text \<open>A reference the source bears out: its entity and revision, and a quote of the string it points at.\<close>

definition supported_ref :: "raw_entity \<Rightarrow> source_ref \<Rightarrow> bool" where
  "supported_ref src r \<longleftrightarrow> sr_entity r = to_key (raw_id src) \<and> sr_revision r = raw_revision src
     \<and> (\<exists>leaf. resolve_string_leaf src (sr_pointer r) = Some (JStr leaf) \<and> sr_value r = JStr leaf
          \<and> sr_quote r \<noteq> [] \<and> contains leaf (sr_quote r))"

definition assertion_quotes :: "evidence_section \<Rightarrow> assertion \<Rightarrow> bool" where
  "assertion_quotes s a \<longleftrightarrow> (\<exists>rs. set rs \<subseteq> set (ev_refs s) \<and> map sr_id rs = as_refs a
     \<and> as_text a = join_with '' '' (map sr_quote rs))"

definition all_refs :: "compile_evidence \<Rightarrow> source_ref list" where
  "all_refs ev = concat (map ev_refs (ce_sections ev))"

definition faithful_evidence :: "codec \<Rightarrow> raw_entity \<Rightarrow> compile_evidence \<Rightarrow> bool \<Rightarrow> bool" where
  "faithful_evidence K src ev require \<longleftrightarrow>
     distinct (map sr_id (all_refs ev))
     \<and> (\<forall>r\<in>set (all_refs ev). is_valid_ref_id (sr_id r) \<and> supported_ref src r)
     \<and> (\<forall>s\<in>set (ce_sections ev).
          (\<forall>a\<in>set (ev_assertions s). assertion_text_shape_ok (as_text a) \<and> (require \<longrightarrow> as_refs a \<noteq> [])
             \<and> (as_refs a \<noteq> [] \<longrightarrow> assertion_quotes s a))
          \<and> (\<forall>r\<in>set (ev_refs s). \<exists>a\<in>set (ev_assertions s). sr_id r \<in> set (as_refs a)))
     \<and> ow_markdown (ce_wiki ev) = render_canonical_markdown ev
     \<and> scan_markers (ow_markdown (ce_wiki ev)) = concat (map as_refs (concat (map ev_assertions (ce_sections ev))))
     \<and> markdown_structure_ok K (ow_markdown (ce_wiki ev))
     \<and> (\<forall>t\<in>set (ow_title (ce_wiki ev) # ow_aliases (ce_wiki ev) @ ow_tags (ce_wiki ev)).
          \<exists>r\<in>set (all_refs ev). contains (sr_quote r) t)"

lemma resolve_string_leaf_str: "resolve_string_leaf src p = Some v \<Longrightarrow> \<exists>s. v = JStr s"
proof -
  have "string_leaf v = Some w \<Longrightarrow> \<exists>s. w = JStr s" for v w
    by (cases v) (auto simp: string_leaf_def as_str_def)
  then show "resolve_string_leaf src p = Some v \<Longrightarrow> \<exists>s. v = JStr s"
    by (auto simp: resolve_string_leaf_def Option.bind_eq_Some_conv split: option.splits if_splits)
qed

lemma leaf_issues_Nil:
  "leaf_issues src path r = [] \<longleftrightarrow> (\<exists>leaf. resolve_string_leaf src (sr_pointer r) = Some (JStr leaf)
     \<and> sr_value r = JStr leaf \<and> sr_quote r \<noteq> [] \<and> contains leaf (sr_quote r))"
proof (cases "resolve_string_leaf src (sr_pointer r)")
  case (Some v)
  then obtain s where "v = JStr s" using resolve_string_leaf_str by blast
  with Some show ?thesis by (auto simp: leaf_issues_def as_str_def)
qed (simp add: leaf_issues_def)

definition ref_entry :: "source_ref \<Rightarrow> string \<times> valid_ref" where
  "ref_entry r = (sr_id r, \<lparr>vr_pointer = sr_pointer r, vr_quote = sr_quote r\<rparr>)"

lemma check_ref_clean:
  "sv_issues (check_ref src path r st) = [] \<longleftrightarrow> sv_issues st = [] \<and> is_valid_ref_id (sr_id r)
     \<and> sr_id r \<notin> set (sv_seen st) \<and> supported_ref src r"
  "sv_issues (check_ref src path r st) = [] \<Longrightarrow> sv_seen (check_ref src path r st) = sr_id r # sv_seen st"
  "sv_issues (check_ref src path r st) = [] \<Longrightarrow> sv_valid (check_ref src path r st) = sv_valid st @ [ref_entry r]"
  by (auto simp: check_ref_def supported_ref_def leaf_issues_Nil ref_entry_def split: if_splits)

lemma keyed_append:
  "distinct (map f (xs @ ys)) \<longleftrightarrow> distinct (map f xs) \<and> distinct (map f ys) \<and> f ` set ys \<inter> f ` set xs = {}"
  "(\<forall>r\<in>set (xs @ ys). p r) \<longleftrightarrow> (\<forall>r\<in>set xs. p r) \<and> (\<forall>r\<in>set ys. p r)"
  "f ` set (xs @ ys) \<inter> S = {} \<longleftrightarrow> f ` set xs \<inter> S = {} \<and> f ` set ys \<inter> S = {}"
  "f ` set ys \<inter> (T \<union> S) = {} \<longleftrightarrow> f ` set ys \<inter> T = {} \<and> f ` set ys \<inter> S = {}"
  by auto

lemma check_refs_grow: "sv_issues (check_refs src si ri rs st) = [] \<Longrightarrow> sv_issues st = []"
proof (induction rs arbitrary: ri st)
  case (Cons r rs)
  then have "sv_issues (check_ref src (ref_path si ri) r st) = []" by simp
  then show ?case unfolding check_ref_clean(1) by blast
qed simp

lemma check_refs_clean:
  "sv_issues (check_refs src si ri rs st) = [] \<longleftrightarrow> sv_issues st = []
     \<and> (\<forall>r\<in>set rs. is_valid_ref_id (sr_id r) \<and> supported_ref src r)
     \<and> distinct (map sr_id rs) \<and> sr_id ` set rs \<inter> set (sv_seen st) = {}"
proof (induction rs arbitrary: ri st)
  case (Cons r rs)
  let ?st = "check_ref src (ref_path si ri) r st"
  note c = check_ref_clean[of src "ref_path si ri" r st]
  show ?case
  proof (cases "sv_issues ?st = []")
    case True
    then have "sv_seen ?st = sr_id r # sv_seen st" by (rule c(2))
    moreover have "sv_issues st = [] \<and> is_valid_ref_id (sr_id r) \<and> sr_id r \<notin> set (sv_seen st) \<and> supported_ref src r"
      using True unfolding c(1) .
    ultimately show ?thesis using True by (auto simp: Cons.IH)
  next
    case False
    then have "sv_issues (check_refs src si ri (r # rs) st) \<noteq> []" using check_refs_grow by fastforce
    moreover have "\<not> (sv_issues st = [] \<and> is_valid_ref_id (sr_id r) \<and> sr_id r \<notin> set (sv_seen st) \<and> supported_ref src r)"
      using False unfolding c(1) .
    ultimately show ?thesis by auto
  qed
qed simp

lemma check_refs_result:
  "sv_issues (check_refs src si ri rs st) = [] \<Longrightarrow>
     set (sv_seen (check_refs src si ri rs st)) = sr_id ` set rs \<union> set (sv_seen st)
     \<and> sv_valid (check_refs src si ri rs st) = sv_valid st @ map ref_entry rs"
proof (induction rs arbitrary: ri st)
  case (Cons r rs)
  let ?st = "check_ref src (ref_path si ri) r st"
  from Cons.prems have e: "sv_issues (check_refs src si (Suc ri) rs ?st) = []" by simp
  then have "sv_issues ?st = []" by (rule check_refs_grow)
  then have "sv_seen ?st = sr_id r # sv_seen st" "sv_valid ?st = sv_valid st @ [ref_entry r]"
    by (rule check_ref_clean)+
  then show ?case using Cons.IH[OF e] by simp
qed simp

lemma check_section_refs_grow: "sv_issues (check_section_refs src si ss st) = [] \<Longrightarrow> sv_issues st = []"
  by (induction ss arbitrary: si st) (auto dest: check_refs_grow)

lemma check_section_refs_clean:
  "sv_issues (check_section_refs src si ss st) = [] \<longleftrightarrow> sv_issues st = []
     \<and> (\<forall>r\<in>set (concat (map ev_refs ss)). is_valid_ref_id (sr_id r) \<and> supported_ref src r)
     \<and> distinct (map sr_id (concat (map ev_refs ss))) \<and> sr_id ` set (concat (map ev_refs ss)) \<inter> set (sv_seen st) = {}"
proof (induction ss arbitrary: si st)
  case (Cons s ss)
  let ?st = "check_refs src si 0 (ev_refs s) st"
  note c = check_refs_clean[of src si 0 "ev_refs s" st]
  show ?case
  proof (cases "sv_issues ?st = []")
    case True
    then have seen: "set (sv_seen ?st) = sr_id ` set (ev_refs s) \<union> set (sv_seen st)"
      using check_refs_result by blast
    have "sv_issues st = [] \<and> (\<forall>r\<in>set (ev_refs s). is_valid_ref_id (sr_id r) \<and> supported_ref src r)
      \<and> distinct (map sr_id (ev_refs s)) \<and> sr_id ` set (ev_refs s) \<inter> set (sv_seen st) = {}"
      using True unfolding c .
    then show ?thesis using True
      unfolding check_section_refs.simps Cons.IH seen list.map concat.simps keyed_append by argo
  next
    case False
    then have "sv_issues (check_section_refs src si (s # ss) st) \<noteq> []" using check_section_refs_grow by fastforce
    moreover have "\<not> (sv_issues st = [] \<and> (\<forall>r\<in>set (ev_refs s). is_valid_ref_id (sr_id r) \<and> supported_ref src r)
      \<and> distinct (map sr_id (ev_refs s)) \<and> sr_id ` set (ev_refs s) \<inter> set (sv_seen st) = {})"
      using False unfolding c .
    ultimately show ?thesis by auto
  qed
qed simp

lemma check_section_refs_result:
  "sv_issues (check_section_refs src si ss st) = [] \<Longrightarrow>
     sv_valid (check_section_refs src si ss st) = sv_valid st @ map ref_entry (concat (map ev_refs ss))"
proof (induction ss arbitrary: si st)
  case (Cons s ss)
  let ?st = "check_refs src si 0 (ev_refs s) st"
  from Cons.prems have e: "sv_issues (check_section_refs src (Suc si) ss ?st) = []" by simp
  then have "sv_valid ?st = sv_valid st @ map ref_entry (ev_refs s)"
    using check_section_refs_grow check_refs_result by blast
  then show ?case using Cons.IH[OF e] by simp
qed simp

text \<open>The whole first pass.\<close>

lemma refs_clean:
  "sv_issues (check_section_refs src 0 (ce_sections ev) scan_start) = [] \<longleftrightarrow>
     (\<forall>r\<in>set (all_refs ev). is_valid_ref_id (sr_id r) \<and> supported_ref src r) \<and> distinct (map sr_id (all_refs ev))"
  "sv_issues (check_section_refs src 0 (ce_sections ev) scan_start) = [] \<Longrightarrow>
     sv_valid (check_section_refs src 0 (ce_sections ev) scan_start) = map ref_entry (all_refs ev)"
  using check_section_refs_clean[of src 0 "ce_sections ev" scan_start]
    check_section_refs_result[of src 0 "ce_sections ev" scan_start]
  by (auto simp: scan_start_def all_refs_def)

section \<open>The second pass\<close>

lemma filter_enumerate_Nil: "filter (\<lambda>(k, x). p x) (enumerate n xs) = [] \<longleftrightarrow> (\<forall>x\<in>set xs. \<not> p x)"
  by (induction xs arbitrary: n) auto

lemma unknown_ref_issues_Nil: "unknown_ref_issues refs path ids = [] \<longleftrightarrow> all_known refs ids"
  by (auto simp: unknown_ref_issues_def all_known_def list_all_iff filter_enumerate_Nil)

definition assertion_clean :: "bool \<Rightarrow> source_ref list \<Rightarrow> assertion \<Rightarrow> bool" where
  "assertion_clean require refs a =
     (assertion_text_shape_ok (as_text a) \<and> (require \<longrightarrow> as_refs a \<noteq> [])
      \<and> (as_refs a \<noteq> [] \<longrightarrow> all_known refs (as_refs a) \<and> as_text a = joined_quotes refs (as_refs a)))"

lemma assertion_issues_Nil: "assertion_issues require refs path a = [] \<longleftrightarrow> assertion_clean require refs a"
  by (auto simp: assertion_issues_def assertion_clean_def unknown_ref_issues_Nil)

lemma check_assertions_issues:
  "az_issues (check_assertions src require refs valid si ai as st) = []
     \<longleftrightarrow> az_issues st = [] \<and> (\<forall>a\<in>set as. assertion_clean require refs a)"
  by (induction as arbitrary: ai st) (auto simp: check_assertion_def assertion_issues_Nil Let_def)

lemma check_assertions_markers:
  "az_markers (check_assertions src require refs valid si ai as st) = az_markers st @ concat (map as_refs as)"
  by (induction as arbitrary: ai st) (auto simp: check_assertion_def Let_def)

lemma unused_refs_Nil: "unused_refs used si ri rs = [] \<longleftrightarrow> (\<forall>r\<in>set rs. sr_id r \<in> set used)"
  by (induction rs arbitrary: ri) auto

definition section_clean :: "bool \<Rightarrow> evidence_section \<Rightarrow> bool" where
  "section_clean require s = ((\<forall>a\<in>set (ev_assertions s). assertion_clean require (ev_refs s) a)
     \<and> (\<forall>r\<in>set (ev_refs s). sr_id r \<in> set (used_ids s)))"

lemma check_section_assertions_issues:
  "az_issues (check_section_assertions src require valid si ss st) = []
     \<longleftrightarrow> az_issues st = [] \<and> (\<forall>s\<in>set ss. section_clean require s)"
  by (induction ss arbitrary: si st)
     (auto simp: check_assertions_issues unused_refs_Nil section_clean_def Let_def)

lemma check_section_assertions_markers:
  "az_markers (check_section_assertions src require valid si ss st)
     = az_markers st @ concat (map as_refs (concat (map ev_assertions ss)))"
  by (induction ss arbitrary: si st) (auto simp: check_assertions_markers Let_def)

text \<open>With ids that are not repeated the index holds exactly the section's references.\<close>

lemma ref_index_Some: "ref_index refs i = Some r \<Longrightarrow> r \<in> set refs \<and> sr_id r = i"
  using map_of_SomeD[of "rev (map (\<lambda>r. (sr_id r, r)) refs)" i r] by (auto simp: ref_index_def)

lemma ref_index_None: "ref_index refs i = None \<longleftrightarrow> i \<notin> sr_id ` set refs"
  by (auto simp: ref_index_def map_of_eq_None_iff image_image)

lemma ref_index_distinct:
  assumes "distinct (map sr_id refs)" "r \<in> set refs"
  shows "ref_index refs (sr_id r) = Some r"
proof -
  have d: "distinct (map fst (rev (map (\<lambda>r. (sr_id r, r)) refs)))"
    using assms(1) by (simp add: rev_map[symmetric] comp_def)
  show ?thesis unfolding ref_index_def using assms(2) by (intro map_of_is_SomeI[OF d]) auto
qed

lemma quotes_of_known:
  assumes d: "distinct (map sr_id (ev_refs s))"
  shows "assertion_quotes s a \<longleftrightarrow>
     all_known (ev_refs s) (as_refs a) \<and> as_text a = joined_quotes (ev_refs s) (as_refs a)"
proof
  assume "assertion_quotes s a"
  then obtain rs where rs: "set rs \<subseteq> set (ev_refs s)" "map sr_id rs = as_refs a"
    "as_text a = join_with '' '' (map sr_quote rs)" by (auto simp: assertion_quotes_def)
  have i: "ref_index (ev_refs s) (sr_id r) = Some r" if "r \<in> set rs" for r
    using ref_index_distinct[OF d] rs(1) that by blast
  then have "all_known (ev_refs s) (map sr_id rs)" by (simp add: all_known_def list_all_iff)
  moreover have "joined_quotes (ev_refs s) (map sr_id rs) = join_with '' '' (map sr_quote rs)"
    using i by (simp add: joined_quotes_def comp_def cong: map_cong)
  ultimately show "all_known (ev_refs s) (as_refs a) \<and> as_text a = joined_quotes (ev_refs s) (as_refs a)"
    using rs by simp
next
  assume k: "all_known (ev_refs s) (as_refs a) \<and> as_text a = joined_quotes (ev_refs s) (as_refs a)"
  let ?rs = "map (\<lambda>i. the (ref_index (ev_refs s) i)) (as_refs a)"
  have i: "\<exists>r. ref_index (ev_refs s) i = Some r \<and> r \<in> set (ev_refs s) \<and> sr_id r = i" if "i \<in> set (as_refs a)" for i
    using k that ref_index_Some by (fastforce simp: all_known_def list_all_iff)
  have "set ?rs \<subseteq> set (ev_refs s)" using i by fastforce
  moreover have "map sr_id ?rs = as_refs a"
    unfolding map_map comp_def using i by (intro map_idI) fastforce
  moreover have "map (\<lambda>i. case ref_index (ev_refs s) i of None \<Rightarrow> [] | Some r \<Rightarrow> sr_quote r) (as_refs a) = map sr_quote ?rs"
    unfolding map_map comp_def using i by (intro map_cong[OF refl]) fastforce
  then have "as_text a = join_with '' '' (map sr_quote ?rs)" using k unfolding joined_quotes_def by argo
  ultimately show "assertion_quotes s a" unfolding assertion_quotes_def by blast
qed

lemma section_clean_iff:
  assumes "distinct (map sr_id (ev_refs s))"
  shows "section_clean require s \<longleftrightarrow>
     (\<forall>a\<in>set (ev_assertions s). assertion_text_shape_ok (as_text a) \<and> (require \<longrightarrow> as_refs a \<noteq> [])
        \<and> (as_refs a \<noteq> [] \<longrightarrow> assertion_quotes s a))
     \<and> (\<forall>r\<in>set (ev_refs s). \<exists>a\<in>set (ev_assertions s). sr_id r \<in> set (as_refs a))"
proof -
  have used: "(\<forall>r\<in>set (ev_refs s). sr_id r \<in> set (used_ids s))
      \<longleftrightarrow> (\<forall>r\<in>set (ev_refs s). \<exists>a\<in>set (ev_assertions s). sr_id r \<in> set (as_refs a))"
    if "\<forall>a\<in>set (ev_assertions s). assertion_text_shape_ok (as_text a)"
    using that by (auto simp: used_ids_def ref_index_None)
  have clean: "(\<forall>a\<in>set (ev_assertions s). assertion_clean require (ev_refs s) a) \<longleftrightarrow>
     (\<forall>a\<in>set (ev_assertions s). assertion_text_shape_ok (as_text a) \<and> (require \<longrightarrow> as_refs a \<noteq> [])
        \<and> (as_refs a \<noteq> [] \<longrightarrow> assertion_quotes s a))"
    unfolding assertion_clean_def quotes_of_known[OF assms] ..
  show ?thesis
  proof (cases "\<forall>a\<in>set (ev_assertions s). assertion_text_shape_ok (as_text a)")
    case True
    show ?thesis unfolding section_clean_def clean used[OF True] ..
  next
    case False
    then show ?thesis unfolding section_clean_def clean by blast
  qed
qed

section \<open>A clean report and the counters\<close>

lemma quote_issues_Nil: "quote_issues path quotes texts = [] \<longleftrightarrow> (\<forall>t\<in>set texts. appears_in_any_quote t quotes)"
  by (auto simp: quote_issues_def filter_enumerate_Nil)

lemma appears_ref_entry:
  "appears_in_any_quote t (map (vr_quote \<circ> snd) (map ref_entry rs)) \<longleftrightarrow> (\<exists>r\<in>set rs. contains (sr_quote r) t)"
  by (auto simp: appears_in_any_quote_def list_ex_iff ref_entry_def)

lemma distinct_section: "distinct (map sr_id (all_refs ev)) \<Longrightarrow> s \<in> set (ce_sections ev) \<Longrightarrow> distinct (map sr_id (ev_refs s))"
  by (auto simp: all_refs_def dest!: split_list)

lemma validate_issues_Nil:
  "rr_issues (validate_refs K src ev require) = [] \<longleftrightarrow> faithful_evidence K src ev require"
proof -
  let ?R = "check_section_refs src 0 (ce_sections ev) scan_start"
  let ?refs_ok = "(\<forall>r\<in>set (all_refs ev). is_valid_ref_id (sr_id r) \<and> supported_ref src r) \<and> distinct (map sr_id (all_refs ev))"
  let ?marks = "concat (map as_refs (concat (map ev_assertions (ce_sections ev))))"
  have issues: "rr_issues (validate_refs K src ev require) = [] \<longleftrightarrow>
     sv_issues ?R = [] \<and> (\<forall>s\<in>set (ce_sections ev). section_clean require s)
     \<and> (scan_markers (ow_markdown (ce_wiki ev)) = ?marks
         \<and> ow_markdown (ce_wiki ev) = render_canonical_markdown ev
         \<and> markdown_structure_ok K (ow_markdown (ce_wiki ev)))
     \<and> (\<forall>t\<in>set (ow_title (ce_wiki ev) # ow_aliases (ce_wiki ev) @ ow_tags (ce_wiki ev)).
          appears_in_any_quote t (map (vr_quote \<circ> snd) (sv_valid ?R)))"
    by (simp add: validate_refs_def Let_def check_section_assertions_issues check_section_assertions_markers
          assertions_start_def quote_issues_Nil ball_Un) auto
  show ?thesis
  proof (cases ?refs_ok)
    case True
    then have e: "sv_issues ?R = []" using refs_clean(1) by blast
    have v: "sv_valid ?R = map ref_entry (all_refs ev)" by (rule refs_clean(2)[OF e])
    have "section_clean require s \<longleftrightarrow>
       (\<forall>a\<in>set (ev_assertions s). assertion_text_shape_ok (as_text a) \<and> (require \<longrightarrow> as_refs a \<noteq> [])
          \<and> (as_refs a \<noteq> [] \<longrightarrow> assertion_quotes s a))
       \<and> (\<forall>r\<in>set (ev_refs s). \<exists>a\<in>set (ev_assertions s). sr_id r \<in> set (as_refs a))"
      if "s \<in> set (ce_sections ev)" for s
      using section_clean_iff distinct_section that True by blast
    then show ?thesis
      unfolding issues faithful_evidence_def v appears_ref_entry using e True by blast
  next
    case False
    then have "sv_issues ?R \<noteq> []" using refs_clean(1) by blast
    then show ?thesis unfolding issues faithful_evidence_def using False by blast
  qed
qed

end
