(* ===== verification/Quality.thy ===== *)
theory Quality
  imports Evidence Policy
begin

text \<open>
  The rule scorer of \<^verbatim>\<open>compile/quality.rs\<close>: the four ratios, the gates, the finiteness check. The
  ratios are counts divided in \<^verbatim>\<open>f64\<close> and rounded to \<^verbatim>\<open>f32\<close>; the lemmas bound what the rounding can do.
\<close>

section \<open>The scorer\<close>

definition coverable_units :: "raw_entity \<Rightarrow> string list" where
  "coverable_units src = remdups (concat (map (\<lambda>(name, v).
     case v of
       JStr s \<Rightarrow> if s \<noteq> [] then [''/fields/'' @ name] else []
     | JArr items \<Rightarrow> map (\<lambda>(i, _). ''/fields/'' @ name @ ''/'' @ nat_text i)
         (filter (\<lambda>(i, item). case item of JStr s \<Rightarrow> s \<noteq> [] | _ \<Rightarrow> False) (enumerate 0 items))
     | _ \<Rightarrow> []) (raw_fields src)))"

definition coverage_of :: "raw_entity \<Rightarrow> ref_report \<Rightarrow> flt" where
  "coverage_of src refs =
     (let units = coverable_units src;
          covered = remdups (filter (\<lambda>p. p \<in> set units) (rr_covered refs))
      in if units = [] then Fin 0 else f_ratio f64 (length covered) (length units))"

definition citation_of :: "ref_report \<Rightarrow> flt" where
  "citation_of refs =
     (if rr_assertions refs = 0 \<or> rr_occurrences refs = 0 then Fin 0
      else f_min (f_ratio f64 (rr_supported refs) (rr_assertions refs))
                 (f_ratio f64 (rr_valid refs) (rr_occurrences refs)))"

definition density_of :: "ref_report \<Rightarrow> flt" where
  "density_of refs =
     (if rr_total refs = 0 then Fin 0
      else f_ratio f64 (min (rr_information refs) (rr_total refs)) (rr_total refs))"

definition consistency_issues :: "consistency_report \<Rightarrow> compile_policy \<Rightarrow> quality_issue list" where
  "consistency_issues cons pol =
     (case cr_score cons of
        None \<Rightarrow> []
      | Some s \<Rightarrow> if f_lt s (csp_min (cpl_consistency pol))
                  then [issue ''CONSISTENCY_BELOW_THRESHOLD'' ''/consistency''] else [])"

definition passes_gates :: "quality_score \<Rightarrow> quality_issue list \<Rightarrow> compile_context \<Rightarrow> compile_policy \<Rightarrow> bool" where
  "passes_gates q issues cx pol =
     (issues = [] \<and> f_ge (overall q) (cx_threshold cx) \<and> f_ge (qs_coverage q) (cpl_min_coverage pol)
      \<and> f_ge (qs_density q) (cpl_min_density pol) \<and> f_ge (qs_schema q) (Fin 1) \<and> f_ge (qs_citation q) (Fin 1))"

definition score_of :: "raw_entity \<Rightarrow> ref_report \<Rightarrow> consistency_report \<Rightarrow> quality_score" where
  "score_of src refs cons =
     \<lparr>qs_coverage = f_cast f32 (coverage_of src refs), qs_citation = f_cast f32 (citation_of refs),
      qs_schema = f_cast f32 (Fin 1), qs_density = f_cast f32 (density_of refs),
      qs_consistency = cr_score cons\<rparr>"

definition score_with_consistency ::
  "raw_entity \<Rightarrow> compiled_page option \<Rightarrow> ref_report \<Rightarrow> bool \<Rightarrow> consistency_report
   \<Rightarrow> compile_context \<Rightarrow> compile_policy \<Rightarrow> score_report" where
  "score_with_consistency src page refs schema_valid cons cx pol =
     (let issues = rr_issues refs @ consistency_issues cons pol
      in if page = None \<or> \<not> schema_valid then
           \<lparr>sc_quality = \<lparr>qs_coverage = Fin 0, qs_citation = Fin 0, qs_schema = Fin 0, qs_density = Fin 0,
              qs_consistency = cr_score cons\<rparr>, sc_issues = issues, sc_accepted = False\<rparr>
         else \<lparr>sc_quality = score_of src refs cons, sc_issues = issues,
               sc_accepted = passes_gates (score_of src refs cons) issues cx pol\<rparr>)"

definition score :: "raw_entity \<Rightarrow> compiled_page option \<Rightarrow> ref_report \<Rightarrow> bool
   \<Rightarrow> compile_context \<Rightarrow> compile_policy \<Rightarrow> score_report" where
  "score src page refs schema_valid cx pol =
     score_with_consistency src page refs schema_valid consistency_report_default cx pol"

definition score_in_range :: "flt \<Rightarrow> bool" where
  "score_in_range v = (is_finite v \<and> in_unit v)"

definition validate_score_finite :: "score_report \<Rightarrow> kerror + unit" where
  "validate_score_finite r =
     (let q = sc_quality r
      in if \<not> list_all score_in_range [qs_coverage q, qs_citation q, qs_schema q, qs_density q] then Inl Internal
         else (case qs_consistency q of
           None \<Rightarrow> Inr ()
         | Some s \<Rightarrow> if score_in_range s then Inr () else Inl Internal))"

section \<open>Rounding of ratios\<close>

lemma score_in_range_iff: "score_in_range v \<longleftrightarrow> in_unit v"
  by (auto simp: score_in_range_def in_unit_iff)

lemma f_cast_one: "f_cast f32 (Fin 1) = Fin 1"
  by simp

text \<open>A ratio below one stays below one, for denominators up to \<^verbatim>\<open>2^20\<close>.\<close>

definition below_one :: rat where "below_one = 1 - 1 / 2 ^ 20"

lemma binary_exp_below_one: "binary_exp below_one = - 1"
proof -
  have b: "2 powi binary_exp below_one \<le> below_one" "below_one < 2 powi (binary_exp below_one + 1)"
    by (rule binary_exp_bounds; simp add: below_one_def)+
  have "binary_exp below_one < 0"
  proof (rule ccontr)
    assume "\<not> binary_exp below_one < 0"
    then have "(1::rat) \<le> 2 powi binary_exp below_one" by (simp add: power_int_def)
    with b(1) show False by (simp add: below_one_def)
  qed
  moreover have "\<not> binary_exp below_one + 1 < 0"
  proof
    assume "binary_exp below_one + 1 < 0"
    then have "(2::rat) powi (binary_exp below_one + 1) \<le> 2 powi (-1)" by (intro power_int_increasing) auto
    with b(2) show False by (simp add: below_one_def power_int_minus)
  qed
  ultimately show ?thesis by linarith
qed

lemma rnd_below_one: "rnd f32 below_one = below_one" "rnd f64 below_one = below_one"
proof -
  have r: "round_half_even 16777200 = 16777200" "round_half_even 9007190664806400 = 9007190664806400"
    using round_half_even_of_int[of 16777200] round_half_even_of_int[of 9007190664806400] by simp_all
  show "rnd f32 below_one = below_one" "rnd f64 below_one = below_one"
    by (simp_all add: rnd_def rnd_pos_def binary_exp_below_one power_int_minus)
       (simp_all add: below_one_def r)
qed

lemma rnd_of_nat:
  assumes "n < 2 ^ p" "p > 0"
  shows "rnd p (of_nat n) = of_nat n"
proof (cases "n = 0")
  case False
  let ?x = "of_nat n :: rat"
  have pos: "?x > 0" using False by simp
  have "2 powi binary_exp ?x \<le> ?x" using binary_exp_bounds(1)[OF pos] .
  also have "?x < 2 ^ p" using assms(1) by (metis of_nat_less_iff of_nat_numeral of_nat_power)
  finally have "(2::rat) powi binary_exp ?x < 2 powi int p" by (simp add: power_int_def)
  then have "binary_exp ?x < int p"
    using power_int_increasing[of "int p" "binary_exp ?x" "2::rat"] by linarith
  then obtain k where k: "binary_exp ?x - int p + 1 = - int k"
    using that[of "nat (int p - 1 - binary_exp ?x)"] by auto
  have u: "2 powi (binary_exp ?x - int p + 1) = 1 / (2::rat) ^ k"
    by (simp add: k power_int_minus inverse_eq_divide)
  have "?x / (1 / 2 ^ k) = of_int (int n * 2 ^ k)" by simp
  then have "round_half_even (?x / (1 / 2 ^ k)) = int n * 2 ^ k" by (metis round_half_even_of_int)
  then have "rnd_pos p ?x = ?x" by (simp add: rnd_pos_def Let_def u)
  then show ?thesis using pos by (simp add: rnd_def)
qed simp

lemma f_ratio_below_one:
  assumes "a < b" "b \<le> 2 ^ 20" "p = f32 \<or> p = f64"
  shows "\<exists>r. f_ratio p a b = Fin r \<and> 0 \<le> r \<and> r \<le> below_one"
proof -
  have p: "rnd p below_one = below_one" "p > 0" "(2::nat) ^ 20 < 2 ^ p" using assms(3) rnd_below_one by auto
  have e: "rnd p (of_nat a) = of_nat a" "rnd p (of_nat b) = of_nat b"
    using assms(1,2) p by (intro rnd_of_nat; linarith)+
  have b: "(of_nat b :: rat) \<le> 2 ^ 20"
    using assms(2) by (metis of_nat_le_iff of_nat_numeral of_nat_power)
  have a: "(of_nat a :: rat) \<le> of_nat b - 1" using assms(1) by (metis One_nat_def Suc_leI add_le_cancel_left le_diff_eq of_nat_1 of_nat_add of_nat_le_iff plus_1_eq_Suc add.commute)
  have "of_nat a / of_nat b \<le> (of_nat b - 1) / (of_nat b :: rat)" using a assms(1) by (intro divide_right_mono) auto
  also have "\<dots> = 1 - 1 / of_nat b" using assms(1) by (simp add: diff_divide_distrib)
  also have "\<dots> \<le> below_one" unfolding below_one_def
    using b assms(1) by (intro diff_left_mono divide_left_mono) auto
  finally have "rnd p (of_nat a / of_nat b) \<le> below_one" using rnd_mono[of p] p by metis
  moreover have "0 \<le> rnd p (of_nat a / of_nat b :: rat)" using p(2) by (intro rnd_nonneg) simp_all
  ultimately show ?thesis using assms(1) by (simp add: f_ratio_def f_of_nat_def e)
qed

text \<open>The rounded citation reaches one only when every assertion is supported.\<close>

lemma citation_one:
  assumes "rr_assertions refs \<le> 2 ^ 20" "rr_supported refs \<le> rr_assertions refs"
    and "f_ge (f_cast f32 (citation_of refs)) (Fin 1)"
  shows "0 < rr_assertions refs \<and> 0 < rr_occurrences refs \<and> rr_supported refs = rr_assertions refs"
proof -
  have nz: "rr_assertions refs \<noteq> 0" "rr_occurrences refs \<noteq> 0"
    using assms(3) by (auto simp: citation_of_def split: if_splits)
  have "rr_supported refs = rr_assertions refs"
  proof (rule ccontr)
    assume "rr_supported refs \<noteq> rr_assertions refs"
    then obtain r where r: "f_ratio f64 (rr_supported refs) (rr_assertions refs) = Fin r" "r \<le> below_one"
      using f_ratio_below_one[of "rr_supported refs" "rr_assertions refs"] assms(1,2) by auto
    have below: "below_one < 1" by (simp add: below_one_def)
    have "\<not> f_le (Fin 1) (f_cast f32 (f_min (Fin r) w))" for w
    proof -
      have "rnd f32 q < 1" if "q \<le> r" for q
        using rnd_mono[of f32 q below_one] rnd_below_one(1) below that r(2) by simp
      then show ?thesis by (cases w) (auto simp: f_min_def not_le)
    qed
    then show False using assms(3) nz by (simp add: citation_of_def r(1) f_ge_def)
  qed
  with nz show ?thesis by simp
qed

lemma citation_full:
  "0 < rr_assertions refs \<Longrightarrow> 0 < rr_occurrences refs \<Longrightarrow> rr_supported refs = rr_assertions refs
   \<Longrightarrow> rr_valid refs = rr_occurrences refs \<Longrightarrow> f_cast f32 (citation_of refs) = Fin 1"
  by (simp add: citation_of_def f_min_def)

lemma score_dims_unit:
  assumes "rr_supported refs \<le> rr_assertions refs" "rr_valid refs \<le> rr_occurrences refs"
  shows "in_unit (qs_coverage (score_of src refs cons))" "in_unit (qs_citation (score_of src refs cons))"
    "in_unit (qs_density (score_of src refs cons))" "in_unit (qs_schema (score_of src refs cons))"
proof -
  have "length (remdups (filter (\<lambda>p. p \<in> set (coverable_units src)) (rr_covered refs))) \<le> length (coverable_units src)"
    by (rule order_trans[OF _ card_length[of "coverable_units src"]])
       (auto simp: length_remdups_card_conv intro!: card_mono)
  then have "in_unit (coverage_of src refs)"
    by (auto simp: coverage_of_def Let_def intro!: f_ratio_unit)
  then show "in_unit (qs_coverage (score_of src refs cons))" by (simp add: score_of_def f_cast_unit)
  have "in_unit (citation_of refs)"
    using assms by (auto simp: citation_of_def intro!: f_min_unit f_ratio_unit)
  then show "in_unit (qs_citation (score_of src refs cons))" by (simp add: score_of_def f_cast_unit)
  have "in_unit (density_of refs)" by (auto simp: density_of_def intro!: f_ratio_unit)
  then show "in_unit (qs_density (score_of src refs cons))" by (simp add: score_of_def f_cast_unit)
qed (simp add: score_of_def)

end
