(* ===== verification/Report.thy ===== *)
theory Report
  imports Quality
begin

text \<open>
  What the counters of a report say, what a decoded response is bounded by, and when the scorer
  accepts a page: the lemmas that join \<^verbatim>\<open>contract.rs\<close> and \<^verbatim>\<open>quality.rs\<close>.
\<close>

section \<open>Counters\<close>

lemma saturating_add_mono: "a \<le> b \<Longrightarrow> saturating_add a n \<le> saturating_add b n"
  by (auto simp: saturating_add_def)

lemma saturating_add_le: "a \<le> b \<Longrightarrow> a \<le> u32_max \<Longrightarrow> a \<le> saturating_add b n"
  by (auto simp: saturating_add_def)

definition counts_ok :: "assertion_scan \<Rightarrow> bool" where
  "counts_ok st = (az_supported st \<le> az_assertions st \<and> az_assertions st \<le> u32_max)"

lemma check_assertion_counts: "counts_ok st \<Longrightarrow> counts_ok (check_assertion src require refs valid path a st)"
  using saturating_add_mono[of "az_supported st" "az_assertions st" 1]
    saturating_add_le[of "az_supported st" "az_assertions st" 1]
  by (auto simp: counts_ok_def check_assertion_def Let_def) (auto simp: saturating_add_def)

lemma check_assertions_counts: "counts_ok st \<Longrightarrow> counts_ok (check_assertions src require refs valid si ai as st)"
  by (induction as arbitrary: ai st) (simp_all add: check_assertion_counts)

lemma check_section_assertions_counts:
  "counts_ok st \<Longrightarrow> counts_ok (check_section_assertions src require valid si ss st)"
proof (induction ss arbitrary: si st)
  case (Cons s ss)
  from check_assertions_counts[OF Cons.prems]
  show ?case unfolding check_section_assertions.simps Let_def by (intro Cons.IH) (simp add: counts_ok_def)
qed simp

lemma check_assertions_number:
  "az_assertions st \<le> u32_max \<Longrightarrow>
   az_assertions (check_assertions src require refs valid si ai as st) = min (az_assertions st + length as) u32_max"
  by (induction as arbitrary: ai st) (auto simp: check_assertion_def Let_def saturating_add_def)

definition assertions_total :: "evidence_section list \<Rightarrow> nat" where
  "assertions_total ss = sum_list (map (length \<circ> ev_assertions) ss)"

lemma check_section_assertions_number:
  "az_assertions st \<le> u32_max \<Longrightarrow>
   az_assertions (check_section_assertions src require valid si ss st)
     = min (az_assertions st + assertions_total ss) u32_max"
  by (induction ss arbitrary: si st) (auto simp: check_assertions_number assertions_total_def Let_def)

lemma report_counts:
  "rr_supported (validate_refs K src ev require) \<le> rr_assertions (validate_refs K src ev require)"
  "rr_assertions (validate_refs K src ev require) = min (assertions_total (ce_sections ev)) u32_max"
  "rr_information (validate_refs K src ev require) \<le> rr_total (validate_refs K src ev require)"
proof -
  let ?refs = "check_section_refs src 0 (ce_sections ev) scan_start"
  have "counts_ok (check_section_assertions src require (sv_valid ?refs) 0 (ce_sections ev) (assertions_start ?refs))"
    by (rule check_section_assertions_counts) (simp add: counts_ok_def assertions_start_def u32_max_def)
  then show "rr_supported (validate_refs K src ev require) \<le> rr_assertions (validate_refs K src ev require)"
    by (simp add: validate_refs_def Let_def counts_ok_def)
  show "rr_assertions (validate_refs K src ev require) = min (assertions_total (ce_sections ev)) u32_max"
    by (simp add: validate_refs_def Let_def check_section_assertions_number assertions_start_def u32_max_def)
  show "rr_information (validate_refs K src ev require) \<le> rr_total (validate_refs K src ev require)"
    by (simp add: validate_refs_def Let_def)
qed

text \<open>Markers are counted in \<^verbatim>\<open>u32\<close>; every one takes at least eight bytes of the Markdown.\<close>

lemma scan_markers_length: "length (scan_markers md) \<le> length md"
  by (induction md) (auto simp: Let_def split: option.splits)

lemma report_valid_le:
  "length (ow_markdown (ce_wiki ev)) \<le> u32_max \<Longrightarrow>
   rr_valid (validate_refs K src ev require) \<le> rr_occurrences (validate_refs K src ev require)"
  using scan_markers_length[of "ow_markdown (ce_wiki ev)"]
  by (simp add: validate_refs_def Let_def saturating_add_def)

section \<open>Counters of a clean report\<close>

lemma valid_known:
  "map_of (map ref_entry rs) i \<noteq> None \<longleftrightarrow> i \<in> sr_id ` set rs"
  by (auto simp: map_of_eq_None_iff ref_entry_def image_image)

lemma all_valid:
  assumes "s \<in> set (ce_sections ev)" "all_known (ev_refs s) ids"
  shows "list_all (\<lambda>i. map_of (map ref_entry (all_refs ev)) i \<noteq> None) ids"
  using assms by (auto simp: list_all_iff all_known_def ref_index_None valid_known all_refs_def
      map_of_eq_None_iff ref_entry_def image_iff dest!: bspec)

lemma clean_supported:
  assumes "s \<in> set (ce_sections ev)" "assertion_clean True (ev_refs s) a"
  shows "assertion_supported (ev_refs s) (map ref_entry (all_refs ev)) a"
  using assms(2) all_valid[OF assms(1)] unfolding assertion_clean_def assertion_supported_def by blast

lemma check_assertions_full:
  assumes "\<forall>a\<in>set as. assertion_supported refs valid a" "az_supported st = az_assertions st"
  shows "az_supported (check_assertions src require refs valid si ai as st)
     = az_assertions (check_assertions src require refs valid si ai as st)"
  using assms by (induction as arbitrary: ai st) (auto simp: check_assertion_def Let_def)

lemma check_assertions_unused [simp]:
  "az_unused (check_assertions src require refs valid si ai as st) = az_unused st"
  by (induction as arbitrary: ai st) (auto simp: check_assertion_def Let_def)

lemma check_section_assertions_full:
  assumes "set ss \<subseteq> set (ce_sections ev)" "\<forall>s\<in>set ss. section_clean True s"
    and "az_supported st = az_assertions st" "az_unused st = 0"
  shows "az_supported (check_section_assertions src require (map ref_entry (all_refs ev)) si ss st)
       = az_assertions (check_section_assertions src require (map ref_entry (all_refs ev)) si ss st)
     \<and> az_unused (check_section_assertions src require (map ref_entry (all_refs ev)) si ss st) = 0"
  using assms
proof (induction ss arbitrary: si st)
  case (Cons s ss)
  have "\<forall>a\<in>set (ev_assertions s). assertion_supported (ev_refs s) (map ref_entry (all_refs ev)) a"
    using Cons.prems(1,2) clean_supported by (auto simp: section_clean_def)
  then have "az_supported (check_assertions src require (ev_refs s) (map ref_entry (all_refs ev)) si 0 (ev_assertions s) st)
    = az_assertions (check_assertions src require (ev_refs s) (map ref_entry (all_refs ev)) si 0 (ev_assertions s) st)"
    using check_assertions_full Cons.prems(3) by blast
  moreover have "unused_refs (used_ids s) si 0 (ev_refs s) = []"
    using Cons.prems(2) by (simp add: unused_refs_Nil section_clean_def)
  ultimately show ?case using Cons.IH Cons.prems by (simp add: Let_def saturating_add_def)
qed simp


lemma faithful_sections:
  assumes "faithful_evidence K src ev require"
  shows "\<forall>s\<in>set (ce_sections ev). section_clean require s"
    and "sv_valid (check_section_refs src 0 (ce_sections ev) scan_start) = map ref_entry (all_refs ev)"
proof -
  from assms have d: "distinct (map sr_id (all_refs ev))" by (simp add: faithful_evidence_def)
  show "\<forall>s\<in>set (ce_sections ev). section_clean require s"
  proof
    fix s assume s: "s \<in> set (ce_sections ev)"
    show "section_clean require s"
      unfolding section_clean_iff[OF distinct_section[OF d s]]
      using assms s unfolding faithful_evidence_def by blast
  qed
  have "sv_issues (check_section_refs src 0 (ce_sections ev) scan_start) = []"
    unfolding refs_clean(1) using assms unfolding faithful_evidence_def by blast
  then show "sv_valid (check_section_refs src 0 (ce_sections ev) scan_start) = map ref_entry (all_refs ev)"
    by (rule refs_clean(2))
qed

lemma report_full:
  assumes f: "faithful_evidence K src ev True"
    and md: "length (ow_markdown (ce_wiki ev)) \<le> u32_max"
  shows "rr_supported (validate_refs K src ev require) = rr_assertions (validate_refs K src ev require)"
    "rr_valid (validate_refs K src ev require) = rr_occurrences (validate_refs K src ev require)"
proof -
  have "az_supported (assertions_start (check_section_refs src 0 (ce_sections ev) scan_start))
      = az_assertions (assertions_start (check_section_refs src 0 (ce_sections ev) scan_start))"
    "az_unused (assertions_start (check_section_refs src 0 (ce_sections ev) scan_start)) = 0"
    by (simp_all add: assertions_start_def)
  note full = check_section_assertions_full[OF subset_refl faithful_sections(1)[OF f] this, of src require 0]
  show "rr_supported (validate_refs K src ev require) = rr_assertions (validate_refs K src ev require)"
    using full by (simp add: validate_refs_def Let_def faithful_sections(2)[OF f])
  show "rr_valid (validate_refs K src ev require) = rr_occurrences (validate_refs K src ev require)"
    using full md scan_markers_length[of "ow_markdown (ce_wiki ev)"]
    by (simp add: validate_refs_def Let_def faithful_sections(2)[OF f] saturating_add_def)
qed

lemma faithful_weaken: "faithful_evidence K src ev True \<Longrightarrow> faithful_evidence K src ev require"
  unfolding faithful_evidence_def by blast

text \<open>Without \<^verbatim>\<open>require_refs\<close> a clean report may have assertions without references, all unsupported.\<close>

lemma check_assertions_gap:
  "az_assertions st + length as \<le> u32_max \<Longrightarrow> az_supported st < az_assertions st \<Longrightarrow>
   az_supported (check_assertions src require refs valid si ai as st)
     < az_assertions (check_assertions src require refs valid si ai as st)"
  by (induction as arbitrary: ai st) (auto simp: check_assertion_def Let_def saturating_add_def)

lemma check_assertions_missing:
  "az_assertions st + length as \<le> u32_max \<Longrightarrow> az_supported st \<le> az_assertions st \<Longrightarrow>
   \<exists>a\<in>set as. as_refs a = [] \<Longrightarrow>
   az_supported (check_assertions src require refs valid si ai as st)
     < az_assertions (check_assertions src require refs valid si ai as st)"
proof (induction as arbitrary: ai st)
  case (Cons a as)
  show ?case
  proof (cases "as_refs a = []")
    case True
    then show ?thesis using Cons.prems unfolding check_assertions.simps
      by (intro check_assertions_gap) (auto simp: check_assertion_def assertion_supported_def Let_def saturating_add_def)
  next
    case False
    then show ?thesis using Cons.prems unfolding check_assertions.simps
      by (intro Cons.IH) (auto simp: check_assertion_def Let_def saturating_add_def)
  qed
qed simp

lemma check_section_assertions_gap:
  "az_assertions st + assertions_total ss \<le> u32_max \<Longrightarrow> az_supported st < az_assertions st \<Longrightarrow>
   az_supported (check_section_assertions src require valid si ss st)
     < az_assertions (check_section_assertions src require valid si ss st)"
proof (induction ss arbitrary: si st)
  case (Cons s ss)
  have "az_supported (check_assertions src require (ev_refs s) valid si 0 (ev_assertions s) st)
      < az_assertions (check_assertions src require (ev_refs s) valid si 0 (ev_assertions s) st)"
    using Cons.prems by (intro check_assertions_gap) (simp_all add: assertions_total_def)
  then show ?case unfolding check_section_assertions.simps Let_def using Cons.prems
    by (intro Cons.IH) (simp_all add: check_assertions_number assertions_total_def)
qed simp

lemma check_section_assertions_missing:
  "az_assertions st + assertions_total ss \<le> u32_max \<Longrightarrow> counts_ok st \<Longrightarrow>
   \<exists>s\<in>set ss. \<exists>a\<in>set (ev_assertions s). as_refs a = [] \<Longrightarrow>
   az_supported (check_section_assertions src require valid si ss st)
     < az_assertions (check_section_assertions src require valid si ss st)"
proof (induction ss arbitrary: si st)
  case (Cons s ss)
  let ?st = "check_assertions src require (ev_refs s) valid si 0 (ev_assertions s) st"
  have room: "az_assertions ?st + assertions_total ss \<le> u32_max"
    using Cons.prems by (simp add: check_assertions_number assertions_total_def)
  show ?case
  proof (cases "\<exists>a\<in>set (ev_assertions s). as_refs a = []")
    case True
    then have "az_supported ?st < az_assertions ?st"
      using Cons.prems by (intro check_assertions_missing) (simp_all add: assertions_total_def counts_ok_def)
    then show ?thesis unfolding check_section_assertions.simps Let_def using room
      by (intro check_section_assertions_gap) simp_all
  next
    case False
    then show ?thesis unfolding check_section_assertions.simps Let_def
      using room Cons.prems check_assertions_counts[OF Cons.prems(2)]
      by (intro Cons.IH) (auto simp: counts_ok_def)
  qed
qed simp

lemma report_missing:
  assumes "assertions_total (ce_sections ev) \<le> u32_max"
    and "rr_supported (validate_refs K src ev require) = rr_assertions (validate_refs K src ev require)"
    and "faithful_evidence K src ev require"
  shows "faithful_evidence K src ev True"
proof -
  let ?refs = "check_section_refs src 0 (ce_sections ev) scan_start"
  have "counts_ok (assertions_start ?refs)" "az_assertions (assertions_start ?refs) + assertions_total (ce_sections ev) \<le> u32_max"
    using assms(1) by (simp_all add: assertions_start_def counts_ok_def)
  note missing = check_section_assertions_missing[OF this(2,1), of src require "sv_valid ?refs" 0]
  have "\<not> (\<exists>s\<in>set (ce_sections ev). \<exists>a\<in>set (ev_assertions s). as_refs a = [])"
  proof
    assume "\<exists>s\<in>set (ce_sections ev). \<exists>a\<in>set (ev_assertions s). as_refs a = []"
    from missing[OF this] assms(2) show False by (simp add: validate_refs_def Let_def)
  qed
  with assms(3) show ?thesis unfolding faithful_evidence_def by blast
qed

section \<open>Decoded responses\<close>

definition within_limits :: "output_wiki \<Rightarrow> evidence_section list \<Rightarrow> bool" where
  "within_limits w ss \<longleftrightarrow>
     plain_text_ok (ow_title w) max_title_scalars
     \<and> length (ow_aliases w) \<le> 32 \<and> (\<forall>a\<in>set (ow_aliases w). plain_text_ok a max_title_scalars)
     \<and> length (ow_tags w) \<le> 32 \<and> (\<forall>t\<in>set (ow_tags w). plain_text_ok t max_title_scalars)
     \<and> 1 \<le> length ss \<and> length ss \<le> 32 \<and> distinct (map ev_heading ss)
     \<and> (\<forall>s\<in>set ss. plain_text_ok (ev_heading s) max_title_scalars
          \<and> 1 \<le> length (ev_assertions s) \<and> length (ev_assertions s) \<le> 64
          \<and> (\<forall>a\<in>set (ev_assertions s). assertion_text_shape_ok (as_text a)))
     \<and> assertions_total ss \<le> 256 \<and> sum_list (map (length \<circ> ev_refs) ss) \<le> 512"

lemma check_section_limits_Ok:
  "check_section_limits seen na nr ss = Inr () \<longleftrightarrow>
     distinct (map ev_heading ss) \<and> set (map ev_heading ss) \<inter> set seen = {}
     \<and> (\<forall>s\<in>set ss. plain_text_ok (ev_heading s) max_title_scalars
          \<and> 1 \<le> length (ev_assertions s) \<and> length (ev_assertions s) \<le> 64
          \<and> (\<forall>a\<in>set (ev_assertions s). assertion_text_shape_ok (as_text a)))
     \<and> (ss = [] \<or> na + assertions_total ss \<le> 256 \<and> nr + sum_list (map (length \<circ> ev_refs) ss) \<le> 512)"
proof (induction ss arbitrary: seen na nr)
  case (Cons s ss)
  show ?case
    by (simp add: Let_def Cons.IH list_ex_iff assertions_total_def Suc_le_eq not_less)
       (cases "ss = []"; auto)
qed simp

lemma check_output_limits_Ok: "check_output_limits w ss = Inr () \<longleftrightarrow> within_limits w ss"
  by (simp add: check_output_limits_def within_limits_def check_section_limits_Ok list_ex_iff not_less Suc_le_eq)

lemma decoded_assertions:
  assumes "decode_response K text = Inr ev"
  shows "0 < assertions_total (ce_sections ev) \<and> assertions_total (ce_sections ev) \<le> 256"
proof -
  have limits: "check_output_limits w ss = Inr u \<Longrightarrow> within_limits w ss" for w ss u
    using check_output_limits_Ok[of w ss] by (cases u) simp
  have "within_limits (ce_wiki ev) (ce_sections ev)"
    using assms by (auto simp: decode_response_def decode_envelope_def
        split: if_splits option.splits sum.splits dest!: limits)
  then show ?thesis
    by (cases "ce_sections ev") (auto simp: within_limits_def assertions_total_def Suc_le_eq)
qed

section \<open>Acceptance\<close>

lemma marker_count:
  assumes "faithful_evidence K src ev True" "0 < assertions_total (ce_sections ev)"
  shows "0 < rr_occurrences (validate_refs K src ev require)"
proof -
  have "\<exists>s\<in>set (ce_sections ev). ev_assertions s \<noteq> []"
  proof (rule ccontr)
    assume "\<not> (\<exists>s\<in>set (ce_sections ev). ev_assertions s \<noteq> [])"
    then have "assertions_total (ce_sections ev) = 0" by (simp add: assertions_total_def)
    with assms(2) show False by simp
  qed
  then obtain s a where s: "s \<in> set (ce_sections ev)" "a \<in> set (ev_assertions s)"
    by (metis list.set_intros(1) neq_Nil_conv)
  then have "as_refs a \<noteq> []" using assms(1) unfolding faithful_evidence_def by blast
  then have "concat (map as_refs (concat (map ev_assertions (ce_sections ev)))) \<noteq> []" using s by auto
  then have "scan_markers (ow_markdown (ce_wiki ev)) \<noteq> []"
    using assms(1) unfolding faithful_evidence_def by metis
  then show ?thesis by (simp add: validate_refs_def Let_def saturating_add_def u32_max_def)
qed

definition consistency_kept :: "consistency_report \<Rightarrow> compile_policy \<Rightarrow> bool" where
  "consistency_kept cons pol = (\<forall>s. cr_score cons = Some s \<longrightarrow> \<not> f_lt s (csp_min (cpl_consistency pol)))"

lemma consistency_issues_Nil: "consistency_issues cons pol = [] \<longleftrightarrow> consistency_kept cons pol"
  by (auto simp: consistency_issues_def consistency_kept_def split: option.splits)

lemma accepted_iff:
  fixes K src ev require cons
  defines "r \<equiv> validate_refs K src ev require"
  assumes n: "0 < assertions_total (ce_sections ev)" "assertions_total (ce_sections ev) \<le> 2 ^ 20"
    and md: "length (ow_markdown (ce_wiki ev)) \<le> u32_max"
  shows "sc_accepted (score_with_consistency src page r schema_valid cons cx pol) \<longleftrightarrow>
     page \<noteq> None \<and> schema_valid \<and> faithful_evidence K src ev True \<and> consistency_kept cons pol
     \<and> f_ge (overall (score_of src r cons)) (cx_threshold cx)
     \<and> f_ge (f_cast f32 (coverage_of src r)) (cpl_min_coverage pol)
     \<and> f_ge (f_cast f32 (density_of r)) (cpl_min_density pol)"
proof -
  have num: "rr_assertions r = assertions_total (ce_sections ev)"
    using n(2) by (simp add: r_def report_counts(2) u32_max_def min_def)
  have issues: "rr_issues r = [] \<longleftrightarrow> faithful_evidence K src ev require"
    by (simp add: r_def validate_issues_Nil)
  have cit: "f_ge (f_cast f32 (citation_of r)) (Fin 1) \<longleftrightarrow> faithful_evidence K src ev True"
    if f: "faithful_evidence K src ev require"
  proof
    assume "f_ge (f_cast f32 (citation_of r)) (Fin 1)"
    then have "rr_supported r = rr_assertions r"
      using citation_one n(2) num report_counts(1) by (metis r_def)
    then show "faithful_evidence K src ev True"
      using report_missing[OF _ _ f] n(2) by (simp add: r_def u32_max_def)
  next
    assume t: "faithful_evidence K src ev True"
    then have "f_cast f32 (citation_of r) = Fin 1"
      using report_full[OF t md] marker_count[OF t n(1)] num n(1)
      by (intro citation_full) (simp_all add: r_def)
    then show "f_ge (f_cast f32 (citation_of r)) (Fin 1)" by simp
  qed
  show ?thesis
  proof (cases "faithful_evidence K src ev require")
    case True
    then show ?thesis
      by (auto simp: score_with_consistency_def Let_def passes_gates_def issues cit score_of_def consistency_issues_Nil)
  next
    case False
    then have "\<not> faithful_evidence K src ev True" using faithful_weaken by blast
    with False show ?thesis
      by (auto simp: score_with_consistency_def Let_def passes_gates_def issues)
  qed
qed

end
