(* ===== verification/Consistency.thy ===== *)
theory Consistency
  imports Report Hash "HOL-Library.Multiset" "HOL-Library.Product_Lexorder"
begin

text \<open>
  The cross-page arbitration of \<^verbatim>\<open>compile/consistency.rs\<close>: the source references of the candidate and
  of the related pages grouped by entity and pointer, one vote per page and distinct value, and the
  report over the groups with two votes or more. The lemmas reduce the report to what the pages cite.
\<close>

section \<open>Collecting the references\<close>

type_synonym claim_id = "string \<times> string"

record occurrence =
  oc_value :: string
  oc_candidate :: bool

definition is_comparable_pointer :: "string \<Rightarrow> string list \<Rightarrow> bool" where
  "is_comparable_pointer p ps =
     (length ''/fields/'' < length p \<and> starts_with p ''/fields/'' \<and> list_ex (\<lambda>q. q = p) ps)"

definition page_refs :: "compiled_page \<Rightarrow> source_ref list" where
  "page_refs page = (case cp_evidence page of None \<Rightarrow> [] | Some ev \<Rightarrow> concat (map ev_refs (ce_sections ev)))"

definition claim_id_of :: "source_ref \<Rightarrow> claim_id" where
  "claim_id_of r = (sr_entity r, sr_pointer r)"

text \<open>\<^verbatim>\<open>entry(k).or_default()\<close>: the list of a key, empty when it has none.\<close>

definition entry_of :: "(claim_id \<times> 'v list) list \<Rightarrow> claim_id \<Rightarrow> 'v list" where
  "entry_of m k = (case map_of m k of None \<Rightarrow> [] | Some vs \<Rightarrow> vs)"

fun page_values ::
  "ext \<Rightarrow> consistency_policy \<Rightarrow> source_ref list \<Rightarrow> (claim_id \<times> string list) list
   \<Rightarrow> (claim_id \<times> string list) list result" where
  "page_values X pol [] m = Inr m"
| "page_values X pol (r # rs) m =
     (if \<not> is_comparable_pointer (sr_pointer r) (csp_pointers pol) then page_values X pol rs m
      else (case canonical_json X (sr_value r) of
              Inl _ \<Rightarrow> Inl Validation
            | Inr b \<Rightarrow> page_values X pol rs
                (bt_insert (claim_id_of r) (insort_insert b (entry_of m (claim_id_of r))) m)))"

fun push_groups ::
  "bool \<Rightarrow> (claim_id \<times> string list) list \<Rightarrow> (claim_id \<times> occurrence list) list
   \<Rightarrow> (claim_id \<times> occurrence list) list" where
  "push_groups c [] g = g"
| "push_groups c ((k, vs) # m) g =
     push_groups c m (bt_insert k (entry_of g k @ map (\<lambda>v. \<lparr>oc_value = v, oc_candidate = c\<rparr>) vs) g)"

definition collect_page_refs ::
  "ext \<Rightarrow> compiled_page \<Rightarrow> bool \<Rightarrow> consistency_policy \<Rightarrow> (claim_id \<times> occurrence list) list
   \<Rightarrow> (claim_id \<times> occurrence list) list result" where
  "collect_page_refs X page c pol g =
     try_bind (page_values X pol (page_refs page) []) (\<lambda>m. Inr (push_groups c m g))"

fun collect_related ::
  "ext \<Rightarrow> consistency_policy \<Rightarrow> compiled_page list \<Rightarrow> (claim_id \<times> occurrence list) list
   \<Rightarrow> (claim_id \<times> occurrence list) list result" where
  "collect_related X pol [] g = Inr g"
| "collect_related X pol (p # ps) g =
     try_bind (collect_page_refs X p False pol g) (collect_related X pol ps)"

section \<open>The report\<close>

definition distinct_values :: "occurrence list \<Rightarrow> string list" where
  "distinct_values occs = remdups_adj (sort (map oc_value occs))"

definition candidate_value :: "occurrence list \<Rightarrow> string" where
  "candidate_value occs =
     (case map oc_value (filter oc_candidate occs) of
        [] \<Rightarrow> hd (distinct_values occs)
      | v # vs \<Rightarrow> fold min vs v)"

text \<open>The finding of one group; none for a single vote or equal votes.\<close>

definition group_finding :: "ext \<Rightarrow> claim_id \<Rightarrow> occurrence list \<Rightarrow> consistency_finding option" where
  "group_finding X k occs =
     (if length occs < 2 \<or> length (distinct_values occs) = 1 then None
      else map_option (\<lambda>w. \<lparr>cf_code = ''VALUE_DIVERGENCE'',
             cf_key = \<lparr>ck_entity = fst k, ck_pointer = snd k\<rparr>,
             cf_candidate_hash = x_blake3 X (candidate_value occs), cf_evidence_hash = x_blake3 X w\<rparr>)
             (List.find (\<lambda>v. v \<noteq> candidate_value occs) (distinct_values occs)))"

definition compared_group :: "occurrence list \<Rightarrow> bool" where
  "compared_group occs = (2 \<le> length occs)"

definition equal_group :: "occurrence list \<Rightarrow> bool" where
  "equal_group occs = (2 \<le> length occs \<and> length (distinct_values occs) = 1)"

definition report_of :: "ext \<Rightarrow> (claim_id \<times> occurrence list) list \<Rightarrow> nat \<Rightarrow> consistency_report" where
  "report_of X g n =
     (let compared = length (filter (compared_group \<circ> snd) g); equal = length (filter (equal_group \<circ> snd) g)
      in \<lparr>cr_score = (if compared = 0 then None else Some (f_ratio f32 equal compared)),
          cr_compared = compared,
          cr_findings = List.map_filter (\<lambda>(k, occs). group_finding X k occs) g,
          cr_candidates = n\<rparr>)"

definition arbitrate ::
  "ext \<Rightarrow> compiled_page \<Rightarrow> compiled_page list \<Rightarrow> consistency_policy \<Rightarrow> consistency_report result" where
  "arbitrate X candidate related pol =
     try_bind (collect_page_refs X candidate True pol []) (\<lambda>g.
     try_bind (collect_related X pol related g) (\<lambda>g'.
       Inr (report_of X g' (length related))))"

definition comparable_refs :: "compiled_page \<Rightarrow> consistency_policy \<Rightarrow> source_ref list" where
  "comparable_refs page pol =
     filter (\<lambda>r. is_comparable_pointer (sr_pointer r) (csp_pointers pol)) (page_refs page)"

section \<open>What the groups hold\<close>

declare split_paired_All [simp del] split_paired_Ex [simp del]

text \<open>The canonical values a page cites for a claim.\<close>

definition cited :: "ext \<Rightarrow> consistency_policy \<Rightarrow> compiled_page \<Rightarrow> claim_id \<Rightarrow> string set" where
  "cited X pol page k =
     {b. \<exists>r\<in>set (comparable_refs page pol). claim_id_of r = k \<and> canonical_json X (sr_value r) = Inr b}"

lemma entry_of_insert: "entry_of (bt_insert k v m) i = (if i = k then v else entry_of m i)"
  by (simp add: entry_of_def map_of_bt_insert)

definition no_empty :: "(claim_id \<times> 'v list) list \<Rightarrow> bool" where
  "no_empty m = (\<forall>k. map_of m k \<noteq> Some [])"

lemma no_empty_insert: "no_empty m \<Longrightarrow> v \<noteq> [] \<Longrightarrow> no_empty (bt_insert k v m)"
  by (simp add: no_empty_def map_of_bt_insert)

lemma insort_insert_not_Nil [simp]: "insort_insert (x::'a::linorder) xs \<noteq> []"
  by (cases xs) (auto simp: insort_insert_key_def)

definition sorted_sets :: "(claim_id \<times> string list) list \<Rightarrow> bool" where
  "sorted_sets m = (\<forall>k. sorted (entry_of m k) \<and> distinct (entry_of m k))"

lemma page_values_result:
  assumes "page_values X pol rs m = Inr m'" "bt_wf m" "no_empty m" "sorted_sets m"
  shows "bt_wf m' \<and> no_empty m' \<and> sorted_sets m' \<and>
    (\<forall>k. set (entry_of m' k) = set (entry_of m k) \<union>
       {b. \<exists>r\<in>set rs. is_comparable_pointer (sr_pointer r) (csp_pointers pol) \<and> claim_id_of r = k
              \<and> canonical_json X (sr_value r) = Inr b})"
  using assms
proof (induction rs arbitrary: m)
  case (Cons r rs)
  show ?case
  proof (cases "is_comparable_pointer (sr_pointer r) (csp_pointers pol)")
    case False
    with Cons.prems have "page_values X pol rs m = Inr m'" by simp
    from Cons.IH[OF this Cons.prems(2-4)] False show ?thesis by simp
  next
    case True
    with Cons.prems(1) obtain b where b: "canonical_json X (sr_value r) = Inr b"
      "page_values X pol rs (bt_insert (claim_id_of r) (insort_insert b (entry_of m (claim_id_of r))) m) = Inr m'"
      by (auto split: sum.splits)
    let ?m = "bt_insert (claim_id_of r) (insort_insert b (entry_of m (claim_id_of r))) m"
    have "bt_wf ?m" using Cons.prems(2) by (rule bt_wf_insert)
    moreover have "no_empty ?m" using Cons.prems(3) by (simp add: no_empty_insert)
    moreover have "sorted_sets ?m" using Cons.prems(4) unfolding sorted_sets_def entry_of_insert
      by (metis sorted_insort_insert distinct_insort_insert)
    ultimately show ?thesis using Cons.IH[OF b(2)] True b(1)
      by (auto simp: entry_of_insert set_insort_insert)
  qed
qed simp

lemma push_groups_result:
  assumes "bt_wf g" "no_empty g" "\<forall>(k, vs)\<in>set m. vs \<noteq> []"
  shows "bt_wf (push_groups c m g) \<and> no_empty (push_groups c m g)"
  using assms
proof (induction c m g rule: push_groups.induct)
  case (2 c k vs m g)
  then show ?case by (simp add: bt_wf_insert no_empty_insert)
qed simp

lemma push_groups_entry:
  assumes "distinct (map fst m)"
  shows "entry_of (push_groups c m g) k = entry_of g k @ map (\<lambda>v. \<lparr>oc_value = v, oc_candidate = c\<rparr>) (entry_of m k)"
  using assms
proof (induction c m g rule: push_groups.induct)
  case (2 c i vs m g)
  have "entry_of m i = []" using 2(2) by (simp add: entry_of_def map_of_eq_None_iff[THEN iffD2])
  with 2 show ?case by (auto simp: entry_of_insert) (auto simp: entry_of_def)
qed (simp add: entry_of_def)


text \<open>The votes of one page for a claim: the values it cites, each once.\<close>

definition values_of :: "ext \<Rightarrow> consistency_policy \<Rightarrow> compiled_page \<Rightarrow> claim_id \<Rightarrow> string list" where
  "values_of X pol page k = sorted_list_of_set (cited X pol page k)"

definition vote :: "bool \<Rightarrow> string \<Rightarrow> occurrence" where
  "vote c v = \<lparr>oc_value = v, oc_candidate = c\<rparr>"

definition encodable :: "ext \<Rightarrow> consistency_policy \<Rightarrow> compiled_page \<Rightarrow> bool" where
  "encodable X pol page = (\<forall>r\<in>set (comparable_refs page pol). \<exists>b. canonical_json X (sr_value r) = Inr b)"

lemma finite_cited: "finite (cited X pol page k)"
proof -
  have "cited X pol page k \<subseteq> (\<lambda>r. projr (canonical_json X (sr_value r))) ` set (comparable_refs page pol)"
    by (force simp: cited_def)
  then show ?thesis by (rule finite_subset) simp
qed

lemma page_values_encodable:
  "(\<exists>m'. page_values X pol rs m = Inr m') \<longleftrightarrow>
     (\<forall>r\<in>set (filter (\<lambda>r. is_comparable_pointer (sr_pointer r) (csp_pointers pol)) rs).
        \<exists>b. canonical_json X (sr_value r) = Inr b)"
  by (induction X pol rs m rule: page_values.induct) (auto split: sum.splits)

lemma page_values_error: "page_values X pol rs m = Inl e \<Longrightarrow> e = Validation"
  by (induction X pol rs m rule: page_values.induct) (auto split: sum.splits if_splits)

lemma collect_page_refs_result:
  assumes "collect_page_refs X page c pol g = Inr g'" "bt_wf g" "no_empty g"
  shows "bt_wf g' \<and> no_empty g' \<and> (\<forall>k. entry_of g' k = entry_of g k @ map (vote c) (values_of X pol page k))"
proof -
  from assms(1) obtain m where m: "page_values X pol (page_refs page) [] = Inr m" "g' = push_groups c m g"
    by (auto simp: collect_page_refs_def)
  have "bt_wf ([] :: (claim_id \<times> string list) list)" "no_empty ([] :: (claim_id \<times> string list) list)" "sorted_sets []"
    by (simp_all add: bt_wf_def no_empty_def sorted_sets_def entry_of_def)
  note r = page_values_result[OF m(1) this]
  have d: "distinct (map fst m)" using r bt.keys_distinct by blast
  have "values_of X pol page k = entry_of m k" for k
  proof -
    have "set (entry_of m k) = cited X pol page k"
      using r[THEN conjunct2, THEN conjunct2, THEN conjunct2, THEN spec, of k]
      unfolding cited_def comparable_refs_def by (simp add: entry_of_def[of "[]"] conj_assoc Bex_def)
    then show ?thesis using r unfolding values_of_def sorted_sets_def
      by (metis sorted_list_of_set.idem_if_sorted_distinct)
  qed
  moreover have "vs \<noteq> []" if "(k, vs) \<in> set m" for k vs
    using r that map_of_is_SomeI[OF d that] by (auto simp: no_empty_def)
  then have "\<forall>(k, vs)\<in>set m. vs \<noteq> []" by blast
  ultimately show ?thesis
    using push_groups_result[OF assms(2,3), of m c] push_groups_entry[OF d, of c g]
    by (simp add: m(2) vote_def[abs_def])
qed

lemma collect_related_result:
  assumes "collect_related X pol ps g = Inr g'" "bt_wf g" "no_empty g"
  shows "bt_wf g' \<and> no_empty g' \<and>
    (\<forall>k. entry_of g' k = entry_of g k @ concat (map (\<lambda>p. map (vote False) (values_of X pol p k)) ps))"
  using assms
proof (induction ps arbitrary: g)
  case (Cons p ps)
  then obtain g1 where g1: "collect_page_refs X p False pol g = Inr g1" "collect_related X pol ps g1 = Inr g'"
    by auto
  from collect_page_refs_result[OF g1(1) Cons.prems(2,3)] Cons.IH[OF g1(2)] show ?case by auto
qed simp

lemma collect_page_refs_encodable:
  "(\<exists>g'. collect_page_refs X page c pol g = Inr g') \<longleftrightarrow> encodable X pol page"
  using page_values_encodable[of X pol "page_refs page" "[]"]
  by (auto simp: collect_page_refs_def encodable_def comparable_refs_def)

lemma collect_page_refs_cases:
  obtains g' where "encodable X pol page" "collect_page_refs X page c pol g = Inr g'"
  | "\<not> encodable X pol page" "collect_page_refs X page c pol g = Inl Validation"
proof (cases "collect_page_refs X page c pol g")
  case (Inl e)
  then have "e = Validation" using page_values_error by (auto simp: collect_page_refs_def try_bind_eq_Inl)
  moreover have "\<not> encodable X pol page" using Inl collect_page_refs_encodable[of X page c pol g] by auto
  ultimately show ?thesis using that(2) Inl by blast
next
  case (Inr g')
  then show ?thesis using that(1) collect_page_refs_encodable[of X page c pol g] by blast
qed

lemma collect_related_cases:
  "(\<forall>p\<in>set ps. encodable X pol p) \<and> (\<exists>g'. collect_related X pol ps g = Inr g')
   \<or> \<not> (\<forall>p\<in>set ps. encodable X pol p) \<and> collect_related X pol ps g = Inl Validation"
proof (induction ps arbitrary: g)
  case (Cons p ps)
  show ?case
  proof (rule collect_page_refs_cases[of X pol p False g])
    fix g' assume p: "encodable X pol p" "collect_page_refs X p False pol g = Inr g'"
    show ?thesis using Cons.IH[of g'] p by simp
  next
    assume p: "\<not> encodable X pol p" "collect_page_refs X p False pol g = Inl Validation"
    then show ?thesis by simp
  qed
qed simp

section \<open>The report over the votes\<close>

definition votes :: "ext \<Rightarrow> consistency_policy \<Rightarrow> compiled_page \<Rightarrow> compiled_page list \<Rightarrow> claim_id \<Rightarrow> occurrence list" where
  "votes X pol candidate related k =
     map (vote True) (values_of X pol candidate k)
       @ concat (map (\<lambda>p. map (vote False) (values_of X pol p k)) related)"

definition is_groups :: "(claim_id \<Rightarrow> occurrence list) \<Rightarrow> (claim_id \<times> occurrence list) list \<Rightarrow> bool" where
  "is_groups f g = (bt_wf g \<and> no_empty g \<and> (\<forall>k. entry_of g k = f k))"

lemma arbitrate_cases:
  obtains g where "\<forall>p\<in>set (candidate # related). encodable X pol p"
      "is_groups (votes X pol candidate related) g"
      "arbitrate X candidate related pol = Inr (report_of X g (length related))"
  | "\<not> (\<forall>p\<in>set (candidate # related). encodable X pol p)" "arbitrate X candidate related pol = Inl Validation"
proof (rule collect_page_refs_cases[of X pol candidate True "[]"])
  fix g assume g: "encodable X pol candidate" "collect_page_refs X candidate True pol [] = Inr g"
  have "bt_wf ([] :: (claim_id \<times> occurrence list) list)" "no_empty ([] :: (claim_id \<times> occurrence list) list)"
    by (simp_all add: bt_wf_def no_empty_def)
  note r = collect_page_refs_result[OF g(2) this]
  from collect_related_cases[of related X pol g] show thesis
  proof (elim disjE conjE exE)
    fix g' assume e: "\<forall>p\<in>set related. encodable X pol p" "collect_related X pol related g = Inr g'"
    then have "bt_wf g' \<and> no_empty g' \<and> (\<forall>k. entry_of g' k =
        entry_of g k @ concat (map (\<lambda>p. map (vote False) (values_of X pol p k)) related))"
      using collect_related_result r by blast
    then have "is_groups (votes X pol candidate related) g'"
      using r by (simp add: is_groups_def votes_def entry_of_def[of "[]"])
    then show thesis using that(1) e g by (simp add: arbitrate_def)
  next
    assume e: "\<not> (\<forall>p\<in>set related. encodable X pol p)" "collect_related X pol related g = Inl Validation"
    then show thesis using that(2) g by (auto simp: arbitrate_def)
  qed
next
  assume "\<not> encodable X pol candidate" "collect_page_refs X candidate True pol [] = Inl Validation"
  then show thesis using that(2) by (auto simp: arbitrate_def)
qed

lemma is_groups_keys:
  assumes "is_groups f g"
  shows "g = map (\<lambda>k. (k, f k)) (map fst g)" "sorted_wrt (<) (map fst g)" "set (map fst g) = {k. f k \<noteq> []}"
proof -
  show s: "sorted_wrt (<) (map fst g)" using assms by (simp add: is_groups_def bt_wf_def)
  then have d: "distinct (map fst g)" using assms bt.keys_distinct by (auto simp: is_groups_def)
  have e: "vs = f k" if "(k, vs) \<in> set g" for k vs
  proof -
    have "entry_of g k = f k" using assms by (simp add: is_groups_def)
    then show ?thesis using map_of_is_SomeI[OF d that] by (simp add: entry_of_def)
  qed
  then have "(fst x, f (fst x)) = x" if "x \<in> set g" for x using that by (metis prod.collapse)
  then show "g = map (\<lambda>k. (k, f k)) (map fst g)" by (simp add: map_idI)
  show "set (map fst g) = {k. f k \<noteq> []}"
  proof (intro set_eqI)
    fix k
    have "k \<in> set (map fst g) \<longleftrightarrow> map_of g k \<noteq> None" by (simp add: map_of_eq_None_iff)
    also have "\<dots> \<longleftrightarrow> entry_of g k \<noteq> []"
      using assms by (auto simp: is_groups_def no_empty_def entry_of_def split: option.splits)
    also have "\<dots> \<longleftrightarrow> k \<in> {k. f k \<noteq> []}" using assms by (simp add: is_groups_def)
    finally show "k \<in> set (map fst g) \<longleftrightarrow> k \<in> {k. f k \<noteq> []}" .
  qed
qed

text \<open>A group counts only as a multiset of votes, and by its candidate votes.\<close>

definition same_votes :: "occurrence list \<Rightarrow> occurrence list \<Rightarrow> bool" where
  "same_votes a b = (mset a = mset b \<and> filter oc_candidate a = filter oc_candidate b)"

lemma same_votes_length: "same_votes a b \<Longrightarrow> length a = length b"
  by (auto simp: same_votes_def dest: mset_eq_length)

lemma same_votes_values: "same_votes a b \<Longrightarrow> distinct_values a = distinct_values b"
  unfolding same_votes_def distinct_values_def
  by (metis mset_map mset_sort properties_for_sort sorted_sort)

lemma same_votes_candidate: "same_votes a b \<Longrightarrow> candidate_value a = candidate_value b"
proof -
  assume a: "same_votes a b"
  then have "filter oc_candidate a = filter oc_candidate b" by (simp add: same_votes_def)
  then show ?thesis unfolding candidate_value_def by (simp only: same_votes_values[OF a])
qed

lemmas same_votes = same_votes_length same_votes_values same_votes_candidate

lemma group_same:
  assumes "same_votes a b"
  shows "compared_group a = compared_group b" "equal_group a = equal_group b"
    "group_finding X k a = group_finding X k b"
  by (simp_all add: compared_group_def equal_group_def group_finding_def same_votes[OF assms])

lemma report_same:
  assumes g: "is_groups f g" "is_groups f' g'" and same: "\<And>k. same_votes (f k) (f' k)"
  shows "report_of X g n = report_of X g' n"
proof -
  have "{k. f k \<noteq> []} = {k. f' k \<noteq> []}" 
    by (intro Collect_cong) (metis length_0_conv same same_votes_length)
  then have ks: "map fst g' = map fst g"
    using is_groups_keys(2,3)[OF g(1)] is_groups_keys(2,3)[OF g(2)] strict_sorted_equal by metis
  define ks where "ks = map fst g"
  have e: "g = map (\<lambda>k. (k, f k)) ks" "g' = map (\<lambda>k. (k, f' k)) ks"
    using is_groups_keys(1)[OF g(1)] is_groups_keys(1)[OF g(2)] ks by (simp_all add: ks_def)
  show ?thesis
    unfolding e report_of_def
    by (simp add: filter_map comp_def map_filter_def group_same[OF same])
qed

lemma votes_permuted:
  assumes "mset related = mset related'"
  shows "same_votes (votes X pol candidate related k) (votes X pol candidate related' k)"
proof -
  have "mset (concat (map (\<lambda>p. map (vote False) (values_of X pol p k)) related))
      = (\<Sum>p\<in>#mset related. mset (map (vote False) (values_of X pol p k)))" for related
    by (induction related) auto
  moreover have "filter oc_candidate (concat (map (\<lambda>p. map (vote False) (values_of X pol p k)) related)) = []" for related
    by (induction related) (simp_all add: vote_def filter_map comp_def)
  ultimately show ?thesis using assms by (simp add: same_votes_def votes_def)
qed

section \<open>Divergence\<close>

text \<open>The pages disagree on a claim: two of their references give it different canonical values.\<close>

definition diverges :: "ext \<Rightarrow> consistency_policy \<Rightarrow> compiled_page list \<Rightarrow> claim_id \<Rightarrow> bool" where
  "diverges X pol pages k \<longleftrightarrow> (\<exists>p\<in>set pages. \<exists>q\<in>set pages. \<exists>v\<in>cited X pol p k. \<exists>w\<in>cited X pol q k. v \<noteq> w)"

lemma values_votes:
  "set (map oc_value (votes X pol candidate related k)) = (\<Union>p\<in>set (candidate # related). cited X pol p k)"
  by (simp add: votes_def vote_def values_of_def finite_cited image_Un image_UN image_image)

lemma set_distinct_values: "set (distinct_values occs) = oc_value ` set occs"
  by (simp add: distinct_values_def)

lemma distinct_remdups_adj_sorted: "sorted xs \<Longrightarrow> distinct (remdups_adj xs)"
  by (induction xs rule: remdups_adj.induct) (auto simp: antisym)

lemma card_one_iff:
  assumes "S \<noteq> {}"
  shows "card S = 1 \<longleftrightarrow> (\<forall>v\<in>S. \<forall>w\<in>S. v = w)"
proof
  show "card S = 1 \<Longrightarrow> \<forall>v\<in>S. \<forall>w\<in>S. v = w" by (metis card_1_singletonE singletonD)
  assume e: "\<forall>v\<in>S. \<forall>w\<in>S. v = w"
  from assms obtain x where "x \<in> S" by blast
  with e have "S = {x}" by blast
  then show "card S = 1" by simp
qed

lemma distinct_values_single:
  assumes "occs \<noteq> []"
  shows "length (distinct_values occs) = 1 \<longleftrightarrow> (\<forall>v\<in>oc_value ` set occs. \<forall>w\<in>oc_value ` set occs. v = w)"
proof -
  have "length (distinct_values occs) = card (oc_value ` set occs)"
    using distinct_card[OF distinct_remdups_adj_sorted[OF sorted_sort], of "map oc_value occs"]
    by (simp add: distinct_values_def)
  also have "card (oc_value ` set occs) = 1 \<longleftrightarrow> (\<forall>v\<in>oc_value ` set occs. \<forall>w\<in>oc_value ` set occs. v = w)"
    using assms by (intro card_one_iff) simp
  finally show ?thesis .
qed

lemma group_finding_iff:
  "group_finding X k occs \<noteq> None \<longleftrightarrow> (\<exists>v\<in>oc_value ` set occs. \<exists>w\<in>oc_value ` set occs. v \<noteq> w)"
proof (cases "\<exists>v\<in>oc_value ` set occs. \<exists>w\<in>oc_value ` set occs. v \<noteq> w")
  case True
  then obtain v w where vw: "v \<in> set (distinct_values occs)" "w \<in> set (distinct_values occs)" "v \<noteq> w"
    unfolding set_distinct_values by blast
  then have "List.find (\<lambda>v. v \<noteq> candidate_value occs) (distinct_values occs) \<noteq> None"
    unfolding find_None_iff by metis
  moreover have "\<not> length occs < 2"
  proof
    assume "length occs < 2"
    then have "length occs = 0 \<or> length occs = 1" by linarith
    then show False using True by (auto simp: length_Suc_conv)
  qed
  moreover have "length (distinct_values occs) \<noteq> 1"
    using True distinct_values_single[of occs] by fastforce
  ultimately show ?thesis using True by (simp add: group_finding_def)
next
  case False
  then have "occs = [] \<or> length (distinct_values occs) = 1" using distinct_values_single by blast
  then have "group_finding X k occs = None" by (auto simp: group_finding_def)
  with False show ?thesis by argo
qed

lemma group_finding_key: "group_finding X k occs = Some f \<Longrightarrow> cf_key f = \<lparr>ck_entity = fst k, ck_pointer = snd k\<rparr>"
  by (auto simp: group_finding_def split: if_splits)

lemma equal_group_iff: "equal_group occs \<longleftrightarrow> compared_group occs \<and> group_finding X k occs = None"
proof (cases "occs = []")
  case False
  then show ?thesis using group_finding_iff[of X k occs] distinct_values_single[of occs]
    unfolding equal_group_def compared_group_def by blast
qed (simp add: equal_group_def compared_group_def)

lemma set_map_filter: "set (List.map_filter f xs) = {y. \<exists>x\<in>set xs. f x = Some y}"
  by (induction xs) (auto simp: List.map_filter_simps split: option.splits)

lemma finding_diverges:
  "group_finding X k (votes X pol candidate related k) \<noteq> None \<longleftrightarrow> diverges X pol (candidate # related) k"
  unfolding group_finding_iff using values_votes[of X pol candidate related k]
  by (auto simp: diverges_def)

lemma finding_keys:
  assumes "is_groups (votes X pol candidate related) g"
  shows "cf_key ` set (cr_findings (report_of X g n))
     = (\<lambda>k. \<lparr>ck_entity = fst k, ck_pointer = snd k\<rparr>) ` {k. diverges X pol (candidate # related) k}"
proof -
  let ?f = "votes X pol candidate related"
  note d = finding_diverges[of X _ pol candidate related]
  have none: "group_finding X k [] = None" for k by (simp add: group_finding_def)
  note keys = is_groups_keys[OF assms]
  have "set (cr_findings (report_of X g n)) = {f. \<exists>k\<in>set (map fst g). group_finding X k (?f k) = Some f}"
    by (subst keys(1)) (simp add: report_of_def set_map_filter Let_def)
  also have "\<dots> = {f. \<exists>k. group_finding X k (?f k) = Some f}"
    unfolding keys(3) using none by (intro Collect_cong) (metis (mono_tags, lifting) mem_Collect_eq option.distinct(1))
  finally have fs: "set (cr_findings (report_of X g n)) = {f. \<exists>k. group_finding X k (?f k) = Some f}" .
  show ?thesis unfolding fs
  proof (intro set_eqI iffI)
    fix x assume "x \<in> cf_key ` {f. \<exists>k. group_finding X k (?f k) = Some f}"
    then obtain f k where f: "group_finding X k (?f k) = Some f" "x = cf_key f" by auto
    then have "diverges X pol (candidate # related) k" using d by blast
    with f show "x \<in> (\<lambda>k. \<lparr>ck_entity = fst k, ck_pointer = snd k\<rparr>) ` {k. diverges X pol (candidate # related) k}"
      using group_finding_key by blast
  next
    fix x assume "x \<in> (\<lambda>k. \<lparr>ck_entity = fst k, ck_pointer = snd k\<rparr>) ` {k. diverges X pol (candidate # related) k}"
    then obtain k where k: "diverges X pol (candidate # related) k" "x = \<lparr>ck_entity = fst k, ck_pointer = snd k\<rparr>" by blast
    then obtain f where "group_finding X k (?f k) = Some f" using d by blast
    with k show "x \<in> cf_key ` {f. \<exists>k. group_finding X k (?f k) = Some f}"
      using group_finding_key by (metis (mono_tags, lifting) image_eqI mem_Collect_eq)
  qed
qed

lemma map_filter_Nil: "List.map_filter f xs = [] \<longleftrightarrow> (\<forall>x\<in>set xs. f x = None)"
  by (induction xs) (auto simp: List.map_filter_simps split: option.splits)

lemma compared_if_found: "group_finding X k occs \<noteq> None \<Longrightarrow> compared_group occs"
  by (auto simp: group_finding_def compared_group_def split: if_splits)

lemma equal_le_compared:
  "length (filter (equal_group \<circ> snd) g) \<le> length (filter (compared_group \<circ> snd) g)"
  by (induction g) (auto simp: equal_group_def compared_group_def)

lemma all_equal_iff:
  "length (filter (equal_group \<circ> snd) g) = length (filter (compared_group \<circ> snd) g)
     \<longleftrightarrow> (\<forall>x\<in>set g. compared_group (snd x) \<longrightarrow> equal_group (snd x))"
proof (induction g)
  case (Cons x g)
  have "equal_group (snd x) \<Longrightarrow> compared_group (snd x)" by (simp add: equal_group_def compared_group_def)
  with Cons show ?case using equal_le_compared[of g, unfolded comp_def]
    by (cases "compared_group (snd x)"; cases "equal_group (snd x)") auto
qed simp

lemma findings_Nil:
  "cr_findings (report_of X g n) = [] \<longleftrightarrow>
     length (filter (equal_group \<circ> snd) g) = length (filter (compared_group \<circ> snd) g)"
proof -
  have "cr_findings (report_of X g n) = [] \<longleftrightarrow> (\<forall>x\<in>set g. group_finding X (fst x) (snd x) = None)"
    by (simp add: report_of_def Let_def map_filter_Nil split_beta)
  also have "\<dots> \<longleftrightarrow> (\<forall>x\<in>set g. compared_group (snd x) \<longrightarrow> equal_group (snd x))"
  proof (rule ball_cong[OF refl])
    fix x
    show "group_finding X (fst x) (snd x) = None \<longleftrightarrow> (compared_group (snd x) \<longrightarrow> equal_group (snd x))"
      using equal_group_iff[of "snd x" X "fst x"] compared_if_found[of X "fst x" "snd x"] by blast
  qed
  finally show ?thesis by (simp add: all_equal_iff)
qed

lemma report_score:
  "cr_score (report_of X g n) = None \<longleftrightarrow> cr_compared (report_of X g n) = 0"
  "cr_score (report_of X g n) = Some s \<Longrightarrow> in_unit s"
  "cr_score (report_of X g n) = Some s \<Longrightarrow> cr_findings (report_of X g n) = [] \<Longrightarrow> s = Fin 1"
  "cr_score (report_of X g n) = Some s \<Longrightarrow> cr_compared (report_of X g n) \<le> 2 ^ 20 \<Longrightarrow> f_le (Fin 1) s
     \<Longrightarrow> cr_findings (report_of X g n) = []"
proof -
  note le = equal_le_compared[of g]
  show "cr_score (report_of X g n) = None \<longleftrightarrow> cr_compared (report_of X g n) = 0"
    by (simp add: report_of_def Let_def)
  show "cr_score (report_of X g n) = Some s \<Longrightarrow> in_unit s"
    using le by (auto simp: report_of_def Let_def intro!: f_ratio_unit split: if_splits)
  show "s = Fin 1" if "cr_score (report_of X g n) = Some s" "cr_findings (report_of X g n) = []"
    using that unfolding findings_Nil by (auto simp: report_of_def Let_def split: if_splits)
  show "cr_findings (report_of X g n) = []"
    if s: "cr_score (report_of X g n) = Some s" "cr_compared (report_of X g n) \<le> 2 ^ 20" "f_le (Fin 1) s"
  proof (rule ccontr)
    assume "cr_findings (report_of X g n) \<noteq> []"
    then have "length (filter (equal_group \<circ> snd) g) < length (filter (compared_group \<circ> snd) g)"
      unfolding findings_Nil using le by linarith
    moreover have "length (filter (compared_group \<circ> snd) g) \<le> 2 ^ 20" using s(2) by (simp add: report_of_def Let_def)
    ultimately obtain r where r: "f_ratio f32 (length (filter (equal_group \<circ> snd) g)) (length (filter (compared_group \<circ> snd) g)) = Fin r"
      "r \<le> below_one"
      using f_ratio_below_one[of _ _ f32] by blast
    have "s = f_ratio f32 (length (filter (equal_group \<circ> snd) g)) (length (filter (compared_group \<circ> snd) g))"
      using s(1) by (simp add: report_of_def Let_def split: if_splits)
    with r show False using s(3) by (simp add: below_one_def)
  qed
qed

section \<open>What is compared\<close>

text \<open>A claim is compared when it has two votes: the distinct values each page cites for it, over all pages.\<close>

definition votes_on :: "ext \<Rightarrow> consistency_policy \<Rightarrow> compiled_page list \<Rightarrow> claim_id \<Rightarrow> nat" where
  "votes_on X pol pages k = (\<Sum>p\<leftarrow>pages. card (cited X pol p k))"

definition compared_claims :: "ext \<Rightarrow> consistency_policy \<Rightarrow> compiled_page list \<Rightarrow> claim_id set" where
  "compared_claims X pol pages = {k. 2 \<le> votes_on X pol pages k}"

lemma votes_length: "length (votes X pol candidate related k) = votes_on X pol (candidate # related) k"
  by (simp add: votes_def votes_on_def values_of_def length_concat comp_def)

lemma count_groups:
  assumes "is_groups f g" "\<not> P []"
  shows "length (filter (P \<circ> snd) g) = card {k. P (f k)}"
proof -
  note keys = is_groups_keys[OF assms(1)]
  have d: "distinct (map fst g)" using keys(2) strict_sorted_iff by blast
  have "length (filter (P \<circ> snd) g) = length (filter (P \<circ> snd) (map (\<lambda>k. (k, f k)) (map fst g)))"
    using keys(1) by simp
  also have "\<dots> = length (filter (\<lambda>k. P (f k)) (map fst g))" by (simp add: filter_map comp_def)
  also have "\<dots> = card (set (filter (\<lambda>k. P (f k)) (map fst g)))" using d by (metis distinct_card distinct_filter)
  also have "set (filter (\<lambda>k. P (f k)) (map fst g)) = {k. P (f k)}" using keys(3) assms(2) by auto
  finally show ?thesis .
qed

lemma compared_counts:
  assumes "is_groups (votes X pol candidate related) g"
  shows "cr_compared (report_of X g n) = card (compared_claims X pol (candidate # related))"
    "cr_score (report_of X g n) = (if cr_compared (report_of X g n) = 0 then None
       else Some (f_ratio f32 (card {k \<in> compared_claims X pol (candidate # related). \<not> diverges X pol (candidate # related) k})
                    (cr_compared (report_of X g n))))"
proof -
  let ?f = "votes X pol candidate related"
  have c: "compared_group (?f k) \<longleftrightarrow> k \<in> compared_claims X pol (candidate # related)" for k
    by (simp add: compared_group_def compared_claims_def votes_length)
  have e: "equal_group (?f k) \<longleftrightarrow> k \<in> compared_claims X pol (candidate # related) \<and> \<not> diverges X pol (candidate # related) k" for k
    unfolding equal_group_iff[of _ X k] c finding_diverges[symmetric] by simp
  have "length (filter (compared_group \<circ> snd) g) = card (compared_claims X pol (candidate # related))"
    using count_groups[OF assms, of compared_group] by (simp add: c) (simp add: compared_group_def)
  moreover have "length (filter (equal_group \<circ> snd) g) =
      card {k \<in> compared_claims X pol (candidate # related). \<not> diverges X pol (candidate # related) k}"
    using count_groups[OF assms, of equal_group] by (simp add: e) (simp add: equal_group_def)
  ultimately show "cr_compared (report_of X g n) = card (compared_claims X pol (candidate # related))"
    "cr_score (report_of X g n) = (if cr_compared (report_of X g n) = 0 then None
       else Some (f_ratio f32 (card {k \<in> compared_claims X pol (candidate # related). \<not> diverges X pol (candidate # related) k})
                    (cr_compared (report_of X g n))))"
    by (simp_all add: report_of_def Let_def)
qed

end
