(* ===== verification/Compile_Props.thy ===== *)
theory Compile_Props
  imports Consistency Content_Hash
begin

text \<open>
  The properties of the compile checks: what the decoder lets through, what a clean evidence report
  and an accepted score say of the source, that scores are always in range, what the arbiter finds.
\<close>

section \<open>A page that passes\<close>

definition good_source :: raw_entity where
  "good_source = \<lparr>raw_id = demo_entity, raw_fields = [(''name'', JStr ''boba'')], raw_revision = 1\<rparr>"

definition good_ref :: source_ref where
  "good_ref = \<lparr>sr_id = ''r1'', sr_entity = ''milk:drink:boba'', sr_revision = 1,
     sr_pointer = ''/fields/name'', sr_value = JStr ''boba'', sr_quote = ''boba''\<rparr>"

definition good_section :: evidence_section where
  "good_section = \<lparr>ev_heading = ''h'', ev_assertions = [\<lparr>as_text = ''boba'', as_refs = [''r1'']\<rparr>],
     ev_refs = [good_ref]\<rparr>"

definition good_wiki :: output_wiki where
  "good_wiki = \<lparr>ow_title = ''boba'', ow_aliases = [], ow_tags = [],
     ow_markdown = ''## h'' @ newline @ newline @ ''- boba[[ref:r1]]'' @ newline\<rparr>"

definition good_evidence :: compile_evidence where
  "good_evidence = \<lparr>ce_schema_version = ''source-ref-v1'', ce_wiki = good_wiki,
     ce_sections = [good_section], ce_usage = None\<rparr>"

definition good_codec :: codec where
  "good_codec = \<lparr>co_json = (\<lambda>t. Some RNull),
     co_envelope = (\<lambda>v. Some \<lparr>env_version = ''source-ref-v1'', env_status = ''ok'', env_wiki = Some good_wiki,
        env_sections = Some [good_section], env_error = None\<rparr>),
     co_markdown = (\<lambda>md. [MdHeading 2, MdOther]),
     co_spans = (\<lambda>md. [(H2Start, 0, 4), (MdText ''h'', 3, 4), (H2End, 0, 4)])\<rparr>"

lemmas good_defs = good_source_def good_ref_def good_section_def good_wiki_def good_evidence_def
  good_codec_def demo_entity_def

lemmas text_simps = scalar_at_def tail_len_def is_control_def is_whitespace_def is_digit_def contains_def
  plain_text_ok_def assertion_text_shape_ok_def max_title_scalars_def max_assertion_scalars_def
  marker_open_def marker_close_def newline_def

lemma good_decodes: "decode_response good_codec ''x'' = Inr good_evidence"
  by (simp add: decode_response_def good_defs max_response_bytes_def decode_envelope_def envelope_version_def
     check_output_limits_def text_simps)

lemma good_text:
  "resolve_string_leaf good_source ''/fields/name'' = Some (JStr ''boba'')"
  "render_canonical_markdown good_evidence = ow_markdown good_wiki"
  "scan_markers (ow_markdown good_wiki) = [''r1'']"
  "is_valid_ref_id ''r1''" "contains ''boba'' ''boba''" "assertion_text_shape_ok ''boba''"
  by (simp_all add: resolve_string_leaf_def pointer_tokens_def string_leaf_def as_str_def good_defs
      render_canonical_markdown_def render_section_def render_assertion_def render_marker_def
      text_simps is_valid_ref_id_def)

lemma good_faithful: "faithful_evidence good_codec good_source good_evidence True"
  using good_text
  by (auto simp: faithful_evidence_def all_refs_def supported_ref_def assertion_quotes_def good_defs
      markdown_structure_ok_def to_key_def intro!: exI[of _ "[good_ref]"])

lemma good_validates:
  "validate_refs good_codec good_source good_evidence True =
     \<lparr>rr_assertions = 1, rr_supported = 1, rr_occurrences = 1, rr_valid = 1, rr_covered = [''/fields/name''],
      rr_information = 4, rr_total = 4, rr_issues = []\<rparr>"
proof -
  have "rr_issues (validate_refs good_codec good_source good_evidence True) = []"
    using good_faithful validate_issues_Nil by blast
  moreover have "validate_refs good_codec good_source good_evidence True =
     \<lparr>rr_assertions = 1, rr_supported = 1, rr_occurrences = 1, rr_valid = 1, rr_covered = [''/fields/name''],
      rr_information = 4, rr_total = 4, rr_issues = rr_issues (validate_refs good_codec good_source good_evidence True)\<rparr>"
    using good_text
    by (simp add: validate_refs_def Let_def good_evidence_def good_section_def scan_start_def check_ref_def leaf_issues_def
      good_ref_def good_wiki_def assertions_start_def as_str_def check_assertion_def assertion_supported_def
      all_known_def ref_index_def joined_quotes_def covered_pointers_def map_filter_simps cover_quote_def
      saturating_add_def u32_max_def insort_insert_key_def visible_chars_def span_chars_def used_ids_def text_simps)
  ultimately show ?thesis by simp
qed

lemma good_overall: "overall \<lparr>qs_coverage = Fin 1, qs_citation = Fin 1, qs_schema = Fin 1, qs_density = Fin 1, qs_consistency = None\<rparr> = Fin 1"
  using rnd_of_nat[of 2 f32] rnd_of_nat[of 3 f32] rnd_of_nat[of 4 f32] by (simp add: overall_def Let_def)

lemma good_units: "coverable_units good_source = [''/fields/name'']"
  by (simp add: coverable_units_def good_source_def)

lemma good_score:
  "sc_accepted (score_with_consistency good_source (Some (demo_page ''h''))
     (validate_refs good_codec good_source good_evidence True) True consistency_report_default demo_context demo_policy)"
  using good_overall
  by (simp add: good_validates score_with_consistency_def Let_def consistency_issues_def consistency_report_default_def
      passes_gates_def score_of_def coverage_of_def good_units citation_of_def f_min_def
      density_of_def demo_context_def demo_policy_def build_context_def)

section \<open>Decoding\<close>

text \<open>C37. \<^verbatim>\<open>decode_response\<close> returns evidence exactly for a response of at most 128 KiB that is JSON, in
  which no object, at any depth, repeats a key and no number is infinite or NaN, whose value is a well-formed
  ok envelope, and whose pages keep every limit: sections, assertions, references, headings, titles, aliases and
  tags. Tokenizing the text and deserializing the envelope from the value are the parser's. \<close>

theorem decode_response_exact:
  "decode_response K text = Inr ev \<longleftrightarrow>
     length text \<le> 128 * 1024
     \<and> (\<exists>raw env w ss. co_json K text = Some raw \<and> unambiguous raw \<and> co_envelope K (reads_as raw) = Some env
          \<and> env_version env = ''source-ref-v1'' \<and> env_status env = ''ok'' \<and> env_error env = None
          \<and> env_wiki env = Some w \<and> env_sections env = Some ss \<and> within_limits w ss
          \<and> ev = \<lparr>ce_schema_version = ''source-ref-v1'', ce_wiki = w, ce_sections = ss, ce_usage = None\<rparr>)"
  (is "?L \<longleftrightarrow> ?R")
proof
  have limits: "check_output_limits w ss = Inr u \<Longrightarrow> within_limits w ss" for w ss u
    using check_output_limits_Ok[of w ss] by (cases u) simp
  assume ?L
  then show ?R
    by (auto simp: decode_response_def max_response_bytes_def decode_envelope_def envelope_version_def
        Option.bind_eq_Some_conv strict_value_exact(1) split: if_splits option.splits sum.splits dest!: limits)
next
  assume ?R
  then show ?L
    by (auto simp: decode_response_def max_response_bytes_def decode_envelope_def envelope_version_def
        strict_value_exact(1) check_output_limits_Ok[THEN iffD2])
qed

section \<open>Evidence\<close>

text \<open>The validator reports no issue exactly when the evidence is faithful: every reference is the
  source's entity and revision and quotes the string it points at, ids are unique and well formed,
  every assertion is the concatenation of quotes of its own section, every reference is used, the
  Markdown is the canonical text of the assertions, and title, aliases and tags occur in quotes. \<close>

theorem clean_report_exact:
  "rr_issues (validate_refs K src ev require) = [] \<longleftrightarrow> faithful_evidence K src ev require"
  by (rule validate_issues_Nil)

text \<open>C38. Of a decoded response with fewer than 2^32 bytes of Markdown the scorer accepts the page exactly when there
  is a page, its fields satisfy the schema, the evidence is faithful with every assertion supported, even where references are optional, the consistency score is not below the
  policy and the overall score, the coverage and the density reach their thresholds: in particular the
  citation gate, rounded to \<^verbatim>\<open>f32\<close>, lets no unsupported assertion through. \<close>

theorem accepted_exact:
  assumes "decode_response K text = Inr ev" "length (ow_markdown (ce_wiki ev)) < 2 ^ 32"
  shows "sc_accepted (score_with_consistency src page (validate_refs K src ev require) valid cons cx pol) \<longleftrightarrow>
     page \<noteq> None \<and> valid \<and> faithful_evidence K src ev True \<and> consistency_kept cons pol
     \<and> f_ge (overall (score_of src (validate_refs K src ev require) cons)) (cx_threshold cx)
     \<and> f_ge (f_cast f32 (coverage_of src (validate_refs K src ev require))) (cpl_min_coverage pol)
     \<and> f_ge (f_cast f32 (density_of (validate_refs K src ev require))) (cpl_min_density pol)"
proof -
  from decoded_assertions[OF assms(1)] have "0 < assertions_total (ce_sections ev)" "assertions_total (ce_sections ev) \<le> 2 ^ 20"
    by simp_all
  then show ?thesis using assms(2) by (intro accepted_iff) (simp_all add: u32_max_def)
qed

theorem accepted_exact_witness:
  "faithful_evidence good_codec good_source good_evidence True"
  using accepted_exact[OF good_decodes, of good_source "Some (demo_page ''h'')" True True consistency_report_default
      demo_context demo_policy] good_score
  by (simp add: good_evidence_def good_wiki_def newline_def)

section \<open>Arbitration\<close>

definition pearl_policy :: consistency_policy where
  "pearl_policy = \<lparr>csp_enabled = True, csp_top_k = 8, csp_min = Fin 1, csp_pointers = [''/fields/name'']\<rparr>"

definition page_citing :: "string \<Rightarrow> compiled_page" where
  "page_citing v = (demo_page ''h'')\<lparr>cp_evidence := Some (good_evidence\<lparr>ce_sections :=
     [good_section\<lparr>ev_refs := [good_ref\<lparr>sr_value := JStr v\<rparr>]\<rparr>]\<rparr>)\<rparr>"

lemma canonical_text: "canonical_json X (JStr v) = Inr (enc X (JStr v))"
  by (rule canonical_json_Ok) simp_all

lemma comparable_name: "is_comparable_pointer ''/fields/name'' [''/fields/name'']"
  by (simp add: is_comparable_pointer_def)

lemma cited_page:
  "cited X pearl_policy (page_citing v) (''milk:drink:boba'', ''/fields/name'') = {enc X (JStr v)}"
  by (auto simp: cited_def comparable_refs_def page_refs_def page_citing_def demo_page_def good_evidence_def
      good_section_def good_ref_def pearl_policy_def comparable_name claim_id_of_def canonical_text)

lemma encodable_page: "encodable X pearl_policy (page_citing v)"
  by (simp add: encodable_def comparable_refs_def page_refs_def page_citing_def demo_page_def good_evidence_def
      good_section_def good_ref_def canonical_text)

lemma arbitrate_page: "\<exists>rep. arbitrate X (page_citing v) [page_citing w] pearl_policy = Inr rep"
  by (rule arbitrate_cases[of "page_citing v" "[page_citing w]" X pearl_policy]) (simp_all add: encodable_page)

text \<open>C39. The arbiter reports a divergence for exactly the claims (entity and field pointer, among the
  policy's pointers) on which two references of the candidate and the related pages have different
  canonical values. A claim is compared when it has at least two votes, the distinct values each page cites
  for it; the report counts exactly these claims. The score is absent exactly when there is none, and else the
  share of the compared claims that do not diverge, in \<^verbatim>\<open>f32\<close>: a fraction in the unit interval, one when nothing
  diverges; for up to 2^20 compared claims a score of one means no divergence. \<close>

theorem arbitrate_exact:
  assumes "arbitrate X candidate related pol = Inr rep"
  shows "cf_key ` set (cr_findings rep)
       = (\<lambda>k. \<lparr>ck_entity = fst k, ck_pointer = snd k\<rparr>) ` {k. diverges X pol (candidate # related) k}
     \<and> cr_candidates rep = length related
     \<and> cr_compared rep = card {k. 2 \<le> votes_on X pol (candidate # related) k}
     \<and> cr_score rep = (if cr_compared rep = 0 then None else Some (f_ratio f32
           (card {k. 2 \<le> votes_on X pol (candidate # related) k \<and> \<not> diverges X pol (candidate # related) k})
           (cr_compared rep)))
     \<and> (\<forall>s. cr_score rep = Some s \<longrightarrow> in_unit s \<and> (cr_findings rep = [] \<longrightarrow> s = Fin 1)
          \<and> (cr_compared rep \<le> 2 ^ 20 \<and> f_le (Fin 1) s \<longrightarrow> cr_findings rep = []))"
proof (rule arbitrate_cases[of candidate related X pol])
  fix g assume g: "is_groups (votes X pol candidate related) g"
    "arbitrate X candidate related pol = Inr (report_of X g (length related))"
  then have rep: "rep = report_of X g (length related)" using assms by simp
  have score: "in_unit s \<and> (cr_findings rep = [] \<longrightarrow> s = Fin 1)
      \<and> (cr_compared rep \<le> 2 ^ 20 \<and> f_le (Fin 1) s \<longrightarrow> cr_findings rep = [])" if "cr_score rep = Some s" for s
    using report_score(2,3,4)[OF that[unfolded rep]] unfolding rep by argo
  have count: "cr_compared rep = card {k. 2 \<le> votes_on X pol (candidate # related) k}"
    unfolding rep using compared_counts(1)[OF g(1)] by (simp add: compared_claims_def)
  have ratio: "cr_score rep = (if cr_compared rep = 0 then None else Some (f_ratio f32
       (card {k. 2 \<le> votes_on X pol (candidate # related) k \<and> \<not> diverges X pol (candidate # related) k})
       (cr_compared rep)))"
    unfolding rep using compared_counts(2)[OF g(1)] by (simp add: compared_claims_def)
  have n: "cr_candidates rep = length related" unfolding rep by (simp add: report_of_def Let_def)
  have keys: "cf_key ` set (cr_findings rep)
       = (\<lambda>k. \<lparr>ck_entity = fst k, ck_pointer = snd k\<rparr>) ` {k. diverges X pol (candidate # related) k}"
    unfolding rep by (rule finding_keys[OF g(1)])
  show ?thesis by (rule conjI[OF keys conjI[OF n conjI[OF count conjI[OF ratio allI[OF impI[OF score]]]]]])
qed (use assms in simp)

theorem arbitrate_exact_witness:
  "\<exists>rep f. arbitrate sample_ext (page_citing ''boba'') [page_citing ''tea''] pearl_policy = Inr rep
     \<and> f \<in> set (cr_findings rep) \<and> ck_entity (cf_key f) = ''milk:drink:boba''"
proof -
  obtain rep where rep: "arbitrate sample_ext (page_citing ''boba'') [page_citing ''tea''] pearl_policy = Inr rep"
    using arbitrate_page by blast
  have "enc sample_ext (JStr ''boba'') \<noteq> enc sample_ext (JStr ''tea'')" by (simp add: frame_def)
  then have "diverges sample_ext pearl_policy [page_citing ''boba'', page_citing ''tea''] (''milk:drink:boba'', ''/fields/name'')"
    by (simp add: diverges_def cited_page)
  then have "\<lparr>ck_entity = ''milk:drink:boba'', ck_pointer = ''/fields/name''\<rparr> \<in> cf_key ` set (cr_findings rep)"
    unfolding arbitrate_exact[OF rep, THEN conjunct1]
    by (intro image_eqI[where x = "(''milk:drink:boba'', ''/fields/name'')"]) simp_all
  then obtain f where f: "f \<in> set (cr_findings rep)"
    "cf_key f = \<lparr>ck_entity = ''milk:drink:boba'', ck_pointer = ''/fields/name''\<rparr>"
    by (elim imageE) (erule that[OF _ sym])
  show ?thesis using rep f by (intro exI[of _ rep] exI[of _ f]) simp
qed

text \<open>The order in which the related pages come back does not change the report. \<close>

theorem arbitrate_order_irrelevant:
  assumes "mset related = mset related'"
  shows "arbitrate X candidate related pol = arbitrate X candidate related' pol"
proof -
  have s: "set related = set related'" "length related = length related'"
    using assms mset_eq_setD mset_eq_length by blast+
  show ?thesis
  proof (rule arbitrate_cases[of candidate related X pol])
    fix g assume e: "\<forall>p\<in>set (candidate # related). encodable X pol p"
      and g: "is_groups (votes X pol candidate related) g"
        "arbitrate X candidate related pol = Inr (report_of X g (length related))"
    show ?thesis
    proof (rule arbitrate_cases[of candidate related' X pol])
      fix g' assume g': "is_groups (votes X pol candidate related') g'"
        "arbitrate X candidate related' pol = Inr (report_of X g' (length related'))"
      have "report_of X g (length related) = report_of X g' (length related)"
        by (rule report_same[OF g(1) g'(1) votes_permuted[OF assms]])
      then show ?thesis using g(2) g'(2) s(2) by simp
    qed (use e s(1) in simp)
  next
    assume e: "\<not> (\<forall>p\<in>set (candidate # related). encodable X pol p)"
      and a: "arbitrate X candidate related pol = Inl Validation"
    show ?thesis
      by (rule arbitrate_cases[of candidate related' X pol]) (use e a s(1) in simp_all)
  qed
qed

theorem arbitrate_order_irrelevant_witness:
  "arbitrate sample_ext (page_citing ''boba'') [page_citing ''tea'', page_citing ''boba''] pearl_policy
     = arbitrate sample_ext (page_citing ''boba'') [page_citing ''boba'', page_citing ''tea''] pearl_policy"
  by (rule arbitrate_order_irrelevant) simp

section \<open>Scores\<close>

text \<open>No report the built-in scorer makes of the built-in validator's and arbiter's reports is refused
  by the finiteness check: every dimension is a number of the unit interval after the rounding to
  \<^verbatim>\<open>f32\<close>, whatever the compiler answered. \<close>

theorem scores_in_range:
  assumes "arbitrate X candidate related cpol = Inr cons" "length (ow_markdown (ce_wiki ev)) < 2 ^ 32"
  shows "validate_score_finite
     (score_with_consistency src page (validate_refs K src ev require) valid cons cx pol) = Inr ()"
proof -
  obtain g where g: "cons = report_of X g (length related)"
    by (rule arbitrate_cases[of candidate related X cpol]) (use assms(1) in auto)
  have c: "\<forall>s. cr_score cons = Some s \<longrightarrow> in_unit s" using report_score(2) g by blast
  have v: "rr_valid (validate_refs K src ev require) \<le> rr_occurrences (validate_refs K src ev require)"
    using assms(2) by (intro report_valid_le) (simp add: u32_max_def)
  note dims = score_dims_unit[OF report_counts(1) v, of src cons]
  show ?thesis
    using c dims by (auto simp: validate_score_finite_def score_with_consistency_def Let_def score_in_range_iff
        score_of_def split: option.splits)
qed

theorem scores_in_range_witness:
  "\<exists>cons. arbitrate sample_ext (page_citing ''boba'') [page_citing ''tea''] pearl_policy = Inr cons
     \<and> validate_score_finite (score_with_consistency good_source (Some (demo_page ''h''))
          (validate_refs good_codec good_source good_evidence True) True cons demo_context demo_policy) = Inr ()"
proof -
  obtain rep where rep: "arbitrate sample_ext (page_citing ''boba'') [page_citing ''tea''] pearl_policy = Inr rep"
    using arbitrate_page by blast
  then show ?thesis
    using scores_in_range[OF rep, of good_evidence good_source "Some (demo_page ''h'')" good_codec True True demo_context demo_policy]
    by (auto simp: good_evidence_def good_wiki_def newline_def)
qed

end
