(* ===== verification/Filters.thy ===== *)
theory Filters
  imports Facts_Store
begin

text \<open>
  Merging filter conditions when a query is rewritten (\<^verbatim>\<open>resolve_conflicts\<close> and \<^verbatim>\<open>push_merged\<close> of
  \<^verbatim>\<open>query_engine/qug.rs\<close>): the definitions follow the code, the lemmas compare the merged list with the
  conjunction of its conditions on the fact plane.
\<close>

section \<open>Conditions as JSON\<close>

text \<open>The derived serializer of a condition, its members in declaration order. serde writes a bound that is not finite as null.\<close>

definition bound_json :: "flt option \<Rightarrow> json" where
  "bound_json b = (case b of None \<Rightarrow> JNull | Some x \<Rightarrow> if is_finite x then JFloat x else JNull)"

definition condition_json :: "filter_condition \<Rightarrow> json" where
  "condition_json c =
     (case c of
        NumericRange name lo hi \<Rightarrow>
          JObj [(''NumericRange'', JObj [(''field'', JStr name), (''min'', bound_json lo), (''max'', bound_json hi)])]
      | TextEquals name v \<Rightarrow> JObj [(''TextEquals'', JObj [(''field'', JStr name), (''value'', JStr v)])]
      | RefContains name refs \<Rightarrow>
          JObj [(''RefContains'', JObj [(''field'', JStr name), (''refs'', JArr (map JStr refs))])]
      | RefExcludes name refs \<Rightarrow>
          JObj [(''RefExcludes'', JObj [(''field'', JStr name), (''refs'', JArr (map JStr refs))])])"

definition finite_bound :: "flt option \<Rightarrow> bool" where
  "finite_bound b = (case b of None \<Rightarrow> True | Some x \<Rightarrow> is_finite x)"

definition condition_finite :: "filter_condition \<Rightarrow> bool" where
  "condition_finite c = (case c of NumericRange _ lo hi \<Rightarrow> finite_bound lo \<and> finite_bound hi | _ \<Rightarrow> True)"

lemma condition_json_finite [simp]: "json_finite (condition_json c)"
  by (auto simp: condition_json_def bound_json_def split: filter_condition.split option.split)

lemma bound_json_inject: "finite_bound x \<Longrightarrow> finite_bound y \<Longrightarrow> bound_json x = bound_json y \<longleftrightarrow> x = y"
  by (cases x; cases y) (simp_all add: bound_json_def finite_bound_def)

lemma condition_json_inject:
  assumes "condition_finite c" "condition_finite c'" "condition_json c = condition_json c'"
  shows "c = c'"
proof -
  have "map JStr xs = map JStr ys \<Longrightarrow> xs = ys" for xs ys by (rule map_injective) (auto simp: inj_def)
  then show ?thesis
    using assms by (cases c; cases c') (auto simp: condition_json_def condition_finite_def bound_json_inject)
qed

section \<open>The merge\<close>

text \<open>\<^verbatim>\<open>==\<close> of the derived \<^verbatim>\<open>PartialEq\<close>: a NaN bound equals nothing.\<close>

definition f_eq :: "flt \<Rightarrow> flt \<Rightarrow> bool" where
  "f_eq a b = (f_le a b \<and> f_le b a)"

fun bound_eq :: "flt option \<Rightarrow> flt option \<Rightarrow> bool" where
  "bound_eq None None = True"
| "bound_eq (Some a) (Some b) = f_eq a b"
| "bound_eq _ _ = False"

fun condition_eq :: "filter_condition \<Rightarrow> filter_condition \<Rightarrow> bool" where
  "condition_eq (NumericRange f lo hi) (NumericRange g lo' hi') = (f = g \<and> bound_eq lo lo' \<and> bound_eq hi hi')"
| "condition_eq (TextEquals f v) (TextEquals g w) = (f = g \<and> v = w)"
| "condition_eq (RefContains f rs) (RefContains g ss) = (f = g \<and> rs = ss)"
| "condition_eq (RefExcludes f rs) (RefExcludes g ss) = (f = g \<and> rs = ss)"
| "condition_eq _ _ = False"

text \<open>\<^verbatim>\<open>f64::max\<close>: the larger value, and the other operand when one is a NaN.\<close>

definition f_max :: "flt \<Rightarrow> flt \<Rightarrow> flt" where
  "f_max a b = (if a = NaN then b else if b = NaN then a else if f_le a b then b else a)"

fun max_opt :: "flt option \<Rightarrow> flt option \<Rightarrow> flt option" where
  "max_opt (Some x) (Some y) = Some (f_max x y)"
| "max_opt (Some x) None = Some x"
| "max_opt None y = y"

fun min_opt :: "flt option \<Rightarrow> flt option \<Rightarrow> flt option" where
  "min_opt (Some x) (Some y) = Some (f_min x y)"
| "min_opt (Some x) None = Some x"
| "min_opt None y = y"

definition is_range_of :: "string \<Rightarrow> filter_condition \<Rightarrow> bool" where
  "is_range_of field c = (case c of NumericRange f _ _ \<Rightarrow> f = field | _ \<Rightarrow> False)"

definition is_refs_of :: "string \<Rightarrow> filter_condition \<Rightarrow> bool" where
  "is_refs_of field c = (case c of RefContains f _ \<Rightarrow> f = field | RefExcludes f _ \<Rightarrow> f = field | _ \<Rightarrow> False)"

fun merge_ranges :: "string \<Rightarrow> flt option \<Rightarrow> flt option \<Rightarrow> filters \<Rightarrow> flt option \<times> flt option" where
  "merge_ranges field lo hi [] = (lo, hi)"
| "merge_ranges field lo hi (NumericRange f m x # out) =
     (if f = field then merge_ranges field (max_opt lo m) (min_opt hi x) out else merge_ranges field lo hi out)"
| "merge_ranges field lo hi (_ # out) = merge_ranges field lo hi out"

text \<open>The references all same-field \<^verbatim>\<open>RefContains\<close> agree on, and all excluded ones.\<close>

fun common_refs :: "string \<Rightarrow> string list option \<Rightarrow> filters \<Rightarrow> string list option" where
  "common_refs field acc [] = acc"
| "common_refs field acc (RefContains f cs # out) =
     (if f = field
      then common_refs field (Some (case acc of None \<Rightarrow> cs | Some cur \<Rightarrow> filter (\<lambda>r. r \<in> set cs) cur)) out
      else common_refs field acc out)"
| "common_refs field acc (_ # out) = common_refs field acc out"

definition push_new :: "string list \<Rightarrow> string list \<Rightarrow> string list" where
  "push_new es acc = foldl (\<lambda>acc r. if r \<in> set acc then acc else acc @ [r]) acc es"

fun excluded_refs :: "string \<Rightarrow> string list \<Rightarrow> filters \<Rightarrow> string list" where
  "excluded_refs field acc [] = acc"
| "excluded_refs field acc (RefExcludes f es # out) =
     (if f = field then excluded_refs field (push_new es acc) out else excluded_refs field acc out)"
| "excluded_refs field acc (_ # out) = excluded_refs field acc out"

definition minus_refs :: "string list \<Rightarrow> string list \<Rightarrow> string list" where
  "minus_refs cs es = filter (\<lambda>r. r \<notin> set es) cs"

definition push_range :: "string \<Rightarrow> flt option \<Rightarrow> flt option \<Rightarrow> filters \<Rightarrow> filters" where
  "push_range field lo hi out =
     (let (lo', hi') = merge_ranges field lo hi out;
          empty = (case (lo', hi') of (Some a, Some b) \<Rightarrow> f_lt b a | _ \<Rightarrow> False)
      in if empty \<or> \<not> list_ex (is_range_of field) out then out @ [NumericRange field lo hi]
         else filter (\<lambda>c. \<not> is_range_of field c) out @ [NumericRange field lo' hi'])"

definition push_contains :: "string \<Rightarrow> string list \<Rightarrow> filters \<Rightarrow> filters" where
  "push_contains field refs out =
     (case common_refs field (Some refs) out of
        None \<Rightarrow> out
      | Some cs \<Rightarrow> out @ [RefContains field (minus_refs cs (excluded_refs field [] out))])"

definition push_excludes :: "string \<Rightarrow> string list \<Rightarrow> filters \<Rightarrow> filters" where
  "push_excludes field refs out =
     (if \<not> list_ex (is_refs_of field) out then out @ [RefExcludes field refs]
      else filter (\<lambda>c. \<not> is_refs_of field c) out
        @ (case common_refs field None out of
             None \<Rightarrow> [] | Some cs \<Rightarrow> [RefContains field (minus_refs cs (excluded_refs field refs out))])
        @ [RefExcludes field (excluded_refs field refs out)])"

definition push_merged :: "filters \<Rightarrow> filter_condition \<Rightarrow> filters" where
  "push_merged out c =
     (if list_ex (condition_eq c) out then out
      else (case c of
              NumericRange field lo hi \<Rightarrow> push_range field lo hi out
            | TextEquals field v \<Rightarrow> out @ [TextEquals field v]
            | RefContains field refs \<Rightarrow> push_contains field refs out
            | RefExcludes field refs \<Rightarrow> push_excludes field refs out))"

definition resolve_conflicts :: "filters \<Rightarrow> filters" where
  "resolve_conflicts conditions = foldl push_merged [] conditions"

section \<open>The conjunction\<close>

definition all_match :: "db \<Rightarrow> string \<Rightarrow> filters \<Rightarrow> bool" where
  "all_match d entity cs = (\<forall>c\<in>set cs. entity_matches d entity c)"

definition entity_refs :: "db \<Rightarrow> string \<Rightarrow> string \<Rightarrow> string set" where
  "entity_refs d entity field = set (field_refs entity field (db_refs d))"

lemma all_match_simps [simp]:
  "all_match d entity []"
  "all_match d entity (c # cs) \<longleftrightarrow> entity_matches d entity c \<and> all_match d entity cs"
  "all_match d entity (cs @ cs') \<longleftrightarrow> all_match d entity cs \<and> all_match d entity cs'"
  by (auto simp: all_match_def)

lemma refs_match [simp]:
  "entity_matches d entity (RefContains field refs) \<longleftrightarrow> entity_refs d entity field \<inter> set refs \<noteq> {}"
  "entity_matches d entity (RefExcludes field refs) \<longleftrightarrow> entity_refs d entity field \<inter> set refs = {}"
  by (simp_all add: entity_matches_def entity_refs_def)

text \<open>No bound is a NaN: JSON has none.\<close>

definition numbers_ok :: "filter_condition \<Rightarrow> bool" where
  "numbers_ok c = (case c of NumericRange _ lo hi \<Rightarrow> lo \<noteq> Some NaN \<and> hi \<noteq> Some NaN | _ \<Rightarrow> True)"

lemma f_max_le: "a \<noteq> NaN \<Longrightarrow> b \<noteq> NaN \<Longrightarrow> f_le (f_max a b) x \<longleftrightarrow> f_le a x \<and> f_le b x"
  by (cases a; cases b; cases x) (auto simp: f_max_def)

lemma f_min_ge: "a \<noteq> NaN \<Longrightarrow> b \<noteq> NaN \<Longrightarrow> f_le x (f_min a b) \<longleftrightarrow> f_le x a \<and> f_le x b"
  by (cases a; cases b; cases x) (auto simp: f_min_def)

lemma bound_max:
  "a \<noteq> Some NaN \<Longrightarrow> b \<noteq> Some NaN \<Longrightarrow> bound_ok f_ge col (max_opt a b) \<longleftrightarrow> bound_ok f_ge col a \<and> bound_ok f_ge col b"
  by (cases a; cases b; cases col) (auto simp: bound_ok_def f_ge_def f_max_le)

lemma bound_min:
  "a \<noteq> Some NaN \<Longrightarrow> b \<noteq> Some NaN \<Longrightarrow> bound_ok f_le col (min_opt a b) \<longleftrightarrow> bound_ok f_le col a \<and> bound_ok f_le col b"
  by (cases a; cases b; cases col) (auto simp: bound_ok_def f_min_ge)

lemma opt_ok: "a \<noteq> Some NaN \<Longrightarrow> b \<noteq> Some NaN \<Longrightarrow> max_opt a b \<noteq> Some NaN \<and> min_opt a b \<noteq> Some NaN"
  by (cases a; cases b) (auto simp: f_max_def f_min_def)

lemma opt_None: "max_opt a b = None \<longleftrightarrow> a = None \<and> b = None" "min_opt a b = None \<longleftrightarrow> a = None \<and> b = None"
  by (cases a; cases b; simp)+

lemma merge_ranges_match:
  assumes "\<forall>c\<in>set out. numbers_ok c" "lo \<noteq> Some NaN" "hi \<noteq> Some NaN"
  shows "entity_matches d entity (case merge_ranges field lo hi out of (a, b) \<Rightarrow> NumericRange field a b) \<longleftrightarrow>
     entity_matches d entity (NumericRange field lo hi) \<and> all_match d entity (filter (is_range_of field) out)"
  using assms
proof (induction field lo hi out rule: merge_ranges.induct)
  case (2 field lo hi f m x out)
  show ?case
  proof (cases "f = field")
    case True
    have ok: "m \<noteq> Some NaN" "x \<noteq> Some NaN" using 2(3) by (auto simp: numbers_ok_def)
    have "entity_matches d entity (NumericRange field (max_opt lo m) (min_opt hi x)) \<longleftrightarrow>
      entity_matches d entity (NumericRange field lo hi) \<and> entity_matches d entity (NumericRange field m x)"
      using bound_max[OF 2(4) ok(1)] bound_min[OF 2(5) ok(2)]
      by (auto simp: entity_matches_def opt_None bound_ok_def split: option.splits)
    then show ?thesis using 2(1)[OF True] 2(3-5) ok opt_ok[OF 2(4) ok(1)] opt_ok[OF 2(5) ok(2)] True
      by (simp add: is_range_of_def)
  next
    case False
    then show ?thesis using 2 by (simp add: is_range_of_def)
  qed
qed (simp_all add: is_range_of_def)

lemma all_match_partition:
  "all_match d entity out \<longleftrightarrow> all_match d entity (filter p out) \<and> all_match d entity (filter (\<lambda>c. \<not> p c) out)"
  by (auto simp: all_match_def)

lemma push_range_match:
  assumes "\<forall>c\<in>set out. numbers_ok c" "lo \<noteq> Some NaN" "hi \<noteq> Some NaN"
  shows "all_match d entity (push_range field lo hi out) \<longleftrightarrow>
     all_match d entity out \<and> entity_matches d entity (NumericRange field lo hi)"
  using merge_ranges_match[OF assms, of d entity field] all_match_partition[of d entity out "is_range_of field"]
  by (auto simp: push_range_def Let_def split: prod.splits)

lemma condition_eq_imp: "condition_eq c c' \<Longrightarrow> c = c'"
proof -
  have f: "f_eq a b \<Longrightarrow> a = b" for a b by (cases a; cases b) (auto simp: f_eq_def)
  have b: "bound_eq x y \<Longrightarrow> x = y" for x y by (cases x; cases y) (auto dest: f)
  show "condition_eq c c' \<Longrightarrow> c = c'" by (cases c; cases c') (auto dest: b)
qed

definition contains_of :: "string \<Rightarrow> filters \<Rightarrow> string list list" where
  "contains_of field out = List.map_filter (\<lambda>c. case c of RefContains f cs \<Rightarrow> if f = field then Some cs else None | _ \<Rightarrow> None) out"

definition excludes_of :: "string \<Rightarrow> filters \<Rightarrow> string list list" where
  "excludes_of field out = List.map_filter (\<lambda>c. case c of RefExcludes f es \<Rightarrow> if f = field then Some es else None | _ \<Rightarrow> None) out"

lemma contains_of_simps [simp]:
  "contains_of field [] = []"
  "contains_of field (c # out) = (case c of RefContains f cs \<Rightarrow> if f = field then [cs] else [] | _ \<Rightarrow> []) @ contains_of field out"
  "contains_of field (out @ out') = contains_of field out @ contains_of field out'"
  by (auto simp: contains_of_def List.map_filter_def split: filter_condition.splits)

lemma excludes_of_simps [simp]:
  "excludes_of field [] = []"
  "excludes_of field (c # out) = (case c of RefExcludes f cs \<Rightarrow> if f = field then [cs] else [] | _ \<Rightarrow> []) @ excludes_of field out"
  by (auto simp: excludes_of_def List.map_filter_def split: filter_condition.splits)

lemma common_refs_Some:
  "\<exists>cs. common_refs field (Some acc) out = Some cs \<and> set cs = set acc \<inter> (\<Inter>l\<in>set (contains_of field out). set l)"
  by (induction field "Some acc" out arbitrary: acc rule: common_refs.induct) (auto split: if_splits)

lemma common_refs_None:
  "contains_of field out = [] \<Longrightarrow> common_refs field None out = None"
  "contains_of field out \<noteq> [] \<Longrightarrow>
     \<exists>cs. common_refs field None out = Some cs \<and> set cs = (\<Inter>l\<in>set (contains_of field out). set l)"
proof (induction out)
  case (Cons c out)
  {
    case 1
    then show ?case using Cons by (cases c) (auto split: if_splits)
  next
    case 2
    show ?case
    proof (cases c)
      case (RefContains f cs)
      then show ?thesis using Cons 2 common_refs_Some[of field cs out] by (auto split: if_splits)
    qed (use Cons 2 in auto)
  }
qed simp_all

lemma set_push_new: "set (push_new es acc) = set es \<union> set acc"
  unfolding push_new_def by (induction es arbitrary: acc) auto

lemma set_excluded_refs: "set (excluded_refs field acc out) = set acc \<union> (\<Union>l\<in>set (excludes_of field out). set l)"
  by (induction field acc out rule: excluded_refs.induct) (auto simp: set_push_new split: if_splits)

text \<open>All conditions of one field on references, as one statement on the entity's references.\<close>

definition refs_ok :: "db \<Rightarrow> string \<Rightarrow> string \<Rightarrow> filters \<Rightarrow> bool" where
  "refs_ok d entity field out \<longleftrightarrow>
     (\<forall>l\<in>set (contains_of field out). entity_refs d entity field \<inter> set l \<noteq> {})
     \<and> (\<forall>l\<in>set (excludes_of field out). entity_refs d entity field \<inter> set l = {})"

lemma refs_ok_match: "all_match d entity (filter (is_refs_of field) out) \<longleftrightarrow> refs_ok d entity field out"
  by (induction out) (auto simp: refs_ok_def is_refs_of_def split: filter_condition.splits)

lemma match_by_field:
  "all_match d entity out \<longleftrightarrow> refs_ok d entity field out \<and> all_match d entity (filter (\<lambda>c. \<not> is_refs_of field c) out)"
  using all_match_partition[of d entity out "is_refs_of field"] refs_ok_match by blast

lemma push_contains_sound:
  "all_match d entity (push_contains field refs out) \<Longrightarrow>
     all_match d entity out \<and> entity_matches d entity (RefContains field refs)"
  using common_refs_Some[of field refs out] by (auto simp: push_contains_def minus_refs_def)

lemma push_contains_exact:
  assumes "contains_of field out = []"
  shows "all_match d entity (push_contains field refs out) \<longleftrightarrow>
     all_match d entity out \<and> entity_matches d entity (RefContains field refs)"
proof -
  obtain cs where cs: "common_refs field (Some refs) out = Some cs" "set cs = set refs"
    using common_refs_Some[of field refs out] assms by auto
  have "entity_refs d entity field \<inter> set (excluded_refs field [] out) = {}" if "all_match d entity out"
    using that unfolding match_by_field[of d entity out field] refs_ok_def set_excluded_refs by auto
  then show ?thesis unfolding push_contains_def cs(1) using cs(2) by (auto simp: minus_refs_def)
qed

lemma push_excludes_sound:
  assumes m: "all_match d entity (push_excludes field refs out)"
  shows "all_match d entity out \<and> entity_matches d entity (RefExcludes field refs)"
proof (cases "list_ex (is_refs_of field) out")
  case True
  let ?ex = "excluded_refs field refs out"
  have ex: "entity_refs d entity field \<inter> set ?ex = {}"
    and rest: "all_match d entity (filter (\<lambda>c. \<not> is_refs_of field c) out)"
    using m True by (simp_all add: push_excludes_def)
  have "entity_refs d entity field \<inter> set l \<noteq> {}" if l: "l \<in> set (contains_of field out)" for l
  proof -
    from l have "contains_of field out \<noteq> []" by auto
    then obtain cs where cs: "common_refs field None out = Some cs" "set cs = (\<Inter>l\<in>set (contains_of field out). set l)"
      using common_refs_None(2)[of field out] by auto
    have "entity_refs d entity field \<inter> set (minus_refs cs ?ex) \<noteq> {}"
      using m True cs(1) by (simp add: push_excludes_def)
    moreover have "set (minus_refs cs ?ex) \<subseteq> set l" using cs(2) l by (auto simp: minus_refs_def)
    ultimately show ?thesis by blast
  qed
  moreover have "entity_refs d entity field \<inter> set l = {}" if "l \<in> set (excludes_of field out)" for l
    using ex that unfolding set_excluded_refs by blast
  ultimately have "refs_ok d entity field out" unfolding refs_ok_def by blast
  moreover have "entity_matches d entity (RefExcludes field refs)" using ex by (auto simp: set_excluded_refs)
  ultimately show ?thesis using rest unfolding match_by_field[of d entity out field] by argo
qed (use m in \<open>simp add: push_excludes_def\<close>)

lemma push_excludes_exact:
  assumes "length (contains_of field out) \<le> 1"
  shows "all_match d entity (push_excludes field refs out) \<longleftrightarrow>
     all_match d entity out \<and> entity_matches d entity (RefExcludes field refs)"
proof (intro iffI)
  assume m: "all_match d entity out \<and> entity_matches d entity (RefExcludes field refs)"
  then have ok: "refs_ok d entity field out" using match_by_field by blast
  have ex: "entity_refs d entity field \<inter> set (excluded_refs field refs out) = {}"
    using m ok by (auto simp: set_excluded_refs refs_ok_def)
  show "all_match d entity (push_excludes field refs out)"
  proof (cases "contains_of field out")
    case Nil
    then show ?thesis using m ex common_refs_None(1)[OF Nil]
      by (auto simp: push_excludes_def all_match_def)
  next
    case (Cons l ls)
    then have one: "contains_of field out = [l]" using assms by (cases ls) auto
    then obtain cs where cs: "common_refs field None out = Some cs" "set cs = set l"
      using common_refs_None(2)[of field out] by auto
    have "entity_refs d entity field \<inter> set l \<noteq> {}" using ok one by (simp add: refs_ok_def)
    then show ?thesis using m ex cs by (auto simp: push_excludes_def all_match_def minus_refs_def)
  qed
qed (rule push_excludes_sound)

section \<open>The whole merge\<close>

lemma merge_ranges_ok:
  "\<forall>c\<in>set out. numbers_ok c \<Longrightarrow> lo \<noteq> Some NaN \<Longrightarrow> hi \<noteq> Some NaN \<Longrightarrow>
   fst (merge_ranges field lo hi out) \<noteq> Some NaN \<and> snd (merge_ranges field lo hi out) \<noteq> Some NaN"
proof (induction field lo hi out rule: merge_ranges.induct)
  case (2 field lo hi f m x out)
  have ok: "m \<noteq> Some NaN" "x \<noteq> Some NaN" using 2(3) by (auto simp: numbers_ok_def)
  show ?case using 2 opt_ok[OF 2(4) ok(1)] opt_ok[OF 2(5) ok(2)] by simp
qed simp_all

lemma push_merged_ok:
  assumes "\<forall>c\<in>set out. numbers_ok c" "numbers_ok c"
  shows "\<forall>c\<in>set (push_merged out c). numbers_ok c"
proof (cases c)
  case (NumericRange field lo hi)
  then have b: "lo \<noteq> Some NaN" "hi \<noteq> Some NaN" using assms(2) by (auto simp: numbers_ok_def)
  obtain lo' hi' where m: "merge_ranges field lo hi out = (lo', hi')" by fastforce
  then have "lo' \<noteq> Some NaN" "hi' \<noteq> Some NaN" using merge_ranges_ok[OF assms(1) b, of field] by simp_all
  then have "numbers_ok (NumericRange field lo' hi')" by (simp add: numbers_ok_def)
  then show ?thesis using NumericRange assms m
    by (auto simp: push_merged_def push_range_def)
next
  case (RefContains field refs)
  then show ?thesis using assms by (auto simp: push_merged_def push_contains_def numbers_ok_def split: option.splits)
next
  case (RefExcludes field refs)
  then show ?thesis using assms by (auto simp: push_merged_def push_excludes_def numbers_ok_def split: option.splits)
qed (use assms in \<open>auto simp: push_merged_def\<close>)

lemma push_merged_sound:
  assumes "\<forall>c\<in>set out. numbers_ok c" "numbers_ok c" "all_match d entity (push_merged out c)"
  shows "all_match d entity out \<and> entity_matches d entity c"
proof (cases "list_ex (condition_eq c) out")
  case True
  then show ?thesis using assms(3) condition_eq_imp by (auto simp: push_merged_def all_match_def list_ex_iff)
next
  case False
  show ?thesis
  proof (cases c)
    case (NumericRange field lo hi)
    then show ?thesis using assms False push_range_match[OF assms(1), of lo hi d entity field]
      by (auto simp: push_merged_def numbers_ok_def)
  next
    case (TextEquals field v)
    then show ?thesis using assms(3) False by (simp add: push_merged_def)
  next
    case (RefContains field refs)
    then have "all_match d entity (push_contains field refs out)" using assms(3) False by (simp add: push_merged_def)
    from push_contains_sound[OF this] show ?thesis unfolding RefContains .
  next
    case (RefExcludes field refs)
    then have "all_match d entity (push_excludes field refs out)" using assms(3) False by (simp add: push_merged_def)
    from push_excludes_sound[OF this] show ?thesis unfolding RefExcludes .
  qed
qed

lemma resolve_sound:
  assumes "\<forall>c\<in>set conds. numbers_ok c" "\<forall>c\<in>set out. numbers_ok c" "all_match d entity (foldl push_merged out conds)"
  shows "all_match d entity out \<and> all_match d entity conds"
  using assms
proof (induction conds arbitrary: out)
  case (Cons c conds)
  then have c: "numbers_ok c" "\<forall>c\<in>set conds. numbers_ok c" "\<forall>c\<in>set out. numbers_ok c" by simp_all
  have m: "all_match d entity (push_merged out c) \<and> all_match d entity conds"
    using Cons.IH[OF c(2) push_merged_ok[OF c(3,1)]] Cons.prems(3) by simp
  then have "all_match d entity out \<and> entity_matches d entity c" using push_merged_sound[OF c(3,1)] by blast
  with m show ?case by simp
qed simp

lemma push_merged_exact:
  assumes "\<forall>c\<in>set out. numbers_ok c" "numbers_ok c" "\<forall>f. length (contains_of f (out @ [c])) \<le> 1"
  shows "all_match d entity (push_merged out c) \<longleftrightarrow> all_match d entity out \<and> entity_matches d entity c"
proof (cases "list_ex (condition_eq c) out")
  case True
  then show ?thesis using condition_eq_imp by (auto simp: push_merged_def all_match_def list_ex_iff)
next
  case False
  show ?thesis
  proof (cases c)
    case (NumericRange field lo hi)
    then show ?thesis using assms False push_range_match[OF assms(1), of lo hi d entity field]
      by (auto simp: push_merged_def numbers_ok_def)
  next
    case (RefContains field refs)
    then have "contains_of field out = []" using assms(3)[THEN spec, of field] by simp
    then show ?thesis using False RefContains push_contains_exact by (simp add: push_merged_def)
  next
    case (RefExcludes field refs)
    then have "length (contains_of field out) \<le> 1" using assms(3)[THEN spec, of field] by simp
    then show ?thesis using False RefExcludes push_excludes_exact by (simp add: push_merged_def)
  qed (use False in \<open>simp add: push_merged_def\<close>)
qed

lemma contains_of_filter_range: "contains_of f (filter (\<lambda>c. \<not> is_range_of field c) out) = contains_of f out"
  by (induction out) (auto simp: is_range_of_def split: filter_condition.splits)

lemma contains_of_filter_refs:
  "contains_of field (filter (\<lambda>c. \<not> is_refs_of field c) out) = []"
  "f \<noteq> field \<Longrightarrow> contains_of f (filter (\<lambda>c. \<not> is_refs_of field c) out) = contains_of f out"
  by (induction out) (auto simp: is_refs_of_def split: filter_condition.splits if_splits)

lemma push_merged_count: "length (contains_of f (push_merged out c)) \<le> length (contains_of f (out @ [c]))"
proof (cases c)
  case (NumericRange field lo hi)
  then show ?thesis
    by (auto simp: push_merged_def push_range_def Let_def contains_of_filter_range split: prod.splits)
next
  case (RefContains field refs)
  then show ?thesis by (auto simp: push_merged_def push_contains_def split: option.splits)
next
  case (RefExcludes field refs)
  have "common_refs field None out \<noteq> None \<Longrightarrow> contains_of field out \<noteq> []"
    using common_refs_None(1)[of field out] by fastforce
  then have "common_refs field None out = Some cs \<Longrightarrow> Suc 0 \<le> length (contains_of field out)" for cs
    by (cases "contains_of field out") auto
  then show ?thesis using RefExcludes
    by (cases "f = field") (auto simp: push_merged_def push_excludes_def contains_of_filter_refs split: option.splits)
qed (simp add: push_merged_def)

lemma resolve_exact:
  assumes "\<forall>c\<in>set conds. numbers_ok c" "\<forall>c\<in>set out. numbers_ok c" "\<forall>f. length (contains_of f (out @ conds)) \<le> 1"
  shows "all_match d entity (foldl push_merged out conds) \<longleftrightarrow> all_match d entity out \<and> all_match d entity conds"
  using assms
proof (induction conds arbitrary: out)
  case (Cons c conds)
  have "\<forall>f. length (contains_of f (out @ [c])) \<le> 1"
  proof
    fix f show "length (contains_of f (out @ [c])) \<le> 1" using Cons.prems(3)[THEN spec, of f] by simp
  qed
  note one = push_merged_exact[OF Cons.prems(2) _ this, of d entity]
  have "length (contains_of f (push_merged out c @ conds)) \<le> 1" for f
    using push_merged_count[of f out c] Cons.prems(3)[THEN spec, of f] by simp
  moreover have c: "numbers_ok c" "\<forall>c\<in>set conds. numbers_ok c" using Cons.prems(1) by simp_all
  ultimately have "all_match d entity (foldl push_merged (push_merged out c) conds)
      \<longleftrightarrow> all_match d entity (push_merged out c) \<and> all_match d entity conds"
    using Cons.IH[OF c(2) push_merged_ok[OF Cons.prems(2) c(1)]] by blast
  then show ?case using one[OF c(1)] by simp
qed simp

end
