(* ===== verification/Qug.thy ===== *)
theory Qug
  imports Filters Strings
begin

text \<open>
  The query-understanding graph of \<^verbatim>\<open>query_engine/qug.rs\<close>: phrase normalization, the graph built from
  edges, query rewriting and bounded traversal. Two things are parameters: \<open>lower\<close>, the scalars
  \<^verbatim>\<open>char::to_lowercase\<close> gives for one scalar, and \<open>order\<close>, the order in which petgraph yields the
  outgoing edges of a node, of which only that it is a permutation is used.
\<close>

section \<open>Phrases\<close>

type_synonym phrase = "nat list"

definition trim_scalars :: "nat list \<Rightarrow> nat list" where
  "trim_scalars cs = rev (dropWhile is_whitespace (rev (dropWhile is_whitespace cs)))"

fun normalize_loop :: "(nat \<Rightarrow> nat list) \<Rightarrow> phrase \<Rightarrow> nat list \<Rightarrow> phrase" where
  "normalize_loop lower out [] = out"
| "normalize_loop lower out (c # cs) =
     (if is_whitespace c then normalize_loop lower (if out \<noteq> [] \<and> last out \<noteq> 32 then out @ [32] else out) cs
      else normalize_loop lower (out @ lower c) cs)"

definition max_phrase_scalars :: nat where "max_phrase_scalars = 128"

definition normalize_phrase :: "(nat \<Rightarrow> nat list) \<Rightarrow> string \<Rightarrow> phrase result" where
  "normalize_phrase lower s =
     (let out = normalize_loop lower [] (trim_scalars (scalars s))
      in if out = [] then Inl Validation
         else if length out > max_phrase_scalars then Inl Validation else Inr out)"

section \<open>The graph\<close>

type_synonym link = "nat \<times> nat \<times> qug_edge"

record qug_graph =
  qg_nodes :: "phrase list"
  qg_links :: "link list"
  qg_by_phrase :: "(phrase \<times> nat) list"
  qg_seen :: "(phrase \<times> phrase \<times> string) list"
  qg_max_depth :: nat

definition empty_graph :: "nat \<Rightarrow> qug_graph" where
  "empty_graph depth = \<lparr>qg_nodes = [], qg_links = [], qg_by_phrase = [], qg_seen = [], qg_max_depth = depth\<rparr>"

definition node_for :: "(nat \<Rightarrow> nat list) \<Rightarrow> string \<Rightarrow> qug_graph \<Rightarrow> (nat \<times> qug_graph) result" where
  "node_for lower p g =
     try_bind (normalize_phrase lower p) (\<lambda>phr.
       case map_of (qg_by_phrase g) phr of
         Some i \<Rightarrow> Inr (i, g)
       | None \<Rightarrow> Inr (length (qg_nodes g),
           g\<lparr>qg_nodes := qg_nodes g @ [phr], qg_by_phrase := qg_by_phrase g @ [(phr, length (qg_nodes g))]\<rparr>))"

definition add_link :: "ext \<Rightarrow> nat \<Rightarrow> nat \<Rightarrow> qug_edge \<Rightarrow> qug_graph \<Rightarrow> qug_graph" where
  "add_link X s t e g =
     (let key = (qg_nodes g ! s, qg_nodes g ! t, x_edge_text X e)
      in if key \<in> set (qg_seen g) then g
         else g\<lparr>qg_seen := qg_seen g @ [key], qg_links := qg_links g @ [(s, t, e)]\<rparr>)"

fun add_synonyms :: "(nat \<Rightarrow> nat list) \<Rightarrow> ext \<Rightarrow> string \<Rightarrow> nat \<Rightarrow> string list \<Rightarrow> qug_graph \<Rightarrow> qug_graph result" where
  "add_synonyms lower X f s [] g = Inr g"
| "add_synonyms lower X f s (t # ts) g =
     try_bind (node_for lower t g) (\<lambda>(dst, g'). add_synonyms lower X f s ts (add_link X s dst (Synonym f [t]) g'))"

definition add_loop :: "(nat \<Rightarrow> nat list) \<Rightarrow> ext \<Rightarrow> string \<Rightarrow> qug_edge \<Rightarrow> qug_graph \<Rightarrow> qug_graph result" where
  "add_loop lower X p e g = try_bind (node_for lower p g) (\<lambda>(n, g'). Inr (add_link X n n e g'))"

definition add_edge :: "(nat \<Rightarrow> nat list) \<Rightarrow> ext \<Rightarrow> qug_edge \<Rightarrow> qug_graph \<Rightarrow> qug_graph result" where
  "add_edge lower X e g =
     (case e of
        Synonym f ts \<Rightarrow> try_bind (node_for lower f g) (\<lambda>(s, g'). add_synonyms lower X f s ts g')
      | Hyponym child parent \<Rightarrow>
          try_bind (node_for lower child g) (\<lambda>(s, g').
          try_bind (node_for lower parent g') (\<lambda>(t, g''). Inr (add_link X s t e g'')))
      | AttributePropagation p c \<Rightarrow> add_loop lower X p e g
      | IntentTemplate p q \<Rightarrow> add_loop lower X p e g
      | Negation p c \<Rightarrow> add_loop lower X p e g)"

fun add_edges :: "(nat \<Rightarrow> nat list) \<Rightarrow> ext \<Rightarrow> qug_edge list \<Rightarrow> qug_graph \<Rightarrow> qug_graph result" where
  "add_edges lower X [] g = Inr g"
| "add_edges lower X (e # es) g = try_bind (add_edge lower X e g) (add_edges lower X es)"

definition max_depth_limit :: nat where "max_depth_limit = 4"

definition from_edges :: "(nat \<Rightarrow> nat list) \<Rightarrow> ext \<Rightarrow> qug_edge list \<Rightarrow> nat \<Rightarrow> qug_graph result" where
  "from_edges lower X es depth =
     (if depth = 0 \<or> depth > max_depth_limit then Inl Validation
      else add_edges lower X es (empty_graph depth))"

section \<open>Rewriting\<close>

type_synonym link_order = "link list \<Rightarrow> link list"

definition outgoing :: "link_order \<Rightarrow> qug_graph \<Rightarrow> nat \<Rightarrow> link list" where
  "outgoing order g n = order (filter (\<lambda>l. fst l = n) (qg_links g))"

text \<open>
  The longest phrase that starts at a position. The loop runs over a \<^verbatim>\<open>HashMap\<close>, whose order does not
  matter: two phrases of one length that match at one position are the same key.
\<close>

definition longest_match :: "qug_graph \<Rightarrow> phrase \<Rightarrow> nat \<Rightarrow> (nat \<times> nat) option" where
  "longest_match g chars start =
     foldl (\<lambda>best (p, n).
       if p = [] \<or> start + length p > length chars then best
       else if take (length p) (drop start chars) = p
       then (case best of
               Some (blen, _) \<Rightarrow> if blen \<ge> length p then best else Some (length p, n)
             | None \<Rightarrow> Some (length p, n))
       else best) None (qg_by_phrase g)"

definition matched_nodes :: "qug_graph \<Rightarrow> phrase \<Rightarrow> nat list" where
  "matched_nodes g chars = List.map_filter (\<lambda>start. map_option snd (longest_match g chars start)) [0 ..< length chars]"

definition max_matches :: nat where "max_matches = 16"
definition max_expanded_terms :: nat where "max_expanded_terms = 64"

text \<open>By phrase length, the longest first, then by index; the stable sort keeps the indices in order.\<close>

definition ranked_nodes :: "qug_graph \<Rightarrow> nat list \<Rightarrow> nat list" where
  "ranked_nodes g ns =
     take max_matches (sort_key (\<lambda>n. - int (length (qg_nodes g ! n))) (remdups (sort ns)))"

definition push_unique :: "string list \<Rightarrow> string \<Rightarrow> string list" where
  "push_unique l v = (if v \<in> set l then l else l @ [v])"

record expansion =
  xp_terms :: "string list"
  xp_conditions :: filters
  xp_intent :: bool

definition edge_terms :: "qug_edge \<Rightarrow> string list" where
  "edge_terms e =
     (case e of Synonym f ts \<Rightarrow> ts | Hyponym child parent \<Rightarrow> [child, parent]
      | IntentTemplate p q \<Rightarrow> [q_text q] | _ \<Rightarrow> [])"

definition edge_conditions :: "qug_edge \<Rightarrow> filters" where
  "edge_conditions e =
     (case e of AttributePropagation p c \<Rightarrow> [c] | Negation p c \<Rightarrow> [c]
      | IntentTemplate p q \<Rightarrow> q_filters q | _ \<Rightarrow> [])"

definition is_intent :: "qug_edge \<Rightarrow> bool" where
  "is_intent e = (case e of IntentTemplate p q \<Rightarrow> True | _ \<Rightarrow> False)"

definition apply_edge :: "expansion \<Rightarrow> qug_edge \<Rightarrow> expansion" where
  "apply_edge x e = \<lparr>xp_terms = foldl push_unique (xp_terms x) (edge_terms e),
     xp_conditions = xp_conditions x @ edge_conditions e, xp_intent = (xp_intent x \<or> is_intent e)\<rparr>"

definition applied_links :: "link_order \<Rightarrow> qug_graph \<Rightarrow> phrase \<Rightarrow> link list" where
  "applied_links order g chars = concat (map (outgoing order g) (ranked_nodes g (matched_nodes g chars)))"

definition expand :: "link_order \<Rightarrow> qug_graph \<Rightarrow> phrase \<Rightarrow> query \<Rightarrow> expansion" where
  "expand order g chars q =
     foldl apply_edge \<lparr>xp_terms = [q_text q], xp_conditions = q_filters q, xp_intent = False\<rparr>
       (map (snd \<circ> snd) (applied_links order g chars))"

definition rewrite :: "(nat \<Rightarrow> nat list) \<Rightarrow> link_order \<Rightarrow> qug_graph \<Rightarrow> query \<Rightarrow> rewritten_query option" where
  "rewrite lower order g q =
     (if trim_scalars (scalars (q_text q)) = [] \<or> q_top_k q = 0 then None
      else (case normalize_phrase lower (q_text q) of
        Inl _ \<Rightarrow> None
      | Inr chars \<Rightarrow>
          if matched_nodes g chars = [] then None
          else let x = expand order g chars q;
                   terms = take max_expanded_terms (xp_terms x);
                   fs = resolve_conflicts (xp_conditions x)
               in if length terms = 1 \<and> terms ! 0 = q_text q
                     \<and> list_all2 condition_eq fs (q_filters q) \<and> \<not> xp_intent x
                  then None
                  else Some \<lparr>rw_terms = terms, rw_filters = fs, rw_boost = []\<rparr>))"

section \<open>Traversal\<close>

record qug_path =
  qp_nodes :: "phrase list"
  qp_edges :: "qug_edge list"
  qp_depth :: nat

function traverse_dfs :: "link_order \<Rightarrow> qug_graph \<Rightarrow> nat \<Rightarrow> nat \<Rightarrow> nat list \<Rightarrow> qug_edge list \<Rightarrow> qug_path list" where
  "traverse_dfs order g depth cur nodes edges =
     concat (map (\<lambda>(_, t, e).
       if t \<in> set nodes then []
       else \<lparr>qp_nodes = map (\<lambda>n. qg_nodes g ! n) (nodes @ [t]), qp_edges = edges @ [e],
             qp_depth = length (edges @ [e])\<rparr>
         # (if length (edges @ [e]) < depth
            then traverse_dfs order g depth t (nodes @ [t]) (edges @ [e]) else [])) (outgoing order g cur))"
  by pat_completeness auto

termination by (relation "measure (\<lambda>(order, g, depth, cur, nodes, edges). depth - length edges)") auto

declare traverse_dfs.simps [simp del]

definition traverse :: "(nat \<Rightarrow> nat list) \<Rightarrow> link_order \<Rightarrow> qug_graph \<Rightarrow> string \<Rightarrow> nat \<Rightarrow> qug_path list" where
  "traverse lower order g node max_depth =
     (case normalize_phrase lower node of
        Inl _ \<Rightarrow> []
      | Inr phr \<Rightarrow> (case map_of (qg_by_phrase g) phr of
          None \<Rightarrow> []
        | Some start \<Rightarrow> traverse_dfs order g (min max_depth (qg_max_depth g)) start [start] []))"

section \<open>The graph that is built\<close>

definition link_key :: "ext \<Rightarrow> qug_graph \<Rightarrow> link \<Rightarrow> phrase \<times> phrase \<times> string" where
  "link_key X g l = (qg_nodes g ! fst l, qg_nodes g ! fst (snd l), x_edge_text X (snd (snd l)))"

definition phrase_ok :: "phrase \<Rightarrow> bool" where
  "phrase_ok p = (p \<noteq> [] \<and> length p \<le> max_phrase_scalars)"

definition graph_ok :: "ext \<Rightarrow> qug_graph \<Rightarrow> bool" where
  "graph_ok X g \<longleftrightarrow> distinct (qg_nodes g) \<and> (\<forall>p\<in>set (qg_nodes g). phrase_ok p)
     \<and> qg_by_phrase g = map (\<lambda>i. (qg_nodes g ! i, i)) [0 ..< length (qg_nodes g)]
     \<and> (\<forall>l\<in>set (qg_links g). fst l < length (qg_nodes g) \<and> fst (snd l) < length (qg_nodes g))
     \<and> qg_seen g = map (link_key X g) (qg_links g) \<and> distinct (qg_seen g)"

lemma normalize_ok: "normalize_phrase lower s = Inr p \<Longrightarrow> phrase_ok p"
  by (auto simp: normalize_phrase_def Let_def phrase_ok_def split: if_splits)

lemma map_of_index:
  assumes "distinct xs"
  shows "map_of (map (\<lambda>i. (xs ! i, i)) [0 ..< length xs]) x = Some i \<longleftrightarrow> i < length xs \<and> xs ! i = x"
proof -
  have "distinct (map fst (map (\<lambda>i. (xs ! i, i)) [0 ..< length xs]))"
    using assms by (simp add: comp_def map_nth)
  from map_of_eq_Some_iff[OF this] show ?thesis by auto
qed

lemma map_of_index_None:
  "map_of (map (\<lambda>i. (xs ! i, i)) [0 ..< length xs]) x = None \<longleftrightarrow> x \<notin> set xs"
  by (auto simp: map_of_eq_None_iff in_set_conv_nth image_iff)

lemma empty_graph_ok: "graph_ok X (empty_graph depth)"
  by (simp add: graph_ok_def empty_graph_def)

definition grows :: "qug_graph \<Rightarrow> qug_graph \<Rightarrow> bool" where
  "grows g g' \<longleftrightarrow> (\<exists>ps. qg_nodes g' = qg_nodes g @ ps) \<and> qg_max_depth g' = qg_max_depth g"

lemma grows_refl: "grows g g" by (simp add: grows_def)

lemma grows_trans: "grows a b \<Longrightarrow> grows b c \<Longrightarrow> grows a c"
  by (auto simp: grows_def)

lemma grows_index: "grows g g' \<Longrightarrow> i < length (qg_nodes g) \<Longrightarrow> i < length (qg_nodes g')"
  by (auto simp: grows_def)

lemma node_for_Ok:
  assumes g: "graph_ok X g" and e: "node_for lower p g = Inr (i, g')"
  shows "graph_ok X g' \<and> grows g g' \<and> i < length (qg_nodes g')"
proof -
  from e obtain phr where phr: "normalize_phrase lower p = Inr phr" by (auto simp: node_for_def)
  show ?thesis
  proof (cases "map_of (qg_by_phrase g) phr")
    case (Some j)
    then have "g' = g" "i = j" using e phr by (simp_all add: node_for_def)
    moreover have "j < length (qg_nodes g)" using Some g map_of_index[of "qg_nodes g" phr j] by (simp add: graph_ok_def)
    ultimately show ?thesis using g by (simp add: grows_refl)
  next
    case None
    then have new: "phr \<notin> set (qg_nodes g)" using g map_of_index_None[of "qg_nodes g" phr] by (simp add: graph_ok_def)
    have g': "g' = g\<lparr>qg_nodes := qg_nodes g @ [phr], qg_by_phrase := qg_by_phrase g @ [(phr, length (qg_nodes g))]\<rparr>"
      "i = length (qg_nodes g)" using e phr None by (auto simp: node_for_def)
    have key: "link_key X g' l = link_key X g l" if "l \<in> set (qg_links g)" for l
      using g that by (auto simp: g'(1) link_key_def graph_ok_def nth_append)
    show ?thesis
      using g new normalize_ok[OF phr] key
      by (auto simp: g' graph_ok_def grows_def nth_append less_Suc_eq intro!: map_cong)
  qed
qed

lemma node_for_Inl: "(\<exists>r. node_for lower p g = Inr r) \<longleftrightarrow> (\<exists>phr. normalize_phrase lower p = Inr phr)"
  by (cases "normalize_phrase lower p") (auto simp: node_for_def split: option.split)

lemma add_link_Ok:
  assumes "graph_ok X g" "s < length (qg_nodes g)" "t < length (qg_nodes g)"
  shows "graph_ok X (add_link X s t e g)" "grows g (add_link X s t e g)"
  using assms by (auto simp: add_link_def Let_def graph_ok_def grows_def link_key_def)

lemma add_synonyms_Ok:
  "graph_ok X g \<Longrightarrow> s < length (qg_nodes g) \<Longrightarrow> add_synonyms lower X f s ts g = Inr g' \<Longrightarrow>
   graph_ok X g' \<and> grows g g'"
proof (induction ts arbitrary: g)
  case (Cons t ts)
  then obtain i g1 where n: "node_for lower t g = Inr (i, g1)"
    and r: "add_synonyms lower X f s ts (add_link X s i (Synonym f [t]) g1) = Inr g'" by auto
  note n' = node_for_Ok[OF Cons.prems(1) n]
  then have s: "s < length (qg_nodes g1)" using Cons.prems(2) grows_index by blast
  note l = add_link_Ok[of X g1 s i "Synonym f [t]"]
  have "graph_ok X g' \<and> grows (add_link X s i (Synonym f [t]) g1) g'"
    using n' s l grows_index by (intro Cons.IH[OF _ _ r]) blast+
  then show ?case using n' s l grows_trans by blast
qed (simp add: grows_refl)

lemma add_loop_Ok:
  assumes g: "graph_ok X g" and e: "add_loop lower X p e g = Inr g'"
  shows "graph_ok X g' \<and> grows g g'"
proof -
  from e obtain n g1 where n: "node_for lower p g = Inr (n, g1)" and g': "g' = add_link X n n e g1"
    by (auto simp: add_loop_def)
  from node_for_Ok[OF g n] have ok: "graph_ok X g1" "grows g g1" "n < length (qg_nodes g1)" by blast+
  show ?thesis unfolding g' using add_link_Ok[OF ok(1,3,3), of e] grows_trans[OF ok(2)] by blast
qed

lemma add_edge_Ok:
  assumes g: "graph_ok X g" and e: "add_edge lower X e g = Inr g'"
  shows "graph_ok X g' \<and> grows g g'"
proof (cases e)
  case (Synonym f ts)
  then obtain s g1 where n: "node_for lower f g = Inr (s, g1)" "add_synonyms lower X f s ts g1 = Inr g'"
    using e by (auto simp: add_edge_def)
  from node_for_Ok[OF g n(1)] add_synonyms_Ok[OF _ _ n(2)] show ?thesis using grows_trans by blast
next
  case (Hyponym c p)
  then obtain s g1 t g2 where n: "node_for lower c g = Inr (s, g1)" "node_for lower p g1 = Inr (t, g2)"
    and g': "g' = add_link X s t e g2" using e by (auto simp: add_edge_def)
  from node_for_Ok[OF g n(1)] node_for_Ok[OF _ n(2)]
  have "graph_ok X g2" "grows g g2" "s < length (qg_nodes g2)" "t < length (qg_nodes g2)"
    using grows_trans grows_index by blast+
  then show ?thesis unfolding g' using add_link_Ok grows_trans by blast
next
  case (AttributePropagation p c)
  then show ?thesis using e add_loop_Ok[OF g] by (simp add: add_edge_def)
next
  case (IntentTemplate p q)
  then show ?thesis using e add_loop_Ok[OF g] by (simp add: add_edge_def)
next
  case (Negation p c)
  then show ?thesis using e add_loop_Ok[OF g] by (simp add: add_edge_def)
qed

lemma add_edges_Ok: "graph_ok X g \<Longrightarrow> add_edges lower X es g = Inr g' \<Longrightarrow> graph_ok X g' \<and> grows g g'"
proof (induction es arbitrary: g)
  case (Cons e es)
  from Cons.prems(2) obtain g1 where e: "add_edge lower X e g = Inr g1" "add_edges lower X es g1 = Inr g'" by auto
  from add_edge_Ok[OF Cons.prems(1) e(1)] have ok: "graph_ok X g1" "grows g g1" by blast+
  from Cons.IH[OF ok(1) e(2)] show ?case using grows_trans[OF ok(2)] by blast
qed (simp add: grows_refl)

text \<open>The phrases of an edge; building fails exactly when one of them does not normalize_phrase.\<close>

definition edge_phrases :: "qug_edge \<Rightarrow> string list" where
  "edge_phrases e = (case e of Synonym f ts \<Rightarrow> f # ts | Hyponym c p \<Rightarrow> [c, p]
     | AttributePropagation p c \<Rightarrow> [p] | IntentTemplate p q \<Rightarrow> [p] | Negation p c \<Rightarrow> [p])"

definition normalizes :: "(nat \<Rightarrow> nat list) \<Rightarrow> string \<Rightarrow> bool" where
  "normalizes lower p = (\<exists>phr. normalize_phrase lower p = Inr phr)"

lemma node_for_cases:
  obtains i g' where "normalizes lower p" "node_for lower p g = Inr (i, g')"
  | err where "\<not> normalizes lower p" "node_for lower p g = Inl err"
  using node_for_Inl[of lower p g] by (cases "node_for lower p g") (auto simp: normalizes_def)

lemma add_synonyms_total: "(\<exists>g'. add_synonyms lower X f s ts g = Inr g') \<longleftrightarrow> (\<forall>t\<in>set ts. normalizes lower t)"
proof (induction ts arbitrary: g)
  case (Cons t ts)
  show ?case by (rule node_for_cases[of lower t g]) (simp_all add: Cons.IH)
qed simp

lemma add_loop_total: "(\<exists>g'. add_loop lower X p e g = Inr g') \<longleftrightarrow> normalizes lower p"
  by (rule node_for_cases[of lower p g]) (simp_all add: add_loop_def)

lemma add_edge_total: "(\<exists>g'. add_edge lower X e g = Inr g') \<longleftrightarrow> (\<forall>p\<in>set (edge_phrases e). normalizes lower p)"
proof (cases e)
  case (Synonym f ts)
  show ?thesis by (rule node_for_cases[of lower f g])
    (simp_all add: Synonym add_edge_def edge_phrases_def add_synonyms_total)
next
  case (Hyponym c p)
  show ?thesis
  proof (rule node_for_cases[of lower c g])
    fix i g' assume c: "normalizes lower c" "node_for lower c g = Inr (i, g')"
    show ?thesis by (rule node_for_cases[of lower p g']) (simp_all add: Hyponym c add_edge_def edge_phrases_def)
  qed (simp add: Hyponym add_edge_def edge_phrases_def)
qed (simp_all add: add_edge_def edge_phrases_def add_loop_total)

lemma add_edges_total:
  "(\<exists>g'. add_edges lower X es g = Inr g') \<longleftrightarrow> (\<forall>e\<in>set es. \<forall>p\<in>set (edge_phrases e). normalizes lower p)"
proof (induction es arbitrary: g)
  case (Cons e es)
  show ?case
  proof (cases "add_edge lower X e g")
    case (Inl err)
    then show ?thesis using add_edge_total[of lower X e g] by auto
  next
    case (Inr g')
    then show ?thesis using add_edge_total[of lower X e g] Cons.IH[of g'] by auto
  qed
qed simp

section \<open>What a rewrite does\<close>

definition permutes :: "link_order \<Rightarrow> bool" where
  "permutes order = (\<forall>ls. set (order ls) = set ls)"

lemma set_outgoing: "permutes order \<Longrightarrow> set (outgoing order g n) = {l \<in> set (qg_links g). fst l = n}"
  by (auto simp: outgoing_def permutes_def)

lemma foldl_apply_conditions:
  "xp_conditions (foldl apply_edge x es) = xp_conditions x @ concat (map edge_conditions es)"
  by (induction es arbitrary: x) (simp_all add: apply_edge_def)

lemma foldl_push_unique:
  "\<exists>ys. foldl push_unique xs vs = xs @ ys" "distinct xs \<Longrightarrow> distinct (foldl push_unique xs vs)"
proof (induction vs arbitrary: xs)
  case (Cons v vs)
  {
    case 1
    from Cons(1)[of "push_unique xs v"] show ?case by (auto simp: push_unique_def)
  next
    case 2
    then show ?case using Cons(2)[of "push_unique xs v"] by (simp add: push_unique_def)
  }
qed simp_all

lemma foldl_apply_terms:
  "\<exists>ys. xp_terms (foldl apply_edge x es) = xp_terms x @ ys"
  "distinct (xp_terms x) \<Longrightarrow> distinct (xp_terms (foldl apply_edge x es))"
proof (induction es arbitrary: x)
  case (Cons e es)
  {
    case 1
    obtain ys where "xp_terms (apply_edge x e) = xp_terms x @ ys"
      using foldl_push_unique(1) by (auto simp: apply_edge_def)
    with Cons(1)[of "apply_edge x e"] show ?case by auto
  next
    case 2
    then show ?case using Cons(2)[of "apply_edge x e"] foldl_push_unique(2) by (simp add: apply_edge_def)
  }
qed simp_all

text \<open>The conditions a query is rewritten with: its own, and those of the links it triggers.\<close>

definition triggered :: "(nat \<Rightarrow> nat list) \<Rightarrow> qug_graph \<Rightarrow> query \<Rightarrow> nat set" where
  "triggered lower g q = (case normalize_phrase lower (q_text q) of
     Inl _ \<Rightarrow> {} | Inr chars \<Rightarrow> set (ranked_nodes g (matched_nodes g chars)))"

definition rewrite_conditions :: "(nat \<Rightarrow> nat list) \<Rightarrow> qug_graph \<Rightarrow> query \<Rightarrow> filter_condition set" where
  "rewrite_conditions lower g q =
     set (q_filters q) \<union> {c. \<exists>l\<in>set (qg_links g). fst l \<in> triggered lower g q \<and> c \<in> set (edge_conditions (snd (snd l)))}"

lemma rewrite_cases:
  assumes "rewrite lower order g q = Some r" "permutes order"
  obtains conds where "set conds = rewrite_conditions lower g q" "rw_filters r = resolve_conflicts conds"
    "\<exists>ys. conds = q_filters q @ ys"
    "\<exists>ys. rw_terms r = take max_expanded_terms (q_text q # ys) \<and> distinct (q_text q # ys)"
proof -
  from assms(1) obtain chars where n: "normalize_phrase lower (q_text q) = Inr chars"
    by (auto simp: rewrite_def split: if_splits sum.splits)
  let ?x = "expand order g chars q"
  have r: "r = \<lparr>rw_terms = take max_expanded_terms (xp_terms ?x), rw_filters = resolve_conflicts (xp_conditions ?x), rw_boost = []\<rparr>"
    using assms(1) n by (auto simp: rewrite_def Let_def split: if_splits)
  have c: "xp_conditions ?x = q_filters q @ concat (map edge_conditions (map (snd \<circ> snd) (applied_links order g chars)))"
    by (simp add: expand_def foldl_apply_conditions)
  have links: "set (applied_links order g chars) = {l \<in> set (qg_links g). fst l \<in> triggered lower g q}"
    using set_outgoing[OF assms(2)] by (auto simp: applied_links_def triggered_def n)
  have conds: "set (xp_conditions ?x) = rewrite_conditions lower g q"
    unfolding c rewrite_conditions_def using links by auto
  have "\<exists>ys. xp_terms ?x = q_text q # ys \<and> distinct (q_text q # ys)"
  proof -
    let ?s = "\<lparr>xp_terms = [q_text q], xp_conditions = q_filters q, xp_intent = False\<rparr>"
    obtain ys where "xp_terms ?x = q_text q # ys"
      using foldl_apply_terms(1)[of ?s] unfolding expand_def by (metis append_Cons append_Nil expansion.select_convs(1))
    moreover have "distinct (xp_terms ?x)" unfolding expand_def by (rule foldl_apply_terms(2)) simp
    ultimately show ?thesis by metis
  qed
  then obtain ys where "xp_terms ?x = q_text q # ys" "distinct (q_text q # ys)" by blast
  moreover have "\<exists>zs. xp_conditions ?x = q_filters q @ zs" unfolding c by blast
  ultimately show thesis using r conds by (intro that[of "xp_conditions ?x"]) auto
qed

section \<open>Paths\<close>

fun walk :: "nat \<Rightarrow> link list \<Rightarrow> bool" where
  "walk s [] = True"
| "walk s (l # ls) = (fst l = s \<and> walk (fst (snd l)) ls)"

definition path_of :: "qug_graph \<Rightarrow> nat list \<Rightarrow> qug_edge list \<Rightarrow> qug_path" where
  "path_of g nodes edges = \<lparr>qp_nodes = map (\<lambda>n. qg_nodes g ! n) nodes, qp_edges = edges, qp_depth = length edges\<rparr>"

definition targets :: "link list \<Rightarrow> nat list" where
  "targets ls = map (fst \<circ> snd) ls"

definition simple_walk :: "qug_graph \<Rightarrow> nat \<Rightarrow> nat list \<Rightarrow> link list \<Rightarrow> bool" where
  "simple_walk g cur nodes ls \<longleftrightarrow> ls \<noteq> [] \<and> set ls \<subseteq> set (qg_links g) \<and> walk cur ls
     \<and> distinct (targets ls) \<and> set (targets ls) \<inter> set nodes = {}"

lemma simple_walk_Cons:
  "simple_walk g cur nodes ((s, t, e) # ls) \<longleftrightarrow> s = cur \<and> (s, t, e) \<in> set (qg_links g) \<and> t \<notin> set nodes
     \<and> (ls = [] \<or> simple_walk g t (nodes @ [t]) ls)"
  by (auto simp: simple_walk_def targets_def)

lemma concat_outgoing:
  "permutes order \<Longrightarrow> p \<in> set (concat (map (\<lambda>(_, t, e). f t e) (outgoing order g cur)))
     \<longleftrightarrow> (\<exists>t e. (cur, t, e) \<in> set (qg_links g) \<and> p \<in> set (f t e))"
  by (auto simp: set_outgoing)

lemma traverse_dfs_iff:
  assumes "permutes order"
  shows "p \<in> set (traverse_dfs order g depth cur nodes edges) \<longleftrightarrow>
    (\<exists>ls. simple_walk g cur nodes ls \<and> (length ls = 1 \<or> length edges + length ls \<le> depth)
       \<and> p = path_of g (nodes @ targets ls) (edges @ map (snd \<circ> snd) ls))"
proof (induction "depth - length edges" arbitrary: cur nodes edges rule: less_induct)
  case less
  let ?Q = "\<lambda>cur nodes edges ls. simple_walk g cur nodes ls \<and> (length ls = 1 \<or> length edges + length ls \<le> depth)
       \<and> p = path_of g (nodes @ targets ls) (edges @ map (snd \<circ> snd) ls)"
  have step: "(p \<in> set (if t \<in> set nodes then [] else path_of g (nodes @ [t]) (edges @ [e])
        # (if length (edges @ [e]) < depth then traverse_dfs order g depth t (nodes @ [t]) (edges @ [e]) else [])))
     \<longleftrightarrow> (\<exists>ls. ?Q cur nodes edges ((cur, t, e) # ls))" (is "?L \<longleftrightarrow> ?R")
    if l: "(cur, t, e) \<in> set (qg_links g)" for t e
  proof (cases "t \<in> set nodes \<or> \<not> length (edges @ [e]) < depth")
    case True
    have last: "ls = []" if "?Q cur nodes edges ((cur, t, e) # ls)" "t \<notin> set nodes" for ls
      using that True by (cases ls) auto
    show ?thesis
    proof (cases "t \<in> set nodes")
      case True
      then show ?thesis by (auto simp: simple_walk_Cons)
    next
      case F: False
      then have "?L \<longleftrightarrow> p = path_of g (nodes @ [t]) (edges @ [e])" using True by auto
      also have "\<dots> \<longleftrightarrow> ?Q cur nodes edges [(cur, t, e)]" using F l by (simp add: simple_walk_Cons targets_def)
      also have "\<dots> \<longleftrightarrow> ?R" using last F by blast
      finally show ?thesis .
    qed
  next
    case False
    then have "depth - length (edges @ [e]) < depth - length edges" by auto
    from less[OF this, of t "nodes @ [t]"]
    have IH: "p \<in> set (traverse_dfs order g depth t (nodes @ [t]) (edges @ [e])) \<longleftrightarrow> (\<exists>ls. ?Q t (nodes @ [t]) (edges @ [e]) ls)" .
    have "(\<exists>ls. ?Q cur nodes edges ((cur, t, e) # ls)) \<longleftrightarrow> p = path_of g (nodes @ [t]) (edges @ [e]) \<or> (\<exists>ls. ?Q t (nodes @ [t]) (edges @ [e]) ls)"
      (is "?A \<longleftrightarrow> ?B")
    proof
      assume ?A
      then obtain ls where ls: "?Q cur nodes edges ((cur, t, e) # ls)" by blast
      show ?B
      proof (cases "ls = []")
        case True
        with ls show ?thesis by (simp add: targets_def)
      next
        case F: False
        with ls have "?Q t (nodes @ [t]) (edges @ [e]) ls" by (auto simp: simple_walk_Cons targets_def)
        then show ?thesis by blast
      qed
    next
      assume ?B
      then show ?A
      proof
        assume "p = path_of g (nodes @ [t]) (edges @ [e])"
        then have "?Q cur nodes edges ((cur, t, e) # [])" using False l by (simp add: simple_walk_Cons targets_def)
        then show ?A by blast
      next
        assume "\<exists>ls. ?Q t (nodes @ [t]) (edges @ [e]) ls"
        then obtain ls where ls: "?Q t (nodes @ [t]) (edges @ [e]) ls" by blast
        then have "?Q cur nodes edges ((cur, t, e) # ls)" using False l
          by (auto simp: simple_walk_Cons targets_def)
        then show ?A by blast
      qed
    qed
    then show ?thesis using False IH by simp
  qed
  have "p \<in> set (traverse_dfs order g depth cur nodes edges) \<longleftrightarrow>
    (\<exists>t e. (cur, t, e) \<in> set (qg_links g) \<and> p \<in> set (if t \<in> set nodes then [] else path_of g (nodes @ [t]) (edges @ [e])
        # (if length (edges @ [e]) < depth then traverse_dfs order g depth t (nodes @ [t]) (edges @ [e]) else [])))"
    by (subst traverse_dfs.simps) (simp only: concat_outgoing[OF assms] path_of_def)
  also have "\<dots> \<longleftrightarrow> (\<exists>t e ls. (cur, t, e) \<in> set (qg_links g) \<and> ?Q cur nodes edges ((cur, t, e) # ls))"
    using step by blast
  also have "\<dots> \<longleftrightarrow> (\<exists>ls. ?Q cur nodes edges ls)"
  proof
    assume "\<exists>ls. ?Q cur nodes edges ls"
    then obtain ls where q: "?Q cur nodes edges ls" by blast
    then obtain s t e ls' where ls: "ls = (s, t, e) # ls'" by (cases ls) (auto simp: simple_walk_def)
    with q have "s = cur" "(cur, t, e) \<in> set (qg_links g)" by (auto simp: simple_walk_Cons)
    with q ls show "\<exists>t e ls. (cur, t, e) \<in> set (qg_links g) \<and> ?Q cur nodes edges ((cur, t, e) # ls)" by blast
  qed blast
  finally show ?case .
qed

end
