(* ===== verification/Qug_Props.thy ===== *)
theory Qug_Props
  imports Qug
begin

text \<open>
  The properties of query understanding: a rewrite only narrows a query, and keeps its meaning where
  no two containment conditions meet on a field; the graph has every edge once; traversal yields
  exactly the simple paths within the depth.
\<close>

section \<open>A small graph\<close>

definition same_case :: "nat \<Rightarrow> nat list" where "same_case c = [c]"

definition nut_free :: qug_edge where
  "nut_free = Negation ''ok'' (RefExcludes ''allergens'' [''nut''])"

definition nut_graph :: qug_graph where
  "nut_graph = \<lparr>qg_nodes = [[111, 107]], qg_links = [(0, 0, nut_free)],
     qg_by_phrase = [([111, 107], 0)], qg_seen = [([111, 107], [111, 107], ''edge'')], qg_max_depth = 2\<rparr>"

definition nut_query :: query where
  "nut_query = \<lparr>q_text = ''ok'', q_filters = [RefContains ''ingredients'' [''pearl'']], q_top_k = 5, q_domain = None\<rparr>"

lemma nut_text:
  "trim_scalars (scalars ''ok'') = [111, 107]"
  "normalize_phrase same_case ''ok'' = Inr [111, 107]"
  by (simp_all add: normalize_phrase_def Let_def trim_scalars_def same_case_def scalar_at_def tail_len_def
      is_whitespace_def max_phrase_scalars_def)

lemma nut_graph_built: "from_edges same_case sample_ext [nut_free] 2 = Inr nut_graph"
  by (simp add: from_edges_def max_depth_limit_def nut_free_def add_edge_def add_loop_def node_for_def nut_text
      empty_graph_def add_link_def nut_graph_def)

lemma nut_matched: "matched_nodes nut_graph [111, 107] = [0]"
  by (simp add: matched_nodes_def longest_match_def nut_graph_def List.map_filter_simps)

lemma nut_applied: "applied_links (\<lambda>ls. ls) nut_graph [111, 107] = [(0, 0, nut_free)]"
  by (simp add: applied_links_def nut_matched ranked_nodes_def max_matches_def outgoing_def) (simp add: nut_graph_def)

definition nut_rewritten :: rewritten_query where
  "nut_rewritten = \<lparr>rw_terms = [''ok''],
     rw_filters = [RefContains ''ingredients'' [''pearl''], RefExcludes ''allergens'' [''nut'']], rw_boost = []\<rparr>"

lemma nut_rewrite: "rewrite same_case (\<lambda>ls. ls) nut_graph nut_query = Some nut_rewritten"
  by (simp add: rewrite_def nut_query_def nut_text Let_def expand_def nut_matched nut_applied nut_rewritten_def
      apply_edge_def edge_terms_def edge_conditions_def nut_free_def is_intent_def max_expanded_terms_def
      resolve_conflicts_def push_merged_def push_contains_def push_excludes_def minus_refs_def is_refs_of_def
      del: scalars.simps)

lemma nut_conditions:
  "rewrite_conditions same_case nut_graph nut_query = {RefContains ''ingredients'' [''pearl''], RefExcludes ''allergens'' [''nut'']}"
  by (auto simp: rewrite_conditions_def triggered_def nut_query_def nut_text nut_matched ranked_nodes_def max_matches_def)
     (auto simp: nut_graph_def nut_free_def edge_conditions_def split: if_splits)

lemma nut_order: "permutes (\<lambda>ls. ls)"
  by (simp add: permutes_def)

section \<open>Rewriting\<close>

text \<open>A rewritten query only narrows: an entity that passes the rewritten filters passes every filter of the
  query itself and every condition of the edges its phrases trigger, so an exclusion is never lost to the
  merging; no bound of a range being a NaN, which JSON cannot express. \<close>

theorem rewrite_narrows:
  assumes "rewrite lower order g q = Some r" "permutes order"
    and "\<forall>c\<in>rewrite_conditions lower g q. numbers_ok c"
    and "\<forall>c\<in>set (rw_filters r). entity_matches d entity c"
  shows "\<forall>c\<in>rewrite_conditions lower g q. entity_matches d entity c"
proof -
  obtain conds where c: "set conds = rewrite_conditions lower g q" "rw_filters r = resolve_conflicts conds"
    by (rule rewrite_cases[OF assms(1,2)])
  have "all_match d entity [] \<and> all_match d entity conds"
    by (rule resolve_sound) (use assms(3,4) c in \<open>auto simp: all_match_def resolve_conflicts_def\<close>)
  then show ?thesis using c(1) by (simp add: all_match_def)
qed

definition pearl_refs :: "string list \<Rightarrow> db" where
  "pearl_refs rs = empty_db\<lparr>db_refs := map (\<lambda>r. (''milk:drink:boba'', ''ingredients'', r)) rs\<rparr>"

theorem rewrite_narrows_witness:
  "entity_matches (pearl_refs [''pearl'']) ''milk:drink:boba'' (RefExcludes ''allergens'' [''nut''])"
proof -
  have "\<forall>c\<in>rewrite_conditions same_case nut_graph nut_query. entity_matches (pearl_refs [''pearl'']) ''milk:drink:boba'' c"
    by (rule rewrite_narrows[OF nut_rewrite nut_order])
       (auto simp: nut_conditions numbers_ok_def nut_rewritten_def entity_matches_def pearl_refs_def field_refs_def)
  then show ?thesis by (simp add: nut_conditions)
qed

text \<open>C40. Merging the conditions keeps their meaning: where every field has at most one containment condition,
  an entity passes the merged list exactly when it passes every condition, for ranges, texts and
  exclusions in any number and order. No bound of a range is NaN, which JSON cannot write; passing is meant as numbers
  (\<open>entity_matches\<close>), which is what the store evaluates for finite bounds. \<close>

theorem merge_exact:
  assumes "\<forall>c\<in>set conds. numbers_ok c" "\<forall>field. length (contains_of field conds) \<le> 1"
  shows "(\<forall>c\<in>set (resolve_conflicts conds). entity_matches d entity c) \<longleftrightarrow> (\<forall>c\<in>set conds. entity_matches d entity c)"
  using resolve_exact[of conds "[]" d entity] assms by (simp add: all_match_def resolve_conflicts_def)

definition kept_conditions :: filters where
  "kept_conditions = [RefContains ''ingredients'' [''pearl'', ''nut''], RefExcludes ''ingredients'' [''nut'']]"

theorem merge_exact_witness:
  "list_all (entity_matches (pearl_refs [''pearl'']) ''milk:drink:boba'') (resolve_conflicts kept_conditions)"
proof -
  have "(\<forall>c\<in>set (resolve_conflicts kept_conditions). entity_matches (pearl_refs [''pearl'']) ''milk:drink:boba'' c)
    \<longleftrightarrow> (\<forall>c\<in>set kept_conditions. entity_matches (pearl_refs [''pearl'']) ''milk:drink:boba'' c)"
    by (rule merge_exact) (simp_all add: kept_conditions_def numbers_ok_def)
  then show ?thesis
    by (simp add: kept_conditions_def list_all_iff entity_matches_def pearl_refs_def field_refs_def)
qed

text \<open>Two containment conditions on one field are intersected although a condition asks for any of its
  references: an entity with both references passes both conditions and not the merged list. \<close>

theorem merge_loses_entities:
  "entity_matches (pearl_refs [''pearl'', ''taro'']) ''milk:drink:boba'' (RefContains ''ingredients'' [''pearl''])
   \<and> entity_matches (pearl_refs [''pearl'', ''taro'']) ''milk:drink:boba'' (RefContains ''ingredients'' [''taro''])
   \<and> \<not> list_all (entity_matches (pearl_refs [''pearl'', ''taro'']) ''milk:drink:boba'')
        (resolve_conflicts [RefContains ''ingredients'' [''pearl''], RefContains ''ingredients'' [''taro'']])"
  by (simp add: resolve_conflicts_def push_merged_def push_contains_def minus_refs_def entity_matches_def
      pearl_refs_def field_refs_def)

text \<open>A rewritten query keeps its own text as the first term and has at most 64 terms, all different. \<close>

theorem rewrite_terms_bounded:
  assumes "rewrite lower order g q = Some r" "permutes order"
  shows "1 \<le> length (rw_terms r) \<and> length (rw_terms r) \<le> 64 \<and> hd (rw_terms r) = q_text q \<and> distinct (rw_terms r)"
proof -
  obtain ys where ys: "rw_terms r = take max_expanded_terms (q_text q # ys)" "distinct (q_text q # ys)"
    by (rule rewrite_cases[OF assms]) blast
  have "distinct (take 64 (q_text q # ys))" using ys(2) distinct_take by blast
  then show ?thesis by (simp add: ys(1) max_expanded_terms_def take_Cons')
qed

theorem rewrite_terms_bounded_witness: "hd (rw_terms nut_rewritten) = ''ok'' \<and> distinct (rw_terms nut_rewritten)"
  using rewrite_terms_bounded[OF nut_rewrite nut_order] by (simp add: nut_query_def)

section \<open>The graph\<close>

text \<open>Building succeeds exactly when the depth is between one and four and every phrase of every edge
  normalizes to between one and 128 scalars. \<close>

theorem from_edges_total:
  "(\<exists>g. from_edges lower X es depth = Inr g) \<longleftrightarrow>
     1 \<le> depth \<and> depth \<le> 4 \<and> list_all (\<lambda>e. list_all (normalizes lower) (edge_phrases e)) es"
  by (auto simp: from_edges_def max_depth_limit_def add_edges_total list_all_iff)

text \<open>The graph that is built has one node per normalized phrase, its index map names every node, links
  join existing nodes, and no link is there twice. \<close>

theorem from_edges_graph:
  assumes "from_edges lower X es depth = Inr g"
  shows "distinct (qg_nodes g) \<and> (\<forall>p\<in>set (qg_nodes g). 1 \<le> length p \<and> length p \<le> 128)
     \<and> (\<forall>p i. map_of (qg_by_phrase g) p = Some i \<longleftrightarrow> i < length (qg_nodes g) \<and> qg_nodes g ! i = p)
     \<and> (\<forall>(s, t, e)\<in>set (qg_links g). s < length (qg_nodes g) \<and> t < length (qg_nodes g))
     \<and> distinct (qg_links g) \<and> qg_max_depth g = depth"
proof -
  have "add_edges lower X es (empty_graph depth) = Inr g" using assms by (auto simp: from_edges_def split: if_splits)
  from add_edges_Ok[OF empty_graph_ok this] have g: "graph_ok X g" "qg_max_depth g = depth"
    by (auto simp: grows_def empty_graph_def)
  have "distinct (qg_links g)" using g(1) by (auto simp: graph_ok_def distinct_map)
  moreover have "1 \<le> length p \<and> length p \<le> 128" if "p \<in> set (qg_nodes g)" for p
    using g(1) that by (cases p) (auto simp: graph_ok_def phrase_ok_def max_phrase_scalars_def)
  moreover have "map_of (qg_by_phrase g) p = Some i \<longleftrightarrow> i < length (qg_nodes g) \<and> qg_nodes g ! i = p" for p i
    using g(1) map_of_index[of "qg_nodes g" p i] by (simp add: graph_ok_def)
  ultimately show ?thesis using g by (auto simp: graph_ok_def)
qed

theorem from_edges_graph_witness: "distinct (qg_nodes nut_graph) \<and> distinct (qg_links nut_graph)"
  using from_edges_graph[OF nut_graph_built] by blast

text \<open>Traversal from a known phrase yields exactly the walks along links that visit no node twice, of one
  link or of at most the smaller of the two depths. \<close>

theorem traverse_exact:
  assumes "permutes order" "normalize_phrase lower node = Inr p" "map_of (qg_by_phrase g) p = Some start"
  shows "set (traverse lower order g node depth) =
    {path_of g (start # targets ls) (map (snd \<circ> snd) ls) | ls.
       simple_walk g start [start] ls \<and> (length ls = 1 \<or> length ls \<le> min depth (qg_max_depth g))}"
  using traverse_dfs_iff[OF assms(1), of _ g "min depth (qg_max_depth g)" start "[start]" "[]"] assms(2,3)
  by (auto simp: traverse_def)

definition chain_graph :: qug_graph where
  "chain_graph = \<lparr>qg_nodes = [[111, 107], [49]], qg_links = [(0, 1, Hyponym ''ok'' ''1''), (1, 0, Hyponym ''1'' ''ok'')],
     qg_by_phrase = [([111, 107], 0), ([49], 1)], qg_seen = [], qg_max_depth = 2\<rparr>"

theorem traverse_exact_witness:
  "\<lparr>qp_nodes = [[111, 107], [49]], qp_edges = [Hyponym ''ok'' ''1''], qp_depth = 1\<rparr>
     \<in> set (traverse same_case (\<lambda>ls. ls) chain_graph ''ok'' 0)"
proof -
  have "simple_walk chain_graph 0 [0] [(0, 1, Hyponym ''ok'' ''1'')]"
    by (simp add: simple_walk_def targets_def chain_graph_def)
  then show ?thesis
    by (subst traverse_exact[OF nut_order nut_text(2), of chain_graph 0])
       (auto simp: chain_graph_def path_of_def targets_def intro!: exI[of _ "[(0, 1, Hyponym ''ok'' ''1'')]"])
qed

end
