(* ===== verification/Executor.thy ===== *)
theory Executor
  imports Consistency Content_Hash Qug Publish Failure Admission Claim
begin

text \<open>
  The compile executor (\<^verbatim>\<open>compile/executor.rs\<close>): what happens to one leased task from the compiler's
  answer to the commit (\<^verbatim>\<open>process_lease\<close>), to one fetched entity at admission, and to a batch of queued
  tasks. The pluggable components (compiler, validator, scorer, arbiter, candidate provider) are the
  record \<open>executor\<close>; \<open>builtin\<close> plugs in the ones of this library. Time and the compiler's answers are arguments.
\<close>

section \<open>Splitting the Markdown into sections (seed/mod.rs)\<close>

text \<open>The scan for the headings: inside a heading, its text so far, its start, the headings found.\<close>

record h2_scan =
  hs_in :: bool
  hs_text :: string
  hs_start :: nat
  hs_found :: "(nat \<times> nat \<times> string) list"

definition h2_step :: "h2_scan \<Rightarrow> md_span \<times> nat \<times> nat \<Rightarrow> h2_scan" where
  "h2_step st ev =
     (case ev of
        (H2Start, a, b) \<Rightarrow> st\<lparr>hs_in := True, hs_text := [], hs_start := a\<rparr>
      | (H2End, a, b) \<Rightarrow> st\<lparr>hs_in := False, hs_found := hs_found st @ [(hs_start st, b, trim_text (hs_text st))]\<rparr>
      | (MdText t, a, b) \<Rightarrow> if hs_in st then st\<lparr>hs_text := hs_text st @ t\<rparr> else st
      | (MdSkip, a, b) \<Rightarrow> st)"

definition h2_headings :: "codec \<Rightarrow> string \<Rightarrow> (nat \<times> nat \<times> string) list" where
  "h2_headings K body =
     hs_found (foldl h2_step \<lparr>hs_in = False, hs_text = [], hs_start = 0, hs_found = []\<rparr> (co_spans K body))"

definition overview :: string where
  "overview = [CHR 0xE6, CHR 0xA6, CHR 0x82, CHR 0xE8, CHR 0xBF, CHR 0xB0]"

definition slice :: "string \<Rightarrow> nat \<Rightarrow> nat \<Rightarrow> string" where
  "slice s a b = take (b - a) (drop a s)"

fun cut_sections :: "string \<Rightarrow> (nat \<times> nat \<times> string) list \<Rightarrow> (string \<times> string) list" where
  "cut_sections body [] = []"
| "cut_sections body [(a, _, h)] = [(h, trim_text (slice body a (length body)))]"
| "cut_sections body ((a, _, h) # (b, x) # hs) = (h, trim_text (slice body a b)) # cut_sections body ((b, x) # hs)"

definition intro_section :: "string \<Rightarrow> (string \<times> string) list" where
  "intro_section text = (if trim_text text = [] then [] else [(overview, trim_text text)])"

definition split_sections :: "codec \<Rightarrow> string \<Rightarrow> (string \<times> string) list" where
  "split_sections K body =
     (case h2_headings K body of
        [] \<Rightarrow> intro_section body
      | (a, x) # hs \<Rightarrow> intro_section (slice body 0 a) @ cut_sections body ((a, x) # hs))"

section \<open>The executor\<close>

record executor =
  ex_policy :: compile_policy
  ex_validate :: "raw_entity \<Rightarrow> compile_evidence \<Rightarrow> bool \<Rightarrow> ref_report"
  ex_score :: "raw_entity \<Rightarrow> compiled_page option \<Rightarrow> ref_report \<Rightarrow> bool \<Rightarrow> compile_context \<Rightarrow> compile_policy \<Rightarrow> score_report"
  ex_score_with :: "raw_entity \<Rightarrow> compiled_page option \<Rightarrow> ref_report \<Rightarrow> bool \<Rightarrow> consistency_report
     \<Rightarrow> compile_context \<Rightarrow> compile_policy \<Rightarrow> score_report"
  ex_arbiter :: "(compiled_page \<Rightarrow> compiled_page list \<Rightarrow> consistency_policy \<Rightarrow> consistency_report result) option"
  ex_provider :: "(compiled_page \<Rightarrow> nat \<Rightarrow> compiled_page list result) option"

definition builtin :: "ext \<Rightarrow> codec \<Rightarrow> compile_policy
   \<Rightarrow> (compiled_page \<Rightarrow> nat \<Rightarrow> compiled_page list result) option \<Rightarrow> executor" where
  "builtin X K policy provider =
     \<lparr>ex_policy = policy, ex_validate = validate_refs K, ex_score = score,
      ex_score_with = score_with_consistency, ex_arbiter = Some (arbitrate X), ex_provider = provider\<rparr>"

definition arbitrate_consistency :: "executor \<Rightarrow> compiled_page \<Rightarrow> consistency_report option result" where
  "arbitrate_consistency ex page =
     (if \<not> csp_enabled (cpl_consistency (ex_policy ex)) then Inr None
      else (case (ex_arbiter ex, ex_provider ex) of
        (Some arbiter, Some provider) \<Rightarrow>
          try_bind (provider page (csp_top_k (cpl_consistency (ex_policy ex)))) (\<lambda>related.
          try_bind (arbiter page related (cpl_consistency (ex_policy ex))) (\<lambda>r. Inr (Some r)))
      | _ \<Rightarrow> Inr None))"

text \<open>Errors of the kernel propagate; every other error of a compiler is a failure of the task.\<close>

definition classify_compile_error :: "kerror \<Rightarrow> compile_failure result" where
  "classify_compile_error e =
     (case e of
        CompileFailed f \<Rightarrow> Inr f
      | Compilation \<Rightarrow> Inr (Permanent ''COMPILATION_ERROR'')
      | ContentHashMismatch _ _ \<Rightarrow> Inr (Permanent ''CONTENT_HASH_MISMATCH'')
      | Database \<Rightarrow> Inl e | Migration \<Rightarrow> Inl e | Internal \<Rightarrow> Inl e
      | _ \<Rightarrow> Inr (Permanent ''COMPILER_CONTRACT_ERROR''))"

definition quality_failure_code :: "score_report \<Rightarrow> string" where
  "quality_failure_code r =
     (case sc_issues r of [] \<Rightarrow> ''QUALITY_BELOW_THRESHOLD'' | i # _ \<Rightarrow> qi_code i)"

definition zero_score_report :: "executor \<Rightarrow> task_lease \<Rightarrow> score_report" where
  "zero_score_report ex l =
     ex_score ex (tl_source l) None ref_report_default False (tl_context l) (ex_policy ex)"

text \<open>Every field of the page a reader sees is recomputed from the evidence and the lease.\<close>

definition normalize_page ::
  "ext \<Rightarrow> codec \<Rightarrow> compiled_page \<Rightarrow> task_lease \<Rightarrow> int \<Rightarrow> compile_policy \<Rightarrow> entity_schema \<Rightarrow> quality_score
   \<Rightarrow> compiled_page result" where
  "normalize_page X K page l now policy schema quality =
     (case cp_evidence page of
        None \<Rightarrow> Inl Compilation
      | Some ev \<Rightarrow>
          let content = render_canonical_markdown ev
          in try_bind (content_hash X (tl_source l) (tl_context l) policy schema) (\<lambda>h. Inr
               \<lparr>cp_wiki = \<lparr>wp_id = to_key (raw_id (tl_source l)), wp_entity = raw_id (tl_source l),
                  wp_title = ow_title (ce_wiki ev), wp_content = content,
                  wp_sections = split_sections K content,
                  wp_meta = \<lparr>pm_pack_version = cx_pack_version (tl_context l), pm_compiled_at = now,
                     pm_model = cx_model (tl_context l), pm_embedding = cx_embedding (tl_context l)\<rparr>,
                  wp_aliases = ow_aliases (ce_wiki ev), wp_tags = ow_tags (ce_wiki ev)\<rparr>,
                cp_quality = quality, cp_edges = cp_edges page, cp_hash = h, cp_evidence = Some ev\<rparr>))"

section \<open>One lease\<close>

datatype lease_outcome = Finalized | RetryLater int

type_synonym lease_result = "lease_outcome result \<times> db \<times> compile_stats"

definition fail_lease ::
  "ext \<Rightarrow> task_lease \<Rightarrow> compile_failure \<Rightarrow> compiled_page option \<Rightarrow> score_report \<Rightarrow> consistency_report option
   \<Rightarrow> int \<Rightarrow> db \<Rightarrow> compile_stats \<Rightarrow> lease_result" where
  "fail_lease X l failure candidate report consistency now d st =
     (case finish_compile_failure X l failure candidate report consistency now d of
        (Inl e, d') \<Rightarrow> (Inl e, d', st)
      | (Inr (RetryAt due), d') \<Rightarrow> (Inr (RetryLater due), d', st)
      | (Inr QuarantinedTask, d') \<Rightarrow> (Inr Finalized, d', st\<lparr>st_quarantined := st_quarantined st + 1\<rparr>)
      | (Inr FailedTask, d') \<Rightarrow> (Inr Finalized, d', st\<lparr>st_failed := st_failed st + 1\<rparr>))"

definition commit_page ::
  "ext \<Rightarrow> task_lease \<Rightarrow> compiled_page \<Rightarrow> score_report \<Rightarrow> consistency_report option \<Rightarrow> int \<Rightarrow> db
   \<Rightarrow> compile_stats \<Rightarrow> lease_result" where
  "commit_page X l page report consistency now d st =
     (case publish_compile X l page report consistency now d of
        (Inl e, d') \<Rightarrow> (Inl e, d', st)
      | (Inr (Accepted _), d') \<Rightarrow> (Inr Finalized, d', st\<lparr>st_accepted := st_accepted st + 1\<rparr>)
      | (Inr Stale, d') \<Rightarrow> (Inr Finalized, d', st\<lparr>st_deferred := st_deferred st + 1\<rparr>))"

definition edge_depth :: nat where "edge_depth = 2"

definition edges_valid :: "(nat \<Rightarrow> nat list) \<Rightarrow> ext \<Rightarrow> qug_edge list \<Rightarrow> bool" where
  "edges_valid lower X es =
     (es = [] \<or> (case from_edges lower X es edge_depth of Inl _ \<Rightarrow> False | Inr _ \<Rightarrow> True))"

definition u64_max :: nat where "u64_max = 2 ^ 64 - 1"

definition reported_usage :: "compile_evidence \<Rightarrow> nat" where
  "reported_usage ev = (case ce_usage ev of None \<Rightarrow> 0 | Some u \<Rightarrow> min (tu_input u + tu_output u) u64_max)"

text \<open>A page with evidence: validated, arbitrated, scored, and published or failed.\<close>

definition process_page ::
  "ext \<Rightarrow> codec \<Rightarrow> (nat \<Rightarrow> nat list) \<Rightarrow> executor \<Rightarrow> entity_schema \<Rightarrow> task_lease \<Rightarrow> compiled_page \<Rightarrow> compile_evidence
   \<Rightarrow> int \<Rightarrow> db \<Rightarrow> compile_stats \<Rightarrow> lease_result" where
  "process_page X K lower ex schema l page ev now d st =
     (let refs = ex_validate ex (tl_source l) ev (cx_require_refs (tl_context l))
      in case arbitrate_consistency ex page of
           Inl e \<Rightarrow> (Inl e, d, st)
         | Inr consistency \<Rightarrow>
             let report = (case consistency of
                    Some c \<Rightarrow> ex_score_with ex (tl_source l) (Some page) refs True c (tl_context l) (ex_policy ex)
                  | None \<Rightarrow> ex_score ex (tl_source l) (Some page) refs True (tl_context l) (ex_policy ex))
             in case validate_score_finite report of
                  Inl e \<Rightarrow> (Inl e, d, st)
                | Inr _ \<Rightarrow>
                    if sc_accepted report then
                      (if \<not> edges_valid lower X (cp_edges page)
                       then fail_lease X l (InvalidOutput ''QUG_EDGES_INVALID'' []) None report consistency now d st
                       else (case normalize_page X K page l now (ex_policy ex) schema (sc_quality report) of
                               Inl e \<Rightarrow> (Inl e, d, st)
                             | Inr page' \<Rightarrow> commit_page X l page' report consistency now d st))
                    else fail_lease X l (InvalidOutput (quality_failure_code report) []) (Some page) report
                           consistency now d st)"

definition process_lease ::
  "ext \<Rightarrow> codec \<Rightarrow> (nat \<Rightarrow> nat list) \<Rightarrow> executor \<Rightarrow> entity_schema \<Rightarrow> task_lease \<Rightarrow> compiled_page result
   \<Rightarrow> int \<Rightarrow> db \<Rightarrow> compile_stats \<Rightarrow> lease_result" where
  "process_lease X K lower ex schema l answer now d st0 =
     (let st = st0\<lparr>st_attempts := st_attempts st0 + 1\<rparr>
      in case answer of
           Inl err \<Rightarrow>
             (case classify_compile_error err of
                Inl e \<Rightarrow> (Inl e, d, st)
              | Inr failure \<Rightarrow> fail_lease X l failure None (zero_score_report ex l) None now d st)
         | Inr page \<Rightarrow>
             (case cp_evidence page of
                None \<Rightarrow> fail_lease X l (InvalidOutput ''EVIDENCE_MISSING'' []) None (zero_score_report ex l) None now d st
              | Some ev \<Rightarrow> process_page X K lower ex schema l page ev now d
                             (st\<lparr>st_reported := st_reported st + reported_usage ev\<rparr>)))"

end
