(* ===== verification/Executor_Props.thy ===== *)
theory Executor_Props
  imports Executor Kernel_Demo Compile_Props
begin

text \<open>
  The properties of one lease: what a published page is, how a lease ends, what an error leaves behind.
  They join the checks of the compiler's answer with the transactions of the kernel.
\<close>

section \<open>The exits of a lease\<close>

lemma fail_lease_Inr:
  assumes "fail_lease X l failure cand report c now d st = (Inr r, d', st')"
  obtains (retry) due where "finish_compile_failure X l failure cand report c now d = (Inr (RetryAt due), d')"
      "r = RetryLater due" "st' = st"
  | (quarantined) "finish_compile_failure X l failure cand report c now d = (Inr QuarantinedTask, d')"
      "r = Finalized" "st' = st\<lparr>st_quarantined := st_quarantined st + 1\<rparr>"
  | (failed) "finish_compile_failure X l failure cand report c now d = (Inr FailedTask, d')"
      "r = Finalized" "st' = st\<lparr>st_failed := st_failed st + 1\<rparr>"
  using assms by (auto simp: fail_lease_def split: prod.splits sum.splits failure_disposition.splits)

lemma fail_lease_Inl: "fail_lease X l failure cand report c now d st = (Inl e, d', st') \<Longrightarrow> d' = d \<and> st' = st"
  by (auto simp: fail_lease_def finish_compile_failure_def split: prod.splits sum.splits failure_disposition.splits
      elim: immediate_transaction_cases)

lemma commit_page_Inr:
  assumes "commit_page X l page report c now d st = (Inr r, d', st')"
  obtains (accepted) g where "publish_compile X l page report c now d = (Inr (Accepted g), d')"
      "r = Finalized" "st' = st\<lparr>st_accepted := st_accepted st + 1\<rparr>"
  | (stale) "publish_compile X l page report c now d = (Inr Stale, d')"
      "r = Finalized" "st' = st\<lparr>st_deferred := st_deferred st + 1\<rparr>"
  using assms by (auto simp: commit_page_def split: prod.splits sum.splits commit_outcome.splits)

lemma commit_page_Inl: "commit_page X l page report c now d st = (Inl e, d', st') \<Longrightarrow> d' = d \<and> st' = st"
  by (auto simp: commit_page_def publish_compile_def split: prod.splits sum.splits commit_outcome.splits
      elim: immediate_transaction_cases)

text \<open>A page is only committed when its report accepts it and it normalizes.\<close>

definition lease_report :: "executor \<Rightarrow> task_lease \<Rightarrow> compiled_page \<Rightarrow> compile_evidence \<Rightarrow> consistency_report option \<Rightarrow> score_report" where
  "lease_report ex l page ev c =
     (let refs = ex_validate ex (tl_source l) ev (cx_require_refs (tl_context l))
      in case c of
           Some c \<Rightarrow> ex_score_with ex (tl_source l) (Some page) refs True c (tl_context l) (ex_policy ex)
         | None \<Rightarrow> ex_score ex (tl_source l) (Some page) refs True (tl_context l) (ex_policy ex))"

lemma process_page_cases:
  assumes "res = process_page X K lower ex schema l page ev now d st"
  obtains (error) e where "res = (Inl e, d, st)"
  | (fail) failure cand c where "res = fail_lease X l failure cand (lease_report ex l page ev c) c now d st"
  | (commit) c page' where "arbitrate_consistency ex page = Inr c" "sc_accepted (lease_report ex l page ev c)"
      "edges_valid lower X (cp_edges page)"
      "normalize_page X K page l now (ex_policy ex) schema (sc_quality (lease_report ex l page ev c)) = Inr page'"
      "res = commit_page X l page' (lease_report ex l page ev c) c now d st"
proof (cases "arbitrate_consistency ex page")
  case (Inl e)
  then show thesis using assms error by (simp add: process_page_def Let_def)
next
  case (Inr c)
  let ?report = "lease_report ex l page ev c"
  have res: "res = (case validate_score_finite ?report of
                  Inl e \<Rightarrow> (Inl e, d, st)
                | Inr _ \<Rightarrow>
                    if sc_accepted ?report then
                      (if \<not> edges_valid lower X (cp_edges page)
                       then fail_lease X l (InvalidOutput ''QUG_EDGES_INVALID'' []) None ?report c now d st
                       else (case normalize_page X K page l now (ex_policy ex) schema (sc_quality ?report) of
                               Inl e \<Rightarrow> (Inl e, d, st)
                             | Inr page' \<Rightarrow> commit_page X l page' ?report c now d st))
                    else fail_lease X l (InvalidOutput (quality_failure_code ?report) []) (Some page) ?report c now d st)"
    using assms by (simp only: process_page_def Inr lease_report_def Let_def sum.case)
  then show thesis
    using error fail commit[OF Inr] by (auto split: sum.splits if_splits)
qed

lemma process_lease_cases:
  assumes "res = process_lease X K lower ex schema l answer now d st"
  obtains (error) e usage where "res = (Inl e, d, st\<lparr>st_attempts := st_attempts st + 1, st_reported := st_reported st + usage\<rparr>)"
  | (fail) failure cand report c usage where
      "res = fail_lease X l failure cand report c now d (st\<lparr>st_attempts := st_attempts st + 1, st_reported := st_reported st + usage\<rparr>)"
  | (commit) page ev c page' usage where "answer = Inr page" "cp_evidence page = Some ev"
      "arbitrate_consistency ex page = Inr c" "sc_accepted (lease_report ex l page ev c)"
      "edges_valid lower X (cp_edges page)"
      "normalize_page X K page l now (ex_policy ex) schema (sc_quality (lease_report ex l page ev c)) = Inr page'"
      "res = commit_page X l page' (lease_report ex l page ev c) c now d
               (st\<lparr>st_attempts := st_attempts st + 1, st_reported := st_reported st + usage\<rparr>)"
proof (cases answer)
  case (Inl err)
  let ?st = "st\<lparr>st_attempts := st_attempts st + 1, st_reported := st_reported st + 0\<rparr>"
  have st: "st\<lparr>st_attempts := st_attempts st + 1\<rparr> = ?st" by simp
  show thesis
  proof (cases "classify_compile_error err")
    case (Inl e)
    then show thesis using assms \<open>answer = Inl err\<close> error[of e 0] by (simp add: process_lease_def Let_def)
  next
    case (Inr failure)
    then show thesis using assms \<open>answer = Inl err\<close> fail[of failure None _ None 0] by (simp add: process_lease_def Let_def)
  qed
next
  case (Inr page)
  show thesis
  proof (cases "cp_evidence page")
    case None
    then show thesis using assms Inr fail[of "InvalidOutput ''EVIDENCE_MISSING'' []" None _ None 0]
      by (simp add: process_lease_def Let_def)
  next
    case (Some ev)
    let ?st = "st\<lparr>st_attempts := st_attempts st + 1, st_reported := st_reported st + reported_usage ev\<rparr>"
    have "res = process_page X K lower ex schema l page ev now d ?st"
      using assms Inr Some by (simp add: process_lease_def Let_def)
    then show thesis
    proof (cases rule: process_page_cases)
      case (error e)
      then show thesis using that(1) by blast
    next
      case (fail failure cand c)
      then show thesis using that(2) by blast
    next
      case (commit c page')
      then show thesis using that(3)[OF Inr Some] by blast
    qed
  qed
qed

lemma normalize_page_Inr:
  assumes "normalize_page X K page l now policy schema q = Inr page'" "cp_evidence page = Some ev"
  shows "wp_id (cp_wiki page') = to_key (wp_entity (cp_wiki page'))"
    "wp_content (cp_wiki page') = render_canonical_markdown ev" "wp_title (cp_wiki page') = ow_title (ce_wiki ev)"
    "wp_sections (cp_wiki page') = split_sections K (render_canonical_markdown ev)"
    "content_hash X (tl_source l) (tl_context l) policy schema = Inr (cp_hash page')"
  using assms by (auto simp: normalize_page_def Let_def)

lemma publish_hash:
  assumes "publish_compile X l page report c now d = (Inr (Accepted g), d')"
    and "find_task_id (tl_task l) d = Some t" "t_status t = Running"
  shows "cp_hash page = tl_hash l"
proof -
  have p: "publish_in_transaction X l page report c now d = Inr (Accepted g, d')"
    using assms(1) unfolding publish_compile_def by (elim immediate_transaction_cases) auto
  then show ?thesis
  proof (cases rule: publish_cases)
    case (replay t1)
    then show ?thesis using assms(2,3) by (simp add: is_replay_def)
  qed simp_all
qed

text \<open>The built-in report: the scorer on the validator's report, with the arbiter's where there is one.\<close>

lemma builtin_report:
  "lease_report (builtin X K policy provider) l page ev c =
     score_with_consistency (tl_source l) (Some page) (validate_refs K (tl_source l) ev (cx_require_refs (tl_context l)))
       True (case c of None \<Rightarrow> consistency_report_default | Some c \<Rightarrow> c) (tl_context l) policy"
  by (simp add: lease_report_def builtin_def score_def split: option.split)

lemma lease_step:
  assumes "process_lease X K lower ex schema l answer now d st = (r, d', st')" "reachable X d"
  shows "reachable X d'"
  using assms(1)[symmetric]
proof (cases rule: process_lease_cases)
  case (error e usage)
  then show ?thesis using assms(2) by simp
next
  case (fail failure cand report c usage)
  then have "\<exists>rf. finish_compile_failure X l failure cand report c now d = (rf, d')"
    by (auto simp: fail_lease_def split: prod.splits sum.splits failure_disposition.splits)
  then show ?thesis using reachable.step[OF assms(2)] kernel_step.failure by metis
next
  case (commit page ev c page' usage)
  have "\<exists>rp. publish_compile X l page' (lease_report ex l page ev c) c now d = (rp, d')"
    using commit(7) by (auto simp: commit_page_def split: prod.splits sum.splits commit_outcome.splits)
  then show ?thesis
    using reachable.step[OF assms(2)] kernel_step.publish normalize_page_Inr(1)[OF commit(6,2)] by metis
qed

section \<open>A lease that publishes\<close>

definition good_page :: compiled_page where
  "good_page = (demo_page ''h'')\<lparr>cp_evidence := Some good_evidence\<rparr>"

definition demo_executor :: executor where
  "demo_executor = builtin sample_ext good_codec demo_policy None"

definition same_scalar :: "nat \<Rightarrow> nat list" where "same_scalar c = [c]"

lemma good_source_demo: "good_source = demo_knowledge" by (simp add: good_source_def demo_knowledge_def)

lemma good_report:
  "score_with_consistency good_source (Some good_page) (validate_refs good_codec good_source good_evidence True) True
     consistency_report_default demo_context demo_policy = demo_report"
  using good_overall
  by (simp add: good_validates score_with_consistency_def Let_def consistency_issues_def consistency_report_default_def
      passes_gates_def score_of_def coverage_of_def good_units citation_of_def f_min_def
      density_of_def demo_context_def demo_policy_def build_context_def demo_report_def perfect_quality_def)

lemma demo_report_finite: "validate_score_finite demo_report = Inr ()"
  by (simp add: validate_score_finite_def demo_report_def perfect_quality_def score_in_range_def is_finite_def in_unit_def)

lemma demo_lease_fields:
  "tl_source demo_lease = demo_knowledge" "tl_context demo_lease = demo_context" "tl_hash demo_lease = demo_hash"
  "cx_require_refs demo_context" "\<not> csp_enabled (cpl_consistency demo_policy)"
  by (simp_all add: demo_lease_def demo_context_def build_context_def demo_policy_def compile_policy_default_def
      consistency_policy_default_def)

definition good_normalized :: compiled_page where
  "good_normalized = projr (normalize_page sample_ext good_codec good_page demo_lease 20 demo_policy demo_schema perfect_quality)"

lemma good_normalizes:
  "normalize_page sample_ext good_codec good_page demo_lease 20 demo_policy demo_schema perfect_quality = Inr good_normalized"
  "cp_evidence good_normalized = Some good_evidence" "wp_entity (cp_wiki good_normalized) = demo_entity"
  "cp_hash good_normalized = demo_hash"
  using demo_content_hash
  by (simp_all add: good_normalized_def normalize_page_def good_page_def Let_def demo_lease_fields)
     (simp_all add: demo_knowledge_def)

lemma good_commits:
  "\<exists>d'. publish_compile sample_ext demo_lease good_normalized demo_report None 20 demo_claimed = (Inr (Accepted 1), d')"
proof -
  have ok: "queue_ok demo_claimed" "pages_ok demo_claimed"
    using queue.always[OF demo_claimed_reachable] pages.always[OF demo_claimed_reachable] .
  have "publishable sample_ext demo_leased demo_lease good_normalized demo_report None"
    using demo_publishable good_normalizes demo_key
    by (simp add: publishable_def demo_holds demo_lease_fields max_artifact_bytes_def)
       (simp add: quality_row_ok_def quality_row_of_def)
  from publish_total[OF ok _ demo_holds(1) _ this] demo_head show ?thesis
    by (auto simp: demo_claimed_fields demo_holds)
qed

lemma good_lease:
  "\<exists>d' st'. process_lease sample_ext good_codec same_scalar demo_executor demo_schema demo_lease (Inr good_page) 20
       demo_claimed compile_stats_default = (Inr Finalized, d', st')
     \<and> st_accepted st' = st_accepted compile_stats_default + 1"
proof -
  obtain d' where "publish_compile sample_ext demo_lease good_normalized demo_report None 20 demo_claimed = (Inr (Accepted 1), d')"
    using good_commits by blast
  moreover have "cp_evidence good_page = Some good_evidence" "cp_edges good_page = []"
    by (simp_all add: good_page_def demo_page_def)
  ultimately show ?thesis
    using good_report demo_report_finite good_normalizes(1) unfolding good_source_demo
    by (simp add: process_lease_def process_page_def demo_executor_def builtin_def arbitrate_consistency_def
        demo_lease_fields score_def commit_page_def edges_valid_def demo_report_def)
qed

section \<open>Published pages\<close>

text \<open>C1. A lease that ends with an accepted page: the evidence of the compiler's answer is faithful to the
  leased source with every assertion supported; the page now accepted for the entity has as content the
  canonical text of that evidence, its title, its sections and the content hash of the leased inputs,
  whatever else the compiler put into its page; and where arbitration is on, it ran on what the provider
  found and its score is not below the policy's minimum. The answer's evidence is within the decoder's limits (every
  decoded answer is) and its Markdown is shorter than 2^32 bytes, so that the counters do not wrap. \<close>

theorem published_page_faithful:
  assumes "reachable X d" "find_task_id (tl_task l) d = Some t" "t_status t = Running"
    and "process_lease X K lower (builtin X K policy provider) schema l (Inr page) now d st = (Inr Finalized, d', st')"
    and "st_accepted st' = st_accepted st + 1"
    and "cp_evidence page = Some ev" "within_limits (ce_wiki ev) (ce_sections ev)"
    and "length (ow_markdown (ce_wiki ev)) < 2 ^ 32"
  shows "faithful_evidence K (tl_source l) ev True
    \<and> (\<exists>p. accepted_page (t_entity t) d' = Some p \<and> pg_content p = render_canonical_markdown ev
         \<and> pg_title p = ow_title (ce_wiki ev)
         \<and> content_hash X (tl_source l) (tl_context l) policy schema = Inr (pg_hash p) \<and> pg_hash p = tl_hash l)
    \<and> map (\<lambda>s. (se_heading s, se_content s)) (filter (\<lambda>s. se_page s = t_entity t) (db_sections d'))
        = split_sections K (render_canonical_markdown ev)
    \<and> find_task_id (tl_task l) d' = Some (accept_task_set now t)
    \<and> (\<forall>related_of. csp_enabled (cpl_consistency policy) \<and> provider = Some related_of \<longrightarrow>
         (\<exists>related rep. related_of page (csp_top_k (cpl_consistency policy)) = Inr related
            \<and> arbitrate X page related (cpl_consistency policy) = Inr rep \<and> consistency_kept rep policy))"
  using assms(4)[symmetric]
proof (cases rule: process_lease_cases)
  case (fail failure cand report c usage)
  show ?thesis by (rule fail_lease_Inr[OF fail[symmetric]]) (use assms(5) in simp_all)
next
  case (commit page0 ev0 c page' usage)
  let ?ex = "builtin X K policy provider"
  let ?cons = "case c of None \<Rightarrow> consistency_report_default | Some c \<Rightarrow> c"
  have ev: "page0 = page" "ev0 = ev" using commit(1,2) assms(6) by simp_all
  note commit = commit[unfolded ev]
  obtain g where g: "publish_compile X l page' (lease_report ?ex l page ev c) c now d = (Inr (Accepted g), d')"
    by (rule commit_page_Inr[OF commit(7)[symmetric]]) (use assms(5) in simp_all)
  have policy: "ex_policy ?ex = policy" by (simp add: builtin_def)
  note n = normalize_page_Inr[OF commit(6,2), unfolded policy]
  note rep = publish_replaced[OF assms(1) n(1) g assms(2,3)]
  have n0: "0 < assertions_total (ce_sections ev)" "assertions_total (ce_sections ev) \<le> 2 ^ 20"
    using assms(7) by (cases "ce_sections ev"; force simp: within_limits_def assertions_total_def Suc_le_eq)+
  note acc = accepted_iff[OF n0, where K = K and src = "tl_source l" and page = "Some page"
    and require = "cx_require_refs (tl_context l)" and schema_valid = True and cons = ?cons
    and cx = "tl_context l" and pol = policy]
  have "faithful_evidence K (tl_source l) ev True \<and> consistency_kept ?cons policy"
    using acc commit(4) assms(8) unfolding builtin_report by (simp add: u32_max_def)
  moreover have "\<exists>related rep. related_of page (csp_top_k (cpl_consistency policy)) = Inr related
      \<and> arbitrate X page related (cpl_consistency policy) = Inr rep \<and> c = Some rep"
    if "csp_enabled (cpl_consistency policy)" "provider = Some related_of" for related_of
    using commit(3) that by (auto simp: arbitrate_consistency_def builtin_def)
  moreover have "cp_hash page' = tl_hash l" by (rule publish_hash[OF g assms(2,3)])
  moreover obtain p where "accepted_page (t_entity t) d' = Some p" "pg_hash p = tl_hash l"
    "pg_content p = wp_content (cp_wiki page')" "pg_title p = wp_title (cp_wiki page')"
    using rep by blast
  ultimately show ?thesis using rep n by fastforce
qed simp

theorem published_page_faithful_witness:
  "\<exists>d' p. accepted_page ''milk:drink:boba'' d' = Some p \<and> pg_content p = render_canonical_markdown good_evidence
     \<and> pg_title p = ''boba'' \<and> pg_hash p = demo_hash"
proof -
  obtain d' st' where run: "process_lease sample_ext good_codec same_scalar demo_executor demo_schema demo_lease
      (Inr good_page) 20 demo_claimed compile_stats_default = (Inr Finalized, d', st')"
    "st_accepted st' = st_accepted compile_stats_default + 1" using good_lease by blast
  have "find_task_id (tl_task demo_lease) demo_claimed = Some demo_leased" "t_status demo_leased = Running"
    using demo_holds(1)
    by (auto simp: find_task_id_def sql_first_def demo_claimed_fields holds_lease_def live_task_def)
  moreover have "within_limits (ce_wiki good_evidence) (ce_sections good_evidence)"
    "length (ow_markdown (ce_wiki good_evidence)) < 2 ^ 32" "cp_evidence good_page = Some good_evidence"
    "ow_title (ce_wiki good_evidence) = ''boba''"
    by (simp_all add: good_page_def within_limits_def assertions_total_def good_evidence_def good_wiki_def
        good_section_def good_ref_def text_simps)
  ultimately show ?thesis
    using published_page_faithful[OF demo_claimed_reachable _ _ run[unfolded demo_executor_def], of demo_leased good_evidence]
      demo_holds(2) demo_lease_fields demo_content_hash by fastforce
qed

section \<open>How a lease ends\<close>

text \<open>What the executor does to the task of a lease it holds, counted in the statistics: one attempt, and
  one of the terminal counters unless the task is queued again.\<close>

definition lease_closed :: "int \<Rightarrow> compile_stats \<Rightarrow> compile_stats \<Rightarrow> task_row \<Rightarrow> lease_outcome \<Rightarrow> bool" where
  "lease_closed now st st' t r \<longleftrightarrow>
     t_token t = None \<and> t_status t \<noteq> Running \<and> st_deferred st' = st_deferred st
     \<and> (case r of
          RetryLater due \<Rightarrow> t_status t = Pending \<and> t_next_at t = due \<and> now \<le> due \<and> due \<le> now + 300
            \<and> st_accepted st' = st_accepted st \<and> st_failed st' = st_failed st \<and> st_quarantined st' = st_quarantined st
        | Finalized \<Rightarrow> st_accepted st \<le> st_accepted st' \<and> st_failed st \<le> st_failed st'
            \<and> st_quarantined st \<le> st_quarantined st'
            \<and> st_accepted st' + st_failed st' + st_quarantined st' = st_accepted st + st_failed st + st_quarantined st + 1)"

lemma fail_lease_closed:
  assumes "reachable X d" "find_task_id (tl_task l) d = Some t" "live_task l now t"
    and "fail_lease X l failure cand report c now d st = (Inr r, d', st')"
  shows "\<exists>t'. find_task_id (tl_task l) d' = Some t' \<and> lease_closed now st st' t' r"
  using assms(4)
proof (cases rule: fail_lease_Inr)
  case (retry due)
  from failure_ended[OF assms(1-3) retry(1)] show ?thesis using retry(2,3) by (auto simp: lease_closed_def)
next
  case quarantined
  from failure_ended[OF assms(1-3) quarantined(1)] show ?thesis using quarantined(2,3) by (auto simp: lease_closed_def)
next
  case failed
  from failure_ended[OF assms(1-3) failed(1)] show ?thesis using failed(2,3) by (auto simp: lease_closed_def)
qed

lemma publish_live_or_stale:
  assumes "queue_ok d" "find_task_id (tl_task l) d = Some t" "live_task l now t"
    and "publish_compile X l page report c now d = (Inr r, d')"
  obtains (stale) "r = Stale" "d' = d" "head_desired (t_entity t) d \<noteq> Some (t_desired t)"
  | (live) "r \<noteq> Stale" "find_task_id (tl_task l) d' = Some (accept_task_set now t)"
      "head_desired (t_entity t) d = Some (t_desired t)"
proof -
  have p: "publish_in_transaction X l page report c now d = Inr (r, d')"
    using assms(4) unfolding publish_compile_def by (elim immediate_transaction_cases) auto
  then show thesis
  proof (cases rule: publish_cases)
    case (live t1)
    then have "t1 = t" using assms(2) by simp
    from publish_live_queue(1)[OF assms(1,2)] live this have "find_task_id (tl_task l) d' = Some (accept_task_set now t)"
      by blast
    moreover have "r \<noteq> Stale" using live(8) by (auto simp: publish_live_def)
    ultimately show thesis using that(2) live \<open>t1 = t\<close> by blast
  next
    case (replay t1)
    then show thesis using assms(2,3) by (simp add: is_replay_def live_task_def)
  next
    case stale
    then show thesis using p assms(2,3) that(1)
      by (auto simp: publish_in_transaction_def publish_live_def split: if_splits)
  qed
qed

text \<open>A lease that fails with an error of its own (storage, an arbiter's or provider's error, a score out of
  range) has written nothing: the store is as before, the task is still leased and recovery will
  requeue it; only the attempt and the reported tokens are counted. \<close>

theorem lease_error_changes_nothing:
  assumes "process_lease X K lower ex schema l answer now d st = (Inl e, d', st')"
  shows "d' = d \<and> (\<exists>usage. st' = st\<lparr>st_attempts := st_attempts st + 1, st_reported := st_reported st + usage\<rparr>)"
  using assms[symmetric]
proof (cases rule: process_lease_cases)
  case (fail failure cand report c usage)
  then show ?thesis using fail_lease_Inl[OF fail[symmetric]] by blast
next
  case (commit page ev c page' usage)
  then show ?thesis using commit_page_Inl[OF commit(7)[symmetric]] by blast
qed auto

theorem lease_error_changes_nothing_witness:
  "\<exists>e st'. process_lease sample_ext good_codec same_scalar demo_executor demo_schema demo_lease (Inl Database) 20
       demo_claimed compile_stats_default = (Inl e, demo_claimed, st') \<and> st_attempts st' = 1"
proof -
  have run: "process_lease sample_ext good_codec same_scalar demo_executor demo_schema demo_lease (Inl Database) 20
       demo_claimed compile_stats_default
     = (Inl Database, demo_claimed, compile_stats_default\<lparr>st_attempts := st_attempts compile_stats_default + 1\<rparr>)"
    by (simp add: process_lease_def classify_compile_error_def)
  from lease_error_changes_nothing[OF run] show ?thesis using run by (auto simp: compile_stats_default_def)
qed

lemma lease_over:
  assumes "reachable X d" "find_task_id (tl_task l) d = Some t" "live_task l now t"
    and "process_lease X K lower ex schema l answer now d st = (Inr r, d', st')"
  shows "st_attempts st' = st_attempts st + 1
    \<and> ((\<exists>t'. find_task_id (tl_task l) d' = Some t' \<and> lease_closed now st st' t' r)
       \<or> (d' = d \<and> r = Finalized \<and> st_deferred st' = st_deferred st + 1
          \<and> head_desired (t_entity t) d \<noteq> Some (t_desired t)))"
  using assms(4)[symmetric]
proof (cases rule: process_lease_cases)
  case (fail failure cand report c usage)
  have "st_attempts st' = st_attempts st + 1" by (rule fail_lease_Inr[OF fail[symmetric]]) simp_all
  with fail_lease_closed[OF assms(1-3) fail[symmetric]] show ?thesis
    by (auto simp: lease_closed_def split: lease_outcome.splits)
next
  case (commit page ev c page' usage)
  let ?st = "st\<lparr>st_attempts := st_attempts st + 1, st_reported := st_reported st + usage\<rparr>"
  from commit(7)[symmetric] show ?thesis
  proof (cases rule: commit_page_Inr)
    case (accepted g)
    from queue.always[OF assms(1)] assms(2,3) accepted(1) show ?thesis
      by (rule publish_live_or_stale) (use accepted in \<open>auto simp: lease_closed_def accept_task_set_def\<close>)
  next
    case stale
    from queue.always[OF assms(1)] assms(2,3) stale(1) show ?thesis
      by (rule publish_live_or_stale) (use stale in auto)
  qed
qed simp

text \<open>C36. What \<^verbatim>\<open>process_lease\<close> does with a lease that is live when the compiler answers. Either it returns an error
  (of the database, of the arbiter or the provider of related pages, a score that is not finite, a page or a
  report that cannot be stored): then the store is as before, the task still leased until it expires, and only
  the attempt and the reported tokens are counted. Or the lease is over, whatever the answer was: the task loses
  its token, is queued again at the time the outcome names (at most five minutes ahead) or is done, and exactly one
  terminal counter goes up, unless the source head has moved on, which changes nothing and is counted as deferred.
  A permanent or a retryable error of the compiler, with a try left, always ends the lease of its holder. \<close>

theorem lease_ends:
  assumes "reachable X d" "find_task_id (tl_task l) d = Some t" "live_task l now t"
    and "process_lease X K lower ex schema l answer now d st = (res, d', st')"
  shows "st_attempts st' = st_attempts st + 1
    \<and> (case res of
        Inl e \<Rightarrow> d' = d \<and> (\<exists>usage. st' = st\<lparr>st_attempts := st_attempts st + 1, st_reported := st_reported st + usage\<rparr>)
      | Inr r \<Rightarrow> (\<exists>t'. find_task_id (tl_task l) d' = Some t' \<and> lease_closed now st st' t' r)
          \<or> (d' = d \<and> r = Finalized \<and> st_deferred st' = st_deferred st + 1
              \<and> head_desired (t_entity t) d \<noteq> Some (t_desired t)))
    \<and> (\<forall>err failure. answer = Inl err \<and> classify_compile_error err = Inr failure \<and> reportable X l failure now t
        \<longrightarrow> (\<exists>r. res = Inr r))"
proof -
  have "\<exists>r. res = Inr r" if "answer = Inl err" "classify_compile_error err = Inr failure" "reportable X l failure now t"
    for err failure
  proof -
    obtain q d1 where q: "finish_compile_failure X l failure None (zero_score_report ex l) None now d = (q, d1)" by fastforce
    note held = that
    obtain r where "q = Inr r" using failure_succeeds[OF assms(1-3) held(3) q] by blast
    then show ?thesis using assms(4) held(1,2) q
      by (auto simp: process_lease_def fail_lease_def Let_def split: failure_disposition.splits)
  qed
  moreover have "st_attempts st' = st_attempts st + 1 \<and> (case res of
        Inl e \<Rightarrow> d' = d \<and> (\<exists>usage. st' = st\<lparr>st_attempts := st_attempts st + 1, st_reported := st_reported st + usage\<rparr>)
      | Inr r \<Rightarrow> (\<exists>t'. find_task_id (tl_task l) d' = Some t' \<and> lease_closed now st st' t' r)
          \<or> (d' = d \<and> r = Finalized \<and> st_deferred st' = st_deferred st + 1
              \<and> head_desired (t_entity t) d \<noteq> Some (t_desired t)))"
  proof (cases res)
    case (Inl e)
    from lease_error_changes_nothing[OF assms(4)[unfolded Inl]] show ?thesis by (auto simp: Inl)
  next
    case (Inr r)
    from lease_over[OF assms(1-3) assms(4)[unfolded Inr]] show ?thesis by (simp add: Inr)
  qed
  ultimately show ?thesis by blast
qed

theorem lease_ends_witness:
  "\<exists>d' st' t'. process_lease sample_ext good_codec same_scalar demo_executor demo_schema demo_lease (Inr good_page) 20
       demo_claimed compile_stats_default = (Inr Finalized, d', st')
     \<and> find_task_id 1 d' = Some t' \<and> t_token t' = None \<and> t_status t' \<noteq> Running"
proof -
  obtain d' st' where run: "process_lease sample_ext good_codec same_scalar demo_executor demo_schema demo_lease
      (Inr good_page) 20 demo_claimed compile_stats_default = (Inr Finalized, d', st')" using good_lease by blast
  have f: "find_task_id (tl_task demo_lease) demo_claimed = Some demo_leased" "live_task demo_lease 20 demo_leased"
    using demo_holds(1) by (auto simp: find_task_id_def sql_first_def demo_claimed_fields holds_lease_def)
  from lease_ends[OF demo_claimed_reachable f run] run show ?thesis
    using demo_head by (auto simp: lease_closed_def demo_holds demo_lease_def)
qed

end
