(* ===== verification/Read_Side.thy ===== *)
theory Read_Side
  imports Publish Strings
begin

text \<open>
  The read side of the kernel (\<^verbatim>\<open>kernel/compile_store.rs\<close>): how a compiled page is put together again
  from the tables a publication wrote, the related pages of the consistency check
  (\<^verbatim>\<open>compile/consistency.rs\<close>), the listings the executor, the server and the vector index read, and
  the check of vector payloads. A query changes nothing, so it is a function of the store. The
  full-text ranking of SQLite is the parameter \<open>rank\<close>.
\<close>

section \<open>One page\<close>

definition no_quality :: quality_score where
  "no_quality = \<lparr>qs_coverage = Fin 0, qs_citation = Fin 0, qs_schema = Fin 0, qs_density = Fin 0, qs_consistency = None\<rparr>"

definition stored_quality :: "string \<Rightarrow> db \<Rightarrow> quality_score" where
  "stored_quality page d =
     (case sql_first (\<lambda>q. pq_page q = page) (db_quality d) of
        None \<Rightarrow> no_quality
      | Some q \<Rightarrow> \<lparr>qs_coverage = f_cast f32 (pq_coverage q), qs_citation = f_cast f32 (pq_citation q),
          qs_schema = f_cast f32 (pq_schema q), qs_density = f_cast f32 (pq_density q),
          qs_consistency = map_option (f_cast f32) (pq_consistency q)\<rparr>)"

text \<open>\<^verbatim>\<open>StoredFrontmatter\<close>: two optional lists of strings; whatever does not parse reads as empty.\<close>

fun text_items :: "json list \<Rightarrow> string list option" where
  "text_items [] = Some []"
| "text_items (v # vs) =
     (case as_str v of None \<Rightarrow> None | Some s \<Rightarrow> map_option ((#) s) (text_items vs))"

definition member_texts :: "(string \<times> json) list \<Rightarrow> string \<Rightarrow> string list option" where
  "member_texts ms key =
     (case map_of ms key of None \<Rightarrow> Some [] | Some v \<Rightarrow> Option.bind (as_array v) text_items)"

definition stored_frontmatter :: "ext \<Rightarrow> string \<Rightarrow> string list \<times> string list" where
  "stored_frontmatter X text =
     (case x_parse_json X text of
        Some (JObj ms) \<Rightarrow>
          (case (member_texts ms ''aliases'', member_texts ms ''tags'') of
             (Some a, Some t) \<Rightarrow> (a, t) | _ \<Rightarrow> ([], []))
      | _ \<Rightarrow> ([], []))"

definition page_sections :: "string \<Rightarrow> db \<Rightarrow> (string \<times> string) list" where
  "page_sections page d =
     map (\<lambda>s. (se_heading s, se_content s)) (sort_key se_index (filter (\<lambda>s. se_page s = page) (db_sections d)))"

definition page_edges :: "ext \<Rightarrow> string \<Rightarrow> db \<Rightarrow> qug_edge list result" where
  "page_edges X page d =
     collect_results (map (\<lambda>e. ok_or Serialization (x_parse_edge X (e_json e)))
       (sort_key e_hash (filter (\<lambda>e. e_page e = page) (db_edges d))))"

text \<open>The evidence is not a column: it is read out of the artifact of the newest accepted attempt.\<close>

definition load_page_evidence :: "ext \<Rightarrow> string \<Rightarrow> int \<Rightarrow> string \<Rightarrow> db \<Rightarrow> compile_evidence option" where
  "load_page_evidence X entity revision pack d =
     (case sql_first (\<lambda>t. t_entity t = entity \<and> t_revision t = revision \<and> t_pack t = pack) (db_tasks d) of
        None \<Rightarrow> None
      | Some t \<Rightarrow>
          (case sql_first_by (\<lambda>a. (- a_epoch a, - a_no a))
                  (\<lambda>a. a_task a = t_id t \<and> a_status a = Completed \<and> a_publish a = Some AcceptedPage
                       \<and> a_artifact a \<noteq> None) (db_attempts d) of
             None \<Rightarrow> None
           | Some a \<Rightarrow> Option.bind (Option.bind (a_artifact a) (x_parse_page X)) cp_evidence))"

definition assemble_compiled_page :: "ext \<Rightarrow> page_row \<Rightarrow> quality_score \<Rightarrow> db \<Rightarrow> compiled_page result" where
  "assemble_compiled_page X row quality d =
     try_bind (from_key (pg_entity row)) (\<lambda>entity.
     try_bind (page_edges X (pg_id row) d) (\<lambda>edges. Inr
       \<lparr>cp_wiki = \<lparr>wp_id = pg_id row, wp_entity = entity, wp_title = pg_title row, wp_content = pg_content row,
          wp_sections = page_sections (pg_id row) d,
          wp_meta = \<lparr>pm_pack_version = pg_pack row, pm_compiled_at = pg_compiled row, pm_model = pg_model row,
             pm_embedding = pg_embedding row\<rparr>,
          wp_aliases = fst (stored_frontmatter X (pg_frontmatter row)),
          wp_tags = snd (stored_frontmatter X (pg_frontmatter row))\<rparr>,
        cp_quality = quality, cp_edges = edges, cp_hash = pg_hash row,
        cp_evidence = load_page_evidence X (pg_entity row) (pg_revision row) (pg_pack row) d\<rparr>))"

definition load_page :: "ext \<Rightarrow> db \<Rightarrow> page_row \<Rightarrow> compiled_page result" where
  "load_page X d row = assemble_compiled_page X row (stored_quality (pg_id row) d) d"

section \<open>Lists of pages\<close>

definition accepted_rows :: "string \<Rightarrow> db \<Rightarrow> page_row list" where
  "accepted_rows domain d =
     sort_key pg_id (filter (\<lambda>p. pg_domain p = domain \<and> pg_status p = AcceptedPage) (db_pages d))"

definition load_accepted_pages :: "ext \<Rightarrow> string \<Rightarrow> db \<Rightarrow> compiled_page list result" where
  "load_accepted_pages X domain d = collect_results (map (load_page X d) (accepted_rows domain d))"

definition list_published_pages :: "string \<Rightarrow> db \<Rightarrow> (string \<times> int \<times> string \<times> string) list" where
  "list_published_pages domain d =
     map (\<lambda>p. (pg_id p, pg_generation p, pg_hash p, pg_embedding p)) (accepted_rows domain d)"

record page_vector =
  pv_page :: string
  pv_entity :: string
  pv_title :: string
  pv_content :: string
  pv_hash :: string
  pv_generation :: nat

definition accepted_page_vectors :: "string \<Rightarrow> db \<Rightarrow> page_vector list" where
  "accepted_page_vectors domain d =
     map (\<lambda>p. \<lparr>pv_page = pg_id p, pv_entity = pg_entity p, pv_title = pg_title p, pv_content = pg_content p,
                pv_hash = pg_hash p, pv_generation = nat (max (pg_generation p) 0)\<rparr>) (accepted_rows domain d)"

section \<open>Related pages\<close>

definition max_consistency_top_k :: nat where "max_consistency_top_k = 32"
definition max_fts_query_chars :: nat where "max_fts_query_chars = 256"

text \<open>Terms of at least three scalars, without repetition, as long as the query stays within its limit.\<close>

fun fts_loop :: "string list \<Rightarrow> nat \<Rightarrow> string list \<Rightarrow> string list" where
  "fts_loop terms used [] = terms"
| "fts_loop terms used (raw # raws) =
     (if length (scalars raw) < 3 \<or> raw \<in> set terms then fts_loop terms used raws
      else let cost = (if terms = [] then 0 else 4) + (length (scalars raw) + 2)
           in if used + cost > max_fts_query_chars then terms
              else fts_loop (terms @ [raw]) (used + cost) raws)"

definition fts_query_terms :: "string \<Rightarrow> string list \<Rightarrow> string list" where
  "fts_query_terms title aliases = fts_loop [] 0 (filter (\<lambda>t. t \<noteq> []) (map trim_text (title # aliases)))"

definition quoted_term :: "string \<Rightarrow> string" where
  "quoted_term t = CHR 0x22 # concat (map (\<lambda>c. if c = CHR 0x22 then [c, c] else [c]) t) @ [CHR 0x22]"

definition match_expr :: "string list \<Rightarrow> string" where
  "match_expr terms = join_with '' OR '' (map quoted_term terms)"

type_synonym fts_rank = "string \<Rightarrow> page_row \<Rightarrow> rat option"

definition top_k_related_pages ::
  "ext \<Rightarrow> fts_rank \<Rightarrow> string list \<Rightarrow> string \<Rightarrow> nat \<Rightarrow> db \<Rightarrow> compiled_page list result" where
  "top_k_related_pages X rank terms exclude limit d =
     (if terms = [] \<or> limit = 0 then Inr []
      else collect_results (map (load_page X d)
        (take (max 1 (min limit max_consistency_top_k))
          (sort_key (\<lambda>p. (- the (rank (match_expr terms) p), pg_id p))
            (filter (\<lambda>p. rank (match_expr terms) p \<noteq> None \<and> pg_status p = AcceptedPage \<and> pg_id p \<noteq> exclude)
              (db_pages d))))))"

definition top_k_related :: "ext \<Rightarrow> fts_rank \<Rightarrow> db \<Rightarrow> compiled_page \<Rightarrow> nat \<Rightarrow> compiled_page list result" where
  "top_k_related X rank d candidate limit =
     (let terms = fts_query_terms (wp_title (cp_wiki candidate)) (wp_aliases (cp_wiki candidate))
      in if terms = [] then Inr []
         else top_k_related_pages X rank terms (wp_id (cp_wiki candidate))
                (max 1 (min limit max_consistency_top_k)) d)"

section \<open>Tasks\<close>

record task_state =
  ts_task :: int
  ts_entity :: string
  ts_status :: task_status
  ts_result :: "task_result option"
  ts_attempts :: nat
  ts_retries :: nat
  ts_recompiles :: nat
  ts_error :: "string option"
  ts_updated :: int
  ts_expires :: "int option"

text \<open>\<^verbatim>\<open>n.max(0) as u32\<close>.\<close>

definition as_u32_cast :: "int \<Rightarrow> nat" where "as_u32_cast n = nat (max n 0) mod 2 ^ 32"

definition compile_task_status :: "int \<Rightarrow> db \<Rightarrow> task_state option" where
  "compile_task_status i d = map_option (\<lambda>t.
     \<lparr>ts_task = t_id t, ts_entity = t_entity t, ts_status = t_status t, ts_result = t_result t,
      ts_attempts = as_u32_cast (t_attempts t), ts_retries = as_u32_cast (t_retries t),
      ts_recompiles = as_u32_cast (t_recompiles t), ts_error = t_error t, ts_updated = t_updated t,
      ts_expires = t_expires t\<rparr>) (find_task_id i d)"

definition list_due_compile_task_ids :: "int \<Rightarrow> nat \<Rightarrow> db \<Rightarrow> int list" where
  "list_due_compile_task_ids now limit d =
     take (max limit 1) (map t_id (sort_key (\<lambda>t. (t_next_at t, t_id t))
       (filter (\<lambda>t. t_status t = Pending \<and> t_next_at t \<le> now \<and> t_retries t < t_max_retries t) (db_tasks d))))"

section \<open>Vector payloads\<close>

text \<open>The pages all of whose payloads name the hash and generation of the accepted page.\<close>

definition payload_matches :: "db \<Rightarrow> string \<times> string \<times> nat \<Rightarrow> bool" where
  "payload_matches d h =
     (case h of (page, hash, generation) \<Rightarrow>
        sql_exists (\<lambda>p. pg_id p = page \<and> pg_status p = AcceptedPage \<and> pg_hash p = hash
                        \<and> pg_generation p = int generation) (db_pages d))"

definition validate_vector_payloads :: "(string \<times> string \<times> nat) list \<Rightarrow> db \<Rightarrow> string list" where
  "validate_vector_payloads hits d =
     filter (\<lambda>page. list_all (\<lambda>h. fst h = page \<longrightarrow> payload_matches d h) hits) (remdups (map fst hits))"

end
