(* ===== verification/Read_Props.thy ===== *)
theory Read_Props
  imports Read_Side Kernel_Demo "HOL-Library.Multiset"
begin

text \<open>
  The read side gives back what a publication wrote: every table of the page is followed from the
  statements of the publication to the query that reads it.
\<close>

section \<open>Columns of \<^verbatim>\<open>f32\<close> values\<close>

text \<open>A number of 24 significant bits is a number of 53 significant bits.\<close>

lemma rnd_pos_widen:
  assumes "x > 0" "p \<le> q" "rnd_pos p x = x"
  shows "rnd_pos q x = x"
proof -
  define u where "u = (2::rat) powi (binary_exp x - int p + 1)"
  define v where "v = (2::rat) powi (binary_exp x - int q + 1)"
  have uv: "u = of_int (2 ^ (q - p)) * v" and v: "v \<noteq> 0"
  proof -
    have e: "binary_exp x - int p + 1 = int (q - p) + (binary_exp x - int q + 1)" using assms(2) by simp
    have "u = 2 powi int (q - p) * v" unfolding u_def v_def e by (rule power_int_add) simp
    then show "u = of_int (2 ^ (q - p)) * v" by simp
  qed (simp add: v_def)
  define m where "m = round_half_even (x / u)"
  have x: "x = of_int m * u" using assms(3) by (simp add: rnd_pos_def Let_def u_def m_def)
  then have "x / v = of_int (m * 2 ^ (q - p))" using v by (simp add: uv)
  then have r: "round_half_even (x / v) = m * 2 ^ (q - p)" by (simp only: round_half_even_of_int)
  have "rnd_pos q x = of_int (round_half_even (x / v)) * v" by (simp add: rnd_pos_def Let_def v_def)
  also have "\<dots> = of_int m * u" unfolding r uv by simp
  finally show ?thesis using x by simp
qed

lemma rnd_widen: "rnd p x = x \<Longrightarrow> p \<le> q \<Longrightarrow> rnd q x = x"
  using rnd_pos_widen[of x p q] rnd_pos_widen[of "- x" p q] by (auto simp: rnd_def split: if_splits)

definition is_f32 :: "flt \<Rightarrow> bool" where "is_f32 v \<longleftrightarrow> f_cast f32 v = v"

lemma f32_column: "is_f32 v \<Longrightarrow> f_cast f64 v = v"
  by (cases v) (auto simp: is_f32_def intro: rnd_widen)

definition f32_quality :: "quality_score \<Rightarrow> bool" where
  "f32_quality q \<longleftrightarrow> is_f32 (qs_coverage q) \<and> is_f32 (qs_citation q) \<and> is_f32 (qs_schema q) \<and> is_f32 (qs_density q)"

definition score_given :: "consistency_report option \<Rightarrow> flt option" where
  "score_given c = (case c of None \<Rightarrow> None | Some c \<Rightarrow> cr_score c)"

interpretation quality_set: keeps_key pq_page "quality_set new" for new
  by unfold_locales (simp add: quality_set_def)

lemma first_upserted:
  assumes "\<And>r. key r = key new \<Longrightarrow> upd r = new"
  shows "sql_first (\<lambda>r. key r = key new) (sql_upsert key new upd tbl) = Some new"
proof -
  have "sql_first (\<lambda>r. key r = key new) (sql_update (\<lambda>r. key r = key new) upd tbl) = Some new"
    if "\<exists>r\<in>set tbl. key r = key new"
    using that assms unfolding sql_first_def sql_update_def by (induction tbl) auto
  moreover have "sql_first (\<lambda>r. key r = key new) (tbl @ [new]) = Some new"
    if "\<not> (\<exists>r\<in>set tbl. key r = key new)"
    using that unfolding sql_first_def by (induction tbl) auto
  ultimately show ?thesis by (auto simp: sql_upsert_def sql_exists_iff)
qed

lemma quality_reads_back:
  assumes "f32_quality q" "\<And>s. c = Some s \<Longrightarrow> is_f32 s" "quality_row_ok (quality_row_of page q c)"
    and "db_quality d = sql_upsert pq_page (quality_row_of page q c) (quality_set (quality_row_of page q c)) rows"
  shows "stored_quality page d = q\<lparr>qs_consistency := (case c of None \<Rightarrow> None | Some s \<Rightarrow> sql_real s)\<rparr>"
proof -
  let ?new = "quality_row_of page q c"
  have p: "pq_page ?new = page" by (simp add: quality_row_of_def)
  have "sql_first (\<lambda>r. pq_page r = pq_page ?new) (db_quality d) = Some ?new"
    unfolding assms(4) by (rule first_upserted) (auto simp: quality_set_def)
  then show ?thesis
    using assms(1,2) f32_column
    by (simp add: stored_quality_def p) (auto simp: quality_row_of_def f32_quality_def sql_real_def is_f32_def split: option.splits)
qed


section \<open>Sections and edges\<close>

lemma sections_read_back:
  assumes "db_sections d = sql_delete (\<lambda>r. se_page r = page) rows @ section_rows page 0 ss"
  shows "page_sections page d = ss"
proof -
  have "filter (\<lambda>s. se_page s = page) (db_sections d) = section_rows page 0 ss"
    using section_rows_ok by (auto simp: assms sql_delete_def filter_empty_conv filter_id_conv)
  moreover have "sort_key se_index (section_rows page 0 ss) = section_rows page 0 ss"
    by (rule sort_key_id_if_sorted) (simp add: section_rows_index)
  ultimately show ?thesis by (simp add: page_sections_def section_rows_view)
qed

text \<open>The rows of a page, written one by one: the first occurrence of every edge.\<close>

definition add_once :: "'a \<Rightarrow> 'a list \<Rightarrow> 'a list" where
  "add_once x xs = (if x \<in> set xs then xs else xs @ [x])"

lemma add_once_fold: "set (fold add_once xs ys) = set ys \<union> set xs" "distinct ys \<Longrightarrow> distinct (fold add_once xs ys)"
  by (induction xs arbitrary: ys) (auto simp: add_once_def)

lemma write_edges_rows:
  fixes row :: "qug_edge \<Rightarrow> edge_row"
  defines "key \<equiv> \<lambda>r. (e_page r, e_hash r)"
  assumes inj: "inj_on (\<lambda>e. e_hash (row e)) E" and pg: "\<And>e. e_page (row e) = page"
    and "set es \<subseteq> E" "set ds \<subseteq> E" "filter (\<lambda>r. e_page r = page) rows = map row ds"
  shows "filter (\<lambda>r. e_page r = page)
      (fold (\<lambda>e rows. sql_upsert key (row e) (edge_set (row e)) rows) es rows) = map row (fold add_once es ds)"
  using assms(4-6)
proof (induction es arbitrary: rows ds)
  case (Cons e es)
  from Cons.prems(3) have mem: "{r \<in> set rows. e_page r = page} = row ` set ds" by (metis set_filter set_map)
  have same: "edge_set (row e) r = r" if "r \<in> set rows" "key r = key (row e)" for r
  proof -
    have "r \<in> row ` set ds" using that pg mem by (auto simp: key_def)
    then obtain e1 where e1: "e1 \<in> set ds" "r = row e1" by auto
    then have "e1 = e" using that(2) inj Cons.prems(1,2) by (auto simp: key_def dest: inj_onD)
    with e1 show ?thesis by (simp add: edge_set_def)
  qed
  have "filter (\<lambda>r. e_page r = page) (sql_upsert key (row e) (edge_set (row e)) rows) = map row (add_once e ds)"
  proof (cases "e \<in> set ds")
    case True
    then have "row e \<in> set rows" using mem by blast
    then have "sql_upsert key (row e) (edge_set (row e)) rows = sql_update (\<lambda>r. key r = key (row e)) (edge_set (row e)) rows"
      by (auto simp: sql_upsert_def sql_exists_iff)
    also have "\<dots> = rows" unfolding sql_update_def using same by (intro map_idI) simp
    finally show ?thesis using True Cons.prems(3) by (simp add: add_once_def)
  next
    case False
    have "key r \<noteq> key (row e)" if "r \<in> set rows" for r
    proof
      assume k: "key r = key (row e)"
      have "r \<in> row ` set ds" using that k pg mem by (auto simp: key_def)
      then obtain e1 where e1: "e1 \<in> set ds" "r = row e1" by auto
      then have "e1 = e" using k inj Cons.prems(1,2) by (auto simp: key_def dest: inj_onD)
      with e1 False show False by simp
    qed
    then have "sql_upsert key (row e) (edge_set (row e)) rows = rows @ [row e]"
      by (auto simp: sql_upsert_def sql_exists_iff)
    then show ?thesis using False pg Cons.prems(3) by (simp add: add_once_def)
  qed
  moreover have "set (add_once e ds) \<subseteq> E" using Cons.prems(1,2) by (auto simp: add_once_def)
  ultimately show ?case using Cons.IH[of "add_once e ds"] Cons.prems(1) by simp
qed simp

lemma sort_key_map: "sort_key f (map g xs) = map g (sort_key (\<lambda>x. f (g x)) xs)"
proof -
  have "insort_key f (g x) (map g ys) = map g (insort_key (\<lambda>x. f (g x)) x ys)" for x ys
    by (induction ys) auto
  then show ?thesis by (induction xs) auto
qed

lemma edges_read_back:
  assumes parse: "\<forall>e\<in>set (cp_edges page). x_parse_edge X (x_edge_text X e) = Some e" and "collision_free X"
    and d: "db_edges d = db_edges (write_edges X page g d0)"
  shows "page_edges X (wp_id (cp_wiki page)) d =
    Inr (sort_key (\<lambda>e. x_blake3 X (x_edge_text X e)) (remdups (cp_edges page)))"
proof -
  let ?id = "wp_id (cp_wiki page)"
  let ?row = "edge_row_of X ?id g (cp_hash page)"
  let ?h = "\<lambda>e. x_blake3 X (x_edge_text X e)"
  have inj: "inj_on ?h (set (cp_edges page))"
  proof (rule inj_onI)
    fix a b assume m: "a \<in> set (cp_edges page)" "b \<in> set (cp_edges page)" and h: "?h a = ?h b"
    have "x_edge_text X a = x_edge_text X b" using assms(2) h unfolding collision_free_def by (rule injD)
    then have "Some a = Some b" using m[THEN parse[rule_format], symmetric] by simp
    then show "a = b" by simp
  qed
  have row: "e_hash (?row e) = ?h e" "e_page (?row e) = ?id" "e_json (?row e) = x_edge_text X e" for e
    by (simp_all add: edge_row_of_def)
  let ?es = "fold add_once (cp_edges page) []"
  have "filter (\<lambda>r. e_page r = ?id) (db_edges d) = map ?row ?es"
    unfolding d write_edges_def Let_def
    using write_edges_rows[of ?row "set (cp_edges page)" ?id "cp_edges page" "[]"
        "sql_delete (\<lambda>r. e_page r = ?id) (db_edges d0)"] inj row
    by (simp add: sql_delete_def filter_empty_conv comp_def)
  then have "sort_key e_hash (filter (\<lambda>r. e_page r = ?id) (db_edges d)) = map ?row (sort_key ?h ?es)"
    using row by (simp add: sort_key_map)
  moreover have es: "distinct ?es" by (rule add_once_fold(2)) simp
  moreover have "sort_key ?h ?es = sort_key ?h (remdups (cp_edges page))"
  proof (rule sort_key_inj_key_eq)
    show "mset ?es = mset (sort_key ?h (remdups (cp_edges page)))"
      using add_once_fold(1)[of "cp_edges page" "[]"] es by (subst set_eq_iff_mset_eq_distinct[symmetric]) simp_all
    show "inj_on ?h (set ?es)" using inj add_once_fold(1)[of "cp_edges page" "[]"] by simp
  qed simp
  moreover have "map (\<lambda>e. ok_or Serialization (x_parse_edge X (e_json e))) (map ?row (sort_key ?h (remdups (cp_edges page))))
      = map Inr (sort_key ?h (remdups (cp_edges page)))"
    using parse row by (auto simp: ok_or_def)
  ultimately show ?thesis by (simp only: page_edges_def collect_results_eq_Inr)
qed

section \<open>Evidence\<close>

lemma evidence_reads_back:
  assumes ok: "queue_ok d" "queue_ok d'" and f: "find_task_id (tl_task l) d = Some t" and live: "live_task l now t"
    and tasks: "find_task_id (tl_task l) d' = Some (accept_task_set now t)"
    and atts: "db_attempts d' = sql_update (lease_attempt l) (accept_attempt_set artifact quality cj now) (db_attempts d)"
    and found: "a \<in> set (db_attempts d')" "lease_attempt l a" "a_artifact a = Some artifact"
      "a_status a = Completed" "a_publish a = Some AcceptedPage"
  shows "load_page_evidence X (t_entity t) (t_revision t) (t_pack t) d' = Option.bind (x_parse_page X artifact) cp_evidence"
proof -
  let ?t = "accept_task_set now t"
  have t': "?t \<in> set (db_tasks d')" using tasks ok(2) by (simp add: find_task_id_iff)
  have keys: "keyed task_key (db_tasks d')" "keyed attempt_key (db_attempts d')"
    using ok(2) by (simp_all add: queue_ok_def tasks_ok_def attempts_ok_def)
  have "task_key ?t = (t_entity t, t_revision t, t_pack t)" by (simp add: task_key_def accept_task_set_def)
  moreover have "(\<lambda>r. task_key r = (t_entity t, t_revision t, t_pack t))
      = (\<lambda>r. t_entity r = t_entity t \<and> t_revision r = t_revision t \<and> t_pack r = t_pack t)"
    by (simp add: task_key_def)
  ultimately have task: "sql_first (\<lambda>r. t_entity r = t_entity t \<and> t_revision r = t_revision t \<and> t_pack r = t_pack t) (db_tasks d')
      = Some ?t" using sql_first_keyed[OF keys(1) t'] by simp
  have id: "t_id ?t = t_id t" "t_epoch ?t = t_epoch t" "t_attempts ?t = t_attempts t" "t_id t = tl_task l"
    using f ok(1) by (simp_all add: accept_task_set_def find_task_id_iff)
  text \<open>The attempt of the lease is the newest one of its task.\<close>
  have t: "t \<in> set (db_tasks d)" using f ok(1) by (simp add: find_task_id_iff)
  obtain b where b: "b \<in> set (db_attempts d)" "reserved_attempt t b"
    using queue_ok_running[OF ok(1) t] live by (auto simp: live_task_def)
  obtain a0 where a0: "a0 \<in> set (db_attempts d)" "lease_attempt l a0" "attempt_key a0 = attempt_key a"
    using found(1,2) unfolding atts set_sql_update
    by (auto simp: attempt_key_def accept_attempt_set_def split: if_splits)
  have "a_token a0 = a_token b" using a0(2) b(2) live by (auto simp: lease_attempt_def reserved_attempt_def live_task_def)
  moreover have "keyed a_token (db_attempts d)" using ok(1) by (simp add: queue_ok_def attempts_ok_def)
  ultimately have "a0 = b" using a0(1) b(1) keyed_unique by metis
  then have newest: "a_task a = t_id t" "a_epoch a = t_epoch t" "a_no a = t_attempts t"
    using a0(3) b(2) by (auto simp: attempt_key_def reserved_attempt_def current_attempt_def)
  have le: "a_epoch r < a_epoch a \<or> a_epoch r = a_epoch a \<and> a_no r \<le> a_no a" if "r \<in> set (db_attempts d')" "a_task r = t_id t" for r
  proof -
    have "\<exists>u\<in>set (db_tasks d'). attempt_of u r" using ok(2) that(1) by (simp add: queue_ok_def attempts_ok_def)
    then obtain u where u: "u \<in> set (db_tasks d')" "attempt_of u r" by blast
    have "u = ?t" using queue_ok_unique[OF ok(2) u(1) t'] u(2) that(2) id(1) by (auto simp: attempt_of_def)
    with u(2) show ?thesis using newest id by (auto simp: attempt_of_def)
  qed
  let ?P = "\<lambda>r. a_task r = t_id t \<and> a_status r = Completed \<and> a_publish r = Some AcceptedPage \<and> a_artifact r \<noteq> None"
  obtain r where r: "sql_first_by (\<lambda>a. (- a_epoch a, - a_no a)) ?P (db_attempts d') = Some r"
    using found newest(1) by (cases "sql_first_by (\<lambda>a. (- a_epoch a, - a_no a)) ?P (db_attempts d')")
      (auto simp: sql_first_by_None)
  note first = sql_first_by_SomeD[OF r]
  have "(- a_epoch r, - a_no r) \<le> (- a_epoch a, - a_no a)" using first(3)[OF found(1)] found newest(1) by simp
  then have "a_epoch r = a_epoch a \<and> a_no r = a_no a" using le[OF first(1)] first(2) by (auto simp: less_eq_prod_def)
  then have "r = a" using keyed_unique[OF keys(2) first(1) found(1)] first(2) newest(1) by (simp add: attempt_key_def)
  then show ?thesis using task r found(3) id(1) by (simp add: load_page_evidence_def)
qed

section \<open>The page\<close>

text \<open>An object with the two lists of the frontmatter is written and read back with these lists.\<close>

definition keeps_lists :: "ext \<Rightarrow> string list \<Rightarrow> string list \<Rightarrow> bool" where
  "keeps_lists X a t \<longleftrightarrow> (\<forall>ms. map_of ms ''aliases'' = Some (strings_json a) \<longrightarrow> map_of ms ''tags'' = Some (strings_json t) \<longrightarrow>
     stored_frontmatter X (x_json_text X (JObj ms)) = (a, t))"

lemma frontmatter_lists:
  assumes "build_frontmatter_json X page deps = Inr fm" "keeps_lists X (wp_aliases (cp_wiki page)) (wp_tags (cp_wiki page))"
  shows "stored_frontmatter X fm = (wp_aliases (cp_wiki page), wp_tags (cp_wiki page))"
  using assms by (auto simp: build_frontmatter_json_def keeps_lists_def split: option.splits)

lemma stored_page_columns:
  "pg_pack (stored_page new rows) = pg_pack new" "pg_compiled (stored_page new rows) = pg_compiled new"
  "pg_model (stored_page new rows) = pg_model new" "pg_embedding (stored_page new rows) = pg_embedding new"
  "pg_frontmatter (stored_page new rows) = pg_frontmatter new"
  by (auto simp: stored_page_def page_set_def split: option.splits)

text \<open>The statements of a live publication, and what they leave in each table.\<close>

lemma publish_live_tables:
  assumes ok: "pages_ok d" and p: "publish_live X t l page report c now d = Inr (r, d')"
    and id: "wp_id (cp_wiki page) = to_key (wp_entity (cp_wiki page))"
  obtains deps fm g cj rows d0 where "build_frontmatter_json X page deps = Inr fm"
    "stored_page (page_row_of page deps fm (t_revision t) g now) (db_pages d) \<in> set (db_pages d')"
    "pages_ok d'" "db_edges d' = db_edges (write_edges X page g d0)"
    "db_sections d' = sql_delete (\<lambda>r. se_page r = wp_id (cp_wiki page)) (db_sections d)
       @ section_rows (wp_id (cp_wiki page)) 0 (wp_sections (cp_wiki page))"
    "quality_row_ok (quality_row_of (wp_id (cp_wiki page)) (sc_quality report) (score_given c))"
    "db_quality d' = sql_upsert pq_page (quality_row_of (wp_id (cp_wiki page)) (sc_quality report) (score_given c))
       (quality_set (quality_row_of (wp_id (cp_wiki page)) (sc_quality report) (score_given c))) rows"
    "db_attempts d' = sql_update (lease_attempt l)
       (accept_attempt_set (x_page_text X page) (x_report_text X report) cj now) (db_attempts d)"
proof -
  from p obtain artifact deps fm g d1 cj d2 where dp: "x_parse_deps X (t_deps t) = Some deps"
    and art: "serialized_artifact X page = Inr artifact" and fm: "build_frontmatter_json X page deps = Inr fm"
    and w: "write_page_tables X page report c deps fm (t_revision t) now d = Inr (g, d1)"
    and a: "update_one_attempt l (accept_attempt_set artifact (x_report_text X report) cj now)
              (publish_generation g d1) = Inr d2"
    and u: "update_leased_task l (accept_task_set now) d2 = Inr d'"
    by (auto simp: publish_live_def)
  have art': "artifact = x_page_text X page" using art by (simp add: serialized_artifact_def Let_def split: if_splits)
  have tables: "db_edges d' = db_edges d1" "db_quality d' = db_quality d1" "db_pages d' = db_pages d1"
    using a u by (auto simp: update_one_attempt_Ok update_leased_task_Ok publish_generation_def update_tasks_def)
  have atts: "db_attempts d' = sql_update (lease_attempt l) (accept_attempt_set artifact (x_report_text X report) cj now) (db_attempts d)"
    using a u write_page_tables_frame(1)[OF w]
    by (auto simp: update_one_attempt_Ok update_leased_task_Ok publish_generation_def same_queue_def)
  obtain d0 where edges: "d1 = write_edges X page g d0"
    using w by (auto simp: write_page_tables_def Let_def split: prod.splits)
  obtain rows where quality: "quality_row_ok (quality_row_of (wp_id (cp_wiki page)) (sc_quality report) (score_given c))"
    "db_quality d1 = sql_upsert pq_page (quality_row_of (wp_id (cp_wiki page)) (sc_quality report) (score_given c))
       (quality_set (quality_row_of (wp_id (cp_wiki page)) (sc_quality report) (score_given c))) rows"
    using w by (auto simp: write_page_tables_def Let_def write_quality_def write_edges_def score_given_def
        split: prod.splits if_splits)
  obtain deps2 fm2 where pages: "pages_ok d'"
    and secs: "db_sections d' = sql_delete (\<lambda>r. se_page r = wp_id (cp_wiki page)) (db_sections d)
       @ section_rows (wp_id (cp_wiki page)) 0 (wp_sections (cp_wiki page))"
    by (rule publish_live_pages[OF ok p id]) blast
  have kd: "keyed pg_id (db_pages d)" using ok by (simp add: pages_ok_def)
  have row: "stored_page (page_row_of page deps fm (t_revision t) g now) (db_pages d) \<in> set (db_pages d')"
    unfolding tables write_page_tables_pages(2)[OF ok w]
    using set_write_page[OF kd, of _ "page_row_of page deps fm (t_revision t) g now"] by simp
  show thesis
    by (rule that[OF fm row pages _ secs quality(1)])
      (use tables edges quality(2) atts art' in simp_all)
qed

text \<open>C34. Reading back a publication: when a leased task is published, the page the read side puts together from
  the tables is the published page: same identity, text, sections in order, aliases, tags, versions and
  hash, the audited evidence out of the attempt's artifact, its edges once each in hash order, and the
  quality of the report in \<^verbatim>\<open>f32\<close> although the columns are \<^verbatim>\<open>f64\<close>. The artifact, the edges and the two
  frontmatter lists survive their own JSON. \<close>

theorem published_page_reads_back:
  assumes "reachable X d" "find_task_id (tl_task l) d = Some t" "t_status t = Running"
    and "publish_compile X l page report c now d = (Inr (Accepted g), d')"
    and "wp_id (cp_wiki page) = to_key (wp_entity (cp_wiki page))" "valid_entity (wp_entity (cp_wiki page))"
    and "pm_pack_version (wp_meta (cp_wiki page)) = t_pack t"
    and "Option.bind (x_parse_page X (x_page_text X page)) cp_evidence = cp_evidence page"
    and "keeps_lists X (wp_aliases (cp_wiki page)) (wp_tags (cp_wiki page))"
    and "\<forall>e\<in>set (cp_edges page). x_parse_edge X (x_edge_text X e) = Some e" "collision_free X"
    and "f32_quality (sc_quality report)" "\<forall>s. score_given c = Some s \<longrightarrow> is_f32 s \<and> s \<noteq> NaN"
  shows "\<exists>row. accepted_page (t_entity t) d' = Some row
    \<and> load_page X d' row = Inr (page\<lparr>
         cp_wiki := (cp_wiki page)\<lparr>wp_meta := (wp_meta (cp_wiki page))\<lparr>pm_compiled_at := now\<rparr>\<rparr>,
         cp_quality := (sc_quality report)\<lparr>qs_consistency := score_given c\<rparr>,
         cp_edges := sort_key (\<lambda>e. x_blake3 X (x_edge_text X e)) (remdups (cp_edges page))\<rparr>)"
proof -
  have ok: "queue_ok d" "pages_ok d" using queue.always[OF assms(1)] pages.always[OF assms(1)] .
  from assms(4) have p: "publish_in_transaction X l page report c now d = Inr (Accepted g, d')"
    unfolding publish_compile_def by (elim immediate_transaction_cases) auto
  then have "\<not> is_replay l t d \<and> live_task l now t \<and> to_key (wp_entity (cp_wiki page)) = t_entity t
      \<and> publish_live X t l page report c now d = Inr (Accepted g, d')"
    by (cases rule: publish_cases) (use assms(2,3) in \<open>auto simp: is_replay_def\<close>)
  then have live: "live_task l now t" "to_key (wp_entity (cp_wiki page)) = t_entity t"
    "publish_live X t l page report c now d = Inr (Accepted g, d')" by simp_all
  have id: "wp_id (cp_wiki page) = t_entity t" using assms(5) live(2) by simp
  obtain deps fm g' cj rows d0 where fm: "build_frontmatter_json X page deps = Inr fm"
    and row: "stored_page (page_row_of page deps fm (t_revision t) g' now) (db_pages d) \<in> set (db_pages d')"
    and ok': "pages_ok d'" and edges: "db_edges d' = db_edges (write_edges X page g' d0)"
    and secs: "db_sections d' = sql_delete (\<lambda>r. se_page r = wp_id (cp_wiki page)) (db_sections d)
       @ section_rows (wp_id (cp_wiki page)) 0 (wp_sections (cp_wiki page))"
    and quality: "quality_row_ok (quality_row_of (wp_id (cp_wiki page)) (sc_quality report) (score_given c))"
      "db_quality d' = sql_upsert pq_page (quality_row_of (wp_id (cp_wiki page)) (sc_quality report) (score_given c))
       (quality_set (quality_row_of (wp_id (cp_wiki page)) (sc_quality report) (score_given c))) rows"
    and atts: "db_attempts d' = sql_update (lease_attempt l)
       (accept_attempt_set (x_page_text X page) (x_report_text X report) cj now) (db_attempts d)"
    by (rule publish_live_tables[OF ok(2) live(3) assms(5)])
  let ?row = "stored_page (page_row_of page deps fm (t_revision t) g' now) (db_pages d)"
  note q = publish_live_queue[OF ok(1) assms(2) live(3)]
  obtain a where a: "a \<in> set (db_attempts d')" "lease_attempt l a" "a_status a = Completed" "a_publish a = Some AcceptedPage"
    using q(2) by blast
  then obtain a0 where "a = (if lease_attempt l a0 then accept_attempt_set (x_page_text X page) (x_report_text X report) cj now a0 else a0)"
    unfolding atts set_sql_update by blast
  with a(2) have art: "a_artifact a = Some (x_page_text X page)" by (auto simp: accept_attempt_set_def split: if_splits)
  have evidence: "load_page_evidence X (t_entity t) (t_revision t) (t_pack t) d' = cp_evidence page"
    using evidence_reads_back[OF ok(1) q(3) assms(2) live(1) q(1) atts a(1,2) art a(3,4)] assms(8) by simp
  have "stored_quality (t_entity t) d' = (sc_quality report)\<lparr>qs_consistency := score_given c\<rparr>"
    using quality_reads_back[OF assms(12) _ quality] assms(13) unfolding id
    by (auto simp: sql_real_def split: option.splits)
  moreover have "from_key (t_entity t) = Inr (wp_entity (cp_wiki page))"
    using from_key_to_key[OF assms(6)] live(2) by simp
  moreover note edges_read_back[OF assms(10,11) edges, unfolded id] sections_read_back[OF secs[unfolded id]]
    frontmatter_lists[OF fm assms(9)] evidence
  ultimately have "load_page X d' ?row = Inr (page\<lparr>
         cp_wiki := (cp_wiki page)\<lparr>wp_meta := (wp_meta (cp_wiki page))\<lparr>pm_compiled_at := now\<rparr>\<rparr>,
         cp_quality := (sc_quality report)\<lparr>qs_consistency := score_given c\<rparr>,
         cp_edges := sort_key (\<lambda>e. x_blake3 X (x_edge_text X e)) (remdups (cp_edges page))\<rparr>)"
    using id live(2) assms(7)
    by (simp add: load_page_def assemble_compiled_page_def stored_page_columns) (simp add: page_row_of_def Let_def)
  moreover have "accepted_page (t_entity t) d' = Some ?row"
    using accepted_page_found(1)[OF ok' row] live(2) by simp
  ultimately show ?thesis by blast
qed

theorem published_page_reads_back_witness:
  "\<exists>row p. accepted_page ''milk:drink:boba'' demo_published = Some row \<and> load_page sample_ext demo_published row = Inr p
     \<and> cp_hash p = demo_hash \<and> cp_evidence p = Some demo_evidence \<and> wp_content (cp_wiki p) = ''boba''"
proof -
  have f: "find_task_id (tl_task demo_lease) demo_claimed = Some demo_leased" "t_status demo_leased = Running"
    using demo_holds(1) by (auto simp: find_task_id_def sql_first_def demo_claimed_fields holds_lease_def live_task_def)
  have pack: "t_pack demo_leased = ''0.1.0''"
    by (simp add: demo_leased_def leased_row_def running_set_def reserve_task_def demo_task_def new_task_def demo_job_def)
  have page: "cp_edges (demo_page demo_hash) = []" "wp_entity (cp_wiki (demo_page demo_hash)) = demo_entity"
    "pm_pack_version (wp_meta (cp_wiki (demo_page demo_hash))) = ''0.1.0''" "cp_evidence (demo_page h) = Some demo_evidence"
    "wp_aliases (cp_wiki (demo_page demo_hash)) = []" "wp_tags (cp_wiki (demo_page demo_hash)) = []"
    "cp_hash (demo_page demo_hash) = demo_hash" "wp_content (cp_wiki (demo_page demo_hash)) = ''boba''" for h
    by (simp_all add: demo_page_def demo_wiki_page_def)
  have "\<exists>row. accepted_page (t_entity demo_leased) demo_published = Some row
    \<and> load_page sample_ext demo_published row = Inr ((demo_page demo_hash)\<lparr>
         cp_wiki := (cp_wiki (demo_page demo_hash))\<lparr>wp_meta := (wp_meta (cp_wiki (demo_page demo_hash)))\<lparr>pm_compiled_at := 20\<rparr>\<rparr>,
         cp_quality := (sc_quality demo_report)\<lparr>qs_consistency := score_given None\<rparr>,
         cp_edges := sort_key (\<lambda>e. x_blake3 sample_ext (x_edge_text sample_ext e)) (remdups (cp_edges (demo_page demo_hash)))\<rparr>)"
    by (rule published_page_reads_back[OF demo_claimed_reachable f demo_publish demo_page_key])
      (use pack page collision_free_sample in \<open>auto simp: keeps_lists_def stored_frontmatter_def member_texts_def
        f32_quality_def is_f32_def demo_report_def perfect_quality_def score_given_def valid_entity_def demo_entity_def
        entity_component_ok_def trim_def is_space_def\<close>)
  then show ?thesis using page by (auto simp: demo_holds)
qed

end
