(* ===== verification/Compatibility.thy ===== *)
theory Compatibility
  imports Read_Side
begin

text \<open>
  The compatibility preflight (\<^verbatim>\<open>compile/compatibility.rs\<close>, \<^verbatim>\<open>DomainIdentity\<close> of \<^verbatim>\<open>compile/config.rs\<close>,
  \<^verbatim>\<open>run_compatibility_preflight\<close> of \<^verbatim>\<open>compile/executor.rs\<close>): before anything is admitted, the versions of the
  stored pages and of the open tasks of a domain must lie in the ranges of the policy's matrix. The crate
  semver and the derived decoder of a task's dependencies are the record \<open>versions\<close>; a version is its
  canonical text, a range its requirement text.
\<close>

record versions =
  vn_parse :: "string \<Rightarrow> string option"
  vn_matches :: "string \<Rightarrow> string \<Rightarrow> bool"
  vn_deps :: "string \<Rightarrow> (compile_context \<times> compile_policy) option"

section \<open>The identity of a domain\<close>

record identity =
  di_domain :: string
  di_version :: string
  di_schema :: "string option"
  di_prompt :: "string option"
  di_artifact :: string

definition parse_identity_version :: "versions \<Rightarrow> string option \<Rightarrow> string option result" where
  "parse_identity_version V raw =
     (case raw of None \<Rightarrow> Inr None
      | Some s \<Rightarrow> (case vn_parse V s of None \<Rightarrow> Inl InvalidConfig | Some v \<Rightarrow> Inr (Some v)))"

definition identity_parse ::
  "versions \<Rightarrow> string \<Rightarrow> string \<Rightarrow> string option \<Rightarrow> string option \<Rightarrow> string \<Rightarrow> identity result" where
  "identity_parse V domain version schema prompt artifact =
     (if trim_text domain = [] then Inl InvalidConfig
      else if trim_text artifact = [] then Inl InvalidConfig
      else (case vn_parse V version of
        None \<Rightarrow> Inl InvalidConfig
      | Some v \<Rightarrow>
          try_bind (parse_identity_version V schema) (\<lambda>s.
          try_bind (parse_identity_version V prompt) (\<lambda>p.
          Inr \<lparr>di_domain = domain, di_version = v, di_schema = s, di_prompt = p, di_artifact = artifact\<rparr>))))"

section \<open>Violations\<close>

record violation =
  vi_subject :: string
  vi_code :: string
  vi_field :: string
  vi_observed :: string
  vi_expected :: string

definition violates :: "string \<Rightarrow> string \<Rightarrow> string \<Rightarrow> string \<Rightarrow> string \<Rightarrow> violation" where
  "violates subject code field observed expected =
     \<lparr>vi_subject = subject, vi_code = code, vi_field = field, vi_observed = observed, vi_expected = expected\<rparr>"

definition allowlist_text :: "string list \<Rightarrow> string" where
  "allowlist_text allow = ''['' @ join_with '','' allow @ '']''"

definition check_semver_field :: "versions \<Rightarrow> string \<Rightarrow> string \<Rightarrow> string \<Rightarrow> string \<Rightarrow> violation option" where
  "check_semver_field V subject field observed req =
     (let t = trim_text observed
      in if t = [] then Some (violates subject ''VERSION_MISSING'' field ''absent'' req)
         else (case vn_parse V t of
           None \<Rightarrow> Some (violates subject ''VERSION_INVALID'' field t ''strict semver'')
         | Some v \<Rightarrow> if vn_matches V req v then None
                     else Some (violates subject ''VERSION_RANGE'' field t req)))"

definition check_artifact_field :: "string \<Rightarrow> string \<Rightarrow> string \<Rightarrow> string list \<Rightarrow> violation option" where
  "check_artifact_field subject field observed allow =
     (let t = trim_text observed
      in if t = [] then Some (violates subject ''VERSION_MISSING'' field ''absent'' (allowlist_text allow))
         else if t \<notin> set allow then Some (violates subject ''ARTIFACT_NOT_ALLOWED'' field t (allowlist_text allow))
         else None)"

definition opt_list :: "'a option \<Rightarrow> 'a list" where
  "opt_list v = (case v of None \<Rightarrow> [] | Some a \<Rightarrow> [a])"

definition frontmatter_violations :: "ext \<Rightarrow> string \<Rightarrow> string \<Rightarrow> string list \<Rightarrow> violation list" where
  "frontmatter_violations X subject text allow =
     (case x_parse_json X text of
        None \<Rightarrow> [violates subject ''CORRUPT_FRONTMATTER'' ''frontmatter_json'' ''unparseable'' ''JSON object'']
      | Some v \<Rightarrow>
          (case (case v of JObj ms \<Rightarrow> map_of ms ''quality_policy'' | _ \<Rightarrow> None) of
             Some (JObj policy) \<Rightarrow>
               opt_list (check_artifact_field subject ''quality_policy.artifact_version''
                 (case Option.bind (map_of policy ''artifact_version'') as_str of None \<Rightarrow> [] | Some s \<Rightarrow> s) allow)
           | Some _ \<Rightarrow> [violates subject ''CORRUPT_FRONTMATTER'' ''quality_policy'' ''not an object'' ''JSON object'']
           | None \<Rightarrow> [violates subject ''VERSION_MISSING'' ''quality_policy.artifact_version'' ''absent''
                         (allowlist_text allow)]))"

definition page_violations :: "ext \<Rightarrow> versions \<Rightarrow> compatibility_spec \<Rightarrow> page_row \<Rightarrow> violation list" where
  "page_violations X V spec p =
     (let subject = ''page:'' @ pg_id p
      in opt_list (check_semver_field V subject ''domain_pack_version'' (pg_pack p) (cmp_domain_pack spec))
       @ opt_list (check_artifact_field subject ''artifact_version'' (pg_artifact p) (cmp_artifact spec))
       @ frontmatter_violations X subject (pg_frontmatter p) (cmp_artifact spec))"

definition optional_version_violations :: "versions \<Rightarrow> string \<Rightarrow> string \<Rightarrow> string option \<Rightarrow> string \<Rightarrow> violation list" where
  "optional_version_violations V subject field observed req =
     (case observed of
        None \<Rightarrow> [violates subject ''VERSION_MISSING'' field ''absent'' req]
      | Some text \<Rightarrow> opt_list (check_semver_field V subject field text req))"

definition task_violations :: "versions \<Rightarrow> compatibility_spec \<Rightarrow> task_row \<Rightarrow> violation list" where
  "task_violations V spec t =
     (let subject = ''task:'' @ nat_text (nat (t_id t))
      in case vn_deps V (t_deps t) of
           None \<Rightarrow> [violates subject ''CORRUPT_SNAPSHOT'' ''dependencies_json'' ''unparseable''
                      ''JSON object {context, policy, schema}'']
         | Some (context, policy) \<Rightarrow>
             opt_list (check_semver_field V subject ''domain_pack_version'' (cx_pack_version context) (cmp_domain_pack spec))
           @ optional_version_violations V subject ''schema_version'' (cx_schema_version context) (cmp_schema spec)
           @ optional_version_violations V subject ''prompt_version'' (cx_prompt_version context) (cmp_prompt spec)
           @ opt_list (check_artifact_field subject ''artifact_version'' (cpl_artifact_version policy) (cmp_artifact spec)))"

section \<open>The check\<close>

definition entity_domain :: "string \<Rightarrow> string" where
  "entity_domain key = takeWhile (\<lambda>c. c \<noteq> CHR '':'') key"

text \<open>The queries behind the check: the accepted pages of a domain, the tasks that are not finished.\<close>

definition open_tasks :: "db \<Rightarrow> task_row list" where
  "open_tasks d = sort_key t_id (filter (\<lambda>t. t_status t \<in> {Pending, Running, Dead}) (db_tasks d))"

record compat_report =
  co_compatible :: bool
  co_pages :: nat
  co_tasks :: nat
  co_violations :: "violation list"

definition standard_check ::
  "ext \<Rightarrow> versions \<Rightarrow> string \<Rightarrow> compatibility_spec \<Rightarrow> db \<Rightarrow> compat_report" where
  "standard_check X V domain spec d =
     (let pages = accepted_rows domain d;
          tasks = filter (\<lambda>t. entity_domain (t_entity t) = domain) (open_tasks d);
          vs = concat (map (page_violations X V spec) pages) @ concat (map (task_violations V spec) tasks)
      in \<lparr>co_compatible = (vs = []), co_pages = length pages, co_tasks = length tasks, co_violations = vs\<rparr>)"

definition check_domain_compatibility ::
  "ext \<Rightarrow> versions \<Rightarrow> string \<Rightarrow> compatibility_spec option \<Rightarrow> db \<Rightarrow> compat_report" where
  "check_domain_compatibility X V domain spec d =
     (case spec of
        None \<Rightarrow> \<lparr>co_compatible = True, co_pages = 0, co_tasks = 0, co_violations = []\<rparr>
      | Some s \<Rightarrow> standard_check X V domain s d)"

definition has_existing_compile_data :: "db \<Rightarrow> bool" where
  "has_existing_compile_data d =
     (sql_exists (\<lambda>p. pg_status p = AcceptedPage) (db_pages d)
      \<or> sql_exists (\<lambda>t. t_status t \<in> {Pending, Running, Dead}) (db_tasks d))"

section \<open>The refusal\<close>

definition opt_json :: "string option \<Rightarrow> json" where
  "opt_json v = (case v of None \<Rightarrow> JNull | Some s \<Rightarrow> JStr s)"

definition identity_json :: "identity \<Rightarrow> json" where
  "identity_json i =
     JObj [(''artifact_version'', JStr (di_artifact i)), (''domain'', JStr (di_domain i)),
           (''domain_pack_version'', JStr (di_version i)), (''prompt_version'', opt_json (di_prompt i)),
           (''schema_version'', opt_json (di_schema i))]"

definition violation_json :: "violation \<Rightarrow> json" where
  "violation_json v =
     JObj [(''code'', JStr (vi_code v)), (''expected'', JStr (vi_expected v)), (''field'', JStr (vi_field v)),
           (''observed'', JStr (vi_observed v)), (''subject'', JStr (vi_subject v))]"

definition max_compatibility_json_bytes :: nat where "max_compatibility_json_bytes = 64 * 1024"

definition compatibility_conflict_payloads :: "ext \<Rightarrow> identity \<Rightarrow> violation list \<Rightarrow> (string \<times> string) result" where
  "compatibility_conflict_payloads X i vs =
     (let subject = x_json_text X (identity_json i);
          reason = x_json_text X (JObj [(''code'', JStr ''COMPATIBILITY_PREFLIGHT_FAILED''),
                                        (''violations'', JArr (map violation_json vs))])
      in if length subject > max_compatibility_json_bytes \<or> length reason > max_compatibility_json_bytes
         then Inl Validation else Inr (subject, reason))"

definition insert_compatibility_conflict_review ::
  "ext \<Rightarrow> string \<Rightarrow> string \<Rightarrow> string \<Rightarrow> int \<Rightarrow> db \<Rightarrow> nat result \<times> db" where
  "insert_compatibility_conflict_review X domain subject reason now d =
     (if \<not> (case x_parse_json X subject of Some (JObj ms) \<Rightarrow> True | _ \<Rightarrow> False) then (Inl Validation, d)
      else if x_parse_json X reason = None then (Inl Validation, d)
      else immediate_transaction (insert_review domain CompatibilityConflict subject reason None now) d)"

text \<open>Nothing is checked without a matrix; a dry run records nothing.\<close>

definition run_compatibility_preflight ::
  "ext \<Rightarrow> versions \<Rightarrow> compile_policy \<Rightarrow> string \<Rightarrow> compile_context \<Rightarrow> bool \<Rightarrow> int \<Rightarrow> db \<Rightarrow> unit result \<times> db" where
  "run_compatibility_preflight X V policy domain ctx dry now d =
     (if \<not> cpl_preflight policy \<or> cpl_compatibility policy = None then (Inr (), d)
      else (case identity_parse V domain (cx_pack_version ctx) (cx_schema_version ctx) (cx_prompt_version ctx)
                   (cpl_artifact_version policy) of
        Inl e \<Rightarrow> (Inl e, d)
      | Inr i \<Rightarrow>
          let report = check_domain_compatibility X V (di_domain i) (cpl_compatibility policy) d
          in if co_compatible report then (Inr (), d)
             else if dry then (Inl InvalidConfig, d)
             else (case compatibility_conflict_payloads X i (co_violations report) of
               Inl e \<Rightarrow> (Inl e, d)
             | Inr (subject, reason) \<Rightarrow>
                 (case insert_compatibility_conflict_review X (di_domain i) subject reason now d of
                    (Inl e, d') \<Rightarrow> (Inl e, d')
                  | (Inr n, d') \<Rightarrow> (Inl InvalidConfig, d')))))"

end
