(* ===== verification/Compat_Props.thy ===== *)
theory Compat_Props
  imports Compatibility Kernel_Demo
begin

text \<open>
  What the compatibility preflight decides and what a refusal leaves behind. The abstract side says of one
  page and of one task what it means to fit the matrix.
\<close>

definition version_ok :: "versions \<Rightarrow> string \<Rightarrow> string \<Rightarrow> bool" where
  "version_ok V observed req \<longleftrightarrow> trim_text observed \<noteq> [] \<and> (\<exists>v. vn_parse V (trim_text observed) = Some v \<and> vn_matches V req v)"

definition artifact_ok :: "string \<Rightarrow> string list \<Rightarrow> bool" where
  "artifact_ok observed allow \<longleftrightarrow> trim_text observed \<noteq> [] \<and> trim_text observed \<in> set allow"

definition page_compatible :: "ext \<Rightarrow> versions \<Rightarrow> compatibility_spec \<Rightarrow> page_row \<Rightarrow> bool" where
  "page_compatible X V spec p \<longleftrightarrow> version_ok V (pg_pack p) (cmp_domain_pack spec) \<and> artifact_ok (pg_artifact p) (cmp_artifact spec)
     \<and> (\<exists>ms policy a. x_parse_json X (pg_frontmatter p) = Some (JObj ms) \<and> map_of ms ''quality_policy'' = Some (JObj policy)
          \<and> map_of policy ''artifact_version'' = Some (JStr a) \<and> artifact_ok a (cmp_artifact spec))"

definition task_compatible :: "versions \<Rightarrow> compatibility_spec \<Rightarrow> task_row \<Rightarrow> bool" where
  "task_compatible V spec t \<longleftrightarrow> (\<exists>c p s q. vn_deps V (t_deps t) = Some (c, p)
     \<and> version_ok V (cx_pack_version c) (cmp_domain_pack spec)
     \<and> cx_schema_version c = Some s \<and> version_ok V s (cmp_schema spec)
     \<and> cx_prompt_version c = Some q \<and> version_ok V q (cmp_prompt spec)
     \<and> artifact_ok (cpl_artifact_version p) (cmp_artifact spec))"

definition domain_compatible :: "ext \<Rightarrow> versions \<Rightarrow> compatibility_spec \<Rightarrow> string \<Rightarrow> db \<Rightarrow> bool" where
  "domain_compatible X V spec domain d \<longleftrightarrow>
     (\<forall>p\<in>set (db_pages d). pg_domain p = domain \<and> pg_status p = AcceptedPage \<longrightarrow> page_compatible X V spec p)
     \<and> (\<forall>t\<in>set (db_tasks d). t_status t \<in> {Pending, Running, Dead} \<and> entity_domain (t_entity t) = domain \<longrightarrow> task_compatible V spec t)"

section \<open>The check\<close>

lemma opt_list_Nil [simp]: "opt_list v = [] \<longleftrightarrow> v = None"
  by (cases v) (simp_all add: opt_list_def)

lemma check_semver_None [simp]: "check_semver_field V subject field observed req = None \<longleftrightarrow> version_ok V observed req"
  by (auto simp: check_semver_field_def version_ok_def Let_def split: option.splits)

lemma check_artifact_None [simp]: "check_artifact_field subject field observed allow = None \<longleftrightarrow> artifact_ok observed allow"
  by (simp add: check_artifact_field_def artifact_ok_def Let_def)

lemma artifact_ok_Nil [simp]: "\<not> artifact_ok [] allow"
  by (simp add: artifact_ok_def trim_text_def)

lemma frontmatter_Nil:
  "frontmatter_violations X subject text allow = [] \<longleftrightarrow>
     (\<exists>ms policy a. x_parse_json X text = Some (JObj ms) \<and> map_of ms ''quality_policy'' = Some (JObj policy)
        \<and> map_of policy ''artifact_version'' = Some (JStr a) \<and> artifact_ok a allow)"
proof (cases "\<exists>ms policy. x_parse_json X text = Some (JObj ms) \<and> map_of ms ''quality_policy'' = Some (JObj policy)")
  case True
  then obtain ms policy where p: "x_parse_json X text = Some (JObj ms)" "map_of ms ''quality_policy'' = Some (JObj policy)"
    by blast
  show ?thesis
  proof (cases "map_of policy ''artifact_version''")
    case (Some j)
    then show ?thesis by (cases j) (simp_all add: frontmatter_violations_def p as_str_def)
  qed (simp add: frontmatter_violations_def p)
next
  case False
  have "frontmatter_violations X subject text allow \<noteq> []"
  proof (cases "x_parse_json X text")
    case (Some v)
    let ?q = "case v of JObj ms \<Rightarrow> map_of ms ''quality_policy'' | _ \<Rightarrow> None"
    have no: "?q \<noteq> Some (JObj policy)" for policy using False Some by (cases v) auto
    show ?thesis
    proof (cases ?q)
      case (Some j)
      then show ?thesis using \<open>x_parse_json X text = Some v\<close> no by (cases j) (simp_all add: frontmatter_violations_def)
    qed (simp add: frontmatter_violations_def Some)
  qed (simp add: frontmatter_violations_def)
  with False show ?thesis by blast
qed

lemma page_violations_Nil: "page_violations X V spec p = [] \<longleftrightarrow> page_compatible X V spec p"
  by (simp add: page_violations_def page_compatible_def Let_def frontmatter_Nil)

lemma task_violations_Nil: "task_violations V spec t = [] \<longleftrightarrow> task_compatible V spec t"
  by (auto simp: task_violations_def task_compatible_def optional_version_violations_def Let_def
      split: option.splits prod.splits)

lemma standard_check_exact: "co_compatible (standard_check X V domain spec d) \<longleftrightarrow> domain_compatible X V spec domain d"
  by (auto simp: standard_check_def domain_compatible_def Let_def page_violations_Nil task_violations_Nil
      accepted_rows_def open_tasks_def)

section \<open>The refusal\<close>

lemma standard_check_cong:
  "db_pages d' = db_pages d \<Longrightarrow> db_tasks d' = db_tasks d \<Longrightarrow> standard_check X V domain spec d' = standard_check X V domain spec d"
  by (simp add: standard_check_def accepted_rows_def open_tasks_def)

lemma insert_review_again:
  assumes "insert_review domain action subject reason None now d = Inr (n, d')"
  shows "insert_review domain action subject reason None now2 d' = Inr (0, d')"
  using insert_review_Ok(3)[OF assms]
  by (auto simp: insert_review_def Let_def sql_insert_ignore_def has_review_def review_key_def)

lemma insert_conflict_cases:
  assumes "insert_compatibility_conflict_review X domain subject reason now d = (r, d')"
  obtains (error) e where "r = Inl e" "e = Validation" "d' = d"
      "\<And>now2. insert_compatibility_conflict_review X domain subject reason now2 d = (Inl e, d)"
  | (recorded) n where "r = Inr n" "insert_review domain CompatibilityConflict subject reason None now d = Inr (n, d')"
      "\<And>now2. insert_compatibility_conflict_review X domain subject reason now2 d' = (Inr 0, d')"
proof (cases "(\<exists>ms. x_parse_json X subject = Some (JObj ms)) \<and> x_parse_json X reason \<noteq> None")
  case False
  then have "insert_compatibility_conflict_review X domain subject reason n d = (Inl Validation, d)" for n
    by (auto simp: insert_compatibility_conflict_review_def split: option.splits json.splits)
  then show thesis using assms error by simp
next
  case True
  then have ins: "insert_compatibility_conflict_review X domain subject reason n e =
      immediate_transaction (insert_review domain CompatibilityConflict subject reason None n) e" for n e
    by (auto simp: insert_compatibility_conflict_review_def)
  obtain n d1 where n: "insert_review domain CompatibilityConflict subject reason None now d = Inr (n, d1)"
    by (cases "sql_insert_ignore review_key \<lparr>rv_id = db_review_seq d + 1, rv_domain = domain,
      rv_action = CompatibilityConflict, rv_status = ReviewPending, rv_subject = subject, rv_reason = reason,
      rv_created = now, rv_task = None, rv_logs = ''[]'', rv_reviewed = None, rv_reviewer = None\<rparr> (db_reviews d)") (simp add: insert_review_def)
  then have "r = Inr n" "d' = d1" using assms by (simp_all add: ins immediate_transaction_def)
  then show thesis
    using recorded n insert_review_again[OF n] by (simp add: ins immediate_transaction_def)
qed

text \<open>What a refusal may leave: the store as it was, or with one new pending review of a conflict in the domain.\<close>

definition one_conflict_review :: "string \<Rightarrow> db \<Rightarrow> db \<Rightarrow> bool" where
  "one_conflict_review domain d d' \<longleftrightarrow> d' = d \<or>
     (\<exists>row. d' = d\<lparr>db_reviews := db_reviews d @ [row], db_review_seq := db_review_seq d + 1\<rparr>
        \<and> rv_id row = db_review_seq d + 1 \<and> rv_domain row = domain \<and> rv_action row = CompatibilityConflict
        \<and> rv_status row = ReviewPending)"

lemma one_conflict_refl [simp]: "one_conflict_review domain d d"
  by (simp add: one_conflict_review_def)

lemma insert_review_one:
  assumes "insert_review domain CompatibilityConflict subject reason None now d = Inr (n, d')"
  shows "one_conflict_review domain d d'"
  using assms by (auto simp: insert_review_def Let_def sql_insert_ignore_def one_conflict_review_def split: if_splits)

text \<open>The tail of a refusal: the review of the conflict, then the error.\<close>

definition record_conflict :: "ext \<Rightarrow> identity \<Rightarrow> violation list \<Rightarrow> int \<Rightarrow> db \<Rightarrow> unit result \<times> db" where
  "record_conflict X i vs now d =
     (case compatibility_conflict_payloads X i vs of
        Inl e \<Rightarrow> (Inl e, d)
      | Inr (subject, reason) \<Rightarrow>
          (case insert_compatibility_conflict_review X (di_domain i) subject reason now d of
             (Inl e, d') \<Rightarrow> (Inl e, d')
           | (Inr n, d') \<Rightarrow> (Inl InvalidConfig, d')))"

lemma record_conflict_cases:
  assumes "record_conflict X i vs now d = (r, d')"
  obtains (error) "r = Inl Validation" "d' = d" "\<And>n. record_conflict X i vs n d = (Inl Validation, d)"
  | (recorded) subject where "r = Inl InvalidConfig" "has_review (di_domain i) CompatibilityConflict subject d'"
      "one_conflict_review (di_domain i) d d'"
      "\<And>n. record_conflict X i vs n d' = (Inl InvalidConfig, d')"
proof (cases "compatibility_conflict_payloads X i vs")
  case (Inl e)
  then have "e = Validation" by (auto simp: compatibility_conflict_payloads_def Let_def split: if_splits)
  then show thesis using assms error Inl by (simp add: record_conflict_def)
next
  case (Inr res)
  obtain subject reason where p: "compatibility_conflict_payloads X i vs = Inr (subject, reason)" using Inr by (cases res) auto
  obtain q d1 where q: "insert_compatibility_conflict_review X (di_domain i) subject reason now d = (q, d1)" by fastforce
  from q show thesis
  proof (cases rule: insert_conflict_cases)
    case (error e)
    then show thesis using assms that(1) p by (simp add: record_conflict_def)
  next
    case (recorded n)
    moreover have "d' = d1" "r = Inl InvalidConfig" using assms p q recorded by (simp_all add: record_conflict_def)
    ultimately show thesis using insert_review_Ok(3)[OF recorded(2)] insert_review_one[OF recorded(2)] that(2) p
      by (simp add: record_conflict_def)
  qed
qed

lemma conflict_review_rows: "one_conflict_review domain d d' \<Longrightarrow> db_pages d' = db_pages d \<and> db_tasks d' = db_tasks d"
  by (auto simp: one_conflict_review_def)

lemma preflight_parsed:
  assumes "cpl_preflight policy" "cpl_compatibility policy = Some spec"
    and "identity_parse V domain (cx_pack_version ctx) (cx_schema_version ctx) (cx_prompt_version ctx)
           (cpl_artifact_version policy) = Inr i"
    and "run_compatibility_preflight X V policy domain ctx dry now d = (r, d')"
  shows "r = Inr () \<longleftrightarrow> domain_compatible X V spec domain d" "(r = Inr () \<or> dry \<longrightarrow> d' = d) \<and> one_conflict_review domain d d'"
    "r = Inl InvalidConfig \<and> \<not> dry \<Longrightarrow> \<exists>subject. has_review domain CompatibilityConflict subject d'"
    "run_compatibility_preflight X V policy domain ctx dry now2 d' = (r, d')"
proof -
  have i: "di_domain i = domain" using assms(3) by (auto simp: identity_parse_def split: if_splits option.splits)
  let ?report = "\<lambda>e. standard_check X V domain spec e"
  have run: "run_compatibility_preflight X V policy domain ctx dry n e =
     (if domain_compatible X V spec domain e then (Inr (), e) else if dry then (Inl InvalidConfig, e)
      else record_conflict X i (co_violations (?report e)) n e)" for n e
    using assms(1-3) i
    by (simp add: run_compatibility_preflight_def check_domain_compatibility_def Let_def record_conflict_def
        standard_check_exact)
  have "(r = Inr () \<longleftrightarrow> domain_compatible X V spec domain d) \<and> (r = Inr () \<or> dry \<longrightarrow> d' = d) \<and> one_conflict_review domain d d'
    \<and> (r = Inl InvalidConfig \<and> \<not> dry \<longrightarrow> (\<exists>subject. has_review domain CompatibilityConflict subject d'))
    \<and> run_compatibility_preflight X V policy domain ctx dry now2 d' = (r, d')"
  proof (cases "domain_compatible X V spec domain d \<or> dry")
    case True
    then have "run_compatibility_preflight X V policy domain ctx dry n d =
        (if domain_compatible X V spec domain d then Inr () else Inl InvalidConfig, d)" for n
      using True by (auto simp: run)
    then show ?thesis using assms(4) True by auto
  next
    case False
    then have r: "record_conflict X i (co_violations (?report d)) now d = (r, d')" using assms(4) run[of now d] by simp
    then show ?thesis
    proof (cases rule: record_conflict_cases)
      case error
      then show ?thesis using False error run[of now2 d] by simp
    next
      case (recorded subject)
      note rows = conflict_review_rows[OF recorded(3)]
      have again: "?report d' = ?report d" by (rule standard_check_cong) (use rows in simp_all)
      have "\<not> domain_compatible X V spec domain d'" using False rows by (simp add: domain_compatible_def)
      then have "run_compatibility_preflight X V policy domain ctx dry now2 d' = (r, d')"
        using False recorded(1,4) run[of now2 d'] again by simp
      moreover have "one_conflict_review domain d d'" "has_review domain CompatibilityConflict subject d'"
        using recorded(2,3) i by simp_all
      ultimately show ?thesis using False recorded(1) by blast
    qed
  qed
  then show "r = Inr () \<longleftrightarrow> domain_compatible X V spec domain d" "(r = Inr () \<or> dry \<longrightarrow> d' = d) \<and> one_conflict_review domain d d'"
    "r = Inl InvalidConfig \<and> \<not> dry \<Longrightarrow> \<exists>subject. has_review domain CompatibilityConflict subject d'"
    "run_compatibility_preflight X V policy domain ctx dry now2 d' = (r, d')" by blast+
qed

lemma preflight_leaves:
  assumes "run_compatibility_preflight X V policy domain ctx dry now d = (r, d')"
  shows "d' = d \<or> r = Inl InvalidConfig \<and> one_conflict_review domain d d'"
proof (cases "d' = d")
  case False
  then obtain i vs where i: "identity_parse V domain (cx_pack_version ctx) (cx_schema_version ctx) (cx_prompt_version ctx)
      (cpl_artifact_version policy) = Inr i" and r: "record_conflict X i vs now d = (r, d')"
    using assms unfolding run_compatibility_preflight_def record_conflict_def
    by (auto simp: Let_def split: if_splits sum.splits prod.splits)
  have "di_domain i = domain" using i by (auto simp: identity_parse_def split: if_splits option.splits)
  with r show ?thesis by (cases rule: record_conflict_cases) simp_all
qed simp

text \<open>C35. Without a matrix, or switched off, the preflight passes and writes nothing. With one, it lets a domain through
  exactly when its domain, versions and artifact parse as an identity and every accepted page and every unfinished
  task of the domain fits the matrix, and then it writes nothing. Any other call is an error; a dry run never
  writes, and else at most one row, a pending review of the conflict in the domain, is added to the reviews and
  nothing else is touched. A refusal of a parsed identity as a conflict leaves such a review. Asking again gives the
  same answer without a second review. \<close>

theorem preflight_exact:
  assumes "run_compatibility_preflight X V policy domain ctx dry now d = (r, d')"
  shows "(\<not> cpl_preflight policy \<or> cpl_compatibility policy = None \<longrightarrow> r = Inr ())
    \<and> (\<forall>spec. cpl_preflight policy \<and> cpl_compatibility policy = Some spec \<longrightarrow>
         (r = Inr () \<longleftrightarrow> (\<exists>i. identity_parse V domain (cx_pack_version ctx) (cx_schema_version ctx) (cx_prompt_version ctx)
            (cpl_artifact_version policy) = Inr i) \<and> domain_compatible X V spec domain d)
         \<and> ((\<exists>i. identity_parse V domain (cx_pack_version ctx) (cx_schema_version ctx) (cx_prompt_version ctx)
            (cpl_artifact_version policy) = Inr i) \<and> r = Inl InvalidConfig \<and> \<not> dry \<longrightarrow>
             (\<exists>subject. has_review domain CompatibilityConflict subject d')))
    \<and> (r = Inr () \<or> dry \<longrightarrow> d' = d) \<and> one_conflict_review domain d d'
    \<and> run_compatibility_preflight X V policy domain ctx dry now2 d' = (r, d')"
proof (cases "cpl_preflight policy \<and> (\<exists>spec. cpl_compatibility policy = Some spec)")
  case False
  then have "run_compatibility_preflight X V policy domain ctx dry n e = (Inr (), e)" for n e
    by (auto simp: run_compatibility_preflight_def)
  then show ?thesis using assms False by auto
next
  case True
  then obtain spec where on: "cpl_preflight policy" "cpl_compatibility policy = Some spec" by blast
  let ?parse = "identity_parse V domain (cx_pack_version ctx) (cx_schema_version ctx) (cx_prompt_version ctx)
      (cpl_artifact_version policy)"
  show ?thesis
  proof (cases ?parse)
    case (Inl e)
    then have "run_compatibility_preflight X V policy domain ctx dry n d = (Inl e, d)" for n
      using on by (simp add: run_compatibility_preflight_def)
    then show ?thesis using assms Inl on by auto
  next
    case (Inr i)
    note pre = preflight_parsed[OF on Inr assms]
    show ?thesis using pre(1-3) pre(4)[of now2] Inr on by auto
  qed
qed

definition demo_versions :: versions where
  "demo_versions = \<lparr>vn_parse = Some, vn_matches = (=), vn_deps = (\<lambda>_. None)\<rparr>"

definition demo_matrix :: compatibility_spec where
  "demo_matrix = \<lparr>cmp_domain_pack = ''0.1.0'', cmp_schema = ''1.0.0'', cmp_prompt = ''1.0.0'', cmp_artifact = [''a'']\<rparr>"

definition demo_preflight :: "int \<Rightarrow> db \<Rightarrow> unit result \<times> db" where
  "demo_preflight now d = run_compatibility_preflight sample_ext demo_versions
     (demo_policy\<lparr>cpl_preflight := True, cpl_compatibility := Some demo_matrix, cpl_artifact_version := ''a''\<rparr>)
     ''milk'' (demo_context\<lparr>cx_schema_version := None, cx_prompt_version := None\<rparr>) False now d"

lemma preflight_exact_witness:
  "\<exists>r d'. demo_preflight 30 demo_admitted = (r, d') \<and> r \<noteq> Inr () \<and> db_tasks d' = db_tasks demo_admitted
     \<and> demo_preflight 40 d' = (r, d')"
proof -
  let ?p = "demo_policy\<lparr>cpl_preflight := True, cpl_compatibility := Some demo_matrix, cpl_artifact_version := ''a''\<rparr>"
  let ?c = "demo_context\<lparr>cx_schema_version := None, cx_prompt_version := None\<rparr>"
  obtain r d' where run: "demo_preflight 30 demo_admitted = (r, d')" by fastforce
  have no: "\<not> domain_compatible sample_ext demo_versions demo_matrix ''milk'' demo_admitted"
    by (simp add: domain_compatible_def demo_admitted_fields demo_task_fields entity_domain_def task_compatible_def
        demo_versions_def)
  have on: "cpl_preflight ?p" "cpl_compatibility ?p = Some demo_matrix" by simp_all
  note pre = preflight_exact[OF run[unfolded demo_preflight_def], of 40]
  have same: "r \<noteq> Inr ()" "one_conflict_review ''milk'' demo_admitted d'" "demo_preflight 40 d' = (r, d')"
    using pre no on by (auto simp: demo_preflight_def)
  have "db_tasks d' = db_tasks demo_admitted" using conflict_review_rows[OF same(2)] by simp
  then show ?thesis using run same by blast
qed

end
