(* ===== verification/Run.thy ===== *)
theory Run
  imports Executor Compatibility
begin

text \<open>
  One run of \<^verbatim>\<open>PipelineExecutor\<close> (\<^verbatim>\<open>compile/executor.rs\<close>): the source is fetched in batches, every entity is
  scanned and admitted, and the queued tasks are claimed and processed until none is left, the budgets
  are used up, or the backoff has been waited for long enough. What the run does not decide itself is an
  argument: the data source, the clock, the lease tokens, the compiler's answers and what other
  processes do to the store meanwhile (heartbeats, the lease reaper, other workers).
\<close>

section \<open>Collaborators and state\<close>

record site =
  si_ext :: ext
  si_codec :: codec
  si_lower :: "nat \<Rightarrow> nat list"
  si_versions :: versions
  si_exec :: executor
  si_schema :: entity_schema
  si_context :: compile_context

text \<open>
  One transaction of a run (the recovery, the preflight, an admission), or one turn of the scheduling loop: the
  clock at its start, when a claim has found nothing and when the compiler has answered; a new uuid and the answer;
  what the other processes do to the store before it, and, in a turn, while the compiler works or the run waits.
\<close>

record tick =
  tk_now :: int
  tk_after :: int
  tk_done :: int
  tk_token :: "db \<Rightarrow> string"
  tk_answer :: "task_lease \<Rightarrow> compiled_page result"
  tk_before :: "db \<Rightarrow> db"
  tk_others :: "db \<Rightarrow> db"

record run_state =
  rn_db :: db
  rn_stats :: compile_stats
  rn_seen :: "string list"
  rn_checked :: bool
  rn_queue :: "int list"
  rn_retry :: "int \<Rightarrow> int option"
  rn_wait :: nat
  rn_tick :: nat
  rn_hashes :: "string \<Rightarrow> string option"

datatype flow = Next run_state | Halt run_state | Fail kerror run_state

definition max_backoff_wait_seconds :: nat where "max_backoff_wait_seconds = 60"
definition wake_margin_ms :: nat where "wake_margin_ms = 50"
definition max_knowledge_input_bytes :: nat where "max_knowledge_input_bytes = 64 * 1024"

definition start_run :: "compile_stats \<Rightarrow> db \<Rightarrow> run_state" where
  "start_run st d =
     \<lparr>rn_db = d, rn_stats = st, rn_seen = [], rn_checked = False, rn_queue = [], rn_retry = (\<lambda>_. None),
      rn_wait = max_backoff_wait_seconds * 1000, rn_tick = 0, rn_hashes = (\<lambda>_. None)\<rparr>"

text \<open>Between two transactions of the run the store is everybody's: the next one starts on what the others left.\<close>

definition others_first :: "(nat \<Rightarrow> tick) \<Rightarrow> run_state \<Rightarrow> run_state" where
  "others_first env rn = rn\<lparr>rn_db := tk_before (env (rn_tick rn)) (rn_db rn), rn_tick := rn_tick rn + 1\<rparr>"

text \<open>The counters of \<^verbatim>\<open>CompileStats\<close>.\<close>

definition count_scanned :: "run_state \<Rightarrow> run_state" where
  "count_scanned rn = rn\<lparr>rn_stats := (rn_stats rn)\<lparr>st_scanned := st_scanned (rn_stats rn) + 1\<rparr>\<rparr>"
definition count_skipped :: "run_state \<Rightarrow> run_state" where
  "count_skipped rn = rn\<lparr>rn_stats := (rn_stats rn)\<lparr>st_skipped := st_skipped (rn_stats rn) + 1\<rparr>\<rparr>"
definition count_failed :: "run_state \<Rightarrow> run_state" where
  "count_failed rn = rn\<lparr>rn_stats := (rn_stats rn)\<lparr>st_failed := st_failed (rn_stats rn) + 1\<rparr>\<rparr>"
definition count_quarantined :: "run_state \<Rightarrow> run_state" where
  "count_quarantined rn = rn\<lparr>rn_stats := (rn_stats rn)\<lparr>st_quarantined := st_quarantined (rn_stats rn) + 1\<rparr>\<rparr>"
definition count_deferred :: "nat \<Rightarrow> run_state \<Rightarrow> run_state" where
  "count_deferred n rn = rn\<lparr>rn_stats := (rn_stats rn)\<lparr>st_deferred := st_deferred (rn_stats rn) + n\<rparr>\<rparr>"
definition count_would_compile :: "run_state \<Rightarrow> run_state" where
  "count_would_compile rn = rn\<lparr>rn_stats := (rn_stats rn)\<lparr>st_would_compile := st_would_compile (rn_stats rn) + 1\<rparr>\<rparr>"

section \<open>Scanning and admission\<close>

definition enforce_fetch_protocol :: "raw_entity list \<Rightarrow> nat \<Rightarrow> unit result" where
  "enforce_fetch_protocol batch requested = (if length batch > requested then Inl Validation else Inr ())"

definition non_empty_string :: "json \<Rightarrow> bool" where
  "non_empty_string v = (case v of JStr s \<Rightarrow> s \<noteq> [] | _ \<Rightarrow> False)"

definition has_coverable_units :: "raw_entity \<Rightarrow> bool" where
  "has_coverable_units src = list_ex (\<lambda>(_, v).
     case v of JStr s \<Rightarrow> s \<noteq> [] | JArr items \<Rightarrow> list_ex non_empty_string items | _ \<Rightarrow> False) (raw_fields src)"

text \<open>A record of the source: counted, passed over when its key was seen, projected, and handed on.\<close>

definition scan_one ::
  "site \<Rightarrow> (prepared_source \<Rightarrow> run_state \<Rightarrow> unit result \<times> run_state) \<Rightarrow> raw_entity \<Rightarrow> run_state \<Rightarrow> unit result \<times> run_state" where
  "scan_one S go raw rn0 =
     (let rn = count_scanned rn0; key = to_key (raw_id raw)
      in if key \<in> set (rn_seen rn) then (Inr (), count_skipped rn)
         else (let rn1 = rn\<lparr>rn_seen := key # rn_seen rn\<rparr>
               in case prepare_source (si_ext S) raw (si_schema S) (ex_policy (si_exec S)) of
                    Inl e \<Rightarrow> (Inr (), count_failed rn1)
                  | Inr ps \<Rightarrow> go ps rn1))"

fun scan_all ::
  "(raw_entity \<Rightarrow> run_state \<Rightarrow> unit result \<times> run_state) \<Rightarrow> raw_entity list \<Rightarrow> run_state \<Rightarrow> unit result \<times> run_state" where
  "scan_all one [] rn = (Inr (), rn)"
| "scan_all one (raw # raws) rn =
     (case one raw rn of (Inl e, rn') \<Rightarrow> (Inl e, rn') | (Inr _, rn') \<Rightarrow> scan_all one raws rn')"

text \<open>The preflight quarantine: nothing to compile, or too much of it.\<close>

definition quarantine_or ::
  "site \<Rightarrow> (prepared_source \<Rightarrow> run_state \<Rightarrow> unit result \<times> run_state) \<Rightarrow> prepared_source \<Rightarrow> run_state \<Rightarrow> unit result \<times> run_state" where
  "quarantine_or S go ps rn =
     (if \<not> has_coverable_units (ps_knowledge ps) then (Inr (), count_quarantined rn)
      else if length (x_source_text (si_ext S) (ps_knowledge ps)) > max_knowledge_input_bytes
      then (Inr (), count_quarantined rn)
      else go ps rn)"

definition admit_ready ::
  "site \<Rightarrow> (nat \<Rightarrow> tick) \<Rightarrow> bool \<Rightarrow> prepared_source \<Rightarrow> run_state \<Rightarrow> unit result \<times> run_state" where
  "admit_ready S env force ps rn0 =
     (let rn = others_first env rn0
      in case admit_compile (si_ext S) ps (si_context S) (ex_policy (si_exec S)) (si_schema S) force
                (tk_now (env (rn_tick rn0))) (rn_db rn) of
           (Inl e, d) \<Rightarrow> (Inl e, rn\<lparr>rn_db := d\<rparr>)
         | (Inr (Queued i), d) \<Rightarrow> (Inr (), rn\<lparr>rn_db := d, rn_queue := rn_queue rn @ [i]\<rparr>)
         | (Inr Skipped, d) \<Rightarrow> (Inr (), count_skipped (rn\<lparr>rn_db := d\<rparr>))
         | (Inr Deferred, d) \<Rightarrow> (Inr (), count_deferred 1 (rn\<lparr>rn_db := d\<rparr>))
         | (Inr (Rejected _), d) \<Rightarrow> (Inr (), count_failed (rn\<lparr>rn_db := d\<rparr>)))"

text \<open>The compatibility preflight of the first batch, on the domain of its first entity.\<close>

definition check_first ::
  "site \<Rightarrow> (nat \<Rightarrow> tick) \<Rightarrow> bool \<Rightarrow> raw_entity list \<Rightarrow> run_state \<Rightarrow> unit result \<times> run_state" where
  "check_first S env dry batch rn =
     (if rn_checked rn then (Inr (), rn)
      else (case run_compatibility_preflight (si_ext S) (si_versions S) (ex_policy (si_exec S))
                   (eid_domain (raw_id (hd batch))) (si_context S) dry (tk_now (env (rn_tick rn))) (rn_db rn) of
              (r, d) \<Rightarrow> (r, rn\<lparr>rn_checked := True, rn_db := d\<rparr>)))"

section \<open>Scheduling\<close>

text \<open>The earliest retry the run knows of among the queued tasks.\<close>

definition earliest_retry :: "run_state \<Rightarrow> int \<Rightarrow> int" where
  "earliest_retry rn now =
     (case List.map_filter (rn_retry rn) (rn_queue rn) of [] \<Rightarrow> now | due # rest \<Rightarrow> fold min rest due)"

definition process_claimed ::
  "site \<Rightarrow> tick \<Rightarrow> task_lease \<Rightarrow> run_state \<Rightarrow> flow" where
  "process_claimed S t l rn =
     (case estimate_budget_units (cx_prompt (tl_context l)) (x_source_text (si_ext S) (tl_source l))
             (cpl_max_output (ex_policy (si_exec S))) of
        Inl e \<Rightarrow> Fail e rn
      | Inr units \<Rightarrow>
          (case process_lease (si_ext S) (si_codec S) (si_lower S) (si_exec S) (si_schema S) l (tk_answer t l)
                  (tk_done t) (tk_others t (rn_db rn))
                  ((rn_stats rn)\<lparr>st_reserved := st_reserved (rn_stats rn) + nat units\<rparr>) of
             (Inl e, d, st) \<Rightarrow> Fail e (rn\<lparr>rn_db := d, rn_stats := st\<rparr>)
           | (Inr Finalized, d, st) \<Rightarrow>
               Next (rn\<lparr>rn_db := d, rn_stats := st, rn_retry := (rn_retry rn)(tl_task l := None)\<rparr>)
           | (Inr (RetryLater due), d, st) \<Rightarrow>
               Next (rn\<lparr>rn_db := d, rn_stats := st, rn_retry := (rn_retry rn)(tl_task l := Some due),
                       rn_queue := rn_queue rn @ [tl_task l]\<rparr>)))"

text \<open>Nothing claimed: wait for the earliest retry within the run's waiting time, or give the rest up.\<close>

definition wait_or_defer :: "tick \<Rightarrow> run_state \<Rightarrow> flow" where
  "wait_or_defer t rn =
     (let due = earliest_retry rn (tk_after t)
      in if due > tk_after t \<and> rn_wait rn > 0
         then Next (rn\<lparr>rn_wait := rn_wait rn - min (nat (due - tk_after t) * 1000 + wake_margin_ms) (rn_wait rn),
                       rn_db := tk_others t (rn_db rn)\<rparr>)
         else (let rn1 = count_deferred (length (rn_queue rn)) rn
               in Halt (rn1\<lparr>rn_stats := (rn_stats rn1)\<lparr>st_circuit_open := True\<rparr>\<rparr>)))"

definition claim_round :: "site \<Rightarrow> (nat \<Rightarrow> tick) \<Rightarrow> string \<Rightarrow> run_state \<Rightarrow> flow" where
  "claim_round S env run rn0 =
     (let t = env (rn_tick rn0); rn = others_first env rn0
      in case claim_compile (si_ext S) (rn_queue rn) run (tk_token t (rn_db rn)) (tk_now t) (rn_db rn) of
           (Inl e, d) \<Rightarrow> Fail e (rn\<lparr>rn_db := d\<rparr>)
         | (Inr (Some l), d) \<Rightarrow>
             process_claimed S t l (rn\<lparr>rn_db := d, rn_queue := filter (\<lambda>i. i \<noteq> tl_task l) (rn_queue rn)\<rparr>)
         | (Inr None, d) \<Rightarrow> wait_or_defer t (rn\<lparr>rn_db := d\<rparr>))"

text \<open>The loop need not end when other processes keep resetting its tasks: not returning is \<open>None\<close>.\<close>

partial_function (option) drain :: "site \<Rightarrow> (nat \<Rightarrow> tick) \<Rightarrow> string \<Rightarrow> run_state \<Rightarrow> flow option" where
  "drain S env run rn =
     (if rn_queue rn = [] then Some (Next rn)
      else (case claim_round S env run rn of
              Next rn' \<Rightarrow> drain S env run rn'
            | Halt rn' \<Rightarrow> Some (Halt rn')
            | Fail e rn' \<Rightarrow> Some (Fail e rn')))"

section \<open>Batches\<close>

text \<open>
  The fetch loop all three entry points share: at most a batch and never more than is left of the
  limit; an empty batch ends it.
\<close>

function fetch_loop ::
  "(nat \<Rightarrow> nat \<Rightarrow> raw_entity list result) \<Rightarrow> nat \<Rightarrow> (raw_entity list \<Rightarrow> run_state \<Rightarrow> flow option)
     \<Rightarrow> nat \<Rightarrow> nat \<Rightarrow> run_state \<Rightarrow> flow option" where
  "fetch_loop fetch batch_size handle offset remaining rn =
     (case fetch offset (min remaining batch_size) of
        Inl e \<Rightarrow> Some (Fail e rn)
      | Inr batch \<Rightarrow>
          (case enforce_fetch_protocol batch (min remaining batch_size) of
             Inl e \<Rightarrow> Some (Fail e rn)
           | Inr _ \<Rightarrow>
               if batch = [] then Some (Halt rn)
               else (case handle batch rn of
                       Some (Next rn') \<Rightarrow>
                         if remaining - length batch = 0 then Some (Halt rn')
                         else fetch_loop fetch batch_size handle (offset + length batch) (remaining - length batch) rn'
                     | other \<Rightarrow> other)))"
  by pat_completeness auto

termination
  by (relation "measure (\<lambda>(fetch, batch_size, handle, offset, remaining, rn). remaining)")
    (auto simp: enforce_fetch_protocol_def split: if_splits)

definition real_batch ::
  "site \<Rightarrow> (nat \<Rightarrow> tick) \<Rightarrow> string \<Rightarrow> bool \<Rightarrow> raw_entity list \<Rightarrow> run_state \<Rightarrow> flow option" where
  "real_batch S env run force batch rn =
     (case check_first S env False batch (others_first env rn) of
        (Inl e, rn1) \<Rightarrow> Some (Fail e rn1)
      | (Inr _, rn1) \<Rightarrow>
          (case scan_all (scan_one S (quarantine_or S (admit_ready S env force))) batch (rn1\<lparr>rn_queue := []\<rparr>) of
             (Inl e, rn2) \<Rightarrow> Some (Fail e rn2)
           | (Inr _, rn2) \<Rightarrow> drain S env run (rn2\<lparr>rn_retry := (\<lambda>_. None)\<rparr>)))"

definition run_real ::
  "site \<Rightarrow> (nat \<Rightarrow> tick) \<Rightarrow> (nat \<Rightarrow> nat \<Rightarrow> raw_entity list result) \<Rightarrow> run_options \<Rightarrow> run_state \<Rightarrow> flow option" where
  "run_real S env fetch opts rn0 =
     (let rn = others_first env rn0
      in case recover_compile_leases (si_ext S) (tk_now (env (rn_tick rn0))) (rn_db rn) of
           (Inl e, d) \<Rightarrow> Some (Fail e (rn\<lparr>rn_db := d\<rparr>))
         | (Inr _, d) \<Rightarrow>
             fetch_loop fetch (ro_batch opts) (real_batch S env (st_run (rn_stats rn)) (ro_force opts)) 0 (ro_limit opts)
               (rn\<lparr>rn_db := d\<rparr>))"

section \<open>Dry run\<close>

definition load_hashes :: "site \<Rightarrow> raw_entity list \<Rightarrow> run_state \<Rightarrow> unit result \<times> run_state" where
  "load_hashes S batch rn =
     (case load_accepted_pages (si_ext S) (eid_domain (raw_id (hd batch))) (rn_db rn) of
        Inl e \<Rightarrow> (Inl e, rn)
      | Inr pages \<Rightarrow> (Inr (), rn\<lparr>rn_hashes :=
          fold (\<lambda>p m. m(to_key (wp_entity (cp_wiki p)) := Some (cp_hash p))) pages (rn_hashes rn)\<rparr>))"

definition plan_one :: "site \<Rightarrow> bool \<Rightarrow> prepared_source \<Rightarrow> run_state \<Rightarrow> unit result \<times> run_state" where
  "plan_one S force ps rn =
     (case content_hash (si_ext S) (ps_knowledge ps) (si_context S) (ex_policy (si_exec S)) (si_schema S) of
        Inl e \<Rightarrow> (Inl e, rn)
      | Inr h \<Rightarrow>
          if \<not> force \<and> rn_hashes rn (to_key (raw_id (ps_full ps))) = Some h then (Inr (), count_skipped rn)
          else (Inr (), count_would_compile rn))"

definition dry_batch ::
  "site \<Rightarrow> (nat \<Rightarrow> tick) \<Rightarrow> bool \<Rightarrow> raw_entity list \<Rightarrow> run_state \<Rightarrow> flow option" where
  "dry_batch S env force batch rn =
     (case check_first S env True batch rn of
        (Inl e, rn1) \<Rightarrow> Some (Fail e rn1)
      | (Inr _, rn1) \<Rightarrow>
          (case (if rn_checked rn then (Inr (), rn1) else load_hashes S batch rn1) of
             (Inl e, rn2) \<Rightarrow> Some (Fail e rn2)
           | (Inr _, rn2) \<Rightarrow>
               (case scan_all (scan_one S (quarantine_or S (plan_one S force))) batch rn2 of
                  (Inl e, rn3) \<Rightarrow> Some (Fail e rn3)
                | (Inr _, rn3) \<Rightarrow> Some (Next rn3))))"

definition run_dry ::
  "site \<Rightarrow> (nat \<Rightarrow> tick) \<Rightarrow> (nat \<Rightarrow> nat \<Rightarrow> raw_entity list result) \<Rightarrow> run_options \<Rightarrow> run_state \<Rightarrow> flow option" where
  "run_dry S env fetch opts rn =
     fetch_loop fetch (ro_batch opts) (dry_batch S env (ro_force opts)) 0 (ro_limit opts) rn"

section \<open>Entry points\<close>

text \<open>\<^verbatim>\<open>run\<close>: the statistics when it ends well, and the store either way.\<close>

fun run_outcome :: "flow \<Rightarrow> compile_stats result \<times> db" where
  "run_outcome (Fail e rn) = (Inl e, rn_db rn)"
| "run_outcome (Next rn) = (Inr (rn_stats rn), rn_db rn)"
| "run_outcome (Halt rn) = (Inr (rn_stats rn), rn_db rn)"

fun admit_outcome :: "flow \<Rightarrow> (compile_stats \<times> int list) result \<times> db" where
  "admit_outcome (Fail e rn) = (Inl e, rn_db rn)"
| "admit_outcome (Next rn) = (Inr (rn_stats rn, rn_queue rn), rn_db rn)"
| "admit_outcome (Halt rn) = (Inr (rn_stats rn, rn_queue rn), rn_db rn)"

definition executor_run ::
  "site \<Rightarrow> (nat \<Rightarrow> tick) \<Rightarrow> (nat \<Rightarrow> nat \<Rightarrow> raw_entity list result) \<Rightarrow> run_options \<Rightarrow> string \<Rightarrow> db
     \<Rightarrow> (compile_stats result \<times> db) option" where
  "executor_run S env fetch opts run d =
     (case try_bind (policy_validate (ex_policy (si_exec S))) (\<lambda>_. run_options_validate opts) of
        Inl e \<Rightarrow> Some (Inl e, d)
      | Inr _ \<Rightarrow>
          map_option run_outcome
            (if ro_dry opts
             then run_dry S env fetch opts
               (start_run (compile_stats_default\<lparr>st_run := ''dry-run'', st_dry_run := True\<rparr>) d)
             else run_real S env fetch opts (start_run (compile_stats_default\<lparr>st_run := run\<rparr>) d)))"

text \<open>\<^verbatim>\<open>process_claimed_task\<close>: one lease of the resident worker, its statistics thrown away.\<close>

definition process_claimed_task :: "site \<Rightarrow> tick \<Rightarrow> task_lease \<Rightarrow> db \<Rightarrow> lease_outcome result \<times> db" where
  "process_claimed_task S t l d =
     (case process_lease (si_ext S) (si_codec S) (si_lower S) (si_exec S) (si_schema S) l (tk_answer t l) (tk_done t)
             (tk_others t d) compile_stats_default of (r, d', st) \<Rightarrow> (r, d'))"

text \<open>\<^verbatim>\<open>admit_batch\<close>: admission only, for the resident worker.\<close>

definition queue_batch ::
  "site \<Rightarrow> (nat \<Rightarrow> tick) \<Rightarrow> bool \<Rightarrow> raw_entity list \<Rightarrow> run_state \<Rightarrow> flow option" where
  "queue_batch S env force batch rn =
     (case check_first S env False batch (others_first env rn) of
        (Inl e, rn1) \<Rightarrow> Some (Fail e rn1)
      | (Inr _, rn1) \<Rightarrow>
          (case scan_all (scan_one S (admit_ready S env force)) batch rn1 of
             (Inl e, rn2) \<Rightarrow> Some (Fail e rn2)
           | (Inr _, rn2) \<Rightarrow> Some (Next rn2)))"

definition admit_batch ::
  "site \<Rightarrow> (nat \<Rightarrow> tick) \<Rightarrow> (nat \<Rightarrow> nat \<Rightarrow> raw_entity list result) \<Rightarrow> run_options \<Rightarrow> string \<Rightarrow> db
     \<Rightarrow> ((compile_stats \<times> int list) result \<times> db) option" where
  "admit_batch S env fetch opts run d =
     (case try_bind (policy_validate (ex_policy (si_exec S))) (\<lambda>_. run_options_validate opts) of
        Inl e \<Rightarrow> Some (Inl e, d)
      | Inr _ \<Rightarrow>
          map_option admit_outcome
            (fetch_loop fetch (ro_batch opts) (queue_batch S env (ro_force opts)) 0 (ro_limit opts)
              (start_run (compile_stats_default\<lparr>st_run := run\<rparr>) d)))"

end
