(* ===== verification/Run_Inv.thy ===== *)
theory Run_Inv
  imports Run Workers Executor_Props Kernel_Calls
begin

text \<open>
  What holds all through a run: every scanned record is in exactly one counter or still queued, the queue
  holds tasks of different entities, the store moves by steps of the kernel, and each turn of the
  scheduling loop uses up a chance of a task or some of the waiting time.
\<close>

section \<open>The environment\<close>

text \<open>
  New tokens are new, and other processes move the store by kernel steps, before each transaction of the run and
  while its compiler works; in a calm run they only work.
\<close>

definition honest :: "ext \<Rightarrow> (nat \<Rightarrow> tick) \<Rightarrow> bool" where
  "honest X env \<longleftrightarrow> (\<forall>k d. later X d (tk_before (env k) d) \<and> later X d (tk_others (env k) d)
     \<and> tk_token (env k) d \<notin> a_token ` set (db_attempts d))"

definition calm :: "ext \<Rightarrow> (nat \<Rightarrow> tick) \<Rightarrow> bool" where
  "calm X env \<longleftrightarrow> (\<forall>k d. workers X d (tk_before (env k) d) \<and> workers X d (tk_others (env k) d)
     \<and> tk_token (env k) d \<notin> a_token ` set (db_attempts d))"

lemma calm_honest: "calm X env \<Longrightarrow> honest X env"
  by (auto simp: calm_def honest_def intro: workers_later)

lemma later_trans: "later X b c \<Longrightarrow> later X a b \<Longrightarrow> later X a c"
  by (induction rule: later.induct) (auto intro: later.next_step)

lemma workers_trans: "workers X b c \<Longrightarrow> workers X a b \<Longrightarrow> workers X a c"
  by (induction rule: workers.induct) (auto intro: workers.work)

lemma others_first_fields [simp]:
  "rn_db (others_first env rn) = tk_before (env (rn_tick rn)) (rn_db rn)" "rn_queue (others_first env rn) = rn_queue rn"
  "rn_seen (others_first env rn) = rn_seen rn" "rn_stats (others_first env rn) = rn_stats rn"
  "rn_wait (others_first env rn) = rn_wait rn" "rn_checked (others_first env rn) = rn_checked rn"
  "rn_retry (others_first env rn) = rn_retry rn" "rn_hashes (others_first env rn) = rn_hashes rn"
  by (simp_all add: others_first_def)

lemma honestD: "honest X env \<Longrightarrow> later X d (tk_before (env k) d)" "honest X env \<Longrightarrow> later X d (tk_others (env k) d)"
  by (simp_all add: honest_def)

lemma others_first_later: "honest X env \<Longrightarrow> later X d0 (rn_db rn) \<Longrightarrow> later X d0 (rn_db (others_first env rn))"
  using later_trans[OF honestD(1)] by simp

section \<open>One lease in a run\<close>

definition tally :: "compile_stats \<Rightarrow> nat" where
  "tally st = st_accepted st + st_failed st + st_quarantined st + st_skipped st + st_deferred st + st_would_compile st"

lemma lease_worker:
  assumes "process_lease X K lower ex schema l answer now d st = (r, d', st')"
  shows "workers X d d'"
  using assms[symmetric]
proof (cases rule: process_lease_cases)
  case (error e usage)
  then show ?thesis by auto
next
  case (fail failure cand report c usage)
  then have "\<exists>rf. finish_compile_failure X l failure cand report c now d = (rf, d')"
    by (auto simp: fail_lease_def split: prod.splits sum.splits failure_disposition.splits)
  then show ?thesis by (auto intro: workers.intros worker_step.failure)
next
  case (commit page ev c page' usage)
  have "\<exists>rp. publish_compile X l page' (lease_report ex l page ev c) c now d = (rp, d')"
    using commit(7) by (auto simp: commit_page_def split: prod.splits sum.splits commit_outcome.splits)
  then show ?thesis
    using worker_step.publish[OF normalize_page_Inr(1)[OF commit(6,2)]] by (auto intro: workers.intros)
qed

lemma lease_tally:
  assumes "process_lease X K lower ex schema l answer now d st = (Inr r, d', st')"
  shows "st_scanned st' = st_scanned st" "tally st' = tally st + (if r = Finalized then 1 else 0)"
proof -
  have "st_scanned st' = st_scanned st \<and> tally st' = tally st + (if r = Finalized then 1 else 0)"
    using assms[symmetric]
  proof (cases rule: process_lease_cases)
    case (fail failure cand report c usage)
    show ?thesis by (rule fail_lease_Inr[OF fail[symmetric]]) (simp_all add: tally_def)
  next
    case (commit page ev c page' usage)
    show ?thesis by (rule commit_page_Inr[OF commit(7)[symmetric]]) (simp_all add: tally_def)
  qed simp
  then show "st_scanned st' = st_scanned st" "tally st' = tally st + (if r = Finalized then 1 else 0)" by auto
qed

lemma disposed_again:
  assumes "disposed X failure deps now t (RetryAt due) t' d'" "x_parse_deps X (t_deps t) = Some deps"
  shows "chances X t' < chances X t"
  using assms
  by (auto simp: disposed_def chances_def recompile_limit_def pending_set_def recompiles_set_def retries_set_def
      split: compile_failure.splits if_splits)

lemma lease_retry:
  assumes ok: "queue_ok d"
    and p: "process_lease X K lower ex schema l answer now d st = (Inr (RetryLater due), d', st')"
  shows "chances_at X d' (tl_task l) < chances_at X d (tl_task l)"
  using p[symmetric]
proof (cases rule: process_lease_cases)
  case (fail failure cand report c usage)
  from fail[symmetric] have "finish_compile_failure X l failure cand report c now d = (Inr (RetryAt due), d')"
    by (rule fail_lease_Inr) simp_all
  then have f: "finish_failure_in_transaction X l failure cand report c now d = Inr (RetryAt due, d')"
    unfolding finish_compile_failure_def by (elim immediate_transaction_cases) auto
  then obtain t where t: "find_task_id (tl_task l) d = Some t" "live_task l now t"
    by (cases rule: failure_cases) auto
  from failure_disposed[OF ok t f] t(1) show ?thesis
    by (auto simp: chances_at_def dest: disposed_again)
next
  case (commit page ev c page' usage)
  from commit(7)[symmetric] show ?thesis by (rule commit_page_Inr) simp_all
qed simp

section \<open>Scanning\<close>

text \<open>Task identity survives: what is queued stays a task of the same entity.\<close>

definition tasks_kept :: "db \<Rightarrow> db \<Rightarrow> bool" where
  "tasks_kept d d' \<longleftrightarrow> (\<forall>t\<in>set (db_tasks d). \<exists>t'\<in>set (db_tasks d'). t_id t' = t_id t \<and> t_entity t' = t_entity t)"

lemma tasks_kept_refl [simp]: "tasks_kept d d" by (auto simp: tasks_kept_def)

lemma tasks_kept_update: "(\<And>t. t_id (f t) = t_id t \<and> t_entity (f t) = t_entity t) \<Longrightarrow> tasks_kept d (update_tasks P f d)"
  unfolding tasks_kept_def by (auto simp: sql_update_def)

lemma tasks_kept_head [simp]: "tasks_kept d (upsert_source_head j i e d') = tasks_kept d d'"
  by (simp add: tasks_kept_def upsert_source_head_def Let_def)

lemma tasks_kept_insert [simp]: "tasks_kept d (insert_task t d)" by (auto simp: tasks_kept_def)

lemma tasks_kept_admit:
  assumes "admit_compile X ps ctx policy schema force now d = (r, d')"
  shows "tasks_kept d d'"
  using assms unfolding admit_compile_def
proof (cases rule: immediate_transaction_cases)
  case (commit a)
  then show ?thesis
  proof (cases rule: admit_compile_cases)
    case (job d1 j)
    note set = skip_set_def refresh_set_def requeue_set_def
    have "tasks_kept d1 d'"
      using job(2)
      by (auto simp: admit_job_on_def admit_task_def record_skipped_task_def Let_def set
          intro!: tasks_kept_update split: option.splits if_splits prod.splits)
    moreover have "db_tasks d1 = db_tasks d" using facts_only_heads[OF job(1)] by blast
    ultimately show ?thesis by (simp add: tasks_kept_def)
  qed simp
qed simp

lemma tasks_kept_worn: "worn_db d d' \<Longrightarrow> tasks_kept d d'"
  unfolding worn_db_def tasks_kept_def
  by (metis (no_types, lifting) in_set_conv_nth list_all2_conv_all_nth worn_def)

lemma tasks_kept_trans: "tasks_kept a b \<Longrightarrow> tasks_kept b c \<Longrightarrow> tasks_kept a c"
  unfolding tasks_kept_def by metis

lemma tasks_kept_step:
  assumes "queue_ok d" "kernel_step X d d'"
  shows "tasks_kept d d'"
  using assms(2)
proof (cases rule: kernel_step_cases)
  case (admit policy ps ctx schema force now ra)
  then show ?thesis using tasks_kept_admit by blast
next
  case (preflight token task epoch code now rq)
  then have "d' = d \<or> (\<exists>P rows. d' = update_tasks P (dead_set RQuarantined code now) (d\<lparr>db_attempts := rows\<rparr>))"
    unfolding quarantine_compile_preflight_def
    by (elim immediate_transaction_cases)
      (auto simp: quarantine_preflight_in_transaction_def Let_def split: prod.splits if_splits)
  moreover have "tasks_kept (d\<lparr>db_attempts := rows\<rparr>) (update_tasks P (dead_set RQuarantined code now) (d\<lparr>db_attempts := rows\<rparr>))"
    for P rows by (rule tasks_kept_update) (simp add: dead_set_def)
  moreover have "tasks_kept (d\<lparr>db_attempts := rows\<rparr>) d' \<Longrightarrow> tasks_kept d d'" for rows by (simp add: tasks_kept_def)
  ultimately show ?thesis by (metis tasks_kept_refl)
qed (use assms(1) worn_step[THEN tasks_kept_worn] in \<open>blast intro: worker_step.intros\<close>)+

lemma tasks_kept_later: "later X d d' \<Longrightarrow> queue_ok d \<Longrightarrow> tasks_kept d d' \<and> queue_ok d'"
  by (induction rule: later.induct) (auto intro: tasks_kept_trans tasks_kept_step queue_ok_step)

text \<open>
  The invariant of a run that started on the store \<open>d0\<close>. The third part of \<open>run_ok\<close> ties the queue to the
  entities seen, so that the task of an unseen entity is a new member.
\<close>

definition balanced :: "nat \<Rightarrow> run_state \<Rightarrow> bool" where
  "balanced n rn \<longleftrightarrow> st_scanned (rn_stats rn) = tally (rn_stats rn) + length (rn_queue rn) + n"

definition queued_for :: "(string \<Rightarrow> bool) \<Rightarrow> run_state \<Rightarrow> bool" where
  "queued_for P rn \<longleftrightarrow> (\<forall>i\<in>set (rn_queue rn). \<exists>t\<in>set (db_tasks (rn_db rn)). t_id t = i \<and> P (t_entity t))"

definition run_ok :: "ext \<Rightarrow> db \<Rightarrow> run_state \<Rightarrow> bool" where
  "run_ok X d0 rn \<longleftrightarrow> later X d0 (rn_db rn) \<and> distinct (rn_queue rn) \<and> queued_for (\<lambda>e. e \<in> set (rn_seen rn)) rn"

lemma queued_for_kept:
  "queued_for P rn \<Longrightarrow> tasks_kept (rn_db rn) d' \<Longrightarrow> queued_for P (rn\<lparr>rn_db := d'\<rparr>)"
  unfolding queued_for_def tasks_kept_def by simp metis

lemma count_fields [simp]:
  "rn_db (count_scanned rn) = rn_db rn" "rn_queue (count_scanned rn) = rn_queue rn" "rn_seen (count_scanned rn) = rn_seen rn"
  "rn_db (count_skipped rn) = rn_db rn" "rn_queue (count_skipped rn) = rn_queue rn" "rn_seen (count_skipped rn) = rn_seen rn"
  "rn_db (count_failed rn) = rn_db rn" "rn_queue (count_failed rn) = rn_queue rn" "rn_seen (count_failed rn) = rn_seen rn"
  "rn_db (count_quarantined rn) = rn_db rn" "rn_queue (count_quarantined rn) = rn_queue rn" "rn_seen (count_quarantined rn) = rn_seen rn"
  "rn_db (count_deferred k rn) = rn_db rn" "rn_queue (count_deferred k rn) = rn_queue rn" "rn_seen (count_deferred k rn) = rn_seen rn"
  "rn_db (count_would_compile rn) = rn_db rn" "rn_queue (count_would_compile rn) = rn_queue rn" "rn_seen (count_would_compile rn) = rn_seen rn"
  by (simp_all add: count_scanned_def count_skipped_def count_failed_def count_quarantined_def count_deferred_def
      count_would_compile_def)

lemma balanced_counts [simp]:
  "balanced (Suc n) (count_scanned rn) = balanced n rn" "balanced n (count_skipped rn) = balanced (Suc n) rn"
  "balanced n (count_failed rn) = balanced (Suc n) rn" "balanced n (count_quarantined rn) = balanced (Suc n) rn"
  "balanced n (count_deferred k rn) = balanced (n + k) rn" "balanced n (count_would_compile rn) = balanced (Suc n) rn"
  by (auto simp: balanced_def tally_def count_scanned_def count_skipped_def count_failed_def count_quarantined_def
      count_deferred_def count_would_compile_def)

lemma run_ok_counts [simp]:
  "run_ok X d0 (count_scanned rn) = run_ok X d0 rn" "run_ok X d0 (count_skipped rn) = run_ok X d0 rn"
  "run_ok X d0 (count_failed rn) = run_ok X d0 rn" "run_ok X d0 (count_quarantined rn) = run_ok X d0 rn"
  "run_ok X d0 (count_deferred k rn) = run_ok X d0 rn" "run_ok X d0 (count_would_compile rn) = run_ok X d0 rn"
  by (simp_all add: run_ok_def queued_for_def)

text \<open>What the last stage of a scan has to do with a record it is handed.\<close>

definition scanned :: "run_state \<Rightarrow> nat" where
  "scanned rn = st_scanned (rn_stats rn)"

lemma scanned_counts [simp]:
  "scanned (count_scanned rn) = Suc (scanned rn)" "scanned (count_skipped rn) = scanned rn"
  "scanned (count_failed rn) = scanned rn" "scanned (count_quarantined rn) = scanned rn"
  "scanned (count_deferred k rn) = scanned rn" "scanned (count_would_compile rn) = scanned rn"
  by (simp_all add: scanned_def count_scanned_def count_skipped_def count_failed_def count_quarantined_def
      count_deferred_def count_would_compile_def)

lemma run_ok_later: "run_ok X d0 rn \<Longrightarrow> later X d0 (rn_db rn)" by (simp add: run_ok_def)

lemma queued_for_others:
  assumes "honest X env" "queue_ok (rn_db rn)" "queued_for P rn"
  shows "queued_for P (others_first env rn)"
proof -
  have "tasks_kept (rn_db rn) (tk_before (env (rn_tick rn)) (rn_db rn))"
    using tasks_kept_later[OF honestD(1)[OF assms(1)] assms(2)] by blast
  from queued_for_kept[OF assms(3) this] show ?thesis by (simp add: queued_for_def)
qed

definition handed :: "ext \<Rightarrow> db \<Rightarrow> prepared_source \<Rightarrow> run_state \<Rightarrow> bool" where
  "handed X d0 ps rn \<longleftrightarrow> run_ok X d0 rn \<and> balanced 1 rn
     \<and> (let key = to_key (raw_id (ps_full ps)) in key \<in> set (rn_seen rn) \<and> queued_for (\<lambda>e. e \<noteq> key) rn)"

lemma handed_others:
  assumes "handed X d0 ps rn" "honest X env" "reachable X d0"
  shows "handed X d0 ps (others_first env rn)"
proof -
  have "reachable X (rn_db rn)" using assms(1) reachable_later[OF _ assms(3)] by (simp add: handed_def run_ok_def)
  then have "queue_ok (rn_db rn)" by (rule queue.always)
  then show ?thesis
    using assms(1) others_first_later[OF assms(2)] queued_for_others[OF assms(2)]
    by (auto simp: handed_def run_ok_def balanced_def Let_def)
qed

definition scans :: "ext \<Rightarrow> db \<Rightarrow> (prepared_source \<Rightarrow> run_state \<Rightarrow> unit result \<times> run_state) \<Rightarrow> bool" where
  "scans X d0 go \<longleftrightarrow> (\<forall>ps rn r rn'. handed X d0 ps rn \<longrightarrow> go ps rn = (r, rn') \<longrightarrow>
     later X d0 (rn_db rn') \<and> (r = Inr () \<longrightarrow> run_ok X d0 rn' \<and> balanced 0 rn' \<and> scanned rn' = scanned rn))"

lemma scans_quarantine: "scans X d0 go \<Longrightarrow> scans X d0 (quarantine_or S go)"
  by (auto simp: scans_def quarantine_or_def handed_def run_ok_later)

lemma scans_plan: "scans X d0 (plan_one S force)"
  by (auto simp: scans_def plan_one_def handed_def run_ok_later split: sum.splits if_splits)

lemma scans_admit:
  assumes X: "si_ext S = X" and d0: "reachable X d0" and env: "honest X env"
    and pol: "policy_validate (ex_policy (si_exec S)) = Inr ()"
  shows "scans X d0 (admit_ready S env force)"
  unfolding scans_def
proof (intro allI impI)
  fix ps rn0 q rn'
  assume h0: "handed X d0 ps rn0" and run: "admit_ready S env force ps rn0 = (q, rn')"
  let ?now = "tk_now (env (rn_tick rn0))"
  define rn where "rn = others_first env rn0"
  have h: "handed X d0 ps rn" unfolding rn_def by (rule handed_others[OF h0 env d0])
  have same: "scanned rn0 = scanned rn" by (simp add: rn_def scanned_def)
  let ?key = "to_key (raw_id (ps_full ps))"
  obtain r d where a: "admit_compile X ps (si_context S) (ex_policy (si_exec S)) (si_schema S) force
      ?now (rn_db rn) = (r, d)" by fastforce
  have ok: "later X d0 d" using later.next_step[OF _ kernel_step.admit[OF pol a]] h by (simp add: handed_def run_ok_def)
  then have qd: "queue_ok d" using reachable_later[OF _ d0] queue.always by blast
  have qr: "queue_ok (rn_db rn)"
    using h reachable_later[OF _ d0] queue.always by (auto simp: handed_def run_ok_def)
  note kept = tasks_kept_admit[OF a]
  have old: "queued_for P (rn\<lparr>rn_db := d\<rparr>)" if "queued_for P rn" for P
    using that kept by (rule queued_for_kept)
  show "later X d0 (rn_db rn') \<and> (q = Inr () \<longrightarrow> run_ok X d0 rn' \<and> balanced 0 rn' \<and> scanned rn' = scanned rn0)"
  proof (cases "\<exists>i. r = Inr (Queued i)")
    case True
    then obtain i where i: "r = Inr (Queued i)" by blast
    obtain t where t: "t \<in> set (db_tasks d)" "t_id t = i" "t_entity t = ?key"
    proof -
      have "admit_compile_on_conn X ps (si_context S) (ex_policy (si_exec S)) (si_schema S) force
          ?now (rn_db rn) = Inr (Queued i, d)"
        using a i unfolding admit_compile_def by (elim immediate_transaction_cases) auto
      from admit_conn_outcome[OF qr this] that show thesis by (auto simp: find_task_id_iff[OF qd])
    qed
    have rn': "rn_db rn' = d" "rn_queue rn' = rn_queue rn @ [i]" "rn_seen rn' = rn_seen rn" "rn_stats rn' = rn_stats rn"
      using run a i X by (auto simp: admit_ready_def Let_def rn_def)
    have "i \<notin> set (rn_queue rn)"
    proof
      assume "i \<in> set (rn_queue rn)"
      moreover have "queued_for (\<lambda>e. e \<noteq> ?key) (rn\<lparr>rn_db := d\<rparr>)" using h old by (simp add: handed_def Let_def)
      ultimately obtain t' where "t' \<in> set (db_tasks d)" "t_id t' = i" "t_entity t' \<noteq> ?key"
        by (auto simp: queued_for_def)
      then show False using queue_ok_unique[OF qd] t by blast
    qed
    moreover have "queued_for (\<lambda>e. e \<in> set (rn_seen rn)) (rn\<lparr>rn_db := d\<rparr>)" using h old by (simp add: handed_def run_ok_def)
    ultimately show ?thesis
      using h ok t by (auto simp: handed_def run_ok_def balanced_def queued_for_def rn' Let_def scanned_def same[unfolded scanned_def])
  next
    case False
    have "run_ok X d0 (rn\<lparr>rn_db := d\<rparr>)" "balanced 1 (rn\<lparr>rn_db := d\<rparr>)"
      using h ok old by (auto simp: handed_def run_ok_def balanced_def)
    moreover have "scanned (rn\<lparr>rn_db := d\<rparr>) = scanned rn" by (simp add: scanned_def)
    ultimately show ?thesis
      using run a False X ok same by (auto simp: admit_ready_def Let_def rn_def split: sum.splits admission.splits)
  qed
qed

lemma prepare_source_full: "prepare_source X raw schema p = Inr ps \<Longrightarrow> ps_full ps = raw"
  by (auto simp: prepare_source_def split: if_splits)

lemma scan_one_ok:
  assumes "scans X d0 go" "run_ok X d0 rn" "balanced 0 rn" "scan_one S go raw rn = (r, rn')"
  shows "later X d0 (rn_db rn') \<and> (r = Inr () \<longrightarrow> run_ok X d0 rn' \<and> balanced 0 rn' \<and> scanned rn' = Suc (scanned rn))"
proof (cases "to_key (raw_id raw) \<in> set (rn_seen rn)")
  case True
  then show ?thesis using assms by (auto simp: scan_one_def Let_def run_ok_later)
next
  case False
  let ?rn1 = "(count_scanned rn)\<lparr>rn_seen := to_key (raw_id raw) # rn_seen rn\<rparr>"
  have b: "balanced 1 ?rn1" using assms(3) balanced_counts(1)[of 0 rn] by (simp add: balanced_def)
  have n: "scanned ?rn1 = Suc (scanned rn)" using scanned_counts(1)[of rn] by (simp add: scanned_def)
  have ok: "run_ok X d0 ?rn1" using assms(2) by (auto simp: run_ok_def queued_for_def)
  have new: "queued_for (\<lambda>e. e \<noteq> to_key (raw_id raw)) ?rn1"
    unfolding queued_for_def
  proof
    fix i assume "i \<in> set (rn_queue ?rn1)"
    then obtain t where "t \<in> set (db_tasks (rn_db rn))" "t_id t = i" "t_entity t \<in> set (rn_seen rn)"
      using assms(2) by (auto simp: run_ok_def queued_for_def)
    then show "\<exists>t\<in>set (db_tasks (rn_db ?rn1)). t_id t = i \<and> t_entity t \<noteq> to_key (raw_id raw)"
      using False by (intro bexI[of _ t]) auto
  qed
  show ?thesis
  proof (cases "prepare_source (si_ext S) raw (si_schema S) (ex_policy (si_exec S))")
    case (Inl e)
    then show ?thesis using assms(4) False b ok n run_ok_later[OF ok] by (auto simp: scan_one_def Let_def)
  next
    case (Inr ps)
    then have "handed X d0 ps ?rn1" using b ok new prepare_source_full[OF Inr] by (simp add: handed_def Let_def)
    moreover have "go ps ?rn1 = (r, rn')" using assms(4) False Inr by (simp add: scan_one_def Let_def)
    ultimately show ?thesis using assms(1) n unfolding scans_def by metis
  qed
qed

lemma scan_all_ok:
  "scans X d0 go \<Longrightarrow> run_ok X d0 rn \<Longrightarrow> balanced 0 rn \<Longrightarrow> scan_all (scan_one S go) raws rn = (r, rn') \<Longrightarrow>
     later X d0 (rn_db rn')
     \<and> (r = Inr () \<longrightarrow> run_ok X d0 rn' \<and> balanced 0 rn' \<and> scanned rn' = scanned rn + length raws)"
proof (induction raws arbitrary: rn)
  case Nil
  then show ?case by (simp add: run_ok_later)
next
  case (Cons raw raws)
  obtain q rn1 where one: "scan_one S go raw rn = (q, rn1)" by fastforce
  note ok = scan_one_ok[OF Cons.prems(1-3) one]
  show ?case
  proof (cases q)
    case (Inl e)
    then show ?thesis using Cons.prems(4) one ok by auto
  next
    case (Inr u)
    then have "q = Inr ()" "scan_all (scan_one S go) raws rn1 = (r, rn')" using Cons.prems(4) one by simp_all
    then show ?thesis using ok Cons.IH[OF Cons.prems(1), of rn1] by auto
  qed
qed

end
