(* ===== verification/Run_Drain.thy ===== *)
theory Run_Drain
  imports Run_Inv
begin

text \<open>
  The scheduling loop and the fetch loop: what they keep, that they end, and rules to reason about them.
\<close>

section \<open>One turn\<close>

lemma claim_offered:
  assumes "queue_ok d" "claim_compile X ids run token now d = (Inr (Some l), d')"
  shows "tl_task l \<in> set ids"
proof -
  have "claim_in_transaction X ids run token now d = Inr (Some l, d')"
    using assms(2) unfolding claim_compile_def by (auto split: if_splits elim: immediate_transaction_cases)
  from claim_granted[OF assms(1) this] show ?thesis
    using claim_next_SomeD(2) unfolding claimable_def by (metis task_lease.select_convs(1))
qed

lemma process_claimed_Next:
  assumes "process_claimed S t l rn = Next rn'"
  obtains units r d st where "process_lease (si_ext S) (si_codec S) (si_lower S) (si_exec S) (si_schema S) l (tk_answer t l)
        (tk_done t) (tk_others t (rn_db rn)) ((rn_stats rn)\<lparr>st_reserved := st_reserved (rn_stats rn) + nat units\<rparr>)
      = (Inr r, d, st)"
    "rn_db rn' = d" "rn_stats rn' = st" "rn_wait rn' = rn_wait rn"
    "rn_queue rn' = rn_queue rn @ (if r = Finalized then [] else [tl_task l])"
  using assms unfolding process_claimed_def
  by (auto split: sum.splits prod.splits lease_outcome.splits)

lemma wait_or_defer_cases:
  assumes "wait_or_defer t rn = f"
  obtains (wait) rn' w where "f = Next rn'" "rn_wait rn' = rn_wait rn - w" "0 < w" "w \<le> rn_wait rn"
      "rn_db rn' = tk_others t (rn_db rn)" "rn_queue rn' = rn_queue rn" "rn_stats rn' = rn_stats rn"
  | (give_up) rn' where "f = Halt rn'" "rn_db rn' = rn_db rn" "st_circuit_open (rn_stats rn')"
      "st_scanned (rn_stats rn') = st_scanned (rn_stats rn)" "tally (rn_stats rn') = tally (rn_stats rn) + length (rn_queue rn)"
proof (cases "earliest_retry rn (tk_after t) > tk_after t \<and> rn_wait rn > 0")
  case True
  then show thesis using assms wait by (auto simp: wait_or_defer_def wake_margin_ms_def)
next
  case False
  then show thesis using assms give_up by (auto simp: wait_or_defer_def Let_def count_deferred_def tally_def)
qed

definition turn_ok :: "ext \<Rightarrow> db \<Rightarrow> run_state \<Rightarrow> bool" where
  "turn_ok X d0 rn \<longleftrightarrow> later X d0 (rn_db rn) \<and> distinct (rn_queue rn) \<and> balanced 0 rn"

definition closed :: "ext \<Rightarrow> db \<Rightarrow> run_state \<Rightarrow> bool" where
  "closed X d0 rn \<longleftrightarrow> later X d0 (rn_db rn) \<and> st_scanned (rn_stats rn) = tally (rn_stats rn)"

definition fuel :: "ext \<Rightarrow> run_state \<Rightarrow> nat" where
  "fuel X rn = sum_list (map (\<lambda>i. chances_at X (rn_db rn) i + 1) (rn_queue rn)) + rn_wait rn"

lemma chances_sum:
  "worn_db d d' \<Longrightarrow> sum_list (map (\<lambda>i. chances_at X d' i + 1) is) \<le> sum_list (map (\<lambda>i. chances_at X d i + 1) is)"
  using worn_chances_at[of d d' X] by (intro sum_list_mono) simp

lemma filter_out:
  "distinct xs \<Longrightarrow> x \<in> set xs \<Longrightarrow> length xs = Suc (length (filter (\<lambda>i. i \<noteq> x) xs))
     \<and> sum_list (map f xs) = f x + sum_list (map f (filter (\<lambda>i. i \<noteq> x) xs))" for f :: "'a \<Rightarrow> nat"
proof (induction xs)
  case (Cons y xs)
  show ?case
  proof (cases "y = x")
    case True
    then have "filter (\<lambda>i. i \<noteq> x) xs = xs" using Cons.prems(1) by (intro filter_True) auto
    then show ?thesis using True by simp
  qed (use Cons in auto)
qed simp

lemma turn:
  assumes ok: "turn_ok X d0 rn" and d0: "reachable X d0" and X: "si_ext S = X" and env: "honest X env"
    and r: "claim_round S env run rn = f"
  shows "\<And>rn'. f = Next rn' \<Longrightarrow> turn_ok X d0 rn' \<and> scanned rn' = scanned rn \<and> (calm X env \<longrightarrow> fuel X rn' < fuel X rn)"
    "\<And>rn'. f = Halt rn' \<Longrightarrow> closed X d0 rn' \<and> scanned rn' = scanned rn"
    "\<And>e rn'. f = Fail e rn' \<Longrightarrow> later X d0 (rn_db rn')"
proof -
  let ?t = "env (rn_tick rn)"
  let ?rn = "others_first env rn"
  let ?db = "tk_before ?t (rn_db rn)"
  obtain c d where c: "claim_compile X (rn_queue rn) run (tk_token ?t ?db) (tk_now ?t) ?db = (c, d)" by fastforce
  have fresh: "tk_token ?t ?db \<notin> a_token ` set (db_attempts ?db)" using env by (simp add: honest_def)
  have first: "later X d0 ?db" using others_first_later[OF env] ok by (simp add: turn_ok_def)
  have q0: "queue_ok (rn_db rn)" and q: "queue_ok ?db"
    using ok reachable_later[OF _ d0] first queue.always by (auto simp: turn_ok_def)
  have work: "workers X ?db d" by (rule workers.work[OF workers.idle worker_step.claim[OF fresh c]])
  have others: "later X d (tk_others ?t d)" by (rule honestD(2)[OF env])
  have late: "later X d0 (tk_others ?t d)"
    by (rule later_trans[OF others later_trans[OF workers_later[OF work] first]])
  have qo: "queue_ok (tk_others ?t d)" using reachable_later[OF late d0] queue.always by blast
  have worn: "worn_db (rn_db rn) (tk_others ?t d)" if cm: "calm X env"
  proof -
    have "workers X (rn_db rn) ?db" "workers X d (tk_others ?t d)" using cm by (simp_all add: calm_def)
    then have "workers X (rn_db rn) (tk_others ?t d)" using work by (blast intro: workers_trans)
    then show ?thesis using worn_workers[OF _ q0] by blast
  qed
  have idle: "f = wait_or_defer ?t (?rn\<lparr>rn_db := d\<rparr>)" if "c = Inr None"
    using r c that X by (simp add: claim_round_def Let_def)
  show "turn_ok X d0 rn' \<and> scanned rn' = scanned rn \<and> (calm X env \<longrightarrow> fuel X rn' < fuel X rn)" if f: "f = Next rn'" for rn'
  proof (cases c)
    case (Inl e)
    then show ?thesis using r c f X by (simp add: claim_round_def Let_def)
  next
    case (Inr l)
    show ?thesis
    proof (cases l)
      case None
      with idle Inr f have w: "wait_or_defer ?t (?rn\<lparr>rn_db := d\<rparr>) = Next rn'" by simp
      from w show ?thesis
      proof (cases rule: wait_or_defer_cases)
        case (wait rn1 w)
        then have rn': "rn_db rn' = tk_others ?t d" "rn_queue rn' = rn_queue rn" "rn_stats rn' = rn_stats rn"
          "rn_wait rn' < rn_wait rn" by auto
        have "fuel X rn' < fuel X rn" if "calm X env"
          using chances_sum[OF worn[OF that], of X "rn_queue rn"] rn' by (simp add: fuel_def)
        then show ?thesis using ok late rn' by (simp add: turn_ok_def balanced_def scanned_def)
      qed simp
    next
      case (Some l)
      let ?q = "filter (\<lambda>i. i \<noteq> tl_task l) (rn_queue rn)"
      have "process_claimed S ?t l (?rn\<lparr>rn_db := d, rn_queue := ?q\<rparr>) = Next rn'"
        using r c f Inr Some X by (simp add: claim_round_def Let_def)
      then obtain units o1 d2 st where
        "process_lease (si_ext S) (si_codec S) (si_lower S) (si_exec S) (si_schema S) l (tk_answer ?t l) (tk_done ?t)
              (tk_others ?t d) ((rn_stats rn)\<lparr>st_reserved := st_reserved (rn_stats rn) + nat units\<rparr>) = (Inr o1, d2, st)"
        and rn': "rn_db rn' = d2" "rn_stats rn' = st" "rn_wait rn' = rn_wait rn"
          "rn_queue rn' = ?q @ (if o1 = Finalized then [] else [tl_task l])"
        by (rule process_claimed_Next) simp
      note p = this(1)[unfolded X]
      have mem: "tl_task l \<in> set (rn_queue rn)" using claim_offered[OF q] c Inr Some by blast
      have dist: "distinct (rn_queue rn)" using ok by (simp add: turn_ok_def)
      note out = filter_out[OF dist mem]
      note lw = lease_worker[OF p]
      have "later X d0 d2" using later_trans[OF workers_later[OF lw] late] .
      moreover have "balanced 0 rn'"
        using ok lease_tally[OF p] out by (cases o1) (simp_all add: turn_ok_def balanced_def rn' tally_def)
      moreover have "distinct (rn_queue rn')" using dist by (simp add: rn')
      moreover have "fuel X rn' < fuel X rn" if cm: "calm X env"
      proof -
        let ?f = "\<lambda>d i. chances_at X d i + 1"
        have w2: "worn_db (tk_others ?t d) d2" using worn_workers[OF lw qo] by blast
        have a: "sum_list (map (?f d2) ?q) \<le> sum_list (map (?f (rn_db rn)) ?q)"
          using chances_sum[OF worn_db_trans[OF worn[OF cm] w2]] .
        have b: "?f d2 (tl_task l) < ?f (rn_db rn) (tl_task l)" if "o1 \<noteq> Finalized"
          using lease_retry[OF qo] p worn_chances_at[OF worn[OF cm], of X "tl_task l"] that by (cases o1) force+
        show ?thesis using a b out[of "?f (rn_db rn)"] by (cases o1) (auto simp: fuel_def rn')
      qed
      moreover have "scanned rn' = scanned rn" using lease_tally(1)[OF p] by (simp add: scanned_def rn')
      ultimately show ?thesis by (simp add: turn_ok_def rn')
    qed
  qed
  have later_d: "later X d0 d" by (rule later_trans[OF workers_later[OF work] first])
  show "closed X d0 rn' \<and> scanned rn' = scanned rn" if f: "f = Halt rn'" for rn'
  proof (cases "c = Inr None")
    case True
    with idle f have w: "wait_or_defer ?t (?rn\<lparr>rn_db := d\<rparr>) = Halt rn'" by simp
    from w show ?thesis
      by (cases rule: wait_or_defer_cases) (use ok later_d in \<open>auto simp: closed_def turn_ok_def balanced_def scanned_def\<close>)
  next
    case False
    then show ?thesis
      using r c f X by (auto simp: claim_round_def Let_def process_claimed_def split: sum.splits prod.splits option.splits lease_outcome.splits)
  qed
  show "later X d0 (rn_db rn')" if f: "f = Fail e rn'" for e rn'
  proof (cases "\<exists>l. c = Inr (Some l)")
    case True
    then obtain l where l: "c = Inr (Some l)" by blast
    let ?rn1 = "?rn\<lparr>rn_db := d, rn_queue := filter (\<lambda>i. i \<noteq> tl_task l) (rn_queue rn)\<rparr>"
    have p: "process_claimed S ?t l ?rn1 = Fail e rn'" using r c f l X by (simp add: claim_round_def Let_def)
    then have "rn_db rn' = d \<or> (\<exists>units o1 st. process_lease X (si_codec S) (si_lower S) (si_exec S) (si_schema S) l
        (tk_answer ?t l) (tk_done ?t) (tk_others ?t d) ((rn_stats rn)\<lparr>st_reserved := st_reserved (rn_stats rn) + nat units\<rparr>)
        = (o1, rn_db rn', st))"
      using X unfolding process_claimed_def
      by (auto split: sum.splits prod.splits lease_outcome.splits)
    then show ?thesis using later_d later_trans[OF workers_later[OF lease_worker] late] by metis
  next
    case False
    then show ?thesis using r c f X later_d idle
      by (cases c; cases "projr c") (auto simp: claim_round_def Let_def elim: wait_or_defer_cases)
  qed
qed

section \<open>The loops\<close>

lemma drain_ends:
  assumes "drain S env run rn = Some f" "I rn"
    and "\<And>rn rn'. I rn \<Longrightarrow> claim_round S env run rn = Next rn' \<Longrightarrow> I rn'"
  shows "\<exists>rn'. I rn' \<and> (rn_queue rn' = [] \<and> f = Next rn' \<or> claim_round S env run rn' = f \<and> (\<forall>r. f \<noteq> Next r))"
proof -
  let ?Q = "\<lambda>S env run rn f. \<exists>rn'. I rn' \<and>
     (rn_queue rn' = [] \<and> f = Next rn' \<or> claim_round S env run rn' = f \<and> (\<forall>r. f \<noteq> Next r))"
  have "(\<forall>rn rn'. I rn \<longrightarrow> claim_round S env run rn = Next rn' \<longrightarrow> I rn') \<longrightarrow> I rn \<longrightarrow> ?Q S env run rn f"
  proof (rule drain.raw_induct[OF _ assms(1), where P = "\<lambda>S env run rn f.
      (\<forall>rn rn'. I rn \<longrightarrow> claim_round S env run rn = Next rn' \<longrightarrow> I rn') \<longrightarrow> I rn \<longrightarrow> ?Q S env run rn f"], intro impI)
    fix loop S env run rn f
    assume IH: "\<And>S env run rn f. loop S env run rn = Some f \<Longrightarrow>
        (\<forall>rn rn'. I rn \<longrightarrow> claim_round S env run rn = Next rn' \<longrightarrow> I rn') \<longrightarrow> I rn \<longrightarrow> ?Q S env run rn f"
      and b: "(if rn_queue rn = [] then Some (Next rn)
        else case claim_round S env run rn of Next rn' \<Rightarrow> loop S env run rn' | Halt rn' \<Rightarrow> Some (Halt rn')
             | Fail e rn' \<Rightarrow> Some (Fail e rn')) = Some f"
      and keep: "\<forall>rn rn'. I rn \<longrightarrow> claim_round S env run rn = Next rn' \<longrightarrow> I rn'" and I: "I rn"
    show "?Q S env run rn f"
    proof (cases "rn_queue rn = []")
      case True
      then show ?thesis using b I by auto
    next
      case False
      show ?thesis
      proof (cases "claim_round S env run rn")
        case (Next rn')
        have "I rn'" using keep I Next by blast
        moreover have "loop S env run rn' = Some f" using b False Next by simp
        ultimately show ?thesis using IH[of S env run rn' f] keep by blast
      next
        case (Halt rn')
        then show ?thesis using b False I by (intro exI[of _ rn]) auto
      next
        case (Fail e rn')
        then show ?thesis using b False I by (intro exI[of _ rn]) auto
      qed
    qed
  qed
  then show ?thesis using assms(2,3) by blast
qed

lemma drain_total:
  assumes "I rn" "\<And>rn rn'. I rn \<Longrightarrow> claim_round S env run rn = Next rn' \<Longrightarrow> I rn' \<and> m rn' < (m rn :: nat)"
  shows "\<exists>f. drain S env run rn = Some f"
  using assms(1)
proof (induction "m rn" arbitrary: rn rule: less_induct)
  case less
  show ?case
  proof (cases "claim_round S env run rn")
    case (Next rn')
    then obtain f where "drain S env run rn' = Some f" using less assms(2) by blast
    then show ?thesis using Next by (subst drain.simps) simp
  qed (subst drain.simps, simp)+
qed

lemma enforce_ok: "length batch \<le> n \<Longrightarrow> enforce_fetch_protocol batch n = Inr ()"
  by (simp add: enforce_fetch_protocol_def)

lemma fetch_loop_ends:
  assumes "fetch_loop fetch batch_size handle offset remaining rn = Some f" "I rn"
    and "\<And>batch rn f. I rn \<Longrightarrow> batch \<noteq> [] \<Longrightarrow> handle batch rn = Some f \<Longrightarrow> (\<forall>rn'. f = Next rn' \<longrightarrow> I rn') \<and> (\<forall>rn'. f = Halt rn' \<longrightarrow> I rn') \<and> (\<forall>e rn'. f = Fail e rn' \<longrightarrow> J e rn')
        \<and> (\<forall>rn'. f = Next rn' \<or> f = Halt rn' \<longrightarrow> scanned rn' = scanned rn + length batch)"
    and "\<And>e rn. I rn \<Longrightarrow> J e rn"
  shows "(\<exists>rn'. f = Halt rn' \<and> I rn' \<and> scanned rn' \<le> scanned rn + remaining) \<or> (\<exists>e rn'. f = Fail e rn' \<and> J e rn')"
  using assms(1,2)
proof (induction remaining arbitrary: offset rn rule: less_induct)
  case (less remaining)
  note step = less.prems(1)[unfolded fetch_loop.simps[of fetch batch_size handle offset remaining rn]]
  show ?case
  proof (cases "fetch offset (min remaining batch_size)")
    case (Inl e)
    then show ?thesis using step less.prems(2) assms(4) by auto
  next
    case (Inr batch)
    show ?thesis
    proof (cases "length batch \<le> min remaining batch_size \<and> batch \<noteq> []")
      case False
      then have "f = Halt rn \<or> f = Fail Validation rn"
        using step Inr by (cases "min remaining batch_size < length batch") (auto simp: enforce_fetch_protocol_def)
      then show ?thesis using less.prems(2) assms(4)[OF less.prems(2)] by auto
    next
      case True
      then have h: "(case handle batch rn of
           Some (Next rn') \<Rightarrow>
             if remaining - length batch = 0 then Some (Halt rn')
             else fetch_loop fetch batch_size handle (offset + length batch) (remaining - length batch) rn'
         | other \<Rightarrow> other) = Some f"
        using step by (simp only: Inr sum.case enforce_ok if_False)
      then obtain g where g: "handle batch rn = Some g" by (cases "handle batch rn") auto
      note kept = assms(3)[OF less.prems(2) _ g]
      show ?thesis
      proof (cases g)
        case (Next rn')
        then have "I rn'" and sc: "scanned rn' = scanned rn + length batch" using kept True by blast+
        show ?thesis
        proof (cases "remaining - length batch = 0")
          case whole: True
          then show ?thesis using h g Next sc \<open>I rn'\<close> True by auto
        next
          case False
          then have "fetch_loop fetch batch_size handle (offset + length batch) (remaining - length batch) rn' = Some f"
            using h g Next by (simp del: fetch_loop.simps)
          moreover have "remaining - length batch < remaining" using True False by (cases batch) auto
          ultimately have "(\<exists>rn''. f = Halt rn'' \<and> I rn'' \<and> scanned rn'' \<le> scanned rn' + (remaining - length batch))
              \<or> (\<exists>e rn''. f = Fail e rn'' \<and> J e rn'')"
            using less.IH \<open>I rn'\<close> by blast
          then show ?thesis using sc True by auto
        qed
      next
        case (Halt rn')
        then have "f = Halt rn'" "I rn'" "scanned rn' = scanned rn + length batch" using h g kept True by auto
        then show ?thesis using True by auto
      next
        case (Fail e rn')
        then show ?thesis using h g kept True by auto
      qed
    qed
  qed
qed

lemma fetch_loop_total:
  assumes "I rn" "\<And>batch rn. I rn \<Longrightarrow> batch \<noteq> [] \<Longrightarrow> \<exists>f. handle batch rn = Some f \<and> (\<forall>rn'. f = Next rn' \<longrightarrow> I rn')"
  shows "\<exists>f. fetch_loop fetch batch_size handle offset remaining rn = Some f"
  using assms(1)
proof (induction remaining arbitrary: offset rn rule: less_induct)
  case (less remaining)
  show ?case
  proof (cases "\<exists>batch. fetch offset (min remaining batch_size) = Inr batch \<and> length batch \<le> min remaining batch_size \<and> batch \<noteq> []")
    case False
    then show ?thesis
      by (subst fetch_loop.simps) (auto simp: enforce_fetch_protocol_def split: sum.splits)
  next
    case True
    then obtain batch where b: "fetch offset (min remaining batch_size) = Inr batch"
      "length batch \<le> min remaining batch_size" "batch \<noteq> []" by blast
    obtain f where f: "handle batch rn = Some f" "\<And>rn'. f = Next rn' \<Longrightarrow> I rn'"
      using assms(2)[OF less.prems b(3)] by blast
    show ?thesis
    proof (cases f)
      case (Next rn')
      have "remaining - length batch < remaining" if "remaining - length batch \<noteq> 0" using that b(3) by (cases batch) auto
      then have "remaining - length batch \<noteq> 0 \<Longrightarrow>
          \<exists>g. fetch_loop fetch batch_size handle (offset + length batch) (remaining - length batch) rn' = Some g"
        using less.IH f(2)[OF Next] by blast
      then show ?thesis
        using f(1) Next b by (subst fetch_loop.simps) (simp add: enforce_ok[OF b(2)] del: fetch_loop.simps)
    qed (use f(1) b in \<open>subst fetch_loop.simps, simp add: enforce_ok[OF b(2)] del: fetch_loop.simps\<close>)+
  qed
qed

end
