(* ===== verification/Run_Props.thy ===== *)
theory Run_Props
  imports Run_Drain Compat_Props
begin

text \<open>
  The properties of a run: nothing scanned is lost or counted twice, the run is a sequence of steps of the
  kernel, it ends, and a dry run plans what an admission would do.
\<close>

section \<open>A batch\<close>

lemma preflight_passes: "run_compatibility_preflight X V policy domain ctx dry now d = (Inr u, d') \<Longrightarrow> d' = d"
  unfolding run_compatibility_preflight_def
  by (auto simp: Let_def split: if_splits sum.splits prod.splits)

lemma check_first_Inr:
  "check_first S env dry batch rn = (Inr u, rn') \<Longrightarrow> rn_db rn' = rn_db rn \<and> rn_stats rn' = rn_stats rn \<and> rn_queue rn' = rn_queue rn"
  by (auto simp: check_first_def split: if_splits prod.splits dest: preflight_passes)

text \<open>What an error leaves of the store: where kernel steps leave it, plus the review of a refused preflight.\<close>

definition left_by_error :: "ext \<Rightarrow> db \<Rightarrow> kerror \<Rightarrow> db \<Rightarrow> bool" where
  "left_by_error X d0 e d \<longleftrightarrow> later X d0 d \<or>
     e = InvalidConfig \<and> (\<exists>d1 domain. later X d0 d1 \<and> one_conflict_review domain d1 d)"

lemma later_left_by_error: "later X d0 d \<Longrightarrow> left_by_error X d0 e d"
  by (simp add: left_by_error_def)

lemma check_first_Inl:
  assumes "check_first S env dry batch rn = (Inl e, rn')" "later X d0 (rn_db rn)"
  shows "left_by_error X d0 e (rn_db rn')"
proof -
  have "rn_db rn' = rn_db rn \<or> e = InvalidConfig \<and> (\<exists>domain. one_conflict_review domain (rn_db rn) (rn_db rn'))"
    using assms(1) by (auto simp: check_first_def split: if_splits prod.splits dest!: preflight_leaves)
  then show ?thesis using assms(2) unfolding left_by_error_def by metis
qed

lemma real_batch_ok:
  assumes rn: "closed X d0 rn" and d0: "reachable X d0" and X: "si_ext S = X" and env: "honest X env"
    and pol: "policy_validate (ex_policy (si_exec S)) = Inr ()" and r: "real_batch S env run force batch rn = Some f"
  shows "(\<forall>rn'. f = Next rn' \<or> f = Halt rn' \<longrightarrow> closed X d0 rn' \<and> scanned rn' = scanned rn + length batch)
    \<and> (\<forall>e rn'. f = Fail e rn' \<longrightarrow> left_by_error X d0 e (rn_db rn'))"
proof -
  obtain c rn1 where c: "check_first S env False batch (others_first env rn) = (c, rn1)" by fastforce
  show ?thesis
  proof (cases c)
    case (Inl e)
    then show ?thesis using r c check_first_Inl[of S env False batch "others_first env rn" e rn1 X d0] rn others_first_later[OF env]
      by (auto simp: real_batch_def closed_def)
  next
    case (Inr u)
    note same = check_first_Inr[OF c[unfolded Inr]]
    let ?rn = "rn1\<lparr>rn_queue := []\<rparr>"
    obtain q rn2 where sc: "scan_all (scan_one S (quarantine_or S (admit_ready S env force))) batch ?rn = (q, rn2)" by fastforce
    have "run_ok X d0 ?rn" "balanced 0 ?rn" "scanned ?rn = scanned rn"
      using rn same others_first_later[OF env, of d0 rn]
      by (auto simp: run_ok_def closed_def queued_for_def balanced_def scanned_def)
    with scan_all_ok[OF scans_quarantine[OF scans_admit[OF X d0 env pol]] _ _ sc]
    have ok: "later X d0 (rn_db rn2)"
      "q = Inr () \<Longrightarrow> run_ok X d0 rn2 \<and> balanced 0 rn2 \<and> scanned rn2 = scanned rn + length batch" by auto
    show ?thesis
    proof (cases q)
      case (Inl e)
      then show ?thesis using r c sc Inr ok(1) later_left_by_error by (auto simp: real_batch_def)
    next
      case (Inr v)
      let ?n = "scanned rn + length batch"
      let ?I = "\<lambda>rn. turn_ok X d0 rn \<and> scanned rn = ?n"
      have dr: "drain S env run (rn2\<lparr>rn_retry := (\<lambda>_. None)\<rparr>) = Some f"
        using r c sc Inr \<open>c = Inr u\<close> by (simp add: real_batch_def)
      have "?I (rn2\<lparr>rn_retry := (\<lambda>_. None)\<rparr>)"
        using ok(2) Inr by (auto simp: turn_ok_def run_ok_def balanced_def scanned_def)
      from drain_ends[where I = ?I, OF dr this] turn(1)[OF _ d0 X env] obtain rn3 where rn3: "?I rn3"
        "rn_queue rn3 = [] \<and> f = Next rn3 \<or> claim_round S env run rn3 = f \<and> (\<forall>r. f \<noteq> Next r)" by metis
      from rn3(2) show ?thesis
      proof (elim disjE conjE)
        assume "rn_queue rn3 = []" "f = Next rn3"
        then show ?thesis using rn3(1) by (auto simp: closed_def turn_ok_def balanced_def)
      next
        assume cl: "claim_round S env run rn3 = f" and no: "\<forall>r. f \<noteq> Next r"
        then show ?thesis using turn(2,3)[OF conjunct1[OF rn3(1)] d0 X env cl] rn3(1) later_left_by_error by auto
      qed
    qed
  qed
qed

lemma run_real_ok:
  assumes rn: "closed X d0 rn" and d0: "reachable X d0" and X: "si_ext S = X" and env: "honest X env"
    and pol: "policy_validate (ex_policy (si_exec S)) = Inr ()" and r: "run_real S env fetch opts rn = Some f"
  shows "(\<exists>rn'. f = Halt rn' \<and> closed X d0 rn' \<and> scanned rn' \<le> scanned rn + ro_limit opts)
    \<or> (\<exists>e rn'. f = Fail e rn' \<and> left_by_error X d0 e (rn_db rn'))"
proof -
  let ?first = "others_first env rn"
  obtain q d where q: "recover_compile_leases X (tk_now (env (rn_tick rn))) (rn_db ?first) = (q, d)" by fastforce
  have d: "later X d0 d"
    using rn others_first_later[OF env] later.next_step[OF _ kernel_step.recover[OF q]] by (simp add: closed_def)
  show ?thesis
  proof (cases q)
    case (Inl e)
    then show ?thesis using r q X d later_left_by_error by (auto simp: run_real_def Let_def)
  next
    case (Inr u)
    let ?rn = "?first\<lparr>rn_db := d\<rparr>"
    have l: "fetch_loop fetch (ro_batch opts) (real_batch S env (st_run (rn_stats rn)) (ro_force opts)) 0 (ro_limit opts) ?rn = Some f"
      using r q X Inr by (simp add: run_real_def Let_def)
    have c: "closed X d0 ?rn" using rn d by (simp add: closed_def)
    have n: "scanned ?rn = scanned rn" by (simp add: scanned_def)
    have "(\<exists>rn'. f = Halt rn' \<and> closed X d0 rn' \<and> scanned rn' \<le> scanned ?rn + ro_limit opts)
        \<or> (\<exists>e rn'. f = Fail e rn' \<and> left_by_error X d0 e (rn_db rn'))"
    proof (rule fetch_loop_ends[where I = "closed X d0" and J = "\<lambda>e rn. left_by_error X d0 e (rn_db rn)", OF l c])
      fix batch rn1 g
      assume "closed X d0 rn1" "real_batch S env (st_run (rn_stats rn)) (ro_force opts) batch rn1 = Some g"
      from real_batch_ok[OF this(1) d0 X env pol this(2)]
      show "(\<forall>rn'. g = Next rn' \<longrightarrow> closed X d0 rn') \<and> (\<forall>rn'. g = Halt rn' \<longrightarrow> closed X d0 rn')
          \<and> (\<forall>e rn'. g = Fail e rn' \<longrightarrow> left_by_error X d0 e (rn_db rn'))
          \<and> (\<forall>rn'. g = Next rn' \<or> g = Halt rn' \<longrightarrow> scanned rn' = scanned rn1 + length batch)" by blast
    qed (simp add: closed_def later_left_by_error)
    then show ?thesis unfolding n .
  qed
qed

section \<open>Dry runs\<close>

lemma scan_one_db:
  "(\<And>ps rn. rn_db (snd (go ps rn)) = rn_db rn) \<Longrightarrow> rn_db (snd (scan_one S go raw rn)) = rn_db rn"
  by (simp add: scan_one_def Let_def split: sum.split)

lemma scan_all_db:
  "(\<And>raw rn. rn_db (snd (one raw rn)) = rn_db rn) \<Longrightarrow> rn_db (snd (scan_all one raws rn)) = rn_db rn"
proof (induction raws arbitrary: rn)
  case (Cons raw raws)
  obtain q rn1 where q: "one raw rn = (q, rn1)" by fastforce
  then show ?case using Cons.prems[of raw rn] Cons.IH[OF Cons.prems, of rn1] by (cases q) simp_all
qed simp

lemma plan_db: "rn_db (snd (quarantine_or S (plan_one S force) ps rn)) = rn_db rn"
  by (simp add: quarantine_or_def plan_one_def split: sum.split)

lemma check_first_dry: "rn_db (snd (check_first S env True batch rn)) = rn_db rn"
  by (auto simp: check_first_def run_compatibility_preflight_def Let_def split: prod.splits sum.splits if_splits)

definition planned :: "db \<Rightarrow> run_state \<Rightarrow> bool" where
  "planned d0 rn \<longleftrightarrow> rn_db rn = d0 \<and> rn_queue rn = [] \<and> st_scanned (rn_stats rn) = tally (rn_stats rn)"

lemma plan_queue: "rn_queue (snd (quarantine_or S (plan_one S force) ps rn)) = rn_queue rn"
  by (simp add: quarantine_or_def plan_one_def split: sum.split)

lemma scan_plan_queue:
  "rn_queue (snd (scan_all (scan_one S (quarantine_or S (plan_one S force))) raws rn)) = rn_queue rn"
proof (induction raws arbitrary: rn)
  case (Cons raw raws)
  let ?one = "scan_one S (quarantine_or S (plan_one S force))"
  obtain q rn1 where q: "?one raw rn = (q, rn1)" by fastforce
  have "rn_queue (snd (?one raw rn)) = rn_queue rn"
    using plan_queue by (simp add: scan_one_def Let_def split: sum.split)
  then show ?case using q Cons.IH[of rn1] by (cases q) simp_all
qed simp

lemma dry_batch_ok:
  assumes rn: "planned d0 rn" and r: "dry_batch S env force batch rn = Some f"
  shows "(\<forall>rn'. f = Next rn' \<or> f = Halt rn' \<longrightarrow> planned d0 rn' \<and> scanned rn' = scanned rn + length batch)
    \<and> (\<forall>e rn'. f = Fail e rn' \<longrightarrow> rn_db rn' = d0)"
proof -
  obtain c rn1 where c: "check_first S env True batch rn = (c, rn1)" by fastforce
  have d1: "rn_db rn1 = d0" using check_first_dry[of S env batch rn] c rn by (simp add: planned_def)
  show ?thesis
  proof (cases c)
    case (Inl e)
    then show ?thesis using r c d1 by (auto simp: dry_batch_def)
  next
    case (Inr u)
    note same = check_first_Inr[OF c[unfolded Inr]]
    obtain h rn2 where h: "(if rn_checked rn then (Inr (), rn1) else load_hashes S batch rn1) = (h, rn2)" by fastforce
    have rn2: "rn_db rn2 = d0 \<and> rn_stats rn2 = rn_stats rn \<and> rn_queue rn2 = []"
      using h d1 same rn by (auto simp: load_hashes_def planned_def split: if_splits sum.splits)
    obtain q rn3 where q: "scan_all (scan_one S (quarantine_or S (plan_one S force))) batch rn2 = (q, rn3)" by fastforce
    have "run_ok (si_ext S) d0 rn2" "balanced 0 rn2" "scanned rn2 = scanned rn"
      using rn2 rn by (auto simp: run_ok_def planned_def queued_for_def balanced_def scanned_def intro: later.now)
    with scan_all_ok[OF scans_quarantine[OF scans_plan] _ _ q]
    have ok: "q = Inr () \<Longrightarrow> balanced 0 rn3 \<and> scanned rn3 = scanned rn + length batch" by auto
    have d3: "rn_db rn3 = d0" "rn_queue rn3 = []"
      using scan_all_db[of "scan_one S (quarantine_or S (plan_one S force))" batch rn2] scan_one_db[OF plan_db] scan_plan_queue[of S force batch rn2] q rn2 by simp_all
    show ?thesis
      using r c Inr h q ok d3 rn2 by (auto simp: dry_batch_def planned_def balanced_def split: sum.splits)
  qed
qed

lemma run_dry_ok:
  assumes "planned d0 rn" "run_dry S env fetch opts rn = Some f"
  shows "(\<exists>rn'. f = Halt rn' \<and> planned d0 rn' \<and> scanned rn' \<le> scanned rn + ro_limit opts)
    \<or> (\<exists>e rn'. f = Fail e rn' \<and> rn_db rn' = d0)"
proof (rule fetch_loop_ends[where I = "planned d0" and J = "\<lambda>e rn. rn_db rn = d0", OF assms(2)[unfolded run_dry_def] assms(1)])
  fix batch rn1 g
  assume "planned d0 rn1" "dry_batch S env (ro_force opts) batch rn1 = Some g"
  from dry_batch_ok[OF this]
  show "(\<forall>rn'. g = Next rn' \<longrightarrow> planned d0 rn') \<and> (\<forall>rn'. g = Halt rn' \<longrightarrow> planned d0 rn')
      \<and> (\<forall>e rn'. g = Fail e rn' \<longrightarrow> rn_db rn' = d0)
      \<and> (\<forall>rn'. g = Next rn' \<or> g = Halt rn' \<longrightarrow> scanned rn' = scanned rn1 + length batch)" by blast
qed (simp add: planned_def)

section \<open>A small run\<close>

text \<open>A source that delivers the same record twice, with a revision the projection refuses; no other process.\<close>

definition new_token :: "db \<Rightarrow> string" where
  "new_token d = replicate (Suc (sum_list (map (\<lambda>a. length (a_token a)) (db_attempts d)))) CHR ''x''"

definition quiet_env :: "nat \<Rightarrow> tick" where
  "quiet_env k = \<lparr>tk_now = int k, tk_after = int k, tk_done = int k, tk_token = new_token,
     tk_answer = (\<lambda>l. Inr good_page), tk_before = (\<lambda>d. d), tk_others = (\<lambda>d. d)\<rparr>"

definition bad_raw :: raw_entity where "bad_raw = demo_raw\<lparr>raw_revision := 0\<rparr>"

definition twice :: "nat \<Rightarrow> nat \<Rightarrow> raw_entity list result" where
  "twice offset n = Inr (if offset = 0 then [bad_raw, bad_raw] else [])"

definition demo_site :: site where
  "demo_site = \<lparr>si_ext = sample_ext, si_codec = good_codec, si_lower = same_scalar, si_versions = demo_versions,
     si_exec = demo_executor, si_schema = demo_schema, si_context = demo_context\<rparr>"

lemma new_token_fresh: "new_token d \<notin> a_token ` set (db_attempts d)"
proof
  assume "new_token d \<in> a_token ` set (db_attempts d)"
  then obtain a where "a \<in> set (db_attempts d)" "new_token d = a_token a" by auto
  then have "length (new_token d) \<le> sum_list (map (\<lambda>a. length (a_token a)) (db_attempts d))"
    by (auto intro: member_le_sum_list)
  then show False by (simp add: new_token_def)
qed

lemma quiet_calm: "calm (si_ext S) quiet_env"
  by (auto simp: calm_def quiet_env_def new_token_fresh[unfolded image_iff, simplified])

lemma demo_no_matrix: "cpl_compatibility demo_policy = None"
  by (simp add: demo_policy_def compile_policy_default_def)

lemma quiet_first: "others_first quiet_env rn = rn\<lparr>rn_tick := rn_tick rn + 1\<rparr>"
  by (simp add: others_first_def quiet_env_def)

lemma small_run:
  "executor_run demo_site quiet_env twice run_options_default ''run'' empty_db =
     Some (Inr (compile_stats_default\<lparr>st_run := ''run'', st_scanned := 2, st_failed := 1, st_skipped := 1\<rparr>), empty_db)"
proof -
  let ?rn = "start_run (compile_stats_default\<lparr>st_run := ''run''\<rparr>) empty_db"
  have ex: "ex_policy demo_executor = demo_policy" by (simp add: demo_executor_def builtin_def)
  have rec: "recover_compile_leases sample_ext now empty_db = (Inr recovery_stats_default, empty_db)" for now
    by (simp add: recover_compile_leases_def immediate_transaction_def recover_in_transaction_def empty_db_def)
  have prep: "prepare_source sample_ext bad_raw demo_schema demo_policy = Inl Validation"
    using demo_policy_ok by (simp add: prepare_source_def bad_raw_def)
  have pre: "run_compatibility_preflight sample_ext V demo_policy domain ctx dry now d = (Inr (), d)" for V domain ctx dry now d
    by (simp add: run_compatibility_preflight_def demo_no_matrix)
  have batch: "real_batch demo_site quiet_env ''run'' False [bad_raw, bad_raw] (?rn\<lparr>rn_tick := 1\<rparr>) =
      Some (Next (?rn\<lparr>rn_tick := 2, rn_checked := True, rn_seen := [to_key (raw_id bad_raw)],
        rn_stats := compile_stats_default\<lparr>st_run := ''run'', st_scanned := 2, st_failed := 1, st_skipped := 1\<rparr>\<rparr>))"
    by (simp add: real_batch_def quiet_first check_first_def demo_site_def ex pre scan_one_def prep start_run_def Let_def drain.simps
        count_scanned_def count_skipped_def count_failed_def compile_stats_default_def)
  have last: "fetch_loop twice 32 handle (Suc (Suc 0)) n rn = Some (Halt rn)" for handle n rn
    by (subst fetch_loop.simps) (simp add: twice_def enforce_fetch_protocol_def)
  have "run_real demo_site quiet_env twice run_options_default ?rn = Some (Halt (?rn\<lparr>rn_tick := 2, rn_checked := True,
      rn_seen := [to_key (raw_id bad_raw)],
      rn_stats := compile_stats_default\<lparr>st_run := ''run'', st_scanned := 2, st_failed := 1, st_skipped := 1\<rparr>\<rparr>))"
    unfolding run_real_def Let_def quiet_first
    using batch
    by (subst fetch_loop.simps)
      (simp add: demo_site_def rec start_run_def twice_def enforce_fetch_protocol_def run_options_default_def last
        compile_stats_default_def del: fetch_loop.simps)
  then show ?thesis
    by (simp add: executor_run_def ex demo_policy_ok run_options_validate_def run_options_default_def start_run_def
        demo_site_def)
qed

section \<open>Runs\<close>

lemma executor_run_cases:
  assumes r: "executor_run S env fetch opts run d = Some (r, d')" and d: "reachable (si_ext S) d" and env: "honest (si_ext S) env"
  obtains (config) e where "r = Inl e" "d' = d"
  | (dry) "ro_dry opts" "d' = d" "\<And>st. r = Inr st \<Longrightarrow> st_scanned st = tally st \<and> st_scanned st \<le> ro_limit opts"
  | (real_error) e where "\<not> ro_dry opts" "r = Inl e" "left_by_error (si_ext S) d e d'"
  | (real) st where "\<not> ro_dry opts" "r = Inr st" "later (si_ext S) d d'" "st_scanned st = tally st" "st_scanned st \<le> ro_limit opts"
proof (cases "policy_validate (ex_policy (si_exec S)) = Inr () \<and> run_options_validate opts = Inr ()")
  case False
  then show thesis
    using r config by (cases "policy_validate (ex_policy (si_exec S))"; cases "run_options_validate opts")
      (auto simp: executor_run_def)
next
  case True
  let ?st = "compile_stats_default\<lparr>st_run := ''dry-run'', st_dry_run := True\<rparr>"
  let ?st2 = "compile_stats_default\<lparr>st_run := run\<rparr>"
  have zero: "scanned (start_run ?st d) = 0" "scanned (start_run ?st2 d) = 0"
    by (simp_all add: scanned_def start_run_def compile_stats_default_def)
  show thesis
  proof (cases "ro_dry opts")
    case dr: True
    then obtain f where f: "run_dry S env fetch opts (start_run ?st d) = Some f" "run_outcome f = (r, d')"
      using r True by (auto simp: executor_run_def)
    have "planned d (start_run ?st d)" by (simp add: planned_def start_run_def compile_stats_default_def tally_def)
    from run_dry_ok[OF this f(1)] dry[OF dr] f(2) zero show thesis
      by (auto simp: planned_def scanned_def)
  next
    case re: False
    then obtain f where f: "run_real S env fetch opts (start_run ?st2 d) = Some f" "run_outcome f = (r, d')"
      using r True by (auto simp: executor_run_def)
    have "closed (si_ext S) d (start_run ?st2 d)"
      by (simp add: closed_def start_run_def compile_stats_default_def tally_def later.now)
    from run_real_ok[OF this d refl env conjunct1[OF True] f(1)] real[OF re] real_error[OF re] f(2) zero show thesis
      by (auto simp: closed_def scanned_def)
  qed
qed

text \<open>C2. A run that returns statistics has scanned at most its limit of records, and every scanned record is in exactly
  one of the counters: accepted, failed, quarantined, skipped, deferred, or (a dry run's) to be compiled.
  That holds whatever the compiler answers and however the clock runs, from every reachable store, and with other
  processes that change the store by any kernel steps (they admit, claim, renew, publish, fail and recover, but
  decide no reviews) before every transaction of the run, while its compiler works and while it waits; its lease
  tokens are new in the store it claims on. \<close>

theorem run_accounts_for_everything:
  assumes "reachable (si_ext S) d" "honest (si_ext S) env" "executor_run S env fetch opts run d = Some (Inr st, d')"
  shows "st_scanned st = st_accepted st + st_failed st + st_quarantined st + st_skipped st + st_deferred st
      + st_would_compile st \<and> st_scanned st \<le> ro_limit opts"
  using assms(3,1,2)
proof (cases rule: executor_run_cases)
  case dry
  from dry(3)[of st] show ?thesis by (simp add: tally_def)
qed (simp_all add: tally_def)

theorem run_accounts_for_everything_witness:
  "\<exists>st d'. executor_run demo_site quiet_env twice run_options_default ''run'' empty_db = Some (Inr st, d')
     \<and> st_scanned st = 2 \<and> st_accepted st + st_failed st + st_quarantined st + st_skipped st + st_deferred st
      + st_would_compile st = 2"
  using run_accounts_for_everything[OF _ calm_honest[OF quiet_calm] small_run] small_run reachable.start[of "si_ext demo_site"]
  by (intro exI conjI) (assumption, simp_all)

text \<open>C3. A run refines the kernel's step relation, with the same other processes as above: a run that returns statistics
  leaves the store where a sequence of kernel steps leaves it, so every invariant of the kernel holds after it; one
  that ends with an error does so too, but that an invalid-configuration error may have added one pending conflict
  review to such a store, the one of a refused preflight, and nothing else. A dry run writes nothing, and a run whose
  policy or options are invalid is an error that leaves the store as it was. \<close>

theorem run_refines_kernel:
  assumes "reachable (si_ext S) d" "honest (si_ext S) env" "executor_run S env fetch opts run d = Some (r, d')"
  shows "(case r of
      Inr st \<Rightarrow> later (si_ext S) d d' \<and> reachable (si_ext S) d'
    | Inl e \<Rightarrow> later (si_ext S) d d' \<and> reachable (si_ext S) d' \<or>
        e = InvalidConfig \<and> (\<exists>d1 domain. later (si_ext S) d d1 \<and> reachable (si_ext S) d1 \<and> one_conflict_review domain d1 d'))
    \<and> (ro_dry opts \<longrightarrow> d' = d)
    \<and> (policy_validate (ex_policy (si_exec S)) \<noteq> Inr () \<or> run_options_validate opts \<noteq> Inr () \<longrightarrow> (\<exists>e. r = Inl e) \<and> d' = d)"
proof -
  have bad: "policy_validate (ex_policy (si_exec S)) \<noteq> Inr () \<or> run_options_validate opts \<noteq> Inr () \<longrightarrow> (\<exists>e. r = Inl e) \<and> d' = d"
    using assms(3)
    by (cases "policy_validate (ex_policy (si_exec S))"; cases "run_options_validate opts") (auto simp: executor_run_def)
  note reach = reachable_later[OF _ assms(1)]
  have "(case r of
      Inr st \<Rightarrow> later (si_ext S) d d' \<and> reachable (si_ext S) d'
    | Inl e \<Rightarrow> later (si_ext S) d d' \<and> reachable (si_ext S) d' \<or>
        e = InvalidConfig \<and> (\<exists>d1 domain. later (si_ext S) d d1 \<and> reachable (si_ext S) d1 \<and> one_conflict_review domain d1 d'))
    \<and> (ro_dry opts \<longrightarrow> d' = d)"
    using assms(3,1,2)
  proof (cases rule: executor_run_cases)
    case (config e)
    then show ?thesis using assms(1) by (simp add: later.now)
  next
    case dry
    then show ?thesis using assms(1) by (simp add: later.now split: sum.split)
  next
    case (real_error e)
    then show ?thesis using reach unfolding left_by_error_def by auto
  next
    case (real st)
    then show ?thesis using reach by simp
  qed
  with bad show ?thesis by blast
qed

theorem run_refines_kernel_witness:
  "\<exists>st d'. executor_run demo_site quiet_env twice run_options_default ''run'' empty_db = Some (Inr st, d')
     \<and> later (si_ext demo_site) empty_db d' \<and> reachable (si_ext demo_site) d'"
  using run_refines_kernel[OF reachable.start calm_honest[OF quiet_calm] small_run, THEN conjunct1, unfolded sum.case]
    small_run by blast

section \<open>Termination\<close>

lemma drain_ends_calm:
  assumes "turn_ok X d0 rn" "reachable X d0" "si_ext S = X" "calm X env"
  shows "\<exists>f. drain S env run rn = Some f"
  using turn(1)[OF _ assms(2,3) calm_honest[OF assms(4)]] assms(1,4)
  by (intro drain_total[where I = "turn_ok X d0" and m = "fuel X"]) auto

lemma real_batch_total:
  assumes rn: "closed X d0 rn" and d0: "reachable X d0" and X: "si_ext S = X" and env: "calm X env"
    and pol: "policy_validate (ex_policy (si_exec S)) = Inr ()"
  shows "\<exists>f. real_batch S env run force batch rn = Some f"
proof -
  obtain c rn1 where c: "check_first S env False batch (others_first env rn) = (c, rn1)" by fastforce
  show ?thesis
  proof (cases c)
    case (Inr u)
    note same = check_first_Inr[OF c[unfolded Inr]]
    let ?rn = "rn1\<lparr>rn_queue := []\<rparr>"
    obtain q rn2 where sc: "scan_all (scan_one S (quarantine_or S (admit_ready S env force))) batch ?rn = (q, rn2)" by fastforce
    have "run_ok X d0 ?rn" "balanced 0 ?rn"
      using rn same others_first_later[OF calm_honest[OF env], of d0 rn]
      by (auto simp: run_ok_def closed_def queued_for_def balanced_def)
    with scan_all_ok[OF scans_quarantine[OF scans_admit[OF X d0 calm_honest[OF env] pol]] _ _ sc]
    have ok: "q = Inr () \<Longrightarrow> run_ok X d0 rn2 \<and> balanced 0 rn2" by auto
    show ?thesis
    proof (cases q)
      case (Inr v)
      then have "turn_ok X d0 (rn2\<lparr>rn_retry := (\<lambda>_. None)\<rparr>)"
        using ok by (auto simp: turn_ok_def run_ok_def balanced_def)
      from drain_ends_calm[OF this d0 X env] show ?thesis using c sc Inr \<open>c = Inr u\<close> by (simp add: real_batch_def)
    qed (simp add: real_batch_def c sc \<open>c = Inr u\<close>)
  qed (simp add: real_batch_def c)
qed

text \<open>C4. A run ends: with other processes that only claim, renew, publish, fail and recover leases, it returns after
  finitely many steps, for every source, every compiler and every clock. Each turn of the scheduling loop
  finishes a task, uses up one of its retries or recompiles, or waits within its sixty seconds. \<close>

theorem run_terminates:
  assumes "reachable (si_ext S) d" "calm (si_ext S) env"
  shows "\<exists>r d'. executor_run S env fetch opts run d = Some (r, d')"
proof (cases "policy_validate (ex_policy (si_exec S)) = Inr () \<and> run_options_validate opts = Inr ()")
  case False
  then show ?thesis
    by (cases "policy_validate (ex_policy (si_exec S))"; cases "run_options_validate opts") (auto simp: executor_run_def)
next
  case True
  let ?st2 = "compile_stats_default\<lparr>st_run := run\<rparr>"
  let ?rn = "start_run ?st2 d"
  have dry: "\<exists>f. run_dry S env fetch opts rn = Some f" for rn
    unfolding run_dry_def
    by (rule fetch_loop_total[where I = "\<lambda>_. True"])
      (auto simp: dry_batch_def split: prod.splits sum.splits)
  have real: "\<exists>f. run_real S env fetch opts ?rn = Some f"
  proof -
    let ?first = "others_first env ?rn"
    obtain q d1 where q: "recover_compile_leases (si_ext S) (tk_now (env (rn_tick ?rn))) (rn_db ?first) = (q, d1)" by fastforce
    have "later (si_ext S) d (rn_db ?first)"
      by (rule others_first_later[OF calm_honest[OF assms(2)]]) (simp add: start_run_def later.now)
    then have "later (si_ext S) d d1" using kernel_step.recover[OF q] by (rule later.next_step)
    then have "closed (si_ext S) d (?first\<lparr>rn_db := d1\<rparr>)"
      by (simp add: closed_def start_run_def compile_stats_default_def tally_def)
    then have "\<exists>f. fetch_loop fetch (ro_batch opts) (real_batch S env (st_run (rn_stats ?first)) (ro_force opts)) 0 (ro_limit opts)
        (?first\<lparr>rn_db := d1\<rparr>) = Some f"
    proof (rule fetch_loop_total[where I = "closed (si_ext S) d"])
      fix batch rn assume c: "closed (si_ext S) d rn"
      obtain f where "real_batch S env (st_run (rn_stats ?first)) (ro_force opts) batch rn = Some f"
        using real_batch_total[OF c assms(1) refl assms(2) conjunct1[OF True]] by blast
      with real_batch_ok[OF c assms(1) refl calm_honest[OF assms(2)] conjunct1[OF True] this]
      show "\<exists>f. real_batch S env (st_run (rn_stats ?first)) (ro_force opts) batch rn = Some f
          \<and> (\<forall>rn'. f = Next rn' \<longrightarrow> closed (si_ext S) d rn')" by blast
    qed
    then show ?thesis using q by (cases q) (auto simp: run_real_def Let_def)
  qed
  show ?thesis
  proof (cases "ro_dry opts")
    case dr: True
    obtain f where "run_dry S env fetch opts
        (start_run (compile_stats_default\<lparr>st_run := ''dry-run'', st_dry_run := True\<rparr>) d) = Some f" using dry by blast
    then show ?thesis using True dr by (cases "run_outcome f") (auto simp: executor_run_def)
  next
    case re: False
    obtain f where "run_real S env fetch opts ?rn = Some f" using real by blast
    then show ?thesis using True re by (cases "run_outcome f") (auto simp: executor_run_def)
  qed
qed

theorem run_terminates_witness:
  "\<exists>r d'. executor_run demo_site quiet_env twice run_options_default ''run'' demo_published = Some (r, d')"
proof -
  have "reachable (si_ext demo_site) demo_published" using demo_published_reachable by (simp add: demo_site_def)
  from run_terminates[OF this quiet_calm] show ?thesis by blast
qed

end
