(* ===== verification/Reviews.thy ===== *)
theory Reviews
  imports Content_Hash Failure Strings
begin

text \<open>
  The review queue of \<^verbatim>\<open>kernel/feedback_store.rs\<close>: suggestions are inserted once per subject, and a
  reviewer ignores or approves them. Approving a dead letter or a consistency conflict admits the stored
  snapshot of its task again, in the same transaction. The clock of the admission is an argument of its
  own; \<open>chars().count()\<close> counts scalars.
\<close>

section \<open>Rows and inputs\<close>

definition max_domain_chars :: nat where "max_domain_chars = 128"
definition max_review_limit :: nat where "max_review_limit = 1000"
definition max_reviewer_chars :: nat where "max_reviewer_chars = 128"

definition char_count :: "string \<Rightarrow> nat" where "char_count s = length (scalars s)"

record suggestion =
  sg_action :: string
  sg_logs :: string
  sg_subject :: string
  sg_reason :: string
  sg_created :: int

record review_outcome =
  ro_review :: int
  ro_status :: review_status
  ro_task :: "int option"

definition action_of :: "string \<Rightarrow> review_action option" where
  "action_of s =
     (if s = ''supplemental_compile'' then Some SupplementalCompile
      else if s = ''query_template'' then Some QueryTemplate
      else if s = ''ignore'' then Some IgnoreAction
      else if s = ''compile_dead_letter'' then Some CompileDeadLetter
      else if s = ''consistency_conflict'' then Some ConsistencyConflict
      else if s = ''compatibility_conflict'' then Some CompatibilityConflict
      else None)"

definition as_u64 :: "json \<Rightarrow> nat option" where
  "as_u64 v = (case v of JInt n \<Rightarrow> if 0 \<le> n \<and> n < 2 ^ 64 then Some (nat n) else None | _ \<Rightarrow> None)"

definition json_object :: "ext \<Rightarrow> string \<Rightarrow> (string \<times> json) list option" where
  "json_object X s = (case x_parse_json X s of Some (JObj ms) \<Rightarrow> Some ms | _ \<Rightarrow> None)"

section \<open>Subjects\<close>

text \<open>A dead letter's subject is exactly the canonical text of one positive task id.\<close>

definition parse_dead_letter_task_id :: "ext \<Rightarrow> string \<Rightarrow> int result" where
  "parse_dead_letter_task_id X s =
     try_bind (ok_or Validation (json_object X s)) (\<lambda>ms.
     try_bind (ok_or Validation (Option.bind (map_of ms ''task_id'') as_i64)) (\<lambda>n.
     if length ms \<noteq> 1 \<or> n \<le> 0 then Inl Validation
     else if x_json_text X (JObj ms) \<noteq> s then Inl Validation
     else Inr n))"

definition require_subject_str :: "(string \<times> json) list \<Rightarrow> string \<Rightarrow> string result" where
  "require_subject_str ms name =
     (case map_of ms name of Some (JStr s) \<Rightarrow> if s \<noteq> [] then Inr s else Inl Validation | _ \<Rightarrow> Inl Validation)"

definition require_subject_revision :: "(string \<times> json) list \<Rightarrow> nat result" where
  "require_subject_revision ms =
     (case Option.bind (map_of ms ''source_revision'') as_u64 of
        None \<Rightarrow> Inl Validation
      | Some r \<Rightarrow> if r = 0 then Inl Validation else Inr r)"

definition parse_supplemental_subject :: "ext \<Rightarrow> string \<Rightarrow> (raw_entity \<times> stored_deps) result" where
  "parse_supplemental_subject X s =
     try_bind (ok_or Validation (json_object X s)) (\<lambda>ms.
     try_bind (require_subject_str ms ''entity_id'') (\<lambda>entity.
     try_bind (require_subject_revision ms) (\<lambda>revision.
     try_bind (require_subject_str ms ''domain_pack_version'') (\<lambda>pack.
     try_bind (require_subject_str ms ''source_json'') (\<lambda>source.
     try_bind (require_subject_str ms ''dependencies_json'') (\<lambda>dependencies.
     try_bind (ok_or Validation (x_parse_source X source)) (\<lambda>raw.
     try_bind (ok_or Validation (x_parse_deps X dependencies)) (\<lambda>deps.
     if to_key (raw_id raw) \<noteq> entity then Inl Validation
     else if raw_revision raw \<noteq> revision then Inl Validation
     else if cx_pack_version (sd_context deps) \<noteq> pack then Inl Validation
     else Inr (raw, deps)))))))))"

definition supplemental_subject_from_task :: "ext \<Rightarrow> task_row \<Rightarrow> string" where
  "supplemental_subject_from_task X t =
     x_json_text X (JObj [(''dependencies_json'', JStr (t_deps t)), (''domain_pack_version'', JStr (t_pack t)),
       (''entity_id'', JStr (t_entity t)), (''source_json'', JStr (t_source t)), (''source_revision'', JInt (t_revision t))])"

text \<open>\<^verbatim>\<open>schema_from_value\<close>: the derived decoder of a stored schema; unknown members are ignored.\<close>

definition field_type_of :: "json \<Rightarrow> field_type option" where
  "field_type_of v =
     (case v of
        JStr s \<Rightarrow>
          if s = ''numeric'' then Some FtNumeric else if s = ''text'' then Some FtText
          else if s = ''boolean'' then Some FtBoolean else if s = ''reflist'' then Some FtRefList
          else if s = ''timestamp'' then Some FtTimestamp else None
      | _ \<Rightarrow> None)"

definition field_of :: "json \<Rightarrow> field_definition option" where
  "field_of v =
     (case v of
        JObj ms \<Rightarrow>
          (case (Option.bind (map_of ms ''name'') as_str, Option.bind (map_of ms ''field_type'') field_type_of,
                 Option.bind (map_of ms ''filterable'') as_bool) of
             (Some name, Some ty, Some flt) \<Rightarrow> Some \<lparr>fd_name = name, fd_type = ty, fd_filterable = flt\<rparr>
           | _ \<Rightarrow> None)
      | _ \<Rightarrow> None)"

fun fields_of :: "json list \<Rightarrow> field_definition list option" where
  "fields_of [] = Some []"
| "fields_of (v # vs) =
     (case field_of v of None \<Rightarrow> None | Some f \<Rightarrow> map_option (\<lambda>fs. f # fs) (fields_of vs))"

definition schema_from_value :: "json \<Rightarrow> entity_schema result" where
  "schema_from_value v =
     (case v of
        JObj ms \<Rightarrow>
          (case (Option.bind (map_of ms ''entity_type'') as_str, map_of ms ''fields'') of
             (Some ty, Some (JArr vs)) \<Rightarrow>
               (case fields_of vs of None \<Rightarrow> Inl Validation | Some fs \<Rightarrow> Inr \<lparr>es_type = ty, es_fields = fs\<rparr>)
           | _ \<Rightarrow> Inl Validation)
      | _ \<Rightarrow> Inl Validation)"

section \<open>Suggestions\<close>

definition validate_review_suggestion :: "ext \<Rightarrow> string \<Rightarrow> suggestion \<Rightarrow> unit result" where
  "validate_review_suggestion X domain s =
     (if char_count domain = 0 \<or> char_count domain > max_domain_chars then Inl Validation
      else try_bind
        (case action_of (sg_action s) of
           None \<Rightarrow> Inl Validation
         | Some CompileDeadLetter \<Rightarrow> try_bind (parse_dead_letter_task_id X (sg_subject s)) (\<lambda>_. Inr ())
         | Some ConsistencyConflict \<Rightarrow> try_bind (ok_or Validation (json_object X (sg_subject s))) (\<lambda>_. Inr ())
         | Some CompatibilityConflict \<Rightarrow> try_bind (ok_or Validation (json_object X (sg_subject s))) (\<lambda>_. Inr ())
         | Some _ \<Rightarrow> Inr ()) (\<lambda>_.
        if list_ex (\<lambda>text. x_parse_json X text = None) [sg_logs s, sg_subject s, sg_reason s] then Inl Validation else Inr ()))"

fun validate_suggestions :: "ext \<Rightarrow> string \<Rightarrow> suggestion list \<Rightarrow> unit result" where
  "validate_suggestions X domain [] = Inr ()"
| "validate_suggestions X domain (s # ss) =
     try_bind (validate_review_suggestion X domain s) (\<lambda>_. validate_suggestions X domain ss)"

definition insert_review_row :: "review_row \<Rightarrow> db \<Rightarrow> nat \<times> db" where
  "insert_review_row new d =
     (let (rows, n) = sql_insert_ignore review_key new (db_reviews d)
      in (n, d\<lparr>db_reviews := rows, db_review_seq := db_review_seq d + int n\<rparr>))"

definition suggested_row :: "string \<Rightarrow> suggestion \<Rightarrow> review_action \<Rightarrow> int option \<Rightarrow> db \<Rightarrow> review_row" where
  "suggested_row domain s action task d =
     \<lparr>rv_id = db_review_seq d + 1, rv_domain = domain, rv_action = action, rv_status = ReviewPending,
      rv_subject = sg_subject s, rv_reason = sg_reason s, rv_created = sg_created s, rv_task = task,
      rv_logs = sg_logs s, rv_reviewed = None, rv_reviewer = None\<rparr>"

definition insert_suggestion :: "ext \<Rightarrow> string \<Rightarrow> suggestion \<Rightarrow> db \<Rightarrow> (int list \<times> db) result" where
  "insert_suggestion X domain s d =
     try_bind (ok_or Validation (action_of (sg_action s))) (\<lambda>action.
     try_bind (if action = CompileDeadLetter
               then try_bind (parse_dead_letter_task_id X (sg_subject s)) (\<lambda>i.
                      if find_task_id i d = None then Inl Validation else Inr (Some i))
               else Inr None) (\<lambda>task.
     case insert_review_row (suggested_row domain s action task d) d of
       (n, d') \<Rightarrow> Inr (if n = 1 then [db_review_seq d + 1] else [], d')))"

fun insert_suggestions :: "ext \<Rightarrow> string \<Rightarrow> suggestion list \<Rightarrow> db \<Rightarrow> (int list \<times> db) result" where
  "insert_suggestions X domain [] d = Inr ([], d)"
| "insert_suggestions X domain (s # ss) d =
     try_bind (insert_suggestion X domain s d) (\<lambda>(new, d1).
     try_bind (insert_suggestions X domain ss d1) (\<lambda>(news, d2). Inr (new @ news, d2)))"

definition insert_review_suggestions :: "ext \<Rightarrow> string \<Rightarrow> suggestion list \<Rightarrow> db \<Rightarrow> int list result \<times> db" where
  "insert_review_suggestions X domain ss d =
     (case validate_suggestions X domain ss of
        Inl e \<Rightarrow> (Inl e, d)
      | Inr _ \<Rightarrow> if ss = [] then (Inr [], d) else immediate_transaction (insert_suggestions X domain ss) d)"

section \<open>Reading\<close>

definition list_reviews :: "string \<Rightarrow> review_status option \<Rightarrow> nat \<Rightarrow> db \<Rightarrow> review_row list result" where
  "list_reviews domain status limit d =
     (if limit = 0 then Inl Validation
      else if limit > max_review_limit then Inl Validation
      else Inr (take limit (sort_key (\<lambda>r. (rv_created r, rv_id r))
             (filter (\<lambda>r. rv_domain r = domain \<and> (case status of None \<Rightarrow> True | Some s \<Rightarrow> rv_status r = s)) (db_reviews d)))))"

definition count_pending_reviews :: "db \<Rightarrow> nat" where
  "count_pending_reviews d = sql_count (\<lambda>r. rv_status r = ReviewPending) (db_reviews d)"

section \<open>Re-admission\<close>

definition task_entity_domain :: "string \<Rightarrow> string result" where
  "task_entity_domain entity = try_bind (from_key entity) (\<lambda>e. Inr (eid_domain e))"

definition load_task_snapshot :: "int \<Rightarrow> db \<Rightarrow> task_row result" where
  "load_task_snapshot i d = ok_or Validation (find_task_id i d)"

text \<open>The head must still be at the task's snapshot.\<close>

definition guard_head_matches_task :: "task_row \<Rightarrow> db \<Rightarrow> unit result" where
  "guard_head_matches_task t d =
     (case sql_first (\<lambda>h. h_entity h = t_entity t) (db_heads d) of
        None \<Rightarrow> Inl Validation
      | Some h \<Rightarrow> if h_revision h \<noteq> t_revision t then Inl Validation
                  else if h_snapshot h \<noteq> t_snapshot t then Inl Validation
                  else Inr ())"

text \<open>What was admitted, from the task's own columns: the stored knowledge stands for the full source, with no facts.\<close>

definition rebuild_prepared_from_task :: "ext \<Rightarrow> task_row \<Rightarrow> (prepared_source \<times> stored_deps \<times> entity_schema) result" where
  "rebuild_prepared_from_task X t =
     (if t_revision t \<le> 0 then Inl Internal
      else try_bind (ok_or Validation (x_parse_source X (t_source t))) (\<lambda>knowledge.
           try_bind (ok_or Validation (x_parse_deps X (t_deps t))) (\<lambda>deps.
           try_bind (schema_from_value (sd_schema deps)) (\<lambda>schema.
           if to_key (raw_id knowledge) \<noteq> t_entity t then Inl Validation
           else if int (raw_revision knowledge) \<noteq> t_revision t then Inl Validation
           else if cx_pack_version (sd_context deps) \<noteq> t_pack t then Inl Validation
           else try_bind (from_key (t_entity t)) (\<lambda>entity.
             Inr (\<lparr>ps_full = knowledge, ps_knowledge = knowledge,
                    ps_facts = \<lparr>fs_entity = entity, fs_fields = [], fs_revision = nat (t_revision t)\<rparr>,
                    ps_snapshot = t_snapshot t\<rparr>, deps, schema))))))"

text \<open>The stored snapshot admitted again, which must queue that very task.\<close>

definition readmit :: "ext \<Rightarrow> task_row \<Rightarrow> int \<Rightarrow> db \<Rightarrow> (int \<times> db) result" where
  "readmit X t clock d =
     try_bind (guard_head_matches_task t d) (\<lambda>_.
     try_bind (rebuild_prepared_from_task X t) (\<lambda>(prepared, deps, schema).
     try_bind (admit_compile_on_conn X prepared (sd_context deps) (sd_policy deps) schema True clock d) (\<lambda>(admission, d1).
     if admission = Queued (t_id t) then Inr (t_id t, d1) else Inl Validation)))"

section \<open>Decisions\<close>

definition review_set :: "review_status \<Rightarrow> int \<Rightarrow> string \<Rightarrow> int option \<Rightarrow> review_row \<Rightarrow> review_row" where
  "review_set status now reviewer task r =
     r\<lparr>rv_status := status, rv_reviewed := Some now, rv_reviewer := Some reviewer,
       rv_task := (case task of None \<Rightarrow> rv_task r | Some i \<Rightarrow> Some i)\<rparr>"

definition decide_review ::
  "kerror \<Rightarrow> int \<Rightarrow> review_status \<Rightarrow> int \<Rightarrow> string \<Rightarrow> int option \<Rightarrow> db \<Rightarrow> db result" where
  "decide_review err i status now reviewer task d =
     (let P = (\<lambda>r. rv_id r = i \<and> rv_status r = ReviewPending)
      in if sql_count P (db_reviews d) = 1
         then Inr (d\<lparr>db_reviews := sql_update P (review_set status now reviewer task) (db_reviews d)\<rparr>)
         else Inl err)"

definition validate_reviewer :: "string \<Rightarrow> unit result" where
  "validate_reviewer reviewer =
     (if char_count reviewer = 0 \<or> char_count reviewer > max_reviewer_chars then Inl Validation else Inr ())"

definition find_review :: "int \<Rightarrow> db \<Rightarrow> review_row option" where
  "find_review i d = sql_first (\<lambda>r. rv_id r = i) (db_reviews d)"

definition approved :: "int \<Rightarrow> int option \<Rightarrow> review_outcome" where
  "approved i task = \<lparr>ro_review = i, ro_status = ReviewApproved, ro_task = task\<rparr>"

definition approve_supplemental ::
  "ext \<Rightarrow> review_row \<Rightarrow> string \<Rightarrow> int \<Rightarrow> int \<Rightarrow> db \<Rightarrow> (review_outcome \<times> db) result" where
  "approve_supplemental X r reviewer now clock d =
     try_bind (parse_supplemental_subject X (rv_subject r)) (\<lambda>(raw, deps).
     if eid_domain (raw_id raw) \<noteq> rv_domain r then Inl Validation
     else try_bind (schema_from_value (sd_schema deps)) (\<lambda>schema.
          try_bind (prepare_source X raw schema (sd_policy deps)) (\<lambda>prepared.
          try_bind (admit_compile_on_conn X prepared (sd_context deps) (sd_policy deps) schema False clock d) (\<lambda>(admission, d1).
          case admission of
            Queued task \<Rightarrow>
              try_bind (decide_review Internal (rv_id r) ReviewApproved now reviewer (Some task) d1) (\<lambda>d2.
              Inr (approved (rv_id r) (Some task), d2))
          | _ \<Rightarrow> Inl Validation))))"

definition approve_dead_letter ::
  "ext \<Rightarrow> review_row \<Rightarrow> string \<Rightarrow> int \<Rightarrow> int \<Rightarrow> db \<Rightarrow> (review_outcome \<times> db) result" where
  "approve_dead_letter X r reviewer now clock d =
     try_bind (parse_dead_letter_task_id X (rv_subject r)) (\<lambda>i.
     try_bind (load_task_snapshot i d) (\<lambda>t.
     if t_status t \<noteq> Dead then Inl Validation
     else try_bind (task_entity_domain (t_entity t)) (\<lambda>domain.
          if domain \<noteq> rv_domain r then Inl Validation
          else try_bind (readmit X t clock d) (\<lambda>(task, d1).
               try_bind (decide_review Internal (rv_id r) ReviewApproved now reviewer (Some task) d1) (\<lambda>d2.
               Inr (approved (rv_id r) (Some task), d2))))))"

text \<open>A conflict becomes a supplemental compilation: the converted review is inserted, or found, and approved.\<close>

definition converted_row :: "review_row \<Rightarrow> string \<Rightarrow> int \<Rightarrow> int \<Rightarrow> db \<Rightarrow> review_row" where
  "converted_row r subject task now d =
     \<lparr>rv_id = db_review_seq d + 1, rv_domain = rv_domain r, rv_action = SupplementalCompile,
      rv_status = ReviewPending, rv_subject = subject, rv_reason = rv_reason r, rv_created = now,
      rv_task = Some task, rv_logs = ''[]'', rv_reviewed = None, rv_reviewer = None\<rparr>"

definition convert_review :: "review_row \<Rightarrow> string \<Rightarrow> int \<Rightarrow> int \<Rightarrow> db \<Rightarrow> (int \<times> db) result" where
  "convert_review r subject task now d =
     (case insert_review_row (converted_row r subject task now d) d of
        (n, d1) \<Rightarrow>
          if n = 1 then Inr (db_review_seq d1, d1)
          else try_bind (ok_or Database (sql_first (\<lambda>q. review_key q = (rv_domain r, SupplementalCompile, subject)) (db_reviews d1)))
                 (\<lambda>q. Inr (rv_id q, d1)))"

definition approve_consistency ::
  "ext \<Rightarrow> review_row \<Rightarrow> string \<Rightarrow> int \<Rightarrow> int \<Rightarrow> db \<Rightarrow> (review_outcome \<times> db) result" where
  "approve_consistency X r reviewer now clock d =
     try_bind (parse_dead_letter_task_id X (rv_subject r)) (\<lambda>i.
     try_bind (load_task_snapshot i d) (\<lambda>t.
     try_bind (task_entity_domain (t_entity t)) (\<lambda>domain.
     if domain \<noteq> rv_domain r then Inl Validation
     else let subject = supplemental_subject_from_task X t
          in try_bind (parse_supplemental_subject X subject) (\<lambda>_.
             try_bind (readmit X t clock d) (\<lambda>(task, d1).
             try_bind (convert_review r subject task now d1) (\<lambda>(converted, d2).
             try_bind (decide_review Validation converted ReviewApproved now reviewer (Some task) d2) (\<lambda>d3.
             try_bind (decide_review Internal (rv_id r) ReviewApproved now reviewer (Some task) d3) (\<lambda>d4.
             Inr (approved (rv_id r) (Some task), d4)))))))))"

definition approve_only :: "review_row \<Rightarrow> string \<Rightarrow> int \<Rightarrow> db \<Rightarrow> (review_outcome \<times> db) result" where
  "approve_only r reviewer now d =
     try_bind (decide_review Internal (rv_id r) ReviewApproved now reviewer None d) (\<lambda>d1. Inr (approved (rv_id r) None, d1))"

definition approve_in_transaction ::
  "ext \<Rightarrow> int \<Rightarrow> string \<Rightarrow> int \<Rightarrow> int \<Rightarrow> db \<Rightarrow> (review_outcome \<times> db) result" where
  "approve_in_transaction X i reviewer now clock d =
     (case find_review i d of
        None \<Rightarrow> Inl Validation
      | Some r \<Rightarrow>
          if rv_status r \<noteq> ReviewPending then Inl Validation
          else (case rv_action r of
            SupplementalCompile \<Rightarrow> approve_supplemental X r reviewer now clock d
          | QueryTemplate \<Rightarrow> approve_only r reviewer now d
          | CompileDeadLetter \<Rightarrow> approve_dead_letter X r reviewer now clock d
          | ConsistencyConflict \<Rightarrow> approve_consistency X r reviewer now clock d
          | CompatibilityConflict \<Rightarrow> approve_only r reviewer now d
          | IgnoreAction \<Rightarrow> Inl Validation))"

definition approve_review :: "ext \<Rightarrow> int \<Rightarrow> string \<Rightarrow> int \<Rightarrow> int \<Rightarrow> db \<Rightarrow> review_outcome result \<times> db" where
  "approve_review X i reviewer now clock d =
     (case validate_reviewer reviewer of
        Inl e \<Rightarrow> (Inl e, d)
      | Inr _ \<Rightarrow> immediate_transaction (approve_in_transaction X i reviewer now clock) d)"

definition ignore_in_transaction :: "int \<Rightarrow> string \<Rightarrow> int \<Rightarrow> db \<Rightarrow> (unit \<times> db) result" where
  "ignore_in_transaction i reviewer now d =
     (case find_review i d of
        None \<Rightarrow> Inl Validation
      | Some r \<Rightarrow>
          if rv_status r \<noteq> ReviewPending then Inl Validation
          else try_bind (decide_review Internal i ReviewIgnored now reviewer None d) (\<lambda>d1. Inr ((), d1)))"

definition ignore_review :: "int \<Rightarrow> string \<Rightarrow> int \<Rightarrow> db \<Rightarrow> unit result \<times> db" where
  "ignore_review i reviewer now d =
     (case validate_reviewer reviewer of
        Inl e \<Rightarrow> (Inl e, d)
      | Inr _ \<Rightarrow> immediate_transaction (ignore_in_transaction i reviewer now) d)"

end
