(* ===== verification/Review_Inv.thy ===== *)
theory Review_Inv
  imports Reviews Kernel_Calls
begin

text \<open>
  The review table under every step of the kernel and every decision: ids and subjects stay unique and below
  the table's sequence, the kernel only appends rows, and no step ever touches a decided row. Two relations
  between stores carry this, \<open>grown\<close> for the kernel and \<open>decided_kept\<close> for the decisions.
\<close>

section \<open>The invariant\<close>

definition reviews_ok :: "db \<Rightarrow> bool" where
  "reviews_ok d \<longleftrightarrow> keyed rv_id (db_reviews d) \<and> keyed review_key (db_reviews d)
     \<and> (\<forall>r\<in>set (db_reviews d). rv_id r \<le> db_review_seq d)"

lemma reviews_ok_empty: "reviews_ok empty_db" by (simp add: reviews_ok_def empty_db_def keyed_def)

lemma reviews_ok_same:
  "db_reviews d' = db_reviews d \<Longrightarrow> db_review_seq d' = db_review_seq d \<Longrightarrow> reviews_ok d \<Longrightarrow> reviews_ok d'"
  by (simp add: reviews_ok_def)

lemma find_review_ok: "reviews_ok d \<Longrightarrow> find_review i d = Some r \<longleftrightarrow> r \<in> set (db_reviews d) \<and> rv_id r = i"
  by (auto simp: reviews_ok_def find_review_def dest: sql_first_SomeD intro: sql_first_keyed)

lemma reviews_ok_snoc:
  assumes "reviews_ok d" "rv_id r = db_review_seq d + 1" "\<not> sql_exists (\<lambda>q. review_key q = review_key r) (db_reviews d)"
    "db_reviews d' = db_reviews d @ [r]" "db_review_seq d' = db_review_seq d + 1"
  shows "reviews_ok d'"
proof -
  have "\<forall>q\<in>set (db_reviews d). rv_id q \<noteq> rv_id r" using assms(1,2) by (auto simp: reviews_ok_def)
  then show ?thesis using assms by (auto simp: reviews_ok_def sql_exists_iff intro: keyed_snoc)
qed

section \<open>Appending\<close>

definition grown :: "db \<Rightarrow> db \<Rightarrow> bool" where
  "grown d d' \<longleftrightarrow> reviews_ok d \<longrightarrow> reviews_ok d' \<and> (\<exists>new. db_reviews d' = db_reviews d @ new)"

lemma grown_same: "db_reviews d' = db_reviews d \<Longrightarrow> db_review_seq d' = db_review_seq d \<Longrightarrow> grown d d'"
  by (simp add: grown_def reviews_ok_def)

lemma grown_refl [simp]: "grown d d" by (rule grown_same) simp_all

lemma grown_trans: "grown a b \<Longrightarrow> grown b c \<Longrightarrow> grown a c" by (force simp: grown_def)

lemma grown_insert: "insert_review_row new d = (n, d') \<Longrightarrow> rv_id new = db_review_seq d + 1 \<Longrightarrow> grown d d'"
  by (auto simp: grown_def insert_review_row_def sql_insert_ignore_def Let_def split: if_splits intro: reviews_ok_snoc)

lemma grown_review:
  assumes "insert_review dm ac su re ta now d = Inr (n, d')"
  shows "grown d d'"
proof -
  let ?new = "\<lparr>rv_id = db_review_seq d + 1, rv_domain = dm, rv_action = ac, rv_status = ReviewPending, rv_subject = su,
    rv_reason = re, rv_created = now, rv_task = ta, rv_logs = ''[]'', rv_reviewed = None, rv_reviewer = None\<rparr>"
  have "insert_review_row ?new d = (n, d')"
    using assms by (auto simp: insert_review_def insert_review_row_def Let_def split: if_splits prod.splits)
  then show ?thesis by (rule grown_insert) simp
qed

lemma grown_update_tasks [simp]: "grown d (update_tasks P f d)"
  by (rule grown_same) (simp_all add: update_tasks_def)

lemma grown_dead_letter: "dead_letter_for X task epoch no code entity desired now d = Inr (n, d') \<Longrightarrow> grown d d'"
  by (auto simp: dead_letter_for_def enqueue_dead_letter_def dest: grown_review)

lemma grown_quarantine_reviews: "quarantine_reviews X t l code conflict now d = Inr d' \<Longrightarrow> grown d d'"
  by (auto simp: quarantine_reviews_def enqueue_dead_letter_def split: if_splits intro: grown_trans dest!: grown_review)

section \<open>The operations of the kernel\<close>

lemma grown_admit:
  assumes "admit_compile_on_conn X ps ctx policy schema force now d = Inr (r, d')"
  shows "db_reviews d' = db_reviews d" "db_review_seq d' = db_review_seq d"
proof -
  have "db_reviews d' = db_reviews d \<and> db_review_seq d' = db_review_seq d"
    using assms
  proof (cases rule: admit_compile_cases)
    case (job d1 j)
    have "db_reviews d1 = db_reviews d \<and> db_review_seq d1 = db_review_seq d"
      using job(1) unfolding facts_only_def by (cases d; cases d1) simp
    moreover have "db_reviews d' = db_reviews d1 \<and> db_review_seq d' = db_review_seq d1"
      using job(2)
      by (auto simp: admit_job_on_def admit_task_def record_skipped_task_def upsert_source_head_def insert_task_def
          update_tasks_def Let_def split: option.splits if_splits prod.splits)
    ultimately show ?thesis by simp
  qed simp
  then show "db_reviews d' = db_reviews d" "db_review_seq d' = db_review_seq d" by auto
qed

lemma grown_claim: "claim_in_transaction X ids run token now d = Inr (r, d') \<Longrightarrow> grown d d'"
  by (rule grown_same)
    (auto simp: claim_in_transaction_def grant_lease_def insert_attempt_def Let_def open_run_def open_day_def
      reserve_tokens_def update_tasks_def split: option.splits if_splits)

lemma grown_finish:
  "update_one_attempt l g d = Inr d1 \<Longrightarrow> update_leased_task l f d1 = Inr d2 \<Longrightarrow> grown d d2"
  by (rule grown_same) (auto simp: update_one_attempt_Ok update_leased_task_Ok update_tasks_def)

lemma grown_publish:
  assumes "publish_in_transaction X l page report c now d = Inr (r, d')"
  shows "grown d d'"
  using assms
proof (cases rule: publish_cases)
  case (live t)
  then obtain artifact deps fm g d1 cj d2 where
    w: "write_page_tables X page report c deps fm (t_revision t) now d = Inr (g, d1)"
    and a: "update_one_attempt l (accept_attempt_set artifact (x_report_text X report) cj now)
              (publish_generation g d1) = Inr d2"
    and u: "update_leased_task l (accept_task_set now) d2 = Inr d'"
    by (auto simp: publish_live_def)
  have "db_reviews d1 = db_reviews d \<and> db_review_seq d1 = db_review_seq d"
    using w by (auto simp: write_page_tables_def open_generation_def Let_def ensure_generation_sentinel_def
        write_page_def write_sections_def write_quality_def write_edges_def split: if_splits)
  then have "grown d (publish_generation g d1)" by (intro grown_same) (simp_all add: publish_generation_def)
  then show ?thesis using grown_finish[OF a u] by (rule grown_trans)
qed simp_all

lemma grown_failure:
  assumes "finish_failure_in_transaction X l failure cand report c now d = Inr (r, d')"
  shows "grown d d'"
  using assms
proof (cases rule: failure_cases)
  case (live t deps)
  then show ?thesis
    by (cases failure)
      (auto simp: fail_invalid_def fail_retryable_def fail_permanent_def Let_def split: if_splits
        intro: grown_finish grown_trans[OF grown_finish grown_quarantine_reviews] grown_trans[OF grown_finish grown_dead_letter])
qed simp

lemma grown_recover_loop: "recover_loop X now ts (s, d) = Inr (s', d') \<Longrightarrow> grown d d'"
proof (induction ts arbitrary: s d)
  case (Cons t ts)
  then obtain s1 d1 where 1: "recover_one X now t (s, d) = Inr (s1, d1)"
    and 2: "recover_loop X now ts (s1, d1) = Inr (s', d')" by auto
  have ab: "grown d (update_tasks P f (abandon_attempt t now d))" for P f
    by (rule grown_same) (simp_all add: abandon_attempt_def update_tasks_def)
  have "grown d d1"
    using 1 by (auto simp: recover_one_def Let_def split: if_splits
        intro: ab grown_trans[OF ab grown_dead_letter])
  then show ?case using Cons.IH[OF 2] by (rule grown_trans)
qed simp

lemma grown_recover: "recover_in_transaction X now d = Inr (s, d') \<Longrightarrow> grown d d'"
  by (auto simp: recover_in_transaction_def Let_def split: if_splits intro: grown_recover_loop)

lemma grown_preflight: "quarantine_preflight_in_transaction task epoch token code now d = Inr (r, d') \<Longrightarrow> grown d d'"
  by (rule grown_same)
    (auto simp: quarantine_preflight_in_transaction_def Let_def update_tasks_def split: if_splits prod.splits)

lemma grown_transaction:
  assumes "immediate_transaction f d = (r, d')" "\<And>a. f d = Inr (a, d') \<Longrightarrow> grown d d'"
  shows "grown d d'"
  using assms(1) by (cases rule: immediate_transaction_cases) (use assms in auto)

lemma grown_step:
  assumes "kernel_step X d d'"
  shows "grown d d'"
  using assms
proof (cases rule: kernel_step_cases)
  case (admit policy ps ctx schema force now r)
  then show ?thesis unfolding admit_compile_def by (elim grown_transaction) (auto intro: grown_same dest: grown_admit)
next
  case (claim token ids run now r)
  then show ?thesis
    unfolding claim_compile_def by (auto split: if_splits elim!: grown_transaction intro: grown_claim)
next
  case (heartbeat l now b)
  then show ?thesis by (auto simp: heartbeat_compile_def Let_def)
next
  case (publish page l report c now r)
  then show ?thesis unfolding publish_compile_def by (elim grown_transaction) (auto intro: grown_publish)
next
  case (failure l failure cand report c now r)
  then show ?thesis unfolding finish_compile_failure_def by (elim grown_transaction) (auto intro: grown_failure)
next
  case (recover now r)
  then show ?thesis unfolding recover_compile_leases_def by (elim grown_transaction) (auto intro: grown_recover)
next
  case (preflight token task epoch code now r)
  then show ?thesis unfolding quarantine_compile_preflight_def by (elim grown_transaction) (auto intro: grown_preflight)
qed

lemma grown_later: "later X d d' \<Longrightarrow> grown d d'"
  by (induction rule: later.induct) (auto intro: grown_trans grown_step)

interpretation reviews: kernel_invariant X reviews_ok for X
  by unfold_locales (auto intro: reviews_ok_empty dest: grown_step simp: grown_def)

end
