(* ===== verification/Review_Props.thy ===== *)
theory Review_Props
  imports Review_Inv
begin

text \<open>
  What deciding a review does: a decision is final, an approved dead letter queues its task in a new epoch, a
  repeated suggestion adds nothing; and what the uniqueness of a subject costs when a task dies again.
\<close>

section \<open>Schemas\<close>

lemma field_of_json [simp]: "field_of (field_json f) = Some f"
  by (cases f; cases "fd_type f")
    (simp_all add: field_of_def field_json_def field_type_text_def field_type_of_def as_str_def as_bool_def)

lemma fields_of_json [simp]: "fields_of (map field_json fs) = Some fs"
  by (induction fs) simp_all

lemma schema_from_to [simp]: "schema_from_value (schema_to_value s) = Inr s"
  by (cases s) (simp add: schema_from_value_def schema_to_value_def as_str_def)

section \<open>Decided rows\<close>

text \<open>Decided rows stay as they are.\<close>

definition decided_kept :: "db \<Rightarrow> db \<Rightarrow> bool" where
  "decided_kept d d' \<longleftrightarrow> (\<forall>r\<in>set (db_reviews d). rv_status r \<noteq> ReviewPending \<longrightarrow> r \<in> set (db_reviews d'))"

lemma decided_refl [simp]: "decided_kept d d" by (simp add: decided_kept_def)

lemma decided_trans: "decided_kept a b \<Longrightarrow> decided_kept b c \<Longrightarrow> decided_kept a c" by (auto simp: decided_kept_def)

lemma decided_same: "db_reviews d' = db_reviews d \<Longrightarrow> decided_kept d d'" by (simp add: decided_kept_def)

lemma decided_decide: "decide_review e i st now reviewer task d = Inr d' \<Longrightarrow> decided_kept d d'"
  by (force simp: decide_review_def Let_def decided_kept_def sql_update_def split: if_splits)

lemma decided_insert: "insert_review_row new d = (n, d') \<Longrightarrow> decided_kept d d'"
  by (auto simp: insert_review_row_def Let_def decided_kept_def sql_insert_ignore_def split: if_splits)

lemma decided_convert: "convert_review r subject task now d = Inr (c, d') \<Longrightarrow> decided_kept d d'"
  using decided_insert[of "converted_row r subject task now d" d]
  by (auto simp: convert_review_def split: prod.splits if_splits)

lemma readmit_reviews: "readmit X t clock d = Inr (i, d') \<Longrightarrow> db_reviews d' = db_reviews d"
  by (auto simp: readmit_def split: if_splits dest: grown_admit(1))

lemma queued_only:
  "(case adm of Queued task \<Rightarrow> f task | _ \<Rightarrow> Inl e) = Inr y \<longleftrightarrow> (\<exists>task. adm = Queued task \<and> f task = Inr y)"
  by (cases adm) simp_all

lemma decided_approve:
  assumes "approve_in_transaction X i reviewer now clock d = Inr (out, d')"
  shows "decided_kept d d'"
proof -
  obtain r where r: "find_review i d = Some r" "rv_status r = ReviewPending"
    using assms by (auto simp: approve_in_transaction_def split: option.splits if_splits)
  note run = assms[unfolded approve_in_transaction_def r option.case]
  show ?thesis
  proof (cases "rv_action r")
    case SupplementalCompile
    then obtain prepared ctx policy schema task d1 where "admit_compile_on_conn X prepared ctx policy schema False clock d = Inr (Queued task, d1)"
      and "decide_review Internal (rv_id r) ReviewApproved now reviewer (Some task) d1 = Inr d'"
      using run r(2) by (auto simp: approve_supplemental_def queued_only split: if_splits)
    then show ?thesis by (blast intro: decided_trans decided_same decided_decide dest: grown_admit(1))
  next
    case CompileDeadLetter
    then obtain t task d1 where "readmit X t clock d = Inr (task, d1)"
      "decide_review Internal (rv_id r) ReviewApproved now reviewer (Some task) d1 = Inr d'"
      using run r(2) by (auto simp: approve_dead_letter_def split: if_splits)
    then show ?thesis by (blast intro: decided_trans decided_same readmit_reviews decided_decide)
  next
    case ConsistencyConflict
    then obtain t task d1 c d2 d3 where s: "readmit X t clock d = Inr (task, d1)"
      "convert_review r (supplemental_subject_from_task X t) task now d1 = Inr (c, d2)"
      "decide_review Validation c ReviewApproved now reviewer (Some task) d2 = Inr d3"
      "decide_review Internal (rv_id r) ReviewApproved now reviewer (Some task) d3 = Inr d'"
      using run r(2) by (auto simp: approve_consistency_def Let_def split: if_splits)
    show ?thesis
      using decided_same[OF readmit_reviews[OF s(1)]] decided_convert[OF s(2)] decided_decide[OF s(3)] decided_decide[OF s(4)]
      by (blast intro: decided_trans)
  next
    case QueryTemplate
    then show ?thesis using run r(2) by (auto simp: approve_only_def intro: decided_decide)
  next
    case CompatibilityConflict
    then show ?thesis using run r(2) by (auto simp: approve_only_def intro: decided_decide)
  next
    case IgnoreAction
    then show ?thesis using run r(2) by simp
  qed
qed

lemma decided_suggestions: "insert_suggestions X domain ss d = Inr (new, d') \<Longrightarrow> decided_kept d d'"
proof (induction ss arbitrary: d new)
  case (Cons s ss)
  obtain n1 d1 n2 where 1: "insert_suggestion X domain s d = Inr (n1, d1)" and 2: "insert_suggestions X domain ss d1 = Inr (n2, d')"
    using Cons.prems by auto
  obtain action task where "(case insert_review_row (suggested_row domain s action task d) d of
       (n, d') \<Rightarrow> Inr (if n = 1 then [db_review_seq d + 1] else [], d')) = (Inr (n1, d1) :: (int list \<times> db) result)"
    using 1 by (auto simp: insert_suggestion_def)
  then have "decided_kept d d1"
    by (cases "insert_review_row (suggested_row domain s action task d) d") (simp add: decided_insert)
  then show ?case using Cons.IH[OF 2] by (rule decided_trans)
qed simp

section \<open>An approved dead letter\<close>

lemma readmit_effect:
  assumes ok: "queue_ok d" and t: "t \<in> set (db_tasks d)" and r: "readmit X t clock d = Inr (i, d')"
  obtains j where "i = t_id t" "job_key j = task_key t" "j_snapshot j = t_snapshot t"
    "d' = upsert_source_head j (t_id t) (t_epoch t + 1) (update_tasks (\<lambda>r. t_id r = t_id t) (requeue_set j) d)"
proof -
  from r obtain p deps schema where g: "guard_head_matches_task t d = Inr ()"
    and p: "rebuild_prepared_from_task X t = Inr (p, deps, schema)"
    and a: "admit_compile_on_conn X p (sd_context deps) (sd_policy deps) schema True clock d = Inr (Queued (t_id t), d')"
    and i: "i = t_id t"
    by (auto simp: readmit_def split: if_splits)
  obtain h where h: "sql_first (\<lambda>h. h_entity h = t_entity t) (db_heads d) = Some h" "h_revision h = t_revision t"
    "h_snapshot h = t_snapshot t"
    using g by (auto simp: guard_head_matches_task_def split: option.splits if_splits)
  have p: "to_key (raw_id (ps_full p)) = t_entity t" "int (raw_revision (ps_full p)) = t_revision t"
    "cx_pack_version (sd_context deps) = t_pack t" "ps_snapshot p = t_snapshot t"
    using p by (auto simp: rebuild_prepared_from_task_def split: if_splits)
  obtain h s dp m b where adm: "admit_task \<lparr>j_entity = t_entity t, j_revision = t_revision t, j_pack = t_pack t, j_desired = h,
      j_source = s, j_deps = dp, j_snapshot = t_snapshot t, j_max_retries = m, j_budget = b, j_now = clock\<rparr> True d
      = (Queued (t_id t), d')"
    using a h p unfolding admit_compile_on_conn_def
    by (auto simp: revision_to_i64_def admit_identity_def admit_job_on_def split: if_splits option.splits)
  define j where "j = \<lparr>j_entity = t_entity t, j_revision = t_revision t, j_pack = t_pack t, j_desired = h,
      j_source = s, j_deps = dp, j_snapshot = t_snapshot t, j_max_retries = m, j_budget = b, j_now = clock\<rparr>"
  have j: "job_key j = task_key t" "j_snapshot j = t_snapshot t" "admit_task j True d = (Queued (t_id t), d')"
    using adm by (simp_all add: j_def job_key_def task_key_def)
  show thesis
  proof (cases "find_task j d")
    case None
    then show ?thesis using find_task_NoneD[OF None] t j(1) by auto
  next
    case (Some t')
    then have "t' = t"
      using find_task_SomeD[OF Some] t j(1) ok by (auto simp: queue_ok_def tasks_ok_def dest: keyed_unique)
    with Some j i show ?thesis by (intro that) (auto simp: admit_task_def)
  qed
qed

lemma bind_as_i64: "Option.bind x as_i64 = Some n \<Longrightarrow> x = Some (JInt n)"
  by (cases x) (auto simp: as_i64_def split: json.splits if_splits)

lemma parse_dead_letter_subject:
  assumes "parse_dead_letter_task_id X s = Inr n"
  shows "s = task_subject X n"
proof -
  obtain ms where ms: "length ms = 1" "map_of ms ''task_id'' = Some (JInt n)" "x_json_text X (JObj ms) = s"
    using assms bind_as_i64
    by (auto simp: parse_dead_letter_task_id_def ok_or_def split: if_splits option.splits)
  then have "ms = [(''task_id'', JInt n)]" by (auto simp: length_Suc_conv split: if_splits)
  with ms(3) show ?thesis by (simp add: task_subject_def)
qed

interpretation review_set: keeps_key rv_id "review_set st now reviewer task" for st now reviewer task
  by unfold_locales (simp add: review_set_def)

interpretation review_subject: keeps_key review_key "review_set st now reviewer task" for st now reviewer task
  by unfold_locales (simp add: review_set_def review_key_def)

text \<open>An approval of a dead letter: its task, and the store the approval leaves.\<close>

lemma dead_letter_approved:
  assumes ok: "queue_ok d" "reviews_ok d" and r: "find_review i d = Some r" "rv_action r = CompileDeadLetter"
    and a: "approve_review X i reviewer now clock d = (Inr out, d')"
  obtains t j where "t \<in> set (db_tasks d)" "t_status t = Dead" "rv_subject r = task_subject X (t_id t)"
    "task_entity_domain (t_entity t) = Inr (rv_domain r)" "out = approved i (Some (t_id t))"
    "job_key j = task_key t" "j_snapshot j = t_snapshot t" "rv_status r = ReviewPending"
    "d' = (upsert_source_head j (t_id t) (t_epoch t + 1) (update_tasks (\<lambda>r. t_id r = t_id t) (requeue_set j) d))
       \<lparr>db_reviews := sql_update (\<lambda>q. rv_id q = i \<and> rv_status q = ReviewPending)
          (review_set ReviewApproved now reviewer (Some (t_id t))) (db_reviews d)\<rparr>"
proof -
  have id: "rv_id r = i" using r(1) ok(2) by (simp add: find_review_ok)
  have "approve_in_transaction X i reviewer now clock d = Inr (out, d')"
    using a by (auto simp: approve_review_def immediate_transaction_def split: sum.splits)
  then have p: "rv_status r = ReviewPending" "approve_dead_letter X r reviewer now clock d = Inr (out, d')"
    using r by (auto simp: approve_in_transaction_def split: if_splits)
  obtain k t task d1 where k: "parse_dead_letter_task_id X (rv_subject r) = Inr k" "find_task_id k d = Some t"
    and t: "t_status t = Dead" "task_entity_domain (t_entity t) = Inr (rv_domain r)"
    and ad: "readmit X t clock d = Inr (task, d1)"
    and dec: "decide_review Internal i ReviewApproved now reviewer (Some task) d1 = Inr d'"
    and out: "out = approved i (Some task)"
    using p(2) id by (auto simp: approve_dead_letter_def load_task_snapshot_def ok_or_def split: if_splits option.splits)
  have tk: "t \<in> set (db_tasks d)" "t_id t = k" using k(2) ok(1) by (simp_all add: find_task_id_iff)
  have subj: "rv_subject r = task_subject X k"
    using parse_dead_letter_subject[OF k(1)] .
  obtain j where j: "task = t_id t" "job_key j = task_key t" "j_snapshot j = t_snapshot t"
    "d1 = upsert_source_head j (t_id t) (t_epoch t + 1) (update_tasks (\<lambda>r. t_id r = t_id t) (requeue_set j) d)"
    using readmit_effect[OF ok(1) tk(1) ad] by blast
  have "db_reviews d1 = db_reviews d" using readmit_reviews[OF ad] .
  then have "d' = d1\<lparr>db_reviews := sql_update (\<lambda>q. rv_id q = i \<and> rv_status q = ReviewPending)
          (review_set ReviewApproved now reviewer (Some (t_id t))) (db_reviews d)\<rparr>"
    using dec j(1) by (auto simp: decide_review_def Let_def split: if_splits)
  then show thesis using that[OF tk(1) t(1)] subj tk(2) t(2) out j p(1) by simp
qed

section \<open>A concrete review\<close>

text \<open>The sample task, dead, with its head and a pending dead letter; a parser that reads the one subject.\<close>

definition review_ext :: ext where
  "review_ext = sample_ext\<lparr>x_parse_json := (\<lambda>s. Some (JObj [(''task_id'', JInt 1)])),
     x_parse_deps := (\<lambda>s. Some \<lparr>sd_context = demo_context, sd_policy = demo_policy, sd_schema = schema_to_value demo_schema\<rparr>)\<rparr>"

definition dead_review :: review_row where
  "dead_review = \<lparr>rv_id = 1, rv_domain = ''milk'', rv_action = CompileDeadLetter, rv_status = ReviewPending,
     rv_subject = ''json'', rv_reason = ''json'', rv_created = 0, rv_task = Some 1, rv_logs = ''[]'',
     rv_reviewed = None, rv_reviewer = None\<rparr>"

definition dead_db :: db where
  "dead_db = demo_admitted\<lparr>db_tasks := [demo_task\<lparr>t_status := Dead, t_result := Some RFailed\<rparr>], db_reviews := [dead_review], db_review_seq := 1\<rparr>"

lemma dead_queue: "queue_ok dead_db"
  by (simp add: dead_db_def queue_ok_def tasks_ok_def attempts_ok_def budgets_ok_def keyed_def demo_admitted_def
      upsert_source_head_def insert_task_def demo_task_def new_task_def demo_job_def empty_db_def Let_def
      task_ok_def active_def task_tokens_def)

lemma dead_reviews: "reviews_ok dead_db"
  by (simp add: dead_db_def reviews_ok_def keyed_def dead_review_def)

lemma dead_found: "find_review 1 dead_db = Some dead_review"
  by (simp add: find_review_def dead_db_def sql_first_def dead_review_def)

lemma dead_domain: "task_entity_domain ''milk:drink:boba'' = Inr ''milk''"
  by (simp add: task_entity_domain_def from_key_def numeral_3_eq_3 entity_id_new_def entity_component_ok_def)

lemma demo_hash_any: "\<exists>h. content_hash X demo_knowledge demo_context demo_policy demo_schema = Inr h"
proof -
  have srt: "json_sorted (JObj (raw_fields demo_knowledge))" by (simp add: demo_defs)
  have fin: "json_finite (source_value demo_knowledge)" "json_finite (quality_policy_value demo_context demo_policy)"
    "json_finite (schema_to_value demo_schema)" "json_finite (consistency_identity demo_policy)"
    by (simp_all add: source_value_def quality_policy_value_def schema_to_value_def
        consistency_identity_def strings_json_def f32_json_def field_json_def demo_defs is_finite_def)
  show ?thesis
    using canonical_json_Ok[OF sorted_values(4)[OF srt] fin(1)]
      canonical_json_Ok[OF sorted_values(2) fin(2)] canonical_json_Ok[OF sorted_values(1) fin(3)]
      canonical_json_Ok[OF sorted_values(3) fin(4)] canonical_json_Ok[of JNull]
    by (simp add: content_hash_def hash_domains_def compatibility_value_def demo_defs)
qed

lemma dead_approval: "\<exists>d'. approve_review review_ext 1 ''r'' 5 5 dead_db = (Inr (approved 1 (Some 1)), d')"
proof -
  let ?t = "demo_task\<lparr>t_status := Dead, t_result := Some RFailed\<rparr>"
  let ?deps = "\<lparr>sd_context = demo_context, sd_policy = demo_policy, sd_schema = schema_to_value demo_schema\<rparr>"
  have X: "x_parse_json review_ext s = Some (JObj [(''task_id'', JInt 1)])" "x_json_text review_ext v = ''json''"
    "x_parse_deps review_ext s = Some ?deps" "x_parse_source review_ext s = Some demo_knowledge" for s v
    by (simp_all add: review_ext_def)
  have f: "find_task_id 1 dead_db = Some ?t"
    by (simp add: find_task_id_def dead_db_def sql_first_def demo_task_fields)
  have h: "sql_first (\<lambda>h. h_entity h = ''milk:drink:boba'') (db_heads dead_db) =
      Some \<lparr>h_entity = ''milk:drink:boba'', h_revision = 1, h_snapshot = ''snapshot'', h_desired = demo_hash, h_task = 1, h_epoch = 1, h_updated = 0\<rparr>"
    by (simp add: dead_db_def demo_admitted_def upsert_source_head_def insert_task_def empty_db_def Let_def sql_first_def
        demo_job_def sql_upsert_def sql_exists_def)
  have t: "t_revision ?t = 1" "t_pack ?t = ''0.1.0''" "t_snapshot ?t = ''snapshot''" "t_entity ?t = ''milk:drink:boba''" "t_id ?t = 1"
    by (simp_all add: demo_task_def new_task_def demo_job_def)
  have parse: "parse_dead_letter_task_id review_ext ''json'' = Inr 1"
    by (simp add: parse_dead_letter_task_id_def json_object_def X as_i64_def i64_min_def i64_max_def)
  obtain hsh where hsh: "content_hash review_ext demo_knowledge demo_context demo_policy demo_schema = Inr hsh"
    using demo_hash_any by blast
  have key: "to_key demo_entity = ''milk:drink:boba''" "raw_id demo_knowledge = demo_entity" "raw_revision demo_knowledge = 1"
    by (simp_all add: demo_key demo_knowledge_def)
  have guard: "guard_head_matches_task ?t dead_db = Inr ()"
    by (simp add: guard_head_matches_task_def h t)
  have ent: "from_key ''milk:drink:boba'' = Inr demo_entity"
    by (simp add: from_key_def numeral_3_eq_3 entity_id_new_def entity_component_ok_def demo_entity_def)
  let ?p = "\<lparr>ps_full = demo_knowledge, ps_knowledge = demo_knowledge,
      ps_facts = \<lparr>fs_entity = demo_entity, fs_fields = [], fs_revision = 1\<rparr>, ps_snapshot = ''snapshot''\<rparr>"
  have prep: "rebuild_prepared_from_task review_ext ?t = Inr (?p, ?deps, demo_schema)"
    unfolding rebuild_prepared_from_task_def using X key t ent by (simp add: ok_or_def demo_values)
  let ?j = "\<lparr>j_entity = ''milk:drink:boba'', j_revision = 1, j_pack = ''0.1.0'', j_desired = hsh,
      j_source = x_source_text review_ext demo_knowledge, j_deps = x_deps_text review_ext ?deps,
      j_snapshot = ''snapshot'', j_max_retries = 3, j_budget = 65536, j_now = 5\<rparr>"
  have "admit_identity review_ext ?p demo_context demo_policy demo_schema True 1 5 dead_db
      = Inr (admit_job_on demo_policy True ?j dead_db)"
    using hsh by (simp add: admit_identity_def key demo_values)
  moreover have "find_task ?j dead_db = Some ?t"
    using t by (simp add: find_task_def dead_db_def sql_first_def task_key_def job_key_def)
  then have "\<exists>d1. admit_job_on demo_policy True ?j dead_db = (Queued 1, d1)"
    using t(5) by (simp add: admit_job_on_def admit_task_def split: option.split)
  ultimately obtain d1 where adm: "admit_compile_on_conn review_ext ?p demo_context demo_policy demo_schema True 5 dead_db = Inr (Queued 1, d1)"
    using h by (auto simp: admit_compile_on_conn_def key revision_to_i64_def i64_max_def)
  then have re: "readmit review_ext ?t 5 dead_db = Inr (1, d1)"
    using guard prep t(5) by (simp add: readmit_def)
  have "\<exists>d2. decide_review Internal 1 ReviewApproved 5 ''r'' (Some 1) d1 = Inr d2"
    using readmit_reviews[OF re] by (simp add: decide_review_def Let_def dead_db_def sql_count_def dead_review_def)
  then obtain d2 where "decide_review Internal 1 ReviewApproved 5 ''r'' (Some 1) d1 = Inr d2" by blast
  then have "approve_dead_letter review_ext dead_review ''r'' 5 5 dead_db = Inr (approved 1 (Some 1), d2)"
    using parse f re dead_domain t
    by (simp add: approve_dead_letter_def dead_review_def load_task_snapshot_def ok_or_def)
  then show ?thesis
    using dead_found by (simp add: approve_review_def approve_in_transaction_def immediate_transaction_def
        validate_reviewer_def dead_review_def max_reviewer_chars_def char_count_def scalar_at_def tail_len_def)
qed

section \<open>The claims\<close>

text \<open>C30. A decided review stays as it was decided, whatever is approved, ignored or suggested after it; deciding it
  again is refused and changes nothing, and an approval or a dismissal of any review that is refused or fails
  leaves the store as it was. Review ids are unique. \<close>

theorem decisions_final:
  assumes "r \<in> set (db_reviews d)" "rv_status r \<noteq> ReviewPending" "keyed rv_id (db_reviews d)"
  shows "r \<in> set (db_reviews (snd (approve_review X i reviewer now clock d)))
    \<and> r \<in> set (db_reviews (snd (ignore_review i reviewer now d)))
    \<and> r \<in> set (db_reviews (snd (insert_review_suggestions X domain ss d)))
    \<and> approve_review X (rv_id r) reviewer now clock d = (Inl Validation, d)
    \<and> ignore_review (rv_id r) reviewer now d = (Inl Validation, d)
    \<and> (\<forall>e d'. approve_review X i reviewer now clock d = (Inl e, d') \<longrightarrow> d' = d)
    \<and> (\<forall>e d'. ignore_review i reviewer now d = (Inl e, d') \<longrightarrow> d' = d)"
proof -
  have find: "find_review (rv_id r) d = Some r"
    using sql_first_keyed[OF assms(3,1)] by (simp add: find_review_def)
  have kept: "r \<in> set (db_reviews d')" if "decided_kept d d'" for d' using that assms(1,2) by (simp add: decided_kept_def)
  have rej: "validate_reviewer reviewer = Inl e \<Longrightarrow> e = Validation" for e
    by (auto simp: validate_reviewer_def split: if_splits)
  have appr: "decided_kept d (snd (approve_review X i reviewer now clock d))" for i
    by (auto simp: approve_review_def immediate_transaction_def split: sum.splits intro: decided_approve)
  have ign: "decided_kept d (snd (ignore_review i reviewer now d))"
    by (auto simp: ignore_review_def ignore_in_transaction_def immediate_transaction_def split: sum.splits option.splits
        intro: decided_decide)
  have sug: "decided_kept d (snd (insert_review_suggestions X domain ss d))"
    by (auto simp: insert_review_suggestions_def immediate_transaction_def split: sum.splits intro: decided_suggestions)
  have "approve_review X (rv_id r) reviewer now clock d = (Inl Validation, d)" "ignore_review (rv_id r) reviewer now d = (Inl Validation, d)"
    using find assms(2) rej
    by (auto simp: approve_review_def ignore_review_def approve_in_transaction_def ignore_in_transaction_def
        immediate_transaction_def split: sum.split)
  moreover have "d' = d" if "approve_review X i reviewer now clock d = (Inl e, d')" for e d'
    using that by (auto simp: approve_review_def immediate_transaction_def split: sum.splits)
  moreover have "d' = d" if "ignore_review i reviewer now d = (Inl e, d')" for e d'
    using that by (auto simp: ignore_review_def immediate_transaction_def split: sum.splits)
  ultimately show ?thesis using kept[OF appr] kept[OF ign] kept[OF sug] by blast
qed

theorem decisions_final_witness:
  "\<exists>d. dead_review\<lparr>rv_status := ReviewIgnored\<rparr> \<in> set (db_reviews d)
     \<and> approve_review review_ext 1 ''r'' 5 5 d = (Inl Validation, d)"
proof -
  let ?r = "dead_review\<lparr>rv_status := ReviewIgnored\<rparr>"
  let ?d = "dead_db\<lparr>db_reviews := [?r]\<rparr>"
  have "?r \<in> set (db_reviews ?d)" "rv_status ?r \<noteq> ReviewPending" "keyed rv_id (db_reviews ?d)" "rv_id ?r = 1"
    by (simp_all add: keyed_def dead_review_def)
  then show ?thesis using decisions_final[of ?r ?d review_ext 1 "''r''" 5 5 "''milk''" "[]"] by (intro exI[of _ ?d]) simp
qed

text \<open>C28. Approving a dead letter queues its task again and nothing else: the task is pending in its next epoch with its
  counters cleared, the source head points at it, no other task, page, fact, attempt or budget changes, the
  review is approved with that task. \<close>

theorem approved_dead_letter_requeues:
  assumes "queue_ok d" "reviews_ok d" "find_review i d = Some r" "rv_action r = CompileDeadLetter"
    "approve_review X i reviewer now clock d = (Inr out, d')"
  shows "\<exists>t t' h. t \<in> set (db_tasks d) \<and> t_status t = Dead \<and> out = approved i (Some (t_id t))
    \<and> find_task_id (t_id t) d' = Some t' \<and> t_status t' = Pending \<and> t_epoch t' = t_epoch t + 1
    \<and> (t_retries t', t_attempts t', t_recompiles t', t_next_at t', t_error t', t_token t', t_expires t', t_result t')
        = (0, 0, 0, 0, None, None, None, None)
    \<and> task_key t' = task_key t \<and> t_reserved t' = t_reserved t
    \<and> source_head (t_entity t) d' = Some h \<and> h_task h = t_id t \<and> h_epoch h = t_epoch t' \<and> h_desired h = t_desired t'
    \<and> (\<forall>q. q \<noteq> t_id t \<longrightarrow> find_task_id q d' = find_task_id q d)
    \<and> find_review i d' = Some (review_set ReviewApproved now reviewer (Some (t_id t)) r)
    \<and> d' = d\<lparr>db_tasks := db_tasks d', db_heads := db_heads d', db_reviews := db_reviews d'\<rparr>"
proof -
  obtain t j where t: "t \<in> set (db_tasks d)" "t_status t = Dead" and out: "out = approved i (Some (t_id t))"
    and j: "job_key j = task_key t" and p: "rv_status r = ReviewPending"
    and d': "d' = (upsert_source_head j (t_id t) (t_epoch t + 1) (update_tasks (\<lambda>r. t_id r = t_id t) (requeue_set j) d))
       \<lparr>db_reviews := sql_update (\<lambda>q. rv_id q = i \<and> rv_status q = ReviewPending)
          (review_set ReviewApproved now reviewer (Some (t_id t))) (db_reviews d)\<rparr>"
    using dead_letter_approved[OF assms] by blast
  have tasks: "db_tasks d' = sql_update (\<lambda>r. t_id r = t_id t) (requeue_set j) (db_tasks d)"
    by (simp add: d' upsert_source_head_def Let_def)
  have f: "find_task_id (t_id t) d = Some t" using t(1) assms(1) by (simp add: find_task_id_iff)
  have task: "find_task_id q d' = (if q = t_id t then Some (requeue_set j t) else find_task_id q d)" for q
    using f unfolding tasks find_task_id_def requeue_set.first_update by auto
  have "r \<in> set (db_reviews d)" "rv_id r = i" using assms(2,3) by (simp_all add: find_review_ok)
  then have rev: "find_review i d' = Some (review_set ReviewApproved now reviewer (Some (t_id t)) r)"
    using review_set.update_first[of "db_reviews d" r "\<lambda>q. rv_id q = i \<and> rv_status q = ReviewPending"] p assms(2)
    by (simp add: find_review_def d' reviews_ok_def)
  have head: "source_head (j_entity j) d' = Some \<lparr>h_entity = j_entity j, h_revision = j_revision j,
      h_snapshot = j_snapshot j, h_desired = j_desired j, h_task = t_id t, h_epoch = t_epoch t + 1, h_updated = j_now j\<rparr>"
    using source_head_upsert[of "j_entity j" j "t_id t" "t_epoch t + 1"] by (simp add: source_head_def d')
  have frame: "d' = d\<lparr>db_tasks := db_tasks d', db_heads := db_heads d', db_reviews := db_reviews d'\<rparr>"
    by (simp add: d' upsert_source_head_def update_tasks_def Let_def)
  have ent: "j_entity j = t_entity t" using j by (simp add: job_key_def task_key_def)
  show ?thesis
  proof (intro exI conjI)
    show "source_head (t_entity t) d' = Some \<lparr>h_entity = j_entity j, h_revision = j_revision j,
      h_snapshot = j_snapshot j, h_desired = j_desired j, h_task = t_id t, h_epoch = t_epoch t + 1, h_updated = j_now j\<rparr>"
      using head ent by simp
    show "find_task_id (t_id t) d' = Some (requeue_set j t)" by (simp add: task)
  qed (use t out rev frame in \<open>simp_all add: requeue_set_def task_key_def task\<close>)
qed

theorem approved_dead_letter_requeues_witness:
  "\<exists>d' t'. approve_review review_ext 1 ''r'' 5 5 dead_db = (Inr (approved 1 (Some 1)), d')
     \<and> find_task_id 1 d' = Some t' \<and> t_status t' = Pending \<and> t_epoch t' = 2"
proof -
  obtain d' where a: "approve_review review_ext 1 ''r'' 5 5 dead_db = (Inr (approved 1 (Some 1)), d')"
    using dead_approval by blast
  have "rv_action dead_review = CompileDeadLetter" by (simp add: dead_review_def)
  from approved_dead_letter_requeues[OF dead_queue dead_reviews dead_found this a]
  obtain t t' where "t \<in> set (db_tasks dead_db)" "approved 1 (Some 1) = approved 1 (Some (t_id t))"
    "find_task_id (t_id t) d' = Some t'" "t_status t' = Pending" "t_epoch t' = t_epoch t + 1" by blast
  then show ?thesis using a by (auto simp: dead_db_def approved_def demo_task_fields)
qed

text \<open>C29. A subject is reviewed once. When the task of an approved dead letter dies again, whatever the kernel did in
  between, its dead letter is found under the old, decided review: none is pending, and it cannot be
  approved again. \<close>

theorem second_death_unreviewed:
  assumes "queue_ok d" "reviews_ok d" "find_review i d = Some r" "rv_action r = CompileDeadLetter"
    "approve_review X i reviewer now clock d = (Inr out, d1)" "later X d1 d2"
    "q \<in> set (db_reviews d2)" "review_key q = (rv_domain r, CompileDeadLetter, task_subject X (the (ro_task out)))"
  shows "rv_id q = i \<and> rv_status q = ReviewApproved \<and> approve_review X i reviewer' now' clock' d2 = (Inl Validation, d2)"
proof -
  obtain t j where "t \<in> set (db_tasks d)" "t_status t = Dead" and subj: "rv_subject r = task_subject X (t_id t)"
    and "task_entity_domain (t_entity t) = Inr (rv_domain r)" and out: "out = approved i (Some (t_id t))"
    and "job_key j = task_key t" "j_snapshot j = t_snapshot t" and pend: "rv_status r = ReviewPending"
    and d1: "d1 = (upsert_source_head j (t_id t) (t_epoch t + 1) (update_tasks (\<lambda>r. t_id r = t_id t) (requeue_set j) d))
       \<lparr>db_reviews := sql_update (\<lambda>q. rv_id q = i \<and> rv_status q = ReviewPending)
          (review_set ReviewApproved now reviewer (Some (t_id t))) (db_reviews d)\<rparr>"
    by (rule dead_letter_approved[OF assms(1-5)])
  let ?r = "review_set ReviewApproved now reviewer (Some (t_id t)) r"
  have r: "r \<in> set (db_reviews d)" "rv_id r = i" using assms(2,3) by (simp_all add: find_review_ok)
  have ok1: "reviews_ok d1"
    using assms(2) by (auto simp: d1 reviews_ok_def review_set.keyed_update review_subject.keyed_update
        upsert_source_head_def update_tasks_def Let_def set_sql_update review_set.key_kept)
  have "?r \<in> set (db_reviews d1)" using r pend by (auto simp: d1 sql_update_def)
  moreover obtain new where g: "reviews_ok d2" "db_reviews d2 = db_reviews d1 @ new"
    using grown_later[OF assms(6)] ok1 by (auto simp: grown_def)
  ultimately have r2: "?r \<in> set (db_reviews d2)" by simp
  have "review_key ?r = review_key q"
    using assms(8,4) subj out by (simp add: review_key_def review_set_def approved_def)
  then have q: "q = ?r" using g(1) r2 assms(7) by (auto simp: reviews_ok_def dest: keyed_unique)
  have "find_review i d2 = Some ?r" using g(1) r2 r(2) by (simp add: find_review_ok review_set_def)
  then show ?thesis
    using q r(2) by (auto simp: approve_review_def approve_in_transaction_def immediate_transaction_def
        review_set_def validate_reviewer_def split: sum.split if_splits)
qed

theorem second_death_unreviewed_witness:
  "\<exists>d'. approve_review review_ext 1 ''r'' 5 5 dead_db = (Inr (approved 1 (Some 1)), d')
     \<and> approve_review review_ext 1 ''r'' 9 9 d' = (Inl Validation, d')"
proof -
  obtain d' where a: "approve_review review_ext 1 ''r'' 5 5 dead_db = (Inr (approved 1 (Some 1)), d')"
    using dead_approval by blast
  have act: "rv_action dead_review = CompileDeadLetter" by (simp add: dead_review_def)
  let ?q = "review_set ReviewApproved 5 ''r'' (Some 1) dead_review"
  obtain t j where t: "t \<in> set (db_tasks dead_db)"
    and "t_status t = Dead" "rv_subject dead_review = task_subject review_ext (t_id t)"
    "task_entity_domain (t_entity t) = Inr (rv_domain dead_review)" "approved 1 (Some 1) = approved 1 (Some (t_id t))"
    "job_key j = task_key t" "j_snapshot j = t_snapshot t" "rv_status dead_review = ReviewPending"
    and d': "d' = (upsert_source_head j (t_id t) (t_epoch t + 1) (update_tasks (\<lambda>r. t_id r = t_id t) (requeue_set j) dead_db))
       \<lparr>db_reviews := sql_update (\<lambda>q. rv_id q = 1 \<and> rv_status q = ReviewPending)
          (review_set ReviewApproved 5 ''r'' (Some (t_id t))) (db_reviews dead_db)\<rparr>"
    by (rule dead_letter_approved[OF dead_queue dead_reviews dead_found act a])
  have "t_id t = 1" using t by (auto simp: dead_db_def demo_task_fields)
  then have q: "?q \<in> set (db_reviews d')" by (simp add: d' sql_update_def dead_db_def dead_review_def)
  have "review_key ?q = (rv_domain dead_review, CompileDeadLetter, task_subject review_ext (the (ro_task (approved 1 (Some 1)))))"
    by (simp add: review_key_def review_set_def dead_review_def task_subject_def review_ext_def)
  from second_death_unreviewed[OF dead_queue dead_reviews dead_found act a later.now q this] a
  show ?thesis by blast
qed

end
