(* ===== verification/Feedback.thy ===== *)
theory Feedback
  imports Reviews
begin

text \<open>
  Feedback events (\<^verbatim>\<open>kernel/feedback_store.rs\<close>): an event is stored once per domain and idempotency key, and
  what is sent again under its key is answered with the stored event. The four tables these operations
  touch are a record of their own; the pages are those of the compile store.
\<close>

section \<open>Tables and inputs\<close>

definition max_key_chars :: nat where "max_key_chars = 128"
definition max_page_id_chars :: nat where "max_page_id_chars = 512"
definition max_metadata_bytes :: nat where "max_metadata_bytes = 4 * 1024"

datatype feedback_kind = Click | Adopt | Rate

datatype rejection_reason = PayloadTooLarge | EventCountTooLarge | FieldTooLarge

record feedback_input =
  fi_key :: string
  fi_domain :: string
  fi_log :: int
  fi_kind :: feedback_kind
  fi_page :: "string option"
  fi_rating :: "nat option"
  fi_metadata :: json

record feedback_event =
  fe_id :: int
  fe_key :: string
  fe_domain :: string
  fe_log :: int
  fe_kind :: feedback_kind
  fe_page :: "string option"
  fe_rating :: "nat option"
  fe_metadata :: string
  fe_received :: int

record query_log =
  ql_id :: int
  ql_query :: string
  ql_query_json :: string
  ql_rewritten :: "string option"
  ql_rewrite_failure :: bool
  ql_hits :: int
  ql_latency :: int
  ql_timestamp :: int
  ql_domain :: string
  ql_empty_initial :: bool
  ql_relax_attempted :: bool
  ql_relax_succeeded :: bool

record feedback_ingested =
  in_event :: int
  in_replayed :: bool
  in_received :: int

record rejection_row =
  rj_domain :: "string option"
  rj_reason :: rejection_reason
  rj_bytes :: int
  rj_created :: int

record feedback_db =
  fb_logs :: "query_log list"
  fb_events :: "feedback_event list"
  fb_event_seq :: int
  fb_rejections :: "rejection_row list"

definition event_key :: "feedback_event \<Rightarrow> string \<times> string" where
  "event_key e = (fe_domain e, fe_key e)"

section \<open>Validation\<close>

text \<open>\<^verbatim>\<open>is_ascii_graphic\<close> on every scalar: every byte is from \<^verbatim>\<open>!\<close> to \<^verbatim>\<open>~\<close>.\<close>

definition ascii_graphic :: "char \<Rightarrow> bool" where
  "ascii_graphic c = (33 \<le> (of_char c :: nat) \<and> (of_char c :: nat) \<le> 126)"

definition is_object :: "json \<Rightarrow> bool" where
  "is_object v = (case v of JObj _ \<Rightarrow> True | _ \<Rightarrow> False)"

definition validate_feedback_input :: "ext \<Rightarrow> feedback_input \<Rightarrow> unit result" where
  "validate_feedback_input X i =
     (if char_count (fi_key i) = 0 \<or> char_count (fi_key i) > max_key_chars then Inl Validation
      else if \<not> list_all ascii_graphic (fi_key i) then Inl Validation
      else if char_count (fi_domain i) = 0 \<or> char_count (fi_domain i) > max_domain_chars then Inl Validation
      else if fi_log i \<le> 0 then Inl Validation
      else try_bind
        (case fi_kind i of
           Rate \<Rightarrow>
             (case fi_rating i of
                Some r \<Rightarrow> if 1 \<le> r \<and> r \<le> 5 then Inr () else Inl Validation
              | None \<Rightarrow> Inl Validation)
         | _ \<Rightarrow>
             if fi_rating i \<noteq> None then Inl Validation
             else let page = (case fi_page i of None \<Rightarrow> [] | Some p \<Rightarrow> p)
                  in if char_count page = 0 \<or> char_count page > max_page_id_chars then Inl Validation else Inr ())
        (\<lambda>_. if \<not> is_object (fi_metadata i) then Inl Validation
             else if length (x_json_text X (fi_metadata i)) > max_metadata_bytes then Inl Validation
             else Inr ()))"

section \<open>Insertion\<close>

definition new_event :: "ext \<Rightarrow> feedback_input \<Rightarrow> int \<Rightarrow> int \<Rightarrow> feedback_event" where
  "new_event X i now n =
     \<lparr>fe_id = n, fe_key = fi_key i, fe_domain = fi_domain i, fe_log = fi_log i, fe_kind = fi_kind i,
      fe_page = fi_page i, fe_rating = fi_rating i, fe_metadata = x_json_text X (fi_metadata i), fe_received = now\<rparr>"

text \<open>
  \<^verbatim>\<open>insert_feedback_idempotent_on_conn\<close>; the table's own checks (a rating with every rate event and only there, a
  page with every click and adoption) refuse what validation refuses already.
\<close>

definition insert_event_on :: "ext \<Rightarrow> feedback_input \<Rightarrow> int \<Rightarrow> feedback_db \<Rightarrow> (feedback_ingested \<times> feedback_db) result" where
  "insert_event_on X i now d =
     (case sql_first (\<lambda>l. ql_id l = fi_log i) (fb_logs d) of
        None \<Rightarrow> Inl Validation
      | Some l \<Rightarrow>
          if ql_domain l \<noteq> fi_domain i then Inl Validation
          else let (rows, n) = sql_insert_ignore event_key (new_event X i now (fb_event_seq d + 1)) (fb_events d)
               in if n = 1
                  then Inr (\<lparr>in_event = fb_event_seq d + 1, in_replayed = False, in_received = now\<rparr>,
                            d\<lparr>fb_events := rows, fb_event_seq := fb_event_seq d + 1\<rparr>)
                  else (case sql_first (\<lambda>e. fe_domain e = fi_domain i \<and> fe_key e = fi_key i) (fb_events d) of
                          None \<Rightarrow> Inl Database
                        | Some e \<Rightarrow> Inr (\<lparr>in_event = fe_id e, in_replayed = True, in_received = fe_received e\<rparr>, d)))"

definition insert_feedback_idempotent ::
  "ext \<Rightarrow> feedback_input \<Rightarrow> int \<Rightarrow> feedback_db \<Rightarrow> feedback_ingested result \<times> feedback_db" where
  "insert_feedback_idempotent X i now d =
     (case validate_feedback_input X i of
        Inl e \<Rightarrow> (Inl e, d)
      | Inr _ \<Rightarrow> immediate_transaction (insert_event_on X i now) d)"

fun validate_inputs :: "ext \<Rightarrow> feedback_input list \<Rightarrow> unit result" where
  "validate_inputs X [] = Inr ()"
| "validate_inputs X (i # is) = try_bind (validate_feedback_input X i) (\<lambda>_. validate_inputs X is)"

fun insert_events_on ::
  "ext \<Rightarrow> feedback_input list \<Rightarrow> int \<Rightarrow> feedback_db \<Rightarrow> (feedback_ingested list \<times> feedback_db) result" where
  "insert_events_on X [] now d = Inr ([], d)"
| "insert_events_on X (i # is) now d =
     try_bind (insert_event_on X i now d) (\<lambda>(r, d1).
     try_bind (insert_events_on X is now d1) (\<lambda>(rs, d2). Inr (r # rs, d2)))"

definition insert_feedback_batch_idempotent ::
  "ext \<Rightarrow> feedback_input list \<Rightarrow> int \<Rightarrow> feedback_db \<Rightarrow> feedback_ingested list result \<times> feedback_db" where
  "insert_feedback_batch_idempotent X is now d =
     (case validate_inputs X is of
        Inl e \<Rightarrow> (Inl e, d)
      | Inr _ \<Rightarrow> if is = [] then (Inr [], d) else immediate_transaction (insert_events_on X is now) d)"

definition record_feedback_rejection ::
  "string option \<Rightarrow> rejection_reason \<Rightarrow> int \<Rightarrow> int \<Rightarrow> feedback_db \<Rightarrow> unit result \<times> feedback_db" where
  "record_feedback_rejection domain reason bytes now d =
     (if bytes < 0 then (Inl Validation, d)
      else (Inr (), d\<lparr>fb_rejections := fb_rejections d @
              [\<lparr>rj_domain = domain, rj_reason = reason, rj_bytes = bytes, rj_created = now\<rparr>]\<rparr>))"

section \<open>Reading\<close>

definition page_exists :: "string \<Rightarrow> string \<Rightarrow> db \<Rightarrow> bool" where
  "page_exists domain page d =
     (sql_count (\<lambda>p. pg_domain p = domain \<and> pg_id p = page \<and> pg_status p = AcceptedPage) (db_pages d) > 0)"

definition in_window :: "int \<Rightarrow> int \<Rightarrow> int \<Rightarrow> bool" where "in_window a b t = (a \<le> t \<and> t \<le> b)"

definition load_feedback_window ::
  "string \<Rightarrow> int \<Rightarrow> int \<Rightarrow> feedback_db \<Rightarrow> (query_log list \<times> feedback_event list) result" where
  "load_feedback_window domain a b d =
     (if a > b then Inl Validation
      else Inr (sort_key ql_id (filter (\<lambda>l. ql_domain l = domain \<and> in_window a b (ql_timestamp l)) (fb_logs d)),
                sort_key fe_id (filter (\<lambda>e. fe_domain e = domain \<and> in_window a b (fe_received e)) (fb_events d))))"

end
