(* ===== verification/Feedback_Props.thy ===== *)
theory Feedback_Props
  imports Feedback
begin

text \<open>
  Feedback is stored once: the invariant of the event table, which every operation keeps, and what an event
  sent again is answered, whatever was stored in between.
\<close>

section \<open>The invariant\<close>

definition event_ok :: "query_log list \<Rightarrow> feedback_event \<Rightarrow> bool" where
  "event_ok logs e \<longleftrightarrow> (\<exists>l\<in>set logs. ql_id l = fe_log e \<and> ql_domain l = fe_domain e) \<and> fe_key e \<noteq> [] \<and> fe_domain e \<noteq> []
     \<and> (case fe_kind e of Rate \<Rightarrow> \<exists>r. fe_rating e = Some r \<and> 1 \<le> r \<and> r \<le> 5
        | _ \<Rightarrow> fe_rating e = None \<and> (\<exists>p. fe_page e = Some p \<and> p \<noteq> []))"

definition feedback_ok :: "feedback_db \<Rightarrow> bool" where
  "feedback_ok d \<longleftrightarrow> keyed event_key (fb_events d) \<and> keyed fe_id (fb_events d)
     \<and> (\<forall>e\<in>set (fb_events d). fe_id e \<le> fb_event_seq d \<and> event_ok (fb_logs d) e)"

text \<open>Everything that happens to the tables; a query log is written by the query engine.\<close>

inductive feedback_step :: "ext \<Rightarrow> feedback_db \<Rightarrow> feedback_db \<Rightarrow> bool" for X :: ext where
  single: "insert_feedback_idempotent X i now d = (r, d') \<Longrightarrow> feedback_step X d d'"
| batch: "insert_feedback_batch_idempotent X is now d = (rs, d') \<Longrightarrow> feedback_step X d d'"
| reject: "record_feedback_rejection domain reason bytes now d = (u, d') \<Longrightarrow> feedback_step X d d'"
| query: "feedback_step X d (d\<lparr>fb_logs := fb_logs d @ [l]\<rparr>)"

inductive feedback_later :: "ext \<Rightarrow> feedback_db \<Rightarrow> feedback_db \<Rightarrow> bool" for X :: ext and d :: feedback_db where
  now: "feedback_later X d d"
| next_step: "feedback_later X d d1 \<Longrightarrow> feedback_step X d1 d2 \<Longrightarrow> feedback_later X d d2"

definition events_grow :: "feedback_db \<Rightarrow> feedback_db \<Rightarrow> bool" where
  "events_grow d d' \<longleftrightarrow> (feedback_ok d \<longrightarrow> feedback_ok d') \<and> set (fb_events d) \<subseteq> set (fb_events d')
     \<and> set (fb_logs d) \<subseteq> set (fb_logs d')"

lemma events_grow_refl [simp]: "events_grow d d" by (simp add: events_grow_def)

lemma events_grow_trans: "events_grow a b \<Longrightarrow> events_grow b c \<Longrightarrow> events_grow a c"
  by (auto simp: events_grow_def)

section \<open>One event\<close>

lemma validate_input_ok:
  assumes "validate_feedback_input X i = Inr ()"
  shows "fi_key i \<noteq> []" "fi_domain i \<noteq> []"
    "case fi_kind i of Rate \<Rightarrow> \<exists>r. fi_rating i = Some r \<and> 1 \<le> r \<and> r \<le> 5
     | _ \<Rightarrow> fi_rating i = None \<and> (\<exists>p. fi_page i = Some p \<and> p \<noteq> [])"
  using assms
  by (auto simp: validate_feedback_input_def char_count_def Let_def split: if_splits feedback_kind.splits option.splits)

lemma insert_event_cases [consumes 1, case_names new replay]:
  assumes "insert_event_on X i now d = Inr (r, d')"
  obtains l where "l \<in> set (fb_logs d)" "ql_id l = fi_log i" "ql_domain l = fi_domain i"
      "\<forall>e\<in>set (fb_events d). event_key e \<noteq> (fi_domain i, fi_key i)"
      "d' = d\<lparr>fb_events := fb_events d @ [new_event X i now (fb_event_seq d + 1)], fb_event_seq := fb_event_seq d + 1\<rparr>"
      "r = \<lparr>in_event = fb_event_seq d + 1, in_replayed = False, in_received = now\<rparr>"
  | e where "e \<in> set (fb_events d)" "event_key e = (fi_domain i, fi_key i)" "d' = d"
      "r = \<lparr>in_event = fe_id e, in_replayed = True, in_received = fe_received e\<rparr>"
proof -
  obtain l where l: "sql_first (\<lambda>l. ql_id l = fi_log i) (fb_logs d) = Some l" "ql_domain l = fi_domain i"
    using assms by (auto simp: insert_event_on_def split: option.splits if_splits)
  have key: "event_key (new_event X i now n) = (fi_domain i, fi_key i)" for n by (simp add: event_key_def new_event_def)
  show thesis
  proof (cases "sql_exists (\<lambda>e. event_key e = (fi_domain i, fi_key i)) (fb_events d)")
    case True
    then obtain e0 where "e0 \<in> set (fb_events d)" "fe_domain e0 = fi_domain i" "fe_key e0 = fi_key i"
      by (auto simp: sql_exists_iff event_key_def)
    then obtain e where e: "sql_first (\<lambda>e. fe_domain e = fi_domain i \<and> fe_key e = fi_key i) (fb_events d) = Some e"
      by (cases "sql_first (\<lambda>e. fe_domain e = fi_domain i \<and> fe_key e = fi_key i) (fb_events d)") (auto simp: sql_first_None)
    then have "d' = d" "r = \<lparr>in_event = fe_id e, in_replayed = True, in_received = fe_received e\<rparr>"
      using assms l key True by (simp_all add: insert_event_on_def sql_insert_ignore_def)
    then show thesis
      using that(2)[of e] sql_first_SomeD[OF e] by (simp add: event_key_def)
  next
    case False
    then show thesis
      using that(1)[of l] l assms key sql_first_SomeD[OF l(1)]
      by (auto simp: insert_event_on_def sql_insert_ignore_def Let_def sql_exists_iff)
  qed
qed

lemma insert_event_grow:
  assumes "insert_event_on X i now d = Inr (r, d')" "validate_feedback_input X i = Inr ()"
  shows "events_grow d d'"
  using assms(1)
proof (cases rule: insert_event_cases)
  case (new l)
  let ?e = "new_event X i now (fb_event_seq d + 1)"
  have "event_ok (fb_logs d) ?e"
    using validate_input_ok[OF assms(2)] new(1-3) by (cases "fi_kind i") (auto simp: event_ok_def new_event_def)
  moreover have "event_key ?e = (fi_domain i, fi_key i)" "fe_id ?e = fb_event_seq d + 1" by (simp_all add: event_key_def new_event_def)
  moreover have "\<forall>e\<in>set (fb_events d). fe_id e \<noteq> fb_event_seq d + 1" if "feedback_ok d"
    using that by (auto simp: feedback_ok_def)
  ultimately show ?thesis
    using new(4) unfolding new(5) events_grow_def by (auto simp: feedback_ok_def intro: keyed_snoc)
qed simp

lemma insert_events_grow:
  "insert_events_on X is now d = Inr (rs, d') \<Longrightarrow> validate_inputs X is = Inr () \<Longrightarrow> events_grow d d'"
proof (induction "is" arbitrary: d rs)
  case (Cons i "is")
  obtain r d1 rs' where 1: "insert_event_on X i now d = Inr (r, d1)" and 2: "insert_events_on X is now d1 = Inr (rs', d')"
    using Cons.prems(1) by auto
  have v: "validate_feedback_input X i = Inr ()" "validate_inputs X is = Inr ()" using Cons.prems(2) by auto
  show ?case using insert_event_grow[OF 1 v(1)] Cons.IH[OF 2 v(2)] by (rule events_grow_trans)
qed simp

lemma event_ok_more: "event_ok logs e \<Longrightarrow> event_ok (logs @ [l]) e"
  by (auto simp: event_ok_def)

lemma feedback_step_grow: "feedback_step X d d' \<Longrightarrow> events_grow d d'"
proof (induction rule: feedback_step.induct)
  case (single i now d r d')
  then show ?case
    by (auto simp: insert_feedback_idempotent_def immediate_transaction_def split: sum.splits intro: insert_event_grow)
next
  case (batch "is" now d rs d')
  then show ?case
    by (auto simp: insert_feedback_batch_idempotent_def immediate_transaction_def split: sum.splits if_splits
        intro: insert_events_grow)
next
  case (reject domain reason bytes now d u d')
  then show ?case by (auto simp: record_feedback_rejection_def events_grow_def feedback_ok_def split: if_splits)
next
  case (query d l)
  then show ?case by (auto simp: events_grow_def feedback_ok_def intro: event_ok_more)
qed

lemma feedback_later_grow: "feedback_later X d d' \<Longrightarrow> events_grow d d'"
  by (induction rule: feedback_later.induct) (auto intro: events_grow_trans feedback_step_grow)

section \<open>Stored once\<close>

text \<open>C31. An event is stored once. After an event was taken in, whatever else was, an event of the same domain and key is
  answered as a replay with the first one's id and time and changes nothing, or is refused; the table
  still holds exactly one event under the key, and every event it holds is well formed: of a logged
  query of its domain, with a rating from 1 to 5 exactly when it is one. \<close>

theorem feedback_stored_once:
  assumes "feedback_ok d" "insert_feedback_idempotent X i now d = (Inr r, d1)" "feedback_later X d1 d2"
    "fi_key i' = fi_key i" "fi_domain i' = fi_domain i"
  shows "feedback_ok d2 \<and> (\<exists>e\<in>set (fb_events d2). event_key e = (fi_domain i, fi_key i) \<and> fe_id e = in_event r
        \<and> fe_received e = in_received r \<and> (\<forall>e'\<in>set (fb_events d2). event_key e' = event_key e \<longrightarrow> e' = e))
    \<and> (case insert_feedback_idempotent X i' now' d2 of
         (Inl err, d3) \<Rightarrow> d3 = d2
       | (Inr r', d3) \<Rightarrow> d3 = d2 \<and> r' = \<lparr>in_event = in_event r, in_replayed = True, in_received = in_received r\<rparr>)"
proof -
  have ins: "insert_event_on X i now d = Inr (r, d1)" "validate_feedback_input X i = Inr ()"
    using assms(2) by (auto simp: insert_feedback_idempotent_def immediate_transaction_def split: sum.splits)
  have g: "events_grow d d1" "events_grow d1 d2" by (rule insert_event_grow[OF ins]) (rule feedback_later_grow[OF assms(3)])
  then have ok: "feedback_ok d2" using assms(1) by (simp add: events_grow_def)
  have "\<exists>e\<in>set (fb_events d1). event_key e = (fi_domain i, fi_key i) \<and> fe_id e = in_event r \<and> fe_received e = in_received r"
    using ins(1) by (cases rule: insert_event_cases) (auto simp: event_key_def new_event_def)
  then obtain e where e: "e \<in> set (fb_events d2)" "event_key e = (fi_domain i, fi_key i)" "fe_id e = in_event r"
      "fe_received e = in_received r" using g(2) by (auto simp: events_grow_def)
  have uniq: "e' = e" if "e' \<in> set (fb_events d2)" "event_key e' = event_key e" for e'
    using ok that e(1) by (auto simp: feedback_ok_def dest: keyed_unique)
  have again: "case insert_feedback_idempotent X i' now' d2 of
         (Inl err, d3) \<Rightarrow> d3 = d2
       | (Inr r', d3) \<Rightarrow> d3 = d2 \<and> r' = \<lparr>in_event = in_event r, in_replayed = True, in_received = in_received r\<rparr>"
  proof (cases "insert_feedback_idempotent X i' now' d2")
    case (Pair res d3)
    show ?thesis
    proof (cases res)
      case (Inl err)
      then show ?thesis
        using Pair by (auto simp: insert_feedback_idempotent_def immediate_transaction_def split: sum.splits)
    next
      case (Inr r')
      then have "insert_event_on X i' now' d2 = Inr (r', d3)"
        using Pair by (auto simp: insert_feedback_idempotent_def immediate_transaction_def split: sum.splits)
      then show ?thesis
      proof (cases rule: insert_event_cases)
        case (new l)
        then show ?thesis using e(1,2) assms(4,5) by auto
      next
        case (replay e')
        then have "e' = e" using uniq e(2) assms(4,5) by simp
        then show ?thesis using Pair Inr replay e by simp
      qed
    qed
  qed
  show ?thesis using ok e uniq again by blast
qed

definition demo_log :: query_log where
  "demo_log = \<lparr>ql_id = 1, ql_query = ''q'', ql_query_json = ''{}'', ql_rewritten = None, ql_rewrite_failure = False,
     ql_hits = 1, ql_latency = 2, ql_timestamp = 3, ql_domain = ''milk'', ql_empty_initial = False,
     ql_relax_attempted = False, ql_relax_succeeded = False\<rparr>"

definition demo_feedback :: feedback_db where
  "demo_feedback = \<lparr>fb_logs = [demo_log], fb_events = [], fb_event_seq = 0, fb_rejections = []\<rparr>"

definition demo_rate :: feedback_input where
  "demo_rate = \<lparr>fi_key = ''k'', fi_domain = ''milk'', fi_log = 1, fi_kind = Rate, fi_page = None, fi_rating = Some 4,
     fi_metadata = JObj []\<rparr>"

lemmas demo_feedback_defs = demo_feedback_def demo_log_def demo_rate_def

lemma demo_rate_stored:
  "insert_feedback_idempotent sample_ext demo_rate 7 demo_feedback
     = (Inr \<lparr>in_event = 1, in_replayed = False, in_received = 7\<rparr>,
        demo_feedback\<lparr>fb_events := [new_event sample_ext demo_rate 7 1], fb_event_seq := 1\<rparr>)"
  by (simp add: insert_feedback_idempotent_def validate_feedback_input_def char_count_def scalar_at_def tail_len_def
      max_key_chars_def max_domain_chars_def ascii_graphic_def is_object_def max_metadata_bytes_def
      immediate_transaction_def insert_event_on_def sql_first_def sql_insert_ignore_def sql_exists_def demo_feedback_defs)

theorem feedback_stored_once_witness:
  "\<exists>d. insert_feedback_idempotent sample_ext demo_rate 7 demo_feedback = (Inr \<lparr>in_event = 1, in_replayed = False, in_received = 7\<rparr>, d)
     \<and> (\<exists>e\<in>set (fb_events d). event_key e = (''milk'', ''k'') \<and> fe_id e = 1)"
proof -
  have ok: "feedback_ok demo_feedback" by (simp add: feedback_ok_def demo_feedback_def keyed_def)
  have "fi_domain demo_rate = ''milk''" "fi_key demo_rate = ''k''" by (simp_all add: demo_rate_def)
  then show ?thesis
    using feedback_stored_once[OF ok demo_rate_stored feedback_later.now refl refl] demo_rate_stored
    by (metis feedback_ingested.select_convs(1))
qed

end
