(* ===== verification/Search.thy ===== *)
theory Search
  imports Qug Read_Side Feedback
begin

text \<open>
  Answering a query (\<^verbatim>\<open>query_engine/mod.rs\<close>, \<^verbatim>\<open>query_engine/hybrid.rs\<close>, \<^verbatim>\<open>query_engine/cache.rs\<close> and
  \<^verbatim>\<open>search_candidates\<close> of \<^verbatim>\<open>kernel/sqlite.rs\<close>): rewriting, filtering with one relaxation, full-text and vector
  recall, rank fusion, the cache and the query log. SQLite's full-text index, the embedder, the vector
  store and the texts of serialized queries are the record \<open>search_env\<close>; the moka cache is the map of what it still holds.
\<close>

section \<open>Full-text recall\<close>

text \<open>\<^verbatim>\<open>LIKE\<close>: \<^verbatim>\<open>%\<close> stands for any scalars, \<^verbatim>\<open>_\<close> for one, and ASCII letters match in either case.\<close>

definition ascii_fold :: "nat \<Rightarrow> nat" where
  "ascii_fold c = (if 65 \<le> c \<and> c \<le> 90 then c + 32 else c)"

fun like_scalars :: "nat list \<Rightarrow> nat list \<Rightarrow> bool" where
  "like_scalars [] s = (s = [])"
| "like_scalars (p # ps) [] = (p = 37 \<and> like_scalars ps [])"
| "like_scalars (p # ps) (c # cs) =
     (if p = 37 then like_scalars ps (c # cs) \<or> like_scalars (p # ps) cs
      else (p = 95 \<or> ascii_fold p = ascii_fold c) \<and> like_scalars ps cs)"

definition like_contains :: "string \<Rightarrow> string \<Rightarrow> bool" where
  "like_contains term text = like_scalars (37 # scalars term @ [37]) (scalars text)"

record search_row =
  sr_hit :: "string \<times> string \<times> string"
  sr_score :: rat

type_synonym store_rank = "db \<Rightarrow> fts_rank"
type_synonym row_order = "search_row list \<Rightarrow> search_row list"

definition term_score :: "store_rank \<Rightarrow> db \<Rightarrow> string \<Rightarrow> page_row \<Rightarrow> rat option" where
  "term_score rank d term p =
     (if length (scalars term) \<ge> 3 then rank d term p
      else if like_contains term (pg_title p) \<or> like_contains term (pg_content p) then Some 1
      else None)"

text \<open>The entities the filters let through: the category texts of the matching entities.\<close>

definition filter_admits :: "filters \<Rightarrow> db \<Rightarrow> string \<Rightarrow> bool" where
  "filter_admits fs d entity =
     (case filter_where fs of
        None \<Rightarrow> True
      | Some w \<Rightarrow> sql_exists (\<lambda>f. fa_text f = Some entity \<and> fa_field f = ''category'' \<and> fa_type f = ''text''
                     \<and> sql_exists (\<lambda>g. fa_entity g = fa_entity f \<and> w d (fa_entity g)) (db_facts d)) (db_facts d))"

definition row_admitted :: "filters \<Rightarrow> string option \<Rightarrow> entity_id list option \<Rightarrow> db \<Rightarrow> page_row \<Rightarrow> bool" where
  "row_admitted fs domain ids d p =
     (pg_status p = AcceptedPage
      \<and> (case domain of None \<Rightarrow> True | Some dm \<Rightarrow> pg_domain p = dm)
      \<and> (case ids of None \<Rightarrow> True | Some is \<Rightarrow> pg_entity p \<in> to_key ` set is)
      \<and> filter_admits fs d (pg_entity p))"

definition term_rows ::
  "store_rank \<Rightarrow> filters \<Rightarrow> string option \<Rightarrow> entity_id list option \<Rightarrow> db \<Rightarrow> string \<Rightarrow> search_row list" where
  "term_rows rank fs domain ids d term =
     List.map_filter (\<lambda>p. if row_admitted fs domain ids d p
       then map_option (\<lambda>s. \<lparr>sr_hit = (pg_id p, pg_entity p, pg_title p), sr_score = s\<rparr>) (term_score rank d term p)
       else None) (db_pages d)"

definition row_hit :: "search_row \<Rightarrow> search_hit result" where
  "row_hit r =
     (case sr_hit r of (page, entity, title) \<Rightarrow>
        try_bind (from_key entity) (\<lambda>e. Inr
          \<lparr>sh_page = page, sh_entity = e, sh_score = Fin (rnd f32 (sr_score r)), sh_title = title\<rparr>))"

text \<open>The best row of every page; of two equal scores the first stays.\<close>

fun put_best :: "search_hit \<Rightarrow> search_hit list \<Rightarrow> search_hit list" where
  "put_best h [] = [h]"
| "put_best h (p # ps) =
     (if sh_page p = sh_page h then (if f_ge (sh_score p) (sh_score h) then p else h) # ps
      else p # put_best h ps)"

text \<open>\<^verbatim>\<open>sort_by\<close> with descending scores, then page ids; scores that do not compare count as equal.\<close>

definition hit_before :: "search_hit \<Rightarrow> search_hit \<Rightarrow> bool" where
  "hit_before a b =
     (f_lt (sh_score b) (sh_score a) \<or> (\<not> f_lt (sh_score a) (sh_score b) \<and> sh_page a \<le> sh_page b))"

fun insert_hit :: "search_hit \<Rightarrow> search_hit list \<Rightarrow> search_hit list" where
  "insert_hit h [] = [h]"
| "insert_hit h (p # ps) = (if hit_before h p then h # p # ps else p # insert_hit h ps)"

fun sort_hits :: "search_hit list \<Rightarrow> search_hit list" where
  "sort_hits [] = []"
| "sort_hits (h # hs) = insert_hit h (sort_hits hs)"

definition search_candidates ::
  "store_rank \<Rightarrow> row_order \<Rightarrow> string list \<Rightarrow> filters \<Rightarrow> nat \<Rightarrow> string option \<Rightarrow> entity_id list option \<Rightarrow> db
   \<Rightarrow> search_hit list result" where
  "search_candidates rank order terms fs top_k domain ids d =
     (if ids = Some [] then Inr []
      else let k = max top_k 1;
               ts = (if terms = [] then [''''] else remdups_adj terms);
               rows = take k (order (concat (map (term_rows rank fs domain ids d) ts)))
           in try_bind (collect_results (map row_hit rows)) (\<lambda>hits.
              Inr (take k (sort_hits (foldl (\<lambda>best h. put_best h best) [] hits)))))"

section \<open>Rank fusion\<close>

definition rrf_k_default :: nat where "rrf_k_default = 60"

record vector_hit =
  vh_id :: string
  vh_score :: flt
  vh_entity :: string
  vh_page :: string
  vh_hash :: string
  vh_generation :: nat

definition rank_weight :: "nat \<Rightarrow> nat \<Rightarrow> flt" where
  "rank_weight k i = f_div f32 (Fin 1) (f_add f32 (f_of_nat f32 k) (f_of_nat f32 (i + 1)))"

fun rrf_add :: "string \<Rightarrow> entity_id \<Rightarrow> string \<Rightarrow> flt \<Rightarrow> search_hit list \<Rightarrow> search_hit list" where
  "rrf_add page e title w [] = [\<lparr>sh_page = page, sh_entity = e, sh_score = f_add f32 (Fin 0) w, sh_title = title\<rparr>]"
| "rrf_add page e title w (h # hs) =
     (if sh_page h = page then h\<lparr>sh_score := f_add f32 (sh_score h) w\<rparr> # hs else h # rrf_add page e title w hs)"

fun rrf_fts :: "nat \<Rightarrow> nat \<Rightarrow> search_hit list \<Rightarrow> search_hit list \<Rightarrow> search_hit list" where
  "rrf_fts k i [] acc = acc"
| "rrf_fts k i (h # hs) acc = rrf_fts k (i + 1) hs (rrf_add (sh_page h) (sh_entity h) (sh_title h) (rank_weight k i) acc)"

definition vector_page :: "entity_id \<Rightarrow> vector_hit \<Rightarrow> string" where
  "vector_page e v = (if vh_page v = [] then to_key e else vh_page v)"

fun rrf_vectors :: "nat \<Rightarrow> nat \<Rightarrow> vector_hit list \<Rightarrow> search_hit list \<Rightarrow> search_hit list" where
  "rrf_vectors k i [] acc = acc"
| "rrf_vectors k i (v # vs) acc =
     (case from_key (vh_entity v) of
        Inl _ \<Rightarrow> rrf_vectors k (i + 1) vs acc
      | Inr e \<Rightarrow> rrf_vectors k (i + 1) vs (rrf_add (vector_page e v) e '''' (rank_weight k i) acc))"

definition rrf_merge :: "search_hit list \<Rightarrow> vector_hit list \<Rightarrow> nat \<Rightarrow> nat \<Rightarrow> search_hit list" where
  "rrf_merge fts vectors top_k k = take top_k (sort_hits (rrf_vectors k 0 vectors (rrf_fts k 0 fts [])))"

definition whitelist_filter :: "search_hit list \<Rightarrow> entity_id list option \<Rightarrow> search_hit list" where
  "whitelist_filter hits ids =
     (case ids of
        None \<Rightarrow> hits
      | Some is \<Rightarrow> if is = [] then [] else filter (\<lambda>h. sh_entity h \<in> set is) hits)"

section \<open>Relaxation\<close>

text \<open>\<^verbatim>\<open>DefaultFilterRelaxer\<close>: the first range loses its upper bound, or is dropped when it has none.\<close>

fun relax_once :: "filters \<Rightarrow> filters option" where
  "relax_once [] = None"
| "relax_once (c # cs) =
     (case c of
        NumericRange name lo hi \<Rightarrow>
          (case hi of
             Some _ \<Rightarrow> Some (NumericRange name lo None # cs)
           | None \<Rightarrow> (case lo of Some _ \<Rightarrow> Some cs | None \<Rightarrow> map_option ((#) c) (relax_once cs)))
      | _ \<Rightarrow> map_option ((#) c) (relax_once cs))"

section \<open>The engine\<close>

datatype rewrite_status = Applied | Fallback | Disabled | StaleBuild

record query_diagnostics =
  qd_status :: rewrite_status
  qd_filters :: filters
  qd_candidates :: nat
  qd_fts :: nat
  qd_vectors :: nat
  qd_rrf_k :: nat
  qd_relax_attempted :: bool
  qd_relax_succeeded :: bool

record cached_search =
  ch_hits :: "search_hit list"
  ch_rewritten :: "rewritten_query option"
  ch_failure :: bool
  ch_diagnostics :: query_diagnostics
  ch_empty_initial :: bool

record query_result =
  qr_hits :: "search_hit list"
  qr_rewritten :: "rewritten_query option"
  qr_failure :: bool
  qr_diagnostics :: query_diagnostics
  qr_latency :: nat
  qr_log :: "int option"

record engine =
  en_collection :: string
  en_multiplier :: nat
  en_rrf_k :: nat
  en_fts_only :: bool
  en_qug :: "qug_graph option"
  en_stale :: bool
  en_relaxer :: "(filters \<Rightarrow> filters option result) option"
  en_cached :: bool

record search_env =
  sx_rank :: store_rank
  sx_order :: row_order
  sx_lower :: "nat \<Rightarrow> nat list"
  sx_links :: link_order
  sx_embed :: "string \<Rightarrow> flt list result"
  sx_vectors :: "string \<Rightarrow> flt list \<Rightarrow> nat \<Rightarrow> entity_id list option \<Rightarrow> vector_hit list result"
  sx_query_json :: "query \<Rightarrow> string"
  sx_rewritten_json :: "rewritten_query \<Rightarrow> string"

text \<open>The store, the query log, and the cache with its index from pages to keys.\<close>

record search_state =
  ss_db :: db
  ss_logs :: "query_log list"
  ss_log_seq :: int
  ss_cache :: "string \<Rightarrow> cached_search option"
  ss_index :: "(string \<times> string) list"

definition engine_new :: "string \<Rightarrow> nat \<Rightarrow> nat \<Rightarrow> qug_graph option \<Rightarrow> engine result" where
  "engine_new collection multiplier k qug =
     (if \<not> (1 \<le> multiplier \<and> multiplier \<le> 20) then Inl Validation
      else Inr \<lparr>en_collection = collection, en_multiplier = multiplier, en_rrf_k = k, en_fts_only = False,
                en_qug = qug, en_stale = False, en_relaxer = None, en_cached = False\<rparr>)"

definition query_validate :: "query \<Rightarrow> unit result" where
  "query_validate q =
     (if length (scalars (q_text q)) > 4096 then Inl Validation
      else if q_top_k q = 0 \<or> q_top_k q > 100 then Inl Validation
      else Inr ())"

definition current_published_generation :: "string \<Rightarrow> db \<Rightarrow> int option" where
  "current_published_generation domain d =
     (let g = foldr max (map g_generation (filter (\<lambda>g. g_pack g = domain \<and> g_published g) (db_generations d))) 0
      in if g = 0 then None else Some g)"

definition has_version :: "vector_hit \<Rightarrow> bool" where
  "has_version v = (vh_hash v \<noteq> [] \<and> vh_generation v > 0)"

definition filter_stale_vector_hits :: "vector_hit list \<Rightarrow> db \<Rightarrow> vector_hit list" where
  "filter_stale_vector_hits hits d =
     (let triples = map (\<lambda>v. (vh_page v, vh_hash v, vh_generation v)) (filter has_version hits)
      in if triples = [] then []
         else let valid = validate_vector_payloads triples d
              in filter (\<lambda>v. has_version v \<and> vh_page v \<in> set valid) hits)"

section \<open>One search\<close>

definition query_rewrite ::
  "search_env \<Rightarrow> engine \<Rightarrow> query \<Rightarrow> rewritten_query option \<times> bool \<times> rewrite_status" where
  "query_rewrite E en q =
     (case en_qug en of
        Some g \<Rightarrow> (case rewrite (sx_lower E) (sx_links E) g q of
                     Some r \<Rightarrow> (Some r, False, Applied)
                   | None \<Rightarrow> (None, True, Fallback))
      | None \<Rightarrow> if en_stale en then (None, False, StaleBuild) else (None, False, Disabled))"

definition candidates_of :: "filters \<Rightarrow> db \<Rightarrow> entity_id list option result" where
  "candidates_of fs d = (if fs = [] then Inr None else try_bind (filter_page_candidates fs d) (\<lambda>ids. Inr (Some ids)))"

record relax_state =
  rx_filters :: filters
  rx_ids :: "entity_id list option"
  rx_empty :: bool
  rx_attempted :: bool
  rx_succeeded :: bool

text \<open>The candidates, after the one relaxation an empty set is granted.\<close>

definition relaxed_candidates :: "engine \<Rightarrow> filters \<Rightarrow> db \<Rightarrow> relax_state result" where
  "relaxed_candidates en fs d =
     try_bind (candidates_of fs d) (\<lambda>ids.
     if ids \<noteq> Some [] then Inr \<lparr>rx_filters = fs, rx_ids = ids, rx_empty = False, rx_attempted = False, rx_succeeded = False\<rparr>
     else let stay = \<lparr>rx_filters = fs, rx_ids = ids, rx_empty = True, rx_attempted = True, rx_succeeded = False\<rparr>
          in case en_relaxer en of
               None \<Rightarrow> Inr (stay\<lparr>rx_attempted := False\<rparr>)
             | Some relaxer \<Rightarrow>
                 try_bind (relaxer fs) (\<lambda>relaxed.
                 case relaxed of
                   None \<Rightarrow> Inr stay
                 | Some fs' \<Rightarrow>
                     try_bind (candidates_of fs' d) (\<lambda>retry.
                     Inr (if retry \<noteq> Some [] then stay\<lparr>rx_filters := fs', rx_ids := retry, rx_succeeded := True\<rparr> else stay))))"

definition join_words :: "string list \<Rightarrow> string" where
  "join_words ts = (case ts of [] \<Rightarrow> [] | u # us \<Rightarrow> u @ concat (map (\<lambda>t. CHR '' '' # t) us))"

definition recall_vectors :: "search_env \<Rightarrow> engine \<Rightarrow> string list \<Rightarrow> nat \<Rightarrow> entity_id list option \<Rightarrow> db \<Rightarrow> vector_hit list result" where
  "recall_vectors E en terms k ids d =
     (if en_fts_only en then Inr []
      else try_bind (sx_embed E (join_words terms)) (\<lambda>vec.
           try_bind (sx_vectors E (en_collection en) vec k ids) (\<lambda>hits.
           Inr (filter_stale_vector_hits hits d))))"

text \<open>What a search without the cache finds.\<close>

definition fresh_search :: "search_env \<Rightarrow> engine \<Rightarrow> query \<Rightarrow> db \<Rightarrow> cached_search result" where
  "fresh_search E en q d =
     (case query_rewrite E en q of (rewritten, failed, status) \<Rightarrow>
        let fs = (case rewritten of None \<Rightarrow> q_filters q | Some r \<Rightarrow> rw_filters r)
        in try_bind (relaxed_candidates en fs d) (\<lambda>rx.
           let count = (case rx_ids rx of None \<Rightarrow> 0 | Some ids \<Rightarrow> length ids);
               diag = \<lparr>qd_status = status, qd_filters = rx_filters rx, qd_candidates = count, qd_fts = 0, qd_vectors = 0,
                        qd_rrf_k = en_rrf_k en, qd_relax_attempted = rx_attempted rx, qd_relax_succeeded = rx_succeeded rx\<rparr>
           in if rx_ids rx = Some []
              then Inr \<lparr>ch_hits = [], ch_rewritten = rewritten, ch_failure = failed, ch_diagnostics = diag,
                        ch_empty_initial = rx_empty rx\<rparr>
              else let terms = (case rewritten of None \<Rightarrow> [q_text q] | Some r \<Rightarrow> rw_terms r);
                       k = min (max (q_top_k q * en_multiplier en) 50) 500
                   in try_bind (search_candidates (sx_rank E) (sx_order E) terms (rx_filters rx) k (q_domain q) (rx_ids rx) d) (\<lambda>fts.
                      try_bind (recall_vectors E en terms k (rx_ids rx) d) (\<lambda>vectors.
                      Inr \<lparr>ch_hits = whitelist_filter (rrf_merge fts vectors (q_top_k q) (en_rrf_k en)) (rx_ids rx),
                           ch_rewritten = rewritten, ch_failure = failed,
                           ch_diagnostics = diag\<lparr>qd_fts := length fts, qd_vectors := length vectors\<rparr>,
                           ch_empty_initial = rx_empty rx\<rparr>))))"

section \<open>The cache\<close>

definition cache_signature :: "string \<Rightarrow> filters \<Rightarrow> nat \<Rightarrow> string \<Rightarrow> int option \<Rightarrow> json" where
  "cache_signature text fs top_k domain gen =
     JArr [JStr text, JObj [(''conditions'', JArr (map condition_json fs))], JInt (int top_k), JStr domain,
           (case gen of None \<Rightarrow> JNull | Some g \<Rightarrow> JInt g)]"

definition cache_key :: "ext \<Rightarrow> string \<Rightarrow> filters \<Rightarrow> nat \<Rightarrow> string \<Rightarrow> int option \<Rightarrow> string" where
  "cache_key X text fs top_k domain gen = x_blake3 X (x_json_text X (cache_signature text fs top_k domain gen))"

definition domain_key :: "engine \<Rightarrow> query \<Rightarrow> string" where
  "domain_key en q = (case q_domain q of None \<Rightarrow> en_collection en | Some dm \<Rightarrow> dm)"

definition query_key :: "ext \<Rightarrow> engine \<Rightarrow> query \<Rightarrow> db \<Rightarrow> string" where
  "query_key X en q d =
     cache_key X (q_text q) (q_filters q) (q_top_k q) (domain_key en q) (current_published_generation (domain_key en q) d)"

definition cache_insert :: "string \<Rightarrow> cached_search \<Rightarrow> search_state \<Rightarrow> search_state" where
  "cache_insert key entry s =
     s\<lparr>ss_cache := (ss_cache s)(key \<mapsto> entry),
       ss_index := ss_index s @ map (\<lambda>p. (p, key)) (remdups (map sh_page (ch_hits entry)))\<rparr>"

definition invalidate_entity_ids :: "string list \<Rightarrow> search_state \<Rightarrow> search_state" where
  "invalidate_entity_ids pages s =
     s\<lparr>ss_cache := (\<lambda>k. if list_ex (\<lambda>(p, key). key = k \<and> p \<in> set pages) (ss_index s) then None else ss_cache s k),
       ss_index := filter (\<lambda>(p, key). p \<notin> set pages) (ss_index s)\<rparr>"

definition cache_clear :: "search_state \<Rightarrow> search_state" where
  "cache_clear s = s\<lparr>ss_cache := (\<lambda>k. None), ss_index := []\<rparr>"

section \<open>Search\<close>

definition default_log_domain :: string where "default_log_domain = ''__default__''"

definition log_query :: "search_env \<Rightarrow> query \<Rightarrow> cached_search \<Rightarrow> nat \<Rightarrow> int \<Rightarrow> search_state \<Rightarrow> int \<times> search_state" where
  "log_query E q c latency now s =
     (let i = ss_log_seq s + 1
      in (i, s\<lparr>ss_log_seq := i,
            ss_logs := ss_logs s @ [\<lparr>ql_id = i, ql_query = q_text q, ql_query_json = sx_query_json E q,
              ql_rewritten = map_option (sx_rewritten_json E) (ch_rewritten c), ql_rewrite_failure = ch_failure c,
              ql_hits = int (length (ch_hits c)), ql_latency = as_i64_cast latency, ql_timestamp = now,
              ql_domain = (case q_domain q of None \<Rightarrow> default_log_domain | Some dm \<Rightarrow> dm),
              ql_empty_initial = ch_empty_initial c, ql_relax_attempted = qd_relax_attempted (ch_diagnostics c),
              ql_relax_succeeded = qd_relax_succeeded (ch_diagnostics c)\<rparr>]\<rparr>))"

definition answer :: "cached_search \<Rightarrow> nat \<Rightarrow> int \<Rightarrow> query_result" where
  "answer c latency i =
     \<lparr>qr_hits = ch_hits c, qr_rewritten = ch_rewritten c, qr_failure = ch_failure c, qr_diagnostics = ch_diagnostics c,
      qr_latency = latency, qr_log = Some i\<rparr>"

definition search ::
  "ext \<Rightarrow> search_env \<Rightarrow> engine \<Rightarrow> query \<Rightarrow> nat \<Rightarrow> int \<Rightarrow> search_state \<Rightarrow> query_result result \<times> search_state" where
  "search X E en q latency now s =
     (case query_validate q of
        Inl e \<Rightarrow> (Inl e, s)
      | Inr _ \<Rightarrow>
          let key = query_key X en q (ss_db s)
          in case (if en_cached en then ss_cache s key else None) of
               Some c \<Rightarrow> (case log_query E q c latency now s of (i, s1) \<Rightarrow> (Inr (answer c latency i), s1))
             | None \<Rightarrow>
                 (case fresh_search E en q (ss_db s) of
                    Inl e \<Rightarrow> (Inl e, s)
                  | Inr c \<Rightarrow>
                      (case log_query E q c latency now s of (i, s1) \<Rightarrow>
                         (Inr (answer c latency i), if en_cached en then cache_insert key c s1 else s1))))"

end
