(* ===== verification/Search_Props.thy ===== *)
theory Search_Props
  imports Search "HOL-Library.Multiset" "HOL-Library.Countable"
begin

text \<open>
  What a search answers: hits that pass the filters and name accepted pages, the fused score of a page, the one
  relaxation, and the cache, which is transparent while the store stays as it is and blind to what its key leaves out.
\<close>

section \<open>Sorting hits\<close>

definition scores_finite :: "search_hit list \<Rightarrow> bool" where
  "scores_finite hs \<longleftrightarrow> (\<forall>h\<in>set hs. is_finite (sh_score h))"

lemma finite_score: "is_finite v \<longleftrightarrow> (\<exists>r. v = Fin r)"
  by (cases v) (auto simp: is_finite_def)

lemma hit_before_total: "is_finite (sh_score a) \<Longrightarrow> is_finite (sh_score b) \<Longrightarrow> \<not> hit_before a b \<Longrightarrow> hit_before b a"
  by (auto simp: hit_before_def finite_score)

lemma hit_before_trans:
  "is_finite (sh_score a) \<Longrightarrow> is_finite (sh_score b) \<Longrightarrow> is_finite (sh_score c) \<Longrightarrow>
     hit_before a b \<Longrightarrow> hit_before b c \<Longrightarrow> hit_before a c"
  by (auto simp: hit_before_def finite_score)

lemma mset_insert_hit: "mset (insert_hit h hs) = add_mset h (mset hs)"
  by (induction hs) auto

lemma mset_sort_hits: "mset (sort_hits hs) = mset hs"
  by (induction hs) (auto simp: mset_insert_hit)

lemma sort_hits_set [simp]: "set (sort_hits hs) = set hs" "length (sort_hits hs) = length hs"
  using mset_sort_hits[of hs] by (metis set_mset_mset, metis size_mset)

lemma sort_hits_distinct: "distinct (map f (sort_hits hs)) \<longleftrightarrow> distinct (map f hs)"
  using mset_sort_hits[of hs] by (metis mset_map mset_eq_imp_distinct_iff)

lemma insert_hit_sorted:
  assumes "sorted_wrt hit_before hs" "is_finite (sh_score h)" "scores_finite hs"
  shows "sorted_wrt hit_before (insert_hit h hs)"
  using assms
proof (induction hs)
  case (Cons p ps)
  have fin: "is_finite (sh_score p)" "\<forall>q\<in>set ps. is_finite (sh_score q)" using Cons.prems(3) by (auto simp: scores_finite_def)
  have set: "set (insert_hit h ps) = insert h (set ps)" using mset_insert_hit[of h ps] by (metis set_mset_add_mset_insert set_mset_mset)
  show ?case
  proof (cases "hit_before h p")
    case True
    then show ?thesis
      using Cons.prems fin hit_before_trans[of h p] by auto
  next
    case False
    then have "hit_before p h" using hit_before_total[of h p] Cons.prems(2) fin(1) by blast
    moreover have "sorted_wrt hit_before (insert_hit h ps)" using Cons fin by (simp add: scores_finite_def)
    ultimately show ?thesis using False Cons.prems(1) set by auto
  qed
qed simp

lemma sort_hits_sorted: "scores_finite hs \<Longrightarrow> sorted_wrt hit_before (sort_hits hs)"
  by (induction hs) (auto simp: scores_finite_def intro!: insert_hit_sorted)

section \<open>Full-text hits\<close>

lemma put_best_pages: "sh_page ` set (put_best h hs) = insert (sh_page h) (sh_page ` set hs)"
  by (induction hs) auto

lemma put_best_set: "set (put_best h hs) \<subseteq> insert h (set hs)"
  by (induction hs) auto

lemma put_best_distinct: "distinct (map sh_page hs) \<Longrightarrow> distinct (map sh_page (put_best h hs))"
  by (induction hs) (use put_best_pages in auto)

lemma best_hits_set: "set (foldl (\<lambda>best h. put_best h best) acc hs) \<subseteq> set hs \<union> set acc"
  by (induction hs arbitrary: acc) (use put_best_set in fastforce)+

lemma best_hits_distinct:
  "distinct (map sh_page acc) \<Longrightarrow> distinct (map sh_page (foldl (\<lambda>best h. put_best h best) acc hs))"
  by (induction hs arbitrary: acc) (simp_all add: put_best_distinct)

text \<open>The text of a page matches one of the terms; no term at all matches like the empty one.\<close>

definition text_matches :: "store_rank \<Rightarrow> string list \<Rightarrow> db \<Rightarrow> page_row \<Rightarrow> bool" where
  "text_matches rank terms d p \<longleftrightarrow> (\<exists>t\<in>set (if terms = [] then [''''] else terms). term_score rank d t p \<noteq> None)"

definition recalled ::
  "store_rank \<Rightarrow> string list \<Rightarrow> filters \<Rightarrow> string option \<Rightarrow> entity_id list option \<Rightarrow> db \<Rightarrow> search_hit \<Rightarrow> bool" where
  "recalled rank terms fs domain ids d h \<longleftrightarrow> (\<exists>p\<in>set (db_pages d). sh_page h = pg_id p \<and> from_key (pg_entity p) = Inr (sh_entity h)
     \<and> sh_title h = pg_title p \<and> row_admitted fs domain ids d p \<and> text_matches rank terms d p)"

lemma set_map_filter_Some: "x \<in> set (List.map_filter f xs) \<longleftrightarrow> (\<exists>y\<in>set xs. f y = Some x)"
  by (force simp: List.map_filter_def)

lemma search_candidates_sound:
  assumes "search_candidates rank order terms fs top_k domain ids d = Inr hits" "\<And>rs. set (order rs) \<subseteq> set rs"
  shows "length hits \<le> max top_k 1" "distinct (map sh_page hits)" "\<forall>h\<in>set hits. recalled rank terms fs domain ids d h"
    "scores_finite hits"
proof -
  let ?ts = "if terms = [] then [''''] else remdups_adj terms"
  let ?rows = "take (max top_k 1) (order (concat (map (term_rows rank fs domain ids d) ?ts)))"
  have "length hits \<le> max top_k 1 \<and> distinct (map sh_page hits) \<and> (\<forall>h\<in>set hits. recalled rank terms fs domain ids d h \<and> is_finite (sh_score h))"
  proof (cases "ids = Some []")
    case False
    then obtain found where 2: "collect_results (map row_hit ?rows) = Inr found"
      "hits = take (max top_k 1) (sort_hits (foldl (\<lambda>best h. put_best h best) [] found))"
      using assms(1) unfolding search_candidates_def Let_def by (simp only: if_False try_bind_eq_Inr sum.inject) blast
    have row: "recalled rank terms fs domain ids d h \<and> is_finite (sh_score h)" if h: "h \<in> set found" for h
    proof -
      have "map row_hit ?rows = map Inr found" using 2(1) by (simp add: collect_results_eq_Inr)
      then obtain r where r: "r \<in> set ?rows" "row_hit r = Inr h" using h by (metis (no_types) in_set_conv_nth length_map nth_map)
      have "r \<in> set (concat (map (term_rows rank fs domain ids d) ?ts))"
        using subsetD[OF assms(2) in_set_takeD[OF r(1)]] .
      then obtain t where "t \<in> set ?ts" "r \<in> set (term_rows rank fs domain ids d t)" by auto
      then obtain p sc where p: "p \<in> set (db_pages d)" "row_admitted fs domain ids d p" "r = \<lparr>sr_hit = (pg_id p, pg_entity p, pg_title p), sr_score = sc\<rparr>"
        and t: "t \<in> set (if terms = [] then [''''] else terms)" "term_score rank d t p = Some sc"
        by (auto simp: term_rows_def set_map_filter_Some split: if_splits)
      then have "text_matches rank terms d p" unfolding text_matches_def by blast
      with p r(2) show ?thesis by (auto simp: row_hit_def recalled_def)
    qed
    have sub: "set hits \<subseteq> set found" using best_hits_set[of "[]" found] set_take_subset[of "max top_k 1"] by (fastforce simp: 2(2))
    have dist: "distinct (map sh_page (sort_hits (foldl (\<lambda>best h. put_best h best) [] found)))"
      using best_hits_distinct[of "[]" found] by (simp add: sort_hits_distinct)
    then have "distinct (map sh_page hits)" unfolding 2(2) take_map[symmetric] by (rule distinct_take)
    with sub row show ?thesis by (auto simp: 2(2))
  qed (use assms(1) in \<open>simp add: search_candidates_def\<close>)
  then show "length hits \<le> max top_k 1" "distinct (map sh_page hits)" "\<forall>h\<in>set hits. recalled rank terms fs domain ids d h"
    "scores_finite hits" by (auto simp: scores_finite_def)
qed

section \<open>The fused score\<close>

text \<open>The reference: a page's score is the sum of the weights of its ranks, the full-text ranks first.\<close>

definition hit_pages :: "vector_hit list \<Rightarrow> string list" where
  "hit_pages vs = List.map_filter (\<lambda>v. case from_key (vh_entity v) of Inl _ \<Rightarrow> None | Inr e \<Rightarrow> Some (vector_page e v)) vs"

definition fts_ranks :: "string \<Rightarrow> search_hit list \<Rightarrow> nat \<Rightarrow> nat list" where
  "fts_ranks page fts i = map fst (filter (\<lambda>(j, h). sh_page h = page) (enumerate i fts))"

definition vector_ranks :: "string \<Rightarrow> vector_hit list \<Rightarrow> nat \<Rightarrow> nat list" where
  "vector_ranks page vs i = map fst (filter (\<lambda>(j, v). case from_key (vh_entity v) of Inl _ \<Rightarrow> False | Inr e \<Rightarrow> vector_page e v = page) (enumerate i vs))"

definition sum_ranks :: "nat \<Rightarrow> flt \<Rightarrow> nat list \<Rightarrow> flt" where
  "sum_ranks k z rs = foldl (\<lambda>z r. f_add f32 z (rank_weight k r)) z rs"

definition fused_score :: "nat \<Rightarrow> search_hit list \<Rightarrow> vector_hit list \<Rightarrow> string \<Rightarrow> flt" where
  "fused_score k fts vs page = sum_ranks k (Fin 0) (fts_ranks page fts 0 @ vector_ranks page vs 0)"

definition score_of :: "string \<Rightarrow> search_hit list \<Rightarrow> flt option" where
  "score_of page acc = map_option sh_score (find (\<lambda>h. sh_page h = page) acc)"

lemma score_of_simps [simp]:
  "score_of page [] = None"
  "score_of page (h # hs) = (if sh_page h = page then Some (sh_score h) else score_of page hs)"
  by (simp_all add: score_of_def)

lemma rrf_add_pages: "set (map sh_page (rrf_add p e t w acc)) = insert p (set (map sh_page acc))"
  by (induction acc) auto

lemma rrf_add_distinct: "distinct (map sh_page acc) \<Longrightarrow> distinct (map sh_page (rrf_add p e t w acc))"
  by (induction acc) (use rrf_add_pages in auto)

lemma rrf_add_score:
  "score_of page (rrf_add p e t w acc) =
     (if page = p then Some (f_add f32 (case score_of p acc of None \<Rightarrow> Fin 0 | Some z \<Rightarrow> z) w) else score_of page acc)"
  by (induction acc) auto

text \<open>A score and the ranks still to be added to it.\<close>

definition added :: "nat \<Rightarrow> flt option \<Rightarrow> nat list \<Rightarrow> flt option" where
  "added k z rs = (if z = None \<and> rs = [] then None else Some (sum_ranks k (case z of None \<Rightarrow> Fin 0 | Some x \<Rightarrow> x) rs))"

lemma added_Nil [simp]: "added k z [] = z"
  by (cases z) (simp_all add: added_def sum_ranks_def)

lemma added_Cons: "added k z (r # rs) = added k (Some (f_add f32 (case z of None \<Rightarrow> Fin 0 | Some x \<Rightarrow> x) (rank_weight k r))) rs"
  by (simp add: added_def sum_ranks_def)

lemma added_append: "added k (added k z rs) rs' = added k z (rs @ rs')"
  by (induction rs arbitrary: z) (simp_all add: added_Cons)

lemma rrf_fts_score: "score_of page (rrf_fts k i hs acc) = added k (score_of page acc) (fts_ranks page hs i)"
  by (induction hs arbitrary: i acc) (simp_all add: fts_ranks_def rrf_add_score added_Cons)

lemma rrf_vectors_score:
  "score_of page (rrf_vectors k i vs acc) = added k (score_of page acc) (vector_ranks page vs i)"
proof (induction vs arbitrary: i acc)
  case (Cons v vs)
  then show ?case
    by (cases "from_key (vh_entity v)") (simp_all add: vector_ranks_def rrf_add_score added_Cons)
qed (simp add: vector_ranks_def)

lemma rrf_fts_distinct: "distinct (map sh_page acc) \<Longrightarrow> distinct (map sh_page (rrf_fts k i hs acc))"
  by (induction hs arbitrary: i acc) (simp_all add: rrf_add_distinct)

lemma rrf_vectors_distinct: "distinct (map sh_page acc) \<Longrightarrow> distinct (map sh_page (rrf_vectors k i vs acc))"
proof (induction vs arbitrary: i acc)
  case (Cons v vs)
  then show ?case by (cases "from_key (vh_entity v)") (simp_all add: rrf_add_distinct)
qed simp

lemma score_of_distinct: "distinct (map sh_page acc) \<Longrightarrow> h \<in> set acc \<Longrightarrow> score_of (sh_page h) acc = Some (sh_score h)"
  by (induction acc) auto

lemma score_of_None: "score_of page acc = None \<longleftrightarrow> page \<notin> sh_page ` set acc"
  by (induction acc) auto

lemma added_None: "added k z rs = None \<longleftrightarrow> z = None \<and> rs = []"
  by (simp add: added_def)

lemma fts_ranks_Nil: "fts_ranks page hs i = [] \<longleftrightarrow> page \<notin> sh_page ` set hs"
  by (induction hs arbitrary: i) (auto simp: fts_ranks_def)

lemma vector_ranks_Nil: "vector_ranks page vs i = [] \<longleftrightarrow> page \<notin> set (hit_pages vs)"
proof (induction vs arbitrary: i)
  case (Cons v vs)
  then show ?case
    by (cases "from_key (vh_entity v)") (auto simp: vector_ranks_def hit_pages_def List.map_filter_simps)
qed (simp add: vector_ranks_def hit_pages_def List.map_filter_simps)

lemma rank_weight_pos: "\<exists>w. rank_weight k i = Fin w \<and> 0 \<le> w"
proof -
  have "1 \<le> rnd f32 (of_nat (i + 1))" by (rule rnd_ge_one) simp_all
  moreover have "0 \<le> rnd f32 (of_nat k)" by (rule rnd_nonneg) simp_all
  ultimately have "1 \<le> rnd f32 (rnd f32 (of_nat k) + rnd f32 (of_nat (i + 1)))"
    by (intro rnd_ge_one) simp_all
  then show ?thesis
    by (auto simp: rank_weight_def f_of_nat_def intro!: rnd_nonneg)
qed

lemma sum_ranks_finite: "is_finite z \<Longrightarrow> is_finite (sum_ranks k z rs)"
proof (induction rs arbitrary: z)
  case (Cons r rs)
  obtain w where "rank_weight k r = Fin w" using rank_weight_pos by blast
  with Cons show ?case by (auto simp: sum_ranks_def finite_score)
qed (simp add: sum_ranks_def)

lemma hit_before_scores:
  assumes "hit_before a b" "is_finite (sh_score a)" "is_finite (sh_score b)"
  shows "f_lt (sh_score b) (sh_score a) \<or> sh_score b = sh_score a \<and> sh_page a \<le> sh_page b"
  using assms by (auto simp: hit_before_def finite_score)

lemma fused_hits:
  fixes k fts vs
  defines "acc \<equiv> rrf_vectors k 0 vs (rrf_fts k 0 fts [])"
  shows "distinct (map sh_page acc)" "sh_page ` set acc = sh_page ` set fts \<union> set (hit_pages vs)"
    "\<forall>h\<in>set acc. sh_score h = fused_score k fts vs (sh_page h)" "scores_finite acc"
proof -
  show dist: "distinct (map sh_page acc)" unfolding acc_def by (intro rrf_vectors_distinct rrf_fts_distinct) simp
  have score: "score_of page acc = added k None (fts_ranks page fts 0 @ vector_ranks page vs 0)" for page
    by (simp add: acc_def rrf_vectors_score rrf_fts_score added_append)
  have "page \<in> sh_page ` set acc \<longleftrightarrow> page \<in> sh_page ` set fts \<union> set (hit_pages vs)" for page
  proof -
    have "page \<notin> sh_page ` set acc \<longleftrightarrow> fts_ranks page fts 0 = [] \<and> vector_ranks page vs 0 = []"
      unfolding score_of_None[symmetric] score added_None by simp
    then show ?thesis unfolding fts_ranks_Nil vector_ranks_Nil by blast
  qed
  then show "sh_page ` set acc = sh_page ` set fts \<union> set (hit_pages vs)" by blast
  show val: "\<forall>h\<in>set acc. sh_score h = fused_score k fts vs (sh_page h)"
  proof
    fix h assume "h \<in> set acc"
    then show "sh_score h = fused_score k fts vs (sh_page h)"
      using score_of_distinct[OF dist, of h] score[of "sh_page h"] by (auto simp: added_def fused_score_def split: if_splits)
  qed
  show "scores_finite acc" using val by (auto simp: scores_finite_def fused_score_def intro: sum_ranks_finite)
qed

lemma merged_hits:
  fixes k fts vs top_k
  defines "merged \<equiv> rrf_merge fts vs top_k k"
  shows "distinct (map sh_page merged)" "length merged \<le> top_k" "sorted_wrt hit_before merged"
    "sh_page ` set merged \<subseteq> sh_page ` set fts \<union> set (hit_pages vs)"
proof -
  let ?all = "sort_hits (rrf_vectors k 0 vs (rrf_fts k 0 fts []))"
  have m: "merged = take top_k ?all" by (simp add: merged_def rrf_merge_def)
  have "distinct (map sh_page ?all)" using fused_hits(1) by (simp add: sort_hits_distinct)
  then show "distinct (map sh_page merged)" unfolding m take_map[symmetric] by (rule distinct_take)
  show "length merged \<le> top_k" by (simp add: m)
  show "sorted_wrt hit_before merged" unfolding m by (rule sorted_wrt_take[OF sort_hits_sorted[OF fused_hits(4)]])
  show "sh_page ` set merged \<subseteq> sh_page ` set fts \<union> set (hit_pages vs)"
    using fused_hits(2)[of k vs fts] image_mono[OF set_take_subset[of top_k ?all], of sh_page] by (simp add: m)
qed

text \<open>C17. The fusion of the two rankings returns the best \<open>top_k\<close> pages of either: each once, with the sum of the
  weights 1/(k + rank) of its ranks in both as its score, in descending order with page ids breaking
  ties, and no page left out comes before one that is returned. \<close>

theorem rrf_merge_exact:
  fixes k fts vs top_k
  defines "pages \<equiv> sh_page ` set fts \<union> set (hit_pages vs)" and "merged \<equiv> rrf_merge fts vs top_k k"
  shows "distinct (map sh_page merged) \<and> length merged = min top_k (card pages) \<and> sorted_wrt hit_before merged
    \<and> (\<forall>h\<in>set merged. sh_page h \<in> pages \<and> sh_score h = fused_score k fts vs (sh_page h))
    \<and> (\<forall>page\<in>pages - sh_page ` set merged. \<forall>h\<in>set merged.
          f_lt (fused_score k fts vs page) (sh_score h) \<or> fused_score k fts vs page = sh_score h \<and> sh_page h \<le> page)"
proof -
  let ?acc = "rrf_vectors k 0 vs (rrf_fts k 0 fts [])"
  let ?all = "sort_hits ?acc"
  have m: "merged = take top_k ?all" by (simp add: merged_def rrf_merge_def)
  note acc = fused_hits[of k vs fts, folded pages_def]
  have "card pages = length ?acc" using distinct_card[OF acc(1)] acc(2) by simp
  then have len: "length merged = min top_k (card pages)" by (simp add: m)
  have sub: "set merged \<subseteq> set ?acc" using set_take_subset[of top_k ?all] by (simp add: m)
  have val: "sh_page h \<in> pages \<and> sh_score h = fused_score k fts vs (sh_page h)" if "h \<in> set merged" for h
  proof
    have h: "h \<in> set ?acc" using that sub by (rule subsetD[rotated])
    then show "sh_score h = fused_score k fts vs (sh_page h)" using acc(3) by (rule bspec[rotated])
    show "sh_page h \<in> pages" using imageI[OF h, of sh_page] unfolding acc(2) .
  qed
  have rest: "f_lt (fused_score k fts vs page) (sh_score h) \<or> fused_score k fts vs page = sh_score h \<and> sh_page h \<le> page"
    if "page \<in> pages - sh_page ` set merged" "h \<in> set merged" for page h
  proof -
    have "page \<in> sh_page ` set ?acc" unfolding acc(2) using that(1) by (rule DiffD1)
    then obtain h' where h': "h' \<in> set ?acc" "sh_page h' = page" by (elim imageE) simp
    have "h' \<notin> set merged" using that(1) imageI[of h' "set merged" sh_page] h'(2) by (metis DiffD2)
    moreover have "h' \<in> set (take top_k ?all @ drop top_k ?all)" using h'(1) by simp
    ultimately have "h' \<in> set (drop top_k ?all)" unfolding m set_append by blast
    moreover have "sorted_wrt hit_before (take top_k ?all @ drop top_k ?all)" using sort_hits_sorted[OF acc(4)] by simp
    ultimately have "hit_before h h'" using that(2) unfolding m sorted_wrt_append by blast
    then have "f_lt (sh_score h') (sh_score h) \<or> sh_score h' = sh_score h \<and> sh_page h \<le> sh_page h'"
      using acc(4) h'(1) that(2) sub by (intro hit_before_scores) (auto simp: scores_finite_def)
    then show ?thesis using acc(3) h' by auto
  qed
  show ?thesis using merged_hits(1,3)[of fts vs top_k k, folded merged_def] len val rest by simp
qed

theorem rrf_merge_exact_witness:
  "let fts = [\<lparr>sh_page = ''b'', sh_entity = \<lparr>eid_domain = ''d'', eid_type = ''t'', eid_local = ''b''\<rparr>, sh_score = Fin 1, sh_title = ''B''\<rparr>,
                \<lparr>sh_page = ''a'', sh_entity = \<lparr>eid_domain = ''d'', eid_type = ''t'', eid_local = ''a''\<rparr>, sh_score = Fin 1, sh_title = ''A''\<rparr>];
       merged = rrf_merge fts [] 5 60
   in length merged = 2 \<and> sorted_wrt hit_before merged \<and> distinct (map sh_page merged)"
proof -
  let ?fts = "[\<lparr>sh_page = ''b'', sh_entity = \<lparr>eid_domain = ''d'', eid_type = ''t'', eid_local = ''b''\<rparr>, sh_score = Fin 1, sh_title = ''B''\<rparr>,
                \<lparr>sh_page = ''a'', sh_entity = \<lparr>eid_domain = ''d'', eid_type = ''t'', eid_local = ''a''\<rparr>, sh_score = Fin 1, sh_title = ''A''\<rparr>]"
  have "card (sh_page ` set ?fts \<union> set (hit_pages [])) = 2" by (simp add: hit_pages_def)
  then show ?thesis using rrf_merge_exact[where fts = ?fts and vs = "[]" and top_k = 5 and k = 60] by (simp add: Let_def)
qed

section \<open>Candidates\<close>

definition category_admits :: "db \<Rightarrow> filters \<Rightarrow> string \<Rightarrow> bool" where
  "category_admits d fs key \<longleftrightarrow> (\<exists>f\<in>set (db_facts d). fa_field f = ''category'' \<and> fa_type f = ''text''
     \<and> fa_text f = Some key \<and> all_match d (fa_entity f) fs)"

lemma candidates_admitted:
  assumes "keyed fact_key (db_facts d)" "ranges_finite fs" "candidates_of fs d = Inr (Some ids)" "e \<in> set ids"
  shows "category_admits d fs (to_key e)"
proof -
  have c: "filter_page_candidates fs d = Inr ids" "fs \<noteq> []" using assms(3) by (auto simp: candidates_of_def split: if_splits)
  obtain w where w: "filter_where fs = Some w"
    using c assms(4) by (auto simp: filter_page_candidates_def split: option.splits)
  have "map from_key (remdups (List.map_filter
      (\<lambda>f. if fa_field f = ''category'' \<and> fa_type f = ''text'' \<and> sql_exists (\<lambda>g. fa_entity g = fa_entity f \<and> w d (fa_entity g)) (db_facts d)
           then fa_text f else None) (db_facts d))) = map Inr ids"
    using c w by (simp add: filter_page_candidates_def collect_results_eq_Inr)
  from map_from_key[OF this] have "to_key e \<in> set (remdups (List.map_filter
      (\<lambda>f. if fa_field f = ''category'' \<and> fa_type f = ''text'' \<and> sql_exists (\<lambda>g. fa_entity g = fa_entity f \<and> w d (fa_entity g)) (db_facts d)
           then fa_text f else None) (db_facts d)))" using assms(4) by simp
  then obtain f where f: "f \<in> set (db_facts d)" "fa_field f = ''category''" "fa_type f = ''text''" "fa_text f = Some (to_key e)"
    "w d (fa_entity f)"
    by (auto simp: set_map_filter_Some sql_exists_iff split: if_splits)
  then have "all_match d (fa_entity f) fs" using filter_where_matches[OF assms(1,2) w] by (simp add: all_match_def)
  with f show ?thesis by (auto simp: category_admits_def)
qed

lemma relaxed_cases:
  assumes "relaxed_candidates en fs d = Inr rx"
  shows "candidates_of (rx_filters rx) d = Inr (rx_ids rx)"
    "rx_filters rx = fs \<or> rx_succeeded rx \<and> candidates_of fs d = Inr (Some [])
       \<and> (\<exists>relaxer. en_relaxer en = Some relaxer \<and> relaxer fs = Inr (Some (rx_filters rx)))"
  using assms by (auto simp: relaxed_candidates_def Let_def split: if_splits option.splits)

text \<open>A vector is of the page as it is now: the accepted page has the content hash and the generation of its payload.\<close>

definition vector_current :: "db \<Rightarrow> vector_hit \<Rightarrow> bool" where
  "vector_current d v \<longleftrightarrow> (\<exists>p\<in>set (db_pages d). pg_id p = vh_page v \<and> pg_status p = AcceptedPage
     \<and> pg_hash p = vh_hash v \<and> pg_generation p = int (vh_generation v))"

lemma fresh_vectors:
  assumes "v \<in> set (filter_stale_vector_hits hits d)"
  shows "v \<in> set hits \<and> vector_current d v"
  using assms unfolding vector_current_def
  by (auto simp: filter_stale_vector_hits_def validate_vector_payloads_def payload_matches_def sql_exists_iff list_all_iff Let_def
      split: if_splits)

section \<open>One search\<close>

text \<open>What a search found is described by the store it ran on.\<close>

text \<open>
  Where a page of the result comes from: the text of an accepted page of the queried domain matches a search term, or
  the vector store answered a vector that is of the accepted page as it is now.
\<close>

definition text_found :: "search_env \<Rightarrow> query \<Rightarrow> string list \<Rightarrow> db \<Rightarrow> string \<Rightarrow> bool" where
  "text_found E q terms d page \<longleftrightarrow> (\<exists>p\<in>set (db_pages d). pg_id p = page \<and> pg_status p = AcceptedPage
     \<and> (q_domain q = None \<or> q_domain q = Some (pg_domain p)) \<and> text_matches (sx_rank E) terms d p)"

definition vector_found :: "search_env \<Rightarrow> engine \<Rightarrow> string list \<Rightarrow> db \<Rightarrow> string \<Rightarrow> bool" where
  "vector_found E en terms d page \<longleftrightarrow> \<not> en_fts_only en \<and> (\<exists>vec k ids vs v. sx_embed E (join_words terms) = Inr vec
     \<and> sx_vectors E (en_collection en) vec k ids = Inr vs \<and> v \<in> set vs \<and> vh_page v = page \<and> vector_current d v)"

definition found_in :: "search_env \<Rightarrow> engine \<Rightarrow> query \<Rightarrow> db \<Rightarrow> cached_search \<Rightarrow> bool" where
  "found_in E en q d c \<longleftrightarrow>
     (let fs = qd_filters (ch_diagnostics c);
          own = (case ch_rewritten c of None \<Rightarrow> q_filters q | Some r \<Rightarrow> rw_filters r);
          terms = (case ch_rewritten c of None \<Rightarrow> [q_text q] | Some r \<Rightarrow> rw_terms r)
      in length (ch_hits c) \<le> q_top_k q \<and> distinct (map sh_page (ch_hits c)) \<and> sorted_wrt hit_before (ch_hits c)
       \<and> (\<forall>h\<in>set (ch_hits c). text_found E q terms d (sh_page h) \<or> vector_found E en terms d (sh_page h))
       \<and> (fs \<noteq> [] \<and> ranges_finite fs \<longrightarrow> (\<forall>h\<in>set (ch_hits c). category_admits d fs (to_key (sh_entity h))))
       \<and> (fs = own \<or> qd_relax_succeeded (ch_diagnostics c) \<and> candidates_of own d = Inr (Some [])
            \<and> (\<exists>relaxer. en_relaxer en = Some relaxer \<and> relaxer own = Inr (Some fs))))"

lemma recall_vectors_pages:
  assumes "recall_vectors E en terms k ids d = Inr vs" "\<forall>p\<in>set (db_pages d). pg_id p \<noteq> []" "page \<in> set (hit_pages vs)"
  shows "vector_found E en terms d page"
proof -
  obtain v where v0: "v \<in> set vs" "(case from_key (vh_entity v) of Inl _ \<Rightarrow> None | Inr e \<Rightarrow> Some (vector_page e v)) = Some page"
    using assms(3) by (auto simp: hit_pages_def set_map_filter_Some)
  then obtain e where v: "v \<in> set vs" "from_key (vh_entity v) = Inr e" "page = vector_page e v"
    by (cases "from_key (vh_entity v)") auto
  obtain vec hits where h: "\<not> en_fts_only en" "sx_embed E (join_words terms) = Inr vec" "sx_vectors E (en_collection en) vec k ids = Inr hits"
    "vs = filter_stale_vector_hits hits d"
    using assms(1) v(1) by (auto simp: recall_vectors_def split: if_splits)
  then have cur: "v \<in> set hits" "vector_current d v" using fresh_vectors v(1) by blast+
  then have "vh_page v \<noteq> []" using assms(2) by (auto simp: vector_current_def)
  then have "vh_page v = page" using v(3) by (simp add: vector_page_def)
  with h cur show ?thesis unfolding vector_found_def by blast
qed

lemma fresh_search_found:
  assumes f: "fresh_search E en q d = Inr c" and order: "\<And>rs. set (sx_order E rs) \<subseteq> set rs"
    and k: "keyed fact_key (db_facts d)" and ids: "\<forall>p\<in>set (db_pages d). pg_id p \<noteq> []"
  shows "found_in E en q d c"
proof -
  obtain rewritten failed status where rw: "query_rewrite E en q = (rewritten, failed, status)" by (cases "query_rewrite E en q")
  let ?own = "case rewritten of None \<Rightarrow> q_filters q | Some r \<Rightarrow> rw_filters r"
  let ?terms = "case rewritten of None \<Rightarrow> [q_text q] | Some r \<Rightarrow> rw_terms r"
  let ?k = "min (max (q_top_k q * en_multiplier en) 50) 500"
  obtain rx where rx: "relaxed_candidates en ?own d = Inr rx"
    using f rw by (auto simp: fresh_search_def Let_def)
  note rxc = relaxed_cases[OF rx]
  show ?thesis
  proof (cases "rx_ids rx = Some []")
    case True
    then have c: "ch_hits c = []" "ch_rewritten c = rewritten" "qd_filters (ch_diagnostics c) = rx_filters rx"
      "qd_relax_succeeded (ch_diagnostics c) = rx_succeeded rx"
      using f rw rx by (auto simp: fresh_search_def Let_def)
    show ?thesis using rxc(2) by (simp add: found_in_def c Let_def)
  next
    case False
    then obtain fts vs where fts: "search_candidates (sx_rank E) (sx_order E) ?terms (rx_filters rx) ?k (q_domain q) (rx_ids rx) d = Inr fts"
      and vs: "recall_vectors E en ?terms ?k (rx_ids rx) d = Inr vs"
      and c: "ch_hits c = whitelist_filter (rrf_merge fts vs (q_top_k q) (en_rrf_k en)) (rx_ids rx)" "ch_rewritten c = rewritten"
        "qd_filters (ch_diagnostics c) = rx_filters rx" "qd_relax_succeeded (ch_diagnostics c) = rx_succeeded rx"
      using f rw rx by (auto simp: fresh_search_def Let_def)
    let ?m = "rrf_merge fts vs (q_top_k q) (en_rrf_k en)"
    have hits: "ch_hits c = filter (\<lambda>h. case rx_ids rx of None \<Rightarrow> True | Some es \<Rightarrow> sh_entity h \<in> set es) ?m"
      using False unfolding c(1) whitelist_filter_def by (cases "rx_ids rx") auto
    have page: "text_found E q ?terms d (sh_page h) \<or> vector_found E en ?terms d (sh_page h)" if "h \<in> set ?m" for h
    proof -
      have "sh_page h \<in> sh_page ` set fts \<union> set (hit_pages vs)" using merged_hits(4) that by blast
      then show ?thesis
      proof
        assume "sh_page h \<in> sh_page ` set fts"
        then obtain h' where h': "h' \<in> set fts" "sh_page h = sh_page h'" by auto
        then have "recalled (sx_rank E) ?terms (rx_filters rx) (q_domain q) (rx_ids rx) d h'"
          using search_candidates_sound(3)[OF fts order] by blast
        then show ?thesis using h'(2) unfolding recalled_def row_admitted_def text_found_def by (cases "q_domain q") auto
      qed (use recall_vectors_pages[OF vs ids] in blast)
    qed
    have adm: "category_admits d (rx_filters rx) (to_key (sh_entity h))" if h: "h \<in> set (ch_hits c)" and ne: "rx_filters rx \<noteq> []" "ranges_finite (rx_filters rx)" for h
    proof -
      obtain es where i: "rx_ids rx = Some es"
        using rxc(1) ne(1) by (cases "rx_ids rx") (auto simp: candidates_of_def split: if_splits)
      then have "candidates_of (rx_filters rx) d = Inr (Some es)" "sh_entity h \<in> set es"
        using rxc(1) h by (auto simp: hits)
      then show ?thesis by (rule candidates_admitted[OF k ne(2)])
    qed
    have "length (ch_hits c) \<le> q_top_k q" "distinct (map sh_page (ch_hits c))" "sorted_wrt hit_before (ch_hits c)"
      using merged_hits(1-3)[of fts vs "q_top_k q" "en_rrf_k en"] length_filter_le[of _ ?m]
      unfolding hits by (blast intro: distinct_map_filter sorted_wrt_filter le_trans)+
    moreover have "\<forall>h\<in>set (ch_hits c). text_found E q ?terms d (sh_page h) \<or> vector_found E en ?terms d (sh_page h)"
      using page by (auto simp: hits)
    ultimately show ?thesis using adm rxc(2) unfolding found_in_def Let_def c(2-4) by blast
  qed
qed

lemma fresh_search_uncached: "fresh_search E (en\<lparr>en_cached := b\<rparr>) q d = fresh_search E en q d"
  by (cases en) (hypsubst, unfold fresh_search_def query_rewrite_def relaxed_candidates_def recall_vectors_def engine.simps, rule refl)

lemma query_key_uncached: "query_key X (en\<lparr>en_cached := b\<rparr>) q d = query_key X en q d"
  by (cases en) (hypsubst, unfold query_key_def domain_key_def engine.simps, rule refl)

lemma search_cases [consumes 1, case_names hit fresh]:
  assumes "search X E en q latency now s = (Inr r, s')"
  obtains c where "en_cached en" "ss_cache s (query_key X en q (ss_db s)) = Some c" "r = answer c latency (ss_log_seq s + 1)"
      "s' = snd (log_query E q c latency now s)"
  | c where "\<not> en_cached en \<or> ss_cache s (query_key X en q (ss_db s)) = None" "fresh_search E en q (ss_db s) = Inr c"
      "r = answer c latency (ss_log_seq s + 1)"
      "s' = (if en_cached en then cache_insert (query_key X en q (ss_db s)) c (snd (log_query E q c latency now s))
             else snd (log_query E q c latency now s))"
  using assms
  by (auto simp: search_def Let_def log_query_def split: sum.splits option.splits if_splits)

lemma log_query_state [simp]:
  "ss_db (snd (log_query E q c latency now s)) = ss_db s" "ss_cache (snd (log_query E q c latency now s)) = ss_cache s"
  "ss_index (snd (log_query E q c latency now s)) = ss_index s"
  by (simp_all add: log_query_def Let_def)

lemma cache_insert_state [simp]:
  "ss_db (cache_insert key c s) = ss_db s" "ss_cache (cache_insert key c s) = (ss_cache s)(key \<mapsto> c)"
  by (simp_all add: cache_insert_def)

section \<open>The cache\<close>

text \<open>What the third-party encoder promises: texts of values without NaN and infinities are texts of one value only.\<close>

definition json_text_injective :: "ext \<Rightarrow> bool" where
  "json_text_injective X \<longleftrightarrow> (\<forall>v w. json_finite v \<longrightarrow> json_finite w \<longrightarrow> x_json_text X v = x_json_text X w \<longrightarrow> v = w)"

lemma ranges_finite_conditions: "ranges_finite fs \<longleftrightarrow> (\<forall>c\<in>set fs. condition_finite c)"
proof
  have b: "finite_bound x = pred_option is_finite x" for x by (cases x) (simp_all add: finite_bound_def)
  assume r: "ranges_finite fs"
  show "\<forall>c\<in>set fs. condition_finite c"
  proof
    fix c assume "c \<in> set fs"
    with r show "condition_finite c" by (cases c) (auto simp: condition_finite_def ranges_finite_def b)
  qed
next
  have b: "finite_bound x = pred_option is_finite x" for x by (cases x) (simp_all add: finite_bound_def)
  assume "\<forall>c\<in>set fs. condition_finite c"
  then show "ranges_finite fs" by (force simp: ranges_finite_def condition_finite_def b)
qed

lemma signature_inject:
  assumes "cache_signature t fs k dm g = cache_signature t' fs' k' dm' g'" "ranges_finite fs" "ranges_finite fs'"
  shows "t = t'" "fs = fs'" "k = k'" "dm = dm'" "g = g'"
proof -
  have "map condition_json fs = map condition_json fs'" using assms(1) by (simp add: cache_signature_def)
  moreover have "inj_on condition_json (set fs \<union> set fs')"
    using assms(2,3) condition_json_inject by (auto simp: inj_on_def ranges_finite_conditions)
  ultimately show "fs = fs'" by (rule map_inj_on)
  show "t = t'" "k = k'" "dm = dm'" "g = g'" using assms(1) by (auto simp: cache_signature_def split: option.splits)
qed

lemma query_key_inject:
  assumes "collision_free X" "json_text_injective X" "ranges_finite (q_filters q)" "ranges_finite (q_filters q')"
    "query_key X en q d = query_key X en q' d'"
  shows "q_text q = q_text q'" "q_filters q = q_filters q'" "q_top_k q = q_top_k q'" "domain_key en q = domain_key en q'"
    "current_published_generation (domain_key en q) d = current_published_generation (domain_key en q') d'"
proof -
  have fin: "json_finite (cache_signature t fs k dm g)" for t fs k dm g
    by (auto simp: cache_signature_def split: option.splits)
  have "cache_signature (q_text q) (q_filters q) (q_top_k q) (domain_key en q) (current_published_generation (domain_key en q) d)
      = cache_signature (q_text q') (q_filters q') (q_top_k q') (domain_key en q') (current_published_generation (domain_key en q') d')"
    using assms fin unfolding json_text_injective_def
    by (auto simp: query_key_def cache_key_def collision_free_def Let_def dest!: injD)
  note sig = signature_inject[OF this assms(3,4)]
  show "q_text q = q_text q'" "q_filters q = q_filters q'" "q_top_k q = q_top_k q'" "domain_key en q = domain_key en q'"
    "current_published_generation (domain_key en q) d = current_published_generation (domain_key en q') d'"
    using sig by simp_all
qed

text \<open>A session: certain searches on a store that stays as it is, with evictions, invalidations and clearing.\<close>

inductive session :: "ext \<Rightarrow> search_env \<Rightarrow> engine \<Rightarrow> (query \<Rightarrow> bool) \<Rightarrow> db \<Rightarrow> search_state \<Rightarrow> bool"
  for X :: ext and E :: search_env and en :: engine and asked :: "query \<Rightarrow> bool" and d :: db where
  start: "ss_db s = d \<Longrightarrow> ss_cache s = (\<lambda>k. None) \<Longrightarrow> session X E en asked d s"
| query: "session X E en asked d s \<Longrightarrow> asked q \<Longrightarrow> search X E en q latency now s = (r, s') \<Longrightarrow> session X E en asked d s'"
| evict: "session X E en asked d s \<Longrightarrow> session X E en asked d (s\<lparr>ss_cache := (ss_cache s)(k := None)\<rparr>)"
| invalidate: "session X E en asked d s \<Longrightarrow> session X E en asked d (invalidate_entity_ids pages s)"
| clear: "session X E en asked d s \<Longrightarrow> session X E en asked d (cache_clear s)"

definition cache_ok :: "ext \<Rightarrow> search_env \<Rightarrow> engine \<Rightarrow> (query \<Rightarrow> bool) \<Rightarrow> db \<Rightarrow> search_state \<Rightarrow> bool" where
  "cache_ok X E en asked d s \<longleftrightarrow> ss_db s = d \<and> (\<forall>k c. ss_cache s k = Some c \<longrightarrow>
     (\<exists>q. asked q \<and> query_key X en q d = k \<and> fresh_search E en q d = Inr c))"

lemma cache_ok_sub: "cache_ok X E en asked d s \<Longrightarrow> ss_db s' = d \<Longrightarrow> (\<And>k c. ss_cache s' k = Some c \<Longrightarrow> ss_cache s k = Some c) \<Longrightarrow> cache_ok X E en asked d s'"
  unfolding cache_ok_def by blast

lemma session_ok: "session X E en asked d s \<Longrightarrow> cache_ok X E en asked d s"
proof (induction rule: session.induct)
  case (query s q latency now r s')
  show ?case
  proof (cases r)
    case (Inl e)
    then have "s' = s" using query.hyps(3) by (auto simp: search_def Let_def log_query_def split: sum.splits option.splits if_splits)
    then show ?thesis using query.IH by simp
  next
    case (Inr a)
    have db: "ss_db s = d" using query.IH by (simp add: cache_ok_def)
    from query.hyps(3)[unfolded Inr] show ?thesis
    proof (cases rule: search_cases)
      case (hit c)
      then show ?thesis using query.IH db by (intro cache_ok_sub[OF query.IH]) simp_all
    next
      case (fresh c)
      then show ?thesis using query.IH query.hyps(2) db by (auto simp: cache_ok_def)
    qed
  qed
next
  case (evict s k)
  show ?case by (rule cache_ok_sub[OF evict.IH]) (use evict.IH in \<open>auto simp: cache_ok_def split: if_splits\<close>)
next
  case (invalidate s pages)
  show ?case by (rule cache_ok_sub[OF invalidate.IH]) (use invalidate.IH in \<open>auto simp: cache_ok_def invalidate_entity_ids_def split: if_splits\<close>)
qed (simp_all add: cache_ok_def cache_clear_def)

section \<open>A concrete search\<close>

text \<open>One accepted page of the domain \<open>tea\<close>, an engine whose collection is \<open>milk\<close>, full-text only, and a text encoder
  that numbers the values.\<close>

instance flt :: countable by countable_datatype

instance json :: countable by countable_datatype

definition tea_page :: page_row where
  "tea_page = \<lparr>pg_id = ''tea:drink:x'', pg_entity = ''tea:drink:x'', pg_domain = ''tea'', pg_type = ''drink'', pg_title = ''x'',
     pg_content = ''x'', pg_hash = ''h'', pg_generation = 1, pg_status = AcceptedPage, pg_pack = ''1'', pg_compiled = 0,
     pg_model = ''m'', pg_embedding = ''e'', pg_revision = 1, pg_artifact = ''a'', pg_frontmatter = ''{}'', pg_created = 0,
     pg_updated = 0\<rparr>"

definition tea_state :: search_state where
  "tea_state = \<lparr>ss_db = empty_db\<lparr>db_pages := [tea_page]\<rparr>, ss_logs = [], ss_log_seq = 0, ss_cache = (\<lambda>k. None), ss_index = []\<rparr>"

definition milk_engine :: engine where
  "milk_engine = \<lparr>en_collection = ''milk'', en_multiplier = 2, en_rrf_k = 60, en_fts_only = True, en_qug = None, en_stale = False,
     en_relaxer = None, en_cached = True\<rparr>"

definition plain_env :: search_env where
  "plain_env = \<lparr>sx_rank = (\<lambda>d term p. None), sx_order = (\<lambda>rows. rows), sx_lower = (\<lambda>c. [c]), sx_links = (\<lambda>ls. ls),
     sx_embed = (\<lambda>t. Inl Internal), sx_vectors = (\<lambda>c v k ids. Inl Internal), sx_query_json = (\<lambda>q. ''{}''),
     sx_rewritten_json = (\<lambda>r. ''{}'')\<rparr>"

definition any_query :: query where
  "any_query = \<lparr>q_text = [], q_filters = [], q_top_k = 10, q_domain = None\<rparr>"

definition numbering_ext :: ext where
  "numbering_ext = sample_ext\<lparr>x_json_text := (\<lambda>v. replicate (to_nat v) (CHR ''1''))\<rparr>"

definition tea_hit :: search_hit where
  "tea_hit = \<lparr>sh_page = ''tea:drink:x'', sh_entity = \<lparr>eid_domain = ''tea'', eid_type = ''drink'', eid_local = ''x''\<rparr>,
     sh_score = f_add f32 (Fin 0) (rank_weight 60 0), sh_title = ''x''\<rparr>"

lemma numbering_ok: "collision_free numbering_ext" "json_text_injective numbering_ext"
proof -
  show "collision_free numbering_ext" by (simp add: collision_free_def numbering_ext_def inj_def)
  have "to_nat v = to_nat w" if "replicate (to_nat v) (CHR ''1'') = replicate (to_nat w) (CHR ''1'')" for v w :: json
    using arg_cong[OF that, of length] by simp
  then show "json_text_injective numbering_ext" by (auto simp: json_text_injective_def numbering_ext_def dest: injD[OF inj_to_nat])
qed

lemma tea_found_in:
  assumes "dm = None \<or> dm = Some ''tea''" and pages: "db_pages d = [tea_page]"
  shows "\<exists>c. fresh_search plain_env (milk_engine\<lparr>en_collection := coll\<rparr>) (any_query\<lparr>q_domain := dm\<rparr>) d = Inr c \<and> ch_hits c = [tea_hit]"
proof -
  have key: "from_key ''tea:drink:x'' = Inr \<lparr>eid_domain = ''tea'', eid_type = ''drink'', eid_local = ''x''\<rparr>"
    by (simp add: from_key_def numeral_3_eq_3 entity_id_new_def entity_component_ok_def)
  have like: "like_contains [] ''x''" by (simp add: like_contains_def scalar_at_def tail_len_def)
  have row: "term_rows (sx_rank plain_env) [] dm None d [] = [\<lparr>sr_hit = (''tea:drink:x'', ''tea:drink:x'', ''x''), sr_score = 1\<rparr>]"
    using assms by (auto simp: term_rows_def List.map_filter_simps row_admitted_def tea_page_def filter_admits_def
        filter_where_def term_score_def like)
  have fts: "search_candidates (sx_rank plain_env) (sx_order plain_env) [[]] [] 50 dm None d
      = Inr [\<lparr>sh_page = ''tea:drink:x'', sh_entity = \<lparr>eid_domain = ''tea'', eid_type = ''drink'', eid_local = ''x''\<rparr>,
          sh_score = Fin (rnd f32 1), sh_title = ''x''\<rparr>]"
    using row by (simp add: search_candidates_def row_hit_def key) (simp add: plain_env_def row_hit_def key)
  show ?thesis
    using fts
    by (simp add: fresh_search_def query_rewrite_def milk_engine_def any_query_def relaxed_candidates_def candidates_of_def
        recall_vectors_def rrf_merge_def whitelist_filter_def tea_hit_def)
qed

lemma tea_found:
  assumes "dm = None \<or> dm = Some ''tea''"
  shows "\<exists>c. fresh_search plain_env milk_engine (any_query\<lparr>q_domain := dm\<rparr>) (ss_db tea_state) = Inr c \<and> ch_hits c = [tea_hit]"
  using tea_found_in[OF assms, of "ss_db tea_state" "en_collection milk_engine"] by (simp add: tea_state_def)

lemma tea_searched:
  "\<exists>r s1. search numbering_ext plain_env milk_engine any_query 1 2 tea_state = (Inr r, s1) \<and> qr_hits r = [tea_hit]"
proof -
  have q: "any_query\<lparr>q_domain := None\<rparr> = any_query" "query_validate any_query = Inr ()" by (simp_all add: any_query_def query_validate_def)
  obtain c where c: "fresh_search plain_env milk_engine any_query (ss_db tea_state) = Inr c" "ch_hits c = [tea_hit]"
    using tea_found[of None] unfolding q by blast
  have "ss_cache tea_state k = None" for k by (simp add: tea_state_def)
  then show ?thesis using c by (simp add: search_def q(2) answer_def log_query_def Let_def)
qed

section \<open>The claims on searching\<close>

text \<open>C14. A search that the cache does not answer returns at most \<open>top_k\<close> hits, every page once, in descending order of
  score. Every hit is an accepted page of the store whose text matches a term of the query, rewritten or not, in the
  domain of the query, or a page for which the vector store answered a vector with the content hash and the generation
  the accepted page has now: a stale vector is not returned. When filters apply whose ranges have finite bounds,
  every hit's entity is the category of an entity that meets them all; and the filters that apply are the query's
  own, rewritten or not, or, when no entity met those, what the relaxer made of them. The store is left as it was. \<close>

theorem search_sound:
  assumes "search X E en q latency now s = (Inr r, s')" "\<not> en_cached en \<or> ss_cache s (query_key X en q (ss_db s)) = None"
    "\<And>rs. set (sx_order E rs) \<subseteq> set rs" "keyed fact_key (db_facts (ss_db s))" "\<forall>p\<in>set (db_pages (ss_db s)). pg_id p \<noteq> []"
  defines "fs \<equiv> qd_filters (qr_diagnostics r)"
    and "own \<equiv> (case qr_rewritten r of None \<Rightarrow> q_filters q | Some rw \<Rightarrow> rw_filters rw)"
    and "terms \<equiv> (case qr_rewritten r of None \<Rightarrow> [q_text q] | Some rw \<Rightarrow> rw_terms rw)"
  shows "length (qr_hits r) \<le> q_top_k q \<and> distinct (map sh_page (qr_hits r)) \<and> sorted_wrt hit_before (qr_hits r)
    \<and> (\<forall>h\<in>set (qr_hits r). text_found E q terms (ss_db s) (sh_page h) \<or> vector_found E en terms (ss_db s) (sh_page h))
    \<and> (fs \<noteq> [] \<and> ranges_finite fs \<longrightarrow> (\<forall>h\<in>set (qr_hits r). category_admits (ss_db s) fs (to_key (sh_entity h))))
    \<and> (fs = own \<or> candidates_of own (ss_db s) = Inr (Some [])
         \<and> (\<exists>relaxer. en_relaxer en = Some relaxer \<and> relaxer own = Inr (Some fs)))
    \<and> ss_db s' = ss_db s"
  using assms(1)
proof (cases rule: search_cases)
  case (hit c)
  then show ?thesis using assms(2) by simp
next
  case (fresh c)
  have "found_in E en q (ss_db s) c" by (rule fresh_search_found[OF fresh(2) assms(3-5)])
  then show ?thesis
    using fresh(4) unfolding found_in_def Let_def fs_def own_def terms_def by (auto simp: fresh(3) answer_def)
qed

theorem search_sound_witness:
  "\<exists>r s1. search numbering_ext plain_env milk_engine any_query 1 2 tea_state = (Inr r, s1) \<and> qr_hits r = [tea_hit]
     \<and> length (qr_hits r) \<le> 10"
proof -
  obtain r s1 where s: "search numbering_ext plain_env milk_engine any_query 1 2 tea_state = (Inr r, s1)" "qr_hits r = [tea_hit]"
    using tea_searched by blast
  have "\<not> en_cached milk_engine \<or> ss_cache tea_state k = None" "set (sx_order plain_env rs) \<subseteq> set rs"
    "keyed fact_key (db_facts (ss_db tea_state))" "\<forall>p\<in>set (db_pages (ss_db tea_state)). pg_id p \<noteq> []" for k rs
    by (simp_all add: tea_state_def plain_env_def empty_db_def keyed_def tea_page_def)
  from search_sound[OF s(1) this] show ?thesis using s by (auto simp: any_query_def)
qed

definition bounded_range :: "filter_condition \<Rightarrow> bool" where
  "bounded_range c \<longleftrightarrow> (\<exists>name lo hi. c = NumericRange name lo hi \<and> (lo, hi) \<noteq> (None, None))"

lemma relax_once_unbounded: "\<not> bounded_range c \<Longrightarrow> relax_once (c # cs) = map_option ((#) c) (relax_once cs)"
  by (auto simp: bounded_range_def split: filter_condition.splits option.splits)

lemma relax_once_bounded:
  "(lo, hi) \<noteq> (None, None) \<Longrightarrow> relax_once (NumericRange name lo hi # cs) = Some ((if hi = None then [] else [NumericRange name lo None]) @ cs)"
  by (auto split: option.splits)

lemma relax_once_append: "\<forall>c\<in>set pre. \<not> bounded_range c \<Longrightarrow> relax_once (pre @ cs) = map_option ((@) pre) (relax_once cs)"
proof (induction pre)
  case (Cons c pre)
  then show ?case using relax_once_unbounded[of c "pre @ cs"] by (simp add: option.map_comp comp_def del: relax_once.simps)
next
  case Nil
  show ?case by (cases "relax_once cs") simp_all
qed

lemma relax_once_None: "relax_once fs = None \<longleftrightarrow> (\<forall>c\<in>set fs. \<not> bounded_range c)"
proof (induction fs)
  case (Cons c cs)
  show ?case
  proof (cases "bounded_range c")
    case True
    then show ?thesis by (auto simp: bounded_range_def simp del: relax_once.simps simp: relax_once_bounded)
  next
    case False
    then show ?thesis using Cons relax_once_unbounded[OF False, of cs] by (simp del: relax_once.simps)
  qed
qed simp

lemma open_range_wider: "entity_matches d e (NumericRange name lo hi) \<Longrightarrow> entity_matches d e (NumericRange name lo None)"
  by (auto simp: entity_matches_def bound_ok_def split: option.splits)

text \<open>The default relaxer drops a bound: it changes the first range that has one, to an open range or to nothing, keeps
  every other condition, lets through every entity that passed, and gives up exactly when no range has a bound. \<close>

theorem relax_widens:
  "(relax_once fs = None \<longleftrightarrow> (\<forall>c\<in>set fs. \<not> bounded_range c))
    \<and> (\<forall>fs'. relax_once fs = Some fs' \<longrightarrow> (\<exists>pre name lo hi post. fs = pre @ NumericRange name lo hi # post
         \<and> (lo, hi) \<noteq> (None, None) \<and> (\<forall>c\<in>set pre. \<not> bounded_range c)
         \<and> fs' = pre @ (if hi = None then [] else [NumericRange name lo None]) @ post
         \<and> (\<forall>d entity. all_match d entity fs \<longrightarrow> all_match d entity fs')))"
proof (intro conjI allI impI)
  fix fs' assume r: "relax_once fs = Some fs'"
  then obtain c where "c \<in> set fs" "bounded_range c" using relax_once_None[of fs] by auto
  then obtain pre b post where fs: "fs = pre @ b # post" "bounded_range b" and pre: "\<forall>c\<in>set pre. \<not> bounded_range c"
    using split_list_first_prop[of fs bounded_range] by blast
  then obtain name lo hi where b: "b = NumericRange name lo hi" "(lo, hi) \<noteq> (None, None)" by (auto simp: bounded_range_def)
  have fs': "fs' = pre @ (if hi = None then [] else [NumericRange name lo None]) @ post"
    using r relax_once_append[OF pre, of "b # post"] relax_once_bounded[OF b(2)] by (simp add: fs(1) b(1) del: relax_once.simps)
  have "all_match d e fs'" if "all_match d e fs" for d e
    using that open_range_wider[of d e name lo hi] by (auto simp: all_match_def fs(1) b(1) fs')
  then show "\<exists>pre name lo hi post. fs = pre @ NumericRange name lo hi # post
         \<and> (lo, hi) \<noteq> (None, None) \<and> (\<forall>c\<in>set pre. \<not> bounded_range c)
         \<and> fs' = pre @ (if hi = None then [] else [NumericRange name lo None]) @ post
         \<and> (\<forall>d entity. all_match d entity fs \<longrightarrow> all_match d entity fs')"
    using fs(1) b pre fs' by blast
qed (rule relax_once_None)

theorem relax_widens_witness:
  "let fs = [NumericRange ''price'' (Some (Fin 5)) (Some (Fin 9)), NumericRange ''size'' None (Some (Fin 3))]
   in relax_once fs = Some [NumericRange ''price'' (Some (Fin 5)) None, NumericRange ''size'' None (Some (Fin 3))]
      \<and> \<not> (relax_once fs = None \<and> bounded_range (hd fs))"
proof -
  let ?fs = "[NumericRange ''price'' (Some (Fin 5)) (Some (Fin 9)), NumericRange ''size'' None (Some (Fin 3))]"
  have "bounded_range (hd ?fs)" by (simp add: bounded_range_def)
  then have "relax_once ?fs \<noteq> None" using relax_widens[of ?fs] by auto
  then show ?thesis by (simp add: Let_def)
qed

text \<open>C15. The cache is transparent as long as the store does not change: whatever was searched with finite bounds, evicted
  or invalidated before, a search of a named domain with finite bounds answers exactly what the same engine without a
  cache answers, unless an earlier search left the domain out and this one names the collection of the engine,
  the one case in which two queries share a key. The hash is taken as collision free and the JSON text of a finite
  value as unambiguous. \<close>

theorem cache_transparent:
  assumes "session X E en asked d s" "collision_free X" "json_text_injective X" "q_domain q = Some dm" "ranges_finite (q_filters q)"
    and "\<And>q0. asked q0 \<Longrightarrow> ranges_finite (q_filters q0) \<and> (q_domain q0 = None \<longrightarrow> dm \<noteq> en_collection en)"
  shows "fst (search X E en q latency now s) = fst (search X E (en\<lparr>en_cached := False\<rparr>) q latency now s)"
proof -
  have ok: "cache_ok X E en asked d s" by (rule session_ok[OF assms(1)])
  then have db: "ss_db s = d" by (simp add: cache_ok_def)
  have plain: "fst (search X E (en\<lparr>en_cached := False\<rparr>) q latency now s) =
      (case query_validate q of Inl e \<Rightarrow> Inl e | Inr _ \<Rightarrow>
        (case fresh_search E en q d of Inl e \<Rightarrow> Inl e | Inr c \<Rightarrow> Inr (answer c latency (ss_log_seq s + 1))))"
    by (simp add: search_def fresh_search_uncached db log_query_def Let_def split: sum.splits)
  show ?thesis
  proof (cases "if en_cached en then ss_cache s (query_key X en q d) else None")
    case None
    then show ?thesis unfolding plain by (simp add: search_def db log_query_def Let_def split: sum.splits)
  next
    case (Some c)
    then obtain q0 where q0: "asked q0" "query_key X en q0 d = query_key X en q d" "fresh_search E en q0 d = Inr c"
      using ok Some unfolding cache_ok_def by (auto split: if_splits)
    note ask = assms(6)[OF q0(1)]
    note key = query_key_inject[OF assms(2,3) conjunct1[OF ask] assms(5) q0(2)]
    have "q_domain q0 = q_domain q" using key(4) ask assms(4) by (cases "q_domain q0") (simp_all add: domain_key_def)
    then have "q0 = q" using key(1-3) by (cases q0; cases q) simp
    then show ?thesis using Some q0(3) unfolding plain by (simp add: search_def db log_query_def Let_def split: sum.splits)
  qed
qed

theorem cache_transparent_witness:
  "\<exists>s. session numbering_ext plain_env milk_engine (\<lambda>q. q = any_query) (ss_db tea_state) s \<and> q_domain any_query = None
     \<and> fst (search numbering_ext plain_env milk_engine (any_query\<lparr>q_domain := Some ''tea''\<rparr>) 1 2 s)
         = fst (search numbering_ext plain_env (milk_engine\<lparr>en_cached := False\<rparr>) (any_query\<lparr>q_domain := Some ''tea''\<rparr>) 1 2 s)"
proof -
  obtain r s1 where s1: "search numbering_ext plain_env milk_engine any_query 1 2 tea_state = (Inr r, s1)" using tea_searched by blast
  have "session numbering_ext plain_env milk_engine (\<lambda>q. q = any_query) (ss_db tea_state) tea_state"
    by (rule session.start) (simp_all add: tea_state_def)
  then have "session numbering_ext plain_env milk_engine (\<lambda>q. q = any_query) (ss_db tea_state) s1"
    by (rule session.query[OF _ refl s1])
  moreover have "q_domain (any_query\<lparr>q_domain := Some ''tea''\<rparr>) = Some ''tea''" "ranges_finite (q_filters (any_query\<lparr>q_domain := Some ''tea''\<rparr>))"
    "ranges_finite (q_filters any_query)" "q_domain any_query = None" "''tea'' \<noteq> en_collection milk_engine"
    by (simp_all add: any_query_def ranges_finite_def milk_engine_def)
  ultimately show ?thesis using cache_transparent[OF _ numbering_ok] by blast
qed

text \<open>C16. What the key leaves out, the cache cannot see. After a search without a domain, the search of the domain the
  collection is named after is answered with the same hits, whatever their domains are; and so it is after
  any change of pages or facts that publishes no new generation of that domain. \<close>

theorem cache_shares_domains:
  assumes "search X E en (q\<lparr>q_domain := None\<rparr>) latency now s = (Inr r, s1)" "en_cached en"
    "current_published_generation (en_collection en) d' = current_published_generation (en_collection en) (ss_db s)"
  shows "\<exists>r'. fst (search X E en (q\<lparr>q_domain := Some (en_collection en)\<rparr>) latency' now' (s1\<lparr>ss_db := d'\<rparr>)) = Inr r'
    \<and> qr_hits r' = qr_hits r \<and> qr_diagnostics r' = qr_diagnostics r"
proof -
  let ?q = "q\<lparr>q_domain := None\<rparr>" and ?q' = "q\<lparr>q_domain := Some (en_collection en)\<rparr>"
  have key: "query_key X en ?q' d' = query_key X en ?q (ss_db s)"
    by (simp add: query_key_def domain_key_def assms(3))
  have val: "query_validate ?q' = Inr ()"
    using assms(1) by (auto simp: search_def query_validate_def split: if_splits)
  have "\<exists>c. ss_cache s1 (query_key X en ?q (ss_db s)) = Some c \<and> qr_hits r = ch_hits c \<and> qr_diagnostics r = ch_diagnostics c"
    using assms(1)
  proof (cases rule: search_cases)
    case (hit c)
    then show ?thesis by (simp add: answer_def)
  next
    case (fresh c)
    then show ?thesis using assms(2) by (simp add: answer_def)
  qed
  then show ?thesis
    by (auto simp: search_def val key assms(2) answer_def log_query_def Let_def)
qed

theorem cache_shares_domains_witness:
  "\<exists>s1 r'. fst (search numbering_ext plain_env milk_engine (any_query\<lparr>q_domain := Some ''milk''\<rparr>) 1 3 s1) = Inr r' \<and> qr_hits r' = [tea_hit]
     \<and> ss_db s1 = ss_db tea_state \<and> db_pages (ss_db s1) = [tea_page] \<and> pg_domain tea_page = ''tea''"
proof -
  have q: "any_query\<lparr>q_domain := None\<rparr> = any_query" "en_collection milk_engine = ''milk''" "en_cached milk_engine"
    by (simp_all add: any_query_def milk_engine_def)
  obtain r s1 where s: "search numbering_ext plain_env milk_engine any_query 1 2 tea_state = (Inr r, s1)" "qr_hits r = [tea_hit]"
    using tea_searched by blast
  let ?s1 = "s1\<lparr>ss_db := ss_db tea_state\<rparr>"
  have s': "search numbering_ext plain_env milk_engine (any_query\<lparr>q_domain := None\<rparr>) 1 2 tea_state = (Inr r, s1)"
    using s(1) by (simp only: q(1))
  have "\<exists>r'. fst (search numbering_ext plain_env milk_engine (any_query\<lparr>q_domain := Some ''milk''\<rparr>) 1 3 ?s1) = Inr r' \<and> qr_hits r' = [tea_hit]"
    using cache_shares_domains[OF s' q(3) refl, of 1 3] s(2) unfolding q(2) by (elim exE conjE) (rule exI, simp)
  then show ?thesis by (intro exI[of _ ?s1]) (simp add: tea_state_def tea_page_def)
qed

end
