(* ===== verification/Qug_Build.thy ===== *)
theory Qug_Build
  imports Qug
begin

text \<open>
  Deriving the edges of a phrase graph (\<^verbatim>\<open>query_engine/qug/qug_build.rs\<close>, the intent configuration of
  \<^verbatim>\<open>traits/domain_pack.rs\<close> and \<^verbatim>\<open>intent_edges\<close> of \<^verbatim>\<open>query_engine/qug.rs\<close>): edges from the titles, aliases
  and tags of the accepted pages and from the configured intents, their hashes, and the hash of the
  source they were derived from. The YAML and serde decoders are parameters.
\<close>

section \<open>Data\<close>

definition qug_builder_version :: string where "qug_builder_version = ''qug-build-v1''"
definition qug_hash_prefix :: string where "qug_hash_prefix = ''wiktor.qug.hash.v1'' @ [CHR 0x00]"
definition max_qug_pages :: nat where "max_qug_pages = 100000"
definition max_frontmatter_list :: nat where "max_frontmatter_list = 64"
definition max_intents_bytes :: nat where "max_intents_bytes = 1048576"
definition max_intent_entries :: nat where "max_intent_entries = 1000"
definition max_intent_phrases :: nat where "max_intent_phrases = 64"
definition max_qug_edges :: nat where "max_qug_edges = 100000"

record qug_page_input =
  gp_page :: string
  gp_generation :: int
  gp_hash :: string
  gp_artifact :: string
  gp_frontmatter :: string

record qug_source_snapshot =
  gs_domain :: string
  gs_version :: string
  gs_config :: string
  gs_intents :: string
  gs_pages :: "qug_page_input list"

record persisted_page_edge =
  pe_page :: string
  pe_edge :: qug_edge
  pe_hash :: string
  pe_generation :: int
  pe_content :: string

record persisted_intent_edge =
  ie_edge :: qug_edge
  ie_hash :: string

record qug_build_stats =
  gb_build :: int
  gb_reused :: bool
  gb_source_hash :: string
  gb_pages :: nat
  gb_edges :: nat
  gb_by_type :: "(string \<times> nat) list"

datatype qug_build_outcome = Reused qug_build_stats | Published qug_build_stats

record qug_derived_edges =
  gd_page_edges :: "persisted_page_edge list"
  gd_intent_edges :: "persisted_intent_edge list"
  gd_source_hash :: string
  gd_pages :: nat
  gd_by_type :: "(string \<times> nat) list"

definition edge_count :: "qug_derived_edges \<Rightarrow> nat" where
  "edge_count r = length (gd_page_edges r) + length (gd_intent_edges r)"

record qug_config =
  qc_enabled :: bool
  qc_max_depth :: nat
  qc_multiplier :: nat
  qc_templates :: "string option"

record template_expansion =
  tx_text :: string
  tx_filters :: filters

record attribute_rule =
  ar_field :: string
  ar_min :: "flt option"
  ar_max :: "flt option"
  ar_equals :: "string option"

record negation_rule =
  nr_field :: string
  nr_refs :: "string list"

record intent_entry =
  in_id :: string
  in_phrases :: "string list"
  in_expansion :: "template_expansion option"
  in_attribute :: "attribute_rule option"
  in_negation :: "negation_rule option"

record intent_config =
  ic_version :: string
  ic_intents :: "intent_entry list"

text \<open>The part of \<^verbatim>\<open>DomainConfig\<close> that builds and loads of the graph read.\<close>

record domain_config =
  dc_name :: string
  dc_version :: string
  dc_entities :: "field_definition list list"
  dc_query_filters :: "string list"
  dc_qug :: qug_config

record stored_page_frontmatter =
  sf_title :: "string option"
  sf_aliases :: "string list"
  sf_tags :: "string list"

text \<open>Decoders of third-party crates: YAML intents, the stored frontmatter, the graph section of a domain's configuration.\<close>

record qug_codec =
  gk_intents :: "string \<Rightarrow> intent_config option"
  gk_frontmatter :: "string \<Rightarrow> stored_page_frontmatter option"
  gk_config_text :: "qug_config \<Rightarrow> string"
  gk_parse_config :: "string \<Rightarrow> qug_config option"

definition field_type_of :: "domain_config \<Rightarrow> string \<Rightarrow> field_type option" where
  "field_type_of c name = map_option fd_type (find (\<lambda>f. fd_name f = name) (concat (dc_entities c)))"

section \<open>Numbers in text\<close>

text \<open>\<^verbatim>\<open>str::parse::<f64>\<close>: a sign, digits with at most one point, an exponent; or the name of a special value.\<close>

definition lower_ascii :: "char \<Rightarrow> char" where
  "lower_ascii c = (if 65 \<le> (of_char c :: nat) \<and> (of_char c :: nat) \<le> 90 then char_of ((of_char c :: nat) + 32) else c)"

definition split_sign :: "string \<Rightarrow> bool \<times> string" where
  "split_sign s = (case s of c # cs \<Rightarrow> if c = CHR ''-'' then (True, cs) else if c = CHR ''+'' then (False, cs) else (False, s)
     | [] \<Rightarrow> (False, s))"

definition decimal_exponent :: "string \<Rightarrow> int option" where
  "decimal_exponent s =
     (case s of
        [] \<Rightarrow> Some 0
      | c # cs \<Rightarrow>
          if lower_ascii c \<noteq> CHR ''e'' then None
          else (case split_sign cs of (neg, ds) \<Rightarrow>
            if ds = [] \<or> \<not> list_all is_digit ds then None
            else Some (if neg then - int (digits_value 0 ds) else int (digits_value 0 ds))))"

definition decimal_value :: "string \<Rightarrow> rat option" where
  "decimal_value s =
     (let whole = takeWhile is_digit s; rest = dropWhile is_digit s;
          frac = (case rest of c # cs \<Rightarrow> if c = CHR ''.'' then takeWhile is_digit cs else [] | [] \<Rightarrow> []);
          tail = (case rest of c # cs \<Rightarrow> if c = CHR ''.'' then dropWhile is_digit cs else rest | [] \<Rightarrow> [])
      in if whole = [] \<and> frac = [] then None
         else map_option (\<lambda>e. of_nat (digits_value 0 (whole @ frac)) * 10 powi (e - int (length frac))) (decimal_exponent tail))"

text \<open>The nearest \<^verbatim>\<open>f64\<close>, with gradual underflow and overflow to infinity.\<close>

definition nearest_f64 :: "rat \<Rightarrow> flt" where
  "nearest_f64 x =
     (let r = (if x < 2 powi - 1022 then of_int (round_half_even (x * 2 ^ 1074)) / 2 ^ 1074 else rnd f64 x)
      in if r \<ge> 2 ^ 1024 then PosInf else Fin r)"

definition parse_f64 :: "string \<Rightarrow> flt option" where
  "parse_f64 s =
     (case split_sign s of (neg, t) \<Rightarrow>
        map_option (\<lambda>v. if neg then f_neg v else v)
          (if map lower_ascii t \<in> {''inf'', ''infinity''} then Some PosInf
           else if map lower_ascii t = ''nan'' then Some NaN
           else map_option nearest_f64 (decimal_value t)))"

section \<open>Intents\<close>

definition blank_text :: "string \<Rightarrow> bool" where
  "blank_text s = (trim_text s = [])"

definition condition_field :: "filter_condition \<Rightarrow> string" where
  "condition_field c = (case c of NumericRange f _ _ \<Rightarrow> f | TextEquals f _ \<Rightarrow> f | RefContains f _ \<Rightarrow> f | RefExcludes f _ \<Rightarrow> f)"

definition check_attribute :: "domain_config \<Rightarrow> attribute_rule \<Rightarrow> unit result" where
  "check_attribute c a =
     (if blank_text (ar_field a) then Inl InvalidConfig
      else if ar_min a = None \<and> ar_max a = None \<and> ar_equals a = None then Inl InvalidConfig
      else if ar_field a \<notin> set (dc_query_filters c) then Inl InvalidConfig else Inr ())"

definition check_negation :: "domain_config \<Rightarrow> negation_rule \<Rightarrow> unit result" where
  "check_negation c n =
     (if blank_text (nr_field n) then Inl InvalidConfig
      else if nr_refs n = [] then Inl InvalidConfig
      else if field_type_of c (nr_field n) \<noteq> Some FtRefList then Inl InvalidConfig
      else if nr_field n \<notin> set (dc_query_filters c) then Inl InvalidConfig else Inr ())"

definition check_expansion :: "domain_config \<Rightarrow> template_expansion \<Rightarrow> unit result" where
  "check_expansion c x =
     (if blank_text (tx_text x) then Inl InvalidConfig
      else if list_ex (\<lambda>f. condition_field f \<notin> set (dc_query_filters c)) (tx_filters x) then Inl InvalidConfig
      else Inr ())"

definition check_opt :: "('a \<Rightarrow> unit result) \<Rightarrow> 'a option \<Rightarrow> unit result" where
  "check_opt f v = (case v of None \<Rightarrow> Inr () | Some a \<Rightarrow> f a)"

definition rule_count :: "intent_entry \<Rightarrow> nat" where
  "rule_count e = length (filter id [in_expansion e \<noteq> None, in_attribute e \<noteq> None, in_negation e \<noteq> None])"

definition check_entry :: "domain_config \<Rightarrow> intent_entry \<Rightarrow> unit result" where
  "check_entry c e =
     (if list_all blank_text (in_phrases e) then Inl InvalidConfig
      else if rule_count e \<noteq> 1 then Inl InvalidConfig
      else try_bind (check_opt (check_attribute c) (in_attribute e)) (\<lambda>_.
        try_bind (check_opt (check_negation c) (in_negation e)) (\<lambda>_.
        check_opt (check_expansion c) (in_expansion e))))"

fun check_all :: "('a \<Rightarrow> unit result) \<Rightarrow> 'a list \<Rightarrow> unit result" where
  "check_all f [] = Inr ()"
| "check_all f (x # xs) = try_bind (f x) (\<lambda>_. check_all f xs)"

definition intents_validate :: "domain_config \<Rightarrow> intent_config \<Rightarrow> unit result" where
  "intents_validate c i = check_all (check_entry c) (ic_intents i)"

text \<open>Every error of a phrase is reported as a validation error.\<close>

definition check_phrase :: "(nat \<Rightarrow> nat list) \<Rightarrow> string \<Rightarrow> unit result" where
  "check_phrase lower p = (case normalize_phrase lower p of Inl _ \<Rightarrow> Inl Validation | Inr _ \<Rightarrow> Inr ())"

definition ascii_whitespace :: "char \<Rightarrow> bool" where
  "ascii_whitespace c = (c \<in> {CHR '' '', CHR 0x09, CHR 0x0A, CHR 0x0C, CHR 0x0D})"

definition parse_entry :: "(nat \<Rightarrow> nat list) \<Rightarrow> intent_entry \<Rightarrow> unit result" where
  "parse_entry lower e =
     (if length (in_phrases e) > max_intent_phrases then Inl Validation
      else check_all (check_phrase lower) (in_phrases e))"

definition parse_intents :: "qug_codec \<Rightarrow> (nat \<Rightarrow> nat list) \<Rightarrow> string \<Rightarrow> intent_config result" where
  "parse_intents G lower bytes =
     (if length bytes > max_intents_bytes then Inl Validation
      else if list_all ascii_whitespace bytes then Inr \<lparr>ic_version = [], ic_intents = []\<rparr>
      else try_bind (ok_or Validation (gk_intents G bytes)) (\<lambda>i.
        if length (ic_intents i) > max_intent_entries then Inl Validation
        else try_bind (check_all (parse_entry lower) (ic_intents i)) (\<lambda>_. Inr i)))"

definition expansion_to_query :: "template_expansion \<Rightarrow> query" where
  "expansion_to_query x = \<lparr>q_text = tx_text x, q_filters = tx_filters x, q_top_k = 0, q_domain = None\<rparr>"

definition attribute_to_filter :: "domain_config \<Rightarrow> attribute_rule \<Rightarrow> filter_condition result" where
  "attribute_to_filter c a =
     (case ar_equals a of
        Some eq \<Rightarrow>
          (if field_type_of c (ar_field a) = Some FtNumeric
           then try_bind (ok_or InvalidConfig (parse_f64 eq)) (\<lambda>v. Inr (NumericRange (ar_field a) (Some v) (Some v)))
           else Inr (TextEquals (ar_field a) eq))
      | None \<Rightarrow> Inr (NumericRange (ar_field a) (ar_min a) (ar_max a)))"

definition entry_edges :: "domain_config \<Rightarrow> intent_entry \<Rightarrow> qug_edge list result" where
  "entry_edges c e =
     (case in_expansion e of
        Some x \<Rightarrow> Inr (map (\<lambda>p. IntentTemplate p (expansion_to_query x)) (in_phrases e))
      | None \<Rightarrow>
          (case in_attribute e of
             Some a \<Rightarrow> try_bind (attribute_to_filter c a) (\<lambda>f. Inr (map (\<lambda>p. AttributePropagation p f) (in_phrases e)))
           | None \<Rightarrow>
               (case in_negation e of
                  Some n \<Rightarrow> Inr (map (\<lambda>p. Negation p (RefExcludes (nr_field n) (nr_refs n))) (in_phrases e))
                | None \<Rightarrow> Inr [])))"

definition intent_edges :: "domain_config \<Rightarrow> intent_config \<Rightarrow> qug_edge list result" where
  "intent_edges c i = try_bind (collect_results (map (entry_edges c) (ic_intents i))) (\<lambda>ess. Inr (concat ess))"

section \<open>Edges as JSON and their hashes\<close>

text \<open>\<^verbatim>\<open>serde_json::to_value\<close>: the members of every object in key order.\<close>

definition condition_value :: "filter_condition \<Rightarrow> json" where
  "condition_value c =
     (case c of
        NumericRange name lo hi \<Rightarrow>
          JObj [(''NumericRange'', JObj [(''field'', JStr name), (''max'', bound_json hi), (''min'', bound_json lo)])]
      | _ \<Rightarrow> condition_json c)"

definition query_value :: "query \<Rightarrow> json" where
  "query_value q =
     JObj [(''domain'', (case q_domain q of None \<Rightarrow> JNull | Some d \<Rightarrow> JStr d)),
           (''filters'', JObj [(''conditions'', JArr (map condition_value (q_filters q)))]),
           (''text'', JStr (q_text q)), (''top_k'', JInt (int (q_top_k q)))]"

definition edge_type_name :: "qug_edge \<Rightarrow> string" where
  "edge_type_name e =
     (case e of Synonym _ _ \<Rightarrow> ''synonym'' | Hyponym _ _ \<Rightarrow> ''hyponym''
      | AttributePropagation _ _ \<Rightarrow> ''attribute_propagation'' | IntentTemplate _ _ \<Rightarrow> ''intent_template''
      | Negation _ _ \<Rightarrow> ''negation'')"

definition edge_value :: "qug_edge \<Rightarrow> json" where
  "edge_value e =
     (case e of
        Synonym f ts \<Rightarrow> JObj [(''from'', JStr f), (''to'', JArr (map JStr ts)), (''type'', JStr ''synonym'')]
      | Hyponym child parent \<Rightarrow> JObj [(''child'', JStr child), (''parent'', JStr parent), (''type'', JStr ''hyponym'')]
      | AttributePropagation p f \<Rightarrow>
          JObj [(''filter'', condition_value f), (''phrase'', JStr p), (''type'', JStr ''attribute_propagation'')]
      | IntentTemplate p q \<Rightarrow>
          JObj [(''expansion'', query_value q), (''phrase'', JStr p), (''type'', JStr ''intent_template'')]
      | Negation p f \<Rightarrow> JObj [(''exclusion'', condition_value f), (''phrase'', JStr p), (''type'', JStr ''negation'')])"

definition edge_canonical_bytes :: "ext \<Rightarrow> qug_edge \<Rightarrow> string result" where
  "edge_canonical_bytes X e = canonical_json X (edge_value e)"

definition edge_hash :: "ext \<Rightarrow> qug_edge \<Rightarrow> string result" where
  "edge_hash X e = try_bind (edge_canonical_bytes X e) (\<lambda>b. Inr (x_blake3 X b))"

definition edge_canonical_json :: "ext \<Rightarrow> qug_edge \<Rightarrow> string" where
  "edge_canonical_json X e = x_json_text X (edge_value e)"

definition page_frontmatter_json :: "ext \<Rightarrow> string \<Rightarrow> string list \<Rightarrow> string list \<Rightarrow> string" where
  "page_frontmatter_json X title aliases tags =
     x_json_text X (JObj [(''aliases'', JArr (map JStr aliases)), (''tags'', JArr (map JStr tags)), (''title'', JStr title)])"

section \<open>Edges of pages\<close>

fun check_pages :: "string set \<Rightarrow> qug_page_input list \<Rightarrow> unit result" where
  "check_pages seen [] = Inr ()"
| "check_pages seen (p # ps) =
     (if blank_text (gp_page p) then Inl Validation
      else if gp_generation p < 1 then Inl Validation
      else if gp_hash p = [] then Inl Validation
      else if gp_artifact p = [] then Inl Validation
      else if gp_page p \<in> seen then Inl Validation
      else check_pages (insert (gp_page p) seen) ps)"

definition validate_snapshot :: "qug_source_snapshot \<Rightarrow> unit result" where
  "validate_snapshot s =
     (if blank_text (gs_domain s) then Inl Validation
      else if blank_text (gs_version s) then Inl Validation
      else if length (gs_pages s) > max_qug_pages then Inl Validation
      else check_pages {} (gs_pages s))"

definition page_edge_of :: "ext \<Rightarrow> qug_page_input \<Rightarrow> qug_edge \<Rightarrow> persisted_page_edge result" where
  "page_edge_of X p e =
     try_bind (edge_hash X e) (\<lambda>h. Inr \<lparr>pe_page = gp_page p, pe_edge = e, pe_hash = h,
                                        pe_generation = gp_generation p, pe_content = gp_hash p\<rparr>)"

fun alias_edges :: "(nat \<Rightarrow> nat list) \<Rightarrow> ext \<Rightarrow> qug_page_input \<Rightarrow> string \<Rightarrow> string list \<Rightarrow> persisted_page_edge list result" where
  "alias_edges lower X p title [] = Inr []"
| "alias_edges lower X p title (alias # as) =
     (let a = trim_text alias
      in if a = [] then Inl Validation
         else try_bind (check_phrase lower a) (\<lambda>_.
           if a = title then alias_edges lower X p title as
           else try_bind (page_edge_of X p (Synonym a [title])) (\<lambda>e.
                try_bind (alias_edges lower X p title as) (\<lambda>es. Inr (e # es)))))"

fun tag_edges :: "(nat \<Rightarrow> nat list) \<Rightarrow> ext \<Rightarrow> qug_page_input \<Rightarrow> string \<Rightarrow> string list \<Rightarrow> persisted_page_edge list result" where
  "tag_edges lower X p title [] = Inr []"
| "tag_edges lower X p title (tag # ts) =
     (let t = trim_text tag
      in if t = [] then Inl Validation
         else try_bind (check_phrase lower t) (\<lambda>_.
              try_bind (page_edge_of X p (Hyponym title t)) (\<lambda>e.
              try_bind (tag_edges lower X p title ts) (\<lambda>es. Inr (e # es)))))"

definition edges_of_page :: "qug_codec \<Rightarrow> (nat \<Rightarrow> nat list) \<Rightarrow> ext \<Rightarrow> qug_page_input \<Rightarrow> persisted_page_edge list result" where
  "edges_of_page G lower X p =
     try_bind (ok_or Validation (gk_frontmatter G (gp_frontmatter p))) (\<lambda>fm.
       case sf_title fm of
         None \<Rightarrow> if sf_aliases fm \<noteq> [] \<or> sf_tags fm \<noteq> [] then Inl Validation else Inr []
       | Some raw \<Rightarrow>
           if blank_text raw then Inl Validation
           else if length (sf_aliases fm) > max_frontmatter_list then Inl Validation
           else if length (sf_tags fm) > max_frontmatter_list then Inl Validation
           else try_bind (alias_edges lower X p (trim_text raw) (sf_aliases fm)) (\<lambda>as.
                try_bind (tag_edges lower X p (trim_text raw) (sf_tags fm)) (\<lambda>ts. Inr (as @ ts))))"

definition derive_page_edges ::
  "qug_codec \<Rightarrow> (nat \<Rightarrow> nat list) \<Rightarrow> ext \<Rightarrow> qug_page_input list \<Rightarrow> persisted_page_edge list result" where
  "derive_page_edges G lower X ps = try_bind (collect_results (map (edges_of_page G lower X) ps)) (\<lambda>ess. Inr (concat ess))"

definition intent_edge_of :: "ext \<Rightarrow> qug_edge \<Rightarrow> persisted_intent_edge result" where
  "intent_edge_of X e = try_bind (edge_hash X e) (\<lambda>h. Inr \<lparr>ie_edge = e, ie_hash = h\<rparr>)"

definition derive_intent_edges :: "ext \<Rightarrow> domain_config \<Rightarrow> intent_config \<Rightarrow> persisted_intent_edge list result" where
  "derive_intent_edges X c i =
     try_bind (case intent_edges c i of Inl _ \<Rightarrow> Inl Validation | Inr es \<Rightarrow> Inr es) (\<lambda>es.
       collect_results (map (intent_edge_of X) es))"

text \<open>\<^verbatim>\<open>Vec::dedup_by\<close>: an element goes when the last one kept has its key.\<close>

fun dedup_by_key :: "('a \<Rightarrow> 'k) \<Rightarrow> 'a list \<Rightarrow> 'a list" where
  "dedup_by_key k (x # y # xs) = (if k y = k x then dedup_by_key k (x # xs) else x # dedup_by_key k (y # xs))"
| "dedup_by_key k xs = xs"

fun retain_new :: "('a \<Rightarrow> 'k) \<Rightarrow> 'k set \<Rightarrow> 'a list \<Rightarrow> 'a list" where
  "retain_new k seen [] = []"
| "retain_new k seen (x # xs) =
     (if k x \<in> seen then retain_new k seen xs else x # retain_new k (insert (k x) seen) xs)"

definition dedup_page_edges :: "persisted_page_edge list \<Rightarrow> persisted_page_edge list" where
  "dedup_page_edges es = dedup_by_key pe_hash (sort_key (\<lambda>e. (pe_hash e, pe_page e, pe_generation e)) es)"

definition dedup_intent_edges :: "persisted_intent_edge list \<Rightarrow> persisted_intent_edge list" where
  "dedup_intent_edges es = sort_key ie_hash (retain_new ie_hash {} es)"

definition all_edges :: "persisted_page_edge list \<Rightarrow> persisted_intent_edge list \<Rightarrow> qug_edge list" where
  "all_edges ps is = map pe_edge ps @ map ie_edge is"

text \<open>A \<^verbatim>\<open>BTreeMap\<close> of counters, in key order.\<close>

fun bump :: "string \<Rightarrow> (string \<times> nat) list \<Rightarrow> (string \<times> nat) list" where
  "bump k [] = [(k, 1)]"
| "bump k ((l, n) # m) = (if k = l then (l, n + 1) # m else if k < l then (k, 1) # (l, n) # m else (l, n) # bump k m)"

definition count_types :: "qug_edge list \<Rightarrow> (string \<times> nat) list" where
  "count_types es = foldl (\<lambda>m e. bump (edge_type_name e) m) [] es"

section \<open>The source hash\<close>

definition config_value :: "qug_config \<Rightarrow> json" where
  "config_value c =
     JObj [(''candidate_multiplier'', JInt (int (qc_multiplier c))), (''enabled'', JBool (qc_enabled c)),
           (''intent_templates'', (case qc_templates c of None \<Rightarrow> JNull | Some t \<Rightarrow> JStr t)),
           (''max_depth'', JInt (int (qc_max_depth c)))]"

definition i64_le_bytes :: "int \<Rightarrow> string" where
  "i64_le_bytes n = write_u64 (nat (n mod 2 ^ 64))"

definition page_payload :: "qug_page_input \<Rightarrow> string" where
  "page_payload p = frame (gp_page p) @ i64_le_bytes (gp_generation p) @ frame (gp_hash p) @ frame (gp_artifact p)
     @ frame (gp_frontmatter p)"

definition edge_item :: "ext \<Rightarrow> string \<Rightarrow> qug_edge \<Rightarrow> (string \<times> string) result" where
  "edge_item X h e = try_bind (edge_canonical_bytes X e) (\<lambda>b. Inr (h, b))"

definition source_frame :: "(string \<times> string) list \<Rightarrow> string" where
  "source_frame ds = qug_hash_prefix @ concat (map (\<lambda>d. frame (fst d) @ frame (snd d)) ds)"

definition source_domains ::
  "qug_codec \<Rightarrow> ext \<Rightarrow> qug_source_snapshot \<Rightarrow> persisted_page_edge list \<Rightarrow> persisted_intent_edge list
     \<Rightarrow> (string \<times> string) list result" where
  "source_domains G X s ps is =
     try_bind (ok_or Validation (gk_parse_config G (gs_config s))) (\<lambda>config.
     try_bind (canonical_json X (config_value config)) (\<lambda>canon.
     try_bind (collect_results (map (\<lambda>p. edge_item X (pe_hash p) (pe_edge p)) ps)) (\<lambda>pis.
     try_bind (collect_results (map (\<lambda>i. edge_item X (ie_hash i) (ie_edge i)) is)) (\<lambda>iis.
       Inr [(''domain_name'', gs_domain s), (''domain_version'', gs_version s),
            (''builder_version'', qug_builder_version), (''qug_config'', canon), (''intents'', gs_intents s),
            (''pages'', concat (map page_payload (sort_key gp_page (gs_pages s)))),
            (''edges'', concat (map (\<lambda>i. frame (fst i) @ frame (snd i)) (sort_key fst (pis @ iis))))]))))"

definition compute_source_hash ::
  "qug_codec \<Rightarrow> ext \<Rightarrow> qug_source_snapshot \<Rightarrow> persisted_page_edge list \<Rightarrow> persisted_intent_edge list \<Rightarrow> string result" where
  "compute_source_hash G X s ps is = try_bind (source_domains G X s ps is) (\<lambda>ds. Inr (x_blake3 X (source_frame ds)))"

section \<open>Derivation\<close>

definition derive_qug_edges ::
  "qug_codec \<Rightarrow> (nat \<Rightarrow> nat list) \<Rightarrow> ext \<Rightarrow> qug_source_snapshot \<Rightarrow> domain_config \<Rightarrow> intent_config
     \<Rightarrow> qug_derived_edges result" where
  "derive_qug_edges G lower X s c i =
     try_bind (validate_snapshot s) (\<lambda>_.
     try_bind (case intents_validate c i of Inl _ \<Rightarrow> Inl Validation | Inr _ \<Rightarrow> Inr ()) (\<lambda>_.
     try_bind (check_all (\<lambda>e. check_all (check_phrase lower) (in_phrases e)) (ic_intents i)) (\<lambda>_.
     try_bind (derive_intent_edges X c i) (\<lambda>is0.
     try_bind (derive_page_edges G lower X (gs_pages s)) (\<lambda>ps0.
       let ps = dedup_page_edges ps0; is = dedup_intent_edges is0
       in if length ps + length is > max_qug_edges then Inl Validation
          else try_bind (compute_source_hash G X s ps is) (\<lambda>h.
            Inr \<lparr>gd_page_edges = ps, gd_intent_edges = is, gd_source_hash = h, gd_pages = length (gs_pages s),
                 gd_by_type = count_types (all_edges ps is)\<rparr>))))))"

end
