(* ===== verification/Qug_Store.thy ===== *)
theory Qug_Store
  imports Qug_Build Read_Side
begin

text \<open>
  The store of phrase graphs (\<^verbatim>\<open>kernel/qug_store.rs\<close>): a build is published in one transaction that checks
  the accepted pages against the snapshot the edges were derived from, and loaded again only as long as
  its source hash is that of the current pages and configuration. The tables of builds are a record
  around the compile store; \<open>db_edges\<close> of the latter is the table \<^verbatim>\<open>qug_edges\<close> that a build mirrors its
  page edges to. The clock is an argument.
\<close>

section \<open>Tables\<close>

datatype build_status = BuildBuilding | BuildPublished | BuildSuperseded | BuildFailed

record build_row =
  bd_id :: int
  bd_domain :: string
  bd_version :: string
  bd_builder :: string
  bd_hash :: string
  bd_status :: build_status
  bd_pages :: nat
  bd_edges :: nat
  bd_counts :: string
  bd_created :: int
  bd_published :: "int option"

record snapshot_edge_row =
  sn_build :: int
  sn_page :: string
  sn_hash :: string
  sn_json :: string
  sn_generation :: int
  sn_content :: string

record intent_edge_row =
  it_build :: int
  it_hash :: string
  it_json :: string

record qug_store =
  qt_db :: db
  qt_builds :: "build_row list"
  qt_build_seq :: int
  qt_snapshots :: "snapshot_edge_row list"
  qt_intents :: "intent_edge_row list"

definition page_input_of :: "page_row \<Rightarrow> qug_page_input" where
  "page_input_of p = \<lparr>gp_page = pg_id p, gp_generation = pg_generation p, gp_hash = pg_hash p,
                      gp_artifact = pg_artifact p, gp_frontmatter = pg_frontmatter p\<rparr>"

definition accepted_inputs :: "string \<Rightarrow> db \<Rightarrow> qug_page_input list" where
  "accepted_inputs domain d = map page_input_of (accepted_rows domain d)"

definition assemble_qug_snapshot :: "string \<Rightarrow> string \<Rightarrow> string \<Rightarrow> string \<Rightarrow> qug_store \<Rightarrow> qug_source_snapshot" where
  "assemble_qug_snapshot domain version config intents s =
     \<lparr>gs_domain = domain, gs_version = version, gs_config = config, gs_intents = intents,
      gs_pages = accepted_inputs domain (qt_db s)\<rparr>"

section \<open>Publication\<close>

definition of_version :: "string \<Rightarrow> string \<Rightarrow> build_status \<Rightarrow> build_row \<Rightarrow> bool" where
  "of_version domain version st b = (bd_domain b = domain \<and> bd_version b = version \<and> bd_status b = st)"

definition sql_insert :: "('r \<Rightarrow> 'k) \<Rightarrow> 'r \<Rightarrow> 'r list \<Rightarrow> 'r list result" where
  "sql_insert key new tbl = (if sql_exists (\<lambda>r. key r = key new) tbl then Inl Database else Inr (tbl @ [new]))"

fun sql_insert_all :: "('r \<Rightarrow> 'k) \<Rightarrow> ('r \<Rightarrow> bool) \<Rightarrow> 'r list \<Rightarrow> 'r list \<Rightarrow> 'r list result" where
  "sql_insert_all key fk [] tbl = Inr tbl"
| "sql_insert_all key fk (r # rs) tbl =
     (if \<not> fk r then Inl Database else try_bind (sql_insert key r tbl) (sql_insert_all key fk rs))"

definition page_stored :: "db \<Rightarrow> string \<Rightarrow> bool" where
  "page_stored d page = sql_exists (\<lambda>p. pg_id p = page) (db_pages d)"

definition snapshot_row_of :: "ext \<Rightarrow> int \<Rightarrow> persisted_page_edge \<Rightarrow> snapshot_edge_row" where
  "snapshot_row_of X b p =
     \<lparr>sn_build = b, sn_page = pe_page p, sn_hash = pe_hash p, sn_json = edge_canonical_json X (pe_edge p),
      sn_generation = pe_generation p, sn_content = pe_content p\<rparr>"

definition intent_row_of :: "ext \<Rightarrow> int \<Rightarrow> persisted_intent_edge \<Rightarrow> intent_edge_row" where
  "intent_row_of X b i = \<lparr>it_build = b, it_hash = ie_hash i, it_json = edge_canonical_json X (ie_edge i)\<rparr>"

definition mirror_row_of :: "ext \<Rightarrow> int \<Rightarrow> persisted_page_edge \<Rightarrow> edge_row" where
  "mirror_row_of X b p =
     \<lparr>e_page = pe_page p, e_hash = pe_hash p, e_json = edge_canonical_json X (pe_edge p),
      e_generation = pe_generation p, e_content_hash = pe_content p, e_build = Some b\<rparr>"

definition new_build :: "ext \<Rightarrow> qug_source_snapshot \<Rightarrow> string \<Rightarrow> (string \<times> nat) list \<Rightarrow> nat \<Rightarrow> int \<Rightarrow> int \<Rightarrow> build_row" where
  "new_build X s hash by_type edges now b =
     \<lparr>bd_id = b, bd_domain = gs_domain s, bd_version = gs_version s, bd_builder = qug_builder_version, bd_hash = hash,
      bd_status = BuildBuilding, bd_pages = length (gs_pages s), bd_edges = edges,
      bd_counts = x_json_text X (JObj (map (\<lambda>(k, n). (k, JInt (int n))) by_type)), bd_created = now, bd_published = None\<rparr>"

definition delete_mirror :: "string \<Rightarrow> db \<Rightarrow> db" where
  "delete_mirror domain d =
     d\<lparr>db_edges := sql_delete (\<lambda>e. sql_exists (\<lambda>p. pg_domain p = domain \<and> pg_id p = e_page e) (db_pages d)) (db_edges d)\<rparr>"

text \<open>Reading back: every edge decodes, its hash is the stored one, and its type is counted.\<close>

fun verify_edges :: "ext \<Rightarrow> (string \<times> string) list \<Rightarrow> (string \<times> nat) list \<Rightarrow> (string \<times> nat) list result" where
  "verify_edges X [] tally = Inr tally"
| "verify_edges X ((h, json) # rows) tally =
     try_bind (ok_or Internal (x_parse_edge X json)) (\<lambda>e.
     try_bind (edge_hash X e) (\<lambda>again.
       if again \<noteq> h then Inl Internal else verify_edges X rows (bump (edge_type_name e) tally)))"

definition snapshot_items :: "int \<Rightarrow> qug_store \<Rightarrow> snapshot_edge_row list" where
  "snapshot_items b s = sort_key sn_hash (filter (\<lambda>r. sn_build r = b) (qt_snapshots s))"

definition intent_items :: "int \<Rightarrow> qug_store \<Rightarrow> intent_edge_row list" where
  "intent_items b s = sort_key it_hash (filter (\<lambda>r. it_build r = b) (qt_intents s))"

definition read_back :: "int \<Rightarrow> qug_store \<Rightarrow> (string \<times> string) list" where
  "read_back b s = map (\<lambda>r. (sn_hash r, sn_json r)) (snapshot_items b s) @ map (\<lambda>r. (it_hash r, it_json r)) (intent_items b s)"

definition insert_build_edges ::
  "ext \<Rightarrow> string \<Rightarrow> int \<Rightarrow> persisted_page_edge list \<Rightarrow> persisted_intent_edge list \<Rightarrow> qug_store \<Rightarrow> qug_store result" where
  "insert_build_edges X domain b ps is s =
     try_bind (sql_insert_all (\<lambda>r. (sn_build r, sn_page r, sn_hash r)) (\<lambda>r. page_stored (qt_db s) (sn_page r))
                 (map (snapshot_row_of X b) ps) (qt_snapshots s)) (\<lambda>snapshots.
     try_bind (sql_insert_all (\<lambda>r. (it_build r, it_hash r)) (\<lambda>r. True) (map (intent_row_of X b) is) (qt_intents s)) (\<lambda>intents.
       let d = delete_mirror domain (qt_db s)
       in try_bind (sql_insert_all (\<lambda>r. (e_page r, e_hash r)) (\<lambda>r. page_stored d (e_page r))
                      (map (mirror_row_of X b) ps) (db_edges d)) (\<lambda>mirror.
          Inr (s\<lparr>qt_db := d\<lparr>db_edges := mirror\<rparr>, qt_snapshots := snapshots, qt_intents := intents\<rparr>))))"

definition check_stored ::
  "ext \<Rightarrow> int \<Rightarrow> persisted_page_edge list \<Rightarrow> persisted_intent_edge list \<Rightarrow> (string \<times> nat) list \<Rightarrow> qug_store \<Rightarrow> unit result" where
  "check_stored X b ps is by_type s =
     (if sql_count (\<lambda>r. sn_build r = b) (qt_snapshots s) \<noteq> length ps
         \<or> sql_count (\<lambda>r. it_build r = b) (qt_intents s) \<noteq> length is then Inl Internal
      else try_bind (verify_edges X (read_back b s) []) (\<lambda>tally.
        if tally \<noteq> by_type then Inl Internal
        else if sql_count (\<lambda>e. e_build e = Some b) (db_edges (qt_db s)) \<noteq> length ps then Inl Internal
        else Inr ()))"

definition promote_build :: "string \<Rightarrow> string \<Rightarrow> int \<Rightarrow> int \<Rightarrow> build_row list \<Rightarrow> build_row list result" where
  "promote_build domain version b now builds =
     (let rest = sql_update (of_version domain version BuildPublished) (\<lambda>r. r\<lparr>bd_status := BuildSuperseded\<rparr>) builds
      in if sql_count (\<lambda>r. bd_id r = b) rest \<noteq> 1 then Inl Internal
         else Inr (sql_update (\<lambda>r. bd_id r = b) (\<lambda>r. r\<lparr>bd_status := BuildPublished, bd_published := Some now\<rparr>) rest))"

definition fail_building :: "string \<Rightarrow> string \<Rightarrow> build_row list \<Rightarrow> build_row list" where
  "fail_building domain version = sql_update (of_version domain version BuildBuilding) (\<lambda>r. r\<lparr>bd_status := BuildFailed\<rparr>)"

definition publish_build_in_transaction ::
  "qug_codec \<Rightarrow> ext \<Rightarrow> int \<Rightarrow> qug_source_snapshot \<Rightarrow> persisted_page_edge list \<Rightarrow> persisted_intent_edge list
     \<Rightarrow> qug_store \<Rightarrow> (qug_build_stats \<times> qug_store) result" where
  "publish_build_in_transaction G X now sn ps is s =
     (if accepted_inputs (gs_domain sn) (qt_db s) \<noteq> sort_key gp_page (gs_pages sn) then Inl Validation
      else try_bind (compute_source_hash G X sn ps is) (\<lambda>hash.
        let by_type = count_types (all_edges ps is);
            b = qt_build_seq s + 1;
            new = new_build X sn hash by_type (length ps + length is) now b;
            s1 = s\<lparr>qt_builds := fail_building (gs_domain sn) (gs_version sn) (qt_builds s) @ [new], qt_build_seq := b\<rparr>
        in try_bind (insert_build_edges X (gs_domain sn) b ps is s1) (\<lambda>s2.
           try_bind (check_stored X b ps is by_type s2) (\<lambda>_.
           try_bind (promote_build (gs_domain sn) (gs_version sn) b now (qt_builds s2)) (\<lambda>builds.
             Inr (\<lparr>gb_build = b, gb_reused = False, gb_source_hash = hash, gb_pages = length (gs_pages sn),
                   gb_edges = length ps + length is, gb_by_type = by_type\<rparr>, s2\<lparr>qt_builds := builds\<rparr>))))))"

definition publish_build ::
  "qug_codec \<Rightarrow> ext \<Rightarrow> int \<Rightarrow> qug_source_snapshot \<Rightarrow> persisted_page_edge list \<Rightarrow> persisted_intent_edge list
     \<Rightarrow> qug_store \<Rightarrow> qug_build_stats result \<times> qug_store" where
  "publish_build G X now sn ps is s = immediate_transaction (publish_build_in_transaction G X now sn ps is) s"

section \<open>The active build\<close>

definition active_build_row :: "string \<Rightarrow> string \<Rightarrow> qug_store \<Rightarrow> build_row option" where
  "active_build_row domain version s = sql_first (of_version domain version BuildPublished) (qt_builds s)"

definition active_source_hash :: "string \<Rightarrow> string \<Rightarrow> qug_store \<Rightarrow> string option" where
  "active_source_hash domain version s = map_option bd_hash (active_build_row domain version s)"

definition active_build_identity :: "string \<Rightarrow> string \<Rightarrow> qug_store \<Rightarrow> (int \<times> string) option" where
  "active_build_identity domain version s = map_option (\<lambda>b. (bd_id b, bd_hash b)) (active_build_row domain version s)"

definition load_active_edges :: "ext \<Rightarrow> string \<Rightarrow> string \<Rightarrow> qug_store \<Rightarrow> qug_edge list result" where
  "load_active_edges X domain version s =
     (case active_build_row domain version s of
        None \<Rightarrow> Inr []
      | Some b \<Rightarrow> collect_results (map (\<lambda>(h, json). ok_or Internal (x_parse_edge X json)) (sort_key fst (read_back (bd_id b) s))))"

section \<open>Build and publish\<close>

definition reuse_stats :: "int \<Rightarrow> qug_derived_edges \<Rightarrow> qug_build_stats" where
  "reuse_stats b r = \<lparr>gb_build = b, gb_reused = True, gb_source_hash = gd_source_hash r, gb_pages = gd_pages r,
                      gb_edges = edge_count r, gb_by_type = gd_by_type r\<rparr>"

definition build_and_publish_qug ::
  "qug_codec \<Rightarrow> (nat \<Rightarrow> nat list) \<Rightarrow> ext \<Rightarrow> int \<Rightarrow> qug_source_snapshot \<Rightarrow> domain_config \<Rightarrow> intent_config \<Rightarrow> bool
     \<Rightarrow> qug_store \<Rightarrow> qug_build_outcome result \<times> qug_store" where
  "build_and_publish_qug G lower X now sn c i force s =
     (case derive_qug_edges G lower X sn c i of
        Inl e \<Rightarrow> (Inl e, s)
      | Inr r \<Rightarrow>
          (case (if force \<or> active_source_hash (gs_domain sn) (gs_version sn) s \<noteq> Some (gd_source_hash r) then None
                 else active_build_identity (gs_domain sn) (gs_version sn) s) of
             Some (b, h) \<Rightarrow> (Inr (Reused (reuse_stats b r)), s)
           | None \<Rightarrow>
               (case publish_build G X now sn (gd_page_edges r) (gd_intent_edges r) s of
                  (Inl e, s') \<Rightarrow> (Inl e, s')
                | (Inr st, s') \<Rightarrow> (Inr (Published st), s'))))"

text \<open>
  \<open>others\<close> is what other connections do between the transaction that reads the pages and those that
  compare and publish.
\<close>

definition build_and_publish_qug_from_bytes ::
  "qug_codec \<Rightarrow> (nat \<Rightarrow> nat list) \<Rightarrow> ext \<Rightarrow> int \<Rightarrow> string \<Rightarrow> string \<Rightarrow> string \<Rightarrow> string \<Rightarrow> domain_config \<Rightarrow> bool
     \<Rightarrow> (qug_store \<Rightarrow> qug_store) \<Rightarrow> qug_store \<Rightarrow> qug_build_outcome result \<times> qug_store" where
  "build_and_publish_qug_from_bytes G lower X now domain version config bytes c force others s =
     (case parse_intents G lower bytes of
        Inl e \<Rightarrow> (Inl e, s)
      | Inr i \<Rightarrow> build_and_publish_qug G lower X now (assemble_qug_snapshot domain version config bytes s) c i force (others s))"

section \<open>Loading\<close>

datatype load_failure = StaleSource | LoadError kerror

definition load_error :: "'a result \<Rightarrow> ('a \<Rightarrow> load_failure + 'b) \<Rightarrow> load_failure + 'b" where
  "load_error r f = (case r of Inl e \<Rightarrow> Inl (LoadError e) | Inr a \<Rightarrow> f a)"

definition decode_page_edge :: "ext \<Rightarrow> snapshot_edge_row \<Rightarrow> persisted_page_edge result" where
  "decode_page_edge X r =
     try_bind (ok_or Internal (x_parse_edge X (sn_json r))) (\<lambda>e.
       Inr \<lparr>pe_page = sn_page r, pe_edge = e, pe_hash = sn_hash r, pe_generation = sn_generation r, pe_content = sn_content r\<rparr>)"

definition decode_intent_edge :: "ext \<Rightarrow> intent_edge_row \<Rightarrow> persisted_intent_edge result" where
  "decode_intent_edge X r =
     try_bind (ok_or Internal (x_parse_edge X (it_json r))) (\<lambda>e. Inr \<lparr>ie_edge = e, ie_hash = it_hash r\<rparr>)"

definition graph_edges :: "persisted_page_edge list \<Rightarrow> persisted_intent_edge list \<Rightarrow> qug_edge list" where
  "graph_edges ps is = map snd (sort_key fst (map (\<lambda>p. (pe_hash p, pe_edge p)) ps @ map (\<lambda>i. (ie_hash i, ie_edge i)) is))"

definition current_snapshot :: "qug_codec \<Rightarrow> domain_config \<Rightarrow> string \<Rightarrow> qug_store \<Rightarrow> qug_source_snapshot" where
  "current_snapshot G c intents s =
     assemble_qug_snapshot (dc_name c) (dc_version c) (gk_config_text G (dc_qug c)) intents s"

definition load_active_in_transaction ::
  "qug_codec \<Rightarrow> (nat \<Rightarrow> nat list) \<Rightarrow> ext \<Rightarrow> domain_config \<Rightarrow> string \<Rightarrow> qug_store \<Rightarrow> load_failure + qug_graph option" where
  "load_active_in_transaction G lower X c intents s =
     (case active_build_row (dc_name c) (dc_version c) s of
        None \<Rightarrow> Inr None
      | Some b \<Rightarrow>
          load_error (collect_results (map (decode_page_edge X) (snapshot_items (bd_id b) s))) (\<lambda>ps.
          load_error (collect_results (map (decode_intent_edge X) (intent_items (bd_id b) s))) (\<lambda>is.
            if length ps + length is \<noteq> bd_edges b then Inl (LoadError Internal)
            else load_error (compute_source_hash G X (current_snapshot G c intents s) ps is) (\<lambda>hash.
              if hash \<noteq> bd_hash b then Inl StaleSource
              else (case from_edges lower X (graph_edges ps is) (qc_max_depth (dc_qug c)) of
                      Inl _ \<Rightarrow> Inl (LoadError Internal)
                    | Inr g \<Rightarrow> Inr (Some g))))))"

definition load_active_qug ::
  "qug_codec \<Rightarrow> (nat \<Rightarrow> nat list) \<Rightarrow> ext \<Rightarrow> domain_config \<Rightarrow> string \<Rightarrow> qug_store \<Rightarrow> qug_graph option result" where
  "load_active_qug G lower X c intents s =
     (case load_active_in_transaction G lower X c intents s of
        Inl StaleSource \<Rightarrow> Inl Validation
      | Inl (LoadError e) \<Rightarrow> Inl e
      | Inr g \<Rightarrow> Inr g)"

end
