(* ===== verification/Qug_Source.thy ===== *)
theory Qug_Source
  imports Qug_Store "HOL-Library.Multiset"
begin

text \<open>
  What the hashes of \<^verbatim>\<open>qug_build.rs\<close> determine: edges with one hash are one JSON value, and equal source
  hashes over one list of edges mean equal pages, intents and configuration. BLAKE3 is taken as
  collision free; byte lengths are below two to the sixty-four.
\<close>

section \<open>Framing without a count\<close>

lemma concat_map_inject:
  assumes "\<And>x y r s. x \<in> set xs \<Longrightarrow> y \<in> set ys \<Longrightarrow> f x @ r = f y @ s \<Longrightarrow> x = y \<and> r = s" "\<And>x. f x \<noteq> []"
    and "concat (map f xs) = concat (map f ys)"
  shows "xs = ys"
  using assms(1,3)
proof (induction xs arbitrary: ys)
  case Nil
  then show ?case using assms(2) by (cases ys) auto
next
  case (Cons x xs)
  then obtain y zs where ys: "ys = y # zs" using assms(2) by (cases ys) auto
  have "x = y \<and> concat (map f xs) = concat (map f zs)" using Cons.prems(2) by (intro Cons.prems(1)) (simp_all add: ys)
  moreover have "xs = zs" using calculation Cons.prems(1) by (intro Cons.IH) (auto simp: ys)
  ultimately show ?case by (simp add: ys)
qed

definition i64_range :: "int \<Rightarrow> bool" where "i64_range n = (i64_min \<le> n \<and> n \<le> i64_max)"

lemma i64_range_mod: "i64_range n \<Longrightarrow> n mod 2 ^ 64 = (if n < 0 then n + 2 ^ 64 else n)"
  using mod_add_self2[of n "2 ^ 64"] by (auto simp: i64_range_def i64_min_def i64_max_def mod_pos_pos_trivial simp del: mod_add_self2)

lemma i64_le_bytes_inject:
  assumes "i64_range n" "i64_range m" "i64_le_bytes n @ r = i64_le_bytes m @ s"
  shows "n = m \<and> r = s"
proof -
  have "nat (n mod 2 ^ 64) < u64_bound" "nat (m mod 2 ^ 64) < u64_bound" by (simp_all add: u64_bound_def nat_less_iff)
  then have "nat (n mod 2 ^ 64) = nat (m mod 2 ^ 64) \<and> r = s"
    using assms(3) unfolding i64_le_bytes_def by (rule write_u64_append_inject)
  then have "n mod 2 ^ 64 = m mod 2 ^ 64" "r = s" by (simp_all add: nat_eq_iff2)
  then have "(if n < 0 then n + 2 ^ 64 else n) = (if m < 0 then m + 2 ^ 64 else m)" "r = s"
    by (simp_all only: i64_range_mod[OF assms(1)] i64_range_mod[OF assms(2)])
  then show ?thesis using assms(1,2) by (auto simp: i64_range_def i64_min_def i64_max_def split: if_splits)
qed

definition page_input_small :: "qug_page_input \<Rightarrow> bool" where
  "page_input_small p \<longleftrightarrow> i64_range (gp_generation p) \<and> length (gp_page p) < u64_bound \<and> length (gp_hash p) < u64_bound
     \<and> length (gp_artifact p) < u64_bound \<and> length (gp_frontmatter p) < u64_bound"

lemma page_payload_inject:
  assumes "page_input_small p" "page_input_small q" "page_payload p @ r = page_payload q @ s"
  shows "p = q \<and> r = s"
proof -
  note small = assms(1,2)[unfolded page_input_small_def]
  have "gp_page p = gp_page q \<and> i64_le_bytes (gp_generation p) @ frame (gp_hash p) @ frame (gp_artifact p) @ frame (gp_frontmatter p) @ r
      = i64_le_bytes (gp_generation q) @ frame (gp_hash q) @ frame (gp_artifact q) @ frame (gp_frontmatter q) @ s"
    using small assms(3) by (intro frame_append_inject) (simp_all add: page_payload_def)
  then have 0: "gp_page p = gp_page q" "i64_le_bytes (gp_generation p) @ frame (gp_hash p) @ frame (gp_artifact p) @ frame (gp_frontmatter p) @ r
      = i64_le_bytes (gp_generation q) @ frame (gp_hash q) @ frame (gp_artifact q) @ frame (gp_frontmatter q) @ s" by simp_all
  have 1: "gp_generation p = gp_generation q \<and> frame (gp_hash p) @ frame (gp_artifact p) @ frame (gp_frontmatter p) @ r
      = frame (gp_hash q) @ frame (gp_artifact q) @ frame (gp_frontmatter q) @ s"
    using small 0(2) by (intro i64_le_bytes_inject) simp_all
  then have 2: "gp_hash p = gp_hash q \<and> frame (gp_artifact p) @ frame (gp_frontmatter p) @ r = frame (gp_artifact q) @ frame (gp_frontmatter q) @ s"
    using small by (intro frame_append_inject) simp_all
  then have 3: "gp_artifact p = gp_artifact q \<and> frame (gp_frontmatter p) @ r = frame (gp_frontmatter q) @ s"
    using small by (intro frame_append_inject) simp_all
  then have "gp_frontmatter p = gp_frontmatter q \<and> r = s" using small by (intro frame_append_inject) simp_all
  with 0(1) 1 2 3 show ?thesis by (cases p; cases q) simp
qed

lemma page_payload_nonempty: "page_payload p \<noteq> []"
proof
  assume "page_payload p = []"
  then have "length (page_payload p) = 0" by simp
  then show False by (simp add: page_payload_def frame_def)
qed

lemma page_parts_le:
  "length (gp_page p) \<le> length (page_payload p)" "length (gp_hash p) \<le> length (page_payload p)"
  "length (gp_artifact p) \<le> length (page_payload p)" "length (gp_frontmatter p) \<le> length (page_payload p)"
  by (simp_all add: page_payload_def frame_def)

lemma payloads_small:
  assumes "length (concat (map page_payload ps)) < u64_bound" "\<forall>p\<in>set ps. i64_range (gp_generation p)" "p \<in> set ps"
  shows "page_input_small p"
proof -
  have "length (page_payload p) < u64_bound"
    using length_concat_ge[of "page_payload p" "map page_payload ps"] assms(1,3) by simp
  then show ?thesis using assms(2,3) page_parts_le[of p] by (auto simp: page_input_small_def)
qed

lemma payloads_inject:
  assumes "concat (map page_payload ps) = concat (map page_payload qs)" "length (concat (map page_payload ps)) < u64_bound"
    "\<forall>p\<in>set ps \<union> set qs. i64_range (gp_generation p)"
  shows "ps = qs"
proof (rule concat_map_inject[OF _ page_payload_nonempty assms(1)])
  fix p q r s assume pq: "p \<in> set ps" "q \<in> set qs" "page_payload p @ r = page_payload q @ s"
  have "page_input_small p" using assms(2,3) pq(1) by (intro payloads_small[of ps]) auto
  moreover have "page_input_small q" using assms(1,2,3) pq(2) by (intro payloads_small[of qs]) auto
  ultimately show "p = q \<and> r = s" using pq(3) by (rule page_payload_inject)
qed

section \<open>The source hash\<close>

lemma config_value_inject: "config_value c = config_value c' \<longleftrightarrow> c = c'"
  by (cases c; cases c') (auto simp: config_value_def split: option.splits)

lemma json_sorted_config [simp]: "json_sorted (config_value c)"
  by (auto simp: config_value_def split: option.split)

lemma json_finite_config [simp]: "json_finite (config_value c)"
  by (auto simp: config_value_def split: option.split)

definition source_small :: "qug_codec \<Rightarrow> ext \<Rightarrow> qug_source_snapshot \<Rightarrow> persisted_page_edge list \<Rightarrow> persisted_intent_edge list \<Rightarrow> bool" where
  "source_small G X sn ps is \<longleftrightarrow> (\<forall>p\<in>set (gs_pages sn). i64_range (gp_generation p))
     \<and> (\<forall>ds. source_domains G X sn ps is = Inr ds \<longrightarrow> (\<forall>d\<in>set ds. length (snd d) < u64_bound))"

lemma source_domains_Inr:
  assumes "source_domains G X sn ps is = Inr ds"
  obtains config canon edges where "gk_parse_config G (gs_config sn) = Some config" "canonical_json X (config_value config) = Inr canon"
    "ds = [(''domain_name'', gs_domain sn), (''domain_version'', gs_version sn), (''builder_version'', qug_builder_version),
           (''qug_config'', canon), (''intents'', gs_intents sn),
           (''pages'', concat (map page_payload (sort_key gp_page (gs_pages sn)))), (''edges'', edges)]"
  using assms by (auto simp: source_domains_def)

lemma source_frame_inject:
  assumes "length ds = length es" "\<forall>d\<in>set ds \<union> set es. length (fst d) < u64_bound \<and> length (snd d) < u64_bound"
    "source_frame ds = source_frame es"
  shows "ds = es"
  using assms by (intro hash_frame_inject) (auto simp: source_frame_def hash_frame_def)

text \<open>The names of the domains are short.\<close>

lemma source_names_small:
  assumes "source_domains G X sn ps is = Inr ds" "d \<in> set ds"
  shows "length (fst d) < u64_bound"
  using assms by (auto elim!: source_domains_Inr simp: u64_bound_def)

lemma source_hash_sound:
  assumes "collision_free X" "number_text_injective X"
    "compute_source_hash G X sn ps is = Inr h" "compute_source_hash G X sn' ps' is' = Inr h"
    "source_small G X sn ps is" "source_small G X sn' ps' is'"
  shows "gs_domain sn = gs_domain sn' \<and> gs_version sn = gs_version sn' \<and> gs_intents sn = gs_intents sn'
    \<and> gk_parse_config G (gs_config sn) = gk_parse_config G (gs_config sn')
    \<and> sort_key gp_page (gs_pages sn) = sort_key gp_page (gs_pages sn')"
proof -
  from assms(3,4) obtain ds es where ds: "source_domains G X sn ps is = Inr ds" and es: "source_domains G X sn' ps' is' = Inr es"
    and "x_blake3 X (source_frame ds) = x_blake3 X (source_frame es)" by (auto simp: compute_source_hash_def)
  then have "source_frame ds = source_frame es" using assms(1) by (simp add: collision_free_def inj_eq)
  moreover have "length ds = length es" using ds es by (auto elim!: source_domains_Inr)
  moreover have sm: "\<forall>d\<in>set ds \<union> set es. length (fst d) < u64_bound \<and> length (snd d) < u64_bound"
    using source_names_small[OF ds] source_names_small[OF es] assms(5,6) ds es by (auto simp: source_small_def)
  ultimately have eq: "ds = es" by (intro source_frame_inject)
  obtain config canon edges where c: "gk_parse_config G (gs_config sn) = Some config" "canonical_json X (config_value config) = Inr canon"
    and d1: "ds = [(''domain_name'', gs_domain sn), (''domain_version'', gs_version sn), (''builder_version'', qug_builder_version),
           (''qug_config'', canon), (''intents'', gs_intents sn),
           (''pages'', concat (map page_payload (sort_key gp_page (gs_pages sn)))), (''edges'', edges)]"
    using source_domains_Inr[OF ds] by metis
  obtain config' canon' edges' where c': "gk_parse_config G (gs_config sn') = Some config'" "canonical_json X (config_value config') = Inr canon'"
    and d2: "es = [(''domain_name'', gs_domain sn'), (''domain_version'', gs_version sn'), (''builder_version'', qug_builder_version),
           (''qug_config'', canon'), (''intents'', gs_intents sn'),
           (''pages'', concat (map page_payload (sort_key gp_page (gs_pages sn')))), (''edges'', edges')]"
    using source_domains_Inr[OF es] by metis
  note all = eq[unfolded d1 d2, simplified]
  have small: "length canon < u64_bound" "length (concat (map page_payload (sort_key gp_page (gs_pages sn)))) < u64_bound"
    using sm by (simp_all add: d1)
  have canon: "canon = canon'" using all by blast
  have "config_value config = config_value config'"
    using canonical_json_inject[OF assms(2) json_sorted_config json_sorted_config c(2) c'(2)[folded canon] small(1)] .
  then have "config = config'" by (simp add: config_value_inject)
  moreover have "sort_key gp_page (gs_pages sn) = sort_key gp_page (gs_pages sn')"
    using all small(2) assms(5,6) by (intro payloads_inject) (auto simp: source_small_def)
  ultimately show ?thesis using all c(1) c'(1) by simp
qed

text \<open>The other direction: the hash is a function of the listed parts and of the edges' bytes.\<close>

lemma source_hash_cong:
  assumes "gs_domain sn = gs_domain sn'" "gs_version sn = gs_version sn'" "gs_intents sn = gs_intents sn'"
    "gk_parse_config G (gs_config sn) = gk_parse_config G (gs_config sn')"
    "sort_key gp_page (gs_pages sn) = sort_key gp_page (gs_pages sn')"
  shows "compute_source_hash G X sn ps is = compute_source_hash G X sn' ps is"
  by (simp add: compute_source_hash_def source_domains_def assms)

end
