(* ===== verification/Qug_Served.thy ===== *)
theory Qug_Served
  imports Qug_Source Read_Props
begin

text \<open>
  What a publication of a build leaves in the store, what later publications and other writers keep of it,
  and what a load makes of it.
\<close>

section \<open>Insertion\<close>

lemma sql_insert_all_Inr:
  "sql_insert_all key fk rs tbl = Inr tbl' \<Longrightarrow> tbl' = tbl @ rs \<and> (\<forall>r\<in>set rs. fk r)"
proof (induction rs arbitrary: tbl)
  case (Cons r rs)
  then have "fk r" "sql_insert_all key fk rs (tbl @ [r]) = Inr tbl'"
    by (auto simp: sql_insert_def split: if_splits)
  then show ?case using Cons.IH[of "tbl @ [r]"] by simp
qed simp

lemma insert_build_edges_Inr:
  assumes "insert_build_edges X domain b ps is s = Inr s'"
  shows "qt_snapshots s' = qt_snapshots s @ map (snapshot_row_of X b) ps" "qt_intents s' = qt_intents s @ map (intent_row_of X b) is"
    "qt_builds s' = qt_builds s" "qt_build_seq s' = qt_build_seq s" "db_pages (qt_db s') = db_pages (qt_db s)"
    "db_edges (qt_db s') = db_edges (delete_mirror domain (qt_db s)) @ map (mirror_row_of X b) ps"
  using assms by (auto simp: insert_build_edges_def Let_def delete_mirror_def dest!: sql_insert_all_Inr)

text \<open>A table that counts as many rows of a build as were appended had none of it before.\<close>

lemma appended_only:
  assumes "sql_count P (tbl @ rows) = length rows" "\<forall>r\<in>set rows. P r"
  shows "filter P (tbl @ rows) = rows"
proof -
  have "length (filter P tbl) = 0" using assms by (simp add: sql_count_def)
  then show ?thesis using assms(2) by simp
qed

lemma verify_edges_all:
  "verify_edges X rows tally = Inr out \<Longrightarrow> (h, json) \<in> set rows \<Longrightarrow> \<exists>e. x_parse_edge X json = Some e \<and> edge_hash X e = Inr h"
proof (induction rows arbitrary: tally)
  case (Cons row rows)
  obtain k t where row: "row = (k, t)" by (cases row)
  obtain e again where e: "x_parse_edge X t = Some e" "edge_hash X e = Inr again" "again = k"
    "verify_edges X rows (bump (edge_type_name e) tally) = Inr out"
    using Cons.prems(1) by (auto simp: row split: if_splits)
  show ?case using Cons.IH[OF e(4)] Cons.prems(2) e(1-3) by (auto simp: row)
qed simp

section \<open>Publication\<close>

definition superseded :: "string \<Rightarrow> string \<Rightarrow> build_row \<Rightarrow> build_row" where
  "superseded domain version r =
     (if of_version domain version BuildPublished r then r\<lparr>bd_status := BuildSuperseded\<rparr> else r)"

definition failed :: "string \<Rightarrow> string \<Rightarrow> build_row \<Rightarrow> build_row" where
  "failed domain version r = (if of_version domain version BuildBuilding r then r\<lparr>bd_status := BuildFailed\<rparr> else r)"

lemma demoted_simps [simp]:
  "bd_id (superseded d v r) = bd_id r" "bd_domain (superseded d v r) = bd_domain r" "bd_version (superseded d v r) = bd_version r"
  "bd_hash (superseded d v r) = bd_hash r" "bd_edges (superseded d v r) = bd_edges r"
  "bd_id (failed d v r) = bd_id r" "bd_domain (failed d v r) = bd_domain r" "bd_version (failed d v r) = bd_version r"
  "bd_hash (failed d v r) = bd_hash r" "bd_edges (failed d v r) = bd_edges r"
  by (simp_all add: superseded_def failed_def)

lemma promote_build_Inr:
  assumes "promote_build domain version b now (builds @ [new]) = Inr out" "bd_id new = b" "bd_status new = BuildBuilding"
  shows "out = map (superseded domain version) builds @ [new\<lparr>bd_status := BuildPublished, bd_published := Some now\<rparr>]"
    "\<forall>r\<in>set builds. bd_id r \<noteq> b"
proof -
  let ?sup = "map (superseded domain version) builds"
  have up: "sql_update (of_version domain version BuildPublished) (\<lambda>r. r\<lparr>bd_status := BuildSuperseded\<rparr>) (builds @ [new]) = ?sup @ [new]"
    using assms(3) by (auto simp: sql_update_def superseded_def of_version_def)
  have out: "sql_count (\<lambda>r. bd_id r = b) (?sup @ [new]) = 1"
      "out = sql_update (\<lambda>r. bd_id r = b) (\<lambda>r. r\<lparr>bd_status := BuildPublished, bd_published := Some now\<rparr>) (?sup @ [new])"
    using assms(1) by (auto simp: promote_build_def Let_def up split: if_splits)
  show none: "\<forall>r\<in>set builds. bd_id r \<noteq> b"
    using out(1) assms(2) by (simp add: sql_count_def filter_map comp_def filter_empty_conv)
  show "out = ?sup @ [new\<lparr>bd_status := BuildPublished, bd_published := Some now\<rparr>]"
    using none assms(2) by (simp add: out(2) sql_update_def map_idI)
qed

record edition =
  ed_build :: int
  ed_pages :: "persisted_page_edge list"
  ed_intents :: "persisted_intent_edge list"

text \<open>The rows of one build, complete and readable.\<close>

definition holds_edition :: "ext \<Rightarrow> edition \<Rightarrow> qug_store \<Rightarrow> bool" where
  "holds_edition X ed s \<longleftrightarrow>
     filter (\<lambda>r. sn_build r = ed_build ed) (qt_snapshots s) = map (snapshot_row_of X (ed_build ed)) (ed_pages ed)
     \<and> filter (\<lambda>r. it_build r = ed_build ed) (qt_intents s) = map (intent_row_of X (ed_build ed)) (ed_intents ed)
     \<and> (\<forall>p\<in>set (ed_pages ed). \<exists>e. x_parse_edge X (edge_canonical_json X (pe_edge p)) = Some e \<and> edge_hash X e = Inr (pe_hash p))
     \<and> (\<forall>i\<in>set (ed_intents ed). \<exists>e. x_parse_edge X (edge_canonical_json X (ie_edge i)) = Some e \<and> edge_hash X e = Inr (ie_hash i))"

lemma publish_build_cases:
  assumes "publish_build_in_transaction G X now sn ps is s = Inr (st, s1)"
  obtains hash row where
    "accepted_inputs (gs_domain sn) (qt_db s) = sort_key gp_page (gs_pages sn)" "compute_source_hash G X sn ps is = Inr hash"
    "gb_build st = qt_build_seq s + 1" "gb_source_hash st = hash" "qt_build_seq s1 = qt_build_seq s + 1"
    "qt_builds s1 = map (superseded (gs_domain sn) (gs_version sn) \<circ> failed (gs_domain sn) (gs_version sn)) (qt_builds s) @ [row]"
    "bd_id row = qt_build_seq s + 1" "of_version (gs_domain sn) (gs_version sn) BuildPublished row" "bd_hash row = hash"
    "bd_edges row = length ps + length is" "\<forall>r\<in>set (qt_builds s). bd_id r \<noteq> qt_build_seq s + 1"
    "qt_snapshots s1 = qt_snapshots s @ map (snapshot_row_of X (qt_build_seq s + 1)) ps"
    "qt_intents s1 = qt_intents s @ map (intent_row_of X (qt_build_seq s + 1)) is"
    "db_pages (qt_db s1) = db_pages (qt_db s)"
    "holds_edition X \<lparr>ed_build = qt_build_seq s + 1, ed_pages = ps, ed_intents = is\<rparr> s1"
proof -
  let ?dom = "gs_domain sn" and ?ver = "gs_version sn" and ?b = "qt_build_seq s + 1"
  have acc: "accepted_inputs ?dom (qt_db s) = sort_key gp_page (gs_pages sn)"
    using assms by (auto simp: publish_build_in_transaction_def split: if_splits)
  obtain hash where hash: "compute_source_hash G X sn ps is = Inr hash"
    using assms by (auto simp: publish_build_in_transaction_def split: if_splits)
  define new where "new = new_build X sn hash (count_types (all_edges ps is)) (length ps + length is) now ?b"
  define s0 where "s0 = s\<lparr>qt_builds := fail_building ?dom ?ver (qt_builds s) @ [new], qt_build_seq := ?b\<rparr>"
  obtain s2 builds where s2: "insert_build_edges X ?dom ?b ps is s0 = Inr s2"
    and ok: "check_stored X ?b ps is (count_types (all_edges ps is)) s2 = Inr ()"
    and pr: "promote_build ?dom ?ver ?b now (qt_builds s2) = Inr builds"
    and s1: "s1 = s2\<lparr>qt_builds := builds\<rparr>" and st: "gb_build st = ?b" "gb_source_hash st = hash"
    using assms acc hash by (auto simp: publish_build_in_transaction_def Let_def new_def s0_def)
  note ins = insert_build_edges_Inr[OF s2]
  have failing: "fail_building ?dom ?ver (qt_builds s) = map (failed ?dom ?ver) (qt_builds s)"
    by (simp add: fail_building_def sql_update_def failed_def)
  have new: "bd_id new = ?b" "bd_status new = BuildBuilding" "bd_domain new = ?dom" "bd_version new = ?ver" "bd_hash new = hash"
    "bd_edges new = length ps + length is" by (simp_all add: new_def new_build_def)
  have "promote_build ?dom ?ver ?b now (map (failed ?dom ?ver) (qt_builds s) @ [new]) = Inr builds"
    using pr by (simp add: ins(3) s0_def failing)
  note promoted = promote_build_Inr[OF this new(1,2)]
  have counts: "sql_count (\<lambda>r. sn_build r = ?b) (qt_snapshots s2) = length ps" "sql_count (\<lambda>r. it_build r = ?b) (qt_intents s2) = length is"
    and ver: "\<exists>tally. verify_edges X (read_back ?b s2) [] = Inr tally"
    using ok by (auto simp: check_stored_def split: if_splits)
  have snap: "filter (\<lambda>r. sn_build r = ?b) (qt_snapshots s2) = map (snapshot_row_of X ?b) ps"
    unfolding ins(1) using counts(1) by (intro appended_only) (auto simp: ins(1) snapshot_row_of_def)
  have int: "filter (\<lambda>r. it_build r = ?b) (qt_intents s2) = map (intent_row_of X ?b) is"
    unfolding ins(2) using counts(2) by (intro appended_only) (auto simp: ins(2) intent_row_of_def)
  have rows: "set (read_back ?b s2) = (\<lambda>p. (pe_hash p, edge_canonical_json X (pe_edge p))) ` set ps
      \<union> (\<lambda>i. (ie_hash i, edge_canonical_json X (ie_edge i))) ` set is"
    by (simp add: read_back_def snapshot_items_def intent_items_def snap int snapshot_row_of_def intent_row_of_def image_image)
  obtain tally where tally: "verify_edges X (read_back ?b s2) [] = Inr tally" using ver by blast
  have "holds_edition X \<lparr>ed_build = ?b, ed_pages = ps, ed_intents = is\<rparr> s1"
    using verify_edges_all[OF tally] by (auto simp: holds_edition_def s1 snap int rows)
  moreover have "\<forall>r\<in>set (qt_builds s). bd_id r \<noteq> ?b" using promoted(2) by simp
  ultimately show thesis
    using promoted(1) new by (intro that[OF acc hash, where row = "new\<lparr>bd_status := BuildPublished, bd_published := Some now\<rparr>"]) (simp_all add: st s1 ins s0_def of_version_def delete_mirror_def)
qed

section \<open>Later stores\<close>

text \<open>Further publications, successful or not, and whatever other writers do to the compile store.\<close>

inductive qug_later :: "qug_codec \<Rightarrow> ext \<Rightarrow> qug_store \<Rightarrow> qug_store \<Rightarrow> bool" for G :: qug_codec and X :: ext and s :: qug_store where
  same: "qug_later G X s s"
| publish: "qug_later G X s t \<Longrightarrow> publish_build G X now sn ps is t = (r, t') \<Longrightarrow> qug_later G X s t'"
| others: "qug_later G X s t \<Longrightarrow> qug_later G X s (t\<lparr>qt_db := d\<rparr>)"

definition build_info :: "build_row \<Rightarrow> int \<times> string \<times> string \<times> string \<times> nat" where
  "build_info r = (bd_id r, bd_domain r, bd_version r, bd_hash r, bd_edges r)"

definition kept :: "int \<Rightarrow> qug_store \<Rightarrow> qug_store \<Rightarrow> bool" where
  "kept n s t \<longleftrightarrow> n \<le> qt_build_seq t
     \<and> filter (\<lambda>r. sn_build r \<le> n) (qt_snapshots t) = filter (\<lambda>r. sn_build r \<le> n) (qt_snapshots s)
     \<and> filter (\<lambda>r. it_build r \<le> n) (qt_intents t) = filter (\<lambda>r. it_build r \<le> n) (qt_intents s)
     \<and> map build_info (filter (\<lambda>r. bd_id r \<le> n) (qt_builds t)) = map build_info (filter (\<lambda>r. bd_id r \<le> n) (qt_builds s))"

lemma publish_kept:
  assumes "publish_build G X now sn ps is t = (r, t')" "kept n s t"
  shows "kept n s t'"
  using assms(1) unfolding publish_build_def
proof (cases rule: immediate_transaction_cases)
  case (commit st)
  have n: "n \<le> qt_build_seq t" using assms(2) by (simp add: kept_def)
  have sn: "\<not> qt_build_seq t + 1 \<le> n" using n by simp
  from commit(1) show ?thesis
  proof (cases rule: publish_build_cases)
    case (1 hash row)
    have "filter (\<lambda>r. sn_build r \<le> n) (qt_snapshots t') = filter (\<lambda>r. sn_build r \<le> n) (qt_snapshots t)"
      "filter (\<lambda>r. it_build r \<le> n) (qt_intents t') = filter (\<lambda>r. it_build r \<le> n) (qt_intents t)"
      using sn by (simp_all add: 1(12,13) snapshot_row_of_def intent_row_of_def)
    moreover have "map build_info (filter (\<lambda>r. bd_id r \<le> n) (qt_builds t')) = map build_info (filter (\<lambda>r. bd_id r \<le> n) (qt_builds t))"
      using sn 1(7) by (simp add: 1(6) build_info_def filter_map comp_def)
    ultimately show ?thesis using assms(2) n by (simp add: kept_def 1(5))
  qed
qed (use assms(2) in simp)

lemma later_kept: "qug_later G X s t \<Longrightarrow> kept (qt_build_seq s) s t"
proof (induction rule: qug_later.induct)
  case (publish t now sn ps _ r t')
  show ?case by (rule publish_kept[OF publish(2,3)])
qed (simp_all add: kept_def)

lemma kept_edition:
  assumes "kept n s t" "ed_build ed \<le> n" "holds_edition X ed s"
  shows "holds_edition X ed t"
proof -
  have f: "filter (\<lambda>r. g r = ed_build ed) rows = filter (\<lambda>r. g r = ed_build ed) (filter (\<lambda>r. g r \<le> n) rows)" for g :: "'r \<Rightarrow> int" and rows
    using assms(2) by (auto simp: filter_filter intro!: filter_cong)
  show ?thesis
    using assms(1,3) f[of sn_build "qt_snapshots s"] f[of sn_build "qt_snapshots t"] f[of it_build "qt_intents s"]
      f[of it_build "qt_intents t"]
    by (simp add: holds_edition_def kept_def)
qed

lemma kept_row:
  assumes "kept n s t" "r \<in> set (qt_builds t)" "bd_id r \<le> n"
  obtains q where "q \<in> set (qt_builds s)" "build_info q = build_info r"
proof -
  have "build_info r \<in> set (map build_info (filter (\<lambda>r. bd_id r \<le> n) (qt_builds t)))" using assms(2,3) by simp
  then have "build_info r \<in> set (map build_info (filter (\<lambda>r. bd_id r \<le> n) (qt_builds s)))"
    using assms(1)[unfolded kept_def] by (simp only: )
  then show thesis using that by auto
qed

section \<open>Loading an edition\<close>

definition decoded :: "ext \<Rightarrow> qug_edge \<Rightarrow> qug_edge" where
  "decoded X e = the (x_parse_edge X (edge_canonical_json X e))"

definition decoded_page :: "ext \<Rightarrow> persisted_page_edge \<Rightarrow> persisted_page_edge" where
  "decoded_page X p = p\<lparr>pe_edge := decoded X (pe_edge p)\<rparr>"

definition decoded_intent :: "ext \<Rightarrow> persisted_intent_edge \<Rightarrow> persisted_intent_edge" where
  "decoded_intent X i = i\<lparr>ie_edge := decoded X (ie_edge i)\<rparr>"

definition hashed_edges :: "persisted_page_edge list \<Rightarrow> persisted_intent_edge list \<Rightarrow> (string \<times> qug_edge) list" where
  "hashed_edges ps is = map (\<lambda>p. (pe_hash p, pe_edge p)) ps @ map (\<lambda>i. (ie_hash i, ie_edge i)) is"

lemma graph_edges_hashed: "graph_edges ps is = map snd (sort_key fst (hashed_edges ps is))"
  by (simp add: graph_edges_def hashed_edges_def)

lemma decode_all: "(\<And>x. x \<in> set xs \<Longrightarrow> f x = Inr (g x)) \<Longrightarrow> collect_results (map f xs) = Inr (map g xs)"
  by (induction xs) auto

lemma edition_decodes:
  assumes "holds_edition X ed s"
  shows "p \<in> set (ed_pages ed) \<Longrightarrow> x_parse_edge X (edge_canonical_json X (pe_edge p)) = Some (decoded X (pe_edge p))
      \<and> edge_hash X (decoded X (pe_edge p)) = Inr (pe_hash p)"
    "i \<in> set (ed_intents ed) \<Longrightarrow> x_parse_edge X (edge_canonical_json X (ie_edge i)) = Some (decoded X (ie_edge i))
      \<and> edge_hash X (decoded X (ie_edge i)) = Inr (ie_hash i)"
  using assms by (force simp: holds_edition_def decoded_def)+

lemma edition_loads:
  assumes "holds_edition X ed s"
  shows "collect_results (map (decode_page_edge X) (snapshot_items (ed_build ed) s))
      = Inr (map (decoded_page X) (sort_key pe_hash (ed_pages ed)))"
    "collect_results (map (decode_intent_edge X) (intent_items (ed_build ed) s))
      = Inr (map (decoded_intent X) (sort_key ie_hash (ed_intents ed)))"
proof -
  have rows: "snapshot_items (ed_build ed) s = map (snapshot_row_of X (ed_build ed)) (sort_key pe_hash (ed_pages ed))"
    "intent_items (ed_build ed) s = map (intent_row_of X (ed_build ed)) (sort_key ie_hash (ed_intents ed))"
    using assms by (simp_all add: holds_edition_def snapshot_items_def intent_items_def sort_key_map snapshot_row_of_def intent_row_of_def)
  show "collect_results (map (decode_page_edge X) (snapshot_items (ed_build ed) s))
      = Inr (map (decoded_page X) (sort_key pe_hash (ed_pages ed)))"
    unfolding rows map_map
    by (rule decode_all) (use edition_decodes(1)[OF assms] in
        \<open>auto simp: decode_page_edge_def snapshot_row_of_def decoded_page_def ok_or_def\<close>)
  show "collect_results (map (decode_intent_edge X) (intent_items (ed_build ed) s))
      = Inr (map (decoded_intent X) (sort_key ie_hash (ed_intents ed)))"
    unfolding rows map_map
    by (rule decode_all) (use edition_decodes(2)[OF assms] in
        \<open>auto simp: decode_intent_edge_def intent_row_of_def decoded_intent_def ok_or_def\<close>)
qed

text \<open>The edges an edition serves, in the order of their hashes.\<close>

definition edition_edges :: "ext \<Rightarrow> edition \<Rightarrow> qug_edge list" where
  "edition_edges X ed = map (decoded X \<circ> snd) (sort_key fst (hashed_edges (sort_key pe_hash (ed_pages ed)) (sort_key ie_hash (ed_intents ed))))"

lemma graph_edges_edition:
  "graph_edges (map (decoded_page X) (sort_key pe_hash (ed_pages ed))) (map (decoded_intent X) (sort_key ie_hash (ed_intents ed)))
     = edition_edges X ed"
proof -
  let ?h = "hashed_edges (sort_key pe_hash (ed_pages ed)) (sort_key ie_hash (ed_intents ed))"
  have "hashed_edges (map (decoded_page X) (sort_key pe_hash (ed_pages ed))) (map (decoded_intent X) (sort_key ie_hash (ed_intents ed)))
      = map (\<lambda>(h, e). (h, decoded X e)) ?h"
    by (simp add: hashed_edges_def decoded_page_def decoded_intent_def)
  then show ?thesis by (simp add: graph_edges_hashed edition_edges_def sort_key_map case_prod_unfold comp_def)
qed

lemma load_active_edges_edition:
  assumes "holds_edition X ed s" "active_build_row domain version s = Some row" "bd_id row = ed_build ed"
  shows "load_active_edges X domain version s = Inr (edition_edges X ed)"
proof -
  let ?h = "hashed_edges (sort_key pe_hash (ed_pages ed)) (sort_key ie_hash (ed_intents ed))"
  have "read_back (ed_build ed) s = map (\<lambda>(h, e). (h, edge_canonical_json X e)) ?h"
    using assms(1) by (simp add: holds_edition_def read_back_def snapshot_items_def intent_items_def sort_key_map
        snapshot_row_of_def intent_row_of_def hashed_edges_def comp_def)
  then have "load_active_edges X domain version s
      = collect_results (map (\<lambda>x. ok_or Internal (x_parse_edge X (edge_canonical_json X (snd x)))) (sort_key fst ?h))"
    by (simp add: load_active_edges_def assms(2,3) sort_key_map case_prod_unfold comp_def)
  also have "\<dots> = Inr (map (\<lambda>x. decoded X (snd x)) (sort_key fst ?h))"
    using edition_decodes[OF assms(1)] by (intro decode_all) (auto simp: hashed_edges_def ok_or_def)
  finally show ?thesis by (simp add: edition_edges_def comp_def)
qed

section \<open>The source hash of what is loaded\<close>

lemma edge_hash_bytes: "edge_hash X e = Inr h \<longleftrightarrow> (\<exists>b. edge_canonical_bytes X e = Inr b \<and> h = x_blake3 X b)"
  by (auto simp: edge_hash_def)

lemma edge_item_hash:
  assumes "collision_free X" "edge_hash X e = Inr h" "edge_hash X e' = Inr h"
  shows "edge_item X h e = edge_item X h e'"
  using assms by (auto simp: edge_hash_bytes edge_item_def collision_free_def inj_eq)

lemma edge_item_injective:
  assumes "collision_free X" "edge_hash X e = Inr h" "edge_hash X e' = Inr h'" "edge_item X h e = Inr x" "edge_item X h' e' = Inr y"
    "fst x = fst y"
  shows "x = y"
  using assms by (auto simp: edge_hash_bytes edge_item_def collision_free_def inj_eq)

definition edge_items :: "ext \<Rightarrow> (string \<times> qug_edge) list \<Rightarrow> (string \<times> string) list result" where
  "edge_items X hs = collect_results (map (\<lambda>(h, e). edge_item X h e) hs)"

lemma collect_results_append:
  "try_bind (collect_results xs) (\<lambda>a. try_bind (collect_results ys) (\<lambda>b. f (a @ b))) = try_bind (collect_results (xs @ ys)) f"
proof (induction xs arbitrary: f)
  case (Cons x xs)
  show ?case
  proof (cases x)
    case (Inr a)
    show ?thesis
      using Cons.IH[of "\<lambda>b. f (a # b)"] by (cases "collect_results xs"; cases "collect_results ys") (auto simp: Inr try_bind_def split: sum.splits)
  qed simp
qed simp


lemma source_domains_items:
  "source_domains G X sn ps is =
     try_bind (ok_or Validation (gk_parse_config G (gs_config sn))) (\<lambda>config.
     try_bind (canonical_json X (config_value config)) (\<lambda>canon.
     try_bind (edge_items X (hashed_edges ps is)) (\<lambda>items.
       Inr [(''domain_name'', gs_domain sn), (''domain_version'', gs_version sn),
            (''builder_version'', qug_builder_version), (''qug_config'', canon), (''intents'', gs_intents sn),
            (''pages'', concat (map page_payload (sort_key gp_page (gs_pages sn)))),
            (''edges'', concat (map (\<lambda>i. frame (fst i) @ frame (snd i)) (sort_key fst items)))])))"
  unfolding source_domains_def edge_items_def hashed_edges_def map_append collect_results_append[symmetric]
  by (simp add: comp_def)

definition well_hashed :: "ext \<Rightarrow> string \<times> qug_edge \<Rightarrow> bool" where
  "well_hashed X he \<longleftrightarrow> edge_hash X (snd he) = Inr (fst he)"

definition item_of :: "ext \<Rightarrow> string \<times> qug_edge \<Rightarrow> string \<times> string" where
  "item_of X he = (fst he, projr (edge_canonical_bytes X (snd he)))"

lemma edge_items_hashed:
  assumes "\<forall>he\<in>set hs. well_hashed X he"
  shows "edge_items X hs = Inr (map (item_of X) hs)"
  unfolding edge_items_def
  using assms by (intro decode_all) (auto simp: edge_item_def item_of_def well_hashed_def edge_hash_bytes)

lemma item_of_same:
  assumes "collision_free X" "well_hashed X a" "well_hashed X b" "fst a = fst b"
  shows "item_of X a = item_of X b"
proof -
  obtain x y where xy: "edge_canonical_bytes X (snd a) = Inr x" "fst a = x_blake3 X x"
    "edge_canonical_bytes X (snd b) = Inr y" "fst b = x_blake3 X y"
    using assms(2,3) by (auto simp: well_hashed_def edge_hash_bytes)
  then have "x = y" using assms(1,4) by (simp add: collision_free_def inj_eq)
  then show ?thesis using xy assms(4) by (simp add: item_of_def)
qed

lemma fst_item_of [simp]: "fst (item_of X a) = fst a"
  by (simp add: item_of_def)

lemma item_of_injective:
  assumes "collision_free X" "\<forall>he\<in>set hs. well_hashed X he"
  shows "inj_on fst (set (map (item_of X) hs))"
proof (rule inj_onI)
  fix x y assume "x \<in> set (map (item_of X) hs)" "y \<in> set (map (item_of X) hs)" "fst x = fst y"
  then obtain a b where "a \<in> set hs" "b \<in> set hs" "x = item_of X a" "y = item_of X b" "fst a = fst b" by auto
  then show "x = y" using assms by (auto intro: item_of_same)
qed

lemma source_hash_decoded:
  assumes "collision_free X" "\<forall>he\<in>set (hashed_edges ps is). well_hashed X he \<and> well_hashed X (fst he, decoded X (snd he))"
  shows "compute_source_hash G X sn (map (decoded_page X) (sort_key pe_hash ps)) (map (decoded_intent X) (sort_key ie_hash is))
    = compute_source_hash G X sn ps is"
proof -
  let ?hs = "hashed_edges ps is" and ?ss = "hashed_edges (sort_key pe_hash ps) (sort_key ie_hash is)"
    and ?ds = "hashed_edges (map (decoded_page X) (sort_key pe_hash ps)) (map (decoded_intent X) (sort_key ie_hash is))"
  have ds: "?ds = map (\<lambda>he. (fst he, decoded X (snd he))) ?ss"
    by (simp add: hashed_edges_def decoded_page_def decoded_intent_def)
  have ss: "set ?ss = set ?hs" "mset ?ss = mset ?hs" by (simp_all add: hashed_edges_def)
  have good: "\<forall>he\<in>set ?hs. well_hashed X he" using assms(2) by blast
  have dec: "well_hashed X he" "well_hashed X (fst he, decoded X (snd he))" if "he \<in> set ?ss" for he
    using assms(2) that unfolding ss(1) by blast+
  then have good': "\<forall>he\<in>set ?ds. well_hashed X he" unfolding ds set_map by blast
  have "map (item_of X) ?ds = map (item_of X) ?ss"
    unfolding ds map_map comp_def by (rule map_cong[OF refl]) (intro item_of_same[OF assms(1)] dec, simp_all)
  then have "mset (map (item_of X) ?ds) = mset (map (item_of X) ?hs)" using ss(2) by simp
  then have "sort_key fst (map (item_of X) ?ds) = sort_key fst (map (item_of X) ?hs)"
    using item_of_injective[OF assms(1) good'] by (intro sort_key_inj_key_eq) simp_all
  then show ?thesis
    by (simp add: compute_source_hash_def source_domains_items edge_items_hashed good good')
qed

section \<open>Derived edges\<close>

lemma hashes_of_pages:
  "alias_edges lower X p t as = Inr es \<Longrightarrow> \<forall>e\<in>set es. edge_hash X (pe_edge e) = Inr (pe_hash e)"
  "tag_edges lower X p t ts = Inr es \<Longrightarrow> \<forall>e\<in>set es. edge_hash X (pe_edge e) = Inr (pe_hash e)"
  by (induction as arbitrary: es, auto simp: Let_def page_edge_of_def split: if_splits)
     (induction ts arbitrary: es, auto simp: Let_def page_edge_of_def split: if_splits)

lemma edges_of_page_cases:
  assumes "edges_of_page G lower X p = Inr es"
  obtains (untitled) fm where "gk_frontmatter G (gp_frontmatter p) = Some fm" "sf_title fm = None" "sf_aliases fm = []" "sf_tags fm = []" "es = []"
  | (titled) fm raw als tgs where "gk_frontmatter G (gp_frontmatter p) = Some fm" "sf_title fm = Some raw" "\<not> blank_text raw"
      "alias_edges lower X p (trim_text raw) (sf_aliases fm) = Inr als" "tag_edges lower X p (trim_text raw) (sf_tags fm) = Inr tgs"
      "es = als @ tgs"
proof -
  from assms obtain fm where fm: "gk_frontmatter G (gp_frontmatter p) = Some fm" by (auto simp: edges_of_page_def)
  show thesis
  proof (cases "sf_title fm")
    case None
    then show thesis using assms fm untitled by (auto simp: edges_of_page_def ok_or_def split: if_splits)
  next
    case (Some raw)
    then show thesis using assms fm titled by (auto simp: edges_of_page_def ok_or_def split: if_splits)
  qed
qed

lemma set_dedup_by_key: "set (dedup_by_key k xs) \<subseteq> set xs"
  by (induction k xs rule: dedup_by_key.induct) auto

lemma set_retain_new: "set (retain_new k seen xs) \<subseteq> set xs"
  by (induction k seen xs rule: retain_new.induct) auto

lemma in_deduped:
  "e \<in> set (dedup_page_edges ps) \<Longrightarrow> e \<in> set ps" "j \<in> set (dedup_intent_edges is) \<Longrightarrow> j \<in> set is"
  using set_dedup_by_key[of pe_hash "sort_key (\<lambda>e. (pe_hash e, pe_page e, pe_generation e)) ps"] set_retain_new[of ie_hash "{}" "is"]
  by (auto simp: dedup_page_edges_def dedup_intent_edges_def)

lemma collected_from: "collect_results (map f xs) = Inr ys \<Longrightarrow> y \<in> set ys \<Longrightarrow> \<exists>x\<in>set xs. f x = Inr y"
  by (induction xs arbitrary: ys) auto

lemma derived_parts:
  assumes "derive_qug_edges G lower X sn c i = Inr r"
  obtains ps "is" where "derive_page_edges G lower X (gs_pages sn) = Inr ps" "derive_intent_edges X c i = Inr is"
    "gd_page_edges r = dedup_page_edges ps" "gd_intent_edges r = dedup_intent_edges is"
    "compute_source_hash G X sn (gd_page_edges r) (gd_intent_edges r) = Inr (gd_source_hash r)" "gd_pages r = length (gs_pages sn)"
    "gd_by_type r = count_types (all_edges (gd_page_edges r) (gd_intent_edges r))"
    "length (gd_page_edges r) + length (gd_intent_edges r) \<le> max_qug_edges"
  using assms by (auto simp: derive_qug_edges_def Let_def split: if_splits)

lemma derived_hashed:
  assumes "derive_qug_edges G lower X sn c i = Inr r" "he \<in> set (hashed_edges (gd_page_edges r) (gd_intent_edges r))"
  shows "well_hashed X he"
proof -
  obtain ps "is" where d: "derive_page_edges G lower X (gs_pages sn) = Inr ps" "derive_intent_edges X c i = Inr is"
    "gd_page_edges r = dedup_page_edges ps" "gd_intent_edges r = dedup_intent_edges is" by (rule derived_parts[OF assms(1)])
  have "edge_hash X (pe_edge e) = Inr (pe_hash e)" if "e \<in> set ps" for e
  proof -
    from d(1) that obtain ess es where ess: "collect_results (map (edges_of_page G lower X) (gs_pages sn)) = Inr ess" "es \<in> set ess" "e \<in> set es"
      by (auto simp: derive_page_edges_def)
    from collected_from[OF ess(1,2)] obtain p where "edges_of_page G lower X p = Inr es" by blast
    then show ?thesis using ess(3) by (cases rule: edges_of_page_cases) (auto dest: hashes_of_pages)
  qed
  moreover have "edge_hash X (ie_edge e) = Inr (ie_hash e)" if "e \<in> set is" for e
    using d(2) that by (auto simp: derive_intent_edges_def intent_edge_of_def dest!: collected_from)
  ultimately show ?thesis
    using assms(2) by (auto simp: hashed_edges_def well_hashed_def d(3,4) dest: in_deduped)
qed

section \<open>The store after a build\<close>

definition edition_of :: "qug_derived_edges \<Rightarrow> int \<Rightarrow> edition" where
  "edition_of r b = \<lparr>ed_build = b, ed_pages = gd_page_edges r, ed_intents = gd_intent_edges r\<rparr>"

lemma published_cases:
  assumes "derive_qug_edges G lower X sn c i = Inr r"
    "build_and_publish_qug G lower X now sn c i force s = (Inr (Published st), s1)"
  shows "publish_build_in_transaction G X now sn (gd_page_edges r) (gd_intent_edges r) s = Inr (st, s1)"
  using assms
  by (auto simp: build_and_publish_qug_def publish_build_def immediate_transaction_def split: option.splits if_splits sum.splits prod.splits)

lemma hashes_of_edition:
  assumes "holds_edition X ed s"
  shows "map (edge_hash X) (edition_edges X ed) = map Inr (sort (map pe_hash (ed_pages ed) @ map ie_hash (ed_intents ed)))"
proof -
  let ?h = "hashed_edges (sort_key pe_hash (ed_pages ed)) (sort_key ie_hash (ed_intents ed))"
  have "map (edge_hash X) (edition_edges X ed) = map (Inr \<circ> fst) (sort_key fst ?h)"
    using edition_decodes[OF assms] by (auto simp: edition_edges_def hashed_edges_def)
  also have "\<dots> = map Inr (sort (map fst ?h))" by (simp add: sort_key_map)
  also have "sort (map fst ?h) = sort (map pe_hash (ed_pages ed) @ map ie_hash (ed_intents ed))"
    by (subst (1 2) sorted_list_of_multiset_mset[symmetric]) (simp add: hashed_edges_def comp_def)
  finally show ?thesis .
qed

lemma sorted_inputs: "sort_key gp_page (accepted_inputs domain d) = accepted_inputs domain d"
proof (rule sort_key_id_if_sorted)
  have "map gp_page (accepted_inputs domain d) = map pg_id (accepted_rows domain d)"
    by (simp add: accepted_inputs_def page_input_of_def)
  then show "sorted (map gp_page (accepted_inputs domain d))" by (simp add: accepted_rows_def)
qed

lemma still_published:
  "of_version d v BuildPublished (superseded domain ver (failed domain ver r)) \<longleftrightarrow>
     of_version d v BuildPublished r \<and> (d, v) \<noteq> (domain, ver)"
  by (auto simp: of_version_def superseded_def failed_def)

lemma find_in_append: "find P xs = None \<Longrightarrow> find P (xs @ ys) = find P ys"
  by (induction xs) (auto split: if_splits)

lemma active_after_publish:
  assumes "publish_build_in_transaction G X now sn ps is s = Inr (st, s1)"
  shows "\<exists>row. active_build_row (gs_domain sn) (gs_version sn) s1 = Some row \<and> bd_id row = gb_build st \<and> bd_hash row = gb_source_hash st"
  using assms
proof (cases rule: publish_build_cases)
  case (1 hash row)
  have "find (of_version (gs_domain sn) (gs_version sn) BuildPublished) (map (superseded (gs_domain sn) (gs_version sn) \<circ> failed (gs_domain sn) (gs_version sn)) (qt_builds s)) = None"
    by (simp add: find_None_iff still_published)
  then have "active_build_row (gs_domain sn) (gs_version sn) s1 = Some row"
    using 1(8) by (simp add: active_build_row_def sql_first_def 1(6) find_in_append)
  then show ?thesis by (simp add: 1(3,4,7,9))
qed

end
