(* ===== verification/Qug_Build_Props.thy ===== *)
theory Qug_Build_Props
  imports Qug_Served
begin

text \<open>
  What the derivation of edges takes: one edge of every hash that the titles, aliases and tags of the pages
  and the configured intents give, in the order of the hashes.
\<close>

section \<open>Deduplication\<close>

lemma dedup_by_key_keys: "k ` set (dedup_by_key k xs) = k ` set xs"
  by (induction k xs rule: dedup_by_key.induct) auto

lemma dedup_by_key_head: "dedup_by_key k (x # xs) = y # ys \<Longrightarrow> k y = k x"
  by (induction k "x # xs" arbitrary: x xs rule: dedup_by_key.induct) (auto split: if_splits)

lemma dedup_by_key_sorted:
  fixes k :: "'a \<Rightarrow> 'k::linorder"
  shows "sorted (map k xs) \<Longrightarrow> sorted_wrt (<) (map k (dedup_by_key k xs))"
proof (induction k xs rule: dedup_by_key.induct)
  case (1 k x y xs)
  show ?case
  proof (cases "k y = k x")
    case False
    have "k ` set (dedup_by_key k (y # xs)) = k ` set (y # xs)" by (rule dedup_by_key_keys)
    moreover have "\<forall>z\<in>set (y # xs). k x < k z"
      using 1(3) False by (auto simp: less_le intro: order_trans)
    ultimately have "\<forall>h\<in>k ` set (dedup_by_key k (y # xs)). k x < h" by auto
    then show ?thesis using 1(2)[OF False] 1(3) False by auto
  qed (use 1 in auto)
qed auto

lemma retain_new_keys: "seen \<union> k ` set (retain_new k seen xs) = seen \<union> k ` set xs"
proof (induction k seen xs rule: retain_new.induct)
  case (2 k seen x xs)
  then show ?case by (cases "k x \<in> seen") (auto simp: insert_commute)
qed simp

lemma retain_new_distinct: "distinct (map k (retain_new k seen xs)) \<and> k ` set (retain_new k seen xs) \<inter> seen = {}"
  by (induction k seen xs rule: retain_new.induct) auto

lemma deduped_page_edges:
  "sorted_wrt (<) (map pe_hash (dedup_page_edges ps))" "pe_hash ` set (dedup_page_edges ps) = pe_hash ` set ps"
proof -
  let ?key = "\<lambda>e. (pe_hash e, pe_page e, pe_generation e)"
  have "sorted (map ?key (sort_key ?key ps))" by simp
  then have "sorted (map pe_hash (sort_key ?key ps))"
    unfolding sorted_map by (rule sorted_wrt_mono_rel[rotated]) (auto simp: less_eq_prod_def)
  then show "sorted_wrt (<) (map pe_hash (dedup_page_edges ps))" unfolding dedup_page_edges_def by (rule dedup_by_key_sorted)
  show "pe_hash ` set (dedup_page_edges ps) = pe_hash ` set ps" by (simp add: dedup_page_edges_def dedup_by_key_keys)
qed

lemma deduped_intent_edges:
  "sorted_wrt (<) (map ie_hash (dedup_intent_edges es))" "ie_hash ` set (dedup_intent_edges es) = ie_hash ` set es"
proof -
  have "distinct (map ie_hash (dedup_intent_edges es))"
    using retain_new_distinct[of ie_hash "{}" es] by (simp add: dedup_intent_edges_def distinct_map)
  moreover have "sorted (map ie_hash (dedup_intent_edges es))" by (simp add: dedup_intent_edges_def)
  ultimately show "sorted_wrt (<) (map ie_hash (dedup_intent_edges es))" by (simp add: strict_sorted_iff)
  show "ie_hash ` set (dedup_intent_edges es) = ie_hash ` set es"
    using retain_new_keys[of "{}" ie_hash es] by (simp add: dedup_intent_edges_def)
qed

section \<open>The edges of pages and intents\<close>

text \<open>Every alias other than the title is a synonym of it; every tag is a broader phrase.\<close>

definition page_gives :: "qug_codec \<Rightarrow> qug_page_input \<Rightarrow> qug_edge list" where
  "page_gives G p =
     (case gk_frontmatter G (gp_frontmatter p) of
        None \<Rightarrow> []
      | Some fm \<Rightarrow>
          (case sf_title fm of
             None \<Rightarrow> []
           | Some raw \<Rightarrow>
               map (\<lambda>a. Synonym a [trim_text raw]) (filter (\<lambda>a. a \<noteq> trim_text raw) (map trim_text (sf_aliases fm)))
               @ map (\<lambda>t. Hyponym (trim_text raw) t) (map trim_text (sf_tags fm))))"

definition from_page :: "ext \<Rightarrow> qug_page_input \<Rightarrow> persisted_page_edge \<Rightarrow> bool" where
  "from_page X p e \<longleftrightarrow> pe_page e = gp_page p \<and> pe_generation e = gp_generation p \<and> pe_content e = gp_hash p
     \<and> edge_hash X (pe_edge e) = Inr (pe_hash e)"

lemma alias_edges_exact:
  "alias_edges lower X p t als = Inr es \<Longrightarrow>
     map pe_edge es = map (\<lambda>a. Synonym a [t]) (filter (\<lambda>a. a \<noteq> t) (map trim_text als)) \<and> (\<forall>e\<in>set es. from_page X p e)"
  by (induction als arbitrary: es) (auto simp: Let_def page_edge_of_def from_page_def split: if_splits)

lemma tag_edges_exact:
  "tag_edges lower X p t tgs = Inr es \<Longrightarrow>
     map pe_edge es = map (\<lambda>g. Hyponym t g) (map trim_text tgs) \<and> (\<forall>e\<in>set es. from_page X p e)"
  by (induction tgs arbitrary: es) (auto simp: Let_def page_edge_of_def from_page_def split: if_splits)

lemma edges_of_page_exact:
  assumes "edges_of_page G lower X p = Inr es"
  shows "map pe_edge es = page_gives G p \<and> (\<forall>e\<in>set es. from_page X p e)"
  using assms
proof (cases rule: edges_of_page_cases)
  case (titled fm raw als tgs)
  then show ?thesis
    using alias_edges_exact[OF titled(4)] tag_edges_exact[OF titled(5)] by (auto simp: page_gives_def)
qed (simp add: page_gives_def)

lemma derive_page_edges_exact:
  assumes "derive_page_edges G lower X pages = Inr ps"
  shows "pe_edge ` set ps = (\<Union>p\<in>set pages. set (page_gives G p))"
    "\<forall>e\<in>set ps. \<exists>p\<in>set pages. from_page X p e \<and> pe_edge e \<in> set (page_gives G p)"
proof -
  obtain ess where ess: "map (edges_of_page G lower X) pages = map Inr ess" "ps = concat ess"
    using assms by (auto simp: derive_page_edges_def collect_results_eq_Inr)
  have ex: "\<forall>i<length pages. edges_of_page G lower X (pages ! i) = Inr (ess ! i)" "length ess = length pages"
    using ess(1) by (metis length_map nth_map, metis length_map)
  have each: "map pe_edge (ess ! i) = page_gives G (pages ! i) \<and> (\<forall>e\<in>set (ess ! i). from_page X (pages ! i) e)" if "i < length pages" for i
    using ex that by (intro edges_of_page_exact) auto
  then have "pe_edge ` set (ess ! i) = set (page_gives G (pages ! i))" if "i < length pages" for i
    using that by (metis image_set)
  then have "map (\<lambda>es. pe_edge ` set es) ess = map (\<lambda>p. set (page_gives G p)) pages"
    using ex(2) by (intro nth_equalityI) auto
  then have "(\<lambda>es. pe_edge ` set es) ` set ess = (\<lambda>p. set (page_gives G p)) ` set pages" by (metis image_set)
  moreover have "pe_edge ` set ps = \<Union> ((\<lambda>es. pe_edge ` set es) ` set ess)" by (simp add: ess(2) image_UN)
  ultimately show "pe_edge ` set ps = (\<Union>p\<in>set pages. set (page_gives G p))" by simp
  show "\<forall>e\<in>set ps. \<exists>p\<in>set pages. from_page X p e \<and> pe_edge e \<in> set (page_gives G p)"
  proof
    fix e assume "e \<in> set ps"
    then obtain es where "es \<in> set ess" "e \<in> set es" by (auto simp: ess(2))
    then obtain i where i: "i < length pages" "e \<in> set (ess ! i)" using ex(2) by (metis in_set_conv_nth)
    then have "pe_edge e \<in> set (map pe_edge (ess ! i))" by simp
    then show "\<exists>p\<in>set pages. from_page X p e \<and> pe_edge e \<in> set (page_gives G p)" using each[OF i(1)] i by (metis nth_mem)
  qed
qed

lemma derive_intent_edges_exact:
  assumes "derive_intent_edges X c i = Inr is"
  obtains es where "intent_edges c i = Inr es" "map ie_edge is = es" "\<forall>j\<in>set is. edge_hash X (ie_edge j) = Inr (ie_hash j)"
proof -
  obtain es where es: "intent_edges c i = Inr es" "collect_results (map (intent_edge_of X) es) = Inr is"
    using assms by (auto simp: derive_intent_edges_def split: sum.splits)
  have "map ie_edge is = es \<and> (\<forall>j\<in>set is. edge_hash X (ie_edge j) = Inr (ie_hash j))"
    using es(2) by (induction es arbitrary: "is") (auto simp: intent_edge_of_def)
  then show thesis using that es(1) by blast
qed

end
