(* ===== verification/Qug_Demo.thy ===== *)
theory Qug_Demo
  imports Qug_Build_Props Qug_Props
begin

text \<open>A build of one accepted page with one alias, for the witnesses.\<close>

definition cup_page :: page_row where
  "cup_page = \<lparr>pg_id = ''t:d:x'', pg_entity = ''t:d:x'', pg_domain = ''t'', pg_type = ''d'', pg_title = ''tea'',
     pg_content = ''x'', pg_hash = ''h'', pg_generation = 1, pg_status = AcceptedPage, pg_pack = ''1'', pg_compiled = 0,
     pg_model = ''m'', pg_embedding = ''e'', pg_revision = 1, pg_artifact = ''a'', pg_frontmatter = ''f'', pg_created = 0,
     pg_updated = 0\<rparr>"

definition cup_config :: qug_config where
  "cup_config = \<lparr>qc_enabled = True, qc_max_depth = 2, qc_multiplier = 5, qc_templates = None\<rparr>"

definition cup_domain :: domain_config where
  "cup_domain = \<lparr>dc_name = ''t'', dc_version = ''1'', dc_entities = [], dc_query_filters = [], dc_qug = cup_config\<rparr>"

definition cup_codec :: "string \<Rightarrow> qug_codec" where
  "cup_codec title = \<lparr>gk_intents = (\<lambda>_. None),
     gk_frontmatter = (\<lambda>_. Some \<lparr>sf_title = Some title, sf_aliases = [''cha''], sf_tags = []\<rparr>),
     gk_config_text = (\<lambda>_. ''c''), gk_parse_config = (\<lambda>_. Some cup_config)\<rparr>"

definition cup_ext :: "string \<Rightarrow> ext" where
  "cup_ext title = sample_ext\<lparr>x_parse_edge := (\<lambda>_. Some (Synonym ''cha'' [title]))\<rparr>"

definition cup_store :: qug_store where
  "cup_store = \<lparr>qt_db = empty_db\<lparr>db_pages := [cup_page]\<rparr>, qt_builds = [], qt_build_seq = 0, qt_snapshots = [], qt_intents = []\<rparr>"

definition no_intents :: intent_config where
  "no_intents = \<lparr>ic_version = [], ic_intents = []\<rparr>"

definition cup_snapshot :: qug_source_snapshot where
  "cup_snapshot = assemble_qug_snapshot ''t'' ''1'' ''c'' [] cup_store"

lemma cup_ext_laws: "collision_free (cup_ext title)" "number_text_injective (cup_ext title)"
  using collision_free_sample number_text_injective_sample
  by (simp_all add: cup_ext_def collision_free_def number_text_injective_def)

definition cup_edge :: "string \<Rightarrow> persisted_page_edge" where
  "cup_edge title = \<lparr>pe_page = ''t:d:x'', pe_edge = Synonym ''cha'' [title], pe_hash = enc sample_ext (edge_value (Synonym ''cha'' [title])),
     pe_generation = 1, pe_content = ''h''\<rparr>"

lemmas letters = tail_len_def scalar_at_def is_whitespace_def

lemma cup_trim:
  "trim_text ''cha'' = ''cha''" "trim_text ''tea'' = ''tea''" "trim_text ''t'' = ''t''" "trim_text ''1'' = ''1''"
  "trim_text ''t:d:x'' = ''t:d:x''"
  by (simp_all add: trim_text_def is_blank_def letters Let_def)

lemma cup_normal: "check_phrase same_case ''cha'' = Inr ()" "normalizes same_case ''cha''" "normalizes same_case ''tea''"
  by (simp_all add: check_phrase_def normalizes_def normalize_phrase_def Let_def trim_scalars_def same_case_def max_phrase_scalars_def letters)

lemma cup_inputs: "accepted_inputs ''t'' (qt_db cup_store)
    = [\<lparr>gp_page = ''t:d:x'', gp_generation = 1, gp_hash = ''h'', gp_artifact = ''a'', gp_frontmatter = ''f''\<rparr>]"
  by (simp add: accepted_inputs_def accepted_rows_def cup_store_def empty_db_def cup_page_def page_input_of_def)

lemma cup_pages: "gs_pages cup_snapshot = accepted_inputs ''t'' (qt_db cup_store)" "gs_domain cup_snapshot = ''t''"
  "gs_version cup_snapshot = ''1''" "gs_config cup_snapshot = ''c''" "gs_intents cup_snapshot = []"
  by (simp_all add: cup_snapshot_def assemble_qug_snapshot_def)

lemma cup_edge_hash:
  "edge_hash (cup_ext title) (Synonym ''cha'' [title]) = Inr (pe_hash (cup_edge title))"
  "canonical_json (cup_ext title) v = canonical_json sample_ext v"
proof -
  have w: "write_value (cup_ext title) v = write_value sample_ext v" for v
    by (induction "cup_ext title" v rule: write_value.induct) (auto simp: cup_ext_def cong: map_cong)
  then show "canonical_json (cup_ext title) v = canonical_json sample_ext v" by (simp add: canonical_json_def)
  show "edge_hash (cup_ext title) (Synonym ''cha'' [title]) = Inr (pe_hash (cup_edge title))"
    by (simp add: edge_hash_def edge_canonical_bytes_def canonical_json_def cup_edge_def cup_ext_def edge_value_def write_value_Ok)
qed

lemma cup_item: "edge_item (cup_ext title) h (Synonym ''cha'' [title]) = Inr (h, enc sample_ext (edge_value (Synonym ''cha'' [title])))"
  by (simp add: edge_item_def edge_canonical_bytes_def cup_edge_hash(2)) (simp add: canonical_json_def write_value_Ok edge_value_def)

lemma cup_domains:
  "source_domains (cup_codec title) (cup_ext title) sn [cup_edge title] [] =
     Inr [(''domain_name'', gs_domain sn), (''domain_version'', gs_version sn), (''builder_version'', qug_builder_version),
          (''qug_config'', enc sample_ext (config_value cup_config)), (''intents'', gs_intents sn),
          (''pages'', concat (map page_payload (sort_key gp_page (gs_pages sn)))),
          (''edges'', frame (pe_hash (cup_edge title)) @ frame (pe_hash (cup_edge title)))]"
proof -
  have "canonical_json (cup_ext title) (config_value cup_config) = Inr (enc sample_ext (config_value cup_config))"
    unfolding cup_edge_hash(2) by (simp add: canonical_json_def write_value_Ok)
  then show ?thesis
    using cup_item[of title] by (simp add: source_domains_def cup_codec_def cup_edge_def)
qed

lemma cup_derived:
  assumes "trim_text title = title" "title \<noteq> ''cha''" "title \<noteq> []"
  shows "\<exists>r. derive_qug_edges (cup_codec title) same_case (cup_ext title) cup_snapshot cup_domain no_intents = Inr r
    \<and> gd_page_edges r = [cup_edge title] \<and> gd_intent_edges r = []"
proof -
  let ?X = "cup_ext title" and ?G = "cup_codec title"
  have v: "validate_snapshot cup_snapshot = Inr ()"
    by (simp add: validate_snapshot_def cup_pages cup_inputs blank_text_def cup_trim max_qug_pages_def)
  have i: "intents_validate cup_domain no_intents = Inr ()" "derive_intent_edges ?X cup_domain no_intents = Inr []"
    by (simp_all add: intents_validate_def no_intents_def derive_intent_edges_def intent_edges_def)
  have "edges_of_page ?G same_case ?X p = Inr [cup_edge title]" if "p \<in> set (gs_pages cup_snapshot)" for p
    using that assms cup_edge_hash
    by (simp add: cup_pages cup_inputs edges_of_page_def cup_codec_def blank_text_def max_frontmatter_list_def Let_def cup_trim
        cup_normal page_edge_of_def cup_edge_def)
  then have p: "derive_page_edges ?G same_case ?X (gs_pages cup_snapshot) = Inr [cup_edge title]"
    by (simp add: derive_page_edges_def cup_pages cup_inputs)
  have h: "compute_source_hash ?G ?X cup_snapshot [cup_edge title] []
      = Inr (x_blake3 ?X (source_frame (projr (source_domains ?G ?X cup_snapshot [cup_edge title] []))))"
    by (simp add: compute_source_hash_def cup_domains)
  show ?thesis
    using v i p h by (simp add: derive_qug_edges_def no_intents_def Let_def dedup_page_edges_def dedup_intent_edges_def max_qug_edges_def)
qed

lemma cup_published:
  assumes "derive_qug_edges (cup_codec title) same_case (cup_ext title) cup_snapshot cup_domain no_intents = Inr r"
    "gd_page_edges r = [cup_edge title]" "gd_intent_edges r = []"
  shows "\<exists>st s1 row. build_and_publish_qug (cup_codec title) same_case (cup_ext title) 5 cup_snapshot cup_domain no_intents False cup_store
      = (Inr (Published st), s1) \<and> active_build_row ''t'' ''1'' s1 = Some row \<and> bd_id row = gb_build st"
proof -
  let ?X = "cup_ext title" and ?G = "cup_codec title"
  have parse: "x_parse_edge ?X j = Some (Synonym ''cha'' [title])" for j by (simp add: cup_ext_def)
  have hash: "edge_hash ?X (Synonym ''cha'' [title]) = Inr (pe_hash (cup_edge title))" by (rule cup_edge_hash)
  have acc: "accepted_inputs ''t'' (qt_db cup_store) = sort_key gp_page (gs_pages cup_snapshot)" by (simp add: cup_pages cup_inputs)
  have stored: "page_stored d (pe_page (cup_edge title))" if "db_pages d = [cup_page]" for d
    using that by (simp add: page_stored_def sql_exists_def cup_edge_def cup_page_def)
  obtain h where h: "compute_source_hash ?G ?X cup_snapshot [cup_edge title] [] = Inr h"
    by (simp add: compute_source_hash_def cup_domains)
  have "\<exists>st s1. publish_build_in_transaction ?G ?X 5 cup_snapshot [cup_edge title] [] cup_store = Inr (st, s1)"
    using acc h stored hash
    by (simp add: publish_build_in_transaction_def cup_pages Let_def insert_build_edges_def snapshot_row_of_def mirror_row_of_def
        sql_insert_def sql_exists_def cup_store_def empty_db_def delete_mirror_def sql_delete_def check_stored_def sql_count_def
        read_back_def snapshot_items_def intent_items_def parse promote_build_def sql_update_def fail_building_def new_build_def
        of_version_def count_types_def all_edges_def edge_type_name_def cup_edge_def)
  then obtain st s1 where pub: "publish_build_in_transaction ?G ?X 5 cup_snapshot [cup_edge title] [] cup_store = Inr (st, s1)" by blast
  have "active_source_hash ''t'' ''1'' cup_store = None" by (simp add: active_source_hash_def active_build_row_def sql_first_def cup_store_def)
  then have "build_and_publish_qug ?G same_case ?X 5 cup_snapshot cup_domain no_intents False cup_store = (Inr (Published st), s1)"
    using pub by (simp add: build_and_publish_qug_def assms cup_pages publish_build_def immediate_transaction_def)
  then show ?thesis using active_after_publish[OF pub] by (auto simp: cup_pages)
qed

end
