(* ===== verification/Qug_Store_Props.thy ===== *)
theory Qug_Store_Props
  imports Qug_Demo
begin

text \<open>
  Properties of the store of phrase graphs: a published build is served exactly as long as its source is
  unchanged, a domain has one active build, derivation takes every edge the pages and intents give, and a
  build whose phrases do not normalize is published but never served.
\<close>

section \<open>Served until the source changes\<close>

lemma active_in_later:
  assumes "publish_build_in_transaction G X now sn ps is s = Inr (st, s1)" "qug_later G X s1 t"
    "active_build_row domain version t = Some row" "bd_id row = gb_build st"
  shows "holds_edition X \<lparr>ed_build = gb_build st, ed_pages = ps, ed_intents = is\<rparr> t" "bd_hash row = gb_source_hash st"
    "bd_edges row = length ps + length is" "compute_source_hash G X sn ps is = Inr (gb_source_hash st)"
    "sort_key gp_page (gs_pages sn) = accepted_inputs (gs_domain sn) (qt_db s1)"
proof -
  from assms(1) have all: "holds_edition X \<lparr>ed_build = gb_build st, ed_pages = ps, ed_intents = is\<rparr> t
    \<and> bd_hash row = gb_source_hash st \<and> bd_edges row = length ps + length is
    \<and> compute_source_hash G X sn ps is = Inr (gb_source_hash st)
    \<and> sort_key gp_page (gs_pages sn) = accepted_inputs (gs_domain sn) (qt_db s1)"
  proof (cases rule: publish_build_cases)
    case (1 hash new)
    have k: "kept (gb_build st) s1 t" using later_kept[OF assms(2)] by (simp add: 1(3,5))
    have ed: "holds_edition X \<lparr>ed_build = gb_build st, ed_pages = ps, ed_intents = is\<rparr> t"
      using kept_edition[OF k _ 1(15)] by (simp add: 1(3))
    have "row \<in> set (qt_builds t)" using assms(3) by (auto simp: active_build_row_def sql_first_def find_Some_iff)
    then obtain q where q: "q \<in> set (qt_builds s1)" "build_info q = build_info row"
      by (rule kept_row[OF k _ eq_refl[OF assms(4)]])
    then have "q = new" using 1(11) assms(4) by (auto simp: 1(6) build_info_def 1(3))
    then have "bd_hash row = gb_source_hash st \<and> bd_edges row = length ps + length is"
      using q(2) by (auto simp: build_info_def 1(4,9,10))
    moreover have "sort_key gp_page (gs_pages sn) = accepted_inputs (gs_domain sn) (qt_db s1)"
      by (simp add: 1(1)[symmetric] accepted_inputs_def accepted_rows_def 1(14))
    ultimately show ?thesis using ed by (simp add: 1(2,4))
  qed
  then show "holds_edition X \<lparr>ed_build = gb_build st, ed_pages = ps, ed_intents = is\<rparr> t" "bd_hash row = gb_source_hash st"
    "bd_edges row = length ps + length is" "compute_source_hash G X sn ps is = Inr (gb_source_hash st)"
    "sort_key gp_page (gs_pages sn) = accepted_inputs (gs_domain sn) (qt_db s1)" by blast+
qed

lemma load_while_active:
  assumes "derive_qug_edges G lower X sn c i = Inr r"
    "build_and_publish_qug G lower X now sn c i force s = (Inr (Published st), s1)"
    "qug_later G X s1 t" "gs_domain sn = dc_name c'" "gs_version sn = dc_version c'"
    "active_build_row (dc_name c') (dc_version c') t = Some row" "bd_id row = gb_build st"
    "collision_free X" "number_text_injective X" "gk_parse_config G (gk_config_text G (dc_qug c')) = Some (dc_qug c')"
    "source_small G X sn (gd_page_edges r) (gd_intent_edges r)"
    "source_small G X (current_snapshot G c' intents t) (gd_page_edges r) (gd_intent_edges r)"
  shows "\<exists>es. load_active_edges X (dc_name c') (dc_version c') t = Inr es
    \<and> map (edge_hash X) es = map Inr (sort (map pe_hash (gd_page_edges r) @ map ie_hash (gd_intent_edges r)))
    \<and> load_active_in_transaction G lower X c' intents t =
       (if accepted_inputs (dc_name c') (qt_db t) = accepted_inputs (dc_name c') (qt_db s1) \<and> intents = gs_intents sn
           \<and> gk_parse_config G (gs_config sn) = Some (dc_qug c')
        then (case from_edges lower X es (qc_max_depth (dc_qug c')) of Inl _ \<Rightarrow> Inl (LoadError Internal) | Inr g \<Rightarrow> Inr (Some g))
        else Inl StaleSource)"
proof -
  let ?ps = "gd_page_edges r" and ?is = "gd_intent_edges r" and ?cur = "current_snapshot G c' intents t"
  define ed where "ed = \<lparr>ed_build = gb_build st, ed_pages = ?ps, ed_intents = ?is\<rparr>"
  have ed: "ed_build ed = gb_build st" "ed_pages ed = ?ps" "ed_intents ed = ?is" by (simp_all add: ed_def)
  note pub = published_cases[OF assms(1,2)]
  note later = active_in_later[OF pub assms(3,6,7), folded ed_def]
  have row: "bd_id row = ed_build ed" using assms(7) by (simp add: ed)
  have hashed: "\<forall>he\<in>set (hashed_edges ?ps ?is). well_hashed X he \<and> well_hashed X (fst he, decoded X (snd he))"
  proof
    fix he assume he: "he \<in> set (hashed_edges ?ps ?is)"
    then have "well_hashed X (fst he, decoded X (snd he))"
      using edition_decodes[OF later(1)] by (auto simp: hashed_edges_def well_hashed_def ed)
    then show "well_hashed X he \<and> well_hashed X (fst he, decoded X (snd he))" using derived_hashed[OF assms(1) he] by simp
  qed
  let ?same = "accepted_inputs (dc_name c') (qt_db t) = accepted_inputs (dc_name c') (qt_db s1) \<and> intents = gs_intents sn
           \<and> gk_parse_config G (gs_config sn) = Some (dc_qug c')"
  have cur: "gs_domain ?cur = gs_domain sn" "gs_version ?cur = gs_version sn" "gs_intents ?cur = intents"
    "gk_parse_config G (gs_config ?cur) = Some (dc_qug c')"
    "sort_key gp_page (gs_pages ?cur) = accepted_inputs (dc_name c') (qt_db t)"
    using assms(4,5,10) by (simp_all add: current_snapshot_def assemble_qug_snapshot_def sorted_inputs)
  have pages: "sort_key gp_page (gs_pages sn) = accepted_inputs (dc_name c') (qt_db s1)" using later(5) assms(4) by simp
  obtain hash where hash: "compute_source_hash G X ?cur ?ps ?is = Inr hash"
    using later(4) cur(4) by (auto simp: compute_source_hash_def source_domains_def canonical_json_def write_value_Ok)
  have same: "hash = bd_hash row \<longleftrightarrow> ?same"
  proof
    assume "hash = bd_hash row"
    then have "compute_source_hash G X sn ?ps ?is = Inr hash" using later(2,4) by simp
    from source_hash_sound[OF assms(8,9) this hash assms(11,12)] show ?same using cur pages by simp
  next
    assume ?same
    then have "compute_source_hash G X ?cur ?ps ?is = compute_source_hash G X sn ?ps ?is"
      using cur pages by (intro source_hash_cong) simp_all
    then show "hash = bd_hash row" using hash later(2,4) by simp
  qed
  have "load_active_in_transaction G lower X c' intents t =
     (if ?same then (case from_edges lower X (edition_edges X ed) (qc_max_depth (dc_qug c')) of
          Inl _ \<Rightarrow> Inl (LoadError Internal) | Inr g \<Rightarrow> Inr (Some g)) else Inl StaleSource)"
    using edition_loads[OF later(1)] source_hash_decoded[OF assms(8) hashed, of G ?cur] hash same later(3)
    by (simp add: load_active_in_transaction_def assms(6) row load_error_def graph_edges_edition[of X ed, unfolded ed] ed)
  then show ?thesis
    using load_active_edges_edition[OF later(1) assms(6) row] hashes_of_edition[OF later(1)] by (auto simp: ed)
qed

text \<open>A graph can be built: its depth is one to four, and every phrase of its edges normalizes (to 1 to 128 scalars).\<close>

definition buildable :: "(nat \<Rightarrow> nat list) \<Rightarrow> qug_edge list \<Rightarrow> nat \<Rightarrow> bool" where
  "buildable lower es depth \<longleftrightarrow> 1 \<le> depth \<and> depth \<le> 4 \<and> (\<forall>e\<in>set es. \<forall>p\<in>set (edge_phrases e). normalizes lower p)"

lemma buildable_iff: "(\<exists>g. from_edges lower X es depth = Inr g) \<longleftrightarrow> buildable lower es depth"
  by (auto simp: from_edges_total buildable_def list_all_iff)

text \<open>C18. A published graph is served exactly as long as its source is unchanged. Whatever was published or written since, as
  long as the build is the active one its edges load, one of each derived hash in the order of hashes. While the
  accepted pages, the intents and the graph configuration are those the build was derived from, loading the graph
  gives the graph of these edges, if one can be built of them (every phrase normalizes and the depth is one to four),
  and an internal error if not; when any of the three differs it is a staleness error. The hash is taken as collision
  free, number texts as unambiguous, the graph configuration as read back from its text, and the hashed parts
  of both sources as shorter than 2^64 bytes.\<close>

theorem graph_served_until_source_changes:
  assumes "derive_qug_edges G lower X sn c i = Inr r"
    "build_and_publish_qug G lower X now sn c i force s = (Inr (Published st), s1)"
    "qug_later G X s1 t" "gs_domain sn = dc_name c'" "gs_version sn = dc_version c'"
    "active_build_row (dc_name c') (dc_version c') t = Some row" "bd_id row = gb_build st"
    "collision_free X" "number_text_injective X" "gk_parse_config G (gk_config_text G (dc_qug c')) = Some (dc_qug c')"
    "source_small G X sn (gd_page_edges r) (gd_intent_edges r)"
    "source_small G X (current_snapshot G c' intents t) (gd_page_edges r) (gd_intent_edges r)"
  defines "current \<equiv> accepted_inputs (dc_name c') (qt_db t) = accepted_inputs (dc_name c') (qt_db s1) \<and> intents = gs_intents sn
      \<and> gk_parse_config G (gs_config sn) = Some (dc_qug c')"
  shows "\<exists>es. load_active_edges X (dc_name c') (dc_version c') t = Inr es
    \<and> map (edge_hash X) es = map Inr (sort (map pe_hash (gd_page_edges r) @ map ie_hash (gd_intent_edges r)))
    \<and> (current \<and> buildable lower es (qc_max_depth (dc_qug c')) \<longrightarrow>
         (\<exists>g. from_edges lower X es (qc_max_depth (dc_qug c')) = Inr g \<and> load_active_qug G lower X c' intents t = Inr (Some g)))
    \<and> (current \<and> \<not> buildable lower es (qc_max_depth (dc_qug c')) \<longrightarrow> load_active_qug G lower X c' intents t = Inl Internal)
    \<and> (\<not> current \<longrightarrow> load_active_qug G lower X c' intents t = Inl Validation)"
proof -
  obtain es where es: "load_active_edges X (dc_name c') (dc_version c') t = Inr es"
    "map (edge_hash X) es = map Inr (sort (map pe_hash (gd_page_edges r) @ map ie_hash (gd_intent_edges r)))"
    "load_active_in_transaction G lower X c' intents t =
       (if current
        then (case from_edges lower X es (qc_max_depth (dc_qug c')) of Inl _ \<Rightarrow> Inl (LoadError Internal) | Inr g \<Rightarrow> Inr (Some g))
        else Inl StaleSource)"
    unfolding current_def using load_while_active[OF assms(1-12)] by blast
  show ?thesis
    using es(1,2) buildable_iff[of lower X es "qc_max_depth (dc_qug c')"]
    by (intro exI[of _ es] conjI) (auto simp: load_active_qug_def es(3) split: sum.split)
qed

lemma cup_small:
  assumes "gs_domain sn = ''t''" "gs_version sn = ''1''" "length (gs_intents sn) < 2"
    "sort_key gp_page (gs_pages sn) = accepted_inputs ''t'' (qt_db cup_store)"
  shows "source_small (cup_codec ''tea'') (cup_ext ''tea'') sn [cup_edge ''tea''] []"
proof -
  have "set (gs_pages sn) = set (accepted_inputs ''t'' (qt_db cup_store))" using assms(4) by (metis set_sort)
  then have "\<forall>p\<in>set (gs_pages sn). i64_range (gp_generation p)"
    by (simp add: cup_inputs i64_range_def i64_min_def i64_max_def)
  then show ?thesis
    using assms(1-3) unfolding source_small_def cup_domains assms(4) cup_inputs
    by (simp add: u64_bound_def qug_builder_version_def page_payload_def frame_def i64_le_bytes_def cup_edge_def edge_value_def
        config_value_def cup_config_def sample_num_text_def int_text_def)
qed

lemma cup_setup:
  obtains r st s1 row where
    "derive_qug_edges (cup_codec ''tea'') same_case (cup_ext ''tea'') cup_snapshot cup_domain no_intents = Inr r"
    "build_and_publish_qug (cup_codec ''tea'') same_case (cup_ext ''tea'') 5 cup_snapshot cup_domain no_intents False cup_store = (Inr (Published st), s1)"
    "active_build_row (dc_name cup_domain) (dc_version cup_domain) s1 = Some row" "bd_id row = gb_build st"
    "gd_page_edges r = [cup_edge ''tea'']" "gd_intent_edges r = []"
    "source_small (cup_codec ''tea'') (cup_ext ''tea'') cup_snapshot (gd_page_edges r) (gd_intent_edges r)"
    "\<And>i. length i < 2 \<Longrightarrow> source_small (cup_codec ''tea'') (cup_ext ''tea'') (current_snapshot (cup_codec ''tea'') cup_domain i s1) (gd_page_edges r) (gd_intent_edges r)"
proof -
  obtain r where r: "derive_qug_edges (cup_codec ''tea'') same_case (cup_ext ''tea'') cup_snapshot cup_domain no_intents = Inr r"
    "gd_page_edges r = [cup_edge ''tea'']" "gd_intent_edges r = []"
    using cup_derived[of "''tea''"] cup_trim by auto
  obtain st s1 row where b: "build_and_publish_qug (cup_codec ''tea'') same_case (cup_ext ''tea'') 5 cup_snapshot cup_domain no_intents False cup_store
      = (Inr (Published st), s1)" "active_build_row ''t'' ''1'' s1 = Some row" "bd_id row = gb_build st"
    using cup_published[OF r] by blast
  have dom: "dc_name cup_domain = ''t''" "dc_version cup_domain = ''1''" by (simp_all add: cup_domain_def)
  have "accepted_inputs ''t'' (qt_db s1) = accepted_inputs ''t'' (qt_db cup_store)"
    using active_in_later(5)[OF published_cases[OF r(1) b(1)] qug_later.same b(2,3)] by (simp add: cup_pages cup_inputs)
  then have cur: "sort_key gp_page (gs_pages (current_snapshot (cup_codec ''tea'') cup_domain i s1)) = accepted_inputs ''t'' (qt_db cup_store)"
    "gs_domain (current_snapshot (cup_codec ''tea'') cup_domain i s1) = ''t''" "gs_version (current_snapshot (cup_codec ''tea'') cup_domain i s1) = ''1''"
    "gs_intents (current_snapshot (cup_codec ''tea'') cup_domain i s1) = i" for i
    by (simp_all add: current_snapshot_def assemble_qug_snapshot_def dom sorted_inputs)
  show thesis
  proof (rule that[OF r(1) b(1)])
    show "source_small (cup_codec ''tea'') (cup_ext ''tea'') cup_snapshot (gd_page_edges r) (gd_intent_edges r)"
      unfolding r(2,3) by (rule cup_small) (simp_all add: cup_pages sorted_inputs)
    show "source_small (cup_codec ''tea'') (cup_ext ''tea'') (current_snapshot (cup_codec ''tea'') cup_domain i s1) (gd_page_edges r) (gd_intent_edges r)"
      if "length i < 2" for i unfolding r(2,3) using that by (intro cup_small) (simp_all add: cur)
  qed (use b(2,3) r(2,3) dom in simp_all)
qed

lemma cup_names: "gs_domain cup_snapshot = dc_name cup_domain" "gs_version cup_snapshot = dc_version cup_domain"
  "gk_parse_config (cup_codec title) x = Some (dc_qug cup_domain)" "qc_enabled (dc_qug cup_domain)"
  by (simp_all add: cup_pages cup_domain_def cup_codec_def cup_config_def)

theorem graph_served_until_source_changes_witness:
  "\<exists>s1 g. load_active_qug (cup_codec ''tea'') same_case (cup_ext ''tea'') cup_domain [] s1 = Inr (Some g)
     \<and> load_active_qug (cup_codec ''tea'') same_case (cup_ext ''tea'') cup_domain ''x'' s1 = Inl Validation"
proof (rule cup_setup)
  fix r st s1 row
  assume r: "derive_qug_edges (cup_codec ''tea'') same_case (cup_ext ''tea'') cup_snapshot cup_domain no_intents = Inr r"
    and b: "build_and_publish_qug (cup_codec ''tea'') same_case (cup_ext ''tea'') 5 cup_snapshot cup_domain no_intents False cup_store = (Inr (Published st), s1)"
    and row: "active_build_row (dc_name cup_domain) (dc_version cup_domain) s1 = Some row" "bd_id row = gb_build st"
    and e: "gd_page_edges r = [cup_edge ''tea'']" "gd_intent_edges r = []"
    and small: "source_small (cup_codec ''tea'') (cup_ext ''tea'') cup_snapshot (gd_page_edges r) (gd_intent_edges r)"
      "\<And>i. length i < 2 \<Longrightarrow> source_small (cup_codec ''tea'') (cup_ext ''tea'') (current_snapshot (cup_codec ''tea'') cup_domain i s1) (gd_page_edges r) (gd_intent_edges r)"
  note served = graph_served_until_source_changes[OF r b qug_later.same cup_names(1,2) row cup_ext_laws cup_names(3) small]
  have current: "accepted_inputs (dc_name cup_domain) (qt_db s1) = accepted_inputs (dc_name cup_domain) (qt_db s1) \<and> [] = gs_intents cup_snapshot
      \<and> gk_parse_config (cup_codec ''tea'') (gs_config cup_snapshot) = Some (dc_qug cup_domain)"
    and two: "length ([] :: string) < 2"
    using cup_names(3) by (simp_all add: cup_pages)
  obtain es where es: "load_active_edges (cup_ext ''tea'') (dc_name cup_domain) (dc_version cup_domain) s1 = Inr es"
    "map (edge_hash (cup_ext ''tea'')) es = map Inr (sort (map pe_hash (gd_page_edges r) @ map ie_hash (gd_intent_edges r)))"
    "buildable same_case es (qc_max_depth (dc_qug cup_domain)) \<longrightarrow>
       (\<exists>g. load_active_qug (cup_codec ''tea'') same_case (cup_ext ''tea'') cup_domain [] s1 = Inr (Some g))"
    using served[OF two] current by blast
  have "length es = 1" using arg_cong[OF es(2), of length] e by simp
  have "\<forall>e\<in>set es. e = Synonym ''cha'' [''tea'']"
    using es(1) row(1) by (auto simp: load_active_edges_def cup_ext_def ok_or_def dest: collected_from)
  then have "es = [Synonym ''cha'' [''tea'']]" using \<open>length es = 1\<close> by (cases es) auto
  then have "buildable same_case es (qc_max_depth (dc_qug cup_domain))"
    by (simp add: buildable_def edge_phrases_def cup_normal cup_domain_def cup_config_def)
  then obtain g where "load_active_qug (cup_codec ''tea'') same_case (cup_ext ''tea'') cup_domain [] s1 = Inr (Some g)" using es(3) by blast
  moreover have "load_active_qug (cup_codec ''tea'') same_case (cup_ext ''tea'') cup_domain ''x'' s1 = Inl Validation"
    using served[of "''x''"] by (auto simp: cup_pages)
  ultimately show ?thesis by blast
qed

section \<open>One active build\<close>

definition builds_ok :: "qug_store \<Rightarrow> bool" where
  "builds_ok s \<longleftrightarrow> 0 \<le> qt_build_seq s \<and> distinct (map bd_id (qt_builds s)) \<and> (\<forall>b\<in>set (qt_builds s). 1 \<le> bd_id b \<and> bd_id b \<le> qt_build_seq s)
     \<and> (\<forall>domain version. length (filter (of_version domain version BuildPublished) (qt_builds s)) \<le> 1)"

lemma publish_builds_ok:
  assumes "publish_build G X now sn ps is s = (r, s')" "builds_ok s"
  shows "builds_ok s'"
  using assms(1) unfolding publish_build_def
proof (cases rule: immediate_transaction_cases)
  case (commit st)
  from commit(1) show ?thesis
  proof (cases rule: publish_build_cases)
    case (1 hash row)
    let ?demote = "superseded (gs_domain sn) (gs_version sn) \<circ> failed (gs_domain sn) (gs_version sn)"
    have ids: "map bd_id (qt_builds s') = map bd_id (qt_builds s) @ [qt_build_seq s + 1]" by (simp add: 1(6,7) comp_def)
    have "length (filter (of_version d v BuildPublished) (qt_builds s')) \<le> 1" for d v
    proof (cases "(d, v) = (gs_domain sn, gs_version sn)")
      case True
      then have "filter (of_version d v BuildPublished) (map ?demote (qt_builds s)) = []" by (simp add: filter_empty_conv still_published)
      then show ?thesis by (simp add: 1(6))
    next
      case False
      then have "\<not> of_version d v BuildPublished row" using 1(8) by (auto simp: of_version_def)
      moreover have "filter (of_version d v BuildPublished) (map ?demote (qt_builds s)) = map ?demote (filter (of_version d v BuildPublished) (qt_builds s))"
        using False by (simp add: filter_map comp_def still_published)
      ultimately show ?thesis using assms(2) by (simp add: 1(6) builds_ok_def)
    qed
    moreover have "distinct (map bd_id (qt_builds s'))" using assms(2) 1(11) unfolding ids by (auto simp: builds_ok_def)
    moreover have "\<forall>b\<in>set (qt_builds s'). 1 \<le> bd_id b \<and> bd_id b \<le> qt_build_seq s'"
      using assms(2) by (auto simp: builds_ok_def 1(5,6,7))
    ultimately show ?thesis using assms(2) by (simp add: builds_ok_def 1(5))
  qed
qed (use assms(2) in simp)

lemma later_builds_ok: "qug_later G X s t \<Longrightarrow> builds_ok s \<Longrightarrow> builds_ok t"
proof (induction rule: qug_later.induct)
  case (publish t now sn ps _ r t')
  show ?case by (rule publish_builds_ok[OF publish(2)]) (rule publish(3)[OF publish(4)])
qed (simp_all add: builds_ok_def)

text \<open>A domain version has at most one active build, whatever was published, in whatever order and with whatever outcome,
  since the tables were empty; build ids are never used twice.\<close>

theorem one_active_build:
  assumes "qug_later G X s t" "qt_builds s = []" "qt_build_seq s = 0"
  shows "length (filter (of_version domain version BuildPublished) (qt_builds t)) \<le> 1 \<and> distinct (map bd_id (qt_builds t))
    \<and> (\<forall>b\<in>set (qt_builds t). 1 \<le> bd_id b \<and> bd_id b \<le> qt_build_seq t)"
proof -
  have "builds_ok s" using assms(2,3) by (simp add: builds_ok_def)
  from later_builds_ok[OF assms(1) this] show ?thesis by (simp add: builds_ok_def)
qed

theorem one_active_build_witness:
  "\<exists>s1 :: qug_store. qt_builds s1 \<noteq> [] \<and> length (filter (of_version ''t'' ''1'' BuildPublished) (qt_builds s1)) \<le> 1"
proof -
  obtain r where r: "derive_qug_edges (cup_codec ''tea'') same_case (cup_ext ''tea'') cup_snapshot cup_domain no_intents = Inr r"
    "gd_page_edges r = [cup_edge ''tea'']" "gd_intent_edges r = []"
    using cup_derived[of "''tea''"] cup_trim by auto
  obtain st s1 row where b: "build_and_publish_qug (cup_codec ''tea'') same_case (cup_ext ''tea'') 5 cup_snapshot cup_domain no_intents False cup_store
      = (Inr (Published st), s1)" "active_build_row ''t'' ''1'' s1 = Some row"
    using cup_published[OF r] by blast
  from published_cases[OF r(1) b(1)]
  have "publish_build (cup_codec ''tea'') (cup_ext ''tea'') 5 cup_snapshot (gd_page_edges r) (gd_intent_edges r) cup_store = (Inr st, s1)"
    by (simp add: publish_build_def immediate_transaction_def)
  then have "qug_later (cup_codec ''tea'') (cup_ext ''tea'') cup_store s1" by (intro qug_later.publish[OF qug_later.same])
  from one_active_build[OF this, of "''t''" "''1''"]
  have "length (filter (of_version ''t'' ''1'' BuildPublished) (qt_builds s1)) \<le> 1" by (simp add: cup_store_def)
  moreover have "qt_builds s1 \<noteq> []" using b(2) by (auto simp: active_build_row_def sql_first_def)
  ultimately show ?thesis by blast
qed

section \<open>Building again\<close>

lemma publish_stats:
  assumes "publish_build_in_transaction G X now sn ps is s = Inr (st, s1)"
  shows "gb_reused st = False" "gb_pages st = length (gs_pages sn)" "gb_edges st = length ps + length is"
    "gb_by_type st = count_types (all_edges ps is)"
  using assms by (auto simp: publish_build_in_transaction_def Let_def split: if_splits)

text \<open>Building again from the same source reuses the build: nothing is written, and the statistics are those of the
  publication.\<close>

theorem rebuild_reuses:
  assumes "build_and_publish_qug G lower X now sn c i force s = (Inr (Published st), s1)"
  shows "build_and_publish_qug G lower X now' sn c i False s1 = (Inr (Reused (st\<lparr>gb_reused := True\<rparr>)), s1)"
proof -
  obtain r where r: "derive_qug_edges G lower X sn c i = Inr r"
    using assms by (cases "derive_qug_edges G lower X sn c i") (auto simp: build_and_publish_qug_def)
  note pub = published_cases[OF r assms]
  obtain ps "is" where d: "compute_source_hash G X sn (gd_page_edges r) (gd_intent_edges r) = Inr (gd_source_hash r)"
    "gd_pages r = length (gs_pages sn)" "gd_by_type r = count_types (all_edges (gd_page_edges r) (gd_intent_edges r))"
    by (rule derived_parts[OF r]) blast
  from pub have h: "gb_source_hash st = gd_source_hash r" by (cases rule: publish_build_cases) (simp add: d(1))
  obtain row where row: "active_build_row (gs_domain sn) (gs_version sn) s1 = Some row" "bd_id row = gb_build st"
    "bd_hash row = gb_source_hash st" using active_after_publish[OF pub] by blast
  have "reuse_stats (gb_build st) r = st\<lparr>gb_reused := True\<rparr>"
    using publish_stats[OF pub] h d by (simp add: reuse_stats_def edge_count_def)
  then show ?thesis
    using row h by (simp add: build_and_publish_qug_def r active_source_hash_def active_build_identity_def)
qed

theorem rebuild_reuses_witness:
  "\<exists>st s1. build_and_publish_qug (cup_codec ''tea'') same_case (cup_ext ''tea'') 9 cup_snapshot cup_domain no_intents False s1
     = (Inr (Reused (st\<lparr>gb_reused := True\<rparr>)), s1)"
proof -
  obtain r where r: "derive_qug_edges (cup_codec ''tea'') same_case (cup_ext ''tea'') cup_snapshot cup_domain no_intents = Inr r"
    "gd_page_edges r = [cup_edge ''tea'']" "gd_intent_edges r = []"
    using cup_derived[of "''tea''"] cup_trim by auto
  then show ?thesis using cup_published[OF r] rebuild_reuses by blast
qed

section \<open>Builds that cannot be served\<close>

text \<open>A build is published although it can never be served: a phrase that does not normalize, such as the title of a page
  that is longer than a phrase may be, passes the derivation, but no load gives a graph as long as the build is
  active.\<close>

theorem unnormalized_never_served:
  assumes "derive_qug_edges G lower X sn c i = Inr r"
    "build_and_publish_qug G lower X now sn c i force s = (Inr (Published st), s1)"
    "p \<in> set (gd_page_edges r)" "\<not> list_all (normalizes lower) (edge_phrases (pe_edge p))"
    "x_parse_edge X (edge_canonical_json X (pe_edge p)) = Some (pe_edge p)"
    "qug_later G X s1 t" "active_build_row (dc_name c') (dc_version c') t = Some row" "bd_id row = gb_build st"
  shows "\<exists>e. load_active_qug G lower X c' intents t = Inl e"
proof -
  define ed where "ed = \<lparr>ed_build = gb_build st, ed_pages = gd_page_edges r, ed_intents = gd_intent_edges r\<rparr>"
  have ed: "ed_build ed = gb_build st" "ed_pages ed = gd_page_edges r" "ed_intents ed = gd_intent_edges r" by (simp_all add: ed_def)
  note later = active_in_later(1)[OF published_cases[OF assms(1,2)] assms(6,7,8), folded ed_def]
  have "decoded X (pe_edge p) = pe_edge p" by (simp add: decoded_def assms(5))
  moreover have "decoded X (pe_edge p) \<in> set (edition_edges X ed)"
    using assms(3) by (force simp: edition_edges_def hashed_edges_def ed)
  ultimately have "\<not> list_all (\<lambda>e. list_all (normalizes lower) (edge_phrases e)) (edition_edges X ed)"
    using assms(4) by (auto simp: list_all_iff)
  then have "\<nexists>g. from_edges lower X (edition_edges X ed) (qc_max_depth (dc_qug c')) = Inr g" by (simp add: from_edges_total)
  then obtain e where "from_edges lower X (edition_edges X ed) (qc_max_depth (dc_qug c')) = Inl e"
    by (cases "from_edges lower X (edition_edges X ed) (qc_max_depth (dc_qug c'))") auto
  then have "\<nexists>g. load_active_in_transaction G lower X c' intents t = Inr g"
    using edition_loads[OF later]
    by (auto simp: load_active_in_transaction_def assms(7,8) load_error_def graph_edges_edition[of X ed, unfolded ed] ed
        split: sum.splits if_splits)
  then show ?thesis
    by (cases "load_active_in_transaction G lower X c' intents t") (auto simp: load_active_qug_def split: load_failure.split)
qed

lemma long_title:
  "trim_text (replicate 129 CHR ''a'') = replicate 129 CHR ''a''" "\<not> normalizes same_case (replicate 129 CHR ''a'')"
proof -
  have chunks: "char_chunks (replicate n CHR ''a'') = replicate n ''a''" for n
    by (induction n) (simp_all add: tail_len_def)
  have sc: "scalars (replicate n CHR ''a'') = replicate n 97" for n
    by (induction n) (simp_all add: tail_len_def scalar_at_def)
  have "\<not> is_blank ''a''" "\<not> is_whitespace 97" by (simp_all add: is_blank_def letters)
  then have keep: "dropWhile is_blank (replicate n ''a'') = replicate n ''a''"
    "dropWhile is_whitespace (replicate n 97) = replicate n 97" for n by (induction n) simp_all
  have "concat (replicate n ''a'') = replicate n CHR ''a''" for n by (induction n) simp_all
  then show "trim_text (replicate 129 CHR ''a'') = replicate 129 CHR ''a''"
    by (simp only: trim_text_def chunks keep rev_replicate)
  have "normalize_loop same_case out (replicate n 97) = out @ replicate n 97" for out n
    by (induction n arbitrary: out) (simp_all add: same_case_def letters)
  then have "normalize_phrase same_case (replicate 129 CHR ''a'') = Inl Validation"
    by (simp only: normalize_phrase_def Let_def sc trim_scalars_def keep rev_replicate append_Nil) (simp add: max_phrase_scalars_def)
  then show "\<not> normalizes same_case (replicate 129 CHR ''a'')" by (simp add: normalizes_def)
qed

theorem unnormalized_never_served_witness:
  "\<exists>s1 e. (\<exists>row. active_build_row ''t'' ''1'' s1 = Some row)
     \<and> load_active_qug (cup_codec (replicate 129 CHR ''a'')) same_case (cup_ext (replicate 129 CHR ''a'')) cup_domain [] s1 = Inl e"
proof -
  define title where "title = replicate 129 CHR ''a''"
  have "length title = 129" by (simp add: title_def)
  then have "title \<noteq> ''cha''" "title \<noteq> []" by auto
  then have t: "trim_text title = title" "\<not> normalizes same_case title" "title \<noteq> ''cha''" "title \<noteq> []"
    using long_title by (simp_all add: title_def)
  obtain r where r: "derive_qug_edges (cup_codec title) same_case (cup_ext title) cup_snapshot cup_domain no_intents = Inr r"
    "gd_page_edges r = [cup_edge title]" "gd_intent_edges r = []"
    using cup_derived[OF t(1,3,4)] by auto
  obtain st s1 row where b: "build_and_publish_qug (cup_codec title) same_case (cup_ext title) 5 cup_snapshot cup_domain no_intents False cup_store
      = (Inr (Published st), s1)" "active_build_row ''t'' ''1'' s1 = Some row" "bd_id row = gb_build st"
    using cup_published[OF r] by blast
  have "\<exists>e. load_active_qug (cup_codec title) same_case (cup_ext title) cup_domain [] s1 = Inl e"
    using t(2) b(2,3)
    by (intro unnormalized_never_served[OF r(1) b(1), of "cup_edge title" s1 cup_domain row])
       (simp_all add: r(2) cup_edge_def edge_phrases_def cup_ext_def cup_domain_def qug_later.same)
  then show ?thesis using b(2) by (auto simp: title_def)
qed

section \<open>Derivation\<close>

text \<open>C20. The derivation takes exactly what its source gives. Its page edges are edges that the title, the aliases and the tags
  of an accepted page give, marked with that page's id, generation and content hash, and its intent edges those of
  the configured intents; both are in strictly ascending order of their hashes, and there is one of the hash of
  every edge that some page, or some intent, gives.\<close>

theorem derived_edges_exact:
  assumes "derive_qug_edges G lower X sn c i = Inr r"
  shows "sorted_wrt (<) (map pe_hash (gd_page_edges r)) \<and> sorted_wrt (<) (map ie_hash (gd_intent_edges r))
    \<and> (\<forall>e\<in>set (gd_page_edges r). \<exists>p\<in>set (gs_pages sn). from_page X p e \<and> pe_edge e \<in> set (page_gives G p))
    \<and> Inr ` pe_hash ` set (gd_page_edges r) = edge_hash X ` (\<Union>p\<in>set (gs_pages sn). set (page_gives G p))
    \<and> (\<exists>es. intent_edges c i = Inr es \<and> ie_edge ` set (gd_intent_edges r) \<subseteq> set es
         \<and> Inr ` ie_hash ` set (gd_intent_edges r) = edge_hash X ` set es)"
proof -
  obtain ps "is" where d: "derive_page_edges G lower X (gs_pages sn) = Inr ps" "derive_intent_edges X c i = Inr is"
    "gd_page_edges r = dedup_page_edges ps" "gd_intent_edges r = dedup_intent_edges is" by (rule derived_parts[OF assms])
  note pg = derive_page_edges_exact[OF d(1)]
  obtain es where es: "intent_edges c i = Inr es" "map ie_edge is = es" "\<forall>j\<in>set is. edge_hash X (ie_edge j) = Inr (ie_hash j)"
    by (rule derive_intent_edges_exact[OF d(2)])
  have "edge_hash X ` pe_edge ` set ps = Inr ` pe_hash ` set ps"
    unfolding image_image by (rule image_cong[OF refl]) (use pg(2) in \<open>auto simp: from_page_def\<close>)
  moreover have "edge_hash X ` ie_edge ` set is = Inr ` ie_hash ` set is"
    unfolding image_image by (rule image_cong[OF refl]) (use es(3) in auto)
  moreover have "set es = ie_edge ` set is" using es(2) by auto
  ultimately show ?thesis
    using pg es(1) deduped_page_edges[of ps] deduped_intent_edges[of "is"] in_deduped
    by (auto simp: d(3,4))
qed

theorem derived_edges_exact_witness:
  "\<exists>r. derive_qug_edges (cup_codec ''tea'') same_case (cup_ext ''tea'') cup_snapshot cup_domain no_intents = Inr r
     \<and> Inr ` pe_hash ` set (gd_page_edges r) = {edge_hash (cup_ext ''tea'') (Synonym ''cha'' [''tea''])}"
proof -
  obtain r where r: "derive_qug_edges (cup_codec ''tea'') same_case (cup_ext ''tea'') cup_snapshot cup_domain no_intents = Inr r"
    using cup_derived[of "''tea''"] cup_trim by auto
  have "page_gives (cup_codec ''tea'') p = [Synonym ''cha'' [''tea'']]" for p
    by (simp add: page_gives_def cup_codec_def cup_trim)
  then show ?thesis using derived_edges_exact[OF r] r by (auto simp: cup_pages cup_inputs)
qed

end
