(* ===== verification/Reload.thy ===== *)
theory Reload
  imports Search Qug_Store_Props
begin

text \<open>
  The engine and the stored graph (\<^verbatim>\<open>query_engine/mod.rs\<close>): an engine that loads the active build, and what a
  search makes of a build whose source has changed.
\<close>

section \<open>Loading into an engine\<close>

text \<open>
  \<^verbatim>\<open>reload_persistent_qug\<close>: every outcome of the load is absorbed. The staleness error is told from the others by the
  prefix of its message, which is the constructor \<open>StaleSource\<close> here.
\<close>

definition reload_persistent_qug ::
  "qug_codec \<Rightarrow> (nat \<Rightarrow> nat list) \<Rightarrow> ext \<Rightarrow> domain_config \<Rightarrow> string \<Rightarrow> qug_store \<Rightarrow> engine \<Rightarrow> engine" where
  "reload_persistent_qug G lower X c intents s en =
     (if \<not> qc_enabled (dc_qug c) then en\<lparr>en_qug := None, en_stale := False\<rparr>
      else (case load_active_in_transaction G lower X c intents s of
              Inr (Some g) \<Rightarrow> en\<lparr>en_qug := Some g, en_stale := False\<rparr>
            | Inr None \<Rightarrow> en\<lparr>en_qug := None, en_stale := False\<rparr>
            | Inl StaleSource \<Rightarrow> en\<lparr>en_qug := None, en_stale := True\<rparr>
            | Inl (LoadError _) \<Rightarrow> en\<lparr>en_qug := None, en_stale := False\<rparr>))"

definition with_persistent_qug ::
  "qug_codec \<Rightarrow> (nat \<Rightarrow> nat list) \<Rightarrow> ext \<Rightarrow> domain_config \<Rightarrow> string \<Rightarrow> string \<Rightarrow> nat \<Rightarrow> qug_store \<Rightarrow> engine result" where
  "with_persistent_qug G lower X c intents collection k s =
     try_bind (engine_new collection (qc_multiplier (dc_qug c)) k None) (\<lambda>en. Inr (reload_persistent_qug G lower X c intents s en))"

definition with_cache :: "engine \<Rightarrow> engine" where "with_cache en = en\<lparr>en_cached := True\<rparr>"

definition with_filter_relaxer :: "(filters \<Rightarrow> filters option result) \<Rightarrow> engine \<Rightarrow> engine" where
  "with_filter_relaxer relaxer en = en\<lparr>en_relaxer := Some relaxer\<rparr>"

section \<open>A stale graph is never used\<close>

text \<open>C19. Right after a reload an engine never rewrites by a graph of another source than the current one, whatever graph
  it held before. With the graph enabled and the published build active, a query is rewritten by the graph of the build's
  edges when pages, intents and configuration are those it was derived from and a graph can be built of the edges
  (every phrase normalizes and the depth is one to four); when none can be built, no query is rewritten, as if the
  graph were disabled; when the source differs, no query is rewritten and the diagnostics say that the build is stale.
  The hash, number texts, configuration text and sizes are as for the load of the graph.\<close>

theorem reloaded_engine_current:
  fixes en :: engine
  assumes "derive_qug_edges G lower X sn c i = Inr r"
    "build_and_publish_qug G lower X now sn c i force s = (Inr (Published st), s1)"
    "qug_later G X s1 t" "gs_domain sn = dc_name c'" "gs_version sn = dc_version c'"
    "active_build_row (dc_name c') (dc_version c') t = Some row" "bd_id row = gb_build st"
    "collision_free X" "number_text_injective X" "gk_parse_config G (gk_config_text G (dc_qug c')) = Some (dc_qug c')"
    "source_small G X sn (gd_page_edges r) (gd_intent_edges r)"
    "source_small G X (current_snapshot G c' intents t) (gd_page_edges r) (gd_intent_edges r)" "qc_enabled (dc_qug c')"
  defines "current \<equiv> accepted_inputs (dc_name c') (qt_db t) = accepted_inputs (dc_name c') (qt_db s1) \<and> intents = gs_intents sn
      \<and> gk_parse_config G (gs_config sn) = Some (dc_qug c')"
    and "en' \<equiv> reload_persistent_qug G lower X c' intents t en"
  shows "(\<not> current \<longrightarrow> query_rewrite E en' q = (None, False, StaleBuild))
    \<and> (current \<longrightarrow> (\<exists>es. load_active_edges X (dc_name c') (dc_version c') t = Inr es
         \<and> (buildable lower es (qc_max_depth (dc_qug c')) \<longrightarrow> (\<exists>g. from_edges lower X es (qc_max_depth (dc_qug c')) = Inr g
              \<and> query_rewrite E en' q = (case rewrite (sx_lower E) (sx_links E) g q of
                    None \<Rightarrow> (None, True, Fallback) | Some rw \<Rightarrow> (Some rw, False, Applied))))
         \<and> (\<not> buildable lower es (qc_max_depth (dc_qug c')) \<longrightarrow> query_rewrite E en' q = (None, False, Disabled))))"
proof -
  obtain es where es: "load_active_edges X (dc_name c') (dc_version c') t = Inr es"
    "load_active_in_transaction G lower X c' intents t =
       (if current then (case from_edges lower X es (qc_max_depth (dc_qug c')) of Inl _ \<Rightarrow> Inl (LoadError Internal) | Inr g \<Rightarrow> Inr (Some g))
        else Inl StaleSource)"
    using load_while_active[OF assms(1-12)] unfolding current_def by blast
  show ?thesis
  proof (intro conjI impI)
    assume "\<not> current"
    then show "query_rewrite E en' q = (None, False, StaleBuild)"
      using es(2) assms(13) by (simp add: en'_def reload_persistent_qug_def query_rewrite_def)
  next
    assume current
    then have en: "en_qug en' = (case from_edges lower X es (qc_max_depth (dc_qug c')) of Inl _ \<Rightarrow> None | Inr g \<Rightarrow> Some g)"
      "\<not> en_stale en'"
      using es(2) assms(13) by (auto simp: en'_def reload_persistent_qug_def split: sum.split)
    show "\<exists>es. load_active_edges X (dc_name c') (dc_version c') t = Inr es
         \<and> (buildable lower es (qc_max_depth (dc_qug c')) \<longrightarrow> (\<exists>g. from_edges lower X es (qc_max_depth (dc_qug c')) = Inr g
              \<and> query_rewrite E en' q = (case rewrite (sx_lower E) (sx_links E) g q of
                    None \<Rightarrow> (None, True, Fallback) | Some rw \<Rightarrow> (Some rw, False, Applied))))
         \<and> (\<not> buildable lower es (qc_max_depth (dc_qug c')) \<longrightarrow> query_rewrite E en' q = (None, False, Disabled))"
      using es(1) en buildable_iff[of lower X es "qc_max_depth (dc_qug c')"]
      by (intro exI[of _ es]) (auto simp: query_rewrite_def split: sum.splits)
  qed
qed

theorem reloaded_engine_current_witness:
  "\<exists>s1. \<forall>E en q. query_rewrite E (reload_persistent_qug (cup_codec ''tea'') same_case (cup_ext ''tea'') cup_domain ''x'' s1 en) q
     = (None, False, StaleBuild)"
proof (rule cup_setup)
  fix r st s1 row
  assume r: "derive_qug_edges (cup_codec ''tea'') same_case (cup_ext ''tea'') cup_snapshot cup_domain no_intents = Inr r"
    and b: "build_and_publish_qug (cup_codec ''tea'') same_case (cup_ext ''tea'') 5 cup_snapshot cup_domain no_intents False cup_store = (Inr (Published st), s1)"
    and row: "active_build_row (dc_name cup_domain) (dc_version cup_domain) s1 = Some row" "bd_id row = gb_build st"
    and small: "source_small (cup_codec ''tea'') (cup_ext ''tea'') cup_snapshot (gd_page_edges r) (gd_intent_edges r)"
      "\<And>i. length i < 2 \<Longrightarrow> source_small (cup_codec ''tea'') (cup_ext ''tea'') (current_snapshot (cup_codec ''tea'') cup_domain i s1) (gd_page_edges r) (gd_intent_edges r)"
  have "query_rewrite E (reload_persistent_qug (cup_codec ''tea'') same_case (cup_ext ''tea'') cup_domain ''x'' s1 en) q = (None, False, StaleBuild)"
    for E en q
    using reloaded_engine_current[OF r b qug_later.same cup_names(1,2) row cup_ext_laws cup_names(3) small cup_names(4), of "''x''" E en q]
    by (auto simp: cup_pages)
  then show ?thesis by blast
qed

end
