(* ===== verification/Rate_Limit.thy ===== *)
theory Rate_Limit
  imports Prelude
begin

text \<open>
  The fixed-window rate limiter of the server (\<^verbatim>\<open>wiktor-server/src/rate_limit.rs\<close>), and that on a clock that does
  not run backwards it grants exactly the first requests of every key in every window.
\<close>

section \<open>The limiter\<close>

record window_state =
  ws_start :: int
  ws_count :: nat

type_synonym limit_key = "string \<times> string"

record limiter =
  lm_windows :: "limit_key \<Rightarrow> window_state option"
  lm_secs :: nat
  lm_max :: nat

definition limiter_new :: "nat \<Rightarrow> nat \<Rightarrow> limiter" where
  "limiter_new secs most = \<lparr>lm_windows = (\<lambda>_. None), lm_secs = max secs 1, lm_max = max most 1\<rparr>"

text \<open>\<^verbatim>\<open>self.window_secs as i64\<close>, and \<^verbatim>\<open>i64::rem_euclid\<close>, which is never negative.\<close>

definition window_width :: "nat \<Rightarrow> int" where
  "window_width secs = (if secs < 2 ^ 63 then int secs else int secs - 2 ^ 64)"

definition window_start :: "int \<Rightarrow> int \<Rightarrow> int" where
  "window_start window now = now - now mod \<bar>window\<bar>"

definition try_acquire :: "string \<Rightarrow> string \<Rightarrow> int \<Rightarrow> limiter \<Rightarrow> (nat + unit) \<times> limiter" where
  "try_acquire domain label now l =
     (let window = window_width (lm_secs l);
          start = window_start window now;
          entry = (case lm_windows l (domain, label) of None \<Rightarrow> \<lparr>ws_start = start, ws_count = 0\<rparr> | Some w \<Rightarrow> w);
          state = (if ws_start entry \<noteq> start then entry\<lparr>ws_start := start, ws_count := 0\<rparr> else entry);
          store = (\<lambda>w. l\<lparr>lm_windows := (lm_windows l)((domain, label) \<mapsto> w)\<rparr>)
      in if ws_count state \<ge> lm_max l then (Inl (nat (max (ws_start state + window - now) 0)), store state)
         else (Inr (), store (state\<lparr>ws_count := ws_count state + 1\<rparr>)))"

section \<open>A sequence of requests\<close>

type_synonym request = "limit_key \<times> int"

fun acquire_all :: "limiter \<Rightarrow> request list \<Rightarrow> (nat + unit) list \<times> limiter" where
  "acquire_all l [] = ([], l)"
| "acquire_all l ((k, now) # rs) =
     (let (r, l1) = try_acquire (fst k) (snd k) now l; (out, l2) = acquire_all l1 rs in (r # out, l2))"

definition same_window :: "nat \<Rightarrow> request \<Rightarrow> request \<Rightarrow> bool" where
  "same_window secs a b \<longleftrightarrow> fst a = fst b \<and> window_start (window_width secs) (snd a) = window_start (window_width secs) (snd b)"

lemma acquire_all_append:
  "acquire_all l (rs @ qs) = (let (out, l1) = acquire_all l rs; (out', l2) = acquire_all l1 qs in (out @ out', l2))"
  by (induction rs arbitrary: l) (auto simp: Let_def split: prod.splits)

lemma window_start_mono:
  assumes "a \<le> b"
  shows "window_start w a \<le> window_start w b"
proof (cases "w = 0")
  case False
  have "a div \<bar>w\<bar> \<le> b div \<bar>w\<bar>" using assms False by (intro zdiv_mono1) auto
  then have "a div \<bar>w\<bar> * \<bar>w\<bar> \<le> b div \<bar>w\<bar> * \<bar>w\<bar>" by (intro mult_right_mono) auto
  then show ?thesis by (simp add: window_start_def minus_mod_eq_div_mult)
qed (simp add: window_start_def)

text \<open>What the limiter has stored after some requests: the window of the last one of each key, and how many it counted in it.\<close>

fun window_ok :: "nat \<Rightarrow> nat \<Rightarrow> request list \<Rightarrow> limit_key \<Rightarrow> window_state option \<Rightarrow> bool" where
  "window_ok secs most rs k None \<longleftrightarrow> (\<forall>q\<in>set rs. fst q \<noteq> k)"
| "window_ok secs most rs k (Some w) \<longleftrightarrow>
     (\<exists>t. (k, t) \<in> set rs \<and> (\<forall>q\<in>set rs. fst q = k \<longrightarrow> snd q \<le> t)
        \<and> ws_start w = window_start (window_width secs) t
        \<and> ws_count w = min most (length (filter (same_window secs (k, t)) rs)))"

definition counts :: "nat \<Rightarrow> nat \<Rightarrow> request list \<Rightarrow> limiter \<Rightarrow> bool" where
  "counts secs most rs l \<longleftrightarrow> lm_secs l = secs \<and> lm_max l = most \<and> (\<forall>k. window_ok secs most rs k (lm_windows l k))"

lemma counts_step:
  assumes c: "counts secs most rs l" and later: "\<forall>q\<in>set rs. snd q \<le> now"
    and t: "try_acquire (fst k) (snd k) now l = (r, l')"
  shows "counts secs most (rs @ [(k, now)]) l'"
    and "r = (if length (filter (same_window secs (k, now)) rs) < most then Inr ()
              else Inl (nat (max (window_start (window_width secs) now + window_width secs - now) 0)))"
proof -
  let ?start = "window_start (window_width secs)"
  let ?n = "length (filter (same_window secs (k, now)) rs)"
  have l: "lm_secs l = secs" "lm_max l = most" and ok: "window_ok secs most rs q (lm_windows l q)" for q
    using c unfolding counts_def by blast+
  note ok = ok[of k] ok
  define entry where "entry = (case lm_windows l k of None \<Rightarrow> \<lparr>ws_start = ?start now, ws_count = 0\<rparr> | Some w \<Rightarrow> w)"
  define state where "state = (if ws_start entry \<noteq> ?start now then entry\<lparr>ws_start := ?start now, ws_count := 0\<rparr> else entry)"
  have state: "ws_start state = ?start now" "ws_count state = min most ?n"
  proof -
    show "ws_start state = ?start now" by (simp add: state_def)
    show "ws_count state = min most ?n"
      using ok(1)
    proof (cases "lm_windows l k")
      case None
      then have "\<forall>q\<in>set rs. fst q \<noteq> k" using ok(1) by simp
      then have "?n = 0" by (auto simp: same_window_def filter_empty_conv)
      then show ?thesis by (simp add: state_def entry_def None)
    next
      case (Some w)
      then obtain u where u: "(k, u) \<in> set rs" "\<forall>q\<in>set rs. fst q = k \<longrightarrow> snd q \<le> u" "ws_start w = ?start u"
        "ws_count w = min most (length (filter (same_window secs (k, u)) rs))"
        using ok(1) by auto
      show ?thesis
      proof (cases "?start u = ?start now")
        case True
        then have "same_window secs (k, u) = same_window secs (k, now)" by (auto simp: same_window_def fun_eq_iff)
        then show ?thesis using u(3,4) True by (simp add: state_def entry_def Some)
      next
        case False
        have "\<not> same_window secs (k, now) q" if q: "q \<in> set rs" for q
        proof
          assume s: "same_window secs (k, now) q"
          then have "snd q \<le> u" using u(2) q by (simp add: same_window_def)
          then have "?start (snd q) \<le> ?start u" by (rule window_start_mono)
          moreover have "?start u \<le> ?start now" using later u(1) by (intro window_start_mono) auto
          ultimately show False using s False by (simp add: same_window_def)
        qed
        then have "?n = 0" by (simp add: filter_empty_conv)
        then show ?thesis using False u(3) by (simp add: state_def entry_def Some)
      qed
    qed
  qed
  have acq: "try_acquire (fst k) (snd k) now l =
     (if ws_count state \<ge> most then (Inl (nat (max (ws_start state + window_width secs - now) 0)), l\<lparr>lm_windows := (lm_windows l)(k \<mapsto> state)\<rparr>)
      else (Inr (), l\<lparr>lm_windows := (lm_windows l)(k \<mapsto> state\<lparr>ws_count := ws_count state + 1\<rparr>)\<rparr>))"
    by (simp only: try_acquire_def Let_def l state_def entry_def prod.collapse)
  have upd: "l' = l\<lparr>lm_windows := (lm_windows l)(k \<mapsto> (if ?n < most then state\<lparr>ws_count := ws_count state + 1\<rparr> else state))\<rparr>"
    and r: "r = (if ?n < most then Inr () else Inl (nat (max (?start now + window_width secs - now) 0)))"
    using t state unfolding acq by (simp_all split: if_splits)
  show "r = (if ?n < most then Inr () else Inl (nat (max (?start now + window_width secs - now) 0)))" by (rule r)
  show "counts secs most (rs @ [(k, now)]) l'"
    unfolding counts_def
  proof (intro conjI allI)
    fix q
    show "window_ok secs most (rs @ [(k, now)]) q (lm_windows l' q)"
    proof (cases "q = k")
      case True
      then show ?thesis using later state by (auto simp: upd same_window_def min_def intro!: exI[of _ now])
    next
      case False
      then have "lm_windows l' q = lm_windows l q" "\<not> same_window secs (q, t) (k, now)" for t
        by (simp_all add: upd same_window_def)
      then show ?thesis using ok(2)[of q] False by (cases "lm_windows l q") auto
    qed
  qed (simp_all add: upd l)
qed

lemma acquire_all_counts:
  assumes "counts secs most rs0 l0" "sorted (map snd rs0 @ map snd rs)" "acquire_all l0 rs = (out, l)"
  shows "counts secs most (rs0 @ rs) l \<and> length out = length rs"
  using assms
proof (induction rs arbitrary: rs0 l0 out)
  case (Cons a rs)
  obtain k now where a: "a = (k, now)" by (cases a)
  obtain r l1 where 1: "try_acquire (fst k) (snd k) now l0 = (r, l1)" by fastforce
  obtain out1 where 2: "acquire_all l1 rs = (out1, l)" "out = r # out1"
    using Cons.prems(3) by (auto simp: a 1 Let_def split: prod.splits)
  have "\<forall>q\<in>set rs0. snd q \<le> now" using Cons.prems(2) by (auto simp: sorted_append a)
  from counts_step(1)[OF Cons.prems(1) this 1] have "counts secs most (rs0 @ [a]) l1" by (simp add: a)
  from Cons.IH[OF this _ 2(1)] show ?case using Cons.prems(2) 2(2) by simp
qed simp

text \<open>
  C26. On a clock that does not run backwards, a request is granted exactly when fewer than the limit came before it from the
  same key in the same window; a refused one is told the seconds until its window ends. So no key is ever
  granted more than the limit in one window, whatever the other keys do, and none is refused before it used it.
\<close>

theorem rate_limit_exact:
  assumes "sorted (map snd rs)" "acquire_all (limiter_new secs most) rs = (out, l)" "i < length rs" "secs < 2 ^ 63"
  shows "0 < window_start (int (max secs 1)) (snd (rs ! i)) + int (max secs 1) - snd (rs ! i)
    \<and> out ! i = (if length (filter (same_window (max secs 1) (rs ! i)) (take i rs)) < max most 1 then Inr ()
                    else Inl (nat (window_start (int (max secs 1)) (snd (rs ! i)) + int (max secs 1) - snd (rs ! i))))"
proof -
  let ?s = "max secs 1" and ?m = "max most 1"
  obtain k now where ri: "rs ! i = (k, now)" by fastforce
  have split: "rs = take i rs @ (k, now) # drop (Suc i) rs" using assms(3) ri by (metis id_take_nth_drop)
  obtain out0 l0 where 0: "acquire_all (limiter_new secs most) (take i rs) = (out0, l0)" by fastforce
  obtain r l1 where 1: "try_acquire (fst k) (snd k) now l0 = (r, l1)" by fastforce
  have sorted: "sorted (map snd (take i rs) @ now # map snd (drop (Suc i) rs))"
    using assms(1) by (subst (asm) split) (simp del: append_take_drop_id)
  have "counts ?s ?m [] (limiter_new secs most)" by (simp add: counts_def limiter_new_def)
  from acquire_all_counts[OF this _ 0] sorted have c: "counts ?s ?m (take i rs) l0" "length out0 = i"
    using assms(3) by (simp_all add: sorted_append)
  have "\<forall>q\<in>set (take i rs). snd q \<le> now" using sorted by (auto simp: sorted_append)
  note step = counts_step(2)[OF c(1) this 1]
  have "out = out0 @ r # fst (acquire_all l1 (drop (Suc i) rs))"
    using assms(2) by (subst (asm) split) (simp add: acquire_all_append 0 1 Let_def split: prod.splits)
  then have out: "out ! i = r" using c(2) by (simp add: nth_append)
  have w: "window_width ?s = int ?s" using assms(4) by (auto simp: window_width_def)
  have "now mod int ?s < int ?s" by (intro pos_mod_bound) simp
  then have pos: "0 < window_start (int ?s) (snd (rs ! i)) + int ?s - snd (rs ! i)" by (simp add: window_start_def ri)
  have "out ! i = (if length (filter (same_window ?s (rs ! i)) (take i rs)) < ?m then Inr ()
                    else Inl (nat (window_start (int ?s) (snd (rs ! i)) + int ?s - snd (rs ! i))))"
    using step[unfolded w] pos unfolding out ri snd_conv by (simp del: One_nat_def)
  with pos show ?thesis by blast
qed

theorem rate_limit_exact_witness:
  "\<exists>l. acquire_all (limiter_new 60 1) [((''d'', ''k''), 3600), ((''d'', ''k''), 3659)] = ([Inr (), Inl 1], l)"
proof -
  let ?rs = "[((''d'', ''k''), 3600), ((''d'', ''k''), 3659)] :: request list"
  obtain out l where o: "acquire_all (limiter_new 60 1) ?rs = (out, l)" by fastforce
  have "length out = 2" using o by (auto simp: Let_def split: prod.splits)
  moreover have "out ! 0 = Inr ()" "out ! 1 = Inl 1"
    using rate_limit_exact[OF _ o, of 0] rate_limit_exact[OF _ o, of 1]
    by (simp_all add: same_window_def window_start_def window_width_def)
  ultimately have "out = [Inr (), Inl 1]" by (simp add: list_eq_iff_nth_eq less_Suc_eq numeral_2_eq_2)
  then show ?thesis using o by blast
qed

end
