(* ===== verification/Server.thy ===== *)
theory Server
  imports Rate_Limit Search Qug_Store
begin

text \<open>
  The server around the kernel (crate \<^verbatim>\<open>wiktor-server\<close>): API keys and their permissions (\<^verbatim>\<open>state.rs\<close>,
  \<^verbatim>\<open>auth.rs\<close>), errors as status codes (\<^verbatim>\<open>error.rs\<close>), counters (\<^verbatim>\<open>metrics.rs\<close>) and the state the handlers share. The
  text of a header is what the HTTP library could read as text; decoders of request bodies and of the key configuration
  are a record of parameters. The endpoints are in theory Endpoints.
\<close>

section \<open>API keys\<close>

definition max_key_domain_chars :: nat where "max_key_domain_chars = 128"
definition key_label_hex_chars :: nat where "key_label_hex_chars = 16"

definition permitted_methods :: "string list" where
  "permitted_methods = [''search'', ''compile'', ''qug_build'', ''review'', ''compatibility'', ''status'', ''feedback'']"

definition legacy_methods :: "string list" where "legacy_methods = [''feedback'']"

record key_identity =
  ki_domain :: string
  ki_label :: string
  ki_methods :: "string set"

definition authorize :: "string \<Rightarrow> key_identity \<Rightarrow> bool" where "authorize m i = (m \<in> ki_methods i)"

type_synonym api_keys = "string \<Rightarrow> key_identity option"

record event_dto =
  ed_key :: string
  ed_log :: int
  ed_kind :: feedback_kind
  ed_page :: "string option"
  ed_rating :: "nat option"
  ed_metadata :: json

text \<open>
  Decoders: the members of the JSON object a text starts with, in their order and with repetitions; and the derived
  decoders of a key's entry, of a feedback request, of one of its events and of a filter text.
\<close>

record server_codec =
  vc_members :: "string \<Rightarrow> (string \<times> json) list option"
  vc_key_value :: "json \<Rightarrow> (string \<times> string list) option"
  vc_request :: "string \<Rightarrow> (string \<times> json list) option"
  vc_event :: "json \<Rightarrow> event_dto option"
  vc_filters :: "string \<Rightarrow> filters option"

type_synonym key_entry = "string \<times> string \<times> string set"

fun key_entries :: "server_codec \<Rightarrow> string set \<Rightarrow> (string \<times> json) list \<Rightarrow> key_entry list option" where
  "key_entries C seen [] = Some []"
| "key_entries C seen ((domain, v) # ms) =
     (if domain \<in> seen then None
      else case vc_key_value C v of
             None \<Rightarrow> None
           | Some (secret, methods) \<Rightarrow>
               if methods = [] then None
               else if \<not> list_all (\<lambda>m. m \<in> set permitted_methods) methods then None
               else if card (set methods) \<noteq> length methods then None
               else map_option ((#) (domain, secret, set methods)) (key_entries C (insert domain seen) ms))"

fun legacy_entries :: "string set \<Rightarrow> (string \<times> json) list \<Rightarrow> (string \<times> string) list option" where
  "legacy_entries seen [] = Some []"
| "legacy_entries seen ((domain, v) # ms) =
     (if domain \<in> seen then None
      else case v of
             JStr secret \<Rightarrow> map_option ((#) (domain, secret)) (legacy_entries (insert domain seen) ms)
           | _ \<Rightarrow> None)"

definition parse_key_entries :: "server_codec \<Rightarrow> string \<Rightarrow> key_entry list option" where
  "parse_key_entries C raw = (case vc_members C raw of None \<Rightarrow> None | Some ms \<Rightarrow> key_entries C {} ms)"

definition parse_legacy_entries :: "server_codec \<Rightarrow> string \<Rightarrow> (string \<times> string) list option" where
  "parse_legacy_entries C raw = (case vc_members C raw of None \<Rightarrow> None | Some ms \<Rightarrow> legacy_entries {} ms)"

definition key_label :: "ext \<Rightarrow> string \<Rightarrow> string" where
  "key_label X secret = take key_label_hex_chars (x_blake3 X secret)"

fun insert_keys :: "ext \<Rightarrow> key_entry list \<Rightarrow> api_keys \<Rightarrow> api_keys option" where
  "insert_keys X [] keys = Some keys"
| "insert_keys X ((domain, secret, methods) # es) keys =
     (if char_count domain = 0 \<or> char_count domain > max_key_domain_chars then None
      else if secret = [] \<or> list_ex is_control (scalars secret) then None
      else if keys secret \<noteq> None then None
      else insert_keys X es (keys(secret \<mapsto> \<lparr>ki_domain = domain, ki_label = key_label X secret, ki_methods = methods\<rparr>)))"

definition build_keys :: "ext \<Rightarrow> key_entry list \<Rightarrow> api_keys option" where
  "build_keys X es = (if es = [] then None else insert_keys X es (\<lambda>_. None))"

definition parse_keys :: "ext \<Rightarrow> server_codec \<Rightarrow> string \<Rightarrow> api_keys option" where
  "parse_keys X C raw =
     (if trim_text raw = [] then None
      else case parse_key_entries C raw of None \<Rightarrow> None | Some es \<Rightarrow> build_keys X es)"

definition parse_legacy :: "ext \<Rightarrow> server_codec \<Rightarrow> string \<Rightarrow> api_keys option" where
  "parse_legacy X C raw =
     (case parse_legacy_entries C raw of
        None \<Rightarrow> None
      | Some es \<Rightarrow> build_keys X (map (\<lambda>(d, s). (d, s, set legacy_methods)) es))"

text \<open>The two environment variables.\<close>

definition keys_from_env :: "ext \<Rightarrow> server_codec \<Rightarrow> string option \<Rightarrow> string option \<Rightarrow> api_keys option" where
  "keys_from_env X C new legacy =
     (case new of
        Some raw \<Rightarrow> if trim_text raw \<noteq> [] then parse_keys X C raw
                    else parse_legacy X C (case legacy of None \<Rightarrow> [] | Some l \<Rightarrow> l)
      | None \<Rightarrow> parse_legacy X C (case legacy of None \<Rightarrow> [] | Some l \<Rightarrow> l))"

section \<open>Authentication\<close>

record authed_key =
  ak_domain :: string
  ak_label :: string
  ak_methods :: "string set"

definition strip_prefix :: "string \<Rightarrow> string \<Rightarrow> string option" where
  "strip_prefix p s = (if starts_with s p then Some (drop (length p) s) else None)"

definition bearer_prefix :: string where "bearer_prefix = ''Bearer ''"

definition bearer_secret :: "string option \<Rightarrow> string option" where
  "bearer_secret header =
     (case header of
        None \<Rightarrow> None
      | Some v \<Rightarrow> (case strip_prefix bearer_prefix v of
                    None \<Rightarrow> None
                  | Some secret \<Rightarrow> if secret = [] then None else Some secret))"

definition authed :: "key_identity \<Rightarrow> authed_key" where
  "authed i = \<lparr>ak_domain = ki_domain i, ak_label = ki_label i, ak_methods = ki_methods i\<rparr>"

definition authenticate :: "api_keys \<Rightarrow> string option \<Rightarrow> key_identity option" where
  "authenticate keys header = (case bearer_secret header of None \<Rightarrow> None | Some secret \<Rightarrow> keys secret)"

definition authorize_method :: "string set \<Rightarrow> string \<Rightarrow> bool" where "authorize_method methods m = (m \<in> methods)"

datatype grpc_code =
  GInvalidArgument | GNotFound | GFailedPrecondition | GUnavailable | GInternal | GUnauthenticated | GPermissionDenied

definition grpc_interceptor :: "api_keys \<Rightarrow> string \<Rightarrow> string option \<Rightarrow> grpc_code + authed_key" where
  "grpc_interceptor keys m header =
     (case bearer_secret header of
        None \<Rightarrow> Inl GUnauthenticated
      | Some secret \<Rightarrow>
          (case keys secret of
             None \<Rightarrow> Inl GUnauthenticated
           | Some i \<Rightarrow> if authorize m i then Inr (authed i) else Inl GPermissionDenied))"

section \<open>Errors\<close>

definition grpc_status :: "kerror \<Rightarrow> grpc_code" where
  "grpc_status e =
     (case e of
        Validation \<Rightarrow> GInvalidArgument | InvalidConfig \<Rightarrow> GInvalidArgument
      | Serialization \<Rightarrow> GInvalidArgument | SerializationYaml \<Rightarrow> GInvalidArgument
      | DomainPackNotFound \<Rightarrow> GNotFound | EntityNotFound \<Rightarrow> GNotFound
      | DuplicateEntity \<Rightarrow> GFailedPrecondition | ContentHashMismatch _ _ \<Rightarrow> GFailedPrecondition
      | QugRewrite \<Rightarrow> GFailedPrecondition | FilterError \<Rightarrow> GFailedPrecondition
      | CompileFailed _ \<Rightarrow> GFailedPrecondition | Compilation \<Rightarrow> GFailedPrecondition
      | QualityBelowThreshold \<Rightarrow> GFailedPrecondition
      | VectorStore \<Rightarrow> GUnavailable | QdrantConnection \<Rightarrow> GUnavailable | External \<Rightarrow> GUnavailable
      | Database \<Rightarrow> GInternal | Migration \<Rightarrow> GInternal | Io \<Rightarrow> GInternal | InvalidEntityId \<Rightarrow> GInternal
      | QueryError \<Rightarrow> GInternal | Internal \<Rightarrow> GInternal)"

definition http_error :: "kerror \<Rightarrow> nat \<times> string" where
  "http_error e =
     (case e of
        Validation \<Rightarrow> (400, ''INVALID_ARGUMENT'') | InvalidConfig \<Rightarrow> (400, ''INVALID_ARGUMENT'')
      | Serialization \<Rightarrow> (400, ''INVALID_ARGUMENT'') | SerializationYaml \<Rightarrow> (400, ''INVALID_ARGUMENT'')
      | DomainPackNotFound \<Rightarrow> (404, ''NOT_FOUND'') | EntityNotFound \<Rightarrow> (404, ''NOT_FOUND'')
      | DuplicateEntity \<Rightarrow> (422, ''FAILED_PRECONDITION'') | ContentHashMismatch _ _ \<Rightarrow> (422, ''FAILED_PRECONDITION'')
      | QugRewrite \<Rightarrow> (422, ''FAILED_PRECONDITION'') | FilterError \<Rightarrow> (422, ''FAILED_PRECONDITION'')
      | CompileFailed _ \<Rightarrow> (422, ''FAILED_PRECONDITION'') | Compilation \<Rightarrow> (422, ''FAILED_PRECONDITION'')
      | QualityBelowThreshold \<Rightarrow> (422, ''FAILED_PRECONDITION'')
      | VectorStore \<Rightarrow> (503, ''UNAVAILABLE'') | QdrantConnection \<Rightarrow> (503, ''UNAVAILABLE'') | External \<Rightarrow> (503, ''UNAVAILABLE'')
      | Database \<Rightarrow> (500, ''INTERNAL'') | Migration \<Rightarrow> (500, ''INTERNAL'') | Io \<Rightarrow> (500, ''INTERNAL'')
      | InvalidEntityId \<Rightarrow> (500, ''INTERNAL'') | QueryError \<Rightarrow> (500, ''INTERNAL'') | Internal \<Rightarrow> (500, ''INTERNAL''))"

text \<open>A response: an error with its status, code and \<^verbatim>\<open>Retry-After\<close>, or an answer with status 200.\<close>

datatype 'a response = Refused nat string "nat option" | Answered 'a

definition error_json :: "nat \<Rightarrow> string \<Rightarrow> 'a response" where "error_json status code = Refused status code None"

section \<open>Counters\<close>

datatype metric_reason =
  CountUnauthenticated | CountTenantForbidden | CountInvalidJson | CountPayloadTooLarge | CountEventCountTooLarge
| CountFieldTooLarge | CountInvalidFeedback

record metrics =
  mt_ingested :: nat
  mt_replayed :: nat
  mt_rate_limited :: nat
  mt_store_errors :: nat
  mt_rejected :: "metric_reason \<Rightarrow> nat"

definition metrics_default :: metrics where
  "metrics_default = \<lparr>mt_ingested = 0, mt_replayed = 0, mt_rate_limited = 0, mt_store_errors = 0, mt_rejected = (\<lambda>_. 0)\<rparr>"

text \<open>\<^verbatim>\<open>AtomicU64::fetch_add\<close> wraps.\<close>

definition fetch_add :: "nat \<Rightarrow> nat \<Rightarrow> nat" where "fetch_add n k = (n + k) mod 2 ^ 64"

definition add_ingested :: "nat \<Rightarrow> metrics \<Rightarrow> metrics" where "add_ingested n m = m\<lparr>mt_ingested := fetch_add (mt_ingested m) n\<rparr>"
definition add_replayed :: "nat \<Rightarrow> metrics \<Rightarrow> metrics" where "add_replayed n m = m\<lparr>mt_replayed := fetch_add (mt_replayed m) n\<rparr>"
definition record_rate_limited :: "metrics \<Rightarrow> metrics" where
  "record_rate_limited m = m\<lparr>mt_rate_limited := fetch_add (mt_rate_limited m) 1\<rparr>"
definition record_store_error :: "metrics \<Rightarrow> metrics" where
  "record_store_error m = m\<lparr>mt_store_errors := fetch_add (mt_store_errors m) 1\<rparr>"
definition record_rejected :: "metric_reason \<Rightarrow> metrics \<Rightarrow> metrics" where
  "record_rejected r m = m\<lparr>mt_rejected := (mt_rejected m)(r := fetch_add (mt_rejected m r) 1)\<rparr>"

section \<open>The shared state\<close>

text \<open>
  One kernel serves all handlers: the store with its graph builds, the feedback tables and the query log. Each domain
  has an engine of its own, with its cache.
\<close>

record engine_cache =
  ec_cache :: "string \<Rightarrow> cached_search option"
  ec_index :: "(string \<times> string) list"

record server =
  sv_keys :: api_keys
  sv_engines :: "string \<Rightarrow> (engine \<times> search_env) option"
  sv_caches :: "string \<Rightarrow> engine_cache"
  sv_limiter :: limiter
  sv_metrics :: metrics
  sv_store :: qug_store
  sv_feedback :: feedback_db
  sv_log_seq :: int

abbreviation sv_db :: "server \<Rightarrow> db" where "sv_db s \<equiv> qt_db (sv_store s)"

definition put_db :: "db \<Rightarrow> server \<Rightarrow> server" where "put_db d s = s\<lparr>sv_store := (sv_store s)\<lparr>qt_db := d\<rparr>\<rparr>"

definition count_metric :: "(metrics \<Rightarrow> metrics) \<Rightarrow> server \<Rightarrow> server" where
  "count_metric f s = s\<lparr>sv_metrics := f (sv_metrics s)\<rparr>"

definition new_server :: "api_keys \<Rightarrow> (string \<Rightarrow> (engine \<times> search_env) option) \<Rightarrow> qug_store \<Rightarrow> feedback_db \<Rightarrow> int \<Rightarrow> server" where
  "new_server keys engines store fb seq =
     \<lparr>sv_keys = keys, sv_engines = engines, sv_caches = (\<lambda>_. \<lparr>ec_cache = (\<lambda>_. None), ec_index = []\<rparr>),
      sv_limiter = limiter_new 60 120, sv_metrics = metrics_default, sv_store = store, sv_feedback = fb, sv_log_seq = seq\<rparr>"

end
