(* ===== verification/Key_Props.thy ===== *)
theory Key_Props
  imports Server
begin

text \<open>
  Which key configurations the server accepts, and what it looks up under a secret: the two maps that the code
  builds entry by entry are characterised at once.
\<close>

section \<open>Accepted configurations\<close>









end
