(* ===== verification/Endpoints.thy ===== *)
theory Endpoints
  imports Server Run Compatibility Reviews
begin

text \<open>
  The endpoints of the server: feedback over HTTP (\<^verbatim>\<open>lib.rs\<close>), search over HTTP (\<^verbatim>\<open>http_search.rs\<close>) and
  gRPC, the other gRPC services (\<^verbatim>\<open>services/*.rs\<close>, \<^verbatim>\<open>grpc.rs\<close>) and the resident compile worker
  (\<^verbatim>\<open>worker.rs\<close>). A handler runs to its end before the next one starts; the times it reads, what other processes do
  meanwhile and the decoded requests are arguments.
\<close>

section \<open>Feedback\<close>

definition max_body_bytes :: nat where "max_body_bytes = 64 * 1024"
definition max_events :: nat where "max_events = 100"

record http_request =
  hq_auth :: "string option"
  hq_length :: "string option"
  hq_body :: "string option"

record event_ack =
  ea_key :: string
  ea_event :: int
  ea_replayed :: bool
  ea_received :: int

record ingest_response =
  ig_domain :: string
  ig_events :: "event_ack list"
  ig_accepted :: nat

definition record_rejection :: "string option \<Rightarrow> rejection_reason \<Rightarrow> nat \<Rightarrow> int \<Rightarrow> server \<Rightarrow> server" where
  "record_rejection domain reason bytes now s =
     (case record_feedback_rejection domain reason (as_i64_cast bytes) now (sv_feedback s) of
        (Inl _, fb) \<Rightarrow> count_metric record_store_error (s\<lparr>sv_feedback := fb\<rparr>)
      | (Inr _, fb) \<Rightarrow> s\<lparr>sv_feedback := fb\<rparr>)"

definition invalid_feedback :: "server \<Rightarrow> 'a response \<times> server" where
  "invalid_feedback s = (error_json 422 ''INVALID_FEEDBACK'', count_metric (record_rejected CountInvalidFeedback) s)"

definition payload_too_large :: "'a response" where "payload_too_large = error_json 413 ''PAYLOAD_TOO_LARGE''"

text \<open>\<^verbatim>\<open>str::parse::<u64>\<close>: digits after an optional plus sign, in range.\<close>

definition parse_u64 :: "string \<Rightarrow> nat option" where
  "parse_u64 s =
     (let ds = (case s of c # cs \<Rightarrow> if c = CHR ''+'' then cs else s | [] \<Rightarrow> [])
      in if ds = [] \<or> \<not> list_all is_digit ds \<or> digits_value 0 ds \<ge> 2 ^ 64 then None else Some (digits_value 0 ds))"

definition over_declared :: "http_request \<Rightarrow> bool" where
  "over_declared rq =
     (case hq_length rq of
        None \<Rightarrow> False
      | Some t \<Rightarrow> (case parse_u64 t of None \<Rightarrow> False | Some n \<Rightarrow> n > max_body_bytes))"

definition too_large :: "int \<Rightarrow> server \<Rightarrow> 'a response \<times> server" where
  "too_large now s =
     (payload_too_large,
      record_rejection None PayloadTooLarge max_body_bytes now (count_metric (record_rejected CountPayloadTooLarge) s))"

definition body_limit_middleware ::
  "int \<Rightarrow> http_request \<Rightarrow> (string \<Rightarrow> server \<Rightarrow> 'a response \<times> server) \<Rightarrow> server \<Rightarrow> 'a response \<times> server" where
  "body_limit_middleware now rq rest s =
     (if over_declared rq then too_large now s
      else case hq_body rq of
             None \<Rightarrow> too_large now s
           | Some body \<Rightarrow> if length body > max_body_bytes then too_large now s else rest body s)"

definition auth_middleware ::
  "string option \<Rightarrow> (authed_key \<Rightarrow> server \<Rightarrow> 'a response \<times> server) \<Rightarrow> server \<Rightarrow> 'a response \<times> server" where
  "auth_middleware header rest s =
     (case authenticate (sv_keys s) header of
        None \<Rightarrow> (error_json 401 ''UNAUTHENTICATED'', count_metric (record_rejected CountUnauthenticated) s)
      | Some i \<Rightarrow> rest (authed i) s)"

datatype event_failure = BadEvent | MetadataTooLarge

definition event_kind_ok :: "event_dto \<Rightarrow> bool" where
  "event_kind_ok e =
     (case ed_kind e of
        Rate \<Rightarrow> (case ed_rating e of Some r \<Rightarrow> 1 \<le> r \<and> r \<le> 5 | None \<Rightarrow> False)
      | _ \<Rightarrow> ed_rating e = None
             \<and> (let page = (case ed_page e of None \<Rightarrow> [] | Some p \<Rightarrow> p)
                in 0 < char_count page \<and> char_count page \<le> max_page_id_chars))"

definition check_event :: "ext \<Rightarrow> server_codec \<Rightarrow> string \<Rightarrow> json \<Rightarrow> event_failure + feedback_input" where
  "check_event X C domain raw =
     (case vc_event C raw of
        None \<Rightarrow> Inl BadEvent
      | Some e \<Rightarrow>
          if char_count (ed_key e) = 0 \<or> char_count (ed_key e) > max_key_chars
             \<or> list_ex is_control (scalars (ed_key e)) then Inl BadEvent
          else if ed_log e \<le> 0 then Inl BadEvent
          else if \<not> event_kind_ok e then Inl BadEvent
          else if \<not> is_object (ed_metadata e) then Inl BadEvent
          else if length (x_json_text X (ed_metadata e)) > max_metadata_bytes then Inl MetadataTooLarge
          else Inr \<lparr>fi_key = ed_key e, fi_domain = domain, fi_log = ed_log e, fi_kind = ed_kind e, fi_page = ed_page e,
                    fi_rating = ed_rating e, fi_metadata = ed_metadata e\<rparr>)"

fun check_events :: "ext \<Rightarrow> server_codec \<Rightarrow> string \<Rightarrow> json list \<Rightarrow> event_failure + feedback_input list" where
  "check_events X C domain [] = Inr []"
| "check_events X C domain (raw # rs) =
     (case check_event X C domain raw of
        Inl f \<Rightarrow> Inl f
      | Inr i \<Rightarrow> (case check_events X C domain rs of Inl f \<Rightarrow> Inl f | Inr is \<Rightarrow> Inr (i # is)))"

definition page_reference :: "feedback_input \<Rightarrow> string option" where
  "page_reference i = (case fi_kind i of Rate \<Rightarrow> None | _ \<Rightarrow> fi_page i)"

definition pages_known :: "string \<Rightarrow> db \<Rightarrow> feedback_input list \<Rightarrow> bool" where
  "pages_known domain d is =
     list_all (\<lambda>i. case page_reference i of None \<Rightarrow> True | Some p \<Rightarrow> page_exists domain p d) is"

definition ack_of :: "feedback_ingested \<times> feedback_input \<Rightarrow> event_ack" where
  "ack_of p = (case p of (r, i) \<Rightarrow>
     \<lparr>ea_key = fi_key i, ea_event = in_event r, ea_replayed = in_replayed r, ea_received = in_received r\<rparr>)"

text \<open>The last step: one transaction for the whole batch.\<close>

definition store_batch ::
  "ext \<Rightarrow> string \<Rightarrow> feedback_input list \<Rightarrow> int \<Rightarrow> server \<Rightarrow> ingest_response response \<times> server" where
  "store_batch X domain is now s =
     (case insert_feedback_batch_idempotent X is now (sv_feedback s) of
        (Inr rows, fb) \<Rightarrow>
          let fresh = length (filter (\<lambda>r. \<not> in_replayed r) rows)
          in (Answered \<lparr>ig_domain = domain, ig_events = map ack_of (zip rows is), ig_accepted = length rows\<rparr>,
              count_metric (add_replayed (length rows - fresh)) (count_metric (add_ingested fresh) (s\<lparr>sv_feedback := fb\<rparr>)))
      | (Inl Validation, fb) \<Rightarrow> invalid_feedback (s\<lparr>sv_feedback := fb\<rparr>)
      | (Inl _, fb) \<Rightarrow> (error_json 500 ''STORE_ERROR'', count_metric record_store_error (s\<lparr>sv_feedback := fb\<rparr>)))"

definition ingest ::
  "ext \<Rightarrow> server_codec \<Rightarrow> string \<Rightarrow> json list \<Rightarrow> nat \<Rightarrow> int \<Rightarrow> server \<Rightarrow> ingest_response response \<times> server" where
  "ingest X C domain events bytes now s =
     (if events = [] \<or> length events > max_events
      then (payload_too_large,
            record_rejection (Some domain) EventCountTooLarge bytes now
              (count_metric (record_rejected CountEventCountTooLarge) s))
      else case check_events X C domain events of
             Inl BadEvent \<Rightarrow> invalid_feedback s
           | Inl MetadataTooLarge \<Rightarrow>
               (payload_too_large,
                record_rejection (Some domain) FieldTooLarge bytes now
                  (count_metric (record_rejected CountFieldTooLarge) s))
           | Inr is \<Rightarrow> if \<not> pages_known domain (sv_db s) is then invalid_feedback s else store_batch X domain is now s)"

definition post_feedback ::
  "ext \<Rightarrow> server_codec \<Rightarrow> int \<Rightarrow> int \<Rightarrow> string \<Rightarrow> authed_key \<Rightarrow> server \<Rightarrow> ingest_response response \<times> server" where
  "post_feedback X C limit_now now body key s =
     (case vc_request C body of
        None \<Rightarrow> (error_json 400 ''INVALID_JSON'', count_metric (record_rejected CountInvalidJson) s)
      | Some (domain, events) \<Rightarrow>
          if domain \<noteq> ak_domain key
          then (error_json 403 ''TENANT_FORBIDDEN'', count_metric (record_rejected CountTenantForbidden) s)
          else (case try_acquire domain (ak_label key) limit_now (sv_limiter s) of
                  (Inl remaining, l) \<Rightarrow>
                    (Refused 429 ''RATE_LIMITED'' (Some remaining), count_metric record_rate_limited (s\<lparr>sv_limiter := l\<rparr>))
                | (Inr _, l) \<Rightarrow> ingest X C domain events (length body) now (s\<lparr>sv_limiter := l\<rparr>)))"

text \<open>\<^verbatim>\<open>POST /feedback\<close>: the size limit, then authentication, then the handler.\<close>

definition serve_feedback ::
  "ext \<Rightarrow> server_codec \<Rightarrow> int \<Rightarrow> int \<Rightarrow> http_request \<Rightarrow> server \<Rightarrow> ingest_response response \<times> server" where
  "serve_feedback X C limit_now now rq =
     body_limit_middleware now rq (\<lambda>body. auth_middleware (hq_auth rq) (post_feedback X C limit_now now body))"

section \<open>Search\<close>

record search_params =
  sp_q :: string
  sp_domain :: string
  sp_top_k :: nat
  sp_filters :: "string option"

text \<open>The engine of a domain sees the shared tables and its own cache.\<close>

definition search_view :: "string \<Rightarrow> server \<Rightarrow> search_state" where
  "search_view domain s =
     \<lparr>ss_db = sv_db s, ss_logs = fb_logs (sv_feedback s), ss_log_seq = sv_log_seq s,
      ss_cache = ec_cache (sv_caches s domain), ss_index = ec_index (sv_caches s domain)\<rparr>"

definition search_put :: "string \<Rightarrow> search_state \<Rightarrow> server \<Rightarrow> server" where
  "search_put domain v s =
     (put_db (ss_db v) s)\<lparr>sv_feedback := (sv_feedback s)\<lparr>fb_logs := ss_logs v\<rparr>, sv_log_seq := ss_log_seq v,
       sv_caches := (sv_caches s)(domain := \<lparr>ec_cache = ss_cache v, ec_index = ss_index v\<rparr>)\<rparr>"

definition engine_for :: "string \<Rightarrow> server \<Rightarrow> (engine \<times> search_env) option" where
  "engine_for domain s = sv_engines s domain"

definition engine_search ::
  "ext \<Rightarrow> string \<Rightarrow> engine \<times> search_env \<Rightarrow> query \<Rightarrow> nat \<Rightarrow> int \<Rightarrow> server \<Rightarrow> query_result result \<times> server" where
  "engine_search X domain e q latency now s =
     (case search X (snd e) (fst e) q latency now (search_view domain s) of (r, v) \<Rightarrow> (r, search_put domain v s))"

definition parse_filter_text :: "server_codec \<Rightarrow> string option \<Rightarrow> filters option" where
  "parse_filter_text C t =
     (case t of None \<Rightarrow> Some [] | Some raw \<Rightarrow> if trim_text raw = [] then Some [] else vc_filters C raw)"

definition http_search ::
  "ext \<Rightarrow> server_codec \<Rightarrow> nat \<Rightarrow> int \<Rightarrow> search_params \<Rightarrow> authed_key \<Rightarrow> server \<Rightarrow> query_result response \<times> server" where
  "http_search X C latency now p key s =
     (if \<not> authorize_method (ak_methods key) ''search'' then (error_json 403 ''PERMISSION_DENIED'', s)
      else if sp_domain p \<noteq> ak_domain key then (error_json 403 ''PERMISSION_DENIED'', s)
      else if \<not> (1 \<le> sp_top_k p \<and> sp_top_k p \<le> 100) then (error_json 400 ''INVALID_ARGUMENT'', s)
      else case parse_filter_text C (sp_filters p) of
             None \<Rightarrow> (error_json 400 ''INVALID_ARGUMENT'', s)
           | Some fs \<Rightarrow>
               (case engine_for (sp_domain p) s of
                  None \<Rightarrow> (error_json 404 ''NOT_FOUND'', s)
                | Some e \<Rightarrow>
                    (case engine_search X (sp_domain p) e
                            \<lparr>q_text = sp_q p, q_filters = fs, q_top_k = sp_top_k p, q_domain = Some (sp_domain p)\<rparr> latency now s of
                       (Inl err, s1) \<Rightarrow> (case http_error err of (status, code) \<Rightarrow> (error_json status code, s1))
                     | (Inr r, s1) \<Rightarrow> (Answered r, s1))))"

text \<open>\<^verbatim>\<open>GET /search\<close>.\<close>

definition serve_search ::
  "ext \<Rightarrow> server_codec \<Rightarrow> nat \<Rightarrow> int \<Rightarrow> string option \<Rightarrow> search_params \<Rightarrow> server \<Rightarrow> query_result response \<times> server" where
  "serve_search X C latency now header p = auth_middleware header (http_search X C latency now p)"

section \<open>Services\<close>

text \<open>A call of a service: the interceptor of its method, then the handler.\<close>

definition grpc_call ::
  "string \<Rightarrow> string option \<Rightarrow> (authed_key \<Rightarrow> server \<Rightarrow> (grpc_code + 'a) \<times> server) \<Rightarrow> server \<Rightarrow> (grpc_code + 'a) \<times> server" where
  "grpc_call m header handler s =
     (case grpc_interceptor (sv_keys s) m header of Inl c \<Rightarrow> (Inl c, s) | Inr key \<Rightarrow> handler key s)"

definition grpc_result :: "'a result \<Rightarrow> grpc_code + 'a" where
  "grpc_result r = (case r of Inl e \<Rightarrow> Inl (grpc_status e) | Inr a \<Rightarrow> Inr a)"

record search_request =
  sq_domain :: string
  sq_text :: string
  sq_filters :: string
  sq_top_k :: nat

definition max_query_chars :: nat where "max_query_chars = 16 * 1024"

definition grpc_search ::
  "ext \<Rightarrow> server_codec \<Rightarrow> nat \<Rightarrow> int \<Rightarrow> search_request \<Rightarrow> server \<Rightarrow> (grpc_code + query_result) \<times> server" where
  "grpc_search X C latency now rq s =
     (if length (sq_text rq) > max_query_chars then (Inl GInvalidArgument, s)
      else if \<not> (1 \<le> sq_top_k rq \<and> sq_top_k rq \<le> 100) then (Inl GInvalidArgument, s)
      else case (if sq_filters rq = [] then Some [] else vc_filters C (sq_filters rq)) of
             None \<Rightarrow> (Inl GInvalidArgument, s)
           | Some fs \<Rightarrow>
               (case engine_for (sq_domain rq) s of
                  None \<Rightarrow> (Inl GNotFound, s)
                | Some e \<Rightarrow>
                    (case engine_search X (sq_domain rq) e
                            \<lparr>q_text = sq_text rq, q_filters = fs, q_top_k = sq_top_k rq, q_domain = Some (sq_domain rq)\<rparr> latency now s of
                       (r, s1) \<Rightarrow> (grpc_result r, s1))))"

definition parse_review_status :: "string \<Rightarrow> grpc_code + review_status" where
  "parse_review_status raw =
     (if raw = ''pending'' then Inr ReviewPending
      else if raw = ''approved'' then Inr ReviewApproved
      else if raw = ''ignored'' then Inr ReviewIgnored
      else Inl GInvalidArgument)"

record review_list_request =
  rl_domain :: string
  rl_status :: string
  rl_limit :: nat

definition review_list :: "review_list_request \<Rightarrow> server \<Rightarrow> (grpc_code + review_row list) \<times> server" where
  "review_list rq s =
     (if rl_domain rq = [] then (Inl GInvalidArgument, s)
      else case (if rl_status rq = [] then Inr None
                 else (case parse_review_status (rl_status rq) of Inl c \<Rightarrow> Inl c | Inr st \<Rightarrow> Inr (Some st))) of
             Inl c \<Rightarrow> (Inl c, s)
           | Inr st \<Rightarrow>
               (grpc_result (list_reviews (rl_domain rq) st (if rl_limit rq = 0 then 50 else rl_limit rq) (sv_db s)), s))"

definition load_one :: "string \<Rightarrow> int \<Rightarrow> db \<Rightarrow> review_row result" where
  "load_one domain i d =
     try_bind (list_reviews domain None 1000 d) (\<lambda>rs. ok_or Validation (find (\<lambda>r. rv_id r = i) rs))"

text \<open>\<^verbatim>\<open>decide\<close>: the decision is committed before the review is looked up in the domain of the request.\<close>

definition review_decide ::
  "ext \<Rightarrow> bool \<Rightarrow> int \<Rightarrow> int \<Rightarrow> string \<Rightarrow> int \<Rightarrow> authed_key \<Rightarrow> server \<Rightarrow> (grpc_code + review_row) \<times> server" where
  "review_decide X approve now clock domain i key s =
     (case (if approve
            then (case approve_review X i (ak_label key) now clock (sv_db s) of (r, d) \<Rightarrow> (map_sum id (\<lambda>_. ()) r, d))
            else ignore_review i (ak_label key) now (sv_db s)) of
        (Inl e, d) \<Rightarrow> (Inl (grpc_status e), put_db d s)
      | (Inr _, d) \<Rightarrow> (grpc_result (load_one domain i d), put_db d s))"

definition domain_of_key :: "string \<Rightarrow> string" where "domain_of_key key = takeWhile (\<lambda>c. c \<noteq> CHR '':'') key"

definition compile_status :: "string \<Rightarrow> int \<Rightarrow> server \<Rightarrow> (grpc_code + task_state) \<times> server" where
  "compile_status domain i s =
     (case compile_task_status i (sv_db s) of
        None \<Rightarrow> (Inl GNotFound, s)
      | Some t \<Rightarrow> if domain \<noteq> [] \<and> domain_of_key (ts_entity t) \<noteq> domain then (Inl GNotFound, s) else (Inr t, s))"

record build_request =
  bq_domain :: string
  bq_version :: string
  bq_config :: string
  bq_intents :: string
  bq_force :: bool

record build_response =
  br_domain :: string
  br_hash :: string
  br_edges :: nat
  br_published :: bool
  br_reused :: bool

definition build_response_of :: "string \<Rightarrow> qug_build_outcome \<Rightarrow> build_response" where
  "build_response_of domain out =
     (case (case out of Published st \<Rightarrow> (True, st) | Reused st \<Rightarrow> (False, st)) of
        (published, st) \<Rightarrow> \<lparr>br_domain = domain, br_hash = gb_source_hash st, br_edges = gb_edges st mod 2 ^ 32,
                            br_published = published, br_reused = \<not> published\<rparr>)"

definition qug_build ::
  "qug_codec \<Rightarrow> (nat \<Rightarrow> nat list) \<Rightarrow> ext \<Rightarrow> int \<Rightarrow> (qug_store \<Rightarrow> qug_store) \<Rightarrow> domain_config option \<Rightarrow> build_request
     \<Rightarrow> server \<Rightarrow> (grpc_code + build_response) \<times> server" where
  "qug_build G lower X now others config rq s =
     (case config of
        None \<Rightarrow> (Inl GInvalidArgument, s)
      | Some c \<Rightarrow>
          (case build_and_publish_qug_from_bytes G lower X now (bq_domain rq) (bq_version rq) (bq_config rq) (bq_intents rq) c
                  (bq_force rq) others (sv_store s) of
             (r, store) \<Rightarrow> (map_sum id (build_response_of (bq_domain rq)) (grpc_result r), s\<lparr>sv_store := store\<rparr>)))"

definition compatibility_check ::
  "ext \<Rightarrow> versions \<Rightarrow> (string \<times> compatibility_spec option) option \<Rightarrow> server \<Rightarrow> (grpc_code + compat_report) \<times> server" where
  "compatibility_check X V config s =
     (case config of
        None \<Rightarrow> (Inl GInvalidArgument, s)
      | Some (domain, spec) \<Rightarrow> (Inr (check_domain_compatibility X V domain spec (sv_db s)), s))"

record task_summary =
  tu_run :: string
  tu_scanned :: nat
  tu_admitted :: nat
  tu_skipped :: nat
  tu_tasks :: "int list"

record admit_request =
  aq_domain :: string
  aq_max :: nat
  aq_force :: bool

text \<open>
  \<open>assembled\<close> is what reading the domain pack and the source gives, with the entity type of the schema; \<open>None\<close> stands
  also for a run that its environment never ends.
\<close>

definition compile_admit ::
  "(site \<times> string) option \<Rightarrow> (nat \<Rightarrow> tick) \<Rightarrow> (nat \<Rightarrow> nat \<Rightarrow> raw_entity list result) \<Rightarrow> string \<Rightarrow> admit_request
     \<Rightarrow> server \<Rightarrow> ((grpc_code + task_summary) \<times> server) option" where
  "compile_admit assembled env fetch run rq s =
     (if aq_domain rq = [] then Some (Inl GInvalidArgument, s)
      else case assembled of
             None \<Rightarrow> Some (Inl GInvalidArgument, s)
           | Some (S, entity_type) \<Rightarrow>
               if entity_type = [] then Some (Inl GInvalidArgument, s)
               else map_option (\<lambda>(r, d).
                      (case r of
                         Inl e \<Rightarrow> Inl (grpc_status e)
                       | Inr (st, ids) \<Rightarrow>
                           Inr \<lparr>tu_run = st_run st, tu_scanned = st_scanned st mod 2 ^ 32, tu_admitted = length ids mod 2 ^ 32,
                                tu_skipped = st_skipped st mod 2 ^ 32, tu_tasks = ids\<rparr>, put_db d s))
                    (admit_batch S env fetch
                       \<lparr>ro_limit = (if aq_max rq > 0 then aq_max rq else 1000), ro_batch = 32, ro_force = aq_force rq, ro_dry = False\<rparr>
                       run (sv_db s)))"

section \<open>The resident worker\<close>

definition worker_run_prefix :: string where "worker_run_prefix = ''server-worker''"

text \<open>The run that a claim at a second is booked under; the seconds are printed as \<^verbatim>\<open>i64\<close>.\<close>

definition seconds_text :: "int \<Rightarrow> string" where
  "seconds_text n = (if n < 0 then ''-'' else []) @ nat_text (nat \<bar>n\<bar>)"

definition worker_run :: "int \<Rightarrow> string" where "worker_run now = worker_run_prefix @ ''-'' @ seconds_text now"

datatype worker_outcome = Idle | Claimed "lease_outcome result"

text \<open>One pass of \<^verbatim>\<open>run_loop\<close>: the due tasks, one claim, the claimed task. Every error is logged and the pass ends.\<close>

definition worker_pass :: "site \<Rightarrow> nat \<Rightarrow> int \<Rightarrow> string \<Rightarrow> tick \<Rightarrow> db \<Rightarrow> worker_outcome \<times> db" where
  "worker_pass S concurrency now token t d =
     (let due = list_due_compile_task_ids now concurrency d
      in if due = [] then (Idle, d)
         else case claim_compile (si_ext S) due (worker_run now) token now d of
                (Inr (Some l), d1) \<Rightarrow> (case process_claimed_task S t l d1 of (r, d2) \<Rightarrow> (Claimed r, d2))
              | (_, d1) \<Rightarrow> (Idle, d1))"

definition max_workers :: nat where "max_workers = 8"

definition worker_concurrency :: "string option \<Rightarrow> nat" where
  "worker_concurrency env =
     (let n = (case env of None \<Rightarrow> 1 | Some v \<Rightarrow> (case parse_u64 (trim_text v) of None \<Rightarrow> 1 | Some k \<Rightarrow> k))
      in max 1 (min n max_workers))"

end
