(* ===== verification/Server_Inv.thy ===== *)
theory Server_Inv
  imports Endpoints Review_Props Feedback_Props Search_Props Qug_Store_Props Compat_Props
begin

text \<open>
  The steps of a server and the invariants they keep: what an approval does to the tasks, that a batch of
  feedback only appends events of its domain, and that decisions, suggestions, preflights and kernel steps keep the tables.
\<close>

section \<open>Approvals\<close>

definition reviews_only :: "db \<Rightarrow> db \<Rightarrow> bool" where
  "reviews_only d d' \<longleftrightarrow> d' = d\<lparr>db_reviews := db_reviews d', db_review_seq := db_review_seq d'\<rparr>"

lemma reviews_only_parts:
  assumes "reviews_only d d'"
  shows "same_queue d d'" "same_pages d d'"
  using assms unfolding reviews_only_def same_queue_def same_pages_def by (cases d; cases d'; simp)+

lemma reviews_only_trans: "reviews_only a b \<Longrightarrow> reviews_only b c \<Longrightarrow> reviews_only a c"
  unfolding reviews_only_def by (cases a; cases b; cases c; simp)

lemma reviews_only_decide: "decide_review e i st now reviewer task d = Inr d' \<Longrightarrow> reviews_only d d'"
  by (auto simp: decide_review_def reviews_only_def Let_def split: if_splits)

lemma reviews_only_convert: "convert_review r subject task now d = Inr (c, d') \<Longrightarrow> reviews_only d d'"
  by (auto simp: convert_review_def insert_review_row_def reviews_only_def Let_def split: if_splits prod.splits)

lemma reviews_ok_decide:
  assumes "decide_review e i st now reviewer task d = Inr d'" "reviews_ok d"
  shows "reviews_ok d'"
proof -
  have key: "map f (sql_update P (review_set st now reviewer task) (db_reviews d)) = map f (db_reviews d)"
    if "\<And>r. f (review_set st now reviewer task r) = f r" for f :: "review_row \<Rightarrow> 'a" and P
    using that by (rule map_key_sql_update)
  have "map rv_id (db_reviews d') = map rv_id (db_reviews d)" "map review_key (db_reviews d') = map review_key (db_reviews d)"
    "db_review_seq d' = db_review_seq d"
    using assms(1) key[of rv_id] key[of review_key]
    by (auto simp: decide_review_def Let_def review_set_def review_key_def split: if_splits)
  then show ?thesis using assms(2) unfolding reviews_ok_def keyed_def by (metis list.set_map imageE imageI)
qed

lemma reviews_ok_convert:
  assumes "convert_review r subject task now d = Inr (c, d')" "reviews_ok d"
  shows "reviews_ok d'"
proof -
  obtain n where "insert_review_row (converted_row r subject task now d) d = (n, d')"
    using assms(1) by (auto simp: convert_review_def split: if_splits prod.splits)
  then have "grown d d'" by (rule grown_insert) (simp add: converted_row_def)
  then show ?thesis using assms(2) by (simp add: grown_def)
qed

lemma readmit_admits:
  assumes "readmit X t clock d = Inr (i, d')"
  obtains p ctx policy schema adm where "admit_compile_on_conn X p ctx policy schema True clock d = Inr (adm, d')"
proof -
  obtain p deps schema where "rebuild_prepared_from_task X t = Inr (p, deps, schema)"
    "admit_compile_on_conn X p (sd_context deps) (sd_policy deps) schema True clock d = Inr (Queued (t_id t), d')"
    using assms by (auto simp: readmit_def split: if_splits)
  then show thesis by (intro that)
qed

text \<open>An approval admits at most one task, under the policy the review or the task holds, and then decides reviews.\<close>

lemma approve_effect:
  assumes a: "approve_in_transaction X i reviewer now clock d = Inr (out, d')" and ok: "reviews_ok d"
  obtains (decided) "reviews_only d d'" "reviews_ok d'"
  | (admitted) p ctx policy schema force adm d1 where
      "admit_compile_on_conn X p ctx policy schema force clock d = Inr (adm, d1)" "reviews_only d1 d'" "reviews_ok d'"
proof -
  obtain r where r: "find_review i d = Some r" "rv_status r = ReviewPending"
    using a by (auto simp: approve_in_transaction_def split: option.splits if_splits)
  note run = a[unfolded approve_in_transaction_def r option.case]
  have same: "reviews_ok d1" if "admit_compile_on_conn X p ctx policy schema force clock d = Inr (adm, d1)"
    for p ctx policy schema force adm d1
    using grown_admit[OF that] ok by (rule reviews_ok_same)
  show thesis
  proof (cases "rv_action r")
    case SupplementalCompile
    then obtain raw deps prepared schema tk d1 where
      s: "parse_supplemental_subject X (rv_subject r) = Inr (raw, deps)"
      and ad: "admit_compile_on_conn X prepared (sd_context deps) (sd_policy deps) schema False clock d = Inr (Queued tk, d1)"
      and de: "decide_review Internal (rv_id r) ReviewApproved now reviewer (Some tk) d1 = Inr d'"
      using run r(2) by (auto simp: approve_supplemental_def queued_only split: if_splits)
    show thesis using ad de same[OF ad] by (blast intro: admitted reviews_only_decide reviews_ok_decide)
  next
    case CompileDeadLetter
    then obtain q t tk d1 where t: "load_task_snapshot q d = Inr t" and re: "readmit X t clock d = Inr (tk, d1)"
      and de: "decide_review Internal (rv_id r) ReviewApproved now reviewer (Some tk) d1 = Inr d'"
      using run r(2) by (auto simp: approve_dead_letter_def split: if_splits)
    obtain p ctx policy schema adm where ad: "admit_compile_on_conn X p ctx policy schema True clock d = Inr (adm, d1)"
      by (rule readmit_admits[OF re])
    show thesis using ad de same[OF ad] by (blast intro: admitted reviews_only_decide reviews_ok_decide)
  next
    case ConsistencyConflict
    then obtain q t tk d1 c d2 d3 where t: "load_task_snapshot q d = Inr t" and re: "readmit X t clock d = Inr (tk, d1)"
      and s: "convert_review r (supplemental_subject_from_task X t) tk now d1 = Inr (c, d2)"
      "decide_review Validation c ReviewApproved now reviewer (Some tk) d2 = Inr d3"
      "decide_review Internal (rv_id r) ReviewApproved now reviewer (Some tk) d3 = Inr d'"
      using run r(2) by (auto simp: approve_consistency_def Let_def split: if_splits)
    obtain p ctx policy schema adm where ad: "admit_compile_on_conn X p ctx policy schema True clock d = Inr (adm, d1)"
      by (rule readmit_admits[OF re])
    have "reviews_only d1 d'"
      using s by (blast intro: reviews_only_trans reviews_only_convert reviews_only_decide)
    moreover have "reviews_ok d'"
      using s same[OF ad] by (blast intro: reviews_ok_convert reviews_ok_decide)
    ultimately show thesis using ad by (blast intro: admitted)
  next
    case QueryTemplate
    then show thesis using run r(2) ok by (auto simp: approve_only_def intro: decided reviews_only_decide reviews_ok_decide)
  next
    case CompatibilityConflict
    then show thesis using run r(2) ok by (auto simp: approve_only_def intro: decided reviews_only_decide reviews_ok_decide)
  next
    case IgnoreAction
    then show thesis using run r(2) by simp
  qed
qed

definition store_ok :: "db \<Rightarrow> bool" where
  "store_ok d \<longleftrightarrow> queue_ok d \<and> reviews_ok d \<and> pages_ok d"

lemma store_ok_empty: "store_ok empty_db"
  by (simp add: store_ok_def queue_ok_empty reviews_ok_empty pages_ok_empty)

lemma store_ok_reviews: "store_ok d \<Longrightarrow> reviews_only d d' \<Longrightarrow> reviews_ok d' \<Longrightarrow> store_ok d'"
  using queue_ok_same pages_ok_same reviews_only_parts by (auto simp: store_ok_def)

lemma approve_keeps:
  assumes "approve_review X i reviewer now clock d = (r, d')" "store_ok d"
  shows "store_ok d'" "db_pages d' = db_pages d"
proof -
  have "store_ok d' \<and> db_pages d' = db_pages d"
  proof (cases "d' = d")
    case False
    then obtain out where a: "approve_in_transaction X i reviewer now clock d = Inr (out, d')"
      using assms(1) by (auto simp: approve_review_def immediate_transaction_def split: sum.splits)
    have ok: "reviews_ok d" using assms(2) by (simp add: store_ok_def)
    from a ok show ?thesis
    proof (cases rule: approve_effect)
      case decided
      then show ?thesis using assms(2) reviews_only_parts[OF decided(1)] store_ok_reviews by (auto simp: same_pages_def)
    next
      case (admitted p ctx policy schema force adm d1)
      have "queue_ok d1" using queue_ok_admit[OF _ admitted(1)] assms(2) by (simp add: store_ok_def)
      moreover have sp: "same_pages d d1" by (rule same_pages_admit[OF admitted(1)])
      moreover have "reviews_ok d1" using grown_admit[OF admitted(1)] ok by (rule reviews_ok_same)
      ultimately have "store_ok d1" using assms(2) pages_ok_same by (auto simp: store_ok_def)
      then show ?thesis
        using store_ok_reviews admitted(2,3) sp reviews_only_parts[OF admitted(2)] by (auto simp: same_pages_def)
    qed
  qed (use assms(2) in simp)
  then show "store_ok d'" "db_pages d' = db_pages d" by blast+
qed

lemma ignore_keeps:
  assumes "ignore_review i reviewer now d = (r, d')" "store_ok d"
  shows "store_ok d'" "db_pages d' = db_pages d"
proof -
  have "reviews_only d d' \<and> reviews_ok d'"
  proof (cases "d' = d")
    case True
    then show ?thesis using assms(2) by (simp add: store_ok_def reviews_only_def)
  next
    case False
    then have "decide_review Internal i ReviewIgnored now reviewer None d = Inr d'"
      using assms(1)
      by (auto simp: ignore_review_def ignore_in_transaction_def immediate_transaction_def split: sum.splits option.splits if_splits)
    then show ?thesis using assms(2) reviews_only_decide reviews_ok_decide by (auto simp: store_ok_def)
  qed
  then show "store_ok d'" "db_pages d' = db_pages d"
    using assms(2) store_ok_reviews reviews_only_parts by (auto simp: same_pages_def)
qed

lemma suggestion_keeps:
  assumes "insert_suggestion X domain s d = Inr (n, d')" "store_ok d"
  shows "store_ok d'" "db_pages d' = db_pages d"
proof -
  obtain a t where "(case insert_review_row (suggested_row domain s a t d) d of
       (n, d1) \<Rightarrow> Inr (if n = 1 then [db_review_seq d + 1] else [], d1)) = (Inr (n, d') :: (int list \<times> db) result)"
    using assms(1) by (auto simp: insert_suggestion_def)
  then obtain k where i: "insert_review_row (suggested_row domain s a t d) d = (k, d')"
    by (cases "insert_review_row (suggested_row domain s a t d) d") simp
  then have "grown d d'" by (rule grown_insert) (simp add: suggested_row_def)
  then have ok: "reviews_ok d'" using assms(2) by (simp add: grown_def store_ok_def)
  have "d' = snd (insert_review_row (suggested_row domain s a t d) d)" using i by simp
  then have only: "reviews_only d d'" by (simp add: insert_review_row_def reviews_only_def Let_def case_prod_unfold)
  show "store_ok d'" "db_pages d' = db_pages d"
    using store_ok_reviews[OF assms(2) only ok] reviews_only_parts(2)[OF only] by (simp_all add: same_pages_def)
qed

lemma suggestions_keep:
  "insert_suggestions X domain ss d = Inr (n, d') \<Longrightarrow> store_ok d \<Longrightarrow> store_ok d' \<and> db_pages d' = db_pages d"
proof (induction ss arbitrary: d n)
  case (Cons s ss)
  then show ?case using suggestion_keeps by (auto 0 4)
qed simp

lemma suggest_keeps:
  assumes "insert_review_suggestions X domain ss d = (r, d')" "store_ok d"
  shows "store_ok d'" "db_pages d' = db_pages d"
  using assms suggestions_keep
  by (auto simp: insert_review_suggestions_def immediate_transaction_def split: sum.splits if_splits)

lemma preflight_keeps:
  assumes "run_compatibility_preflight X V policy domain ctx dry now d = (r, d')" "store_ok d"
  shows "store_ok d'" "db_pages d' = db_pages d"
proof -
  have "store_ok d' \<and> db_pages d' = db_pages d"
  proof (cases "d' = d")
    case True
    then show ?thesis using assms(2) by simp
  next
    case False
    have only: "reviews_only d d'" using preflight_leaves[OF assms(1)] False by (auto simp: one_conflict_review_def reviews_only_def)
    obtain dm subject reason q where "insert_compatibility_conflict_review X dm subject reason now d = (q, d')"
      using assms(1) False
      by (auto simp: run_compatibility_preflight_def Let_def split: if_splits sum.splits prod.splits)
    then have "grown d d'" using False grown_review by (cases rule: insert_conflict_cases) blast+
    then have "reviews_ok d'" using assms(2) by (simp add: grown_def store_ok_def)
    then show ?thesis
      using store_ok_reviews[OF assms(2) only] reviews_only_parts(2)[OF only] by (simp add: same_pages_def)
  qed
  then show "store_ok d'" "db_pages d' = db_pages d" by blast+
qed

lemma kernel_keeps: "store_ok d \<Longrightarrow> kernel_step X d d' \<Longrightarrow> store_ok d'"
  using queue_ok_step pages_ok_step grown_step by (auto simp: store_ok_def grown_def)

end
