(* ===== verification/Server_Steps.thy ===== *)
theory Server_Steps
  imports Server_Inv
begin

text \<open>
  What the endpoints do to the state of the server, and the relation of its steps. Two invariants follow
  every request: the tables stay well formed, and every engine answers and caches what it may (theory Tenants).
\<close>

section \<open>Callers\<close>

definition bearer :: "server \<Rightarrow> string option \<Rightarrow> key_identity \<Rightarrow> bool" where
  "bearer s header i \<longleftrightarrow> (\<exists>secret. header = Some (bearer_prefix @ secret) \<and> secret \<noteq> [] \<and> sv_keys s secret = Some i)"

lemma strip_prefix_append [simp]: "strip_prefix p (p @ t) = Some t"
  by (auto simp: strip_prefix_def starts_with_iff)

lemma bearer_secret_append [simp]: "bearer_secret (Some (bearer_prefix @ secret)) = (if secret = [] then None else Some secret)"
  by (simp add: bearer_secret_def)

lemma bearer_secret_SomeD: "bearer_secret header = Some secret \<Longrightarrow> header = Some (bearer_prefix @ secret) \<and> secret \<noteq> []"
  by (auto simp: bearer_secret_def strip_prefix_def starts_with_iff split: option.splits if_splits)

lemma authenticate_Some: "authenticate (sv_keys s) header = Some i \<longleftrightarrow> bearer s header i"
  by (auto simp: authenticate_def bearer_def split: option.splits dest!: bearer_secret_SomeD)

lemma interceptor_Inr: "grpc_interceptor (sv_keys s) m header = Inr key \<longleftrightarrow> (\<exists>i. bearer s header i \<and> m \<in> ki_methods i \<and> key = authed i)"
  by (auto simp: grpc_interceptor_def bearer_def authorize_def split: option.splits if_splits dest!: bearer_secret_SomeD)

lemma grpc_call_cases [consumes 1, case_names refused called]:
  assumes "grpc_call m header f s = (r, s')"
  obtains c where "r = Inl c" "s' = s" "\<forall>i. bearer s header i \<longrightarrow> m \<notin> ki_methods i"
  | i where "bearer s header i" "m \<in> ki_methods i" "f (authed i) s = (r, s')"
proof (cases "grpc_interceptor (sv_keys s) m header")
  case (Inl c)
  have "m \<notin> ki_methods i" if "bearer s header i" for i
    using that Inl interceptor_Inr[of s m header "authed i"] by auto
  then have "\<forall>i. bearer s header i \<longrightarrow> m \<notin> ki_methods i" by blast
  then show thesis using assms Inl by (intro that(1)[of c]) (simp_all add: grpc_call_def)
next
  case (Inr key)
  then obtain i where "bearer s header i" "m \<in> ki_methods i" "key = authed i" unfolding interceptor_Inr by blast
  then show thesis using assms Inr by (intro that(2)) (simp_all add: grpc_call_def)
qed

section \<open>Feedback\<close>

definition stored_for :: "feedback_db \<Rightarrow> feedback_ingested \<Rightarrow> feedback_input \<Rightarrow> bool" where
  "stored_for d r i \<longleftrightarrow> (\<exists>e\<in>set (fb_events d). event_key e = (fi_domain i, fi_key i) \<and> fe_id e = in_event r \<and> fe_received e = in_received r)"

definition taken_in :: "ext \<Rightarrow> int \<Rightarrow> query_log list \<Rightarrow> feedback_input list \<Rightarrow> feedback_event \<Rightarrow> bool" where
  "taken_in X now logs is e \<longleftrightarrow> (\<exists>i\<in>set is. e = new_event X i now (fe_id e) \<and> (\<exists>l\<in>set logs. ql_id l = fi_log i \<and> ql_domain l = fi_domain i))"

lemma insert_events_effect:
  "insert_events_on X is now d = Inr (rs, d') \<Longrightarrow>
     length rs = length is \<and> fb_logs d' = fb_logs d \<and> (\<forall>(r, i)\<in>set (zip rs is). stored_for d' r i)
     \<and> (\<exists>new. fb_events d' = fb_events d @ new \<and> (\<forall>e\<in>set new. taken_in X now (fb_logs d) is e))"
proof (induction "is" arbitrary: d rs)
  case (Cons i "is")
  obtain r d1 rs1 where 1: "insert_event_on X i now d = Inr (r, d1)" and 2: "insert_events_on X is now d1 = Inr (rs1, d')" "rs = r # rs1"
    using Cons.prems by auto
  note IH = Cons.IH[OF 2(1)]
  obtain rest where rest: "fb_events d' = fb_events d1 @ rest" "\<forall>e\<in>set rest. taken_in X now (fb_logs d1) is e" using IH by blast
  have one: "fb_logs d1 = fb_logs d \<and> stored_for d1 r i
    \<and> (\<exists>new. fb_events d1 = fb_events d @ new \<and> (\<forall>e\<in>set new. taken_in X now (fb_logs d) (i # is) e))"
    using 1
  proof (cases rule: insert_event_cases)
    case (new l)
    then show ?thesis by (auto simp: stored_for_def taken_in_def event_key_def new_event_def)
  next
    case (replay e)
    then show ?thesis by (auto simp: stored_for_def)
  qed
  then have "stored_for d' r i" using rest(1) by (auto simp: stored_for_def)
  moreover have "taken_in X now (fb_logs d) (i # is) e" if "taken_in X now (fb_logs d1) is e" for e
    using that one by (auto simp: taken_in_def)
  ultimately show ?case using IH one rest 2(2) by auto
qed simp

lemma check_events_Inr:
  "check_events X C domain raws = Inr is \<Longrightarrow> length is = length raws \<and> (\<forall>i\<in>set is. fi_domain i = domain)"
  by (induction raws arbitrary: "is") (auto simp: check_event_def split: sum.splits option.splits if_splits)

lemma record_rejection_same [simp]:
  "sv_store (record_rejection domain reason bytes now s) = sv_store s" "sv_caches (record_rejection domain reason bytes now s) = sv_caches s"
  "sv_keys (record_rejection domain reason bytes now s) = sv_keys s" "sv_engines (record_rejection domain reason bytes now s) = sv_engines s"
  "fb_events (sv_feedback (record_rejection domain reason bytes now s)) = fb_events (sv_feedback s)"
  "fb_logs (sv_feedback (record_rejection domain reason bytes now s)) = fb_logs (sv_feedback s)"
  "fb_event_seq (sv_feedback (record_rejection domain reason bytes now s)) = fb_event_seq (sv_feedback s)"
  by (auto simp: record_rejection_def record_feedback_rejection_def count_metric_def split: prod.splits sum.splits if_splits)

lemma count_metric_same [simp]:
  "sv_store (count_metric f s) = sv_store s" "sv_caches (count_metric f s) = sv_caches s" "sv_keys (count_metric f s) = sv_keys s"
  "sv_engines (count_metric f s) = sv_engines s" "sv_feedback (count_metric f s) = sv_feedback s"
  by (simp_all add: count_metric_def)

text \<open>What the state of the server keeps whatever the answer to a feedback request is.\<close>

definition unfed :: "server \<Rightarrow> server \<Rightarrow> bool" where
  "unfed s s' \<longleftrightarrow> sv_store s' = sv_store s \<and> sv_caches s' = sv_caches s \<and> sv_keys s' = sv_keys s \<and> sv_engines s' = sv_engines s"

definition events_same :: "server \<Rightarrow> server \<Rightarrow> bool" where
  "events_same s s' \<longleftrightarrow> fb_events (sv_feedback s') = fb_events (sv_feedback s) \<and> fb_logs (sv_feedback s') = fb_logs (sv_feedback s)
     \<and> fb_event_seq (sv_feedback s') = fb_event_seq (sv_feedback s)"

lemma batch_same: "insert_feedback_batch_idempotent X is now d = (Inl e, d') \<Longrightarrow> d' = d"
  by (auto simp: insert_feedback_batch_idempotent_def immediate_transaction_def split: sum.splits if_splits)

lemma store_batch_cases [consumes 1, case_names refused stored]:
  assumes "store_batch X domain is now s = (resp, s')"
  obtains st c ra where "resp = Refused st c ra" "unfed s s'" "events_same s s'"
  | rows where "resp = Answered \<lparr>ig_domain = domain, ig_events = map ack_of (zip rows is), ig_accepted = length rows\<rparr>"
      "unfed s s'" "insert_feedback_batch_idempotent X is now (sv_feedback s) = (Inr rows, sv_feedback s')"
proof (cases "insert_feedback_batch_idempotent X is now (sv_feedback s)")
  case (Pair res fb)
  show thesis
  proof (cases res)
    case (Inl e)
    then show thesis
      using assms Pair batch_same[of X "is" now "sv_feedback s" e fb] that(1)
      by (cases e) (auto simp: store_batch_def invalid_feedback_def error_json_def unfed_def events_same_def)
  next
    case (Inr rows)
    then show thesis using assms Pair that(2) by (auto simp: store_batch_def Let_def unfed_def)
  qed
qed

lemma ingest_cases [consumes 1, case_names refused stored]:
  assumes "ingest X C domain events bytes now s = (resp, s')"
  obtains st c ra where "resp = Refused st c ra" "unfed s s'" "events_same s s'"
  | "is" rows where "events \<noteq> []" "length events \<le> max_events" "check_events X C domain events = Inr is" "pages_known domain (sv_db s) is"
      "resp = Answered \<lparr>ig_domain = domain, ig_events = map ack_of (zip rows is), ig_accepted = length rows\<rparr>"
      "unfed s s'" "insert_feedback_batch_idempotent X is now (sv_feedback s) = (Inr rows, sv_feedback s')"
proof -
  note refuse = that(1)
  show thesis
  proof (cases "events = [] \<or> length events > max_events")
    case True
    then show thesis using assms by (intro refuse) (auto simp: ingest_def payload_too_large_def error_json_def unfed_def events_same_def)
  next
    case False
    show thesis
    proof (cases "check_events X C domain events")
      case (Inl f)
      then show thesis
        using assms False refuse
        by (cases f) (auto simp: ingest_def payload_too_large_def invalid_feedback_def error_json_def unfed_def events_same_def)
    next
      case (Inr "is")
      show thesis
      proof (cases "pages_known domain (sv_db s) is")
        case True
        then have "store_batch X domain is now s = (resp, s')" using assms False Inr by (auto simp: ingest_def)
        then show thesis using False Inr True that by (cases rule: store_batch_cases) auto
      next
        case unknown: False
        then show thesis using assms False Inr by (intro refuse) (auto simp: ingest_def invalid_feedback_def error_json_def unfed_def events_same_def)
      qed
    qed
  qed
qed

lemma serve_feedback_cases [consumes 1, case_names refused stored]:
  assumes "serve_feedback X C t1 t2 rq s = (resp, s')"
  obtains st c ra where "resp = Refused st c ra" "unfed s s'" "events_same s s'"
  | i body events "is" rows where "bearer s (hq_auth rq) i" "hq_body rq = Some body" "length body \<le> max_body_bytes"
      "vc_request C body = Some (ki_domain i, events)"
      "fst (try_acquire (ki_domain i) (ki_label i) t1 (sv_limiter s)) = Inr ()"
      "events \<noteq> []" "length events \<le> max_events" "check_events X C (ki_domain i) events = Inr is" "pages_known (ki_domain i) (sv_db s) is"
      "resp = Answered \<lparr>ig_domain = ki_domain i, ig_events = map ack_of (zip rows is), ig_accepted = length rows\<rparr>"
      "unfed s s'" "insert_feedback_batch_idempotent X is t2 (sv_feedback s) = (Inr rows, sv_feedback s')"
proof -
  note defs = serve_feedback_def body_limit_middleware_def auth_middleware_def too_large_def payload_too_large_def error_json_def
  note refuse = that(1)
  show thesis
  proof (cases "hq_body rq")
    case None
    then show thesis using assms by (intro refuse) (auto simp: defs unfed_def events_same_def split: if_splits)
  next
    case (Some body)
    show thesis
    proof (cases "over_declared rq \<or> length body > max_body_bytes")
      case True
      then show thesis using assms Some by (intro refuse) (auto simp: defs unfed_def events_same_def split: if_splits)
    next
      case small: False
      show thesis
      proof (cases "authenticate (sv_keys s) (hq_auth rq)")
        case None
        then show thesis using assms Some small by (intro refuse) (auto simp: defs unfed_def events_same_def)
      next
        case (Some i)
        then have post: "post_feedback X C t1 t2 body (authed i) s = (resp, s')"
          using assms \<open>hq_body rq = Some body\<close> small by (auto simp: defs)
        have i: "bearer s (hq_auth rq) i" using Some authenticate_Some by simp
        show thesis
        proof (cases "vc_request C body")
          case None
          then show thesis using post by (intro refuse) (auto simp: post_feedback_def error_json_def unfed_def events_same_def)
        next
          case (Some de)
          obtain domain events where de: "de = (domain, events)" by (cases de)
          show thesis
          proof (cases "domain = ki_domain i")
            case False
            then show thesis
              using post Some de by (intro refuse) (auto simp: post_feedback_def error_json_def unfed_def events_same_def authed_def)
          next
            case True
            obtain g l where acq: "try_acquire domain (ki_label i) t1 (sv_limiter s) = (g, l)" by fastforce
            show thesis
            proof (cases g)
              case (Inl n)
              then show thesis
                using post Some de True acq
                by (intro refuse) (auto simp: post_feedback_def unfed_def events_same_def authed_def count_metric_def)
            next
              case (Inr u)
              then have "ingest X C domain events (length body) t2 (s\<lparr>sv_limiter := l\<rparr>) = (resp, s')"
                using post Some de True acq by (simp add: post_feedback_def authed_def)
              then show thesis
              proof (cases rule: ingest_cases)
                case (refused st c ra)
                then show thesis by (intro refuse) (auto simp: unfed_def events_same_def)
              next
                case (stored "is" rows)
                then show thesis
                  using \<open>hq_body rq = Some body\<close> small i Some de True acq Inr
                  by (intro that(2)[of i body events "is" rows]) (auto simp: unfed_def)
              qed
            qed
          qed
        qed
      qed
    qed
  qed
qed

end
