(* ===== verification/Tenants.thy ===== *)
theory Tenants
  imports Server_Steps
begin

text \<open>
  The steps of a server and the domains of what it answers: an engine that searches the collection named after its domain
  finds, caches and answers entities of that domain, and what its vector store answered for that collection, whatever
  requests are served in between. Nothing is assumed of the entities of the vectors: the code does not check them.
\<close>

section \<open>Hits of one domain\<close>

text \<open>A page is filed under the domain of its entity; publication files it there when the entity is well formed.\<close>

definition filed :: "page_row \<Rightarrow> bool" where
  "filed p \<longleftrightarrow> (\<forall>e. from_key (pg_entity p) = Inr e \<longrightarrow> eid_domain e = pg_domain p)"

lemma filed_published: "valid_entity (wp_entity (cp_wiki page)) \<Longrightarrow> filed (page_row_of page deps fm revision g now)"
  by (auto simp: filed_def from_key_to_key page_row_of_def Let_def)

text \<open>The text search reads the domain of a page. The entity of a vector is taken from its payload.\<close>

definition vector_answer :: "string \<Rightarrow> engine \<times> search_env \<Rightarrow> entity_id \<Rightarrow> bool" where
  "vector_answer domain e i \<longleftrightarrow> \<not> en_fts_only (fst e)
     \<and> (\<exists>vec k ids vs. sx_vectors (snd e) domain vec k ids = Inr vs \<and> (\<exists>v\<in>set vs. from_key (vh_entity v) = Inr i))"

definition hits_of :: "string \<Rightarrow> engine \<times> search_env \<Rightarrow> search_hit list \<Rightarrow> bool" where
  "hits_of domain e hs \<longleftrightarrow> (\<forall>h\<in>set hs. eid_domain (sh_entity h) = domain \<or> vector_answer domain e (sh_entity h))"

text \<open>The assembly of the server names the collection of an engine after its domain, and SQLite returns rows that were there.\<close>

definition engine_law :: "string \<Rightarrow> engine \<times> search_env \<Rightarrow> bool" where
  "engine_law domain e \<longleftrightarrow> en_collection (fst e) = domain \<and> (\<forall>rs. set (sx_order (snd e) rs) \<subseteq> set rs)"

lemma rrf_add_entity: "h \<in> set (rrf_add page e title w acc) \<Longrightarrow> sh_entity h = e \<or> (\<exists>a\<in>set acc. sh_entity a = sh_entity h)"
  by (induction acc) (auto split: if_splits)

lemma rrf_fts_entity: "h \<in> set (rrf_fts k i hs acc) \<Longrightarrow> \<exists>a\<in>set acc \<union> set hs. sh_entity a = sh_entity h"
proof (induction hs arbitrary: i acc)
  case (Cons a hs)
  then show ?case using rrf_add_entity by fastforce
qed auto

lemma rrf_vectors_entity:
  "h \<in> set (rrf_vectors k i vs acc) \<Longrightarrow> (\<exists>a\<in>set acc. sh_entity a = sh_entity h) \<or> (\<exists>v\<in>set vs. from_key (vh_entity v) = Inr (sh_entity h))"
proof (induction vs arbitrary: i acc)
  case (Cons v vs)
  show ?case
  proof (cases "from_key (vh_entity v)")
    case (Inl e)
    then show ?thesis using Cons.IH[of "i + 1" acc] Cons.prems by auto
  next
    case (Inr e)
    then show ?thesis
      using Cons.IH[of "i + 1" "rrf_add (vector_page e v) e '''' (rank_weight k i) acc"] Cons.prems rrf_add_entity by fastforce
  qed
qed auto

lemma merged_entity:
  assumes "h \<in> set (rrf_merge fts vs n k)"
  shows "(\<exists>a\<in>set fts. sh_entity a = sh_entity h) \<or> (\<exists>v\<in>set vs. from_key (vh_entity v) = Inr (sh_entity h))"
proof -
  have "h \<in> set (rrf_vectors k 0 vs (rrf_fts k 0 fts []))"
    using assms set_take_subset[of n] by (fastforce simp: rrf_merge_def)
  from rrf_vectors_entity[OF this] show ?thesis using rrf_fts_entity by fastforce
qed

lemma fresh_search_domain:
  assumes f: "fresh_search E en q d = Inr c" and law: "engine_law domain (en, E)" and q: "q_domain q = Some domain"
    and filed: "\<forall>p\<in>set (db_pages d). filed p"
  shows "hits_of domain (en, E) (ch_hits c)"
proof -
  obtain rewritten failed status where rw: "query_rewrite E en q = (rewritten, failed, status)" by (cases "query_rewrite E en q")
  let ?own = "case rewritten of None \<Rightarrow> q_filters q | Some r \<Rightarrow> rw_filters r"
  let ?terms = "case rewritten of None \<Rightarrow> [q_text q] | Some r \<Rightarrow> rw_terms r"
  let ?k = "min (max (q_top_k q * en_multiplier en) 50) 500"
  obtain rx where rx: "relaxed_candidates en ?own d = Inr rx"
    using f rw by (auto simp: fresh_search_def Let_def)
  show ?thesis
  proof (cases "rx_ids rx = Some []")
    case True
    then have "ch_hits c = []" using f rw rx by (auto simp: fresh_search_def Let_def)
    then show ?thesis by (simp add: hits_of_def)
  next
    case False
    then obtain fts vs where fts: "search_candidates (sx_rank E) (sx_order E) ?terms (rx_filters rx) ?k (q_domain q) (rx_ids rx) d = Inr fts"
      and vs: "recall_vectors E en ?terms ?k (rx_ids rx) d = Inr vs"
      and c: "ch_hits c = whitelist_filter (rrf_merge fts vs (q_top_k q) (en_rrf_k en)) (rx_ids rx)"
      using f rw rx by (auto simp: fresh_search_def Let_def)
    have order: "set (sx_order E rs) \<subseteq> set rs" for rs using law by (simp add: engine_law_def)
    have recall: "eid_domain (sh_entity a) = domain" if a: "a \<in> set fts" for a
    proof -
      obtain p where p: "p \<in> set (db_pages d)" "from_key (pg_entity p) = Inr (sh_entity a)" "pg_domain p = domain"
        using search_candidates_sound(3)[OF fts order] a by (auto simp: recalled_def row_admitted_def q)
      then show ?thesis using filed by (auto simp: filed_def)
    qed
    have vec: "vector_answer domain (en, E) i" if v: "v \<in> set vs" and i: "from_key (vh_entity v) = Inr i" for v i
    proof -
      obtain vec k ids hits where "\<not> en_fts_only en" "sx_vectors E (en_collection en) vec k ids = Inr hits" "v \<in> set hits"
        using vs v by (auto simp: recall_vectors_def filter_stale_vector_hits_def Let_def split: if_splits)
      then show ?thesis using law i unfolding engine_law_def vector_answer_def fst_conv snd_conv by blast
    qed
    have "h \<in> set (rrf_merge fts vs (q_top_k q) (en_rrf_k en))" if "h \<in> set (ch_hits c)" for h
      using that by (auto simp: c whitelist_filter_def split: option.splits if_splits)
    then show ?thesis using merged_entity recall vec unfolding hits_of_def by metis
  qed
qed

section \<open>Searches of the server\<close>

definition tenant_ok :: "server \<Rightarrow> bool" where
  "tenant_ok s \<longleftrightarrow> (\<forall>domain e. sv_engines s domain = Some e \<longrightarrow> engine_law domain e)
     \<and> (\<forall>domain e k c. sv_engines s domain = Some e \<longrightarrow> ec_cache (sv_caches s domain) k = Some c \<longrightarrow> hits_of domain e (ch_hits c))
     \<and> (\<forall>p\<in>set (db_pages (sv_db s)). filed p)"

lemma tenant_ok_same:
  "tenant_ok s \<Longrightarrow> sv_engines s' = sv_engines s \<Longrightarrow> sv_caches s' = sv_caches s \<Longrightarrow> db_pages (sv_db s') = db_pages (sv_db s) \<Longrightarrow> tenant_ok s'"
  by (simp add: tenant_ok_def)

lemma search_view_simps [simp]:
  "ss_db (search_view domain s) = sv_db s" "ss_logs (search_view domain s) = fb_logs (sv_feedback s)"
  "ss_cache (search_view domain s) = ec_cache (sv_caches s domain)"
  by (simp_all add: search_view_def)

lemma search_put_simps [simp]:
  "sv_store (search_put domain v s) = (sv_store s)\<lparr>qt_db := ss_db v\<rparr>" "sv_engines (search_put domain v s) = sv_engines s"
  "sv_keys (search_put domain v s) = sv_keys s" "sv_caches (search_put domain v s) = (sv_caches s)(domain := \<lparr>ec_cache = ss_cache v, ec_index = ss_index v\<rparr>)"
  "sv_feedback (search_put domain v s) = (sv_feedback s)\<lparr>fb_logs := ss_logs v\<rparr>"
  by (simp_all add: search_put_def put_db_def)

lemma search_put_view: "search_put domain (search_view domain s) s = s"
proof -
  have c: "\<lparr>ec_cache = ec_cache c, ec_index = ec_index c\<rparr> = c" for c :: engine_cache by (cases c) simp
  show ?thesis by (simp add: search_put_def search_view_def put_db_def c)
qed

lemma search_failed: "search X E en q latency now v = (Inl e, v') \<Longrightarrow> v' = v"
  by (auto simp: search_def Let_def log_query_def split: sum.splits option.splits if_splits)

lemma search_logs:
  assumes "search X E en q latency now v = (Inr r, v')"
  obtains l where "ss_logs v' = ss_logs v @ [l]" "ql_domain l = (case q_domain q of None \<Rightarrow> default_log_domain | Some dm \<Rightarrow> dm)"
    "ss_db v' = ss_db v"
proof -
  have ins: "ss_logs (cache_insert k c v0) = ss_logs v0" for k c v0 by (simp add: cache_insert_def)
  show thesis using assms by (cases rule: search_cases) (auto simp: log_query_def Let_def ins intro: that)
qed

text \<open>An engine of the server answers a query of its domain: nothing on an error, one more query log otherwise.\<close>

lemma engine_search_Inl: "engine_search X domain e q latency now s = (Inl err, s') \<Longrightarrow> s' = s"
  using search_failed search_put_view by (fastforce simp: engine_search_def split: prod.splits)

lemma engine_search_Inr:
  assumes "engine_search X domain e q latency now s = (Inr r, s')" "q_domain q = Some domain"
  shows "sv_store s' = sv_store s" "sv_engines s' = sv_engines s" "sv_keys s' = sv_keys s"
    "\<exists>l. sv_feedback s' = (sv_feedback s)\<lparr>fb_logs := fb_logs (sv_feedback s) @ [l]\<rparr> \<and> ql_domain l = domain"
    "\<forall>d. d \<noteq> domain \<longrightarrow> sv_caches s' d = sv_caches s d"
proof -
  obtain v where v: "search X (snd e) (fst e) q latency now (search_view domain s) = (Inr r, v)" "s' = search_put domain v s"
    using assms(1) by (auto simp: engine_search_def split: prod.splits)
  obtain l where l: "ss_logs v = fb_logs (sv_feedback s) @ [l]" "ql_domain l = domain" "ss_db v = sv_db s"
    using search_logs[OF v(1)] assms(2) by auto
  show "sv_store s' = sv_store s" "sv_engines s' = sv_engines s" "sv_keys s' = sv_keys s"
    "\<forall>d. d \<noteq> domain \<longrightarrow> sv_caches s' d = sv_caches s d" by (simp_all add: v(2) l(3))
  show "\<exists>l. sv_feedback s' = (sv_feedback s)\<lparr>fb_logs := fb_logs (sv_feedback s) @ [l]\<rparr> \<and> ql_domain l = domain"
    using l by (auto simp: v(2))
qed

lemma engine_search_domain:
  assumes "engine_search X domain e q latency now s = (Inr r, s')" "q_domain q = Some domain"
    "sv_engines s domain = Some e" "tenant_ok s"
  shows "hits_of domain e (qr_hits r)" "tenant_ok s'"
proof -
  obtain v where v: "search X (snd e) (fst e) q latency now (search_view domain s) = (Inr r, v)" "s' = search_put domain v s"
    using assms(1) by (auto simp: engine_search_def split: prod.splits)
  have law: "engine_law domain (fst e, snd e)" using assms(3,4) unfolding tenant_ok_def prod.collapse by blast
  have filed: "\<forall>p\<in>set (db_pages (sv_db s)). filed p" using assms(4) by (simp add: tenant_ok_def)
  have cached: "hits_of domain e (ch_hits c)" if "ec_cache (sv_caches s domain) k = Some c" for k c
    using assms(3,4) that unfolding tenant_ok_def by blast
  have "hits_of domain e (qr_hits r) \<and> (\<forall>k c. ss_cache v k = Some c \<longrightarrow> hits_of domain e (ch_hits c))"
    using v(1)
  proof (cases rule: search_cases)
    case (hit c)
    then show ?thesis using cached by (auto simp: answer_def)
  next
    case (fresh c)
    have "hits_of domain e (ch_hits c)"
      using fresh_search_domain[OF _ law assms(2), of "sv_db s" c] fresh(2) filed by simp
    then show ?thesis using fresh(3,4) cached by (auto simp: answer_def)
  qed
  then show "hits_of domain e (qr_hits r)" "tenant_ok s'"
    using assms(3,4) engine_search_Inr(1)[OF assms(1,2)] v(2) by (auto simp: tenant_ok_def)
qed

lemma serve_search_cases [consumes 1, case_names refused found]:
  assumes "serve_search X C latency now header p s = (resp, s')"
  obtains st c ra where "resp = Refused st c ra" "sv_store s' = sv_store s" "sv_feedback s' = sv_feedback s" "sv_caches s' = sv_caches s"
      "sv_engines s' = sv_engines s"
  | i e fs r where "bearer s header i" "''search'' \<in> ki_methods i" "sp_domain p = ki_domain i" "sv_engines s (ki_domain i) = Some e"
      "parse_filter_text C (sp_filters p) = Some fs" "resp = Answered r"
      "engine_search X (ki_domain i) e \<lparr>q_text = sp_q p, q_filters = fs, q_top_k = sp_top_k p, q_domain = Some (ki_domain i)\<rparr> latency now s = (Inr r, s')"
proof (cases "authenticate (sv_keys s) header")
  case None
  then show thesis using assms that(1) by (auto simp: serve_search_def auth_middleware_def error_json_def)
next
  case (Some i)
  then have h: "http_search X C latency now p (authed i) s = (resp, s')" using assms by (simp add: serve_search_def auth_middleware_def)
  have i: "bearer s header i" using Some authenticate_Some by simp
  show thesis
  proof (cases "resp")
    case (Refused st c ra)
    have "s' = s"
      using h Refused engine_search_Inl
      by (fastforce simp: http_search_def error_json_def split: if_splits option.splits prod.splits sum.splits)
    then show thesis using that(1) Refused by blast
  next
    case (Answered r)
    let ?q = "\<lambda>fs. \<lparr>q_text = sp_q p, q_filters = fs, q_top_k = sp_top_k p, q_domain = Some (sp_domain p)\<rparr>"
    have a: "authorize_method (ki_methods i) ''search''" "sp_domain p = ki_domain i"
      using h Answered by (auto simp: http_search_def error_json_def authed_def split: if_splits)
    obtain fs e where e: "parse_filter_text C (sp_filters p) = Some fs" "engine_for (sp_domain p) s = Some e"
      "engine_search X (sp_domain p) e (?q fs) latency now s = (Inr r, s')"
      using h Answered
      by (auto simp: http_search_def error_json_def split: if_splits option.splits prod.splits sum.splits)
    show thesis
      using that(2)[of i e fs r] i a e Answered by (simp add: engine_for_def authorize_method_def)
  qed
qed

end
