(* ===== verification/Server_Runs.thy ===== *)
theory Server_Runs
  imports Tenants Run_Props
begin

text \<open>
  Sequences of requests to a server, with what other processes do between them: the tables stay well formed, and the
  engines answer entities of their own domain, and what their vector store answered for its collection.
\<close>

section \<open>Steps\<close>

text \<open>
  Requests in any order, with what other processes do between them: kernel steps, suggestions of the analysis, builds
  from any snapshot taken before, and evictions from the caches. A compile request is made of kernel steps and of a
  compatibility preflight, which may record a review of the conflict (see \<open>run_refines_kernel\<close>); the resident worker
  makes kernel steps. The pages a kernel step publishes are of well-formed entities, so they are filed under the
  domain of their entity.
\<close>

inductive server_step :: "ext \<Rightarrow> server_codec \<Rightarrow> qug_codec \<Rightarrow> (nat \<Rightarrow> nat list) \<Rightarrow> server \<Rightarrow> server \<Rightarrow> bool"
  for X :: ext and C :: server_codec and G :: qug_codec and lower :: "nat \<Rightarrow> nat list" where
  feedback: "serve_feedback X C t1 t2 rq s = (rf, s') \<Longrightarrow> server_step X C G lower s s'"
| http_search: "serve_search X C latency now header p s = (rs, s') \<Longrightarrow> server_step X C G lower s s'"
| rpc_search: "grpc_call ''search'' header (\<lambda>key. grpc_search X C latency now q) s = (rg, s') \<Longrightarrow> server_step X C G lower s s'"
| rpc_decide: "grpc_call ''review'' header (review_decide X approve now clock domain i) s = (rd, s') \<Longrightarrow> server_step X C G lower s s'"
| build: "build_and_publish_qug G lower X now sn c i force (sv_store s) = (rb, store) \<Longrightarrow> server_step X C G lower s (s\<lparr>sv_store := store\<rparr>)"
| suggest: "insert_review_suggestions X domain ss (sv_db s) = (ri, d) \<Longrightarrow> server_step X C G lower s (put_db d s)"
| preflight: "run_compatibility_preflight X V policy domain ctx dry now (sv_db s) = (rp, d) \<Longrightarrow> server_step X C G lower s (put_db d s)"
| kernel: "kernel_step X (sv_db s) d \<Longrightarrow> \<forall>p\<in>set (db_pages d) - set (db_pages (sv_db s)). filed p \<Longrightarrow> server_step X C G lower s (put_db d s)"
| evict: "server_step X C G lower s
    (s\<lparr>sv_caches := (sv_caches s)(domain := (sv_caches s domain)\<lparr>ec_cache := (ec_cache (sv_caches s domain))(k := None)\<rparr>)\<rparr>)"

inductive server_later :: "ext \<Rightarrow> server_codec \<Rightarrow> qug_codec \<Rightarrow> (nat \<Rightarrow> nat list) \<Rightarrow> server \<Rightarrow> server \<Rightarrow> bool"
  for X :: ext and C :: server_codec and G :: qug_codec and lower :: "nat \<Rightarrow> nat list" and s :: server where
  now: "server_later X C G lower s s"
| next_step: "server_later X C G lower s s1 \<Longrightarrow> server_step X C G lower s1 s2 \<Longrightarrow> server_later X C G lower s s2"

locale server_invariant =
  fixes X :: ext and C :: server_codec and G :: qug_codec and lower :: "nat \<Rightarrow> nat list" and I :: "server \<Rightarrow> bool"
  assumes preserved: "server_step X C G lower s s' \<Longrightarrow> I s \<Longrightarrow> I s'"
begin

lemma always: "server_later X C G lower s s' \<Longrightarrow> I s \<Longrightarrow> I s'"
  by (induction rule: server_later.induct) (auto intro: preserved)

end

lemma put_db_simps [simp]:
  "sv_store (put_db d s) = (sv_store s)\<lparr>qt_db := d\<rparr>" "sv_feedback (put_db d s) = sv_feedback s" "sv_caches (put_db d s) = sv_caches s"
  "sv_engines (put_db d s) = sv_engines s" "sv_keys (put_db d s) = sv_keys s"
  by (simp_all add: put_db_def)

lemma grpc_search_cases [consumes 1, case_names refused found]:
  assumes "grpc_search X C latency now rq s = (r, s')"
  obtains c where "r = Inl c" "s' = s"
  | e fs a where "sv_engines s (sq_domain rq) = Some e" "r = Inr a"
      "engine_search X (sq_domain rq) e
         \<lparr>q_text = sq_text rq, q_filters = fs, q_top_k = sq_top_k rq, q_domain = Some (sq_domain rq)\<rparr> latency now s = (Inr a, s')"
proof (cases r)
  case (Inl c)
  have "s' = s"
    using assms Inl engine_search_Inl
    by (fastforce simp: grpc_search_def grpc_result_def split: if_splits option.splits prod.splits sum.splits)
  then show thesis using that(1) Inl by blast
next
  case (Inr a)
  then obtain e fs where "engine_for (sq_domain rq) s = Some e"
    "engine_search X (sq_domain rq) e
       \<lparr>q_text = sq_text rq, q_filters = fs, q_top_k = sq_top_k rq, q_domain = Some (sq_domain rq)\<rparr> latency now s = (Inr a, s')"
    using assms by (auto simp: grpc_search_def grpc_result_def split: if_splits option.splits prod.splits sum.splits)
  then show thesis using that(2) Inr by (simp add: engine_for_def)
qed

lemma review_decide_db:
  assumes "review_decide X approve now clock domain i key s = (r, s')"
  obtains d ra where "s' = put_db d s" "approve_review X i (ak_label key) now clock (sv_db s) = (ra, d)"
  | d ri where "s' = put_db d s" "ignore_review i (ak_label key) now (sv_db s) = (ri, d)"
proof (cases approve)
  case True
  then show thesis
    using assms that(1)
    by (cases "approve_review X i (ak_label key) now clock (sv_db s)") (auto simp: review_decide_def split: sum.splits prod.splits)
next
  case False
  then show thesis
    using assms that(2) by (cases "ignore_review i (ak_label key) now (sv_db s)") (auto simp: review_decide_def split: sum.splits)
qed

section \<open>The tables under every request\<close>

definition server_ok :: "server \<Rightarrow> bool" where
  "server_ok s \<longleftrightarrow> store_ok (sv_db s) \<and> feedback_ok (sv_feedback s) \<and> builds_ok (sv_store s)"

lemma builds_ok_db [simp]: "builds_ok (st\<lparr>qt_db := d\<rparr>) = builds_ok st" by (simp add: builds_ok_def)

lemma feedback_ok_log: "feedback_ok d \<Longrightarrow> feedback_ok (d\<lparr>fb_logs := fb_logs d @ [l]\<rparr>)"
  using feedback_step_grow[OF feedback_step.query] by (simp add: events_grow_def)

lemma feedback_ok_same: "events_same s s' \<Longrightarrow> feedback_ok (sv_feedback s) \<Longrightarrow> feedback_ok (sv_feedback s')"
  by (simp add: events_same_def feedback_ok_def)

lemma builds_publish:
  assumes "publish_build G X now sn ps is s = (r, s')"
  shows "store_ok (qt_db s) \<Longrightarrow> store_ok (qt_db s')" "db_pages (qt_db s') = db_pages (qt_db s)"
proof -
  have "s' = s \<or> (\<exists>edges. qt_db s' = (qt_db s)\<lparr>db_edges := edges\<rparr>)"
    using assms unfolding publish_build_def
    by (cases rule: immediate_transaction_cases)
       (auto simp: publish_build_in_transaction_def insert_build_edges_def delete_mirror_def Let_def split: if_splits)
  then show "store_ok (qt_db s) \<Longrightarrow> store_ok (qt_db s')" "db_pages (qt_db s') = db_pages (qt_db s)"
    using queue_ok_same[of "qt_db s" "qt_db s'"] pages_ok_same[of "qt_db s" "qt_db s'"] reviews_ok_same[of "qt_db s'" "qt_db s"]
    by (auto simp: store_ok_def same_queue_def same_pages_def)
qed

lemma build_keeps:
  assumes "build_and_publish_qug G lower X now sn c i force st = (r, st')"
  shows "store_ok (qt_db st) \<Longrightarrow> store_ok (qt_db st')" "db_pages (qt_db st') = db_pages (qt_db st)" "builds_ok st \<Longrightarrow> builds_ok st'"
proof -
  have "st' = st \<or> (\<exists>ps is r'. publish_build G X now sn ps is st = (r', st'))"
    using assms by (auto simp: build_and_publish_qug_def split: sum.splits option.splits prod.splits)
  then show "store_ok (qt_db st) \<Longrightarrow> store_ok (qt_db st')" "db_pages (qt_db st') = db_pages (qt_db st)" "builds_ok st \<Longrightarrow> builds_ok st'"
    using builds_publish publish_builds_ok by auto
qed

lemma server_ok_step:
  assumes "server_step X C G lower s s'" "server_ok s"
  shows "server_ok s'"
  using assms(1)
proof cases
  case (feedback t1 t2 rq rf)
  from feedback show ?thesis
  proof (cases rule: serve_feedback_cases)
    case (refused st c ra)
    then show ?thesis using assms(2) feedback_ok_same by (auto simp: server_ok_def unfed_def)
  next
    case (stored i body events "is" rows)
    then show ?thesis
      using assms(2) feedback_step_grow[OF feedback_step.batch[OF stored(12)]] by (auto simp: server_ok_def unfed_def events_grow_def)
  qed
next
  case (http_search latency now header p rs)
  from http_search show ?thesis
  proof (cases rule: serve_search_cases)
    case (refused st c ra)
    then show ?thesis using assms(2) by (simp add: server_ok_def)
  next
    case (found i e fs r)
    then show ?thesis using engine_search_Inr(1,4)[OF found(7)] assms(2) by (auto simp: server_ok_def intro: feedback_ok_log)
  qed
next
  case (rpc_search header latency now q rg)
  from rpc_search show ?thesis
  proof (cases rule: grpc_call_cases)
    case (refused c)
    then show ?thesis using assms(2) by simp
  next
    case (called i)
    from called(3) show ?thesis
    proof (cases rule: grpc_search_cases)
      case (refused c)
      then show ?thesis using assms(2) by simp
    next
      case (found e fs a)
      then show ?thesis using engine_search_Inr(1,4)[OF found(3)] assms(2) by (auto simp: server_ok_def intro: feedback_ok_log)
    qed
  qed
next
  case (rpc_decide header approve now clock domain i rd)
  from rpc_decide show ?thesis
  proof (cases rule: grpc_call_cases)
    case (refused c)
    then show ?thesis using assms(2) by simp
  next
    case (called k)
    from called(3) show ?thesis
    proof (rule review_decide_db)
      fix d ra assume "s' = put_db d s" "approve_review X i (ak_label (authed k)) now clock (sv_db s) = (ra, d)"
      then show ?thesis using approve_keeps(1) assms(2) by (auto simp: server_ok_def)
    next
      fix d ri assume "s' = put_db d s" "ignore_review i (ak_label (authed k)) now (sv_db s) = (ri, d)"
      then show ?thesis using ignore_keeps(1) assms(2) by (auto simp: server_ok_def)
    qed
  qed
next
  case (build now sn c i force rb store)
  then show ?thesis using assms(2) build_keeps by (auto simp: server_ok_def)
next
  case (suggest domain ss ri d)
  then show ?thesis using assms(2) suggest_keeps(1) by (auto simp: server_ok_def)
next
  case (preflight V policy domain ctx dry now rp d)
  then show ?thesis using assms(2) preflight_keeps(1) by (auto simp: server_ok_def)
next
  case (kernel d)
  then show ?thesis using assms(2) kernel_keeps by (auto simp: server_ok_def)
next
  case (evict domain k)
  then show ?thesis using assms(2) by (simp add: server_ok_def)
qed

interpretation tables: server_invariant X C G lower server_ok for X C G lower
  by unfold_locales (rule server_ok_step)

lemma tenant_ok_step:
  assumes "server_step X C G lower s s'" "tenant_ok s" "server_ok s"
  shows "tenant_ok s'"
  using assms(1)
proof cases
  case (feedback t1 t2 rq rf)
  from feedback show ?thesis
    by (cases rule: serve_feedback_cases) (auto intro: tenant_ok_same[OF assms(2)] simp: unfed_def)
next
  case (http_search latency now header p rs)
  from http_search show ?thesis
  proof (cases rule: serve_search_cases)
    case (refused st c ra)
    then show ?thesis by (intro tenant_ok_same[OF assms(2)]) simp_all
  next
    case (found i e fs r)
    then show ?thesis using engine_search_domain(2)[OF found(7) _ found(4) assms(2)] by simp
  qed
next
  case (rpc_search header latency now q rg)
  from rpc_search show ?thesis
  proof (cases rule: grpc_call_cases)
    case (refused c)
    then show ?thesis using assms(2) by simp
  next
    case (called i)
    from called(3) show ?thesis
    proof (cases rule: grpc_search_cases)
      case (refused c)
      then show ?thesis using assms(2) by simp
    next
      case (found e fs a)
      then show ?thesis using engine_search_domain(2)[OF found(3) _ found(1) assms(2)] by simp
    qed
  qed
next
  case (rpc_decide header approve now clock domain i rd)
  from rpc_decide show ?thesis
  proof (cases rule: grpc_call_cases)
    case (refused c)
    then show ?thesis using assms(2) by simp
  next
    case (called k)
    have ok: "store_ok (sv_db s)" using assms(3) by (simp add: server_ok_def)
    from called(3) show ?thesis
      by (rule review_decide_db)
         (auto intro!: tenant_ok_same[OF assms(2)] simp: approve_keeps(2)[OF _ ok] ignore_keeps(2)[OF _ ok])
  qed
next
  case (build now sn c i force rb store)
  then show ?thesis using build_keeps(2) by (intro tenant_ok_same[OF assms(2)]) auto
next
  case (suggest domain ss ri d)
  then show ?thesis using suggest_keeps(2) assms(3) by (intro tenant_ok_same[OF assms(2)]) (auto simp: server_ok_def)
next
  case (preflight V policy domain ctx dry now rp d)
  then show ?thesis using preflight_keeps(2) assms(3) by (intro tenant_ok_same[OF assms(2)]) (auto simp: server_ok_def)
next
  case (kernel d)
  then show ?thesis using assms(2) by (auto simp: tenant_ok_def)
next
  case (evict domain k)
  then show ?thesis using assms(2) by (auto simp: tenant_ok_def)
qed

interpretation tenants: server_invariant X C G lower "\<lambda>s. server_ok s \<and> tenant_ok s" for X C G lower
  by unfold_locales (blast intro: tenant_ok_step server_ok_step)

end
