(* ===== verification/Server_Props.thy ===== *)
theory Server_Props
  imports Server_Runs
begin

text \<open>
  Properties of the server: who may store feedback, whose pages a search answers, what the review service
  commits, the keys a configuration gives, and the tables under every request.
\<close>

section \<open>A small server\<close>

definition tea_key :: key_identity where
  "tea_key = \<lparr>ki_domain = ''tea'', ki_label = ''l'', ki_methods = {''search'', ''review''}\<rparr>"

definition tea_engine :: engine where "tea_engine = milk_engine\<lparr>en_collection := ''tea''\<rparr>"

definition foreign_review :: review_row where
  "foreign_review = \<lparr>rv_id = 1, rv_domain = ''milk'', rv_action = QueryTemplate, rv_status = ReviewPending, rv_subject = ''{}'',
     rv_reason = ''{}'', rv_created = 0, rv_task = None, rv_logs = ''[]'', rv_reviewed = None, rv_reviewer = None\<rparr>"

definition tea_db :: db where
  "tea_db = empty_db\<lparr>db_pages := [tea_page], db_reviews := [foreign_review], db_review_seq := 1,
     db_generations := [\<lparr>g_generation = 1, g_pack = ''tea'', g_version = ''1'', g_published = True, g_created = 0\<rparr>], db_gen_seq := 1\<rparr>"

definition tea_log :: query_log where "tea_log = demo_log\<lparr>ql_domain := ''tea''\<rparr>"

definition tea_server :: server where
  "tea_server = new_server (\<lambda>k. if k = ''k'' then Some tea_key else None)
     (\<lambda>d. if d = ''tea'' then Some (tea_engine, plain_env) else None)
     \<lparr>qt_db = tea_db, qt_builds = [], qt_build_seq = 0, qt_snapshots = [], qt_intents = []\<rparr>
     (demo_feedback\<lparr>fb_logs := [tea_log]\<rparr>) 1"

definition tea_codec :: server_codec where
  "tea_codec = \<lparr>vc_members = (\<lambda>_. Some [(''tea'', JNull)]), vc_key_value = (\<lambda>_. Some (''k'', [''search''])),
     vc_request = (\<lambda>_. Some (''tea'', [JNull])),
     vc_event = (\<lambda>_. Some \<lparr>ed_key = ''e'', ed_log = 1, ed_kind = Rate, ed_page = None, ed_rating = Some 4, ed_metadata = JObj []\<rparr>),
     vc_filters = (\<lambda>_. None)\<rparr>"

definition tea_header :: "string option" where "tea_header = Some (bearer_prefix @ ''k'')"

lemma tea_bearer: "bearer tea_server tea_header tea_key"
  by (simp add: bearer_def tea_header_def tea_server_def new_server_def)

section \<open>Feedback\<close>

lemma check_event_page: "check_event X C domain raw = Inr i \<Longrightarrow> fi_kind i \<noteq> Rate \<Longrightarrow> fi_page i \<noteq> None"
  by (auto simp: check_event_def event_kind_ok_def char_count_def Let_def split: option.splits if_splits feedback_kind.splits)

lemma check_events_page: "check_events X C domain raws = Inr is \<Longrightarrow> i \<in> set is \<Longrightarrow> fi_kind i \<noteq> Rate \<Longrightarrow> fi_page i \<noteq> None"
  by (induction raws arbitrary: "is") (auto split: sum.splits dest: check_event_page)

lemma known_page:
  assumes "check_events X C domain raws = Inr is" "pages_known domain d is" "i \<in> set is" "fi_kind i \<noteq> Rate"
  shows "\<exists>p. fi_page i = Some p \<and> page_exists domain p d"
proof -
  obtain p where p: "fi_page i = Some p" using check_events_page[OF assms(1,3,4)] by blast
  then have "page_reference i = Some p" using assms(4) by (cases "fi_kind i") (simp_all add: page_reference_def)
  then show ?thesis using assms(2,3) p by (auto simp: pages_known_def list_all_iff dest!: bspec)
qed

text \<open>C21. Feedback is stored only for the key's own domain. A request is answered with success only when its bearer secret is a
  configured key, its body within the limit names that key's domain, and the rate limiter granted it; the events it adds
  are of that domain and of logged queries of that domain, and its clicks and adoptions refer to accepted pages of
  that domain (the page of a rating is optional and is not checked); every acknowledged event is stored as it is
  acknowledged; and a refused request stores none.\<close>

theorem feedback_authorized:
  assumes "serve_feedback X C t1 t2 rq s = (resp, s')"
  shows "sv_store s' = sv_store s \<and> (case resp of
      Refused st c ra \<Rightarrow> fb_events (sv_feedback s') = fb_events (sv_feedback s)
    | Answered out \<Rightarrow> \<exists>i body events new. bearer s (hq_auth rq) i \<and> hq_body rq = Some body \<and> length body \<le> max_body_bytes
        \<and> vc_request C body = Some (ki_domain i, events) \<and> events \<noteq> [] \<and> length events \<le> max_events
        \<and> fst (try_acquire (ki_domain i) (ki_label i) t1 (sv_limiter s)) = Inr ()
        \<and> ig_domain out = ki_domain i \<and> length (ig_events out) = length events \<and> ig_accepted out = length events
        \<and> fb_events (sv_feedback s') = fb_events (sv_feedback s) @ new
        \<and> (\<forall>e\<in>set new. fe_domain e = ki_domain i \<and> fe_received e = t2
             \<and> (\<exists>l\<in>set (fb_logs (sv_feedback s)). ql_id l = fe_log e \<and> ql_domain l = ki_domain i)
             \<and> (fe_kind e \<noteq> Rate \<longrightarrow> (\<exists>p. fe_page e = Some p \<and> page_exists (ki_domain i) p (sv_db s))))
        \<and> (\<forall>a\<in>set (ig_events out). \<exists>e\<in>set (fb_events (sv_feedback s')).
             fe_domain e = ki_domain i \<and> fe_key e = ea_key a \<and> fe_id e = ea_event a \<and> fe_received e = ea_received a))"
  using assms
proof (cases rule: serve_feedback_cases)
  case (refused st c ra)
  then show ?thesis by (simp add: unfed_def events_same_def)
next
  case (stored i body events "is" rows)
  note dom = check_events_Inr[OF stored(8)]
  then have "is \<noteq> []" using stored(6) by auto
  then have "insert_events_on X is t2 (sv_feedback s) = Inr (rows, sv_feedback s')"
    using stored(12) by (auto simp: insert_feedback_batch_idempotent_def immediate_transaction_def split: sum.splits if_splits)
  note eff = insert_events_effect[OF this]
  obtain new where new: "fb_events (sv_feedback s') = fb_events (sv_feedback s) @ new"
    "\<forall>e\<in>set new. taken_in X t2 (fb_logs (sv_feedback s)) is e" using eff by blast
  have events: "fe_domain e = ki_domain i \<and> fe_received e = t2
             \<and> (\<exists>l\<in>set (fb_logs (sv_feedback s)). ql_id l = fe_log e \<and> ql_domain l = ki_domain i)
             \<and> (fe_kind e \<noteq> Rate \<longrightarrow> (\<exists>p. fe_page e = Some p \<and> page_exists (ki_domain i) p (sv_db s)))" if e: "e \<in> set new" for e
  proof -
    obtain f where f: "f \<in> set is" "e = new_event X f t2 (fe_id e)"
      "\<exists>l\<in>set (fb_logs (sv_feedback s)). ql_id l = fi_log f \<and> ql_domain l = fi_domain f" using new(2) e unfolding taken_in_def by blast
    have "fe_domain e = fi_domain f" "fe_received e = t2" "fe_log e = fi_log f" "fe_kind e = fi_kind f" "fe_page e = fi_page f"
      by (subst f(2), simp add: new_event_def)+
    then show ?thesis using f(1,3) dom known_page[OF stored(8,9) f(1)] by auto
  qed
  have acks: "\<exists>e\<in>set (fb_events (sv_feedback s')). fe_domain e = ki_domain i \<and> fe_key e = ea_key a \<and> fe_id e = ea_event a \<and> fe_received e = ea_received a"
    if mem: "a \<in> set (map ack_of (zip rows is))" for a
  proof -
    obtain q where "q \<in> set (zip rows is)" "a = ack_of q" using mem unfolding set_map by blast
    then obtain r f where rf: "(r, f) \<in> set (zip rows is)" "a = ack_of (r, f)" by (metis prod.collapse)
    then have "stored_for (sv_feedback s') r f" "fi_domain f = ki_domain i"
      using eff dom by (auto dest: set_zip_rightD)
    then show ?thesis by (auto simp: stored_for_def event_key_def rf(2) ack_of_def)
  qed
  have len: "length rows = length events" using eff dom by simp
  show ?thesis
    unfolding stored(10) response.case
    by (intro conjI exI[of _ i] exI[of _ body] exI[of _ events] exI[of _ new])
       (use stored(1-7,11) len dom new(1) events acks in \<open>simp_all add: unfed_def\<close>)
qed

lemma tea_fed:
  "\<exists>s'. serve_feedback sample_ext tea_codec 0 7 \<lparr>hq_auth = tea_header, hq_length = None, hq_body = Some ''x''\<rparr> tea_server
     = (Answered \<lparr>ig_domain = ''tea'', ig_events = [\<lparr>ea_key = ''e'', ea_event = 1, ea_replayed = False, ea_received = 7\<rparr>], ig_accepted = 1\<rparr>, s')"
proof -
  have auth: "authenticate (sv_keys tea_server) tea_header = Some tea_key" using tea_bearer authenticate_Some by simp
  have acq: "try_acquire ''tea'' ''l'' 0 (sv_limiter tea_server) = (Inr (), snd (try_acquire ''tea'' ''l'' 0 (sv_limiter tea_server)))"
    by (simp add: try_acquire_def tea_server_def new_server_def limiter_new_def Let_def)
  let ?i = "\<lparr>fi_key = ''e'', fi_domain = ''tea'', fi_log = 1, fi_kind = Rate, fi_page = None, fi_rating = Some 4, fi_metadata = JObj []\<rparr>"
  have ev: "check_events sample_ext tea_codec ''tea'' [JNull] = Inr [?i]"
    by (simp add: check_event_def tea_codec_def event_kind_ok_def char_count_def scalar_at_def tail_len_def is_control_def
        max_key_chars_def is_object_def max_metadata_bytes_def)
  have known: "pages_known ''tea'' (sv_db tea_server) [?i]" by (simp add: pages_known_def page_reference_def)
  have fb: "sv_feedback (tea_server\<lparr>sv_limiter := l\<rparr>) = demo_feedback\<lparr>fb_logs := [tea_log]\<rparr>" for l by (simp add: tea_server_def new_server_def)
  have ins: "\<exists>fb'. insert_feedback_batch_idempotent sample_ext [?i] 7 (demo_feedback\<lparr>fb_logs := [tea_log]\<rparr>)
     = (Inr [\<lparr>in_event = 1, in_replayed = False, in_received = 7\<rparr>], fb')"
    by (simp add: insert_feedback_batch_idempotent_def validate_feedback_input_def char_count_def scalar_at_def tail_len_def
      max_key_chars_def max_domain_chars_def ascii_graphic_def is_object_def max_metadata_bytes_def
      immediate_transaction_def insert_event_on_def sql_first_def sql_insert_ignore_def sql_exists_def demo_feedback_defs tea_log_def)
  have "\<exists>s'. ingest sample_ext tea_codec ''tea'' [JNull] 1 7 (tea_server\<lparr>sv_limiter := l\<rparr>)
     = (Answered \<lparr>ig_domain = ''tea'', ig_events = [\<lparr>ea_key = ''e'', ea_event = 1, ea_replayed = False, ea_received = 7\<rparr>], ig_accepted = 1\<rparr>, s')" for l
  proof -
    obtain fb' where "insert_feedback_batch_idempotent sample_ext [?i] 7 (demo_feedback\<lparr>fb_logs := [tea_log]\<rparr>)
     = (Inr [\<lparr>in_event = 1, in_replayed = False, in_received = 7\<rparr>], fb')" using ins by blast
    moreover have "pages_known ''tea'' (sv_db (tea_server\<lparr>sv_limiter := l\<rparr>)) [?i]" using known by simp
    ultimately show ?thesis by (simp add: ingest_def max_events_def ev store_batch_def fb Let_def ack_of_def del: check_events.simps)
  qed
  then obtain s' where "ingest sample_ext tea_codec ''tea'' [JNull] 1 7 (snd (Inr (), tea_server\<lparr>sv_limiter := snd (try_acquire ''tea'' ''l'' 0 (sv_limiter tea_server))\<rparr>))
     = (Answered \<lparr>ig_domain = ''tea'', ig_events = [\<lparr>ea_key = ''e'', ea_event = 1, ea_replayed = False, ea_received = 7\<rparr>], ig_accepted = 1\<rparr>, s')"
    by auto
  moreover have "post_feedback sample_ext tea_codec 0 7 ''x'' (authed tea_key) tea_server
      = ingest sample_ext tea_codec ''tea'' [JNull] 1 7 (tea_server\<lparr>sv_limiter := snd (try_acquire ''tea'' ''l'' 0 (sv_limiter tea_server))\<rparr>)"
    using acq by (cases "try_acquire ''tea'' ''l'' 0 (sv_limiter tea_server)") (simp add: post_feedback_def tea_codec_def authed_def tea_key_def)
  ultimately show ?thesis
    by (simp add: serve_feedback_def body_limit_middleware_def over_declared_def max_body_bytes_def auth_middleware_def auth)
qed

theorem feedback_authorized_witness:
  "\<exists>s'::server. sv_store s' = sv_store tea_server \<and> bearer tea_server tea_header tea_key
     \<and> (\<exists>e\<in>set (fb_events (sv_feedback s')). fe_domain e = ''tea'' \<and> fe_key e = ''e'' \<and> fe_id e = 1 \<and> fe_received e = 7)"
proof -
  obtain s' where s: "serve_feedback sample_ext tea_codec 0 7 \<lparr>hq_auth = tea_header, hq_length = None, hq_body = Some ''x''\<rparr> tea_server
     = (Answered \<lparr>ig_domain = ''tea'', ig_events = [\<lparr>ea_key = ''e'', ea_event = 1, ea_replayed = False, ea_received = 7\<rparr>], ig_accepted = 1\<rparr>, s')"
    using tea_fed by blast
  have "\<exists>e\<in>set (fb_events (sv_feedback s')). fe_domain e = ''tea'' \<and> fe_key e = ''e'' \<and> fe_id e = 1 \<and> fe_received e = 7"
    using feedback_authorized[OF s] by force
  moreover have "sv_store s' = sv_store tea_server" using feedback_authorized[OF s] by blast
  ultimately show ?thesis using tea_bearer by blast
qed

section \<open>Search\<close>

text \<open>
  C22. Over HTTP a search is answered for the caller's own domain. Whatever requests, decisions, builds, preflights, kernel steps
  (which publish pages of well-formed entities) and evictions came before, an answer is given only to a bearer of a
  configured key that permits searching, for that key's own domain, by the engine of that domain; every hit is an
  entity of that domain, unless vectors are on and the vector store itself answered that entity for the collection
  of that domain: the code takes the entity of a vector from its payload and does not compare its domain. The
  store is untouched, and one query log of that domain is added. A refusal logs nothing. At the start every engine's
  collection is named after its domain, its cache holds only such hits and every page is filed under its entity's
  domain; SQLite sorts rows without adding any.
\<close>

theorem search_within_tenant:
  assumes "server_later X C G lower s0 s" "server_ok s0" "tenant_ok s0" "serve_search X C latency now header p s = (resp, s')"
  shows "sv_store s' = sv_store s \<and> (case resp of
      Refused st c ra \<Rightarrow> sv_feedback s' = sv_feedback s
    | Answered r \<Rightarrow> \<exists>i en E. bearer s header i \<and> ''search'' \<in> ki_methods i \<and> sp_domain p = ki_domain i
        \<and> sv_engines s (ki_domain i) = Some (en, E)
        \<and> (\<forall>h\<in>set (qr_hits r). eid_domain (sh_entity h) = ki_domain i \<or>
             \<not> en_fts_only en \<and> (\<exists>vec k ids vs v. sx_vectors E (ki_domain i) vec k ids = Inr vs \<and> v \<in> set vs
               \<and> from_key (vh_entity v) = Inr (sh_entity h)))
        \<and> (\<exists>l. ql_domain l = ki_domain i \<and> sv_feedback s' = (sv_feedback s)\<lparr>fb_logs := fb_logs (sv_feedback s) @ [l]\<rparr>))"
proof -
  have ok: "tenant_ok s" using tenants.always[OF assms(1)] assms(2,3) by blast
  from assms(4) show ?thesis
  proof (cases rule: serve_search_cases)
    case (refused st c ra)
    then show ?thesis by simp
  next
    case (found i e fs r)
    have "hits_of (ki_domain i) e (qr_hits r)" using engine_search_domain(1)[OF found(7) _ found(4) ok] by simp
    then have hits: "\<forall>h\<in>set (qr_hits r). eid_domain (sh_entity h) = ki_domain i \<or>
        \<not> en_fts_only (fst e) \<and> (\<exists>vec k ids vs v. sx_vectors (snd e) (ki_domain i) vec k ids = Inr vs \<and> v \<in> set vs
          \<and> from_key (vh_entity v) = Inr (sh_entity h))"
      unfolding hits_of_def vector_answer_def by blast
    have e: "sv_engines s (ki_domain i) = Some (fst e, snd e)" using found(4) by simp
    show ?thesis
      using found(1-3) e hits engine_search_Inr(1,4)[OF found(7)] unfolding found(6) response.case by fastforce
  qed
qed

lemma tea_page_filed: "filed tea_page"
  by (simp add: filed_def tea_page_def from_key_def numeral_3_eq_3 entity_id_new_def entity_component_ok_def)

lemma tea_server_ok: "server_ok tea_server" "tenant_ok tea_server"
proof -
  have "queue_ok tea_db"
    using queue_ok_same[OF queue_ok_empty, of tea_db] by (simp add: same_queue_def tea_db_def)
  moreover have "reviews_ok tea_db"
    by (auto simp: reviews_ok_def keyed_def tea_db_def foreign_review_def review_key_def)
  moreover have "pages_ok tea_db"
    by (auto simp: pages_ok_def keyed_def tea_db_def tea_page_def empty_db_def)
  ultimately have "store_ok tea_db" by (simp add: store_ok_def)
  moreover have "feedback_ok (demo_feedback\<lparr>fb_logs := [tea_log]\<rparr>)"
    by (simp add: feedback_ok_def keyed_def demo_feedback_defs)
  moreover have "builds_ok (sv_store tea_server)" by (simp add: builds_ok_def tea_server_def new_server_def)
  ultimately show "server_ok tea_server" by (simp add: server_ok_def tea_server_def new_server_def)
  show "tenant_ok tea_server"
    using tea_page_filed
    by (simp add: tenant_ok_def tea_server_def new_server_def engine_law_def tea_engine_def milk_engine_def plain_env_def tea_db_def)
qed

lemma tea_answer:
  "\<exists>r s'. serve_search numbering_ext tea_codec 1 2 tea_header \<lparr>sp_q = [], sp_domain = ''tea'', sp_top_k = 10, sp_filters = None\<rparr> tea_server
     = (Answered r, s') \<and> qr_hits r = [tea_hit]"
proof -
  let ?q = "any_query\<lparr>q_domain := Some ''tea''\<rparr>"
  have auth: "authenticate (sv_keys tea_server) tea_header = Some tea_key" using tea_bearer authenticate_Some by simp
  have pages: "db_pages tea_db = [tea_page]" by (simp add: tea_db_def)
  have view: "sv_db tea_server = tea_db" "ec_cache (sv_caches tea_server d) k = None" for d k
    by (simp_all add: tea_server_def new_server_def)
  obtain c where c: "fresh_search plain_env tea_engine ?q tea_db = Inr c" "ch_hits c = [tea_hit]"
    using tea_found_in[of "Some ''tea''", OF _ pages] unfolding tea_engine_def by blast
  have "query_validate ?q = Inr ()" by (simp add: any_query_def query_validate_def)
  then have "\<exists>r v. search numbering_ext plain_env tea_engine ?q 1 2 (search_view ''tea'' tea_server) = (Inr r, v) \<and> qr_hits r = [tea_hit]"
    using c by (simp add: search_def view answer_def log_query_def Let_def)
  then obtain r v where "search numbering_ext plain_env tea_engine ?q 1 2 (search_view ''tea'' tea_server) = (Inr r, v)" "qr_hits r = [tea_hit]"
    by blast
  moreover have "?q = \<lparr>q_text = [], q_filters = [], q_top_k = 10, q_domain = Some ''tea''\<rparr>" by (simp add: any_query_def)
  moreover have "engine_for ''tea'' tea_server = Some (tea_engine, plain_env)" by (simp add: engine_for_def tea_server_def new_server_def)
  ultimately show ?thesis
    by (simp add: serve_search_def auth_middleware_def auth http_search_def authorize_method_def authed_def tea_key_def parse_filter_text_def
        engine_search_def)
qed

theorem search_within_tenant_witness:
  "\<exists>r s'. serve_search numbering_ext tea_codec 1 2 tea_header \<lparr>sp_q = [], sp_domain = ''tea'', sp_top_k = 10, sp_filters = None\<rparr> tea_server
     = (Answered r, s') \<and> qr_hits r = [tea_hit] \<and> eid_domain (sh_entity tea_hit) = ''tea''
     \<and> (\<exists>l. ql_domain l = ''tea'' \<and> fb_logs (sv_feedback s') = [tea_log, l])"
proof -
  obtain r s' where s: "serve_search numbering_ext tea_codec 1 2 tea_header \<lparr>sp_q = [], sp_domain = ''tea'', sp_top_k = 10, sp_filters = None\<rparr> tea_server
     = (Answered r, s')" "qr_hits r = [tea_hit]" using tea_answer by blast
  have logs: "fb_logs (sv_feedback tea_server) = [tea_log]" by (simp add: tea_server_def new_server_def)
  show ?thesis
    using search_within_tenant[OF server_later.now tea_server_ok s(1)] s logs by (auto simp: tea_hit_def)
qed

section \<open>Reviews\<close>

lemma ignore_decides:
  assumes "reviews_ok d" "v \<in> set (db_reviews d)" "rv_status v = ReviewPending" "validate_reviewer reviewer = Inr ()"
  shows "ignore_review (rv_id v) reviewer now d
    = (Inr (), d\<lparr>db_reviews := sql_update (\<lambda>r. rv_id r = rv_id v) (review_set ReviewIgnored now reviewer None) (db_reviews d)\<rparr>)"
proof -
  have k: "keyed rv_id (db_reviews d)" using assms(1) by (simp add: reviews_ok_def)
  have pending: "(rv_id r = rv_id v \<and> rv_status r = ReviewPending) = (rv_id r = rv_id v)" if "r \<in> set (db_reviews d)" for r
    using keyed_unique[OF k that assms(2)] assms(3) by blast
  have "find_review (rv_id v) d = Some v" using sql_first_keyed[OF k assms(2)] by (simp add: find_review_def)
  moreover have "sql_count (\<lambda>r. rv_id r = rv_id v) (db_reviews d) = 1"
    using keyed_count_le_1[OF k, of "\<lambda>r. rv_id r = rv_id v" "rv_id v"] sql_count_pos_iff[of "\<lambda>r. rv_id r = rv_id v" "db_reviews d"] assms(2)
    by fastforce
  moreover have "sql_count (\<lambda>r. rv_id r = rv_id v \<and> rv_status r = ReviewPending) (db_reviews d) = sql_count (\<lambda>r. rv_id r = rv_id v) (db_reviews d)"
    using pending by (simp add: sql_count_def cong: filter_cong)
  moreover have "sql_update (\<lambda>r. rv_id r = rv_id v \<and> rv_status r = ReviewPending) f (db_reviews d)
      = sql_update (\<lambda>r. rv_id r = rv_id v) f (db_reviews d)" for f
    using pending by (auto simp: sql_update_def)
  ultimately show ?thesis
    using assms(3,4) by (simp add: ignore_review_def immediate_transaction_def ignore_in_transaction_def decide_review_def)
qed

lemma load_one_domain: "load_one domain i d = Inr r \<Longrightarrow> r \<in> set (db_reviews d) \<and> rv_id r = i \<and> rv_domain r = domain"
  by (auto simp: load_one_def list_reviews_def ok_or_def split: if_splits option.splits dest!: find_SomeD in_set_takeD)

lemma load_one_error: "load_one domain i d = Inl e \<Longrightarrow> e = Validation"
  by (auto simp: load_one_def list_reviews_def ok_or_def max_review_limit_def split: if_splits option.splits)

text \<open>
  C23. A decision over gRPC crosses tenants. Whatever domain the key is of, a bearer of any key that permits reviewing
  decides any pending review: ignoring it is committed, under the label of the foreign key, and neither the domain of
  the key nor the domain named in the request is compared with the review's. When the request names another domain
  than the review's, the caller is told that its argument is invalid although the decision stands; when it
  names the review's, the caller is given the decided review, or the same error.
\<close>

theorem decision_crosses_domains:
  assumes "server_ok s" "bearer s header k" "''review'' \<in> ki_methods k" "validate_reviewer (ki_label k) = Inr ()"
    "v \<in> set (db_reviews (sv_db s))" "rv_status v = ReviewPending"
    "grpc_call ''review'' header (review_decide X False now clock domain (rv_id v)) s = (r, s')"
  shows "db_reviews (sv_db s') = sql_update (\<lambda>r. rv_id r = rv_id v) (review_set ReviewIgnored now (ki_label k) None) (db_reviews (sv_db s))
    \<and> review_set ReviewIgnored now (ki_label k) None v \<in> set (db_reviews (sv_db s'))
    \<and> (rv_domain v \<noteq> domain \<longrightarrow> r = Inl GInvalidArgument)
    \<and> (r = Inl GInvalidArgument \<or> r = Inr (review_set ReviewIgnored now (ki_label k) None v))"
proof -
  let ?f = "review_set ReviewIgnored now (ki_label k) None"
  let ?d = "(sv_db s)\<lparr>db_reviews := sql_update (\<lambda>r. rv_id r = rv_id v) ?f (db_reviews (sv_db s))\<rparr>"
  have ok: "reviews_ok (sv_db s)" using assms(1) by (simp add: server_ok_def store_ok_def)
  then have key: "keyed rv_id (db_reviews (sv_db s))" by (simp add: reviews_ok_def)
  have one: "b = k" if "bearer s header b" for b using assms(2) that by (auto simp: bearer_def)
  from assms(7) have "review_decide X False now clock domain (rv_id v) (authed k) s = (r, s')"
  proof (cases rule: grpc_call_cases)
    case (refused c)
    then show ?thesis using assms(2,3) by blast
  next
    case (called i)
    then show ?thesis using one by blast
  qed
  then have run: "r = grpc_result (load_one domain (rv_id v) ?d)" "sv_db s' = ?d"
    using ignore_decides[OF ok assms(5,6,4)] by (auto simp: review_decide_def authed_def)
  have in': "?f v \<in> set (db_reviews ?d)" using assms(5) by (auto simp: set_sql_update)
  have same: "w = ?f v" if w: "w \<in> set (db_reviews ?d)" "rv_id w = rv_id v" for w
  proof -
    obtain w0 where w0: "w0 \<in> set (db_reviews (sv_db s))" "w = (if rv_id w0 = rv_id v then ?f w0 else w0)"
      using w(1) by (auto simp: set_sql_update)
    then have "rv_id w0 = rv_id v" using w(2) by (simp add: review_set_def split: if_splits)
    then show ?thesis using keyed_unique[OF key w0(1) assms(5)] w0(2) by simp
  qed
  show ?thesis
  proof (cases "load_one domain (rv_id v) ?d")
    case (Inl e)
    then show ?thesis using run in' load_one_error[OF Inl] by (simp add: grpc_result_def grpc_status_def)
  next
    case (Inr w)
    then have "w = ?f v" "rv_domain w = domain" using load_one_domain[OF Inr] same by blast+
    then have "rv_domain v = domain" by (simp add: review_set_def)
    then show ?thesis using run in' Inr \<open>w = ?f v\<close> by (simp add: grpc_result_def)
  qed
qed

theorem decision_crosses_domains_witness:
  "\<exists>s'. snd (grpc_call ''review'' tea_header (review_decide sample_ext False 5 5 ''tea'' 1) tea_server) = s' \<and> ki_domain tea_key = ''tea''
     \<and> rv_domain foreign_review = ''milk'' \<and> review_set ReviewIgnored 5 ''l'' None foreign_review \<in> set (db_reviews (sv_db s'))
     \<and> fst (grpc_call ''review'' tea_header (review_decide sample_ext False 5 5 ''tea'' 1) tea_server) = Inl GInvalidArgument"
proof -
  have k: "''review'' \<in> ki_methods tea_key" "validate_reviewer (ki_label tea_key) = Inr ()"
    by (simp_all add: tea_key_def validate_reviewer_def char_count_def scalar_at_def tail_len_def max_reviewer_chars_def)
  have v: "foreign_review \<in> set (db_reviews (sv_db tea_server))" "rv_status foreign_review = ReviewPending"
    by (simp_all add: tea_server_def new_server_def tea_db_def foreign_review_def)
  obtain r s' where c: "grpc_call ''review'' tea_header (review_decide sample_ext False 5 5 ''tea'' (rv_id foreign_review)) tea_server = (r, s')"
    by fastforce
  have "rv_id foreign_review = 1" "rv_domain foreign_review = ''milk''" "ki_label tea_key = ''l''" "ki_domain tea_key = ''tea''"
    by (simp_all add: foreign_review_def tea_key_def)
  then show ?thesis using conjunct2[OF decision_crosses_domains[OF tea_server_ok(1) tea_bearer k v c]] c by simp
qed

section \<open>The tables\<close>

text \<open>
  C24. The tables stay well formed under every request. In whatever order feedback, searches, decisions, builds, suggestions,
  evictions and compile requests come (these are sequences of kernel steps, which publish pages of well-formed
  entities, and of compatibility preflights), and whatever policy an approval reads back from a stored task: leases and
  attempts agree, reviews and generations are keyed and below their sequences, every accepted page is of a published
  generation, every event is stored once with a valid content, and at most one build of a domain and version is published.
\<close>

theorem server_well_formed:
  assumes "server_later X C G lower s0 s" "server_ok s0"
  shows "queue_ok (sv_db s) \<and> reviews_ok (sv_db s) \<and> pages_ok (sv_db s) \<and> feedback_ok (sv_feedback s) \<and> builds_ok (sv_store s)"
  using tables.always[OF assms] by (simp add: server_ok_def store_ok_def)

theorem server_well_formed_witness:
  "\<exists>s. db_reviews (sv_db s) = [review_set ReviewIgnored 5 ''l'' None foreign_review] \<and> queue_ok (sv_db s) \<and> reviews_ok (sv_db s)"
proof -
  let ?c = "grpc_call ''review'' tea_header (review_decide sample_ext False 5 5 ''tea'' 1) tea_server"
  obtain r s where c: "?c = (r, s)" by fastforce
  have "authenticate (sv_keys tea_server) tea_header = Some tea_key" using tea_bearer authenticate_Some by simp
  have v: "foreign_review \<in> set (db_reviews (sv_db tea_server))" "rv_status foreign_review = ReviewPending" "rv_id foreign_review = 1"
    by (simp_all add: tea_server_def new_server_def tea_db_def foreign_review_def)
  have l: "validate_reviewer ''l'' = Inr ()"
    by (simp add: validate_reviewer_def char_count_def scalar_at_def tail_len_def max_reviewer_chars_def)
  have ok: "reviews_ok (sv_db tea_server)" using tea_server_ok(1) by (simp add: server_ok_def store_ok_def)
  have "grpc_interceptor (sv_keys tea_server) ''review'' tea_header = Inr (authed tea_key)"
    unfolding interceptor_Inr using tea_bearer by (intro exI[of _ tea_key]) (simp add: tea_key_def)
  then have "s = put_db ((sv_db tea_server)\<lparr>db_reviews := sql_update (\<lambda>r. rv_id r = 1) (review_set ReviewIgnored 5 ''l'' None) (db_reviews (sv_db tea_server))\<rparr>) tea_server"
    using c ignore_decides[OF ok v(1,2) l, unfolded v(3), of 5] by (simp add: grpc_call_def review_decide_def authed_def tea_key_def)
  then have rows: "db_reviews (sv_db s) = [review_set ReviewIgnored 5 ''l'' None foreign_review]"
    by (simp add: tea_server_def new_server_def tea_db_def sql_update_def v(3))
  from server_step.rpc_decide[OF c] have "server_later sample_ext tea_codec G lower tea_server s" for G lower
    by (rule server_later.next_step[OF server_later.now])
  from server_well_formed[OF this tea_server_ok(1)] rows show ?thesis by blast
qed

section \<open>The resident worker\<close>

lemma worker_run_inject: "0 \<le> a \<Longrightarrow> 0 \<le> b \<Longrightarrow> worker_run a = worker_run b \<longleftrightarrow> a = b"
  by (auto simp: worker_run_def seconds_text_def nat_text_inject)

lemma transaction_answer: "fst (immediate_transaction f d) = map_sum id fst (f d)"
  by (auto simp: immediate_transaction_def split: sum.split)

lemma grant_lease_runs:
  "map_sum id fst (grant_lease t src deps b run token now (d\<lparr>db_runs := rs\<rparr>)) = map_sum id fst (grant_lease t src deps b run token now d)"
  by (auto simp: grant_lease_def insert_attempt_def reserve_tokens_def ok_or_def Let_def split: option.split)

lemma grant_lease_day_runs:
  "map_sum id fst (grant_lease t src deps b run token now (open_day day daily (open_run run limit now (d\<lparr>db_runs := []\<rparr>))))
   = map_sum id fst (grant_lease t src deps b run token now (open_day day daily (open_run run limit now d)))"
proof -
  have "open_day day daily (open_run run limit now (d\<lparr>db_runs := []\<rparr>))
      = (open_day day daily (open_run run limit now d))\<lparr>db_runs := db_runs (open_run run limit now (d\<lparr>db_runs := []\<rparr>))\<rparr>"
    by (simp add: open_day_def open_run_def split: option.split)
  then show ?thesis by (simp only: grant_lease_runs)
qed

lemma find_run_opened:
  assumes "\<forall>r\<in>set (db_runs d). r_id r \<noteq> run"
  shows "find_run run (open_run run limit now d) = Some \<lparr>r_id = run, r_limit = limit, r_reserved = 0, r_created = now\<rparr>"
proof -
  have "sql_first P (xs @ [x]) = Some x" if "\<forall>y\<in>set xs. \<not> P y" "P x" for P xs and x :: run_row
    using that by (induction xs) (simp_all add: sql_first_def)
  then show ?thesis using assms by (auto simp: find_run_def open_run_def sql_insert_ignore_def sql_exists_iff)
qed

lemma map_try_bind: "map_sum id g (try_bind r f) = try_bind r (\<lambda>x. map_sum id g (f x))"
  by (cases r) simp_all

text \<open>
  C27. The token budget of a run does not bind the resident worker. It books every claim under a run of its own second, so
  unless a claim was made in the same second, the answer of a claim is the one it would give on a store in which no run
  ever reserved a token: which task is leased, or that none is, does not depend on what the worker spent before.
\<close>

theorem run_budget_forgotten:
  assumes "\<forall>r\<in>set (db_runs d). r_id r \<noteq> worker_run now"
  shows "fst (claim_compile X ids (worker_run now) token now d) = fst (claim_compile X ids (worker_run now) token now (d\<lparr>db_runs := []\<rparr>))
    \<and> (\<forall>t. 0 \<le> t \<and> 0 \<le> now \<longrightarrow> worker_run t = worker_run now \<longrightarrow> t = now)"
proof -
  let ?d = "d\<lparr>db_runs := []\<rparr>"
  note rows = find_run_opened[OF assms] find_run_opened[of ?d "worker_run now"]
  have next': "claim_next ids now ?d = claim_next ids now d" by (simp add: claim_next_def)
  have days: "find_day day (open_day day daily (open_run (worker_run now) limit now ?d))
      = find_day day (open_day day daily (open_run (worker_run now) limit now d))" for day daily limit
    by (simp add: find_day_def open_day_def open_run_def split: option.split)
  have "map_sum id fst (claim_in_transaction X ids (worker_run now) token now d)
      = map_sum id fst (claim_in_transaction X ids (worker_run now) token now ?d)"
    unfolding claim_in_transaction_def next'
    by (auto simp: rows days grant_lease_day_runs ok_or_def Let_def map_try_bind if_distrib[of "map_sum id fst"]
        cong: if_cong split: option.split)
  then show ?thesis by (auto simp: claim_compile_def transaction_answer worker_run_inject)
qed

lemma demo_claim_run: "fst (claim_compile sample_ext [1] run ''tok'' 10 demo_admitted) = Inr (Some demo_lease)"
proof -
  have first: "claim_next [1] 10 demo_admitted = Some demo_task"
    by (simp add: claim_next_def sql_first_by_def claimable_def demo_admitted_fields demo_task_fields)
  have est: "estimate_budget_units ''prompt'' ''source'' 2048 = Inr 2316"
    by (simp add: estimate_budget_units_def as_i64_cast_def i64_max_def i64_min_def checked_add_def)
  have fit: "fits 0 2316 65536 = Inr True" "fits 0 2316 262144 = Inr True"
    by (simp_all add: fits_Ok i64_max_def i64_min_def)
  let ?d1 = "open_run run 262144 10 demo_admitted"
  have row: "find_run run ?d1 = Some \<lparr>r_id = run, r_limit = 262144, r_reserved = 0, r_created = 10\<rparr>"
    by (rule find_run_opened) (simp add: demo_admitted_fields)
  have day: "find_day 0 ?d1 = None" "open_day 0 None ?d1 = ?d1"
    by (simp_all add: open_run_def find_day_def open_day_def sql_first_def demo_admitted_fields)
  have "map_sum id fst (grant_lease demo_task demo_knowledge demo_deps 2316 run ''tok'' 10 ?d1) = Inr (Some demo_lease)"
    by (simp add: grant_lease_def insert_attempt_def reserve_tokens_def sql_exists_def sql_count_def sql_update_def
        update_tasks_def demo_admitted_fields demo_task_fields checked_add_def i64_max_def i64_min_def demo_lease_def
        reserve_task_def demo_values open_run_def ok_or_def)
  then show ?thesis
    by (simp add: claim_compile_def transaction_answer claim_in_transaction_def first ok_or_def Let_def demo_values
        demo_task_fields est fit row day sample_ext_def)
qed

theorem run_budget_forgotten_witness:
  "fst (claim_compile sample_ext [1] (worker_run 10) ''tok'' 10
     (demo_admitted\<lparr>db_runs := [\<lparr>r_id = worker_run 9, r_limit = 262144, r_reserved = 262144, r_created = 9\<rparr>]\<rparr>)) = Inr (Some demo_lease)"
proof -
  let ?d = "demo_admitted\<lparr>db_runs := [\<lparr>r_id = worker_run 9, r_limit = 262144, r_reserved = 262144, r_created = 9\<rparr>]\<rparr>"
  have other: "\<forall>r\<in>set (db_runs ?d). r_id r \<noteq> worker_run 10" by (simp add: worker_run_inject)
  have "?d\<lparr>db_runs := []\<rparr> = demo_admitted" by (simp add: demo_admitted_def upsert_source_head_def insert_task_def empty_db_def Let_def)
  with run_budget_forgotten[OF other, of sample_ext "[1]" "''tok''"] demo_claim_run show ?thesis by simp
qed

end
