(* ===== verification/Spec2Isabelle.thy ===== *)
theory Spec2Isabelle
  imports Kernel_Props Kernel_Calls Compile_Props Qug_Props Executor_Props Read_Props Compat_Props Run_Props Review_Props Feedback_Props Search_Props Reload Rate_Limit Key_Props Server_Props
begin

text \<open>
  Verification of the Wiktor knowledge compiler (crate \<^verbatim>\<open>wiktor-core\<close>, directory
  \<^verbatim>\<open>src/crates/wiktor-core/src\<close>) and of the server around it (crate \<^verbatim>\<open>wiktor-server\<close>, directory
  \<^verbatim>\<open>src/crates/wiktor-server/src\<close>).

  The program. Entities of a data source are split into a knowledge snapshot and facts
  (\<^verbatim>\<open>prepare_source\<close>), admitted to a SQLite store as compile tasks under a content hash of
  everything a page depends on (\<^verbatim>\<open>admit_compile\<close>), claimed by workers under a lease with token budgets
  (\<^verbatim>\<open>claim_compile\<close>), compiled by a language model whose answer is decoded strictly
  (\<^verbatim>\<open>decode_response\<close>), checked reference by reference against the snapshot
  (\<^verbatim>\<open>SourceRefValidator\<close>), compared with related pages (\<^verbatim>\<open>ConsistencyArbiter\<close>), scored
  (\<^verbatim>\<open>RuleScorer\<close>) and published in one transaction, or failed with a disposition
  (\<^verbatim>\<open>publish_compile\<close>, \<^verbatim>\<open>finish_compile_failure\<close>); expired leases are recovered
  (\<^verbatim>\<open>recover_compile_leases\<close>). Queries are rewritten over a graph of phrases
  (\<^verbatim>\<open>query_engine/qug.rs\<close>) and filtered by the facts. The server authenticates callers by API keys, each of
  one domain (\<^verbatim>\<open>state.rs\<close>, \<^verbatim>\<open>auth.rs\<close>), takes feedback and searches over HTTP (\<^verbatim>\<open>lib.rs\<close>,
  \<^verbatim>\<open>http_search.rs\<close>) and offers searches, reviews, builds and admissions over gRPC (\<^verbatim>\<open>services/*.rs\<close>).

  The theories, in the order of their imports.

  \<^item> Prelude: the result type (\<open>'a result\<close>, an error or a value), SQL statements on row lists
    (\<open>sql_first\<close>, \<open>sql_update\<close>, \<open>sql_upsert\<close>, \<open>sql_count\<close>), B-tree map insertion, transactions that
    roll back. Floats: \<^verbatim>\<open>f32\<close> and \<^verbatim>\<open>f64\<close> as rationals with infinities and a NaN, rounding to the
    nearest even value written out. Strings: UTF-8 text as bytes, its scalars, trimming, searching.
  \<^item> Types (\<^verbatim>\<open>types/*.rs\<close>, the data of \<^verbatim>\<open>compile/contract.rs\<close>), Policy (\<^verbatim>\<open>compile/config.rs\<close>), External
    (third-party functions as a record \<open>ext\<close>), Samples (the concrete inputs of the witnesses).
  \<^item> Hash and Content_Hash (\<^verbatim>\<open>compile/hash.rs\<close>, \<^verbatim>\<open>prepare_source\<close>): canonical JSON, length-prefixed
    framing, and their injectivity; equal hashes mean equal inputs.
  \<^item> Db (\<^verbatim>\<open>db_schema.rs\<close>) and Facts_Store (\<^verbatim>\<open>schema/facts.rs\<close>, the fact operations of
    \<^verbatim>\<open>kernel/sqlite.rs\<close> and \<^verbatim>\<open>kernel/compile_store.rs\<close>): revision-guarded writes, filters. The bounds of a
    numeric filter are bound as text, so an infinite one compares as text (\<open>column_ge\<close>, \<open>column_le\<close>) and
    a NaN is stored as NULL; \<open>entity_matches\<close> is what the filters mean, and the theorems about them say for
    which bounds the store agrees.
  \<^item> Admission, Claim, Publish, Failure (\<^verbatim>\<open>kernel/compile_store.rs\<close>): one definition per transaction and
    per statement of it. Queue_Inv, Queue_Steps, Queue_Finish, Sections, Pages_Inv, Frames, Fencing,
    Kernel, Kernel_Effects, Sources_Inv: the invariants of the queue and of the pages, that every
    operation keeps them, the step relation \<open>kernel_step\<close> with its reachable states, and what a call
    on a live lease does. Kernel_Demo: a reachable run. Kernel_Props and Kernel_Calls: the properties.
  \<^item> Contract, Evidence (\<^verbatim>\<open>compile/contract.rs\<close>), Quality, Report (\<^verbatim>\<open>compile/quality.rs\<close>), Consistency
    (\<^verbatim>\<open>compile/consistency.rs\<close>): decoder, validator, scorer, arbiter, each with an abstract
    specification (\<open>faithful_evidence\<close>, \<open>within_limits\<close>, \<open>diverges\<close>). Compile_Props: the properties.
  \<^item> Filters and Qug (\<^verbatim>\<open>query_engine/qug.rs\<close>): condition merging, graph, rewriting, traversal. Qug_Props:
    the properties.
  \<^item> Executor (\<^verbatim>\<open>compile/executor.rs\<close>, \<^verbatim>\<open>seed/mod.rs\<close>): one lease from the compiler's answer to the commit.
    Executor_Props: what a published page is and how a lease ends.
  \<^item> Read_Side (\<^verbatim>\<open>kernel/compile_store.rs\<close>, \<^verbatim>\<open>compile/consistency.rs\<close>): pages rebuilt from their rows,
    the recall of related pages, task snapshots. Read_Props: a published page reads back as it was
    committed. Compatibility (\<^verbatim>\<open>compile/compatibility.rs\<close>, \<^verbatim>\<open>compile/config.rs\<close>) and Compat_Props: the
    preflight before a run, and that it reports and quarantines exactly what violates the spec.
  \<^item> Workers, Run (\<^verbatim>\<open>compile/executor.rs\<close>): batches from the source, admission, the scheduling loop and
    the workers that share the store, dry runs. Run_Inv: every step of a run is one of the kernel's
    steps. Run_Drain: the measure of the loop. Run_Props: the run accounts for everything it fetched,
    ends, and refines the kernel's step relation.
  \<^item> Reviews (\<^verbatim>\<open>kernel/feedback_store.rs\<close>): the queue of human decisions, the re-admission of a task by
    an approval. Review_Inv: the invariant of the queue next to that of the tasks. Review_Props: what
    an approval does, that decisions are final, which tasks no review speaks of.
  \<^item> Feedback (\<^verbatim>\<open>kernel/feedback_store.rs\<close>) and Feedback_Props: ingestion of events, once per key.
  \<^item> Search (\<^verbatim>\<open>query_engine/mod.rs\<close>, \<^verbatim>\<open>query_engine/cache.rs\<close>, \<^verbatim>\<open>query_engine/hybrid.rs\<close>, the recall of
    \<^verbatim>\<open>kernel/sqlite.rs\<close>) and Search_Props: one search from validation to the query log, rank fusion,
    relaxation, the cache and what its key leaves out.
  \<^item> Qug_Build (\<^verbatim>\<open>query_engine/qug/qug_build.rs\<close>, the intents of \<^verbatim>\<open>traits/domain_pack.rs\<close>): the edges that
    accepted pages and configured intents give, and the hash of their source. Qug_Store
    (\<^verbatim>\<open>kernel/qug_store.rs\<close>): publication of a build, the active build, loading. Qug_Source: equal source
    hashes mean equal sources. Qug_Served: what later writers keep of a build. Qug_Build_Props, Qug_Demo
    and Qug_Store_Props: derivation is exact, one build is active, a build is served as long as its source
    is unchanged, where its configured edges can be built again. Reload: the engine that loads the stored graph.
  \<^item> Rate_Limit (\<^verbatim>\<open>rate_limit.rs\<close>): the limiter and that it grants exactly the limit per window. Server
    (\<^verbatim>\<open>state.rs\<close>, \<^verbatim>\<open>auth.rs\<close>, \<^verbatim>\<open>error.rs\<close>, \<^verbatim>\<open>metrics.rs\<close>): keys, callers, error codes, counters and the state the
    handlers share. Key_Props: which key configurations are accepted. Endpoints (\<^verbatim>\<open>lib.rs\<close>,
    \<^verbatim>\<open>http_search.rs\<close>, \<^verbatim>\<open>grpc.rs\<close>, \<^verbatim>\<open>services/*.rs\<close>, \<^verbatim>\<open>worker.rs\<close>): one definition per handler. Server_Inv, Server_Steps,
    Tenants, Server_Runs: what each handler does to the tables, that engines find, cache and answer entities of their own
    domain or what their vector store answered, and the step relation \<open>server_step\<close> with the invariants of its runs. Server_Props: feedback and HTTP
    searches are for the domain of the key, review decisions are not, the tables stay well formed.

  Conventions. Error messages are dropped, their variants kept. The clock, the lease uuid and the
  compiler's answers are arguments. SQL rows are lists in rowid order. Counters of the statistics are
  natural numbers, as are the counts of a consistency report; 64-bit overflow is written out where the code checks
  or saturates. An AUTOINCREMENT sequence advances when a row is inserted; SQLite may also advance it on an ignored
  conflict, so the ids of later rows are those of some run of the program, and no theorem counts them but to say they are new.

  A run is given the answers of its environment by position (\<open>site\<close>, \<open>tick\<close>): the clock, the token, the answer of the
  compiler, and what other processes do to the store: before every transaction of a real run that others can precede
  (\<open>tk_before\<close>: recovery, preflight, every admission, every claim) and between a claim and the commit of its answer or
  while the run waits (\<open>tk_others\<close>). A dry run only reads and is given no others. The draining loop may wait for ever when
  others keep resetting its tasks, so it is a partial function into options; \<open>run_terminates\<close> gives its result when the
  others are workers.

  An approval that admits a task again reads its policy back from the stored dependencies and does not validate it a
  second time. Nothing is assumed of that text, so the invariant of the queue (\<open>queue_ok\<close>) leaves a pending task open
  that allows no retry and is never claimed (\<open>claimable\<close>); \<open>retries_allowed\<close> excludes it for the stores that the
  kernel's own steps reach, whose policies are validated.

  Parameters. BLAKE3, the text of JSON numbers and the serde codecs (\<open>ext\<close>), the JSON tokenizer, the
  envelope's derived decoder and the Markdown parser (\<open>codec\<close>), the YAML and JSON decoders of a
  graph's source (\<open>qug_codec\<close>), \<^verbatim>\<open>char::to_lowercase\<close> (\<open>lower\<close>), the
  edge order of petgraph (\<open>order\<close>), the semver crate (\<open>versions\<close>), the full-text index, the embedder and
  the vector store (\<open>search_env\<close>), the decoders of request bodies and key configurations (\<open>server_codec\<close>). That
  the collection of a server's engine is named after its domain is \<open>engine_law\<close>; of the vectors in it nothing is assumed.
  The laws a theorem needs of them are its hypotheses. The moka cache
  is a map that may lose any entry at any time.

  Not modelled. Network clients, the transport of the servers and the text of their metrics, the status
  service, the command line and the consoles (input and output around the core); the offline analysis
  of feedback; the vector stores and the embedding models (third-party services); the
  model-backed compiler and arbiter (prompts and HTTP); the heartbeat and reaper tasks, which are part
  of a run's environment (their transactions are kernel steps); schema migrations (SQL text); the
  evaluation harness; SQLite itself beyond the statements the code sends.
\<close>

end
